(* ===== verification/Prelude.thy ===== *)
theory Prelude
  imports Main "HOL-Library.Product_Lexorder" "HOL-Library.List_Lexorder"
    "HOL-Library.Char_ord" "HOL-Library.Multiset"
begin

text \<open>
  Shared vocabulary of the InvoiceOps development: the fact collections the component
  theories feed, Python's insertion-ordered dictionaries as association lists, identifiers,
  the generic notion of a transition system with an inductive invariant, and the list
  lemmas that the component proofs use.
\<close>

named_theorems model_simps "equations that evaluate a modelled operation"
named_theorems shape_simps "field selections of the records an operation builds"
named_theorems inv_intros "preservation rules for the components' invariants"

text \<open>
  A \<^verbatim>\<open>uuid.UUID\<close> is the 128 bit integer it carries. The canonical text of a UUID is fixed
  width lower-case hexadecimal, so sorting by \<^verbatim>\<open>str(id)\<close> is sorting by this number.
\<close>

type_synonym uuid = nat

text \<open>Fallible code returns a sum, the raised exception on the left.\<close>

type_synonym ('e, 'a) result = "'e + 'a"

fun raises :: "('e, 'a) result \<Rightarrow> bool" where
  "raises (Inl _) = True"
| "raises (Inr _) = False"

text \<open>A loop that stops at the first exception.\<close>

fun collect :: "('e, 'a) result list \<Rightarrow> ('e, 'a list) result" where
  "collect [] = Inr []"
| "collect (Inl e # _) = Inl e"
| "collect (Inr x # rs) = (case collect rs of Inl e \<Rightarrow> Inl e | Inr xs \<Rightarrow> Inr (x # xs))"

text \<open>
  Python dictionaries keep the position of the first insertion of a key and the value of
  the last. \<^verbatim>\<open>dict.fromkeys\<close> therefore removes later duplicates.
\<close>

fun dict_put :: "'k \<Rightarrow> 'v \<Rightarrow> ('k \<times> 'v) list \<Rightarrow> ('k \<times> 'v) list" where
  "dict_put k v [] = [(k, v)]"
| "dict_put k v ((k', v') # d) = (if k = k' then (k, v) # d else (k', v') # dict_put k v d)"

definition dict_of :: "('k \<times> 'v) list \<Rightarrow> ('k \<times> 'v) list" where
  "dict_of kvs = foldl (\<lambda>d (k, v). dict_put k v d) [] kvs"

definition dict_fromkeys :: "'a list \<Rightarrow> 'a list" where
  "dict_fromkeys xs = rev (remdups (rev xs))"

fun find_row :: "('a \<Rightarrow> bool) \<Rightarrow> 'a list \<Rightarrow> 'a option" where
  "find_row P [] = None"
| "find_row P (x # xs) = (if P x then Some x else find_row P xs)"

fun update_rows :: "('a \<Rightarrow> bool) \<Rightarrow> ('a \<Rightarrow> 'a) \<Rightarrow> 'a list \<Rightarrow> 'a list" where
  "update_rows P f [] = []"
| "update_rows P f (x # xs) = (if P x then f x else x) # update_rows P f xs"

fun max_list :: "nat list \<Rightarrow> nat" where
  "max_list [] = 0"
| "max_list (x # xs) = max x (max_list xs)"

lemma collect_map_Inr [simp]: "collect (map Inr xs) = Inr xs"
  by (induction xs) auto

lemma collect_Inr: "collect rs = Inr xs \<longleftrightarrow> rs = map Inr xs"
proof
  show "collect rs = Inr xs \<Longrightarrow> rs = map Inr xs"
    by (induction rs arbitrary: xs rule: collect.induct) (auto split: sum.splits)
qed simp

lemma collect_total: "list_all (\<lambda>r. \<exists>x. r = Inr x) rs \<Longrightarrow> \<exists>xs. collect rs = Inr xs"
  by (induction rs rule: collect.induct) (auto split: sum.splits)

subsection \<open>Dictionaries\<close>

lemma dict_put_map_of [simp]: "map_of (dict_put k v d) = (map_of d)(k \<mapsto> v)"
  by (induction k v d rule: dict_put.induct) auto

lemma dict_put_keys [simp]: "fst ` set (dict_put k v d) = insert k (fst ` set d)"
  by (induction k v d rule: dict_put.induct) auto

lemma dict_put_distinct [simp]:
  "distinct (map fst d) \<Longrightarrow> distinct (map fst (dict_put k v d))"
  by (induction k v d rule: dict_put.induct) auto

lemma dict_of_snoc: "dict_of (kvs @ [(k, v)]) = dict_put k v (dict_of kvs)"
  by (simp add: dict_of_def)

lemma dict_of_Nil [simp]: "dict_of [] = []"
  by (simp add: dict_of_def)

lemma dict_of_map_of: "map_of (dict_of kvs) = map_of (rev kvs)"
proof (induction kvs rule: rev_induct)
  case (snoc p kvs)
  then show ?case by (cases p) (simp add: dict_of_snoc)
qed simp

lemma dict_of_distinct: "distinct (map fst (dict_of kvs))"
proof (induction kvs rule: rev_induct)
  case (snoc p kvs)
  then show ?case by (cases p) (simp add: dict_of_snoc)
qed simp

lemma dict_of_keys: "fst ` set (dict_of kvs) = fst ` set kvs"
proof (induction kvs rule: rev_induct)
  case (snoc p kvs)
  then show ?case by (cases p) (simp add: dict_of_snoc)
qed simp

lemma set_dict_of: "set (dict_of kvs) \<subseteq> set kvs"
proof -
  have "(k, v) \<in> set kvs" if "(k, v) \<in> set (dict_of kvs)" for k v
  proof -
    from that have "map_of (dict_of kvs) k = Some v"
      by (simp add: dict_of_distinct)
    then show ?thesis by (metis dict_of_map_of map_of_SomeD set_rev)
  qed
  then show ?thesis by auto
qed

lemma set_dict_fromkeys [simp]: "set (dict_fromkeys xs) = set xs"
  by (simp add: dict_fromkeys_def)

lemma distinct_dict_fromkeys [simp]: "distinct (dict_fromkeys xs)"
  by (simp add: dict_fromkeys_def)

lemma dict_fromkeys_Nil_iff [simp]: "dict_fromkeys xs = [] \<longleftrightarrow> xs = []"
  by (simp add: dict_fromkeys_def)

lemma dict_fromkeys_Nil [simp]: "dict_fromkeys [] = []"
  by (simp add: dict_fromkeys_def)

subsection \<open>Rows of a table\<close>

lemma find_row_Some: "find_row P xs = Some x \<Longrightarrow> x \<in> set xs \<and> P x"
  by (induction P xs rule: find_row.induct) (auto split: if_splits)

lemma find_row_None_iff: "find_row P xs = None \<longleftrightarrow> (\<forall>x \<in> set xs. \<not> P x)"
  by (induction P xs rule: find_row.induct) auto

lemma find_row_append:
  "find_row P (xs @ ys) = (case find_row P xs of None \<Rightarrow> find_row P ys | Some x \<Rightarrow> Some x)"
  by (induction P xs rule: find_row.induct) auto

lemma find_row_unique:
  assumes "x \<in> set xs" and "P x" and "\<And>y. y \<in> set xs \<Longrightarrow> P y \<Longrightarrow> y = x"
  shows "find_row P xs = Some x"
proof (cases "find_row P xs")
  case None
  with assms(1,2) show ?thesis by (auto simp: find_row_None_iff)
next
  case (Some y)
  with assms(3) show ?thesis by (auto dest: find_row_Some)
qed

lemma find_row_key:
  assumes "distinct (map key xs)" and "x \<in> set xs"
  shows "find_row (\<lambda>y. key y = key x) xs = Some x"
proof (rule find_row_unique)
  show "y = x" if "y \<in> set xs" and "key y = key x" for y
    using assms that by (auto simp: distinct_map dest: inj_onD)
qed (use assms in auto)

lemma find_row_cong:
  "(\<And>x. x \<in> set xs \<Longrightarrow> P x = Q x) \<Longrightarrow> find_row P xs = find_row Q xs"
  by (induction xs) auto

lemma length_update_rows [simp]: "length (update_rows P f xs) = length xs"
  by (induction P f xs rule: update_rows.induct) auto

lemma map_update_rows:
  "(\<And>x. g (f x) = g x) \<Longrightarrow> map g (update_rows P f xs) = map g xs"
  by (induction P f xs rule: update_rows.induct) auto

lemma set_update_rows: "set (update_rows P f xs) = (\<lambda>x. if P x then f x else x) ` set xs"
  by (induction P f xs rule: update_rows.induct) auto

lemma find_row_update_rows:
  assumes "\<And>x. Q (f x) = Q x"
  shows "find_row Q (update_rows P f xs)
    = map_option (\<lambda>x. if P x then f x else x) (find_row Q xs)"
  using assms by (induction P f xs rule: update_rows.induct) auto

lemma filter_update_rows_other:
  "(\<And>x. P x \<Longrightarrow> \<not> Q x \<and> \<not> Q (f x)) \<Longrightarrow> filter Q (update_rows P f xs) = filter Q xs"
  by (induction P f xs rule: update_rows.induct) auto

lemma max_list_ge: "x \<in> set xs \<Longrightarrow> x \<le> max_list xs"
  by (induction xs rule: max_list.induct) auto

lemma max_list_upto: "max_list [Suc 0..<Suc n] = n"
proof (induction n)
  case (Suc n)
  have "max_list (xs @ [y]) = max y (max_list xs)" for xs y
    by (induction xs rule: max_list.induct) auto
  with Suc show ?case by simp
qed simp

subsection \<open>Sorting\<close>

lemma distinct_map_sort_key [simp]:
  "distinct (map f (sort_key g xs)) \<longleftrightarrow> distinct (map f xs)"
  by (metis distinct_map distinct_sort set_sort)

lemma sorted_upt_filter: "sorted (filter P [0..<n])"
  by (simp add: sorted_wrt_filter)

lemma filter_False_iff: "filter P xs = [] \<longleftrightarrow> (\<forall>x \<in> set xs. \<not> P x)"
  by (simp add: filter_empty_conv)

text \<open>Sorting by a key that is injective on the list only depends on the multiset.\<close>

lemma sort_key_mset_eq:
  assumes "mset xs = mset ys" and "inj_on f (set xs)"
  shows "sort_key f xs = sort_key f ys"
proof (rule properties_for_sort_key)
  have eq: "set xs = set ys" using assms(1) by (metis set_mset_mset)
  show "mset (sort_key f ys) = mset xs" using assms(1) by simp
  show "filter (\<lambda>y. f k = f y) (sort_key f ys) = filter (\<lambda>y. f k = f y) xs"
    if "k \<in> set (sort_key f ys)" for k
  proof -
    from that eq have k: "k \<in> set xs" by simp
    have P: "f k = f y \<longleftrightarrow> y = k" if "y \<in> set xs" for y
      using assms(2) k that by (auto dest: inj_onD)
    have "filter (\<lambda>y. f k = f y) zs = replicate (count (mset zs) k) k"
      if "set zs \<subseteq> set xs" for zs
      using that by (induction zs) (auto simp: P)
    then show ?thesis using assms(1) eq by simp
  qed
qed simp

subsection \<open>Transition systems with an inductive invariant\<close>

inductive reachable_from :: "('s \<Rightarrow> bool) \<Rightarrow> ('s \<Rightarrow> 's \<Rightarrow> bool) \<Rightarrow> 's \<Rightarrow> bool"
  for start step where
  reach_start: "start s \<Longrightarrow> reachable_from start step s"
| reach_step: "reachable_from start step s \<Longrightarrow> step s t \<Longrightarrow> reachable_from start step t"

locale inductive_system =
  fixes start :: "'s \<Rightarrow> bool"
    and step :: "'s \<Rightarrow> 's \<Rightarrow> bool"
    and inv :: "'s \<Rightarrow> bool"
  assumes inv_start: "start s \<Longrightarrow> inv s"
    and inv_step: "step s t \<Longrightarrow> inv s \<Longrightarrow> inv t"
begin

lemma inv_reachable: "reachable_from start step s \<Longrightarrow> inv s"
  by (induction rule: reachable_from.induct) (auto intro: inv_start inv_step)

lemma inv_many: "step\<^sup>*\<^sup>* s t \<Longrightarrow> inv s \<Longrightarrow> inv t"
  by (induction rule: rtranclp_induct) (auto intro: inv_step)

lemma reachable_many: "reachable_from start step s \<Longrightarrow> step\<^sup>*\<^sup>* s t \<Longrightarrow> reachable_from start step t"
  by (rotate_tac, induction rule: rtranclp_induct) (auto intro: reach_step)

end

subsection \<open>Operations that may be replayed\<close>

text \<open>
  Several services accept a command again: they look for the row the command identifies, return it
  when it agrees with the command, and otherwise insert one. The interface has two laws, what a hit
  returns and that a successful run leaves its row to be found.
\<close>

locale keyed_replay =
  fixes lookup :: "'c \<Rightarrow> 'db \<Rightarrow> 'row option"
    and agrees :: "'c \<Rightarrow> 'row \<Rightarrow> bool"
    and run :: "'env \<Rightarrow> 'c \<Rightarrow> 'db \<Rightarrow> ('e, 'row \<times> bool) result \<times> 'db"
  assumes hit: "lookup c db = Some r \<Longrightarrow> agrees c r \<Longrightarrow> run env c db = (Inr (r, False), db)"
    and stored: "run env c db = (Inr (r, b), db') \<Longrightarrow> lookup c db' = Some r \<and> agrees c r"
begin

lemma replay_idempotent: "run env c db = (Inr (r, b), db') \<Longrightarrow> run env' c db' = (Inr (r, False), db')"
  using hit stored by blast

lemma replay_many:
  "run env c db = (Inr (r, b), db') \<Longrightarrow> foldl (\<lambda>d e. snd (run e c d)) db' envs = db'"
  by (induction envs) (simp_all add: replay_idempotent)

end

end
