(* ===== verification/Text.thy ===== *)
theory Text
  imports Prelude
begin

text \<open>
  The string operations the sources use, on ASCII text: \<^verbatim>\<open>str.strip\<close>, \<^verbatim>\<open>str.split()\<close>,
  \<^verbatim>\<open>str.join\<close>, case folding, character classes, decimal digit strings and \<^verbatim>\<open>int(...)\<close>.
  \<^verbatim>\<open>unicodedata.normalize("NFKC", ...)\<close> is the identity on ASCII text and \<^verbatim>\<open>casefold\<close> is
  \<^verbatim>\<open>lower\<close> there.
\<close>

definition char_code :: "char \<Rightarrow> nat" where
  "char_code c = of_char c"

definition is_space :: "char \<Rightarrow> bool" where
  "is_space c = (let n = char_code c in (9 \<le> n \<and> n \<le> 13) \<or> (28 \<le> n \<and> n \<le> 32))"

definition is_digit :: "char \<Rightarrow> bool" where
  "is_digit c = (let n = char_code c in 48 \<le> n \<and> n \<le> 57)"

definition is_upper :: "char \<Rightarrow> bool" where
  "is_upper c = (let n = char_code c in 65 \<le> n \<and> n \<le> 90)"

definition is_lower :: "char \<Rightarrow> bool" where
  "is_lower c = (let n = char_code c in 97 \<le> n \<and> n \<le> 122)"

definition is_alnum :: "char \<Rightarrow> bool" where
  "is_alnum c = (is_digit c \<or> is_upper c \<or> is_lower c)"

definition is_word_char :: "char \<Rightarrow> bool" where
  "is_word_char c = (is_alnum c \<or> c = CHR ''_'')"

definition lower_char :: "char \<Rightarrow> char" where
  "lower_char c = (if is_upper c then char_of (char_code c + 32) else c)"

definition upper_char :: "char \<Rightarrow> char" where
  "upper_char c = (if is_lower c then char_of (char_code c - 32) else c)"

definition py_casefold :: "string \<Rightarrow> string" where
  "py_casefold = map lower_char"

definition py_upper :: "string \<Rightarrow> string" where
  "py_upper = map upper_char"

definition py_strip :: "string \<Rightarrow> string" where
  "py_strip s = rev (dropWhile is_space (rev (dropWhile is_space s)))"

fun split_ws :: "string \<Rightarrow> string \<Rightarrow> string list" where
  "split_ws cur [] = (if cur = [] then [] else [cur])"
| "split_ws cur (c # cs) =
     (if is_space c then (if cur = [] then split_ws [] cs else cur # split_ws [] cs)
      else split_ws (cur @ [c]) cs)"

definition py_split :: "string \<Rightarrow> string list" where
  "py_split s = split_ws [] s"

fun py_join :: "string \<Rightarrow> string list \<Rightarrow> string" where
  "py_join sep [] = []"
| "py_join sep [x] = x"
| "py_join sep (x # y # xs) = x @ sep @ py_join sep (y # xs)"

fun split_on :: "char \<Rightarrow> string \<Rightarrow> string \<Rightarrow> string list" where
  "split_on d cur [] = [cur]"
| "split_on d cur (c # cs) = (if c = d then cur # split_on d [] cs else split_on d (cur @ [c]) cs)"

definition starts_with :: "string \<Rightarrow> string \<Rightarrow> bool" where
  "starts_with p s = (take (length p) s = p)"

subsection \<open>Decimal digits\<close>

definition digit_char :: "int \<Rightarrow> char" where
  "digit_char d = char_of (48 + nat d)"

text \<open>The digits of a number that is not negative, most significant first.\<close>

function nat_digits :: "int \<Rightarrow> string" where
  "nat_digits n = (if n < 10 then [digit_char n] else nat_digits (n div 10) @ [digit_char (n mod 10)])"
  by pat_completeness auto
termination
  by (relation "measure nat") auto

declare nat_digits.simps [simp del]

definition digits_value :: "string \<Rightarrow> int" where
  "digits_value s = foldl (\<lambda>a c. a * 10 + (int (char_code c) - 48)) 0 s"

definition int_text :: "int \<Rightarrow> string" where
  "int_text i = (if i < 0 then ''-'' @ nat_digits (- i) else nat_digits i)"

definition pad_left :: "nat \<Rightarrow> string \<Rightarrow> string" where
  "pad_left n s = replicate (n - length s) (CHR ''0'') @ s"

text \<open>\<^verbatim>\<open>int(text)\<close>: surrounding space, a sign, digit groups separated by single underscores.\<close>

definition py_int :: "string \<Rightarrow> int option" where
  "py_int s =
     (let t = py_strip s;
          neg = (t \<noteq> [] \<and> hd t = CHR ''-'');
          u = (if t \<noteq> [] \<and> (hd t = CHR ''-'' \<or> hd t = CHR ''+'') then tl t else t);
          groups = split_on (CHR ''_'') [] u
      in if list_all (\<lambda>g. g \<noteq> [] \<and> list_all is_digit g) groups
         then Some (let v = digits_value (concat groups) in if neg then - v else v)
         else None)"

subsection \<open>Lemmas\<close>

lemma char_code_digit_char: "0 \<le> d \<Longrightarrow> d < 10 \<Longrightarrow> char_code (digit_char d) = 48 + nat d"
  by (simp add: char_code_def digit_char_def)

lemma is_digit_digit_char [simp]: "0 \<le> d \<Longrightarrow> d < 10 \<Longrightarrow> is_digit (digit_char d)"
  by (simp add: is_digit_def char_code_digit_char)

lemma nat_digits_all_digits: "0 \<le> n \<Longrightarrow> list_all is_digit (nat_digits n)"
proof (induction n rule: nat_digits.induct)
  case (1 n)
  then show ?case
    by (cases "n < 10") (simp_all add: nat_digits.simps [of n])
qed

lemma nat_digits_nonempty [simp]: "nat_digits n \<noteq> []"
  by (subst nat_digits.simps) simp

lemma digits_value_append_one:
  "digits_value (s @ [c]) = digits_value s * 10 + (int (char_code c) - 48)"
  by (simp add: digits_value_def)

lemma digits_value_Nil [simp]: "digits_value [] = 0"
  by (simp add: digits_value_def)

lemma digits_value_nat_digits [simp]: "0 \<le> n \<Longrightarrow> digits_value (nat_digits n) = n"
proof (induction n rule: nat_digits.induct)
  case (1 n)
  show ?case
  proof (cases "n < 10")
    case True
    with 1 show ?thesis
      by (simp add: nat_digits.simps [of n] digits_value_def char_code_digit_char)
  next
    case False
    with 1 have "digits_value (nat_digits (n div 10)) = n div 10" by simp
    with False show ?thesis
      by (simp add: nat_digits.simps [of n] digits_value_append_one char_code_digit_char)
  qed
qed

lemma nat_digits_inject: "0 \<le> m \<Longrightarrow> 0 \<le> n \<Longrightarrow> nat_digits m = nat_digits n \<longleftrightarrow> m = n"
  by (metis digits_value_nat_digits)

lemma digits_value_append:
  "digits_value (s @ t) = digits_value s * 10 ^ length t + digits_value t"
proof (induction t rule: rev_induct)
  case (snoc c t)
  have "digits_value (s @ t @ [c]) = digits_value ((s @ t) @ [c])" by simp
  with snoc show ?case
    by (simp only: digits_value_append_one) (simp add: algebra_simps)
qed simp

lemma digits_value_zeros [simp]: "digits_value (replicate n (CHR ''0'')) = 0"
proof (induction n)
  case (Suc n)
  have "replicate (Suc n) (CHR ''0'') = replicate n (CHR ''0'') @ [CHR ''0'']"
    by (simp add: replicate_append_same)
  with Suc show ?case by (simp only: digits_value_append_one) (simp add: char_code_def)
qed simp

lemma digits_value_pad_left [simp]: "digits_value (pad_left n s) = digits_value s"
  by (simp add: pad_left_def digits_value_append)

lemma is_digit_zero [simp]: "is_digit (CHR ''0'')"
  by (simp add: is_digit_def char_code_def)

lemma pad_left_all_digits: "list_all is_digit s \<Longrightarrow> list_all is_digit (pad_left n s)"
  by (auto simp: pad_left_def list_all_iff)

lemma length_pad_left [simp]: "length (pad_left n s) = max n (length s)"
  by (simp add: pad_left_def)

lemma digit_not_space: "is_digit c \<Longrightarrow> \<not> is_space c"
  by (auto simp: is_digit_def is_space_def Let_def)

lemma py_strip_Nil [simp]: "py_strip [] = []"
  by (simp add: py_strip_def)

lemma py_strip_no_space: "\<forall>c \<in> set s. \<not> is_space c \<Longrightarrow> py_strip s = s"
proof -
  assume a: "\<forall>c \<in> set s. \<not> is_space c"
  then have "dropWhile is_space s = s" by (cases s) auto
  moreover from a have "dropWhile is_space (rev s) = rev s"
    by (cases "rev s") (auto simp: rev_swap)
  ultimately show ?thesis by (simp add: py_strip_def)
qed

lemma py_strip_blank_iff: "py_strip s = [] \<longleftrightarrow> (\<forall>c \<in> set s. is_space c)"
proof -
  have "py_strip s = [] \<longleftrightarrow> (\<forall>c \<in> set (dropWhile is_space s). is_space c)"
    by (simp add: py_strip_def)
  also have "\<dots> \<longleftrightarrow> dropWhile is_space s = []"
  proof
    assume "\<forall>c \<in> set (dropWhile is_space s). is_space c"
    then show "dropWhile is_space s = []"
      by (metis hd_dropWhile list.set_sel(1))
  qed (auto dest: set_dropWhileD)
  finally show ?thesis by simp
qed

lemma dropWhile_idem: "dropWhile P (dropWhile P xs) = dropWhile P xs"
  by (induction xs) auto

lemma rstrip_keeps_head:
  assumes "xs \<noteq> []" and "\<not> P (hd xs)"
  shows "dropWhile P (rev (dropWhile P (rev xs))) = rev (dropWhile P (rev xs))"
proof -
  from assms obtain y ys where xs: "xs = y # ys" and y: "\<not> P y" by (cases xs) auto
  have "dropWhile P (rev ys @ [y]) = (if \<forall>z \<in> set ys. P z then [y] else dropWhile P (rev ys) @ [y])"
    using y by (induction ys rule: rev_induct) (auto simp: dropWhile_append1 dropWhile_append2)
  then show ?thesis using xs y by auto
qed

lemma py_strip_idem [simp]: "py_strip (py_strip s) = py_strip s"
proof (cases "dropWhile is_space s = []")
  case True
  then have "py_strip s = []" by (simp only: py_strip_def) simp
  then show ?thesis by simp
next
  case False
  let ?t = "dropWhile is_space s"
  have "\<not> is_space (hd ?t)" using False by (simp add: hd_dropWhile)
  with False have "dropWhile is_space (py_strip s) = py_strip s"
    unfolding py_strip_def by (rule rstrip_keeps_head)
  then show ?thesis
    by (simp add: py_strip_def dropWhile_idem)
qed

end
