(* ===== verification/Decimals.thy ===== *)
theory Decimals
  imports Complex_Main Text
begin

text \<open>
  Python's \<^verbatim>\<open>decimal.Decimal\<close> (radix 10, 28 significant digits, round half even) and \<^verbatim>\<open>float\<close>
  (radix 2, 53 significant bits, round half even) as one type of scaled integers. Every
  arithmetic operation is computed exactly and then rounded to the context's precision, as
  the General Decimal Arithmetic and IEEE 754 specifications say; comparisons are exact.
  \<^verbatim>\<open>format(d, "f")\<close>, \<^verbatim>\<open>Decimal(text)\<close> and \<^verbatim>\<open>f"{x:.6f}"\<close> are modelled on the digit strings.
  Not modelled: NaN and the infinities (the schemas reject them), the sign of zero and
  exponent overflow.
\<close>

datatype scaled = Scaled (coeff: int) (expo: int)

type_synonym decimal = scaled
type_synonym pyfloat = scaled

definition sval :: "int \<Rightarrow> scaled \<Rightarrow> rat" where
  "sval b x = of_int (coeff x) * of_int b powi (expo x)"

definition align :: "int \<Rightarrow> int \<Rightarrow> scaled \<Rightarrow> int" where
  "align b m x = coeff x * b ^ nat (expo x - m)"

function ndigits :: "int \<Rightarrow> int \<Rightarrow> nat" where
  "ndigits b n = (if b < 2 \<or> n < b then 1 else Suc (ndigits b (n div b)))"
  by pat_completeness auto
termination
proof (relation "measure (\<lambda>(b, n). nat n)")
  fix b n :: int
  assume "\<not> (b < 2 \<or> n < b)"
  then have "n div b < n" by (intro int_div_less_self) auto
  with \<open>\<not> (b < 2 \<or> n < b)\<close> show "((b, n div b), b, n) \<in> measure (\<lambda>(b, n). nat n)" by simp
qed simp

declare ndigits.simps [simp del]

definition round_half_even :: "int \<Rightarrow> int \<Rightarrow> int" where
  "round_half_even n d =
     (let q = n div d; r = n mod d in if d < 2 * r \<or> (2 * r = d \<and> odd q) then q + 1 else q)"

text \<open>Rounding to \<open>p\<close> significant digits; a carry out of the top digit moves the exponent.\<close>

definition sfix :: "int \<Rightarrow> nat \<Rightarrow> scaled \<Rightarrow> scaled" where
  "sfix b p x =
     (let c = \<bar>coeff x\<bar> in
      if c < b ^ p then x
      else let k = ndigits b c - p; q = round_half_even c (b ^ k) in
        if q = b ^ p then Scaled (sgn (coeff x) * b ^ (p - 1)) (expo x + int k + 1)
        else Scaled (sgn (coeff x) * q) (expo x + int k))"

definition sadd :: "int \<Rightarrow> nat \<Rightarrow> scaled \<Rightarrow> scaled \<Rightarrow> scaled" where
  "sadd b p x y =
     (let m = min (expo x) (expo y) in sfix b p (Scaled (align b m x + align b m y) m))"

definition ssub :: "int \<Rightarrow> nat \<Rightarrow> scaled \<Rightarrow> scaled \<Rightarrow> scaled" where
  "ssub b p x y = sadd b p x (Scaled (- coeff y) (expo y))"

definition smul :: "int \<Rightarrow> nat \<Rightarrow> scaled \<Rightarrow> scaled \<Rightarrow> scaled" where
  "smul b p x y = sfix b p (Scaled (coeff x * coeff y) (expo x + expo y))"

definition sabs :: "int \<Rightarrow> nat \<Rightarrow> scaled \<Rightarrow> scaled" where
  "sabs b p x = sfix b p (Scaled \<bar>coeff x\<bar> (expo x))"

text \<open>Trailing zeros of an exact quotient are removed up to the ideal exponent.\<close>

fun strip_zeros :: "nat \<Rightarrow> int \<Rightarrow> int \<Rightarrow> int \<Rightarrow> int \<times> int" where
  "strip_zeros 0 b c e = (c, e)"
| "strip_zeros (Suc n) b c e =
     (if c mod b = 0 then strip_zeros n b (c div b) (e + 1) else (c, e))"

definition sdiv :: "int \<Rightarrow> nat \<Rightarrow> scaled \<Rightarrow> scaled \<Rightarrow> scaled option" where
  "sdiv b p x y =
     (if coeff y = 0 then None
      else if coeff x = 0 then Some (Scaled 0 (expo x - expo y))
      else let n = \<bar>coeff x\<bar>; d = \<bar>coeff y\<bar>;
               s = sgn (coeff x) * sgn (coeff y);
               shift = int (ndigits b d) - int (ndigits b n) + int p + 1;
               e = expo x - expo y - shift;
               n' = n * b ^ nat shift; d' = d * b ^ nat (- shift)
           in if n' mod d' \<noteq> 0
              then Some (sfix b p (Scaled (s * (n' div d' * b + 1)) (e - 1)))
              else let (c, e') = strip_zeros (nat shift) b (n' div d') e
                   in Some (sfix b p (Scaled (s * c) e')))"

definition sle :: "int \<Rightarrow> scaled \<Rightarrow> scaled \<Rightarrow> bool" where
  "sle b x y = (let m = min (expo x) (expo y) in align b m x \<le> align b m y)"

definition slt :: "int \<Rightarrow> scaled \<Rightarrow> scaled \<Rightarrow> bool" where
  "slt b x y = (let m = min (expo x) (expo y) in align b m x < align b m y)"

definition seq :: "int \<Rightarrow> scaled \<Rightarrow> scaled \<Rightarrow> bool" where
  "seq b x y = (let m = min (expo x) (expo y) in align b m x = align b m y)"

subsection \<open>Decimal under the default context\<close>

definition dadd :: "decimal \<Rightarrow> decimal \<Rightarrow> decimal" where "dadd = sadd 10 28"
definition dsub :: "decimal \<Rightarrow> decimal \<Rightarrow> decimal" where "dsub = ssub 10 28"
definition dmul :: "decimal \<Rightarrow> decimal \<Rightarrow> decimal" where "dmul = smul 10 28"
definition dabs :: "decimal \<Rightarrow> decimal" where "dabs = sabs 10 28"
definition ddiv :: "decimal \<Rightarrow> decimal \<Rightarrow> decimal option" where "ddiv = sdiv 10 28"
definition dle :: "decimal \<Rightarrow> decimal \<Rightarrow> bool" where "dle = sle 10"
definition dlt :: "decimal \<Rightarrow> decimal \<Rightarrow> bool" where "dlt = slt 10"
definition deq :: "decimal \<Rightarrow> decimal \<Rightarrow> bool" where "deq = seq 10"
definition dval :: "decimal \<Rightarrow> rat" where "dval = sval 10"

definition dzero :: decimal where "dzero = Scaled 0 0"

definition dsum :: "decimal list \<Rightarrow> decimal" where
  "dsum xs = foldl dadd dzero xs"

text \<open>Exactly representable: the exact result needs at most 28 digits.\<close>

definition fits28 :: "int \<Rightarrow> bool" where
  "fits28 c = (\<bar>c\<bar> < 10 ^ 28)"

subsection \<open>Binary floats\<close>

definition fsub :: "pyfloat \<Rightarrow> pyfloat \<Rightarrow> pyfloat" where "fsub = ssub 2 53"
definition fdiv :: "pyfloat \<Rightarrow> pyfloat \<Rightarrow> pyfloat option" where "fdiv = sdiv 2 53"
definition fle :: "pyfloat \<Rightarrow> pyfloat \<Rightarrow> bool" where "fle = sle 2"
definition flt :: "pyfloat \<Rightarrow> pyfloat \<Rightarrow> bool" where "flt = slt 2"
definition fval :: "pyfloat \<Rightarrow> rat" where "fval = sval 2"

text \<open>\<^verbatim>\<open>f"{x:.6f}"\<close>: the exact binary value rounded half even to six decimals.\<close>

definition format_fixed6 :: "pyfloat \<Rightarrow> string" where
  "format_fixed6 x =
     (let n = \<bar>coeff x\<bar> * 10 ^ 6 * 2 ^ nat (expo x);
          q = round_half_even n (2 ^ nat (- expo x))
      in (if coeff x < 0 then ''-'' else [])
         @ nat_digits (q div 10 ^ 6) @ ''.'' @ pad_left 6 (nat_digits (q mod 10 ^ 6)))"

subsection \<open>Text of a decimal\<close>

definition decimal_string :: "decimal \<Rightarrow> string" where
  "decimal_string d =
     (if coeff d < 0 then ''-'' else []) @
     (let ds = nat_digits \<bar>coeff d\<bar> in
      if 0 \<le> expo d then (if coeff d = 0 then ''0'' else ds @ replicate (nat (expo d)) (CHR ''0''))
      else let k = nat (- expo d); ps = pad_left (Suc k) ds; n = length ps - k
           in take n ps @ ''.'' @ drop n ps)"

definition signed_digits :: "string \<Rightarrow> int option" where
  "signed_digits s =
     (let neg = (s \<noteq> [] \<and> hd s = CHR ''-'');
          u = (if s \<noteq> [] \<and> (hd s = CHR ''-'' \<or> hd s = CHR ''+'') then tl s else s)
      in if u \<noteq> [] \<and> list_all is_digit u
         then Some (let v = digits_value u in if neg then - v else v) else None)"

definition decimal_of_string :: "string \<Rightarrow> decimal option" where
  "decimal_of_string s =
     (let t = py_strip s;
          neg = (t \<noteq> [] \<and> hd t = CHR ''-'');
          u = (if t \<noteq> [] \<and> (hd t = CHR ''-'' \<or> hd t = CHR ''+'') then tl t else t);
          m = takeWhile (\<lambda>c. c \<noteq> CHR ''e'' \<and> c \<noteq> CHR ''E'') u;
          r = drop (length m) u;
          ip = takeWhile (\<lambda>c. c \<noteq> CHR ''.'') m;
          fp = tl (drop (length ip) m);
          ex = (if r = [] then Some 0 else signed_digits (tl r))
      in if ip @ fp \<noteq> [] \<and> list_all is_digit (ip @ fp)
         then (case ex of None \<Rightarrow> None
               | Some x \<Rightarrow> Some (Scaled ((if neg then -1 else 1) * digits_value (ip @ fp))
                                     (x - int (length fp))))
         else None)"

subsection \<open>Values and comparisons\<close>

lemma sval_align:
  assumes "0 < b" and "m \<le> expo x"
  shows "sval b x = of_int (align b m x) * of_int b powi m"
proof -
  from assms(2) have "expo x = int (nat (expo x - m)) + m" by simp
  then have "(of_int b :: rat) powi (expo x) = of_int b ^ nat (expo x - m) * of_int b powi m"
    using assms(1) by (metis of_int_0_eq_iff order_less_irrefl power_int_add power_int_of_nat)
  then show ?thesis by (simp add: sval_def align_def)
qed

lemma powi_pos: "0 < b \<Longrightarrow> 0 < (of_int b :: rat) powi m"
  by (simp add: zero_less_power_int)

lemma sle_iff: "0 < b \<Longrightarrow> sle b x y \<longleftrightarrow> sval b x \<le> sval b y"
  using sval_align [of b "min (expo x) (expo y)" x] sval_align [of b "min (expo x) (expo y)" y]
    powi_pos [of b "min (expo x) (expo y)"]
  by (simp add: sle_def Let_def)

lemma slt_iff: "0 < b \<Longrightarrow> slt b x y \<longleftrightarrow> sval b x < sval b y"
  using sval_align [of b "min (expo x) (expo y)" x] sval_align [of b "min (expo x) (expo y)" y]
    powi_pos [of b "min (expo x) (expo y)"]
  by (simp add: slt_def Let_def)

lemma seq_iff: "0 < b \<Longrightarrow> seq b x y \<longleftrightarrow> sval b x = sval b y"
  using sval_align [of b "min (expo x) (expo y)" x] sval_align [of b "min (expo x) (expo y)" y]
    powi_pos [of b "min (expo x) (expo y)"]
  by (simp add: seq_def Let_def)

lemma dle_iff: "dle x y \<longleftrightarrow> dval x \<le> dval y"
  by (simp add: dle_def dval_def sle_iff)

lemma dlt_iff: "dlt x y \<longleftrightarrow> dval x < dval y"
  by (simp add: dlt_def dval_def slt_iff)

lemma deq_iff: "deq x y \<longleftrightarrow> dval x = dval y"
  by (simp add: deq_def dval_def seq_iff)

lemma fle_iff: "fle x y \<longleftrightarrow> fval x \<le> fval y"
  by (simp add: fle_def fval_def sle_iff)

lemma flt_iff: "flt x y \<longleftrightarrow> fval x < fval y"
  by (simp add: flt_def fval_def slt_iff)

lemmas num_iffs = dle_iff dlt_iff deq_iff fle_iff flt_iff

lemma dval_dzero [simp]: "dval dzero = 0"
  by (simp add: dval_def sval_def dzero_def)

subsection \<open>Exactness below the precision\<close>

lemma sfix_exact [simp]: "\<bar>coeff x\<bar> < b ^ p \<Longrightarrow> sfix b p x = x"
  by (simp add: sfix_def Let_def)

lemma sadd_exact:
  assumes "0 < b"
    and "\<bar>align b (min (expo x) (expo y)) x + align b (min (expo x) (expo y)) y\<bar> < b ^ p"
  shows "sval b (sadd b p x y) = sval b x + sval b y"
proof -
  let ?m = "min (expo x) (expo y)"
  have "sval b (sadd b p x y) = of_int (align b ?m x + align b ?m y) * of_int b powi ?m"
    using assms(2) by (simp add: sadd_def Let_def sval_def)
  also have "\<dots> = sval b x + sval b y"
    using sval_align [OF assms(1), of ?m x] sval_align [OF assms(1), of ?m y]
    by (simp add: algebra_simps)
  finally show ?thesis .
qed

lemma smul_exact:
  assumes "0 < b" and "\<bar>coeff x * coeff y\<bar> < b ^ p"
  shows "sval b (smul b p x y) = sval b x * sval b y"
  using assms by (simp add: smul_def sval_def power_int_add)

lemma sabs_exact:
  assumes "0 < b" and "\<bar>coeff x\<bar> < b ^ p"
  shows "sval b (sabs b p x) = \<bar>sval b x\<bar>"
  using assms powi_pos [of b "expo x"] by (simp add: sabs_def sval_def abs_mult)

subsection \<open>Every result fits the precision\<close>

lemma ndigits_upper: "2 \<le> b \<Longrightarrow> 0 \<le> n \<Longrightarrow> n < b ^ ndigits b n"
proof (induction b n rule: ndigits.induct)
  case (1 b n)
  show ?case
  proof (cases "n < b")
    case True
    then show ?thesis by (simp add: ndigits.simps [of b n])
  next
    case False
    with 1 have IH: "n div b < b ^ ndigits b (n div b)"
      by (simp add: pos_imp_zdiv_nonneg_iff)
    have "n mod b < b" using 1 by simp
    then have "n < b * (n div b) + b" by (metis add_strict_left_mono mult_div_mod_eq)
    also have "\<dots> = b * (n div b + 1)" by (simp add: algebra_simps)
    also have "\<dots> \<le> b * b ^ ndigits b (n div b)"
      using IH 1 by (intro mult_left_mono) auto
    finally show ?thesis using False 1 by (simp add: ndigits.simps [of b n])
  qed
qed

lemma round_half_even_le: "round_half_even n d \<le> n div d + 1"
  by (simp add: round_half_even_def Let_def)

lemma round_half_even_nonneg: "0 \<le> n \<Longrightarrow> 0 < d \<Longrightarrow> 0 \<le> round_half_even n d"
  by (simp add: round_half_even_def Let_def pos_imp_zdiv_nonneg_iff)

lemma ndigits_exceeds:
  assumes "2 \<le> b" and "b ^ p \<le> c" and "0 \<le> c"
  shows "p < ndigits b c"
proof (rule ccontr)
  assume "\<not> p < ndigits b c"
  then have "b ^ ndigits b c \<le> b ^ p" using assms(1) by (intro power_increasing) auto
  with ndigits_upper [OF assms(1,3)] assms(2) show False by simp
qed

lemma scaled_down_bound:
  assumes "2 \<le> b" and "b ^ p \<le> c" and "0 \<le> c"
  shows "round_half_even c (b ^ (ndigits b c - p)) \<le> b ^ p"
proof -
  let ?n = "ndigits b c" let ?k = "ndigits b c - p"
  have pos: "0 < b ^ ?k" using assms(1) by simp
  have "p < ?n" using assms by (rule ndigits_exceeds)
  then have "b ^ ?n = b ^ p * b ^ ?k" by (simp flip: power_add)
  with ndigits_upper [OF assms(1,3)] have "c < b ^ p * b ^ ?k" by simp
  moreover have "c div b ^ ?k * b ^ ?k \<le> c"
    using pos by (simp add: div_mult2_eq minus_mod_eq_div_mult [symmetric])
  ultimately have "c div b ^ ?k * b ^ ?k < b ^ p * b ^ ?k" by simp
  then have "c div b ^ ?k < b ^ p" using pos by (simp add: mult_less_cancel_right)
  with round_half_even_le [of c "b ^ ?k"] show ?thesis by simp
qed

lemma sfix_bound:
  assumes "2 \<le> b" and "0 < p"
  shows "\<bar>coeff (sfix b p x)\<bar> < b ^ p"
proof (cases "\<bar>coeff x\<bar> < b ^ p")
  case True
  then show ?thesis by simp
next
  case False
  let ?q = "round_half_even \<bar>coeff x\<bar> (b ^ (ndigits b \<bar>coeff x\<bar> - p))"
  have q: "0 \<le> ?q" "?q \<le> b ^ p"
    using assms False by (auto intro: scaled_down_bound round_half_even_nonneg)
  have "b ^ (p - 1) < b ^ p" using assms by (intro power_strict_increasing) auto
  then show ?thesis
    using False q assms by (auto simp: sfix_def Let_def abs_mult sgn_if)
qed

lemma dadd_bound: "fits28 (coeff (dadd x y))"
  using sfix_bound [of 10 28] by (simp add: fits28_def dadd_def sadd_def Let_def)

lemma dsub_bound: "fits28 (coeff (dsub x y))"
  using sfix_bound [of 10 28] by (simp add: fits28_def dsub_def ssub_def sadd_def Let_def)

lemma dmul_bound: "fits28 (coeff (dmul x y))"
  using sfix_bound [of 10 28] by (simp add: fits28_def dmul_def smul_def)

lemma dabs_value: "fits28 (coeff x) \<Longrightarrow> dval (dabs x) = \<bar>dval x\<bar>"
  by (simp add: fits28_def dval_def dabs_def sabs_exact)

lemma dmul_value: "fits28 (coeff x * coeff y) \<Longrightarrow> dval (dmul x y) = dval x * dval y"
  by (simp add: fits28_def dval_def dmul_def smul_exact)

text \<open>Numbers of one scale: the columns are \<^verbatim>\<open>Numeric(24, 8)\<close>.\<close>

definition scale_of :: "int \<Rightarrow> decimal \<Rightarrow> int" where
  "scale_of e x = align 10 e x"

lemma dval_scale: "e \<le> expo x \<Longrightarrow> dval x = of_int (scale_of e x) * 10 powi e"
  using sval_align [of 10 e x] by (simp add: dval_def scale_of_def)

lemma dadd_value:
  assumes "e \<le> expo x" and "e \<le> expo y" and "fits28 (\<bar>scale_of e x\<bar> + \<bar>scale_of e y\<bar>)"
  shows "dval (dadd x y) = dval x + dval y" and "e \<le> expo (dadd x y)"
    and "scale_of e (dadd x y) = scale_of e x + scale_of e y"
proof -
  let ?m = "min (expo x) (expo y)"
  have m: "e \<le> ?m" using assms by simp
  have al: "scale_of e z = align 10 ?m z * 10 ^ nat (?m - e)" if "?m \<le> expo z" for z
  proof -
    have "nat (expo z - e) = nat (expo z - ?m) + nat (?m - e)" using that m by linarith
    then show ?thesis by (simp only: scale_of_def align_def power_add mult.assoc)
  qed
  let ?s = "align 10 ?m x + align 10 ?m y"
  have "\<bar>?s\<bar> \<le> \<bar>?s * 10 ^ nat (?m - e)\<bar>"
    by (simp add: abs_mult mult_le_cancel_left1)
  also have "?s * 10 ^ nat (?m - e) = scale_of e x + scale_of e y"
    by (simp add: al algebra_simps)
  finally have "\<bar>?s\<bar> \<le> \<bar>scale_of e x\<bar> + \<bar>scale_of e y\<bar>" by linarith
  then have fit: "\<bar>?s\<bar> < 10 ^ 28" using assms(3) by (simp add: fits28_def)
  from fit have eq: "dadd x y = Scaled ?s ?m" by (simp add: dadd_def sadd_def Let_def)
  show "dval (dadd x y) = dval x + dval y"
    using fit sadd_exact [of 10 x y 28] by (simp add: dval_def dadd_def)
  show "e \<le> expo (dadd x y)" using m by (simp add: eq)
  show "scale_of e (dadd x y) = scale_of e x + scale_of e y"
    using al [of x] al [of y] by (simp add: eq) (simp add: scale_of_def align_def algebra_simps)
qed

subsection \<open>Printing and parsing\<close>

lemma digit_not_special:
  "is_digit c \<Longrightarrow> c \<noteq> CHR ''-'' \<and> c \<noteq> CHR ''+'' \<and> c \<noteq> CHR ''.'' \<and> c \<noteq> CHR ''e'' \<and> c \<noteq> CHR ''E''"
  by (auto simp: is_digit_def char_code_def)

lemma decimal_of_plain:
  assumes "list_all is_digit ip" and "list_all is_digit fp" and "ip \<noteq> []"
  shows "decimal_of_string ((if neg then ''-'' else []) @ ip @ (if dot then CHR ''.'' # fp else []))
    = Some (Scaled ((if neg then -1 else 1) * digits_value (ip @ (if dot then fp else [])))
        (- int (length (if dot then fp else []))))"
proof -
  let ?body = "ip @ (if dot then CHR ''.'' # fp else [])"
  let ?s = "(if neg then ''-'' else []) @ ?body"
  have dig: "\<forall>c \<in> set ip. is_digit c" "\<forall>c \<in> set fp. is_digit c"
    using assms(1,2) by (simp_all add: list_all_iff)
  have "\<forall>c \<in> set ?s. \<not> is_space c"
    using dig digit_not_space by (auto simp: is_space_def char_code_def)
  then have strip: "py_strip ?s = ?s" by (rule py_strip_no_space)
  from assms(3) obtain c cs where ip: "ip = c # cs" by (cases ip) auto
  have c: "c \<noteq> CHR ''-''" "c \<noteq> CHR ''+''" using dig(1) ip digit_not_special by auto
  have body: "(if ?s \<noteq> [] \<and> (hd ?s = CHR ''-'' \<or> hd ?s = CHR ''+'') then tl ?s else ?s) = ?body"
    using ip c by auto
  have neg: "(?s \<noteq> [] \<and> hd ?s = CHR ''-'') = neg" using ip c by auto
  have m: "takeWhile (\<lambda>c. c \<noteq> CHR ''e'' \<and> c \<noteq> CHR ''E'') ?body = ?body"
    using dig digit_not_special by (intro takeWhile_eq_all_conv [THEN iffD2]) auto
  have dot: "takeWhile (\<lambda>c. c \<noteq> CHR ''.'') ?body = ip"
    using dig(1) digit_not_special by (auto simp: takeWhile_append takeWhile_eq_all_conv)
  show ?thesis
    unfolding decimal_of_string_def strip body neg Let_def m dot
    using assms by auto
qed

lemma decimal_string_eq:
  "decimal_string d =
     (if coeff d < 0 then ''-'' else []) @
     (if 0 \<le> expo d then (if coeff d = 0 then ''0'' else nat_digits \<bar>coeff d\<bar> @ replicate (nat (expo d)) (CHR ''0''))
      else (let ps = pad_left (Suc (nat (- expo d))) (nat_digits \<bar>coeff d\<bar>);
                n = length ps - nat (- expo d) in take n ps @ CHR ''.'' # drop n ps))"
  by (simp add: decimal_string_def Let_def)

lemma decimal_roundtrip_neg_expo:
  assumes "expo d < 0"
  shows "decimal_of_string (decimal_string d) = Some d"
proof -
  define k where "k = nat (- expo d)"
  define ps where "ps = pad_left (Suc k) (nat_digits \<bar>coeff d\<bar>)"
  define n where "n = length ps - k"
  have len: "Suc k \<le> length ps" by (simp add: ps_def)
  have dig: "list_all is_digit ps"
    by (simp add: ps_def nat_digits_all_digits pad_left_all_digits)
  then have d1: "list_all is_digit (take n ps)" and d2: "list_all is_digit (drop n ps)"
    by (auto simp: list_all_iff dest: in_set_takeD in_set_dropD)
  have ne: "take n ps \<noteq> []" using len by (auto simp: n_def)
  have "decimal_string d = (if coeff d < 0 then ''-'' else []) @ take n ps @ CHR ''.'' # drop n ps"
    using assms by (simp add: decimal_string_eq ps_def n_def k_def Let_def)
  then have "decimal_of_string (decimal_string d)
      = Some (Scaled ((if coeff d < 0 then -1 else 1) * digits_value ps) (- int (length (drop n ps))))"
    using decimal_of_plain [OF d1 d2 ne, of "coeff d < 0" True] by simp
  moreover have "digits_value ps = \<bar>coeff d\<bar>" by (simp add: ps_def)
  moreover have "length (drop n ps) = k" using len by (simp add: n_def)
  ultimately show ?thesis using assms by (cases d) (auto simp: k_def)
qed

lemma decimal_roundtrip_nonneg_expo:
  assumes "0 \<le> expo d"
  shows "decimal_of_string (decimal_string d) = Some (Scaled (coeff d * 10 ^ nat (expo d)) 0)"
proof (cases "coeff d = 0")
  case True
  then show ?thesis
    using assms decimal_of_plain [of "''0''" "[]" False False]
    by (simp add: decimal_string_eq digits_value_def char_code_def)
next
  case False
  let ?ip = "nat_digits \<bar>coeff d\<bar> @ replicate (nat (expo d)) (CHR ''0'')"
  have "list_all is_digit ?ip"
    using nat_digits_all_digits [of "\<bar>coeff d\<bar>"] by (auto simp: list_all_iff)
  then have "decimal_of_string (decimal_string d)
      = Some (Scaled ((if coeff d < 0 then -1 else 1) * digits_value ?ip) 0)"
    using assms False decimal_of_plain [of ?ip "[]" "coeff d < 0" False]
    by (simp add: decimal_string_eq)
  also have "digits_value ?ip = \<bar>coeff d\<bar> * 10 ^ nat (expo d)"
    by (simp add: digits_value_append)
  finally show ?thesis by (auto simp: abs_if split: if_splits)
qed

text \<open>Reading back the printed text of a decimal gives a number of the same value.\<close>

lemma decimal_roundtrip_value:
  obtains d' where "decimal_of_string (decimal_string d) = Some d'" and "dval d' = dval d"
proof (cases "0 \<le> expo d")
  case True
  then have "dval (Scaled (coeff d * 10 ^ nat (expo d)) 0) = dval d"
    by (simp add: dval_def sval_def power_int_def)
  with True that show thesis by (metis decimal_roundtrip_nonneg_expo)
next
  case False
  with that show thesis by (metis decimal_roundtrip_neg_expo not_le)
qed

lemma decimal_roundtrip_scale:
  assumes "e \<le> expo d" and "e \<le> 0"
  obtains d' where "decimal_of_string (decimal_string d) = Some d'" and "dval d' = dval d"
    and "e \<le> expo d'" and "scale_of e d' = scale_of e d"
proof (cases "0 \<le> expo d")
  case True
  let ?d = "Scaled (coeff d * 10 ^ nat (expo d)) 0"
  have "nat (expo d - e) = nat (expo d) + nat (- e)" using True assms(2) by linarith
  then have "scale_of e ?d = scale_of e d" by (simp add: scale_of_def align_def power_add)
  moreover have "dval ?d = dval d" using True by (simp add: dval_def sval_def power_int_def)
  ultimately show thesis using True assms(2) that decimal_roundtrip_nonneg_expo by fastforce
next
  case False
  with assms that show thesis by (metis decimal_roundtrip_neg_expo not_le)
qed

subsection \<open>Exact sums\<close>

lemma dsum_fold_value:
  assumes "\<forall>x \<in> set xs. e \<le> expo x" and "e \<le> expo a"
    and "fits28 (\<bar>scale_of e a\<bar> + sum_list (map (\<lambda>x. \<bar>scale_of e x\<bar>) xs))"
  shows "dval (foldl dadd a xs) = dval a + sum_list (map dval xs) \<and> e \<le> expo (foldl dadd a xs)
    \<and> \<bar>scale_of e (foldl dadd a xs)\<bar> \<le> \<bar>scale_of e a\<bar> + sum_list (map (\<lambda>x. \<bar>scale_of e x\<bar>) xs)"
  using assms
proof (induction xs arbitrary: a)
  case (Cons x xs)
  have "0 \<le> sum_list (map (\<lambda>x. \<bar>scale_of e x\<bar>) xs)" by (rule sum_list_nonneg) auto
  then have fit: "fits28 (\<bar>scale_of e a\<bar> + \<bar>scale_of e x\<bar>)"
    using Cons.prems(3) by (simp add: fits28_def)
  note add = dadd_value [OF Cons.prems(2) _ fit]
  have "\<bar>scale_of e (dadd a x)\<bar> \<le> \<bar>scale_of e a\<bar> + \<bar>scale_of e x\<bar>"
    using add(3) Cons.prems(1) by simp
  moreover from this have "fits28 (\<bar>scale_of e (dadd a x)\<bar> + sum_list (map (\<lambda>x. \<bar>scale_of e x\<bar>) xs))"
    using Cons.prems(3) \<open>0 \<le> sum_list (map (\<lambda>x. \<bar>scale_of e x\<bar>) xs)\<close> by (simp add: fits28_def)
  ultimately show ?case
    using Cons.IH [of "dadd a x"] Cons.prems add(1,2) by simp
qed simp

lemma scale_of_dzero [simp]: "scale_of e dzero = 0"
  by (simp add: scale_of_def align_def dzero_def)

lemma expo_dzero: "expo dzero = 0"
  by (simp add: dzero_def)

lemma dsum_value:
  assumes "\<forall>x \<in> set xs. e \<le> expo x" and "e \<le> 0"
    and "fits28 (sum_list (map (\<lambda>x. \<bar>scale_of e x\<bar>) xs))"
  shows "dval (dsum xs) = sum_list (map dval xs)" and "e \<le> expo (dsum xs)"
    and "\<bar>scale_of e (dsum xs)\<bar> \<le> sum_list (map (\<lambda>x. \<bar>scale_of e x\<bar>) xs)"
  using dsum_fold_value [of xs e dzero] assms by (simp_all add: dsum_def expo_dzero)

lemma dsub_value:
  assumes "e \<le> expo x" and "e \<le> expo y" and "fits28 (\<bar>scale_of e x\<bar> + \<bar>scale_of e y\<bar>)"
  shows "dval (dsub x y) = dval x - dval y" and "e \<le> expo (dsub x y)"
    and "scale_of e (dsub x y) = scale_of e x - scale_of e y"
proof -
  let ?n = "Scaled (- coeff y) (expo y)"
  have "dsub x y = dadd x ?n" by (simp add: dsub_def ssub_def dadd_def)
  moreover have "dval ?n = - dval y" by (simp add: dval_def sval_def)
  moreover have "scale_of e ?n = - scale_of e y" by (simp add: scale_of_def align_def)
  ultimately show "dval (dsub x y) = dval x - dval y" and "e \<le> expo (dsub x y)"
    and "scale_of e (dsub x y) = scale_of e x - scale_of e y"
    using dadd_value [of e x ?n] assms by simp_all
qed

end
