(* ===== verification/Canonical.thy ===== *)
theory Canonical
  imports Decimals
begin

text \<open>
  What the fingerprints and audit hashes are computed from: calendar dates and timestamps
  with their ISO text, JSON values with \<^verbatim>\<open>json.dumps(..., sort_keys=True,
  separators=(",", ":"))\<close>, and the functions of other packages the sources call, collected
  in the record \<open>lib\<close> that the operations take as an argument.
\<close>

subsection \<open>Dates and timestamps\<close>

text \<open>A \<^verbatim>\<open>date\<close> is its proleptic Gregorian ordinal, so that subtraction is in days.\<close>

type_synonym date = int

definition days_before_month :: "bool \<Rightarrow> int list" where
  "days_before_month leap =
     (if leap then [0, 31, 60, 91, 121, 152, 182, 213, 244, 274, 305, 335]
      else [0, 31, 59, 90, 120, 151, 181, 212, 243, 273, 304, 334])"

definition ord2ymd :: "date \<Rightarrow> int \<times> int \<times> int" where
  "ord2ymd d =
     (let n = d - 1; n400 = n div 146097; n = n mod 146097;
          n100 = n div 36524; n = n mod 36524; n4 = n div 1461; n = n mod 1461;
          n1 = n div 365; n = n mod 365;
          year = n400 * 400 + 1 + n100 * 100 + n4 * 4 + n1
      in if n1 = 4 \<or> n100 = 4 then (year - 1, 12, 31)
         else let leap = (n1 = 3 \<and> (n4 \<noteq> 24 \<or> n100 = 3));
                  bs = takeWhile (\<lambda>k. k \<le> n) (days_before_month leap)
              in (year, int (length bs), n - last bs + 1))"

definition date_isoformat :: "date \<Rightarrow> string" where
  "date_isoformat d =
     (case ord2ymd d of (y, m, dd) \<Rightarrow>
        pad_left 4 (nat_digits y) @ ''-'' @ pad_left 2 (nat_digits m) @ ''-''
          @ pad_left 2 (nat_digits dd))"

text \<open>A \<^verbatim>\<open>datetime\<close>: the wall clock in microseconds since 0001-01-01 and the UTC offset, if any.\<close>

record datetime =
  dt_local :: int
  dt_offset :: "int option"

definition us_per_day :: int where
  "us_per_day = 86400000000"

definition dt_date :: "datetime \<Rightarrow> date" where
  "dt_date t = dt_local t div us_per_day + 1"

text \<open>The instant: a value without an offset is read as UTC.\<close>

definition dt_utc :: "datetime \<Rightarrow> int" where
  "dt_utc t = (case dt_offset t of None \<Rightarrow> dt_local t | Some off \<Rightarrow> dt_local t - off)"

definition canonical_utc :: "datetime \<Rightarrow> string" where
  "canonical_utc t =
     (let u = dt_utc t; d = u div us_per_day + 1; r = u mod us_per_day;
          s = r div 1000000
      in date_isoformat d @ ''T'' @ pad_left 2 (nat_digits (s div 3600)) @ '':''
         @ pad_left 2 (nat_digits (s div 60 mod 60)) @ '':''
         @ pad_left 2 (nat_digits (s mod 60)) @ ''.'' @ pad_left 6 (nat_digits (r mod 1000000))
         @ ''Z'')"

subsection \<open>Functions that are not part of the repository\<close>

record lib =
  sha256_hex :: "string \<Rightarrow> string"
  \<comment> \<open>\<^verbatim>\<open>hashlib.sha256(text.encode()).hexdigest()\<close>\<close>
  float_repr :: "pyfloat \<Rightarrow> string"
  \<comment> \<open>\<^verbatim>\<open>str(x)\<close> of a float\<close>
  token_set_ratio :: "string \<Rightarrow> string \<Rightarrow> pyfloat"
  \<comment> \<open>\<^verbatim>\<open>rapidfuzz.fuzz.token_set_ratio\<close>, between 0 and 100\<close>
  ratio_decimal :: "string \<Rightarrow> string \<Rightarrow> decimal"
  \<comment> \<open>\<^verbatim>\<open>Decimal(str(rapidfuzz.fuzz.ratio(a, b)))\<close>, between 0 and 100\<close>
  numeric_column :: "decimal \<Rightarrow> decimal"
  \<comment> \<open>what a \<^verbatim>\<open>Numeric(24, 8)\<close> column returns for a stored decimal\<close>
  datetime_json :: "datetime \<Rightarrow> string"
  \<comment> \<open>the text pydantic's JSON mode writes for a datetime\<close>
  decimal_json :: "decimal \<Rightarrow> string"
  \<comment> \<open>the text pydantic's JSON mode writes for a decimal\<close>

subsection \<open>JSON\<close>

datatype json =
    JNull
  | JBool bool
  | JInt int
  | JFloat pyfloat
  | JStr string
  | JArr "json list"
  | JObj "(string \<times> json) list"

definition hex_digit :: "nat \<Rightarrow> char" where
  "hex_digit d = (if d < 10 then char_of (48 + d) else char_of (87 + d))"

definition json_escape_char :: "bool \<Rightarrow> char \<Rightarrow> string" where
  "json_escape_char ensure_ascii c =
     (let n = char_code c in
      if n = 34 then [CHR 0x5C, CHR 0x22]
      else if n = 92 then [CHR 0x5C, CHR 0x5C]
      else if n = 10 then [CHR 0x5C, CHR ''n'']
      else if n = 13 then [CHR 0x5C, CHR ''r'']
      else if n = 9 then [CHR 0x5C, CHR ''t'']
      else if n = 8 then [CHR 0x5C, CHR ''b'']
      else if n = 12 then [CHR 0x5C, CHR ''f'']
      else if n < 32 \<or> (ensure_ascii \<and> 126 < n)
      then [CHR 0x5C, CHR ''u'', CHR ''0'', CHR ''0'', hex_digit (n div 16), hex_digit (n mod 16)]
      else [c])"

definition json_string :: "bool \<Rightarrow> string \<Rightarrow> string" where
  "json_string ea s = [CHR 0x22] @ concat (map (json_escape_char ea) s) @ [CHR 0x22]"

fun json_dumps :: "(pyfloat \<Rightarrow> string) \<Rightarrow> bool \<Rightarrow> json \<Rightarrow> string" where
  "json_dumps fr ea JNull = ''null''"
| "json_dumps fr ea (JBool b) = (if b then ''true'' else ''false'')"
| "json_dumps fr ea (JInt i) = int_text i"
| "json_dumps fr ea (JFloat x) = fr x"
| "json_dumps fr ea (JStr s) = json_string ea s"
| "json_dumps fr ea (JArr xs) = ''['' @ py_join '','' (map (json_dumps fr ea) xs) @ '']''"
| "json_dumps fr ea (JObj kvs) =
     ''{'' @ py_join '',''
        (map (\<lambda>(k, v). json_string ea k @ '':'' @ v)
          (sort_key fst (map (\<lambda>(k, v). (k, json_dumps fr ea v)) kvs))) @ ''}''"

fun json_get :: "string \<Rightarrow> json \<Rightarrow> json option" where
  "json_get k (JObj kvs) = map_of kvs k"
| "json_get k _ = None"

text \<open>The text of a UUID: 32 hexadecimal digits in groups of 8, 4, 4, 4 and 12.\<close>

fun hex_digits :: "nat \<Rightarrow> int \<Rightarrow> string" where
  "hex_digits 0 n = []"
| "hex_digits (Suc k) n = hex_digits k (n div 16) @ [hex_digit (nat (n mod 16))]"

definition uuid_text :: "uuid \<Rightarrow> string" where
  "uuid_text u =
     (let h = hex_digits 32 (int u)
      in take 8 h @ ''-'' @ take 4 (drop 8 h) @ ''-'' @ take 4 (drop 12 h) @ ''-''
         @ take 4 (drop 16 h) @ ''-'' @ drop 20 h)"

definition json_opt :: "('a \<Rightarrow> json) \<Rightarrow> 'a option \<Rightarrow> json" where
  "json_opt f x = (case x of None \<Rightarrow> JNull | Some a \<Rightarrow> f a)"

text \<open>
  The documented behaviour of the column: it keeps the value of a decimal with at most eight
  fractional digits.
\<close>

definition numeric_column_exact :: "lib \<Rightarrow> bool" where
  "numeric_column_exact lib \<longleftrightarrow> (\<forall>d. -8 \<le> expo d \<longrightarrow> dval (numeric_column lib d) = dval d)"

end
