(* ===== verification/Invoice_Data.thy ===== *)
theory Invoice_Data
  imports Canonical
begin

text \<open>
  The extraction schema (\<^verbatim>\<open>invoiceops/schemas/extraction.py\<close>): evidence-linked fields, invoice
  lines and invoices, with the model validators as boolean functions.
\<close>

datatype text_source = EMBEDDED | OCR

datatype extraction_status = EXTRACTED | AMBIGUOUS | MISSING

record bounding_box =
  bb_x0 :: pyfloat
  bb_y0 :: pyfloat
  bb_x1 :: pyfloat
  bb_y1 :: pyfloat

definition unit_interval :: "pyfloat \<Rightarrow> bool" where
  "unit_interval x = (fle (Scaled 0 0) x \<and> fle x (Scaled 1 0))"

definition validate_coordinate_order :: "bounding_box \<Rightarrow> bool" where
  "validate_coordinate_order b =
     (unit_interval (bb_x0 b) \<and> unit_interval (bb_y0 b) \<and> unit_interval (bb_x1 b)
      \<and> unit_interval (bb_y1 b) \<and> \<not> (flt (bb_x1 b) (bb_x0 b) \<or> flt (bb_y1 b) (bb_y0 b)))"

record evidence_span =
  ev_page :: nat
  ev_bbox :: bounding_box
  ev_text :: string
  ev_source :: text_source

record 'a extracted_field =
  fvalue :: "'a option"
  fstatus :: extraction_status
  fevidence :: "evidence_span list"
  frule_id :: "string option"

definition validate_status_contract :: "'a extracted_field \<Rightarrow> bool" where
  "validate_status_contract f =
     ((fstatus f = EXTRACTED \<longrightarrow> fvalue f \<noteq> None \<and> fevidence f \<noteq> [])
      \<and> (fstatus f = MISSING \<longrightarrow> fvalue f = None))"

record invoice_line =
  il_description :: "string extracted_field"
  il_quantity :: "decimal extracted_field"
  il_unit_price :: "decimal extracted_field"
  il_line_total :: "decimal extracted_field"

datatype extraction_issue = HYBRID_ROW_ASSOCIATION_UNRESOLVED

record invoice =
  inv_extraction_issues :: "extraction_issue list"
  inv_invoice_number :: "string extracted_field"
  inv_invoice_date :: "date extracted_field"
  inv_currency :: "string extracted_field"
  inv_subtotal :: "decimal extracted_field"
  inv_tax :: "decimal extracted_field"
  inv_total :: "decimal extracted_field"
  inv_line_items :: "invoice_line list"

text \<open>What \<^verbatim>\<open>Invoice.model_validate\<close> has checked of every field of an accepted invoice.\<close>

definition invoice_line_valid :: "invoice_line \<Rightarrow> bool" where
  "invoice_line_valid l =
     (validate_status_contract (il_description l) \<and> validate_status_contract (il_quantity l)
      \<and> validate_status_contract (il_unit_price l) \<and> validate_status_contract (il_line_total l))"

definition invoice_valid :: "invoice \<Rightarrow> bool" where
  "invoice_valid i =
     (validate_status_contract (inv_invoice_number i) \<and> validate_status_contract (inv_invoice_date i)
      \<and> validate_status_contract (inv_currency i) \<and> validate_status_contract (inv_subtotal i)
      \<and> validate_status_contract (inv_tax i) \<and> validate_status_contract (inv_total i)
      \<and> list_all invoice_line_valid (inv_line_items i))"

text \<open>The value of a field that was extracted, as the matching and risk code read it.\<close>

definition extracted_value :: "'a extracted_field \<Rightarrow> 'a option" where
  "extracted_value f = (if fstatus f = EXTRACTED \<and> fvalue f \<noteq> None then fvalue f else None)"

lemma extracted_value_Some:
  "extracted_value f = Some v \<longleftrightarrow> fstatus f = EXTRACTED \<and> fvalue f = Some v"
  by (auto simp: extracted_value_def)

lemma contract_extracted:
  "validate_status_contract f \<Longrightarrow> fstatus f = EXTRACTED \<Longrightarrow> \<exists>v. extracted_value f = Some v"
  by (auto simp: validate_status_contract_def extracted_value_def)

end
