(* ===== verification/Matching_Data.thy ===== *)
theory Matching_Data
  imports Invoice_Data
begin

text \<open>
  The matching schema (\<^verbatim>\<open>invoiceops/schemas/matching.py\<close>): decisions, reason codes, policies,
  purchase orders, checks, line assignments and the result with its decision contract.
\<close>

datatype match_decision = MATCHED | NEEDS_REVIEW

datatype matching_mode = TWO_WAY | THREE_WAY

datatype check_status = PASSED | FAILED

datatype check_severity = INFO | ERROR

datatype reason_code =
    EXTRACTION_ROW_ASSOCIATION_UNRESOLVED
  | INVOICE_SCHEMA_INCOMPLETE
  | INVOICE_LINE_ARITHMETIC_MISMATCH
  | INVOICE_SUBTOTAL_MISMATCH
  | INVOICE_TOTAL_MISMATCH
  | CURRENCY_MISMATCH
  | INVOICE_LINE_UNMATCHED
  | PO_LINE_UNMATCHED
  | DESCRIPTION_BELOW_THRESHOLD
  | DESCRIPTION_AMBIGUOUS
  | QUANTITY_MISMATCH
  | UNIT_PRICE_MISMATCH
  | EXTRA_INVOICE_LINE
  | LINE_AMOUNT_MISMATCH
  | PO_LINE_AMOUNT_MISMATCH
  | NEGATIVE_AMOUNT
  | NO_GOODS_RECEIPT
  | RECEIPT_LINE_MISSING
  | GOODS_RECEIPT_REVERSED
  | INVOICE_QUANTITY_EXCEEDS_RECEIVED
  | CUMULATIVE_QUANTITY_EXCEEDS_RECEIVED
  | RECEIVED_QUANTITY_EXCEEDS_ORDERED
  | RECEIPT_AFTER_INVOICE
  | THREE_WAY_UNIT_PRICE_MISMATCH
  | THREE_WAY_LINE_AMOUNT_MISMATCH
  | RECEIPT_CONTEXT_CHANGED
  | ALLOCATION_RECONCILIATION_REQUIRED

record matching_policy =
  mp_version :: string
  mp_amount_absolute_tolerance :: decimal
  mp_quantity_absolute_tolerance :: decimal
  mp_unit_price_relative_tolerance :: decimal
  mp_description_similarity_threshold :: pyfloat
  mp_ambiguity_margin :: pyfloat

text \<open>The doubles nearest to 0.85 and 0.05.\<close>

definition default_policy :: matching_policy where
  "default_policy = \<lparr>
     mp_version = ''matching-v3'',
     mp_amount_absolute_tolerance = Scaled 2 (-2),
     mp_quantity_absolute_tolerance = Scaled 0 0,
     mp_unit_price_relative_tolerance = Scaled 1 (-2),
     mp_description_similarity_threshold = Scaled 7656119366529843 (-53),
     mp_ambiguity_margin = Scaled 3602879701896397 (-56)\<rparr>"

record three_way_policy =
  tp_version :: string
  tp_amount_absolute_tolerance :: decimal
  tp_quantity_absolute_tolerance :: decimal
  tp_unit_price_relative_tolerance :: decimal
  tp_allow_partial_invoice :: bool
  tp_description_similarity_threshold :: pyfloat
  tp_ambiguity_margin :: pyfloat

definition default_three_way_policy :: three_way_policy where
  "default_three_way_policy = \<lparr>
     tp_version = ''three-way-v3'',
     tp_amount_absolute_tolerance = Scaled 2 (-2),
     tp_quantity_absolute_tolerance = Scaled 0 0,
     tp_unit_price_relative_tolerance = Scaled 1 (-2),
     tp_allow_partial_invoice = True,
     tp_description_similarity_threshold = Scaled 7656119366529843 (-53),
     tp_ambiguity_margin = Scaled 3602879701896397 (-56)\<rparr>"

subsection \<open>Purchase orders\<close>

record po_line_create =
  plc_line_number :: string
  plc_description :: string
  plc_ordered_quantity :: decimal
  plc_unit_price :: decimal
  plc_line_total :: "decimal option"

record po_create =
  poc_external_po_number :: string
  poc_vendor_name :: "string option"
  poc_currency :: string
  poc_lines :: "po_line_create list"

definition non_blank :: "string \<Rightarrow> string option" where
  "non_blank s = (let t = py_strip s in if t = [] then None else Some t)"

definition validate_po_line_create :: "po_line_create \<Rightarrow> po_line_create option" where
  "validate_po_line_create l =
     (case (non_blank (plc_line_number l), non_blank (plc_description l)) of
        (Some n, Some d) \<Rightarrow>
          if dlt dzero (plc_ordered_quantity l) \<and> dle dzero (plc_unit_price l)
             \<and> (case plc_line_total l of None \<Rightarrow> True | Some t \<Rightarrow> dle dzero t)
          then Some (l\<lparr>plc_line_number := n, plc_description := d\<rparr>) else None
      | _ \<Rightarrow> None)"

definition normalize_currency_code :: "string \<Rightarrow> string option" where
  "normalize_currency_code s =
     (let n = py_upper (py_strip s)
      in if length n = 3 \<and> list_all is_upper n then Some n else None)"

fun all_some :: "'a option list \<Rightarrow> 'a list option" where
  "all_some [] = Some []"
| "all_some (None # _) = None"
| "all_some (Some x # xs) = map_option (Cons x) (all_some xs)"

text \<open>\<^verbatim>\<open>PurchaseOrderCreate.model_validate\<close>: \<open>None\<close> is the validation error.\<close>

definition validate_po_create :: "po_create \<Rightarrow> po_create option" where
  "validate_po_create c =
     (case (non_blank (poc_external_po_number c), normalize_currency_code (poc_currency c),
            all_some (map validate_po_line_create (poc_lines c))) of
        (Some number, Some currency, Some lines) \<Rightarrow>
          (case poc_vendor_name c of
             None \<Rightarrow>
               if lines \<noteq> [] \<and> distinct (map plc_line_number lines)
               then Some \<lparr>poc_external_po_number = number, poc_vendor_name = None,
                          poc_currency = currency, poc_lines = lines\<rparr> else None
           | Some v \<Rightarrow>
               (case non_blank v of None \<Rightarrow> None
                | Some vendor \<Rightarrow>
                    if lines \<noteq> [] \<and> distinct (map plc_line_number lines)
                    then Some \<lparr>poc_external_po_number = number, poc_vendor_name = Some vendor,
                               poc_currency = currency, poc_lines = lines\<rparr> else None))
      | _ \<Rightarrow> None)"

record po_line =
  pl_id :: uuid
  pl_purchase_order_id :: uuid
  pl_line_number :: string
  pl_description :: string
  pl_ordered_quantity :: decimal
  pl_unit_price :: decimal
  pl_line_total :: "decimal option"

record purchase_order =
  po_id :: uuid
  po_external_po_number :: string
  po_vendor_name :: "string option"
  po_currency :: string
  po_created_at :: datetime
  po_lines :: "po_line list"

subsection \<open>Checks and results\<close>

record validation_check =
  vc_code :: reason_code
  vc_status :: check_status
  vc_severity :: check_severity
  vc_expected :: "string option"
  vc_actual :: "string option"
  vc_tolerance :: "string option"
  vc_message :: string
  vc_invoice_line_index :: "nat option"
  vc_po_line_id :: "uuid option"
  vc_evidence :: "evidence_span list"
  vc_receipt_ids :: "uuid list"
  vc_ordered_quantity :: "string option"
  vc_received_quantity :: "string option"
  vc_previously_invoiced_quantity :: "string option"
  vc_available_quantity :: "string option"
  vc_invoice_quantity :: "string option"

record line_assignment =
  la_invoice_line_index :: nat
  la_po_line_id :: uuid
  la_po_line_number :: string
  la_description_score :: pyfloat
  la_exact_description :: bool
  la_checks :: "validation_check list"
  la_evidence :: "evidence_span list"

record match_summary =
  ms_invoice_line_count :: nat
  ms_po_line_count :: nat
  ms_assigned_line_count :: nat
  ms_passed_check_count :: nat
  ms_failed_check_count :: nat

record match_result =
  mr_decision :: match_decision
  mr_summary :: match_summary
  mr_checks :: "validation_check list"
  mr_line_assignments :: "line_assignment list"
  mr_reason_codes :: "reason_code list"

abbreviation failed :: "validation_check \<Rightarrow> bool" where
  "failed c \<equiv> vc_status c = FAILED"

definition all_result_checks :: "validation_check list \<Rightarrow> line_assignment list \<Rightarrow> validation_check list" where
  "all_result_checks checks assignments = checks @ concat (map la_checks assignments)"

text \<open>The validator of \<^verbatim>\<open>MatchResult\<close>; \<open>False\<close> is the raised \<^verbatim>\<open>ValueError\<close>.\<close>

definition validate_decision_contract :: "match_result \<Rightarrow> bool" where
  "validate_decision_contract r =
     (let failures = filter failed (mr_checks r)
            @ concat (map (\<lambda>a. filter failed (la_checks a)) (mr_line_assignments r))
      in \<not> (mr_decision r = MATCHED \<and> (failures \<noteq> [] \<or> mr_reason_codes r \<noteq> []))
         \<and> \<not> (mr_decision r = NEEDS_REVIEW \<and> (failures = [] \<or> mr_reason_codes r = [])))"

definition all_passed :: "validation_check list \<Rightarrow> bool" where
  "all_passed cs = list_all (\<lambda>c. vc_status c = PASSED) cs"

subsection \<open>Lemmas\<close>

lemma all_passed_simps [simp]:
  "all_passed []"
  "all_passed (c # cs) \<longleftrightarrow> vc_status c = PASSED \<and> all_passed cs"
  "all_passed (cs @ ds) \<longleftrightarrow> all_passed cs \<and> all_passed ds"
  by (simp_all add: all_passed_def)

lemma all_passed_concat: "all_passed (concat css) \<longleftrightarrow> list_all all_passed css"
  by (induction css) auto

lemma all_passed_iff: "all_passed cs \<longleftrightarrow> (\<forall>c \<in> set cs. vc_status c = PASSED)"
  by (simp add: all_passed_def list_all_iff)

lemma check_status_not_passed [simp]: "s \<noteq> PASSED \<longleftrightarrow> s = FAILED"
  by (cases s) auto

lemma check_status_not_failed [simp]: "s \<noteq> FAILED \<longleftrightarrow> s = PASSED"
  by (cases s) auto

lemma no_failed_iff: "filter failed cs = [] \<longleftrightarrow> all_passed cs"
  by (induction cs) auto

lemma filter_all_result_checks:
  "filter failed (all_result_checks cs as)
    = filter failed cs @ concat (map (\<lambda>a. filter failed (la_checks a)) as)"
  by (simp add: all_result_checks_def filter_concat comp_def)

lemma non_blank_strip: "non_blank s = Some t \<Longrightarrow> t \<noteq> [] \<and> py_strip t = t"
  by (auto simp: non_blank_def Let_def split: if_splits)

lemma all_some_Some: "all_some xs = Some ys \<longleftrightarrow> xs = map Some ys"
  by (induction xs arbitrary: ys rule: all_some.induct) (auto simp: Cons_eq_map_conv)

subsection \<open>Engines that decide by their checks\<close>

text \<open>
  Both engines decide in the same way: the decision and the reason codes are computed from the
  failed checks. The laws of that interface give the decision contract of the schema.
\<close>

locale checked_decision =
  fixes run :: "'i \<Rightarrow> match_result option"
  assumes decision_law: "run i = Some r \<Longrightarrow>
      mr_decision r = (if all_passed (all_result_checks (mr_checks r) (mr_line_assignments r))
        then MATCHED else NEEDS_REVIEW)"
    and reasons_law: "run i = Some r \<Longrightarrow>
      mr_reason_codes r
        = dict_fromkeys (map vc_code (filter failed (all_result_checks (mr_checks r) (mr_line_assignments r))))"
begin

lemma matched_iff:
  "run i = Some r \<Longrightarrow> mr_decision r = MATCHED
    \<longleftrightarrow> all_passed (mr_checks r) \<and> (\<forall>a \<in> set (mr_line_assignments r). all_passed (la_checks a))"
  by (auto simp: decision_law all_result_checks_def all_passed_concat list_all_iff)

lemma reasons_distinct: "run i = Some r \<Longrightarrow> distinct (mr_reason_codes r)"
  by (simp add: reasons_law)

lemma reasons_set:
  "run i = Some r \<Longrightarrow> set (mr_reason_codes r)
    = vc_code ` {c \<in> set (all_result_checks (mr_checks r) (mr_line_assignments r)). failed c}"
  by (simp add: reasons_law)

lemma matched_no_reasons: "run i = Some r \<Longrightarrow> mr_decision r = MATCHED \<longleftrightarrow> mr_reason_codes r = []"
  by (simp add: reasons_law decision_law no_failed_iff)

lemma contract: "run i = Some r \<Longrightarrow> validate_decision_contract r"
  by (simp add: validate_decision_contract_def Let_def reasons_law decision_law
      filter_all_result_checks [symmetric] no_failed_iff)

end

end
