(* ===== verification/Validation.thy ===== *)
theory Validation
  imports Matching_Data
begin

text \<open>
  Financial validation of an extracted invoice (\<^verbatim>\<open>invoiceops/matching/validation.py\<close>): one
  check per rule, in the order the code appends them. The main lemma says exactly which
  invoices pass every check.
\<close>

text \<open>An argument that is a \<^verbatim>\<open>Decimal\<close> or a \<^verbatim>\<open>str\<close>, and its serialization.\<close>

datatype shown = ShowDec decimal | ShowStr string

fun serialize :: "shown option \<Rightarrow> string option" where
  "serialize None = None"
| "serialize (Some (ShowDec d)) = Some (decimal_string d)"
| "serialize (Some (ShowStr s)) = Some s"

definition numeric_value :: "decimal extracted_field \<Rightarrow> decimal option" where
  "numeric_value f = (if fstatus f \<noteq> EXTRACTED then None else fvalue f)"

definition validation_check_of ::
  "reason_code \<Rightarrow> bool \<Rightarrow> shown option \<Rightarrow> shown option \<Rightarrow> decimal option \<Rightarrow> string
    \<Rightarrow> nat option \<Rightarrow> evidence_span list \<Rightarrow> validation_check" where
  "validation_check_of code passed expected actual tolerance message index evidence = \<lparr>
     vc_code = code,
     vc_status = (if passed then PASSED else FAILED),
     vc_severity = (if passed then INFO else ERROR),
     vc_expected = serialize expected,
     vc_actual = serialize actual,
     vc_tolerance = map_option decimal_string tolerance,
     vc_message = message,
     vc_invoice_line_index = index,
     vc_po_line_id = None,
     vc_evidence = evidence,
     vc_receipt_ids = [],
     vc_ordered_quantity = None,
     vc_received_quantity = None,
     vc_previously_invoiced_quantity = None,
     vc_available_quantity = None,
     vc_invoice_quantity = None\<rparr>"

definition is_negative :: "decimal \<Rightarrow> bool" where
  "is_negative v = dlt v dzero"

definition within_tol :: "decimal \<Rightarrow> decimal \<Rightarrow> decimal \<Rightarrow> bool" where
  "within_tol a b tolerance = dle (dabs (dsub a b)) tolerance"

text \<open>The negative-amount checks of one line or of the header fields.\<close>

definition negative_checks ::
  "string \<Rightarrow> nat option \<Rightarrow> (string \<times> decimal option \<times> evidence_span list) list \<Rightarrow> validation_check list" where
  "negative_checks subject index items =
     concat (map (\<lambda>(label, v, ev).
       (case v of
          Some d \<Rightarrow>
            if is_negative d
            then [validation_check_of NEGATIVE_AMOUNT False (Some (ShowStr (''non-negative '' @ label)))
                    (Some (ShowDec d)) None
                    (subject @ label @ '' is negative and requires review.'') index ev]
            else []
        | None \<Rightarrow> [])) items)"

definition line_numbers_of :: "invoice_line \<Rightarrow> (decimal \<times> decimal \<times> decimal) option" where
  "line_numbers_of l =
     (case (numeric_value (il_quantity l), numeric_value (il_unit_price l),
            numeric_value (il_line_total l)) of
        (Some q, Some p, Some t) \<Rightarrow> Some (q, p, t)
      | _ \<Rightarrow> None)"

definition line_financial_checks :: "matching_policy \<Rightarrow> nat \<Rightarrow> invoice_line \<Rightarrow> validation_check list" where
  "line_financial_checks policy index l =
     (let usable = (line_numbers_of l \<noteq> None);
          ev = fevidence (il_quantity l) @ fevidence (il_unit_price l) @ fevidence (il_line_total l)
      in [validation_check_of INVOICE_SCHEMA_INCOMPLETE usable
            (Some (ShowStr ''quantity, unit price and line total present''))
            (Some (ShowStr (if usable then ''complete'' else ''missing or ambiguous numeric value'')))
            None
            (if usable then ''Invoice line contains all required numeric values.''
             else ''Invoice line is missing a required numeric value.'')
            (Some index) ev]
         @ negative_checks ''Invoice line '' (Some index)
             [(''quantity'', numeric_value (il_quantity l), fevidence (il_quantity l)),
              (''unit price'', numeric_value (il_unit_price l), fevidence (il_unit_price l)),
              (''line total'', numeric_value (il_line_total l), fevidence (il_line_total l))]
         @ (case line_numbers_of l of
              None \<Rightarrow> []
            | Some (q, p, t) \<Rightarrow>
                let expected = dmul q p;
                    ok = within_tol expected t (mp_amount_absolute_tolerance policy)
                in [validation_check_of INVOICE_LINE_ARITHMETIC_MISMATCH ok
                      (Some (ShowDec expected)) (Some (ShowDec t))
                      (Some (mp_amount_absolute_tolerance policy))
                      (if ok then ''Invoice line arithmetic is within tolerance.''
                       else ''Invoice quantity multiplied by unit price differs from line total.'')
                      (Some index) ev]))"

definition usable_line_total :: "invoice_line \<Rightarrow> decimal option" where
  "usable_line_total l = map_option (\<lambda>(q, p, t). t) (line_numbers_of l)"

definition usable_line_totals :: "invoice \<Rightarrow> decimal list" where
  "usable_line_totals i = List.map_filter usable_line_total (inv_line_items i)"

definition currency_present :: "invoice \<Rightarrow> bool" where
  "currency_present i = (fstatus (inv_currency i) = EXTRACTED \<and> fvalue (inv_currency i) \<noteq> None)"

text \<open>The checks before the loop over the lines.\<close>

definition header_checks :: "invoice \<Rightarrow> validation_check list" where
  "header_checks i =
     (if inv_extraction_issues i = [] then []
      else [validation_check_of EXTRACTION_ROW_ASSOCIATION_UNRESOLVED False
              (Some (ShowStr ''resolved row association'')) (Some (ShowStr ''unresolved'')) None
              ''Hybrid invoice row association requires review.'' None []])
     @ [validation_check_of INVOICE_SCHEMA_INCOMPLETE (currency_present i)
          (Some (ShowStr ''currency present'')) (map_option ShowStr (fvalue (inv_currency i))) None
          (if currency_present i then ''Invoice currency is present.''
           else ''Invoice currency is missing or ambiguous.'') None (fevidence (inv_currency i)),
        (let total = numeric_value (inv_total i) in
         validation_check_of INVOICE_SCHEMA_INCOMPLETE (total \<noteq> None)
          (Some (ShowStr ''total present'')) (map_option ShowDec total) None
          (if total \<noteq> None then ''Invoice total is present.''
           else ''Invoice total is missing or ambiguous.'') None (fevidence (inv_total i)))]"

text \<open>The checks after the loop over the lines.\<close>

definition subtotal_checks :: "invoice \<Rightarrow> matching_policy \<Rightarrow> validation_check list" where
  "subtotal_checks i policy =
     (let totals = usable_line_totals i; tol = mp_amount_absolute_tolerance policy in
      [validation_check_of INVOICE_SCHEMA_INCOMPLETE (totals \<noteq> [])
         (Some (ShowStr ''at least one usable line''))
         (Some (ShowStr (int_text (int (length totals))))) None
         (if totals \<noteq> [] then ''Invoice contains at least one usable line.''
          else ''Invoice does not contain a usable line item.'') None []]
      @ (case numeric_value (inv_subtotal i) of
           None \<Rightarrow>
             [validation_check_of INVOICE_SCHEMA_INCOMPLETE False (Some (ShowStr ''subtotal present''))
                None None ''Invoice subtotal is missing or ambiguous.'' None
                (fevidence (inv_subtotal i))]
         | Some subtotal \<Rightarrow>
             if totals = [] then []
             else let expected = dsum totals; ok = within_tol expected subtotal tol
                  in [validation_check_of INVOICE_SUBTOTAL_MISMATCH ok (Some (ShowDec expected))
                        (Some (ShowDec subtotal)) (Some tol)
                        (if ok then ''Invoice subtotal is within tolerance.''
                         else ''Invoice subtotal differs from the sum of usable line totals.'')
                        None (fevidence (inv_subtotal i))]))"

definition total_checks :: "invoice \<Rightarrow> matching_policy \<Rightarrow> validation_check list" where
  "total_checks i policy =
     (let tol = mp_amount_absolute_tolerance policy;
          subtotal = numeric_value (inv_subtotal i); tax = numeric_value (inv_tax i);
          total = numeric_value (inv_total i)
      in (if tax = None
          then [validation_check_of INVOICE_SCHEMA_INCOMPLETE False (Some (ShowStr ''tax present''))
                  None None ''Invoice tax is missing or ambiguous.'' None (fevidence (inv_tax i))]
          else [])
         @ negative_checks ''Invoice '' None
             [(''subtotal'', subtotal, fevidence (inv_subtotal i)),
              (''tax'', tax, fevidence (inv_tax i)),
              (''total'', total, fevidence (inv_total i))]
         @ (case (subtotal, tax, total) of
              (Some s, Some x, Some t) \<Rightarrow>
                let expected = dadd s x; ok = within_tol expected t tol
                in [validation_check_of INVOICE_TOTAL_MISMATCH ok (Some (ShowDec expected))
                      (Some (ShowDec t)) (Some tol)
                      (if ok then ''Invoice total is within tolerance.''
                       else ''Invoice total differs from subtotal plus tax.'') None
                      (fevidence (inv_subtotal i) @ fevidence (inv_tax i) @ fevidence (inv_total i))]
            | _ \<Rightarrow> []))"

definition validate_invoice_financials :: "invoice \<Rightarrow> matching_policy \<Rightarrow> validation_check list" where
  "validate_invoice_financials i policy =
     header_checks i
     @ concat (map (\<lambda>(index, l). line_financial_checks policy index l)
         (List.enumerate 0 (inv_line_items i)))
     @ subtotal_checks i policy
     @ total_checks i policy"

subsection \<open>What the checks decide\<close>

text \<open>The financial facts an invoice must state, with no reference to checks.\<close>

definition line_consistent :: "decimal \<Rightarrow> invoice_line \<Rightarrow> bool" where
  "line_consistent tol l =
     (case line_numbers_of l of
        None \<Rightarrow> False
      | Some (q, p, t) \<Rightarrow> \<not> is_negative q \<and> \<not> is_negative p \<and> \<not> is_negative t
          \<and> within_tol (dmul q p) t tol)"

definition financially_consistent :: "decimal \<Rightarrow> invoice \<Rightarrow> bool" where
  "financially_consistent tol i =
     (inv_extraction_issues i = [] \<and> currency_present i \<and> inv_line_items i \<noteq> []
      \<and> list_all (line_consistent tol) (inv_line_items i)
      \<and> (case (numeric_value (inv_subtotal i), numeric_value (inv_tax i), numeric_value (inv_total i)) of
           (Some s, Some x, Some t) \<Rightarrow> \<not> is_negative s \<and> \<not> is_negative x \<and> \<not> is_negative t
             \<and> within_tol (dsum (usable_line_totals i)) s tol \<and> within_tol (dadd s x) t tol
         | _ \<Rightarrow> False))"

lemma validation_check_of_status [simp]:
  "vc_status (validation_check_of c p e a t m i ev) = (if p then PASSED else FAILED)"
  "vc_code (validation_check_of c p e a t m i ev) = c"
  "vc_invoice_line_index (validation_check_of c p e a t m i ev) = i"
  by (simp_all add: validation_check_of_def)

lemma negative_checks_passed:
  "all_passed (negative_checks s i items) \<longleftrightarrow>
    list_all (\<lambda>(label, v, ev). case v of None \<Rightarrow> True | Some d \<Rightarrow> \<not> is_negative d) items"
  by (induction items) (auto simp: negative_checks_def split: option.splits)

lemma line_numbers_of_Some:
  "line_numbers_of l = Some (q, p, t) \<longleftrightarrow>
    numeric_value (il_quantity l) = Some q \<and> numeric_value (il_unit_price l) = Some p
    \<and> numeric_value (il_line_total l) = Some t"
  by (auto simp: line_numbers_of_def split: option.splits)

lemma line_financial_checks_passed:
  "all_passed (line_financial_checks policy index l)
    \<longleftrightarrow> line_consistent (mp_amount_absolute_tolerance policy) l"
proof (cases "line_numbers_of l")
  case None
  then show ?thesis
    by (simp add: line_financial_checks_def line_consistent_def Let_def)
next
  case (Some n)
  obtain q p t where n: "n = (q, p, t)" by (cases n)
  with Some have "numeric_value (il_quantity l) = Some q" "numeric_value (il_unit_price l) = Some p"
    "numeric_value (il_line_total l) = Some t" by (simp_all add: line_numbers_of_Some)
  with Some n show ?thesis
    by (auto simp: line_financial_checks_def line_consistent_def Let_def negative_checks_passed)
qed

lemma header_checks_passed:
  "all_passed (header_checks i) \<longleftrightarrow>
    inv_extraction_issues i = [] \<and> currency_present i \<and> numeric_value (inv_total i) \<noteq> None"
  by (auto simp: header_checks_def Let_def)

lemma subtotal_checks_passed:
  "all_passed (subtotal_checks i policy) \<longleftrightarrow>
    usable_line_totals i \<noteq> [] \<and> (\<exists>s. numeric_value (inv_subtotal i) = Some s
      \<and> within_tol (dsum (usable_line_totals i)) s (mp_amount_absolute_tolerance policy))"
  by (auto simp: subtotal_checks_def Let_def split: option.splits)

lemma total_checks_passed:
  "all_passed (total_checks i policy) \<longleftrightarrow>
    numeric_value (inv_tax i) \<noteq> None
    \<and> (\<forall>d. numeric_value (inv_subtotal i) = Some d \<longrightarrow> \<not> is_negative d)
    \<and> (\<forall>d. numeric_value (inv_tax i) = Some d \<longrightarrow> \<not> is_negative d)
    \<and> (\<forall>d. numeric_value (inv_total i) = Some d \<longrightarrow> \<not> is_negative d)
    \<and> (\<forall>s x t. numeric_value (inv_subtotal i) = Some s \<longrightarrow> numeric_value (inv_tax i) = Some x
        \<longrightarrow> numeric_value (inv_total i) = Some t
        \<longrightarrow> within_tol (dadd s x) t (mp_amount_absolute_tolerance policy))"
  by (cases "numeric_value (inv_subtotal i)"; cases "numeric_value (inv_tax i)";
      cases "numeric_value (inv_total i)")
    (auto simp: total_checks_def Let_def negative_checks_passed)

lemma usable_line_totals_nonempty:
  "list_all (line_consistent tol) (inv_line_items i) \<Longrightarrow>
    usable_line_totals i \<noteq> [] \<longleftrightarrow> inv_line_items i \<noteq> []"
  by (cases "inv_line_items i")
    (auto simp: usable_line_totals_def List.map_filter_def usable_line_total_def line_consistent_def
      split: option.splits)

lemma line_checks_all_passed:
  "all_passed (concat (map (\<lambda>(index, l). line_financial_checks policy index l) (List.enumerate n ls)))
    \<longleftrightarrow> list_all (line_consistent (mp_amount_absolute_tolerance policy)) ls"
  by (induction ls arbitrary: n) (simp_all add: line_financial_checks_passed)

lemma financials_all_passed:
  "all_passed (validate_invoice_financials i policy)
    \<longleftrightarrow> financially_consistent (mp_amount_absolute_tolerance policy) i"
proof -
  let ?tol = "mp_amount_absolute_tolerance policy"
  have "all_passed (validate_invoice_financials i policy) \<longleftrightarrow>
    all_passed (header_checks i) \<and> list_all (line_consistent ?tol) (inv_line_items i)
    \<and> all_passed (subtotal_checks i policy) \<and> all_passed (total_checks i policy)"
    by (simp add: validate_invoice_financials_def line_checks_all_passed)
  also have "\<dots> \<longleftrightarrow> financially_consistent ?tol i"
  proof (cases "list_all (line_consistent ?tol) (inv_line_items i)")
    case True
    then show ?thesis
      using usable_line_totals_nonempty [OF True]
      by (auto simp: header_checks_passed subtotal_checks_passed total_checks_passed
          financially_consistent_def split: option.splits)
  qed (simp add: financially_consistent_def)
  finally show ?thesis .
qed

subsection \<open>Which codes the validation can report\<close>

definition financial_codes :: "reason_code set" where
  "financial_codes = {EXTRACTION_ROW_ASSOCIATION_UNRESOLVED, INVOICE_SCHEMA_INCOMPLETE,
     INVOICE_LINE_ARITHMETIC_MISMATCH, INVOICE_SUBTOTAL_MISMATCH, INVOICE_TOTAL_MISMATCH,
     NEGATIVE_AMOUNT}"

lemma negative_checks_code: "c \<in> set (negative_checks s i items) \<Longrightarrow> vc_code c = NEGATIVE_AMOUNT"
  by (auto simp: negative_checks_def split: option.splits if_splits)

lemma line_financial_checks_codes:
  "c \<in> set (line_financial_checks policy k l) \<Longrightarrow> vc_code c \<in> financial_codes"
  by (cases "line_numbers_of l")
    (auto simp: line_financial_checks_def Let_def financial_codes_def dest!: negative_checks_code)

lemma header_checks_codes: "vc_code ` set (header_checks i) \<subseteq> financial_codes"
  by (simp add: header_checks_def Let_def financial_codes_def)

lemma subtotal_checks_codes: "vc_code ` set (subtotal_checks i policy) \<subseteq> financial_codes"
  by (cases "numeric_value (inv_subtotal i)"; cases "usable_line_totals i")
    (simp_all add: subtotal_checks_def Let_def financial_codes_def)

lemma total_checks_codes: "vc_code ` set (total_checks i policy) \<subseteq> financial_codes"
  by (cases "numeric_value (inv_subtotal i)"; cases "numeric_value (inv_tax i)";
      cases "numeric_value (inv_total i)")
    (auto simp: total_checks_def Let_def financial_codes_def dest!: negative_checks_code)

lemma validate_invoice_financials_codes:
  "vc_code ` set (validate_invoice_financials i policy) \<subseteq> financial_codes"
proof -
  have "vc_code ` set (concat (map (\<lambda>(k, l). line_financial_checks policy k l) ils)) \<subseteq> financial_codes"
    for ils
    by (auto dest: line_financial_checks_codes)
  then show ?thesis
    using header_checks_codes [of i] subtotal_checks_codes [of i policy] total_checks_codes [of i policy]
    by (simp add: validate_invoice_financials_def image_Un)
qed

end
