(* ===== verification/Samples.thy ===== *)
theory Samples
  imports Matching_Data
begin

text \<open>
  Concrete documents: an instance of the functions of other packages, extracted fields, an
  invoice and the purchase orders it is compared with. The witnesses of the component theories
  evaluate the operations on them.
\<close>

text \<open>Rescaling to eight fractional digits, half away from zero.\<close>

definition rescale8 :: "decimal \<Rightarrow> decimal" where
  "rescale8 d =
     (if -8 \<le> expo d then Scaled (coeff d * 10 ^ nat (expo d + 8)) (-8)
      else let p = 10 ^ nat (-8 - expo d) in
           Scaled (sgn (coeff d) * ((2 * \<bar>coeff d\<bar> + p) div (2 * p))) (-8))"

text \<open>
  A hash that is injective (the text itself) and similarity functions that find all
  descriptions alike.
\<close>

definition sample_lib :: lib where
  "sample_lib = \<lparr>sha256_hex = (\<lambda>s. s), float_repr = (\<lambda>x. ''0.85''),
     token_set_ratio = (\<lambda>a b. Scaled 100 0), ratio_decimal = (\<lambda>a b. Scaled 1000 (-1)),
     numeric_column = rescale8, datetime_json = canonical_utc, decimal_json = decimal_string\<rparr>"

lemma sample_lib_column: "numeric_column_exact sample_lib"
proof -
  have "dval (rescale8 d) = dval d" if "-8 \<le> expo d" for d
  proof -
    have "(10 :: rat) powi expo d = 10 powi (expo d + 8) * 10 powi (-8)"
      by (metis add.commute add.left_inverse power_int_add zero_neq_numeral add_0 add.assoc)
    moreover have "(10 :: rat) powi (expo d + 8) = 10 ^ nat (expo d + 8)"
      using that by (simp add: power_int_def)
    ultimately show ?thesis using that by (simp add: rescale8_def dval_def sval_def)
  qed
  then show ?thesis by (simp add: numeric_column_exact_def sample_lib_def)
qed

definition sample_span :: evidence_span where
  "sample_span = \<lparr>ev_page = 1,
     ev_bbox = \<lparr>bb_x0 = Scaled 0 0, bb_y0 = Scaled 0 0, bb_x1 = Scaled 1 0, bb_y1 = Scaled 1 0\<rparr>,
     ev_text = ''text'', ev_source = EMBEDDED\<rparr>"

definition seen :: "'a \<Rightarrow> 'a extracted_field" where
  "seen v = \<lparr>fvalue = Some v, fstatus = EXTRACTED, fevidence = [sample_span], frule_id = None\<rparr>"

definition sample_line :: "string \<Rightarrow> int \<Rightarrow> int \<Rightarrow> invoice_line" where
  "sample_line d q p = \<lparr>il_description = seen d, il_quantity = seen (Scaled q 0),
     il_unit_price = seen (Scaled p 0), il_line_total = seen (Scaled (q * p) 0)\<rparr>"

text \<open>An invoice over the given lines, without tax.\<close>

definition sample_invoice :: "(string \<times> int \<times> int) list \<Rightarrow> invoice" where
  "sample_invoice ls =
     (let total = sum_list (map (\<lambda>(d, q, p). q * p) ls) in
      \<lparr>inv_extraction_issues = [], inv_invoice_number = seen ''INV-1'',
       inv_invoice_date = seen 738000, inv_currency = seen ''EUR'',
       inv_subtotal = seen (Scaled total 0), inv_tax = seen (Scaled 0 0),
       inv_total = seen (Scaled total 0),
       inv_line_items = map (\<lambda>(d, q, p). sample_line d q p) ls\<rparr>)"

definition sample_time :: "int \<Rightarrow> datetime" where
  "sample_time d = \<lparr>dt_local = (d - 1) * us_per_day, dt_offset = Some 0\<rparr>"

definition sample_po :: "(string \<times> int \<times> int) list \<Rightarrow> purchase_order" where
  "sample_po ls = \<lparr>po_id = 7, po_external_po_number = ''PO-7'', po_vendor_name = Some ''Acme'',
     po_currency = ''EUR'', po_created_at = sample_time 737000,
     po_lines = map (\<lambda>(n, d, q, p).
        \<lparr>pl_id = 20 + n, pl_purchase_order_id = 7, pl_line_number = int_text (int n),
         pl_description = d, pl_ordered_quantity = Scaled q 0, pl_unit_price = Scaled p 0,
         pl_line_total = None\<rparr>) (List.enumerate 0 ls)\<rparr>"

end
