(* ===== verification/Engine.thy ===== *)
theory Engine
  imports Validation Samples
begin

text \<open>
  The two-way matching engine (\<^verbatim>\<open>invoiceops/matching/engine.py\<close> and
  \<^verbatim>\<open>invoiceops/matching/normalization.py\<close>): exact description matches first, then greedy
  assignment of the remaining pairs by similarity, then the comparisons of every assigned
  pair and the decision. The set of free purchase-order indices is kept as an ascending list.
\<close>

subsection \<open>Description normalization and similarity\<close>

definition normalize_description :: "string \<Rightarrow> string" where
  "normalize_description s =
     py_join '' '' (py_split (map (\<lambda>c. if is_word_char c then c else CHR '' '') (py_casefold s)))"

text \<open>\<^verbatim>\<open>x / 100.0\<close>; the divisor is not zero, so the second case does not occur.\<close>

definition over_hundred :: "pyfloat \<Rightarrow> pyfloat" where
  "over_hundred x = (case fdiv x (Scaled 100 0) of Some y \<Rightarrow> y | None \<Rightarrow> Scaled 0 0)"

definition description_similarity :: "lib \<Rightarrow> string \<Rightarrow> string \<Rightarrow> pyfloat" where
  "description_similarity lib l r =
     (let nl = normalize_description l; nr = normalize_description r
      in if nl = [] \<or> nr = [] then Scaled 0 0 else over_hundred (token_set_ratio lib nl nr))"

subsection \<open>Pairs and checks\<close>

record pair =
  pr_invoice_index :: nat
  pr_po_index :: nat
  pr_score :: pyfloat
  pr_exact :: bool

definition po_line_sort_key :: "po_line \<Rightarrow> nat \<times> int \<times> string" where
  "po_line_sort_key l =
     (case py_int (pl_line_number l) of
        Some n \<Rightarrow> (0, n, [])
      | None \<Rightarrow> (1, 0, py_casefold (pl_line_number l)))"

definition line_evidence :: "invoice_line \<Rightarrow> evidence_span list" where
  "line_evidence l =
     fevidence (il_description l) @ fevidence (il_quantity l) @ fevidence (il_unit_price l)
       @ fevidence (il_line_total l)"

definition comparison_check ::
  "reason_code \<Rightarrow> bool \<Rightarrow> shown \<Rightarrow> shown \<Rightarrow> shown option \<Rightarrow> string \<Rightarrow> nat \<Rightarrow> po_line
    \<Rightarrow> evidence_span list \<Rightarrow> validation_check" where
  "comparison_check code passed expected actual tolerance message index pol evidence = \<lparr>
     vc_code = code,
     vc_status = (if passed then PASSED else FAILED),
     vc_severity = (if passed then INFO else ERROR),
     vc_expected = serialize (Some expected),
     vc_actual = serialize (Some actual),
     vc_tolerance = serialize tolerance,
     vc_message = message,
     vc_invoice_line_index = Some index,
     vc_po_line_id = Some (pl_id pol),
     vc_evidence = evidence,
     vc_receipt_ids = [],
     vc_ordered_quantity = None,
     vc_received_quantity = None,
     vc_previously_invoiced_quantity = None,
     vc_available_quantity = None,
     vc_invoice_quantity = None\<rparr>"

definition issue_check ::
  "reason_code \<Rightarrow> string \<Rightarrow> nat option \<Rightarrow> po_line option \<Rightarrow> string option \<Rightarrow> string option
    \<Rightarrow> string option \<Rightarrow> evidence_span list \<Rightarrow> validation_check" where
  "issue_check code message index pol expected actual tolerance evidence = \<lparr>
     vc_code = code,
     vc_status = FAILED,
     vc_severity = ERROR,
     vc_expected = expected,
     vc_actual = actual,
     vc_tolerance = tolerance,
     vc_message = message,
     vc_invoice_line_index = index,
     vc_po_line_id = map_option pl_id pol,
     vc_evidence = evidence,
     vc_receipt_ids = [],
     vc_ordered_quantity = None,
     vc_received_quantity = None,
     vc_previously_invoiced_quantity = None,
     vc_available_quantity = None,
     vc_invoice_quantity = None\<rparr>"

subsection \<open>Exact matches\<close>

text \<open>The local variables of \<^verbatim>\<open>_candidate_pairs\<close> during the first loop.\<close>

record exact_state =
  ex_available :: "nat list"
  ex_unresolved :: "nat list"
  ex_selected :: "pair list"
  ex_checks :: "validation_check list"

text \<open>A description that can be compared at all.\<close>

definition usable_description :: "invoice_line \<Rightarrow> string option" where
  "usable_description l =
     (case fvalue (il_description l) of
        None \<Rightarrow> None
      | Some d \<Rightarrow> if fstatus (il_description l) \<noteq> EXTRACTED \<or> normalize_description d = []
                 then None else Some d)"

definition exact_candidates :: "purchase_order \<Rightarrow> nat list \<Rightarrow> string \<Rightarrow> nat list" where
  "exact_candidates po available d =
     filter (\<lambda>j. normalize_description (pl_description (po_lines po ! j)) = normalize_description d)
       available"

definition exact_step ::
  "lib \<Rightarrow> purchase_order \<Rightarrow> matching_policy \<Rightarrow> exact_state \<Rightarrow> nat \<times> invoice_line \<Rightarrow> exact_state" where
  "exact_step lib po policy st il =
     (case il of (i, l) \<Rightarrow>
        (case usable_description l of
           None \<Rightarrow>
             st\<lparr>ex_checks := ex_checks st @
                  [issue_check INVOICE_LINE_UNMATCHED
                     ''Invoice line description is missing or ambiguous.''
                     (Some i) None None None None (fevidence (il_description l))],
                ex_unresolved := filter (\<lambda>k. k \<noteq> i) (ex_unresolved st)\<rparr>
         | Some d \<Rightarrow>
             (case exact_candidates po (ex_available st) d of
                [] \<Rightarrow> st
              | [j] \<Rightarrow>
                  st\<lparr>ex_selected := ex_selected st @
                       [\<lparr>pr_invoice_index = i, pr_po_index = j, pr_score = Scaled 1 0, pr_exact = True\<rparr>],
                     ex_unresolved := filter (\<lambda>k. k \<noteq> i) (ex_unresolved st),
                     ex_available := filter (\<lambda>k. k \<noteq> j) (ex_available st)\<rparr>
              | _ \<Rightarrow>
                  st\<lparr>ex_checks := ex_checks st @
                       [issue_check DESCRIPTION_AMBIGUOUS
                          ''Invoice description exactly matches multiple purchase-order lines.''
                          (Some i) None None (Some d)
                          (Some (float_repr lib (mp_ambiguity_margin policy)))
                          (fevidence (il_description l))],
                     ex_unresolved := filter (\<lambda>k. k \<noteq> i) (ex_unresolved st)\<rparr>)))"

definition exact_phase ::
  "lib \<Rightarrow> invoice \<Rightarrow> purchase_order \<Rightarrow> matching_policy \<Rightarrow> validation_check list \<Rightarrow> exact_state" where
  "exact_phase lib invoice po policy checks =
     foldl (exact_step lib po policy)
       \<lparr>ex_available = [0..<length (po_lines po)],
        ex_unresolved = [0..<length (inv_line_items invoice)],
        ex_selected = [], ex_checks = checks\<rparr>
       (List.enumerate 0 (inv_line_items invoice))"

subsection \<open>Similar descriptions\<close>

definition pair_sort_key :: "purchase_order \<Rightarrow> pair \<Rightarrow> rat \<times> (nat \<times> int \<times> string) \<times> nat" where
  "pair_sort_key po p =
     (- fval (pr_score p), po_line_sort_key (po_lines po ! pr_po_index p), pr_invoice_index p)"

definition scored_pairs :: "lib \<Rightarrow> purchase_order \<Rightarrow> nat list \<Rightarrow> nat \<Rightarrow> string \<Rightarrow> pair list" where
  "scored_pairs lib po available i d =
     sort_key (pair_sort_key po)
       (map (\<lambda>j. \<lparr>pr_invoice_index = i, pr_po_index = j,
                  pr_score = description_similarity lib d (pl_description (po_lines po ! j)),
                  pr_exact = False\<rparr>) available)"

definition description_text :: "invoice_line \<Rightarrow> string" where
  "description_text l = (case fvalue (il_description l) of Some d \<Rightarrow> d | None \<Rightarrow> [])"

text \<open>One turn of the second loop: either one failed check or the eligible edges of the line.\<close>

definition edge_step ::
  "lib \<Rightarrow> invoice \<Rightarrow> purchase_order \<Rightarrow> matching_policy \<Rightarrow> nat list \<Rightarrow> nat
    \<Rightarrow> validation_check list \<times> pair list" where
  "edge_step lib invoice po policy available i =
     (let l = inv_line_items invoice ! i;
          scored = scored_pairs lib po available i (description_text l);
          eligible = filter (\<lambda>p. fle (mp_description_similarity_threshold policy) (pr_score p)) scored
      in case scored of
           [] \<Rightarrow> ([issue_check EXTRA_INVOICE_LINE
                    ''Invoice contains a line with no remaining purchase-order line.''
                    (Some i) None None None None (line_evidence l)], [])
         | best # _ \<Rightarrow>
             (case eligible of
                [] \<Rightarrow> ([issue_check DESCRIPTION_BELOW_THRESHOLD
                         ''Best purchase-order description is below the matching threshold.''
                         (Some i) None
                         (Some (float_repr lib (mp_description_similarity_threshold policy)))
                         (Some (format_fixed6 (pr_score best))) None
                         (fevidence (il_description l))], [])
              | [only] \<Rightarrow> ([], [only])
              | first # second # others \<Rightarrow>
                  if flt (fsub (pr_score first) (pr_score second)) (mp_ambiguity_margin policy)
                  then ([issue_check DESCRIPTION_AMBIGUOUS
                           ''The two best purchase-order descriptions are too close to distinguish.''
                           (Some i) None
                           (Some (''margin >= '' @ float_repr lib (mp_ambiguity_margin policy)))
                           (Some (format_fixed6 (fsub (pr_score first) (pr_score second)))) None
                           (fevidence (il_description l))], [])
                  else ([], first # second # others)))"

subsection \<open>Greedy one-to-one assignment\<close>

fun greedy :: "pair list \<Rightarrow> pair list \<Rightarrow> pair list" where
  "greedy selected [] = selected"
| "greedy selected (p # ps) =
     (if pr_invoice_index p \<in> set (map pr_invoice_index selected)
         \<or> pr_po_index p \<in> set (map pr_po_index selected)
      then greedy selected ps
      else greedy (selected @ [p]) ps)"

text \<open>The checks for lines that lost the assignment; a line that already has a check is skipped.\<close>

fun unassigned_checks ::
  "invoice \<Rightarrow> validation_check list \<Rightarrow> nat list \<Rightarrow> validation_check list" where
  "unassigned_checks invoice checks [] = checks"
| "unassigned_checks invoice checks (i # is) =
     (if \<exists>c \<in> set checks. vc_invoice_line_index c = Some i
      then unassigned_checks invoice checks is
      else unassigned_checks invoice
             (checks @ [issue_check INVOICE_LINE_UNMATCHED
                ''Invoice line could not be assigned one-to-one to a purchase-order line.''
                (Some i) None None None None (line_evidence (inv_line_items invoice ! i))]) is)"

definition po_unmatched_checks :: "purchase_order \<Rightarrow> pair list \<Rightarrow> validation_check list" where
  "po_unmatched_checks po selected =
     map (\<lambda>j. issue_check PO_LINE_UNMATCHED ''Purchase-order line has no matching invoice line.''
                None (Some (po_lines po ! j)) (Some (pl_description (po_lines po ! j))) None None [])
       (filter (\<lambda>j. j \<notin> set (map pr_po_index selected)) [0..<length (po_lines po)])"

text \<open>The result is the selected pairs and the extended list of checks.\<close>

definition candidate_pairs ::
  "lib \<Rightarrow> invoice \<Rightarrow> purchase_order \<Rightarrow> matching_policy \<Rightarrow> validation_check list
    \<Rightarrow> pair list \<times> validation_check list" where
  "candidate_pairs lib invoice po policy checks =
     (let ex = exact_phase lib invoice po policy checks;
          steps = map (edge_step lib invoice po policy (ex_available ex)) (ex_unresolved ex);
          edges = concat (map snd steps);
          selected = greedy (ex_selected ex) (sort_key (pair_sort_key po) edges);
          checks1 = ex_checks ex @ concat (map fst steps);
          checks2 = unassigned_checks invoice checks1
                      (filter (\<lambda>i. i \<notin> set (map pr_invoice_index selected)) (ex_unresolved ex));
          checks3 = checks2 @ po_unmatched_checks po selected
      in (sort_key pr_invoice_index selected, checks3))"

subsection \<open>Comparisons of an assigned pair\<close>

text \<open>\<^verbatim>\<open>abs(actual - expected) <= tolerance\<close> with the zero-price special case.\<close>

definition price_tolerance :: "decimal \<Rightarrow> decimal \<Rightarrow> decimal" where
  "price_tolerance po_price relative =
     (if deq po_price dzero then Scaled 0 0 else dmul (dabs po_price) relative)"

definition price_passed :: "decimal \<Rightarrow> decimal \<Rightarrow> decimal \<Rightarrow> bool" where
  "price_passed price po_price relative =
     (if deq po_price dzero then deq price dzero
      else within_tol price po_price (dmul (dabs po_price) relative))"

definition assignment_checks ::
  "lib \<Rightarrow> invoice_line \<Rightarrow> po_line \<Rightarrow> pair \<Rightarrow> matching_policy \<Rightarrow> validation_check list" where
  "assignment_checks lib l pol p policy =
     [comparison_check DESCRIPTION_BELOW_THRESHOLD
        (fle (mp_description_similarity_threshold policy) (pr_score p))
        (ShowStr (''>= '' @ float_repr lib (mp_description_similarity_threshold policy)))
        (ShowStr (format_fixed6 (pr_score p))) None
        ''Description similarity meets the matching threshold.''
        (pr_invoice_index p) pol (fevidence (il_description l))]
     @ (case numeric_value (il_quantity l) of None \<Rightarrow> []
        | Some q \<Rightarrow>
            let ok = within_tol q (pl_ordered_quantity pol) (mp_quantity_absolute_tolerance policy)
            in [comparison_check QUANTITY_MISMATCH ok (ShowDec (pl_ordered_quantity pol)) (ShowDec q)
                  (Some (ShowDec (mp_quantity_absolute_tolerance policy)))
                  (if ok then ''Invoice quantity is within tolerance.''
                   else ''Invoice quantity differs from ordered quantity.'')
                  (pr_invoice_index p) pol (fevidence (il_quantity l))])
     @ (case numeric_value (il_unit_price l) of None \<Rightarrow> []
        | Some u \<Rightarrow>
            let ok = price_passed u (pl_unit_price pol) (mp_unit_price_relative_tolerance policy)
            in [comparison_check UNIT_PRICE_MISMATCH ok (ShowDec (pl_unit_price pol)) (ShowDec u)
                  (Some (ShowDec (price_tolerance (pl_unit_price pol) (mp_unit_price_relative_tolerance policy))))
                  (if ok then ''Invoice unit price is within tolerance.''
                   else ''Invoice unit price differs from the purchase-order price.'')
                  (pr_invoice_index p) pol (fevidence (il_unit_price l))])
     @ (case numeric_value (il_line_total l) of None \<Rightarrow> []
        | Some t \<Rightarrow>
            let expected = dmul (pl_ordered_quantity pol) (pl_unit_price pol);
                ok = within_tol t expected (mp_amount_absolute_tolerance policy)
            in [comparison_check LINE_AMOUNT_MISMATCH ok (ShowDec expected) (ShowDec t)
                  (Some (ShowDec (mp_amount_absolute_tolerance policy)))
                  (if ok then ''Invoice line amount is within tolerance.''
                   else ''Invoice line amount differs from the purchase-order line amount.'')
                  (pr_invoice_index p) pol (fevidence (il_line_total l))])"

definition assignment ::
  "lib \<Rightarrow> invoice \<Rightarrow> purchase_order \<Rightarrow> matching_policy \<Rightarrow> pair \<Rightarrow> line_assignment" where
  "assignment lib invoice po policy p =
     (let l = inv_line_items invoice ! pr_invoice_index p; pol = po_lines po ! pr_po_index p
      in \<lparr>la_invoice_line_index = pr_invoice_index p,
          la_po_line_id = pl_id pol,
          la_po_line_number = pl_line_number pol,
          la_description_score = pr_score p,
          la_exact_description = pr_exact p,
          la_checks = assignment_checks lib l pol p policy,
          la_evidence = line_evidence l\<rparr>)"

subsection \<open>The engine\<close>

definition po_amount_check :: "matching_policy \<Rightarrow> po_line \<Rightarrow> validation_check list" where
  "po_amount_check policy pol =
     (case pl_line_total pol of None \<Rightarrow> []
      | Some t \<Rightarrow>
          let calculated = dmul (pl_ordered_quantity pol) (pl_unit_price pol);
              ok = within_tol t calculated (mp_amount_absolute_tolerance policy)
          in [(validation_check_of PO_LINE_AMOUNT_MISMATCH ok (Some (ShowDec calculated))
                 (Some (ShowDec t)) (Some (mp_amount_absolute_tolerance policy))
                 (if ok then ''Confirmed PO line amount agrees with quantity times unit price.''
                  else ''Confirmed PO line amount differs from quantity times unit price.'')
                 None [])\<lparr>vc_po_line_id := Some (pl_id pol)\<rparr>])"

definition currency_matches :: "invoice \<Rightarrow> purchase_order \<Rightarrow> bool" where
  "currency_matches invoice po =
     (fstatus (inv_currency invoice) = EXTRACTED \<and> fvalue (inv_currency invoice) = Some (po_currency po))"

definition currency_check :: "invoice \<Rightarrow> purchase_order \<Rightarrow> validation_check" where
  "currency_check invoice po =
     (let ok = currency_matches invoice po in
      validation_check_of CURRENCY_MISMATCH ok (Some (ShowStr (po_currency po)))
        (Some (ShowStr (case fvalue (inv_currency invoice) of
                          Some c \<Rightarrow> if c = [] then ''missing'' else c | None \<Rightarrow> ''missing'')))
        None
        (if ok then ''Invoice and purchase-order currencies match.''
         else ''Invoice currency differs from the purchase-order currency.'')
        None (fevidence (inv_currency invoice)))"

definition count_status :: "check_status \<Rightarrow> validation_check list \<Rightarrow> nat" where
  "count_status s cs = length (filter (\<lambda>c. vc_status c = s) cs)"

definition match_invoice :: "lib \<Rightarrow> invoice \<Rightarrow> purchase_order \<Rightarrow> matching_policy \<Rightarrow> match_result" where
  "match_invoice lib invoice po policy =
     (let checks0 = validate_invoice_financials invoice policy
            @ concat (map (po_amount_check policy) (po_lines po))
            @ [currency_check invoice po];
          (pairs, checks) = candidate_pairs lib invoice po policy checks0;
          assignments = map (assignment lib invoice po policy) pairs;
          all_checks = all_result_checks checks assignments;
          fails = filter failed all_checks
      in \<lparr>mr_decision = (if fails = [] then MATCHED else NEEDS_REVIEW),
          mr_summary = \<lparr>ms_invoice_line_count = length (inv_line_items invoice),
                        ms_po_line_count = length (po_lines po),
                        ms_assigned_line_count = length assignments,
                        ms_passed_check_count = count_status PASSED all_checks,
                        ms_failed_check_count = length fails\<rparr>,
          mr_checks = checks,
          mr_line_assignments = assignments,
          mr_reason_codes = dict_fromkeys (map vc_code fails)\<rparr>)"

subsection \<open>The exact phase\<close>

text \<open>
  What holds of the loop variables after \<open>k\<close> of \<open>n\<close> invoice lines: selected pairs are
  one-to-one and exact, the free purchase-order indices are the others, and as long as no check
  failed every line is either selected or still unresolved.
\<close>

definition exact_inv :: "purchase_order \<Rightarrow> nat \<Rightarrow> nat \<Rightarrow> exact_state \<Rightarrow> bool" where
  "exact_inv po n k st \<longleftrightarrow>
     distinct (map pr_invoice_index (ex_selected st)) \<and> distinct (map pr_po_index (ex_selected st))
     \<and> distinct (ex_unresolved st) \<and> distinct (ex_available st)
     \<and> pr_po_index ` set (ex_selected st) \<subseteq> {..<length (po_lines po)}
     \<and> set (ex_available st) = {..<length (po_lines po)} - pr_po_index ` set (ex_selected st)
     \<and> pr_invoice_index ` set (ex_selected st) \<subseteq> {..<k}
     \<and> pr_invoice_index ` set (ex_selected st) \<inter> set (ex_unresolved st) = {}
     \<and> set (ex_unresolved st) \<subseteq> {..<n} \<and> {k..<n} \<subseteq> set (ex_unresolved st)
     \<and> (all_passed (ex_checks st)
          \<longrightarrow> {..<n} \<subseteq> set (ex_unresolved st) \<union> pr_invoice_index ` set (ex_selected st))"

lemma issue_check_simps [simp]:
  "vc_status (issue_check c m i p e a t ev) = FAILED"
  "vc_code (issue_check c m i p e a t ev) = c"
  "vc_message (issue_check c m i p e a t ev) = m"
  "vc_invoice_line_index (issue_check c m i p e a t ev) = i"
  by (simp_all add: issue_check_def)

lemma comparison_check_simps [simp]:
  "vc_status (comparison_check c p e a t m i l ev) = (if p then PASSED else FAILED)"
  "vc_code (comparison_check c p e a t m i l ev) = c"
  "vc_message (comparison_check c p e a t m i l ev) = m"
  by (simp_all add: comparison_check_def)

lemma exact_candidates_available:
  "exact_candidates po available d = js \<Longrightarrow> j \<in> set js \<Longrightarrow>
    j \<in> set available \<and> normalize_description (pl_description (po_lines po ! j)) = normalize_description d"
  by (auto simp: exact_candidates_def)

lemma exact_step_inv:
  assumes "exact_inv po n k st" and "k < n"
  shows "exact_inv po n (Suc k) (exact_step lib po policy st (k, l))"
proof (cases "usable_description l")
  case None
  with assms show ?thesis by (auto simp: exact_inv_def exact_step_def)
next
  case (Some d)
  show ?thesis
  proof (cases "exact_candidates po (ex_available st) d" rule: list.exhaust [case_names none some])
    case none
    with Some assms show ?thesis by (auto simp: exact_inv_def exact_step_def)
  next
    case (some j js)
    show ?thesis
    proof (cases js)
      case Nil
      have "j \<in> set (ex_available st)"
        using some exact_candidates_available by fastforce
      with Nil some Some assms show ?thesis
        by (auto simp: exact_inv_def exact_step_def)
    next
      case (Cons j' js')
      with some Some assms show ?thesis by (auto simp: exact_inv_def exact_step_def)
    qed
  qed
qed

lemma exact_fold_inv:
  "exact_inv po n k st \<Longrightarrow> k + length ls \<le> n \<Longrightarrow>
    exact_inv po n (k + length ls) (foldl (exact_step lib po policy) st (List.enumerate k ls))"
proof (induction ls arbitrary: k st)
  case (Cons l ls)
  then have "exact_inv po n (Suc k) (exact_step lib po policy st (k, l))"
    by (intro exact_step_inv) auto
  from Cons.IH [OF this] Cons.prems show ?case by simp
qed simp

lemma exact_phase_inv:
  "exact_inv po (length (inv_line_items invoice)) (length (inv_line_items invoice))
    (exact_phase lib invoice po policy checks)"
  unfolding exact_phase_def
  by (rule exact_fold_inv [where k = 0, simplified]) (auto simp: exact_inv_def)

text \<open>The checks the first loop adds: an ambiguous description, or one that cannot be compared.\<close>

definition exact_issue :: "(nat \<times> invoice_line) set \<Rightarrow> validation_check \<Rightarrow> bool" where
  "exact_issue ils c \<longleftrightarrow>
     failed c \<and> (vc_code c = DESCRIPTION_AMBIGUOUS
       \<or> vc_code c = INVOICE_LINE_UNMATCHED
         \<and> (\<exists>(i, l) \<in> ils. vc_invoice_line_index c = Some i \<and> usable_description l = None))"

lemma exact_step_frame:
  "exact_step lib po policy (st\<lparr>ex_checks := cs @ ex_checks st\<rparr>) il
    = (exact_step lib po policy st il)\<lparr>ex_checks := cs @ ex_checks (exact_step lib po policy st il)\<rparr>"
  by (cases il) (simp add: exact_step_def split: option.split list.split)

lemma exact_fold_frame:
  "foldl (exact_step lib po policy) (st\<lparr>ex_checks := cs @ ex_checks st\<rparr>) ils
    = (foldl (exact_step lib po policy) st ils)
        \<lparr>ex_checks := cs @ ex_checks (foldl (exact_step lib po policy) st ils)\<rparr>"
  by (induction ils arbitrary: st) (simp_all add: exact_step_frame)

lemma exact_phase_frame:
  "exact_phase lib invoice po policy checks
    = (exact_phase lib invoice po policy [])
        \<lparr>ex_checks := checks @ ex_checks (exact_phase lib invoice po policy [])\<rparr>"
  using exact_fold_frame [where lib = lib and po = po and policy = policy and cs = checks
      and ils = "List.enumerate 0 (inv_line_items invoice)" and st =
      "\<lparr>ex_available = [0..<length (po_lines po)], ex_unresolved = [0..<length (inv_line_items invoice)],
        ex_selected = [], ex_checks = []\<rparr>"]
  by (simp add: exact_phase_def)

lemma exact_step_issues:
  "list_all (exact_issue (insert il ils)) (ex_checks st) \<Longrightarrow>
    list_all (exact_issue (insert il ils)) (ex_checks (exact_step lib po policy st il))"
  by (cases il) (auto simp: exact_step_def exact_issue_def split: option.splits list.splits)

lemma exact_fold_issues:
  "list_all (exact_issue ils) (ex_checks st) \<Longrightarrow> set xs \<subseteq> ils \<Longrightarrow>
    list_all (exact_issue ils) (ex_checks (foldl (exact_step lib po policy) st xs))"
proof (induction xs arbitrary: st)
  case (Cons il xs)
  then show ?case using exact_step_issues [of il ils st] by (simp add: insert_absorb)
qed simp

lemma exact_phase_issues:
  "list_all (exact_issue (set (List.enumerate 0 (inv_line_items invoice))))
    (ex_checks (exact_phase lib invoice po policy []))"
  unfolding exact_phase_def by (rule exact_fold_issues) simp_all

text \<open>A pair the first loop selects joins lines whose normalized descriptions are equal.\<close>

definition exact_pair :: "invoice \<Rightarrow> purchase_order \<Rightarrow> pair \<Rightarrow> bool" where
  "exact_pair invoice po p \<longleftrightarrow>
     pr_exact p \<and> pr_score p = Scaled 1 0
     \<and> (\<exists>d. usable_description (inv_line_items invoice ! pr_invoice_index p) = Some d
          \<and> normalize_description d = normalize_description (pl_description (po_lines po ! pr_po_index p)))"

lemma exact_step_pairs:
  assumes "\<forall>p \<in> set (ex_selected st). exact_pair invoice po p"
    and "k < length (inv_line_items invoice)" and "l = inv_line_items invoice ! k"
  shows "\<forall>p \<in> set (ex_selected (exact_step lib po policy st (k, l))). exact_pair invoice po p"
proof (cases "usable_description l")
  case (Some d)
  show ?thesis
  proof (cases "\<exists>j. exact_candidates po (ex_available st) d = [j]")
    case True
    then obtain j where j: "exact_candidates po (ex_available st) d = [j]" by blast
    then have "normalize_description (pl_description (po_lines po ! j)) = normalize_description d"
      using exact_candidates_available by fastforce
    with j Some assms show ?thesis
      by (auto simp: exact_step_def exact_pair_def)
  qed (use Some assms in \<open>auto simp: exact_step_def split: list.splits\<close>)
qed (use assms in \<open>simp add: exact_step_def\<close>)

lemma exact_phase_pairs:
  "p \<in> set (ex_selected (exact_phase lib invoice po policy checks)) \<Longrightarrow> exact_pair invoice po p"
proof -
  have fold: "\<forall>p \<in> set (ex_selected (foldl (exact_step lib po policy) st ils)). exact_pair invoice po p"
    if "\<forall>p \<in> set (ex_selected st). exact_pair invoice po p"
      and "\<forall>(k, l) \<in> set ils. k < length (inv_line_items invoice) \<and> l = inv_line_items invoice ! k"
    for st ils
    using that
  proof (induction ils arbitrary: st)
    case (Cons il ils)
    obtain k l where "il = (k, l)" by (cases il)
    with Cons.prems have "\<forall>p \<in> set (ex_selected (exact_step lib po policy st il)). exact_pair invoice po p"
      using exact_step_pairs [of st invoice po k l] by auto
    with Cons show ?case by simp
  qed simp
  have "\<forall>p \<in> set (ex_selected (exact_phase lib invoice po policy checks)). exact_pair invoice po p"
    unfolding exact_phase_def by (rule fold) (auto simp: in_set_enumerate_eq)
  then show "p \<in> set (ex_selected (exact_phase lib invoice po policy checks)) \<Longrightarrow> exact_pair invoice po p"
    by blast
qed

subsection \<open>Greedy assignment\<close>

lemma greedy_extends: "\<exists>qs. greedy selected ps = selected @ qs \<and> set qs \<subseteq> set ps"
proof (induction selected ps rule: greedy.induct)
  case (2 selected p ps)
  then show ?case
    by (cases "pr_invoice_index p \<in> set (map pr_invoice_index selected)
         \<or> pr_po_index p \<in> set (map pr_po_index selected)") fastforce+
qed simp

lemma greedy_distinct:
  "distinct (map pr_invoice_index selected) \<Longrightarrow> distinct (map pr_po_index selected) \<Longrightarrow>
    distinct (map pr_invoice_index (greedy selected ps)) \<and> distinct (map pr_po_index (greedy selected ps))"
  by (induction selected ps rule: greedy.induct) auto

lemma greedy_maximal:
  "p \<in> set ps \<Longrightarrow> pr_invoice_index p \<in> pr_invoice_index ` set (greedy selected ps)
     \<or> pr_po_index p \<in> pr_po_index ` set (greedy selected ps)"
proof (induction selected ps rule: greedy.induct)
  case (2 selected q ps)
  obtain qs where "greedy selected ps = selected @ qs" using greedy_extends by blast
  moreover obtain qs' where "greedy (selected @ [q]) ps = (selected @ [q]) @ qs'"
    using greedy_extends by blast
  ultimately show ?case using 2 by auto
qed simp

lemma edge_step_pairs:
  assumes "p \<in> set (snd (edge_step lib invoice po policy available i))"
  shows "pr_invoice_index p = i \<and> pr_po_index p \<in> set available \<and> \<not> pr_exact p
    \<and> fle (mp_description_similarity_threshold policy) (pr_score p)
    \<and> pr_score p = description_similarity lib (description_text (inv_line_items invoice ! i))
        (pl_description (po_lines po ! pr_po_index p))"
proof -
  define scored where
    "scored = scored_pairs lib po available i (description_text (inv_line_items invoice ! i))"
  define eligible where
    "eligible = filter (\<lambda>p. fle (mp_description_similarity_threshold policy) (pr_score p)) scored"
  from assms have "p \<in> set eligible"
    unfolding edge_step_def Let_def scored_def [symmetric] eligible_def [symmetric]
    by (auto split: list.splits if_splits)
  then show ?thesis by (auto simp: eligible_def scored_def scored_pairs_def)
qed

text \<open>A line leaves the second loop with a failed check or with at least one edge.\<close>

lemma edge_step_checks:
  "case edge_step lib invoice po policy available i of (cs, es) \<Rightarrow>
     (cs = [] \<and> es \<noteq> []
      \<or> (\<exists>c. cs = [c] \<and> failed c \<and> es = [] \<and> vc_invoice_line_index c = Some i
           \<and> vc_code c \<in> {EXTRA_INVOICE_LINE, DESCRIPTION_BELOW_THRESHOLD, DESCRIPTION_AMBIGUOUS}))"
  by (simp add: edge_step_def Let_def split: list.split)

lemma unassigned_checks_extends:
  "\<exists>cs. unassigned_checks invoice checks is = checks @ cs \<and> list_all failed cs"
proof (induction invoice checks "is" rule: unassigned_checks.induct)
  case (2 invoice checks i "is")
  then show ?case
    by (cases "\<exists>c \<in> set checks. vc_invoice_line_index c = Some i") auto
qed simp

lemma unassigned_checks_skip:
  "\<forall>i \<in> set is. \<exists>c \<in> set checks. vc_invoice_line_index c = Some i \<Longrightarrow>
    unassigned_checks invoice checks is = checks"
  by (induction invoice checks "is" rule: unassigned_checks.induct) auto

lemma po_unmatched_checks_passed:
  "all_passed (po_unmatched_checks po selected) \<longleftrightarrow>
    {..<length (po_lines po)} \<subseteq> pr_po_index ` set selected"
  by (auto simp: po_unmatched_checks_def all_passed_iff)

subsection \<open>The selected pairs\<close>

lemma edges_available:
  assumes "p \<in> set (concat (map snd (map (edge_step lib invoice po policy available) is)))"
  shows "pr_invoice_index p \<in> set is \<and> pr_po_index p \<in> set available \<and> \<not> pr_exact p
    \<and> fle (mp_description_similarity_threshold policy) (pr_score p)
    \<and> pr_score p = description_similarity lib
        (description_text (inv_line_items invoice ! pr_invoice_index p))
        (pl_description (po_lines po ! pr_po_index p))"
  using assms edge_step_pairs by fastforce

definition similar_pair :: "lib \<Rightarrow> invoice \<Rightarrow> purchase_order \<Rightarrow> matching_policy \<Rightarrow> pair \<Rightarrow> bool" where
  "similar_pair lib invoice po policy p \<longleftrightarrow>
     \<not> pr_exact p \<and> fle (mp_description_similarity_threshold policy) (pr_score p)
     \<and> pr_score p = description_similarity lib
         (description_text (inv_line_items invoice ! pr_invoice_index p))
         (pl_description (po_lines po ! pr_po_index p))"

definition one_to_one :: "nat \<Rightarrow> nat \<Rightarrow> pair list \<Rightarrow> bool" where
  "one_to_one n m ps \<longleftrightarrow>
     distinct (map pr_invoice_index ps) \<and> distinct (map pr_po_index ps)
     \<and> (\<forall>p \<in> set ps. pr_invoice_index p < n \<and> pr_po_index p < m)"

text \<open>The outcome of the two loops and the assignment, without the checks that were there before.\<close>

definition loop_state :: "lib \<Rightarrow> invoice \<Rightarrow> purchase_order \<Rightarrow> matching_policy \<Rightarrow> exact_state" where
  "loop_state lib invoice po policy = exact_phase lib invoice po policy []"

definition loop_steps ::
  "lib \<Rightarrow> invoice \<Rightarrow> purchase_order \<Rightarrow> matching_policy \<Rightarrow> (validation_check list \<times> pair list) list" where
  "loop_steps lib invoice po policy =
     map (edge_step lib invoice po policy (ex_available (loop_state lib invoice po policy)))
       (ex_unresolved (loop_state lib invoice po policy))"

definition selected_pairs :: "lib \<Rightarrow> invoice \<Rightarrow> purchase_order \<Rightarrow> matching_policy \<Rightarrow> pair list" where
  "selected_pairs lib invoice po policy =
     sort_key pr_invoice_index (greedy (ex_selected (loop_state lib invoice po policy))
       (sort_key (pair_sort_key po) (concat (map snd (loop_steps lib invoice po policy)))))"

definition lost_lines :: "lib \<Rightarrow> invoice \<Rightarrow> purchase_order \<Rightarrow> matching_policy \<Rightarrow> nat list" where
  "lost_lines lib invoice po policy =
     filter (\<lambda>i. i \<notin> pr_invoice_index ` set (selected_pairs lib invoice po policy))
       (ex_unresolved (loop_state lib invoice po policy))"

lemma po_unmatched_checks_sort [simp]: "po_unmatched_checks po (sort_key f ps) = po_unmatched_checks po ps"
  by (simp add: po_unmatched_checks_def)

lemma candidate_pairs_eq:
  "candidate_pairs lib invoice po policy checks =
    (selected_pairs lib invoice po policy,
     unassigned_checks invoice
       (checks @ ex_checks (loop_state lib invoice po policy)
         @ concat (map fst (loop_steps lib invoice po policy))) (lost_lines lib invoice po policy)
     @ po_unmatched_checks po (selected_pairs lib invoice po policy))"
proof -
  note frame = exact_phase_frame [of lib invoice po policy checks, folded loop_state_def]
  have "ex_available (exact_phase lib invoice po policy checks) = ex_available (loop_state lib invoice po policy)"
    "ex_unresolved (exact_phase lib invoice po policy checks) = ex_unresolved (loop_state lib invoice po policy)"
    "ex_selected (exact_phase lib invoice po policy checks) = ex_selected (loop_state lib invoice po policy)"
    "ex_checks (exact_phase lib invoice po policy checks) = checks @ ex_checks (loop_state lib invoice po policy)"
    by (simp_all add: frame)
  then show ?thesis
    by (simp add: candidate_pairs_def Let_def loop_steps_def selected_pairs_def lost_lines_def)
qed

lemma selected_pairs_valid:
  "one_to_one (length (inv_line_items invoice)) (length (po_lines po)) (selected_pairs lib invoice po policy)
    \<and> (\<forall>p \<in> set (selected_pairs lib invoice po policy).
         exact_pair invoice po p \<or> similar_pair lib invoice po policy p)"
proof -
  let ?n = "length (inv_line_items invoice)"
  define ex where "ex = loop_state lib invoice po policy"
  define edges where
    "edges = sort_key (pair_sort_key po) (concat (map snd (loop_steps lib invoice po policy)))"
  define selected where "selected = greedy (ex_selected ex) edges"
  have inv: "exact_inv po ?n ?n ex" unfolding ex_def loop_state_def by (rule exact_phase_inv)
  obtain qs where qs: "selected = ex_selected ex @ qs" "set qs \<subseteq> set edges"
    unfolding selected_def using greedy_extends by blast
  have edge: "pr_invoice_index p \<in> set (ex_unresolved ex) \<and> pr_po_index p \<in> set (ex_available ex)
      \<and> similar_pair lib invoice po policy p" if "p \<in> set qs" for p
    using edges_available [of p lib invoice po policy "ex_available ex" "ex_unresolved ex"] that qs(2)
    by (auto simp: edges_def loop_steps_def similar_pair_def ex_def)
  have "one_to_one ?n (length (po_lines po)) selected"
    using inv greedy_distinct [of "ex_selected ex" edges] edge qs(1)
    by (fastforce simp: one_to_one_def exact_inv_def selected_def [symmetric])
  moreover have "exact_pair invoice po p \<or> similar_pair lib invoice po policy p" if "p \<in> set selected" for p
    using that qs(1) edge exact_phase_pairs by (auto simp: ex_def loop_state_def)
  moreover have "selected_pairs lib invoice po policy = sort_key pr_invoice_index selected"
    by (simp add: selected_pairs_def selected_def ex_def edges_def)
  ultimately show ?thesis by (simp add: one_to_one_def)
qed

text \<open>Every line has at least one check from the financial validation.\<close>

lemma financial_check_of_line:
  assumes "i < length (inv_line_items invoice)"
  shows "\<exists>c \<in> set (validate_invoice_financials invoice policy). vc_invoice_line_index c = Some i"
proof -
  let ?l = "inv_line_items invoice ! i"
  have "\<exists>c \<in> set (line_financial_checks policy i ?l). vc_invoice_line_index c = Some i"
    by (simp add: line_financial_checks_def Let_def)
  moreover have "(i, ?l) \<in> set (List.enumerate 0 (inv_line_items invoice))"
    using assms by (simp add: in_set_enumerate_eq)
  ultimately show ?thesis by (force simp: validate_invoice_financials_def)
qed

lemma lost_lines_bound: "i \<in> set (lost_lines lib invoice po policy) \<Longrightarrow> i < length (inv_line_items invoice)"
  using exact_phase_inv [of po invoice lib policy "[]"]
  by (auto simp: lost_lines_def loop_state_def exact_inv_def)

lemma one_to_one_sort [simp]: "one_to_one n m (sort_key f ps) \<longleftrightarrow> one_to_one n m ps"
  by (simp add: one_to_one_def)

subsection \<open>The decision\<close>

text \<open>What an assigned pair of lines agrees on, stated without checks.\<close>

definition pair_agrees :: "matching_policy \<Rightarrow> invoice_line \<Rightarrow> po_line \<Rightarrow> pyfloat \<Rightarrow> bool" where
  "pair_agrees policy l pol score \<longleftrightarrow>
     fle (mp_description_similarity_threshold policy) score
     \<and> (case line_numbers_of l of None \<Rightarrow> False
        | Some (q, u, t) \<Rightarrow>
            within_tol q (pl_ordered_quantity pol) (mp_quantity_absolute_tolerance policy)
            \<and> price_passed u (pl_unit_price pol) (mp_unit_price_relative_tolerance policy)
            \<and> within_tol t (dmul (pl_ordered_quantity pol) (pl_unit_price pol))
                (mp_amount_absolute_tolerance policy))"

lemma assignment_checks_passed:
  "line_consistent tol l \<Longrightarrow>
    all_passed (assignment_checks lib l pol p policy) \<longleftrightarrow> pair_agrees policy l pol (pr_score p)"
  by (auto simp: assignment_checks_def pair_agrees_def line_consistent_def line_numbers_of_Some Let_def
      split: option.splits)

definition po_line_consistent :: "decimal \<Rightarrow> po_line \<Rightarrow> bool" where
  "po_line_consistent tol pol \<longleftrightarrow>
     (case pl_line_total pol of None \<Rightarrow> True
      | Some t \<Rightarrow> within_tol t (dmul (pl_ordered_quantity pol) (pl_unit_price pol)) tol)"

lemma po_amount_check_passed:
  "all_passed (po_amount_check policy pol)
    \<longleftrightarrow> po_line_consistent (mp_amount_absolute_tolerance policy) pol"
  by (auto simp: po_amount_check_def po_line_consistent_def validation_check_of_def Let_def
      split: option.splits)

lemma currency_check_passed: "vc_status (currency_check invoice po) = PASSED \<longleftrightarrow> currency_matches invoice po"
  by (simp add: currency_check_def Let_def)

definition engine_checks :: "invoice \<Rightarrow> purchase_order \<Rightarrow> matching_policy \<Rightarrow> validation_check list" where
  "engine_checks invoice po policy =
     validate_invoice_financials invoice policy
       @ concat (map (po_amount_check policy) (po_lines po)) @ [currency_check invoice po]"

lemma engine_checks_passed:
  "all_passed (engine_checks invoice po policy) \<longleftrightarrow>
    financially_consistent (mp_amount_absolute_tolerance policy) invoice
    \<and> list_all (po_line_consistent (mp_amount_absolute_tolerance policy)) (po_lines po)
    \<and> currency_matches invoice po"
  by (simp add: engine_checks_def financials_all_passed all_passed_concat currency_check_passed
      list.pred_map comp_def po_amount_check_passed)

text \<open>Since every line has a check already, the third loop adds none.\<close>

lemma engine_unassigned_checks:
  "unassigned_checks invoice (engine_checks invoice po policy @ cs) (lost_lines lib invoice po policy)
    = engine_checks invoice po policy @ cs"
proof (rule unassigned_checks_skip, rule ballI)
  fix i
  assume "i \<in> set (lost_lines lib invoice po policy)"
  then have "\<exists>c \<in> set (validate_invoice_financials invoice policy). vc_invoice_line_index c = Some i"
    by (intro financial_check_of_line lost_lines_bound)
  then show "\<exists>c \<in> set (engine_checks invoice po policy @ cs). vc_invoice_line_index c = Some i"
    by (auto simp: engine_checks_def)
qed

lemma match_invoice_fields:
  fixes lib invoice po policy
  defines "r \<equiv> match_invoice lib invoice po policy"
  shows "mr_checks r = engine_checks invoice po policy @ ex_checks (loop_state lib invoice po policy)
           @ concat (map fst (loop_steps lib invoice po policy))
           @ po_unmatched_checks po (selected_pairs lib invoice po policy)"
    and "mr_line_assignments r
           = map (assignment lib invoice po policy) (selected_pairs lib invoice po policy)"
    and "mr_decision r = (if all_passed (all_result_checks (mr_checks r) (mr_line_assignments r))
           then MATCHED else NEEDS_REVIEW)"
    and "mr_reason_codes r
           = dict_fromkeys (map vc_code (filter failed (all_result_checks (mr_checks r) (mr_line_assignments r))))"
  unfolding r_def
  by (simp_all add: match_invoice_def Let_def engine_checks_def [symmetric] candidate_pairs_eq
      engine_unassigned_checks no_failed_iff)

definition two_way_run :: "lib \<times> invoice \<times> purchase_order \<times> matching_policy \<Rightarrow> match_result option" where
  "two_way_run = (\<lambda>(lib, invoice, po, policy). Some (match_invoice lib invoice po policy))"

interpretation two_way: checked_decision two_way_run
  by unfold_locales
    (auto simp: two_way_run_def match_invoice_fields(4) simp del: check_status_not_failed,
      simp_all add: match_invoice_fields(3))

lemma two_way_run_of [simp]:
  "two_way_run (lib, invoice, po, policy) = Some (match_invoice lib invoice po policy)"
  by (simp add: two_way_run_def)

lemma engine_checks_codes:
  "vc_code ` set (engine_checks invoice po policy)
    \<subseteq> financial_codes \<union> {PO_LINE_AMOUNT_MISMATCH, CURRENCY_MISMATCH}"
proof -
  have "c \<in> set (po_amount_check policy pol) \<Longrightarrow> vc_code c = PO_LINE_AMOUNT_MISMATCH" for c pol
    by (auto simp: po_amount_check_def Let_def validation_check_of_def split: option.splits)
  moreover have "vc_code (currency_check invoice po) = CURRENCY_MISMATCH"
    by (simp add: currency_check_def Let_def)
  ultimately show ?thesis
    using validate_invoice_financials_codes [of invoice policy] by (auto simp: engine_checks_def)
qed

lemma edge_step_codes:
  "c \<in> set (fst (edge_step lib invoice po policy available i)) \<Longrightarrow> vc_code c \<noteq> INVOICE_LINE_UNMATCHED"
  using edge_step_checks [where lib = lib and invoice = invoice and po = po and policy = policy
      and available = available and i = i]
  by (auto split: prod.splits)

lemma loop_checks_passed:
  "all_passed (ex_checks (loop_state lib invoice po policy)) \<longleftrightarrow> ex_checks (loop_state lib invoice po policy) = []"
  "all_passed (concat (map fst (loop_steps lib invoice po policy)))
    \<longleftrightarrow> list_all (\<lambda>step. fst step = []) (loop_steps lib invoice po policy)"
proof -
  show "all_passed (ex_checks (loop_state lib invoice po policy)) \<longleftrightarrow> ex_checks (loop_state lib invoice po policy) = []"
    using exact_phase_issues [where invoice = invoice and lib = lib and po = po and policy = policy]
    by (cases "ex_checks (exact_phase lib invoice po policy [])") (auto simp: loop_state_def exact_issue_def)
  have "all_passed (fst (edge_step lib invoice po policy av i))
      \<longleftrightarrow> fst (edge_step lib invoice po policy av i) = []" for av i
    using edge_step_checks [where lib = lib and invoice = invoice and po = po and policy = policy
        and available = av and i = i]
    by (auto split: prod.splits)
  then show "all_passed (concat (map fst (loop_steps lib invoice po policy)))
      \<longleftrightarrow> list_all (\<lambda>step. fst step = []) (loop_steps lib invoice po policy)"
    by (simp add: loop_steps_def all_passed_concat list.pred_map comp_def)
qed

text \<open>The decision without reference to checks.\<close>

lemma matched_char:
  "mr_decision (match_invoice lib invoice po policy) = MATCHED \<longleftrightarrow>
    financially_consistent (mp_amount_absolute_tolerance policy) invoice
    \<and> list_all (po_line_consistent (mp_amount_absolute_tolerance policy)) (po_lines po)
    \<and> currency_matches invoice po
    \<and> ex_checks (loop_state lib invoice po policy) = []
    \<and> list_all (\<lambda>step. fst step = []) (loop_steps lib invoice po policy)
    \<and> list_all (\<lambda>j. j \<in> set (map pr_po_index (selected_pairs lib invoice po policy)))
        [0..<length (po_lines po)]
    \<and> list_all (\<lambda>p. pair_agrees policy (inv_line_items invoice ! pr_invoice_index p)
          (po_lines po ! pr_po_index p) (pr_score p)) (selected_pairs lib invoice po policy)"
proof -
  let ?tol = "mp_amount_absolute_tolerance policy"
  let ?ps = "selected_pairs lib invoice po policy"
  have "all_passed (la_checks (assignment lib invoice po policy p))
      \<longleftrightarrow> pair_agrees policy (inv_line_items invoice ! pr_invoice_index p)
          (po_lines po ! pr_po_index p) (pr_score p)"
    if "p \<in> set ?ps" and "financially_consistent ?tol invoice" for p
  proof -
    have "pr_invoice_index p < length (inv_line_items invoice)"
      using that(1) selected_pairs_valid by (auto simp: one_to_one_def)
    with that(2) have "line_consistent ?tol (inv_line_items invoice ! pr_invoice_index p)"
      by (simp add: financially_consistent_def list_all_length)
    from assignment_checks_passed [OF this] show ?thesis by (simp add: assignment_def Let_def)
  qed
  then show ?thesis
    unfolding two_way.matched_iff [OF two_way_run_of] match_invoice_fields(1,2)
    by (auto simp: engine_checks_passed loop_checks_passed po_unmatched_checks_passed list_all_iff)
qed

lemma matched_covers:
  assumes "mr_decision (match_invoice lib invoice po policy) = MATCHED"
  shows "pr_po_index ` set (selected_pairs lib invoice po policy) = {..<length (po_lines po)}"
  using assms selected_pairs_valid [where invoice = invoice and po = po and lib = lib and policy = policy]
  by (auto simp: matched_char one_to_one_def list_all_iff)

text \<open>
  C2: a two-way match that the engine reports as MATCHED is really one. The invoice is financially
  consistent, its currency and the amounts of the purchase order agree, the line assignments are
  one-to-one, every purchase-order line is assigned, and for every assigned pair description,
  quantity, unit price and amount are within the policy's tolerances.
\<close>

theorem match_invoice_matched_sound:
  assumes "mr_decision (match_invoice lib invoice po policy) = MATCHED"
  shows "financially_consistent (mp_amount_absolute_tolerance policy) invoice
    \<and> currency_matches invoice po
    \<and> list_all (po_line_consistent (mp_amount_absolute_tolerance policy)) (po_lines po)
    \<and> (\<exists>ps. mr_line_assignments (match_invoice lib invoice po policy)
              = map (assignment lib invoice po policy) ps
         \<and> one_to_one (length (inv_line_items invoice)) (length (po_lines po)) ps
         \<and> pr_po_index ` set ps = {..<length (po_lines po)}
         \<and> (\<forall>p \<in> set ps. pair_agrees policy (inv_line_items invoice ! pr_invoice_index p)
                (po_lines po ! pr_po_index p) (pr_score p)))"
  using assms matched_covers [OF assms] selected_pairs_valid [where invoice = invoice and po = po and lib = lib and policy = policy]
  by (auto simp: matched_char match_invoice_fields(2) list_all_iff
      intro!: exI [of _ "selected_pairs lib invoice po policy"])

text \<open>
  When a MATCHED invoice has as many lines as the purchase order, the assignment is a
  bijection: no invoice line is left out of the comparison.
\<close>

theorem match_invoice_matched_bijection:
  assumes "mr_decision (match_invoice lib invoice po policy) = MATCHED"
    and "length (inv_line_items invoice) = length (po_lines po)"
  shows "la_invoice_line_index ` set (mr_line_assignments (match_invoice lib invoice po policy))
    = {..<length (inv_line_items invoice)}"
proof -
  let ?ps = "selected_pairs lib invoice po policy"
  have "one_to_one (length (inv_line_items invoice)) (length (po_lines po)) ?ps"
    using selected_pairs_valid by blast
  then have inj: "distinct (map pr_invoice_index ?ps)" "distinct (map pr_po_index ?ps)"
    and range: "pr_invoice_index ` set ?ps \<subseteq> {..<length (inv_line_items invoice)}"
    by (auto simp: one_to_one_def)
  have "length (po_lines po) = card (pr_po_index ` set ?ps)"
    using matched_covers [OF assms(1)] by simp
  also have "\<dots> = card (pr_invoice_index ` set ?ps)"
    using inj by (metis distinct_card length_map list.set_map)
  finally have "pr_invoice_index ` set ?ps = {..<length (inv_line_items invoice)}"
    using range assms(2) by (intro card_subset_eq) auto
  moreover have "la_invoice_line_index (assignment lib invoice po policy p) = pr_invoice_index p" for p
    by (simp add: assignment_def Let_def)
  ultimately show ?thesis by (simp add: match_invoice_fields(2) image_image)
qed

text \<open>
  The pairs that \<^verbatim>\<open>_candidate_pairs\<close> returns, whatever the invoice, are one-to-one, in
  range, in the order of the invoice lines, and each joins two equal normalized descriptions or two
  descriptions whose similarity reaches the threshold.
\<close>

theorem candidate_pairs_one_to_one:
  "one_to_one (length (inv_line_items invoice)) (length (po_lines po))
     (fst (candidate_pairs lib invoice po policy checks))
   \<and> sorted (map pr_invoice_index (fst (candidate_pairs lib invoice po policy checks)))
   \<and> list_all (\<lambda>p. exact_pair invoice po p \<or> similar_pair lib invoice po policy p)
       (fst (candidate_pairs lib invoice po policy checks))"
  using selected_pairs_valid [where invoice = invoice and po = po and lib = lib and policy = policy]
  by (auto simp: candidate_pairs_eq selected_pairs_def list_all_iff)

text \<open>
  The result of the two-way engine always satisfies the decision contract of the schema, so
  that building it never raises, and its reason codes are the codes of the failed checks without
  repetition.
\<close>

theorem match_invoice_contract:
  "validate_decision_contract (match_invoice lib invoice po policy)
   \<and> distinct (mr_reason_codes (match_invoice lib invoice po policy))
   \<and> set (mr_reason_codes (match_invoice lib invoice po policy))
       = vc_code ` {c. c \<in> set (all_result_checks (mr_checks (match_invoice lib invoice po policy))
                          (mr_line_assignments (match_invoice lib invoice po policy))) \<and> failed c}"
  using two_way.contract [OF two_way_run_of] two_way.reasons_distinct [OF two_way_run_of]
    two_way.reasons_set [OF two_way_run_of] by simp

text \<open>
  The third loop of \<^verbatim>\<open>_candidate_pairs\<close> never reports anything. Every
  \<^verbatim>\<open>INVOICE_LINE_UNMATCHED\<close> check of a result is about a line whose description is missing or
  ambiguous, so a line that lost the one-to-one assignment goes unreported.
\<close>

theorem lost_line_never_reported:
  "list_all (\<lambda>c. vc_code c = INVOICE_LINE_UNMATCHED \<longrightarrow>
       (\<exists>i < length (inv_line_items invoice). vc_invoice_line_index c = Some i
          \<and> usable_description (inv_line_items invoice ! i) = None))
     (mr_checks (match_invoice lib invoice po policy))"
proof -
  let ?P = "\<lambda>c. vc_code c = INVOICE_LINE_UNMATCHED \<longrightarrow>
       (\<exists>i < length (inv_line_items invoice). vc_invoice_line_index c = Some i
          \<and> usable_description (inv_line_items invoice ! i) = None)"
  have "vc_code c \<noteq> INVOICE_LINE_UNMATCHED" if "c \<in> set (engine_checks invoice po policy)" for c
    using that engine_checks_codes [of invoice po policy] by (auto simp: financial_codes_def)
  then have "list_all ?P (engine_checks invoice po policy)" by (auto simp: list_all_iff)
  moreover have "list_all ?P (ex_checks (loop_state lib invoice po policy))"
    using exact_phase_issues [where invoice = invoice and lib = lib and po = po and policy = policy]
    by (auto simp: loop_state_def list_all_iff exact_issue_def in_set_enumerate_eq)
  moreover have "list_all ?P (concat (map fst (loop_steps lib invoice po policy)))"
    using edge_step_codes by (fastforce simp: list_all_iff loop_steps_def)
  moreover have "list_all ?P (po_unmatched_checks po (selected_pairs lib invoice po policy))"
    by (auto simp: list_all_iff po_unmatched_checks_def)
  ultimately show ?thesis by (simp add: match_invoice_fields(1))
qed

subsection \<open>Witnesses\<close>

definition sample_kit :: invoice where
  "sample_kit = sample_invoice [(''Premium widget kit'', 1, 100)]"

definition sample_kit_po :: purchase_order where
  "sample_kit_po = sample_po [(''premium  widget kit'', 1, 100)]"

definition sample_two_kits :: invoice where
  "sample_two_kits = sample_invoice [(''premium widget kit a'', 1, 100), (''premium widget kit b'', 1, 100)]"

lemma kit_matched: "mr_decision (match_invoice sample_lib sample_kit sample_kit_po default_policy) = MATCHED"
  unfolding matched_char by (intro conjI) code_simp+

text \<open>
  C33: an invoice that bills the one ordered kit twice, under two similar descriptions, is MATCHED:
  only the first line is compared, and the total is twice what was ordered.
\<close>

theorem double_billing_matched:
  "mr_decision (match_invoice sample_lib sample_two_kits sample_kit_po default_policy) = MATCHED
   \<and> map la_invoice_line_index
       (mr_line_assignments (match_invoice sample_lib sample_two_kits sample_kit_po default_policy)) = [0]
   \<and> fvalue (inv_total sample_two_kits) = Some (Scaled 200 0)
   \<and> map (\<lambda>l. dmul (pl_ordered_quantity l) (pl_unit_price l)) (po_lines sample_kit_po) = [Scaled 100 0]"
proof (intro conjI)
  let ?loop = "loop_state sample_lib sample_two_kits sample_kit_po default_policy"
  let ?pair = "\<lambda>i. \<lparr>pr_invoice_index = i, pr_po_index = 0, pr_score = Scaled 1 0, pr_exact = False\<rparr>"
  have loop: "ex_checks ?loop = []" "ex_available ?loop = [0]" "ex_unresolved ?loop = [0, 1]"
    "ex_selected ?loop = []" by code_simp+
  have steps: "loop_steps sample_lib sample_two_kits sample_kit_po default_policy
      = [([], [?pair 0]), ([], [?pair 1])]"
    unfolding loop_steps_def loop by code_simp
  have pairs: "selected_pairs sample_lib sample_two_kits sample_kit_po default_policy = [?pair 0]"
    unfolding selected_pairs_def steps loop by code_simp
  have lines: "length (po_lines sample_kit_po) = 1" by code_simp
  show "mr_decision (match_invoice sample_lib sample_two_kits sample_kit_po default_policy) = MATCHED"
    unfolding matched_char
  proof (intro conjI)
    show "list_all (\<lambda>p. pair_agrees default_policy (inv_line_items sample_two_kits ! pr_invoice_index p)
          (po_lines sample_kit_po ! pr_po_index p) (pr_score p))
        (selected_pairs sample_lib sample_two_kits sample_kit_po default_policy)"
      unfolding pairs by code_simp
  qed (simp_all add: loop steps pairs lines, code_simp+)
  show "map la_invoice_line_index
       (mr_line_assignments (match_invoice sample_lib sample_two_kits sample_kit_po default_policy)) = [0]"
    by (simp add: match_invoice_fields(2) pairs assignment_def Let_def)
qed code_simp+

theorem match_invoice_matched_sound_witness:
  "mr_decision (match_invoice sample_lib sample_kit sample_kit_po default_policy) = MATCHED
   \<and> currency_matches sample_kit sample_kit_po"
  using match_invoice_matched_sound [OF kit_matched] kit_matched by blast

theorem match_invoice_matched_bijection_witness:
  "la_invoice_line_index ` set (mr_line_assignments
     (match_invoice sample_lib sample_kit sample_kit_po default_policy)) = {..<1}"
proof -
  have "length (inv_line_items sample_kit) = length (po_lines sample_kit_po)"
    and "length (inv_line_items sample_kit) = 1" by code_simp+
  then show ?thesis using match_invoice_matched_bijection [OF kit_matched] by simp
qed

theorem lost_line_never_reported_witness:
  "\<not> list_ex (\<lambda>c. vc_code c = INVOICE_LINE_UNMATCHED \<and> vc_invoice_line_index c = Some 1)
     (mr_checks (match_invoice sample_lib sample_two_kits sample_kit_po default_policy))"
proof -
  have "usable_description (inv_line_items sample_two_kits ! 1) \<noteq> None" by code_simp
  with lost_line_never_reported [where lib = sample_lib and invoice = sample_two_kits
      and po = sample_kit_po and policy = default_policy]
  show ?thesis by (auto simp: list_all_iff list_ex_iff)
qed

end
