(* ===== verification/Receipts.thy ===== *)
theory Receipts
  imports Samples
begin

text \<open>
  Goods receipts (\<^verbatim>\<open>invoiceops/schemas/receipts.py\<close> and \<^verbatim>\<open>invoiceops/receipts/service.py\<close>):
  validation of the command, the fingerprint of a request, creation with replay detection, and
  reversal. The tables are lists of rows; new identifiers and the current time are arguments of the
  operations. The purchase order is locked for the duration of an operation, so its rows do not
  change; receipts that another transaction commits between the read and the commit are the
  argument \<open>racing\<close>.
\<close>

subsection \<open>Commands\<close>

record receipt_line_create =
  rlc_purchase_order_line_id :: uuid
  rlc_accepted_quantity :: decimal

record receipt_create =
  rc_purchase_order_id :: uuid
  rc_external_receipt_number :: string
  rc_received_at :: datetime
  rc_lines :: "receipt_line_create list"

text \<open>\<^verbatim>\<open>GoodsReceiptCreate.model_validate\<close>: \<open>None\<close> is the validation error.\<close>

definition validate_receipt_create :: "receipt_create \<Rightarrow> receipt_create option" where
  "validate_receipt_create c =
     (case non_blank (rc_external_receipt_number c) of
        None \<Rightarrow> None
      | Some number \<Rightarrow>
          if dt_offset (rc_received_at c) \<noteq> None \<and> rc_lines c \<noteq> []
             \<and> list_all (\<lambda>l. dlt dzero (rlc_accepted_quantity l)) (rc_lines c)
             \<and> distinct (map rlc_purchase_order_line_id (rc_lines c))
          then Some (c\<lparr>rc_external_receipt_number := number\<rparr>) else None)"

subsection \<open>Rows\<close>

record goods_receipt_line =
  grl_id :: uuid
  grl_purchase_order_line_id :: uuid
  grl_accepted_quantity :: decimal

record goods_receipt_reversal =
  grr_id :: uuid
  grr_actor_id :: string
  grr_actor_roles :: "string list option"
  grr_reason :: string
  grr_reversed_at :: datetime

record goods_receipt =
  gr_id :: uuid
  gr_purchase_order_id :: uuid
  gr_external_receipt_number :: string
  gr_received_at :: datetime
  gr_request_fingerprint :: string
  gr_created_at :: datetime
  gr_lines :: "goods_receipt_line list"
  gr_reversal :: "goods_receipt_reversal option"

record receipt_db =
  rdb_purchase_orders :: "purchase_order list"
  rdb_receipts :: "goods_receipt list"

datatype receipt_error =
    GoodsReceiptNotFoundError
  | ReceiptPurchaseOrderNotFoundError
  | ReceiptLineNotFoundError
  | ConflictingReceiptReplayError
  | GoodsReceiptAlreadyReversedError

subsection \<open>Fingerprint\<close>

definition receipt_line_json :: "receipt_line_create \<Rightarrow> json" where
  "receipt_line_json l =
     JObj [(''purchase_order_line_id'', JStr (uuid_text (rlc_purchase_order_line_id l))),
           (''accepted_quantity'', JStr (decimal_string (rlc_accepted_quantity l)))]"

definition receipt_envelope :: "receipt_create \<Rightarrow> json" where
  "receipt_envelope c =
     JObj [(''purchase_order_id'', JStr (uuid_text (rc_purchase_order_id c))),
           (''external_receipt_number'', JStr (rc_external_receipt_number c)),
           (''received_at'', JStr (canonical_utc (rc_received_at c))),
           (''lines'', JArr (map receipt_line_json (sort_key rlc_purchase_order_line_id (rc_lines c))))]"

definition receipt_request_fingerprint :: "lib \<Rightarrow> receipt_create \<Rightarrow> string" where
  "receipt_request_fingerprint lib c =
     sha256_hex lib (json_dumps (float_repr lib) True (receipt_envelope c))"

subsection \<open>Operations\<close>

definition lock_purchase_order :: "purchase_order list \<Rightarrow> uuid \<Rightarrow> purchase_order option" where
  "lock_purchase_order pos poid = find_row (\<lambda>p. po_id p = poid) pos"

definition find_by_business_key :: "goods_receipt list \<Rightarrow> uuid \<Rightarrow> string \<Rightarrow> goods_receipt option" where
  "find_by_business_key rs poid number =
     find_row (\<lambda>r. gr_purchase_order_id r = poid \<and> gr_external_receipt_number r = number) rs"

definition receipt_get :: "goods_receipt list \<Rightarrow> uuid \<Rightarrow> (receipt_error, goods_receipt) result" where
  "receipt_get rs rid =
     (case find_row (\<lambda>r. gr_id r = rid) rs of None \<Rightarrow> Inl GoodsReceiptNotFoundError | Some r \<Rightarrow> Inr r)"

text \<open>
  The row the command inserts, as it is read back: lines ordered by purchase-order line,
  quantities as the column returns them. Identifier 0 of \<open>fresh\<close> is the receipt's.
\<close>

definition receipt_row :: "lib \<Rightarrow> (nat \<Rightarrow> uuid) \<Rightarrow> datetime \<Rightarrow> receipt_create \<Rightarrow> goods_receipt" where
  "receipt_row lib fresh now c = \<lparr>
     gr_id = fresh 0,
     gr_purchase_order_id = rc_purchase_order_id c,
     gr_external_receipt_number = rc_external_receipt_number c,
     gr_received_at = rc_received_at c,
     gr_request_fingerprint = receipt_request_fingerprint lib c,
     gr_created_at = now,
     gr_lines = sort_key grl_purchase_order_line_id
       (map (\<lambda>(k, l). \<lparr>grl_id = fresh (Suc k),
               grl_purchase_order_line_id = rlc_purchase_order_line_id l,
               grl_accepted_quantity = numeric_column lib (rlc_accepted_quantity l)\<rparr>)
         (List.enumerate 0 (rc_lines c))),
     gr_reversal = None\<rparr>"

text \<open>The constraints of the tables that the row can violate.\<close>

definition receipt_constraints :: "goods_receipt list \<Rightarrow> goods_receipt \<Rightarrow> bool" where
  "receipt_constraints rs r \<longleftrightarrow>
     find_by_business_key rs (gr_purchase_order_id r) (gr_external_receipt_number r) = None
     \<and> py_strip (gr_external_receipt_number r) \<noteq> []
     \<and> distinct (map grl_purchase_order_line_id (gr_lines r))
     \<and> list_all (\<lambda>l. dlt dzero (grl_accepted_quantity l)) (gr_lines r)"

definition receipt_create_op ::
  "lib \<Rightarrow> (nat \<Rightarrow> uuid) \<Rightarrow> datetime \<Rightarrow> goods_receipt list \<Rightarrow> receipt_create \<Rightarrow> receipt_db
    \<Rightarrow> (receipt_error, goods_receipt \<times> bool) result \<times> receipt_db" where
  "receipt_create_op lib fresh now racing c db =
     (case lock_purchase_order (rdb_purchase_orders db) (rc_purchase_order_id c) of
        None \<Rightarrow> (Inl ReceiptPurchaseOrderNotFoundError, db)
      | Some po \<Rightarrow>
          let line_ids = set (map rlc_purchase_order_line_id (rc_lines c));
              found = set (filter (\<lambda>i. i \<in> line_ids) (map pl_id (po_lines po)))
          in if found \<noteq> line_ids then (Inl ReceiptLineNotFoundError, db)
             else let fingerprint = receipt_request_fingerprint lib c in
               (case find_by_business_key (rdb_receipts db) (rc_purchase_order_id c)
                       (rc_external_receipt_number c) of
                  Some existing \<Rightarrow>
                    if gr_request_fingerprint existing \<noteq> fingerprint
                    then (Inl ConflictingReceiptReplayError, db)
                    else (Inr (existing, False), db)
                | None \<Rightarrow>
                    let rows = rdb_receipts db @ racing;
                        row = receipt_row lib fresh now c
                    in if receipt_constraints rows row
                       then (Inr (row, True), db\<lparr>rdb_receipts := rows @ [row]\<rparr>)
                       else (case find_by_business_key rows (rc_purchase_order_id c)
                                    (rc_external_receipt_number c) of
                               None \<Rightarrow> (Inl ConflictingReceiptReplayError, db\<lparr>rdb_receipts := rows\<rparr>)
                             | Some concurrent \<Rightarrow>
                                 if gr_request_fingerprint concurrent \<noteq> fingerprint
                                 then (Inl ConflictingReceiptReplayError, db\<lparr>rdb_receipts := rows\<rparr>)
                                 else (Inr (concurrent, False), db\<lparr>rdb_receipts := rows\<rparr>))))"

definition receipt_list :: "receipt_db \<Rightarrow> uuid option \<Rightarrow> goods_receipt list" where
  "receipt_list db poid =
     sort_key (\<lambda>r. (dt_utc (gr_created_at r), gr_id r))
       (case poid of None \<Rightarrow> rdb_receipts db
        | Some p \<Rightarrow> filter (\<lambda>r. gr_purchase_order_id r = p) (rdb_receipts db))"

definition receipt_reverse ::
  "uuid \<Rightarrow> datetime \<Rightarrow> uuid \<Rightarrow> string \<Rightarrow> string \<Rightarrow> string list \<Rightarrow> receipt_db
    \<Rightarrow> (receipt_error, goods_receipt) result \<times> receipt_db" where
  "receipt_reverse new_id now rid actor reason roles db =
     (case find_row (\<lambda>r. gr_id r = rid) (rdb_receipts db) of
        None \<Rightarrow> (Inl GoodsReceiptNotFoundError, db)
      | Some r0 \<Rightarrow>
          (case lock_purchase_order (rdb_purchase_orders db) (gr_purchase_order_id r0) of
             None \<Rightarrow> (Inl ReceiptPurchaseOrderNotFoundError, db)
           | Some _ \<Rightarrow>
               (case receipt_get (rdb_receipts db) rid of
                  Inl e \<Rightarrow> (Inl e, db)
                | Inr r \<Rightarrow>
                    if gr_reversal r \<noteq> None then (Inl GoodsReceiptAlreadyReversedError, db)
                    else if py_strip actor = [] \<or> py_strip reason = []
                    then (Inl GoodsReceiptAlreadyReversedError, db)
                    else let rev = \<lparr>grr_id = new_id, grr_actor_id = actor,
                               grr_actor_roles = (if roles = [] then None else Some roles),
                               grr_reason = reason, grr_reversed_at = now\<rparr>;
                             rows = update_rows (\<lambda>x. gr_id x = rid) (gr_reversal_update (\<lambda>_. Some rev))
                                      (rdb_receipts db);
                             db' = db\<lparr>rdb_receipts := rows\<rparr>
                         in (receipt_get rows rid, db'))))"

subsection \<open>Fingerprints and replays\<close>

lemma receipt_fingerprint_cong:
  assumes "mset (rc_lines c) = mset ls" and "distinct (map rlc_purchase_order_line_id (rc_lines c))"
  shows "receipt_request_fingerprint lib (c\<lparr>rc_lines := ls\<rparr>) = receipt_request_fingerprint lib c"
proof -
  have "sort_key rlc_purchase_order_line_id (rc_lines c) = sort_key rlc_purchase_order_line_id ls"
    using assms by (intro sort_key_mset_eq) (auto simp: distinct_map)
  then show ?thesis by (simp add: receipt_request_fingerprint_def receipt_envelope_def)
qed

text \<open>The receipt a command identifies, once its guards hold.\<close>

definition receipt_lookup :: "receipt_create \<Rightarrow> receipt_db \<Rightarrow> goods_receipt option" where
  "receipt_lookup c db =
     (case lock_purchase_order (rdb_purchase_orders db) (rc_purchase_order_id c) of
        None \<Rightarrow> None
      | Some po \<Rightarrow>
          if set (map rlc_purchase_order_line_id (rc_lines c)) \<subseteq> set (map pl_id (po_lines po))
          then find_by_business_key (rdb_receipts db) (rc_purchase_order_id c) (rc_external_receipt_number c)
          else None)"

definition receipt_agrees :: "lib \<Rightarrow> receipt_create \<Rightarrow> goods_receipt \<Rightarrow> bool" where
  "receipt_agrees lib c r \<longleftrightarrow> gr_request_fingerprint r = receipt_request_fingerprint lib c"

type_synonym receipt_env = "(nat \<Rightarrow> uuid) \<times> datetime \<times> goods_receipt list"

definition receipt_run ::
  "lib \<Rightarrow> receipt_env \<Rightarrow> receipt_create \<Rightarrow> receipt_db
    \<Rightarrow> (receipt_error, goods_receipt \<times> bool) result \<times> receipt_db" where
  "receipt_run lib env c db = (case env of (fresh, now, racing) \<Rightarrow> receipt_create_op lib fresh now racing c db)"

lemma found_iff_subset: "{i \<in> B. i \<in> A} = A \<longleftrightarrow> A \<subseteq> B"
  by auto

lemma find_by_business_key_snoc:
  "find_by_business_key rows poid n = None \<Longrightarrow> gr_purchase_order_id r = poid \<Longrightarrow>
    gr_external_receipt_number r = n \<Longrightarrow> find_by_business_key (rows @ [r]) poid n = Some r"
  by (simp add: find_by_business_key_def find_row_append)

lemma receipt_row_simps [simp]:
  "gr_id (receipt_row lib fresh now c) = fresh 0"
  "gr_purchase_order_id (receipt_row lib fresh now c) = rc_purchase_order_id c"
  "gr_external_receipt_number (receipt_row lib fresh now c) = rc_external_receipt_number c"
  "gr_request_fingerprint (receipt_row lib fresh now c) = receipt_request_fingerprint lib c"
  "gr_reversal (receipt_row lib fresh now c) = None"
  by (simp_all add: receipt_row_def)

lemma receipt_create_cases:
  assumes "receipt_create_op lib fresh now racing c db = (Inr (r, b), db')"
  obtains po where "lock_purchase_order (rdb_purchase_orders db) (rc_purchase_order_id c) = Some po"
    and "set (map rlc_purchase_order_line_id (rc_lines c)) \<subseteq> set (map pl_id (po_lines po))"
    and "rdb_purchase_orders db' = rdb_purchase_orders db"
    and "b \<and> r = receipt_row lib fresh now c \<and> receipt_constraints (rdb_receipts db @ racing) r
           \<and> rdb_receipts db' = rdb_receipts db @ racing @ [r]
         \<or> \<not> b \<and> rdb_receipts db' \<in> {rdb_receipts db, rdb_receipts db @ racing}
           \<and> find_by_business_key (rdb_receipts db') (rc_purchase_order_id c) (rc_external_receipt_number c) = Some r
           \<and> gr_request_fingerprint r = receipt_request_fingerprint lib c"
  using assms that
  by (auto simp: receipt_create_op_def Let_def found_iff_subset split: option.splits if_splits)

interpretation receipt_replay: keyed_replay receipt_lookup "receipt_agrees lib" "receipt_run lib" for lib
proof
  show "receipt_run lib env c db = (Inr (r, False), db)"
    if "receipt_lookup c db = Some r" and "receipt_agrees lib c r" for env c db r
    using that
    by (cases env)
      (auto simp: receipt_run_def receipt_create_op_def receipt_lookup_def receipt_agrees_def Let_def
        found_iff_subset split: option.splits if_splits)
  show "receipt_lookup c db' = Some r \<and> receipt_agrees lib c r"
    if "receipt_run lib env c db = (Inr (r, b), db')" for env c db r b db'
  proof -
    obtain fresh now racing where "env = (fresh, now, racing)" by (cases env)
    with that have "receipt_create_op lib fresh now racing c db = (Inr (r, b), db')"
      by (simp add: receipt_run_def)
    then show ?thesis
    proof (cases rule: receipt_create_cases)
      case (1 po)
      then show ?thesis
        using find_by_business_key_snoc [of "rdb_receipts db @ racing"]
        by (auto simp: receipt_lookup_def receipt_agrees_def receipt_constraints_def)
    qed
  qed
qed

text \<open>
  creating a goods receipt is idempotent. Once a request has succeeded, the same request with
  its lines in any order returns the same receipt as a replay and leaves the tables alone, whatever
  the time, the new identifiers and the concurrent inserts are.
\<close>

theorem receipt_create_idempotent:
  assumes "receipt_create_op lib fresh now racing c db = (Inr (r, b), db')"
    and "distinct (map rlc_purchase_order_line_id (rc_lines c))" and "mset ls = mset (rc_lines c)"
  shows "receipt_create_op lib fresh' now' racing' (c\<lparr>rc_lines := ls\<rparr>) db' = (Inr (r, False), db')"
proof -
  have stored: "receipt_lookup c db' = Some r" "receipt_agrees lib c r"
    using receipt_replay.stored [of lib "(fresh, now, racing)" c db r b db'] assms(1)
    by (simp_all add: receipt_run_def)
  have "set ls = set (rc_lines c)" using assms(3) by (metis set_mset_mset)
  with stored(1) have "receipt_lookup (c\<lparr>rc_lines := ls\<rparr>) db' = Some r"
    by (auto simp: receipt_lookup_def split: option.splits if_splits)
  moreover have "receipt_agrees lib (c\<lparr>rc_lines := ls\<rparr>) r"
    using stored(2) receipt_fingerprint_cong assms(2,3) by (simp add: receipt_agrees_def)
  ultimately show ?thesis
    using receipt_replay.hit [of "c\<lparr>rc_lines := ls\<rparr>" db' r lib "(fresh', now', racing')"]
    by (simp add: receipt_run_def)
qed

subsection \<open>Reversal\<close>

lemma receipt_reverse_found:
  assumes "receipt_reverse new_id now rid actor reason roles db = (Inr r, db')"
  obtains r0 rev where "find_row (\<lambda>x. gr_id x = rid) (rdb_receipts db) = Some r0"
    and "lock_purchase_order (rdb_purchase_orders db) (gr_purchase_order_id r0) \<noteq> None"
    and "gr_reversal r0 = None" and "r = r0\<lparr>gr_reversal := Some rev\<rparr>"
    and "rdb_purchase_orders db' = rdb_purchase_orders db"
    and "rdb_receipts db' = update_rows (\<lambda>x. gr_id x = rid) (gr_reversal_update (\<lambda>_. Some rev)) (rdb_receipts db)"
  using assms that
  by (auto simp: receipt_reverse_def receipt_get_def Let_def find_row_update_rows
      dest: find_row_Some split: option.splits if_splits sum.splits)

text \<open>
  A goods receipt is reversed at most once. A successful reversal marks the receipt, keeps every
  other receipt, and any later attempt, by whomever, raises \<^verbatim>\<open>GoodsReceiptAlreadyReversedError\<close> and
  changes nothing.
\<close>

theorem receipt_reverse_once:
  assumes "receipt_reverse new_id now rid actor reason roles db = (Inr r, db')"
  shows "gr_id r = rid \<and> gr_reversal r \<noteq> None
    \<and> filter (\<lambda>x. gr_id x \<noteq> rid) (rdb_receipts db') = filter (\<lambda>x. gr_id x \<noteq> rid) (rdb_receipts db)
    \<and> receipt_reverse new_id' now' rid actor' reason' roles' db'
        = (Inl GoodsReceiptAlreadyReversedError, db')"
  using assms
proof (cases rule: receipt_reverse_found)
  case (1 r0 rev)
  have "find_row (\<lambda>x. gr_id x = rid) (rdb_receipts db') = Some r"
    using 1 find_row_Some [OF 1(1)] by (simp add: find_row_update_rows)
  then show ?thesis
    using 1 find_row_Some [OF 1(1)]
    by (auto simp: receipt_reverse_def receipt_get_def filter_update_rows_other)
qed

subsection \<open>The receipts table over time\<close>

definition receipt_valid :: "purchase_order list \<Rightarrow> goods_receipt \<Rightarrow> bool" where
  "receipt_valid pos r \<longleftrightarrow>
     distinct (map grl_purchase_order_line_id (gr_lines r))
     \<and> (\<forall>l \<in> set (gr_lines r). dlt dzero (grl_accepted_quantity l))
     \<and> (\<exists>po. lock_purchase_order pos (gr_purchase_order_id r) = Some po
          \<and> set (map grl_purchase_order_line_id (gr_lines r)) \<subseteq> set (map pl_id (po_lines po)))"

definition receipts_inv :: "receipt_db \<Rightarrow> bool" where
  "receipts_inv db \<longleftrightarrow>
     distinct (map (\<lambda>r. (gr_purchase_order_id r, gr_external_receipt_number r)) (rdb_receipts db))
     \<and> (\<forall>r \<in> set (rdb_receipts db). receipt_valid (rdb_purchase_orders db) r)"

text \<open>The requests the service serves, one at a time under the purchase-order lock.\<close>

inductive receipt_step :: "lib \<Rightarrow> receipt_db \<Rightarrow> receipt_db \<Rightarrow> bool" for lib where
  step_create: "receipt_create_op lib fresh now [] c db = (res, db') \<Longrightarrow> receipt_step lib db db'"
| step_reverse: "receipt_reverse new_id now rid actor reason roles db = (res, db') \<Longrightarrow> receipt_step lib db db'"

lemma receipt_row_valid:
  assumes "lock_purchase_order pos (rc_purchase_order_id c) = Some po"
    and "set (map rlc_purchase_order_line_id (rc_lines c)) \<subseteq> set (map pl_id (po_lines po))"
    and "receipt_constraints rows (receipt_row lib fresh now c)"
  shows "receipt_valid pos (receipt_row lib fresh now c)"
proof -
  have "grl_purchase_order_line_id ` set (gr_lines (receipt_row lib fresh now c))
      = rlc_purchase_order_line_id ` set (rc_lines c)"
    using image_set [of snd "List.enumerate 0 (rc_lines c)"]
    by (simp add: receipt_row_def image_image split_def flip: image_image [of rlc_purchase_order_line_id snd])
  then show ?thesis
    using assms by (auto simp: receipt_valid_def receipt_constraints_def list_all_iff)
qed

lemma receipt_create_error_or:
  "receipt_create_op lib fresh now [] c db = (res, db') \<Longrightarrow> db' = db \<or> (\<exists>r b. res = Inr (r, b))"
  by (auto simp: receipt_create_op_def Let_def split: option.splits if_splits)

lemma receipt_create_inv:
  assumes "receipt_create_op lib fresh now [] c db = (res, db')" and inv: "receipts_inv db"
  shows "receipts_inv db'"
proof (cases "\<exists>r b. res = Inr (r, b)")
  case False
  with assms receipt_create_error_or show ?thesis by blast
next
  case True
  then obtain r b where "receipt_create_op lib fresh now [] c db = (Inr (r, b), db')"
    using assms(1) by blast
  then show ?thesis
  proof (cases rule: receipt_create_cases)
    case (1 po)
    show ?thesis
    proof (cases b)
      case True
      with 1 have r: "r = receipt_row lib fresh now c" "receipt_constraints (rdb_receipts db) r"
        "rdb_receipts db' = rdb_receipts db @ [r]" by auto
      have "receipt_valid (rdb_purchase_orders db) r"
        using receipt_row_valid [OF 1(1,2)] r by simp
      moreover have "(gr_purchase_order_id r, gr_external_receipt_number r)
          \<notin> (\<lambda>r. (gr_purchase_order_id r, gr_external_receipt_number r)) ` set (rdb_receipts db)"
        using r(2) by (auto simp: receipt_constraints_def find_by_business_key_def find_row_None_iff)
      ultimately show ?thesis using inv r(3) 1(3) by (auto simp: receipts_inv_def)
    next
      case False
      with 1 have "rdb_receipts db' = rdb_receipts db" by auto
      with inv 1(3) show ?thesis by (simp add: receipts_inv_def)
    qed
  qed
qed

lemma receipt_reverse_error:
  "receipt_reverse new_id now rid actor reason roles db = (Inl e, db') \<Longrightarrow> db' = db"
  by (auto simp: receipt_reverse_def receipt_get_def Let_def find_row_update_rows
      split: option.splits if_splits sum.splits)

lemma receipt_reverse_inv:
  assumes "receipt_reverse new_id now rid actor reason roles db = (res, db')" and inv: "receipts_inv db"
  shows "receipts_inv db'"
proof (cases res)
  case (Inl e)
  with assms receipt_reverse_error show ?thesis by blast
next
  case (Inr r)
  with assms(1) have "receipt_reverse new_id now rid actor reason roles db = (Inr r, db')" by simp
  then show ?thesis
  proof (cases rule: receipt_reverse_found)
    case (1 r0 rev)
    then show ?thesis
      using inv by (auto simp: receipts_inv_def map_update_rows set_update_rows receipt_valid_def)
  qed
qed

interpretation receipt_system: inductive_system receipts_inv "receipt_step lib" receipts_inv for lib
  by unfold_locales (auto elim!: receipt_step.cases intro: receipt_create_inv receipt_reverse_inv)

text \<open>
  from an empty receipts table, whatever requests are served, no purchase order has two receipts
  with the same number, every accepted quantity is positive, no receipt names a purchase-order line
  twice, and every receipt line is a line of the receipt's purchase order.
\<close>

theorem receipts_reachable_valid:
  assumes "(receipt_step lib)\<^sup>*\<^sup>* \<lparr>rdb_purchase_orders = pos, rdb_receipts = []\<rparr> db"
  shows "receipts_inv db"
  using assms by (rule receipt_system.inv_many) (simp add: receipts_inv_def)

subsection \<open>Witnesses\<close>

definition sample_receipt_cmd :: receipt_create where
  "sample_receipt_cmd = \<lparr>rc_purchase_order_id = 7, rc_external_receipt_number = ''GR-1'',
     rc_received_at = sample_time 737500,
     rc_lines = [\<lparr>rlc_purchase_order_line_id = 21, rlc_accepted_quantity = Scaled 2 0\<rparr>,
                 \<lparr>rlc_purchase_order_line_id = 20, rlc_accepted_quantity = Scaled 5 0\<rparr>]\<rparr>"

definition sample_receipt_db :: receipt_db where
  "sample_receipt_db =
     \<lparr>rdb_purchase_orders = [sample_po [(''bolt'', 5, 10), (''nut'', 3, 10)]], rdb_receipts = []\<rparr>"

definition sample_receipt :: goods_receipt where
  "sample_receipt = receipt_row sample_lib (\<lambda>k. 50 + k) (sample_time 737501) sample_receipt_cmd"

definition sample_received_db :: receipt_db where
  "sample_received_db = sample_receipt_db\<lparr>rdb_receipts := [sample_receipt]\<rparr>"

lemma sample_receipt_created:
  "receipt_create_op sample_lib (\<lambda>k. 50 + k) (sample_time 737501) [] sample_receipt_cmd sample_receipt_db
    = (Inr (sample_receipt, True), sample_received_db)"
proof -
  have po: "\<exists>po. lock_purchase_order (rdb_purchase_orders sample_receipt_db)
      (rc_purchase_order_id sample_receipt_cmd) = Some po \<and> map pl_id (po_lines po) = [20, 21]"
    by (simp add: lock_purchase_order_def sample_receipt_db_def sample_receipt_cmd_def sample_po_def)
  have "rlc_purchase_order_line_id ` set (rc_lines sample_receipt_cmd) = {21, 20}"
    by (simp add: sample_receipt_cmd_def)
  moreover have "rdb_receipts sample_receipt_db = []" by (simp add: sample_receipt_db_def)
  moreover have "receipt_constraints [] sample_receipt"
  proof -
    have "distinct (map grl_purchase_order_line_id (gr_lines sample_receipt))" by code_simp
    moreover have "list_all (\<lambda>l. dlt dzero (grl_accepted_quantity l)) (gr_lines sample_receipt)"
      by code_simp
    moreover have "py_strip (gr_external_receipt_number sample_receipt) \<noteq> []" by code_simp
    ultimately show ?thesis by (simp add: receipt_constraints_def find_by_business_key_def)
  qed
  ultimately show ?thesis
    using po
    by (auto simp: receipt_create_op_def Let_def found_iff_subset sample_receipt_def [symmetric]
        find_by_business_key_def sample_received_db_def)
qed

theorem receipt_create_idempotent_witness:
  "receipt_create_op sample_lib (\<lambda>k. 90 + k) (sample_time 737600) []
     (sample_receipt_cmd\<lparr>rc_lines := rev (rc_lines sample_receipt_cmd)\<rparr>) sample_received_db
   = (Inr (sample_receipt, False), sample_received_db)"
  by (rule receipt_create_idempotent [OF sample_receipt_created]) (simp_all add: sample_receipt_cmd_def)

lemma sample_receipt_reversed:
  "\<exists>r db'. receipt_reverse 60 (sample_time 737700) 50 ''ana'' ''wrong goods'' [] sample_received_db = (Inr r, db')"
proof -
  have "lock_purchase_order (rdb_purchase_orders sample_received_db) 7 \<noteq> None"
    by (simp add: lock_purchase_order_def sample_received_db_def sample_receipt_db_def sample_po_def)
  moreover have "gr_id sample_receipt = 50" "gr_purchase_order_id sample_receipt = 7"
    "gr_reversal sample_receipt = None" "rdb_receipts sample_received_db = [sample_receipt]"
    by (simp_all add: sample_receipt_def sample_receipt_cmd_def sample_received_db_def)
  moreover have "py_strip ''ana'' \<noteq> []" "py_strip ''wrong goods'' \<noteq> []" by code_simp+
  ultimately show ?thesis by (auto simp: receipt_reverse_def receipt_get_def Let_def)
qed

theorem receipt_reverse_once_witness:
  "\<exists>r db'. receipt_reverse 60 (sample_time 737700) 50 ''ana'' ''wrong goods'' [] sample_received_db = (Inr r, db')
     \<and> receipt_reverse 61 (sample_time 737701) 50 ''bob'' ''again'' [] db'
         = (Inl GoodsReceiptAlreadyReversedError, db')"
  using sample_receipt_reversed receipt_reverse_once by blast

theorem receipts_reachable_valid_witness: "receipts_inv sample_received_db"
proof -
  have "receipt_step sample_lib sample_receipt_db sample_received_db"
    by (rule receipt_step.step_create [OF sample_receipt_created])
  then have "(receipt_step sample_lib)\<^sup>*\<^sup>*
      \<lparr>rdb_purchase_orders = [sample_po [(''bolt'', 5, 10), (''nut'', 3, 10)]], rdb_receipts = []\<rparr>
      sample_received_db"
    by (simp add: sample_receipt_db_def r_into_rtranclp)
  then show ?thesis by (rule receipts_reachable_valid)
qed

end
