(* ===== verification/Three_Way_Context.thy ===== *)
theory Three_Way_Context
  imports Receipts
begin

text \<open>
  The receipt context of a three-way match (\<^verbatim>\<open>invoiceops/schemas/three_way.py\<close> and
  \<^verbatim>\<open>invoiceops/matching/context.py\<close>): per purchase-order line the active and reversed receipts,
  the allocations of other invoices and of the current one, and the quantities derived from them,
  all as text, together with the two fingerprints of the context.
\<close>

subsection \<open>Snapshot\<close>

record receipt_quantity =
  rq_receipt_id :: uuid
  rq_accepted_quantity :: string
  rq_received_at :: datetime

record prior_allocation =
  pa_allocation_id :: uuid
  pa_match_run_id :: uuid
  pa_document_id :: "uuid option"
  pa_extraction_run_id :: "uuid option"
  pa_purchase_order_id :: "uuid option"
  pa_purchase_order_line_id :: "uuid option"
  pa_invoice_line_index :: "nat option"
  pa_allocated_quantity :: string

record context_line =
  cl_purchase_order_line_id :: uuid
  cl_ordered_quantity :: string
  cl_active_receipts :: "receipt_quantity list"
  cl_reversed_receipts :: "receipt_quantity list"
  cl_reversal_ids :: "uuid list"
  cl_prior_allocations :: "prior_allocation list"
  cl_current_invoice_allocations :: "prior_allocation list"
  cl_effective_received_quantity :: string
  cl_previously_allocated_quantity :: string
  cl_available_quantity :: string

definition reversed_receipt_ids :: "context_line \<Rightarrow> uuid list" where
  "reversed_receipt_ids l = map rq_receipt_id (cl_reversed_receipts l)"

record three_way_snapshot =
  ts_purchase_order_id :: uuid
  ts_policy_version :: string
  ts_lines :: "context_line list"

record three_way_allocation =
  ta_id :: uuid
  ta_match_run_id :: uuid
  ta_document_id :: uuid
  ta_purchase_order_id :: uuid
  ta_extraction_run_id :: uuid
  ta_purchase_order_line_id :: uuid
  ta_invoice_line_index :: nat
  ta_allocated_quantity :: decimal
  ta_created_at :: datetime

subsection \<open>Serialized forms\<close>

definition receipt_quantity_json :: "lib \<Rightarrow> receipt_quantity \<Rightarrow> json" where
  "receipt_quantity_json lib q =
     JObj [(''receipt_id'', JStr (uuid_text (rq_receipt_id q))),
           (''accepted_quantity'', JStr (rq_accepted_quantity q)),
           (''received_at'', JStr (datetime_json lib (rq_received_at q)))]"

definition uuid_json :: "uuid option \<Rightarrow> json" where
  "uuid_json = json_opt (\<lambda>u. JStr (uuid_text u))"

definition prior_allocation_json :: "prior_allocation \<Rightarrow> json" where
  "prior_allocation_json a =
     JObj [(''allocation_id'', JStr (uuid_text (pa_allocation_id a))),
           (''match_run_id'', JStr (uuid_text (pa_match_run_id a))),
           (''document_id'', uuid_json (pa_document_id a)),
           (''extraction_run_id'', uuid_json (pa_extraction_run_id a)),
           (''purchase_order_id'', uuid_json (pa_purchase_order_id a)),
           (''purchase_order_line_id'', uuid_json (pa_purchase_order_line_id a)),
           (''invoice_line_index'', json_opt (\<lambda>n. JInt (int n)) (pa_invoice_line_index a)),
           (''allocated_quantity'', JStr (pa_allocated_quantity a))]"

definition context_line_json :: "lib \<Rightarrow> context_line \<Rightarrow> json" where
  "context_line_json lib l =
     JObj [(''purchase_order_line_id'', JStr (uuid_text (cl_purchase_order_line_id l))),
           (''ordered_quantity'', JStr (cl_ordered_quantity l)),
           (''active_receipts'', JArr (map (receipt_quantity_json lib) (cl_active_receipts l))),
           (''reversed_receipts'', JArr (map (receipt_quantity_json lib) (cl_reversed_receipts l))),
           (''reversal_ids'', JArr (map (\<lambda>u. JStr (uuid_text u)) (cl_reversal_ids l))),
           (''prior_allocations'', JArr (map prior_allocation_json (cl_prior_allocations l))),
           (''current_invoice_allocations'',
              JArr (map prior_allocation_json (cl_current_invoice_allocations l))),
           (''effective_received_quantity'', JStr (cl_effective_received_quantity l)),
           (''previously_allocated_quantity'', JStr (cl_previously_allocated_quantity l)),
           (''available_quantity'', JStr (cl_available_quantity l))]"

definition snapshot_json :: "lib \<Rightarrow> three_way_snapshot \<Rightarrow> json" where
  "snapshot_json lib s =
     JObj [(''purchase_order_id'', JStr (uuid_text (ts_purchase_order_id s))),
           (''policy_version'', JStr (ts_policy_version s)),
           (''lines'', JArr (map (context_line_json lib) (ts_lines s)))]"

definition three_way_policy_json :: "lib \<Rightarrow> three_way_policy \<Rightarrow> json" where
  "three_way_policy_json lib p =
     JObj [(''version'', JStr (tp_version p)),
           (''amount_absolute_tolerance'', JStr (decimal_json lib (tp_amount_absolute_tolerance p))),
           (''quantity_absolute_tolerance'', JStr (decimal_json lib (tp_quantity_absolute_tolerance p))),
           (''unit_price_relative_tolerance'', JStr (decimal_json lib (tp_unit_price_relative_tolerance p))),
           (''allow_partial_invoice'', JBool (tp_allow_partial_invoice p)),
           (''description_similarity_threshold'', JFloat (tp_description_similarity_threshold p)),
           (''ambiguity_margin'', JFloat (tp_ambiguity_margin p))]"

subsection \<open>Building the context\<close>

definition allocation_read :: "three_way_allocation \<Rightarrow> prior_allocation" where
  "allocation_read a = \<lparr>
     pa_allocation_id = ta_id a, pa_match_run_id = ta_match_run_id a,
     pa_document_id = Some (ta_document_id a), pa_extraction_run_id = Some (ta_extraction_run_id a),
     pa_purchase_order_id = Some (ta_purchase_order_id a),
     pa_purchase_order_line_id = Some (ta_purchase_order_line_id a),
     pa_invoice_line_index = Some (ta_invoice_line_index a),
     pa_allocated_quantity = decimal_string (ta_allocated_quantity a)\<rparr>"

text \<open>The receipts of the order that cover the line, with the line that does.\<close>

definition covering_receipts :: "goods_receipt list \<Rightarrow> po_line \<Rightarrow> (goods_receipt \<times> goods_receipt_line) list" where
  "covering_receipts receipts pol =
     List.map_filter (\<lambda>r. map_option (\<lambda>l. (r, l))
       (find_row (\<lambda>l. grl_purchase_order_line_id l = pl_id pol) (gr_lines r))) receipts"

definition receipt_quantity_of :: "goods_receipt \<times> goods_receipt_line \<Rightarrow> receipt_quantity" where
  "receipt_quantity_of rl =
     (case rl of (r, l) \<Rightarrow> \<lparr>rq_receipt_id = gr_id r,
        rq_accepted_quantity = decimal_string (grl_accepted_quantity l),
        rq_received_at = gr_received_at r\<rparr>)"

text \<open>
  \<^verbatim>\<open>Decimal(item.accepted_quantity)\<close> reads a text that \<^verbatim>\<open>decimal_text\<close> wrote, so that the
  second case does not occur.
\<close>

definition decimal_reread :: "string \<Rightarrow> decimal" where
  "decimal_reread s = (case decimal_of_string s of Some d \<Rightarrow> d | None \<Rightarrow> dzero)"

definition active_quantities :: "goods_receipt list \<Rightarrow> po_line \<Rightarrow> receipt_quantity list" where
  "active_quantities receipts pol =
     map receipt_quantity_of (filter (\<lambda>(r, l). gr_reversal r = None) (covering_receipts receipts pol))"

definition reversed_quantities :: "goods_receipt list \<Rightarrow> po_line \<Rightarrow> receipt_quantity list" where
  "reversed_quantities receipts pol =
     map receipt_quantity_of (filter (\<lambda>(r, l). gr_reversal r \<noteq> None) (covering_receipts receipts pol))"

definition reversals_of :: "goods_receipt list \<Rightarrow> po_line \<Rightarrow> uuid list" where
  "reversals_of receipts pol =
     List.map_filter (\<lambda>(r, l). map_option grr_id (gr_reversal r)) (covering_receipts receipts pol)"

definition received_quantity :: "goods_receipt list \<Rightarrow> po_line \<Rightarrow> decimal" where
  "received_quantity receipts pol =
     dsum (map (\<lambda>q. decimal_reread (rq_accepted_quantity q)) (active_quantities receipts pol))"

definition prior_quantity :: "three_way_allocation list \<Rightarrow> po_line \<Rightarrow> decimal" where
  "prior_quantity prior pol =
     dsum (map ta_allocated_quantity (filter (\<lambda>a. ta_purchase_order_line_id a = pl_id pol) prior))"

definition context_of_line ::
  "goods_receipt list \<Rightarrow> three_way_allocation list \<Rightarrow> three_way_allocation list \<Rightarrow> po_line \<Rightarrow> context_line" where
  "context_of_line receipts prior current pol =
     (let received = received_quantity receipts pol; allocated = prior_quantity prior pol in \<lparr>
        cl_purchase_order_line_id = pl_id pol,
        cl_ordered_quantity = decimal_string (pl_ordered_quantity pol),
        cl_active_receipts = sort_key rq_receipt_id (active_quantities receipts pol),
        cl_reversed_receipts = sort_key rq_receipt_id (reversed_quantities receipts pol),
        cl_reversal_ids = sort (reversals_of receipts pol),
        cl_prior_allocations = map allocation_read
          (filter (\<lambda>a. ta_purchase_order_line_id a = pl_id pol) prior),
        cl_current_invoice_allocations = map allocation_read
          (filter (\<lambda>a. ta_purchase_order_line_id a = pl_id pol) current),
        cl_effective_received_quantity = decimal_string received,
        cl_previously_allocated_quantity = decimal_string allocated,
        cl_available_quantity = decimal_string (dsub received allocated)\<rparr>)"

text \<open>The rows the builder reads, in the order it reads them.\<close>

definition receipts_of_order :: "goods_receipt list \<Rightarrow> purchase_order \<Rightarrow> goods_receipt list" where
  "receipts_of_order rs po =
     sort_key (\<lambda>r. (dt_utc (gr_received_at r), gr_id r))
       (filter (\<lambda>r. gr_purchase_order_id r = po_id po) rs)"

definition allocations_of_order :: "three_way_allocation list \<Rightarrow> purchase_order \<Rightarrow> three_way_allocation list" where
  "allocations_of_order as po =
     sort_key ta_id (sort_key (\<lambda>a. (dt_utc (ta_created_at a), ta_id a))
       (filter (\<lambda>a. ta_purchase_order_id a = po_id po) as))"

definition current_allocations ::
  "three_way_allocation list \<Rightarrow> purchase_order \<Rightarrow> uuid option \<Rightarrow> three_way_allocation list" where
  "current_allocations as po doc = filter (\<lambda>a. Some (ta_document_id a) = doc) (allocations_of_order as po)"

definition prior_allocations ::
  "three_way_allocation list \<Rightarrow> purchase_order \<Rightarrow> uuid option \<Rightarrow> three_way_allocation list" where
  "prior_allocations as po doc = filter (\<lambda>a. Some (ta_document_id a) \<noteq> doc) (allocations_of_order as po)"

definition build_snapshot ::
  "goods_receipt list \<Rightarrow> three_way_allocation list \<Rightarrow> purchase_order \<Rightarrow> three_way_policy \<Rightarrow> uuid option
    \<Rightarrow> three_way_snapshot" where
  "build_snapshot rs as po policy doc = \<lparr>
     ts_purchase_order_id = po_id po,
     ts_policy_version = tp_version policy,
     ts_lines = map (context_of_line (receipts_of_order rs po) (prior_allocations as po doc)
       (current_allocations as po doc)) (po_lines po)\<rparr>"

subsection \<open>Fingerprints\<close>

definition context_envelope ::
  "lib \<Rightarrow> three_way_allocation list \<Rightarrow> purchase_order \<Rightarrow> three_way_policy \<Rightarrow> uuid option
    \<Rightarrow> three_way_snapshot \<Rightarrow> json" where
  "context_envelope lib as po policy doc snapshot =
     JObj [(''context_version'', JStr ''three-way-context-v2''),
           (''snapshot'', snapshot_json lib snapshot),
           (''prior_allocation_ids'',
              JArr (map (\<lambda>a. JStr (uuid_text (ta_id a))) (prior_allocations as po doc))),
           (''current_invoice_allocation_ids'',
              JArr (map (\<lambda>a. JStr (uuid_text (ta_id a))) (current_allocations as po doc))),
           (''policy'', three_way_policy_json lib policy)]"

definition json_item :: "string \<Rightarrow> json \<Rightarrow> json" where
  "json_item k j = (case json_get k j of Some v \<Rightarrow> v | None \<Rightarrow> JNull)"

fun replay_prior :: "json \<Rightarrow> json" where
  "replay_prior (JArr items) =
     JArr (map (\<lambda>item. JObj [(''allocation_id'', json_item ''allocation_id'' item),
                             (''match_run_id'', json_item ''match_run_id'' item),
                             (''allocated_quantity'', json_item ''allocated_quantity'' item)]) items)"
| "replay_prior j = j"

fun replay_line :: "json \<Rightarrow> json" where
  "replay_line (JObj kvs) =
     JObj (map (\<lambda>(k, v). (k, if k = ''prior_allocations'' then replay_prior v else v))
       (filter (\<lambda>(k, v). k \<noteq> ''current_invoice_allocations'') kvs))"
| "replay_line j = j"

definition replay_envelope ::
  "lib \<Rightarrow> three_way_allocation list \<Rightarrow> purchase_order \<Rightarrow> three_way_policy \<Rightarrow> uuid option
    \<Rightarrow> three_way_snapshot \<Rightarrow> json" where
  "replay_envelope lib as po policy doc snapshot =
     JObj [(''context_version'', JStr ''three-way-context-v1''),
           (''snapshot'',
              JObj [(''purchase_order_id'', JStr (uuid_text (ts_purchase_order_id snapshot))),
                    (''policy_version'', JStr (ts_policy_version snapshot)),
                    (''lines'', JArr (map (\<lambda>l. replay_line (context_line_json lib l)) (ts_lines snapshot)))]),
           (''allocation_ids'',
              JArr (map (\<lambda>a. JStr (uuid_text (ta_id a))) (prior_allocations as po doc))),
           (''policy'', three_way_policy_json lib policy)]"

definition fingerprint_of :: "lib \<Rightarrow> json \<Rightarrow> string" where
  "fingerprint_of lib j = sha256_hex lib (json_dumps (float_repr lib) True j)"

text \<open>\<^verbatim>\<open>ThreeWayContextBuilder.build\<close>: the snapshot, its fingerprint and the replay fingerprint.\<close>

definition build_context ::
  "lib \<Rightarrow> goods_receipt list \<Rightarrow> three_way_allocation list \<Rightarrow> purchase_order \<Rightarrow> three_way_policy
    \<Rightarrow> uuid option \<Rightarrow> three_way_snapshot \<times> string \<times> string" where
  "build_context lib rs as po policy doc =
     (let snapshot = build_snapshot rs as po policy doc
      in (snapshot,
          fingerprint_of lib (context_envelope lib as po policy doc snapshot),
          fingerprint_of lib (replay_envelope lib as po policy doc snapshot)))"

subsection \<open>The replay fingerprint\<close>

lemma prior_allocations_own:
  "\<forall>a \<in> set own. Some (ta_document_id a) = doc \<Longrightarrow>
    prior_allocations (as @ own) po doc = prior_allocations as po doc"
  by (simp add: prior_allocations_def allocations_of_order_def filter_sort filter_empty_conv)

lemma replay_line_context:
  "replay_line (context_line_json lib (context_of_line rs prior current pol))
    = replay_line (context_line_json lib (context_of_line rs prior current' pol))"
  by (simp add: context_line_json_def context_of_line_def Let_def)

lemma replay_fingerprint_own:
  assumes "list_all (\<lambda>a. ta_document_id a = doc) own"
  shows "snd (snd (build_context lib rs (as @ own) po policy (Some doc)))
    = snd (snd (build_context lib rs as po policy (Some doc)))"
proof -
  have prior: "prior_allocations (as @ own) po (Some doc) = prior_allocations as po (Some doc)"
    using assms by (intro prior_allocations_own) (auto simp: list_all_iff)
  show ?thesis
    by (simp add: build_context_def Let_def replay_envelope_def build_snapshot_def prior)
      (rule arg_cong [of _ _ "fingerprint_of lib"], simp add: replay_line_context)
qed

text \<open>
  The replay fingerprint of a three-way context does not depend on the allocations of the
  invoice itself. Recording an invoice's own allocations therefore leaves the fingerprint under
  which the same match is found again.
\<close>

theorem replay_fingerprint_own_allocations:
  assumes "list_all (\<lambda>a. ta_document_id a = doc) own"
  shows "snd (snd (build_context lib rs (as @ own) po policy (Some doc)))
    = snd (snd (build_context lib rs as po policy (Some doc)))"
  using assms by (rule replay_fingerprint_own)

subsection \<open>The quantities of the context\<close>

definition accepted_quantities :: "goods_receipt list \<Rightarrow> po_line \<Rightarrow> decimal list" where
  "accepted_quantities receipts pol =
     map (\<lambda>(r, l). grl_accepted_quantity l)
       (filter (\<lambda>(r, l). gr_reversal r = None) (covering_receipts receipts pol))"

definition allocated_quantities :: "three_way_allocation list \<Rightarrow> po_line \<Rightarrow> decimal list" where
  "allocated_quantities as pol =
     map ta_allocated_quantity (filter (\<lambda>a. ta_purchase_order_line_id a = pl_id pol) as)"

text \<open>
  Eight fractional digits and sums of at most 28 digits: what decimals of \<^verbatim>\<open>Numeric(24, 8)\<close>
  columns satisfy for up to ten thousand rows.
\<close>

definition line_bounded :: "goods_receipt list \<Rightarrow> three_way_allocation list \<Rightarrow> po_line \<Rightarrow> bool" where
  "line_bounded receipts prior pol \<longleftrightarrow>
     list_all (\<lambda>q. -8 \<le> expo q) (accepted_quantities receipts pol @ allocated_quantities prior pol)
     \<and> fits28 (sum_list (map (\<lambda>q. \<bar>scale_of (-8) q\<bar>)
         (accepted_quantities receipts pol @ allocated_quantities prior pol)))"

lemma decimal_reread_value:
  assumes "-8 \<le> expo d"
  shows "dval (decimal_reread (decimal_string d)) = dval d"
    and "-8 \<le> expo (decimal_reread (decimal_string d))"
    and "scale_of (-8) (decimal_reread (decimal_string d)) = scale_of (-8) d"
proof -
  obtain d' where "decimal_of_string (decimal_string d) = Some d'" "dval d' = dval d"
    "-8 \<le> expo d'" "scale_of (-8) d' = scale_of (-8) d"
    using decimal_roundtrip_scale [OF assms] by auto
  then show "dval (decimal_reread (decimal_string d)) = dval d"
    and "-8 \<le> expo (decimal_reread (decimal_string d))"
    and "scale_of (-8) (decimal_reread (decimal_string d)) = scale_of (-8) d"
    by (simp_all add: decimal_reread_def)
qed

lemma received_quantity_eq:
  "received_quantity receipts pol
    = dsum (map (\<lambda>d. decimal_reread (decimal_string d)) (accepted_quantities receipts pol))"
  by (simp add: received_quantity_def active_quantities_def accepted_quantities_def
      receipt_quantity_of_def comp_def split_def)

lemma prior_quantity_eq: "prior_quantity prior pol = dsum (allocated_quantities prior pol)"
  by (simp add: prior_quantity_def allocated_quantities_def)

lemma context_quantities:
  assumes "line_bounded receipts prior pol"
  shows "dval (received_quantity receipts pol) = sum_list (map dval (accepted_quantities receipts pol))"
    and "dval (prior_quantity prior pol) = sum_list (map dval (allocated_quantities prior pol))"
    and "dval (dsub (received_quantity receipts pol) (prior_quantity prior pol))
      = sum_list (map dval (accepted_quantities receipts pol))
        - sum_list (map dval (allocated_quantities prior pol))"
    and "-8 \<le> expo (dsub (received_quantity receipts pol) (prior_quantity prior pol))"
    and "\<bar>scale_of (-8) (dsub (received_quantity receipts pol) (prior_quantity prior pol))\<bar>
      \<le> sum_list (map (\<lambda>q. \<bar>scale_of (-8) q\<bar>)
           (accepted_quantities receipts pol @ allocated_quantities prior pol))"
proof -
  let ?s = "\<lambda>q. \<bar>scale_of (-8) q\<bar>"
  let ?qs = "map (\<lambda>d. decimal_reread (decimal_string d)) (accepted_quantities receipts pol)"
  let ?ps = "allocated_quantities prior pol"
  have acc: "\<forall>q \<in> set (accepted_quantities receipts pol). -8 \<le> expo q" and ps: "\<forall>q \<in> set ?ps. -8 \<le> expo q"
    using assms by (auto simp: line_bounded_def list_all_iff)
  have same: "map ?s ?qs = map ?s (accepted_quantities receipts pol)"
    "map dval ?qs = map dval (accepted_quantities receipts pol)" and qs: "\<forall>q \<in> set ?qs. -8 \<le> expo q"
    using acc by (auto simp: decimal_reread_value)
  have nonneg: "0 \<le> sum_list (map ?s xs)" for xs by (rule sum_list_nonneg) auto
  have fit: "fits28 (sum_list (map ?s ?qs) + sum_list (map ?s ?ps))"
    using assms by (simp add: line_bounded_def same(1) del: map_map)
  then have fits: "fits28 (sum_list (map ?s ?qs))" "fits28 (sum_list (map ?s ?ps))"
    using nonneg [of ?qs] nonneg [of ?ps] by (simp_all add: fits28_def)
  note q = dsum_value [OF qs _ fits(1)] and p = dsum_value [OF ps _ fits(2)]
  show r: "dval (received_quantity receipts pol) = sum_list (map dval (accepted_quantities receipts pol))"
    using q(1) by (simp only: received_quantity_eq same(2))
  show a: "dval (prior_quantity prior pol) = sum_list (map dval ?ps)"
    using p(1) by (simp add: prior_quantity_eq)
  have le: "\<bar>scale_of (-8) (dsum ?qs)\<bar> + \<bar>scale_of (-8) (dsum ?ps)\<bar>
      \<le> sum_list (map ?s ?qs) + sum_list (map ?s ?ps)" using q(3) p(3) by simp
  have "fits28 (\<bar>scale_of (-8) (dsum ?qs)\<bar> + \<bar>scale_of (-8) (dsum ?ps)\<bar>)"
    using fit le nonneg [of ?qs] nonneg [of ?ps] by (simp add: fits28_def)
  note sub = dsub_value [OF q(2) p(2) this, simplified]
  show "-8 \<le> expo (dsub (received_quantity receipts pol) (prior_quantity prior pol))"
    using sub(2) by (simp add: received_quantity_eq prior_quantity_eq)
  show "\<bar>scale_of (-8) (dsub (received_quantity receipts pol) (prior_quantity prior pol))\<bar>
      \<le> sum_list (map ?s (accepted_quantities receipts pol @ ?ps))"
    using sub(3) le by (simp add: received_quantity_eq prior_quantity_eq flip: same(1))
  from sub(1) show "dval (dsub (received_quantity receipts pol) (prior_quantity prior pol))
      = sum_list (map dval (accepted_quantities receipts pol)) - sum_list (map dval ?ps)"
    using r a by (simp add: received_quantity_eq prior_quantity_eq)
qed

text \<open>
  The text of the available quantity in a context line parses to the sum of the accepted
  quantities of the line's receipts that are not reversed, minus the sum of the quantities other
  invoices were allocated, exactly.
\<close>

theorem context_available_exact:
  assumes "line_bounded receipts prior pol"
  shows "\<exists>d. decimal_of_string (cl_available_quantity (context_of_line receipts prior current pol)) = Some d
    \<and> dval d = sum_list (map dval (accepted_quantities receipts pol))
               - sum_list (map dval (allocated_quantities prior pol))"
proof -
  obtain d where "decimal_of_string (decimal_string (dsub (received_quantity receipts pol)
      (prior_quantity prior pol))) = Some d"
    and "dval d = dval (dsub (received_quantity receipts pol) (prior_quantity prior pol))"
    by (rule decimal_roundtrip_value)
  then show ?thesis using context_quantities(3) [OF assms] by (simp add: context_of_line_def Let_def)
qed

subsection \<open>Witnesses\<close>

definition sample_allocation :: three_way_allocation where
  "sample_allocation = \<lparr>ta_id = 5, ta_match_run_id = 8, ta_document_id = 3, ta_purchase_order_id = 7,
     ta_extraction_run_id = 4, ta_purchase_order_line_id = 20, ta_invoice_line_index = 0,
     ta_allocated_quantity = Scaled 2 0, ta_created_at = sample_time 737800\<rparr>"

theorem replay_fingerprint_own_allocations_witness:
  "snd (snd (build_context sample_lib [sample_receipt] ([] @ [sample_allocation])
      (sample_po [(''bolt'', 5, 10)]) default_three_way_policy (Some 3)))
   = snd (snd (build_context sample_lib [sample_receipt] []
      (sample_po [(''bolt'', 5, 10)]) default_three_way_policy (Some 3)))"
  by (rule replay_fingerprint_own_allocations) (simp add: sample_allocation_def)

theorem context_available_exact_witness:
  "\<exists>d. decimal_of_string (cl_available_quantity (context_of_line [sample_receipt] [sample_allocation] []
      (hd (po_lines (sample_po [(''bolt'', 5, 10)]))))) = Some d \<and> dval d = 3"
proof -
  let ?pol = "hd (po_lines (sample_po [(''bolt'', 5, 10)]))"
  have acc: "accepted_quantities [sample_receipt] ?pol = [Scaled 500000000 (-8)]"
    and alloc: "allocated_quantities [sample_allocation] ?pol = [Scaled 2 0]" by code_simp+
  have "dval (Scaled 500000000 (-8)) = 5" and "dval (Scaled 2 0) = 2"
    by (simp_all add: dval_def sval_def power_int_def power_divide)
  note vals = this
  have "line_bounded [sample_receipt] [sample_allocation] ?pol"
    by (simp add: line_bounded_def acc alloc scale_of_def align_def fits28_def)
  from context_available_exact [OF this, of "[]"]
  show ?thesis by (simp add: acc alloc vals)
qed

end
