(* ===== verification/Three_Way.thy ===== *)
theory Three_Way
  imports Engine Three_Way_Context
begin

text \<open>
  The three-way engine (\<^verbatim>\<open>invoiceops/matching/three_way.py\<close>): the two-way result without its
  comparisons against the ordered quantity, and instead the comparisons against the receipt
  context. A missing dictionary key and a text that is no decimal are errors of the sum type.
\<close>

datatype three_way_error = KeyError | InvalidOperation

record allocation_draft =
  ad_purchase_order_line_id :: uuid
  ad_invoice_line_index :: nat
  ad_quantity :: decimal

definition three_way_check ::
  "reason_code \<Rightarrow> bool \<Rightarrow> string \<Rightarrow> context_line \<Rightarrow> nat \<Rightarrow> decimal option \<Rightarrow> decimal option
    \<Rightarrow> decimal option \<Rightarrow> decimal option \<Rightarrow> evidence_span list \<Rightarrow> validation_check" where
  "three_way_check code passed message line index expected actual tolerance quantity evidence = \<lparr>
     vc_code = code,
     vc_status = (if passed then PASSED else FAILED),
     vc_severity = (if passed then INFO else ERROR),
     vc_expected = map_option decimal_string expected,
     vc_actual = map_option decimal_string actual,
     vc_tolerance = map_option decimal_string tolerance,
     vc_message = message,
     vc_invoice_line_index = Some index,
     vc_po_line_id = Some (cl_purchase_order_line_id line),
     vc_evidence = evidence,
     vc_receipt_ids = map rq_receipt_id (cl_active_receipts line @ cl_reversed_receipts line),
     vc_ordered_quantity = Some (cl_ordered_quantity line),
     vc_received_quantity = Some (cl_effective_received_quantity line),
     vc_previously_invoiced_quantity = Some (cl_previously_allocated_quantity line),
     vc_available_quantity = Some (cl_available_quantity line),
     vc_invoice_quantity = map_option decimal_string quantity\<rparr>"

definition base_policy :: "three_way_policy \<Rightarrow> matching_policy" where
  "base_policy p = \<lparr>
     mp_version = mp_version default_policy,
     mp_amount_absolute_tolerance = tp_amount_absolute_tolerance p,
     mp_quantity_absolute_tolerance = tp_quantity_absolute_tolerance p,
     mp_unit_price_relative_tolerance = tp_unit_price_relative_tolerance p,
     mp_description_similarity_threshold = tp_description_similarity_threshold p,
     mp_ambiguity_margin = tp_ambiguity_margin p\<rparr>"

definition discarded :: "reason_code list" where
  "discarded = [PO_LINE_UNMATCHED, QUANTITY_MISMATCH, UNIT_PRICE_MISMATCH, LINE_AMOUNT_MISMATCH]"

definition kept_checks :: "validation_check list \<Rightarrow> validation_check list" where
  "kept_checks cs = filter (\<lambda>c. vc_code c \<notin> set discarded) cs"

definition context_by_line :: "three_way_snapshot \<Rightarrow> uuid \<Rightarrow> context_line option" where
  "context_by_line ctx = map_of (dict_of (map (\<lambda>l. (cl_purchase_order_line_id l, l)) (ts_lines ctx)))"

definition po_by_line :: "purchase_order \<Rightarrow> uuid \<Rightarrow> po_line option" where
  "po_by_line po = map_of (dict_of (map (\<lambda>l. (pl_id l, l)) (po_lines po)))"

definition has_any_active_receipt :: "three_way_snapshot \<Rightarrow> bool" where
  "has_any_active_receipt ctx = list_ex (\<lambda>l. cl_active_receipts l \<noteq> []) (ts_lines ctx)"

definition invoice_date_of :: "invoice \<Rightarrow> date option" where
  "invoice_date_of invoice =
     (if fstatus (inv_invoice_date invoice) = EXTRACTED then fvalue (inv_invoice_date invoice) else None)"

text \<open>The checks on the receipts, before any quantity is compared.\<close>

definition receipt_checks ::
  "invoice \<Rightarrow> three_way_snapshot \<Rightarrow> context_line \<Rightarrow> nat \<Rightarrow> decimal option \<Rightarrow> validation_check list" where
  "receipt_checks invoice ctx line index quantity =
     (if reversed_receipt_ids line \<noteq> []
      then [three_way_check GOODS_RECEIPT_REVERSED False
              ''A receipt for this purchase-order line was reversed.'' line index None None None quantity []]
      else [])
     @ (if cl_active_receipts line = []
        then [three_way_check (if has_any_active_receipt ctx then RECEIPT_LINE_MISSING else NO_GOODS_RECEIPT)
                False ''No active goods receipt covers this purchase-order line.'' line index
                None None None quantity []]
        else [])
     @ (case invoice_date_of invoice of None \<Rightarrow> []
        | Some d \<Rightarrow>
            if filter (\<lambda>q. d < dt_date (rq_received_at q)) (cl_active_receipts line) \<noteq> []
            then [three_way_check RECEIPT_AFTER_INVOICE False ''Goods were received after the invoice date.''
                    line index None None None quantity []]
            else [])"

definition over_received_checks ::
  "three_way_policy \<Rightarrow> context_line \<Rightarrow> nat \<Rightarrow> decimal \<Rightarrow> decimal \<Rightarrow> decimal option \<Rightarrow> validation_check list" where
  "over_received_checks policy line index received ordered quantity =
     (if dlt (dadd ordered (tp_quantity_absolute_tolerance policy)) received
      then [three_way_check RECEIVED_QUANTITY_EXCEEDS_ORDERED False
              ''Effective received quantity exceeds ordered quantity.'' line index
              (Some ordered) (Some received) (Some (tp_quantity_absolute_tolerance policy)) quantity []]
      else [])"

definition within_available :: "three_way_policy \<Rightarrow> decimal \<Rightarrow> decimal \<Rightarrow> bool" where
  "within_available policy quantity available =
     dle quantity (dadd available (tp_quantity_absolute_tolerance policy))"

definition three_way_price_tolerance :: "three_way_policy \<Rightarrow> po_line \<Rightarrow> decimal" where
  "three_way_price_tolerance policy pol =
     dmul (dabs (pl_unit_price pol)) (tp_unit_price_relative_tolerance policy)"

text \<open>The checks for a line whose quantity was extracted.\<close>

definition quantity_checks ::
  "three_way_policy \<Rightarrow> invoice_line \<Rightarrow> po_line \<Rightarrow> context_line \<Rightarrow> nat \<Rightarrow> decimal \<Rightarrow> decimal \<Rightarrow> decimal
    \<Rightarrow> decimal \<Rightarrow> validation_check list" where
  "quantity_checks policy l pol line index ordered available previously quantity =
     (if \<not> tp_allow_partial_invoice policy
         \<and> dlt quantity (dsub ordered (tp_quantity_absolute_tolerance policy))
      then [three_way_check QUANTITY_MISMATCH False
              ''Partial invoicing is disabled by the three-way policy.'' line index
              (Some ordered) (Some quantity) (Some (tp_quantity_absolute_tolerance policy))
              (Some quantity) (fevidence (il_quantity l))]
      else [])
     @ [let ok = within_available policy quantity available in
        three_way_check
          (if dlt dzero previously then CUMULATIVE_QUANTITY_EXCEEDS_RECEIVED
           else INVOICE_QUANTITY_EXCEEDS_RECEIVED) ok
          (if ok then ''Invoice quantity is within available received quantity.''
           else ''Invoice quantity exceeds available received quantity.'') line index
          (Some available) (Some quantity) (Some (tp_quantity_absolute_tolerance policy))
          (Some quantity) (fevidence (il_quantity l))]
     @ (case fvalue (il_unit_price l) of None \<Rightarrow> []
        | Some u \<Rightarrow>
            let allowed = three_way_price_tolerance policy pol; ok = within_tol u (pl_unit_price pol) allowed
            in [three_way_check THREE_WAY_UNIT_PRICE_MISMATCH ok
                  (if ok then ''Invoice unit price is within policy tolerance.''
                   else ''Invoice unit price differs from the purchase-order price.'') line index
                  (Some (pl_unit_price pol)) (Some u) (Some allowed) (Some quantity)
                  (fevidence (il_unit_price l))])
     @ (case fvalue (il_line_total l) of None \<Rightarrow> []
        | Some t \<Rightarrow>
            let expected = dmul quantity (pl_unit_price pol);
                ok = within_tol t expected (tp_amount_absolute_tolerance policy)
            in [three_way_check THREE_WAY_LINE_AMOUNT_MISMATCH ok
                  (if ok then ''Invoice line amount equals received quantity at the PO price.''
                   else ''Invoice line amount differs from quantity at the PO price.'') line index
                  (Some expected) (Some t) (Some (tp_amount_absolute_tolerance policy)) (Some quantity)
                  (fevidence (il_line_total l))])"

definition parse_decimal :: "string \<Rightarrow> (three_way_error, decimal) result" where
  "parse_decimal s = (case decimal_of_string s of None \<Rightarrow> Inl InvalidOperation | Some d \<Rightarrow> Inr d)"

text \<open>One turn of the loop: the assignment with its new checks, and the draft if it has a quantity.\<close>

definition three_way_line ::
  "invoice \<Rightarrow> purchase_order \<Rightarrow> three_way_snapshot \<Rightarrow> three_way_policy \<Rightarrow> line_assignment
    \<Rightarrow> (three_way_error, line_assignment \<times> allocation_draft option) result" where
  "three_way_line invoice po ctx policy a =
     (case context_by_line ctx (la_po_line_id a) of
        None \<Rightarrow> Inl KeyError
      | Some line \<Rightarrow>
     (case po_by_line po (la_po_line_id a) of
        None \<Rightarrow> Inl KeyError
      | Some pol \<Rightarrow>
     (case parse_decimal (cl_effective_received_quantity line) of
        Inl e \<Rightarrow> Inl e
      | Inr received \<Rightarrow>
     (case parse_decimal (cl_ordered_quantity line) of
        Inl e \<Rightarrow> Inl e
      | Inr ordered \<Rightarrow>
          let index = la_invoice_line_index a;
              l = inv_line_items invoice ! index;
              quantity = numeric_value (il_quantity l);
              checks = kept_checks (la_checks a) @ receipt_checks invoice ctx line index quantity
                @ over_received_checks policy line index received ordered quantity
          in case quantity of
               None \<Rightarrow> Inr (a\<lparr>la_checks := checks\<rparr>, None)
             | Some q \<Rightarrow>
                 (case parse_decimal (cl_available_quantity line) of
                    Inl e \<Rightarrow> Inl e
                  | Inr available \<Rightarrow>
                 (case parse_decimal (cl_previously_allocated_quantity line) of
                    Inl e \<Rightarrow> Inl e
                  | Inr previously \<Rightarrow>
                      Inr (a\<lparr>la_checks := checks
                              @ quantity_checks policy l pol line index ordered available previously q\<rparr>,
                           Some \<lparr>ad_purchase_order_line_id = la_po_line_id a,
                                 ad_invoice_line_index = index, ad_quantity = q\<rparr>)))))))"

definition match_invoice_three_way ::
  "lib \<Rightarrow> invoice \<Rightarrow> purchase_order \<Rightarrow> three_way_snapshot \<Rightarrow> three_way_policy
    \<Rightarrow> (three_way_error, match_result \<times> allocation_draft list) result" where
  "match_invoice_three_way lib invoice po ctx policy =
     (let base = match_invoice lib invoice po (base_policy policy);
          checks = kept_checks (mr_checks base)
      in case collect (map (three_way_line invoice po ctx policy) (mr_line_assignments base)) of
           Inl e \<Rightarrow> Inl e
         | Inr steps \<Rightarrow>
             let assignments = map fst steps;
                 allocations = List.map_filter snd steps;
                 all_checks = all_result_checks checks assignments;
                 fails = filter failed all_checks;
                 result = \<lparr>mr_decision = (if fails = [] then MATCHED else NEEDS_REVIEW),
                           mr_summary = \<lparr>ms_invoice_line_count = length (inv_line_items invoice),
                             ms_po_line_count = length (po_lines po),
                             ms_assigned_line_count = length assignments,
                             ms_passed_check_count = count_status PASSED all_checks,
                             ms_failed_check_count = length fails\<rparr>,
                           mr_checks = checks,
                           mr_line_assignments = assignments,
                           mr_reason_codes = dict_fromkeys (map vc_code fails)\<rparr>
             in Inr (result, if mr_decision result = MATCHED then allocations else []))"

subsection \<open>The decision contract\<close>

lemma three_way_result:
  assumes "match_invoice_three_way lib invoice po ctx policy = Inr (r, drafts)"
  defines "base \<equiv> match_invoice lib invoice po (base_policy policy)"
  obtains steps where
    "map (three_way_line invoice po ctx policy) (mr_line_assignments base) = map Inr steps"
    and "mr_checks r = kept_checks (mr_checks base)" and "mr_line_assignments r = map fst steps"
    and "mr_decision r = (if all_passed (all_result_checks (mr_checks r) (mr_line_assignments r))
           then MATCHED else NEEDS_REVIEW)"
    and "mr_reason_codes r
           = dict_fromkeys (map vc_code (filter failed (all_result_checks (mr_checks r) (mr_line_assignments r))))"
    and "drafts = (if mr_decision r = MATCHED then List.map_filter snd steps else [])"
  using assms(1) that unfolding base_def
  by (auto simp: match_invoice_three_way_def Let_def collect_Inr no_failed_iff split: sum.splits)

definition three_way_run ::
  "lib \<times> invoice \<times> purchase_order \<times> three_way_snapshot \<times> three_way_policy \<Rightarrow> match_result option" where
  "three_way_run = (\<lambda>(lib, invoice, po, ctx, policy).
     (case match_invoice_three_way lib invoice po ctx policy of Inl e \<Rightarrow> None | Inr (r, drafts) \<Rightarrow> Some r))"

lemma three_way_run_of:
  "match_invoice_three_way lib invoice po ctx policy = Inr (r, drafts) \<Longrightarrow>
    three_way_run (lib, invoice, po, ctx, policy) = Some r"
  by (simp add: three_way_run_def)

interpretation three_way: checked_decision three_way_run
proof
  fix i :: "lib \<times> invoice \<times> purchase_order \<times> three_way_snapshot \<times> three_way_policy" and r
  assume run: "three_way_run i = Some r"
  obtain lib invoice po ctx policy where i: "i = (lib, invoice, po, ctx, policy)" by (cases i)
  from run i obtain drafts where "match_invoice_three_way lib invoice po ctx policy = Inr (r, drafts)"
    by (auto simp: three_way_run_def split: sum.splits)
  then show "mr_decision r = (if all_passed (all_result_checks (mr_checks r) (mr_line_assignments r))
        then MATCHED else NEEDS_REVIEW)"
    and "mr_reason_codes r
        = dict_fromkeys (map vc_code (filter failed (all_result_checks (mr_checks r) (mr_line_assignments r))))"
    by (rule three_way_result; simp)+
qed

text \<open>
  Whenever the three-way engine returns, its result satisfies the decision contract of the
  schema and it drafts allocations only for a MATCHED invoice.
\<close>

theorem three_way_contract:
  assumes "match_invoice_three_way lib invoice po ctx policy = Inr (r, drafts)"
  shows "validate_decision_contract r \<and> (drafts \<noteq> [] \<longrightarrow> mr_decision r = MATCHED)"
  using assms three_way.contract [OF three_way_run_of [OF assms]]
  by (elim three_way_result) auto

subsection \<open>What a three-way match means\<close>

text \<open>The agreement of an invoice line with its purchase-order line and receipt context.\<close>

definition three_way_agrees ::
  "invoice \<Rightarrow> three_way_policy \<Rightarrow> invoice_line \<Rightarrow> po_line \<Rightarrow> context_line \<Rightarrow> bool" where
  "three_way_agrees invoice policy l pol line \<longleftrightarrow>
     cl_reversed_receipts line = [] \<and> cl_active_receipts line \<noteq> []
     \<and> (\<forall>d. invoice_date_of invoice = Some d \<longrightarrow>
          list_all (\<lambda>q. dt_date (rq_received_at q) \<le> d) (cl_active_receipts line))
     \<and> (\<exists>received ordered available q u t.
          decimal_of_string (cl_effective_received_quantity line) = Some received
          \<and> decimal_of_string (cl_ordered_quantity line) = Some ordered
          \<and> decimal_of_string (cl_available_quantity line) = Some available
          \<and> line_numbers_of l = Some (q, u, t)
          \<and> dle received (dadd ordered (tp_quantity_absolute_tolerance policy))
          \<and> (tp_allow_partial_invoice policy
               \<or> dle (dsub ordered (tp_quantity_absolute_tolerance policy)) q)
          \<and> within_available policy q available
          \<and> within_tol u (pl_unit_price pol) (three_way_price_tolerance policy pol)
          \<and> within_tol t (dmul q (pl_unit_price pol)) (tp_amount_absolute_tolerance policy))"

lemma three_way_check_status [simp]:
  "vc_status (three_way_check c ok m l i e a t q ev) = (if ok then PASSED else FAILED)"
  by (simp add: three_way_check_def)

lemma receipt_checks_passed:
  "all_passed (receipt_checks invoice ctx line index q) \<longleftrightarrow>
    cl_reversed_receipts line = [] \<and> cl_active_receipts line \<noteq> []
    \<and> (\<forall>d. invoice_date_of invoice = Some d \<longrightarrow>
         list_all (\<lambda>q. dt_date (rq_received_at q) \<le> d) (cl_active_receipts line))"
  by (auto simp: receipt_checks_def reversed_receipt_ids_def filter_empty_conv list_all_iff not_less
      split: option.splits)

lemma over_received_checks_passed:
  "all_passed (over_received_checks policy line index received ordered q) \<longleftrightarrow>
    dle received (dadd ordered (tp_quantity_absolute_tolerance policy))"
  by (auto simp: over_received_checks_def num_iffs)

lemma numeric_value_Some: "numeric_value f = Some v \<Longrightarrow> fvalue f = Some v"
  by (auto simp: numeric_value_def split: if_splits)

lemma quantity_checks_passed:
  assumes "line_numbers_of l = Some (q, u, t)"
  shows "all_passed (quantity_checks policy l pol line index ordered available previously q) \<longleftrightarrow>
    (tp_allow_partial_invoice policy \<or> dle (dsub ordered (tp_quantity_absolute_tolerance policy)) q)
    \<and> within_available policy q available
    \<and> within_tol u (pl_unit_price pol) (three_way_price_tolerance policy pol)
    \<and> within_tol t (dmul q (pl_unit_price pol)) (tp_amount_absolute_tolerance policy)"
proof -
  have "fvalue (il_unit_price l) = Some u" "fvalue (il_line_total l) = Some t"
    using assms by (auto simp: line_numbers_of_Some dest: numeric_value_Some)
  then show ?thesis by (auto simp: quantity_checks_def Let_def num_iffs)
qed

lemma parse_decimal_Inr: "parse_decimal s = Inr d \<longleftrightarrow> decimal_of_string s = Some d"
  by (simp add: parse_decimal_def split: option.split)

lemma three_way_line_passed:
  assumes run: "three_way_line invoice po ctx policy a = Inr (a', d)"
    and consistent: "line_consistent tol (inv_line_items invoice ! la_invoice_line_index a)"
  obtains line pol q where
    "context_by_line ctx (la_po_line_id a) = Some line" and "po_by_line po (la_po_line_id a) = Some pol"
    and "la_po_line_id a' = la_po_line_id a" and "la_invoice_line_index a' = la_invoice_line_index a"
    and "numeric_value (il_quantity (inv_line_items invoice ! la_invoice_line_index a)) = Some q"
    and "d = Some \<lparr>ad_purchase_order_line_id = la_po_line_id a,
                   ad_invoice_line_index = la_invoice_line_index a, ad_quantity = q\<rparr>"
    and "all_passed (la_checks a') \<longleftrightarrow> all_passed (kept_checks (la_checks a))
      \<and> three_way_agrees invoice policy (inv_line_items invoice ! la_invoice_line_index a) pol line"
proof -
  let ?l = "inv_line_items invoice ! la_invoice_line_index a"
  obtain q u t where nums: "line_numbers_of ?l = Some (q, u, t)"
    using consistent by (auto simp: line_consistent_def split: option.splits)
  then have q: "numeric_value (il_quantity ?l) = Some q" by (simp add: line_numbers_of_Some)
  obtain line pol received ordered available previously where found:
    "context_by_line ctx (la_po_line_id a) = Some line" "po_by_line po (la_po_line_id a) = Some pol"
    "parse_decimal (cl_effective_received_quantity line) = Inr received"
    "parse_decimal (cl_ordered_quantity line) = Inr ordered"
    "parse_decimal (cl_available_quantity line) = Inr available"
    "parse_decimal (cl_previously_allocated_quantity line) = Inr previously"
    using run q
    by (auto simp: three_way_line_def Let_def split: option.splits sum.splits)
  with run q have a': "la_checks a' = kept_checks (la_checks a)
      @ receipt_checks invoice ctx line (la_invoice_line_index a) (Some q)
      @ over_received_checks policy line (la_invoice_line_index a) received ordered (Some q)
      @ quantity_checks policy ?l pol line (la_invoice_line_index a) ordered available previously q"
    "la_po_line_id a' = la_po_line_id a" "la_invoice_line_index a' = la_invoice_line_index a"
    "d = Some \<lparr>ad_purchase_order_line_id = la_po_line_id a,
                   ad_invoice_line_index = la_invoice_line_index a, ad_quantity = q\<rparr>"
    by (auto simp: three_way_line_def Let_def)
  have "all_passed (la_checks a') \<longleftrightarrow> all_passed (kept_checks (la_checks a))
      \<and> three_way_agrees invoice policy ?l pol line"
    using found nums
    by (auto simp: a'(1) receipt_checks_passed over_received_checks_passed quantity_checks_passed [OF nums]
        three_way_agrees_def parse_decimal_Inr)
  with that found q a' show thesis by blast
qed

lemma kept_engine_checks: "kept_checks (engine_checks invoice po policy) = engine_checks invoice po policy"
proof -
  have "financial_codes \<union> {PO_LINE_AMOUNT_MISMATCH, CURRENCY_MISMATCH} \<subseteq> - set discarded"
    by (simp add: financial_codes_def discarded_def)
  then show ?thesis
    using engine_checks_codes [of invoice po policy]
    by (fastforce simp: kept_checks_def intro!: filter_True)
qed

lemma kept_checks_append [simp]: "kept_checks (cs @ ds) = kept_checks cs @ kept_checks ds"
  by (simp add: kept_checks_def)

text \<open>The step results of a MATCHED three-way run.\<close>

lemma three_way_matched_steps:
  assumes run: "match_invoice_three_way lib invoice po ctx policy = Inr (r, drafts)"
    and matched: "mr_decision r = MATCHED"
  obtains steps where
    "map (three_way_line invoice po ctx policy)
       (map (assignment lib invoice po (base_policy policy)) (selected_pairs lib invoice po (base_policy policy)))
     = map Inr steps"
    and "all_passed (engine_checks invoice po (base_policy policy))"
    and "mr_line_assignments r = map fst steps" and "drafts = List.map_filter snd steps"
    and "\<forall>(a, d) \<in> set steps. all_passed (la_checks a)"
  using run
proof (cases rule: three_way_result)
  case (1 steps)
  let ?base = "match_invoice lib invoice po (base_policy policy)"
  have passed: "all_passed (mr_checks r)" "\<forall>a \<in> set (mr_line_assignments r). all_passed (la_checks a)"
    using matched three_way.matched_iff [OF three_way_run_of [OF run]] by blast+
  have "all_passed (engine_checks invoice po (base_policy policy))"
    using passed(1) 1(2) by (simp add: match_invoice_fields(1) kept_engine_checks)
  moreover have "\<forall>(a, d) \<in> set steps. all_passed (la_checks a)" using passed(2) 1(3) by auto
  ultimately show thesis
    using that [of steps] 1(1,3,6) matched by (simp add: match_invoice_fields(2))
qed

lemma assignment_simps [simp]:
  "la_invoice_line_index (assignment lib invoice po policy p) = pr_invoice_index p"
  "la_po_line_id (assignment lib invoice po policy p) = pl_id (po_lines po ! pr_po_index p)"
  by (simp_all add: assignment_def Let_def)

lemma selected_line_consistent:
  assumes "financially_consistent tol invoice" and "p \<in> set (selected_pairs lib invoice po policy)"
  shows "line_consistent tol (inv_line_items invoice ! pr_invoice_index p)"
proof -
  have "pr_invoice_index p < length (inv_line_items invoice)"
    using assms(2) selected_pairs_valid by (auto simp: one_to_one_def)
  with assms(1) show ?thesis by (simp add: financially_consistent_def list_all_length)
qed

definition draft_of :: "invoice \<Rightarrow> line_assignment \<Rightarrow> allocation_draft" where
  "draft_of invoice a = \<lparr>ad_purchase_order_line_id = la_po_line_id a,
     ad_invoice_line_index = la_invoice_line_index a,
     ad_quantity = (case numeric_value (il_quantity (inv_line_items invoice ! la_invoice_line_index a)) of
        Some q \<Rightarrow> q | None \<Rightarrow> dzero)\<rparr>"

lemma three_way_step_agrees:
  assumes run: "match_invoice_three_way lib invoice po ctx policy = Inr (r, drafts)"
    and matched: "mr_decision r = MATCHED"
  shows "all_passed (engine_checks invoice po (base_policy policy))"
    and "map la_po_line_id (mr_line_assignments r)
      = map (\<lambda>p. pl_id (po_lines po ! pr_po_index p)) (selected_pairs lib invoice po (base_policy policy))"
    and "map la_invoice_line_index (mr_line_assignments r)
      = map pr_invoice_index (selected_pairs lib invoice po (base_policy policy))"
    and "drafts = map (draft_of invoice) (mr_line_assignments r)"
    and "a \<in> set (mr_line_assignments r) \<Longrightarrow>
      \<exists>line pol. context_by_line ctx (la_po_line_id a) = Some line
        \<and> po_by_line po (la_po_line_id a) = Some pol
        \<and> three_way_agrees invoice policy (inv_line_items invoice ! la_invoice_line_index a) pol line"
proof -
  obtain steps where st:
    "map (three_way_line invoice po ctx policy)
       (map (assignment lib invoice po (base_policy policy)) (selected_pairs lib invoice po (base_policy policy)))
     = map Inr steps"
    "all_passed (engine_checks invoice po (base_policy policy))"
    "mr_line_assignments r = map fst steps" "drafts = List.map_filter snd steps"
    "\<forall>(a, d) \<in> set steps. all_passed (la_checks a)"
    using three_way_matched_steps [OF run matched] by blast
  let ?ps = "selected_pairs lib invoice po (base_policy policy)"
  have fc: "financially_consistent (mp_amount_absolute_tolerance (base_policy policy)) invoice"
    using st(2) by (simp add: engine_checks_passed)
  have step: "list_all2 (\<lambda>p (a', d).
      la_po_line_id a' = pl_id (po_lines po ! pr_po_index p) \<and> la_invoice_line_index a' = pr_invoice_index p
      \<and> d = Some (draft_of invoice a')
      \<and> (\<exists>line pol. context_by_line ctx (la_po_line_id a') = Some line
           \<and> po_by_line po (la_po_line_id a') = Some pol
           \<and> three_way_agrees invoice policy (inv_line_items invoice ! la_invoice_line_index a') pol line))
    ?ps steps" (is "list_all2 ?R _ _")
  proof (rule list_all2_all_nthI)
    show "length ?ps = length steps" using st(1) by (metis length_map)
    fix n assume n: "n < length ?ps"
    obtain a' d where s: "steps ! n = (a', d)" by (cases "steps ! n")
    have "three_way_line invoice po ctx policy (assignment lib invoice po (base_policy policy) (?ps ! n))
        = Inr (a', d)"
      using arg_cong [OF st(1), of "\<lambda>xs. xs ! n"] n s \<open>length ?ps = length steps\<close> by simp
    moreover have "line_consistent (mp_amount_absolute_tolerance (base_policy policy))
        (inv_line_items invoice ! la_invoice_line_index
           (assignment lib invoice po (base_policy policy) (?ps ! n)))"
      using selected_line_consistent [OF fc nth_mem [OF n]] by simp
    moreover have "all_passed (la_checks a')"
      using st(5) n s \<open>length ?ps = length steps\<close> nth_mem by fastforce
    ultimately show "?R (?ps ! n) (steps ! n)"
      unfolding s by (elim three_way_line_passed) (auto simp: draft_of_def)
  qed
  show "all_passed (engine_checks invoice po (base_policy policy))" by (rule st(2))
  show "map la_po_line_id (mr_line_assignments r) = map (\<lambda>p. pl_id (po_lines po ! pr_po_index p)) ?ps"
    and "map la_invoice_line_index (mr_line_assignments r) = map pr_invoice_index ?ps"
    and "drafts = map (draft_of invoice) (mr_line_assignments r)"
    using step unfolding st(3,4)
    by (induction rule: list_all2_induct) (auto simp: List.map_filter_simps)
  show "\<exists>line pol. context_by_line ctx (la_po_line_id a) = Some line
        \<and> po_by_line po (la_po_line_id a) = Some pol
        \<and> three_way_agrees invoice policy (inv_line_items invoice ! la_invoice_line_index a) pol line"
    if "a \<in> set (mr_line_assignments r)"
    using step that unfolding st(3)
    by (induction rule: list_all2_induct) auto
qed

text \<open>
  C5: a three-way match reported as MATCHED is backed by receipts. The invoice is financially
  consistent, its currency agrees, and every assigned line has active receipts, none of them
  reversed or later than the invoice date, that cover its quantity, and its price and amount agree
  with the purchase order.
\<close>

theorem three_way_matched_sound:
  assumes "match_invoice_three_way lib invoice po ctx policy = Inr (r, drafts)"
    and "mr_decision r = MATCHED"
  shows "financially_consistent (tp_amount_absolute_tolerance policy) invoice
    \<and> currency_matches invoice po
    \<and> (\<forall>a \<in> set (mr_line_assignments r). \<exists>line pol.
         context_by_line ctx (la_po_line_id a) = Some line
         \<and> po_by_line po (la_po_line_id a) = Some pol
         \<and> three_way_agrees invoice policy (inv_line_items invoice ! la_invoice_line_index a) pol line)"
  using three_way_step_agrees(1,5) [OF assms]
  by (simp add: engine_checks_passed base_policy_def)

lemma matched_drafts:
  assumes "match_invoice_three_way lib invoice po ctx policy = Inr (r, drafts)"
    and "mr_decision r = MATCHED" and "distinct (map pl_id (po_lines po))"
  shows "drafts = map (draft_of invoice) (mr_line_assignments r)
    \<and> distinct (map ad_invoice_line_index drafts) \<and> distinct (map ad_purchase_order_line_id drafts)
    \<and> set (map ad_purchase_order_line_id drafts) \<subseteq> set (map pl_id (po_lines po))"
proof -
  let ?ps = "selected_pairs lib invoice po (base_policy policy)"
  have valid: "distinct (map pr_invoice_index ?ps)" "distinct (map pr_po_index ?ps)"
    "\<forall>p \<in> set ?ps. pr_po_index p < length (po_lines po)"
    using selected_pairs_valid [where invoice = invoice and po = po and lib = lib and policy = "base_policy policy"]
    by (auto simp: one_to_one_def)
  have ids: "map ad_purchase_order_line_id drafts = map (\<lambda>p. pl_id (po_lines po ! pr_po_index p)) ?ps"
    "map ad_invoice_line_index drafts = map pr_invoice_index ?ps"
    using three_way_step_agrees(2,3,4) [OF assms(1,2)] by (simp_all add: draft_of_def comp_def)
  have "inj_on (\<lambda>p. pl_id (po_lines po ! pr_po_index p)) (set ?ps)"
  proof (rule inj_onI)
    fix p q assume pq: "p \<in> set ?ps" "q \<in> set ?ps"
      "pl_id (po_lines po ! pr_po_index p) = pl_id (po_lines po ! pr_po_index q)"
    then have "pr_po_index p = pr_po_index q"
      using assms(3) valid(3) by (auto simp: distinct_conv_nth)
    with pq valid(2) show "p = q" by (auto simp: distinct_map dest: inj_onD)
  qed
  then have "distinct (map ad_purchase_order_line_id drafts)"
    using valid(2) by (simp add: ids(1) distinct_map)
  moreover have "set (map ad_purchase_order_line_id drafts) \<subseteq> set (map pl_id (po_lines po))"
    using valid(3) unfolding ids(1) by auto
  moreover have "distinct (map ad_invoice_line_index drafts)" using valid(1) by (simp only: ids(2))
  ultimately show ?thesis using three_way_step_agrees(4) [OF assms(1,2)] by blast
qed

text \<open>
  The allocations of a MATCHED three-way match are one per assigned line, each with the
  extracted quantity of its invoice line; no invoice line and, when the lines of the order have
  different identifiers, no purchase-order line is allocated twice.
\<close>

theorem three_way_drafts:
  assumes "match_invoice_three_way lib invoice po ctx policy = Inr (r, drafts)"
    and "mr_decision r = MATCHED" and "distinct (map pl_id (po_lines po))"
  shows "drafts = map (draft_of invoice) (mr_line_assignments r)
    \<and> distinct (map ad_invoice_line_index drafts) \<and> distinct (map ad_purchase_order_line_id drafts)
    \<and> set (map ad_purchase_order_line_id drafts) \<subseteq> set (map pl_id (po_lines po))"
  using assms by (rule matched_drafts)

subsection \<open>On contexts of the builder\<close>

lemma dict_of_lookup: "map_of (dict_of kvs) k = Some v \<Longrightarrow> (k, v) \<in> set kvs"
  using set_dict_of map_of_SomeD by fastforce

lemma dict_of_found: "k \<in> fst ` set kvs \<Longrightarrow> \<exists>v. map_of (dict_of kvs) k = Some v"
  using dict_of_keys [of kvs] by (metis map_of_eq_None_iff not_None_eq)

lemma context_by_line_built:
  assumes "context_by_line (build_snapshot rs as po policy doc) k = Some line"
  obtains pol where "pol \<in> set (po_lines po)" and "pl_id pol = k"
    and "line = context_of_line (receipts_of_order rs po) (prior_allocations as po doc)
          (current_allocations as po doc) pol"
  using dict_of_lookup [OF assms [unfolded context_by_line_def]] that
  by (auto simp: build_snapshot_def context_of_line_def Let_def)

lemma parse_decimal_string: "\<exists>d. parse_decimal (decimal_string x) = Inr d"
  by (rule decimal_roundtrip_value [of x]) (auto simp: parse_decimal_Inr)

lemma three_way_line_total:
  assumes "la_po_line_id a \<in> pl_id ` set (po_lines po)"
  shows "\<exists>x. three_way_line invoice po (build_snapshot rs as po policy doc) policy a = Inr x"
proof -
  let ?ctx = "build_snapshot rs as po policy doc"
  have "la_po_line_id a \<in> fst ` set (map (\<lambda>l. (cl_purchase_order_line_id l, l)) (ts_lines ?ctx))"
    using assms by (force simp: build_snapshot_def context_of_line_def Let_def)
  then obtain line where line: "context_by_line ?ctx (la_po_line_id a) = Some line"
    using dict_of_found by (metis context_by_line_def)
  then obtain pol where "line = context_of_line (receipts_of_order rs po) (prior_allocations as po doc)
      (current_allocations as po doc) pol"
    by (rule context_by_line_built)
  then have "\<exists>d. parse_decimal (cl_effective_received_quantity line) = Inr d"
    "\<exists>d. parse_decimal (cl_ordered_quantity line) = Inr d"
    "\<exists>d. parse_decimal (cl_available_quantity line) = Inr d"
    "\<exists>d. parse_decimal (cl_previously_allocated_quantity line) = Inr d"
    by (simp_all add: context_of_line_def Let_def parse_decimal_string)
  moreover obtain pol' where "po_by_line po (la_po_line_id a) = Some pol'"
    using assms dict_of_found [of _ "map (\<lambda>l. (pl_id l, l)) (po_lines po)"]
    by (fastforce simp: po_by_line_def image_image)
  ultimately show ?thesis
    using line by (auto simp: three_way_line_def Let_def split: option.split)
qed

lemma three_way_runs:
  "\<exists>r drafts. match_invoice_three_way lib invoice po (build_snapshot rs as po policy doc) policy = Inr (r, drafts)"
proof -
  let ?as = "mr_line_assignments (match_invoice lib invoice po (base_policy policy))"
  have "la_po_line_id a \<in> pl_id ` set (po_lines po)" if "a \<in> set ?as" for a
    using that selected_pairs_valid [where invoice = invoice and po = po and lib = lib and policy = "base_policy policy"]
    by (auto simp: match_invoice_fields(2) one_to_one_def)
  then have "list_all (\<lambda>x. \<exists>y. x = Inr y)
      (map (three_way_line invoice po (build_snapshot rs as po policy doc) policy) ?as)"
    using three_way_line_total by (simp add: list_all_iff)
  then obtain steps where
    "collect (map (three_way_line invoice po (build_snapshot rs as po policy doc) policy) ?as) = Inr steps"
    using collect_total by blast
  then show ?thesis by (simp add: match_invoice_three_way_def Let_def)
qed

text \<open>
  C34: on a context that the builder made for the same purchase order the three-way engine never
  raises: every key it looks up is there and every text it parses is a decimal.
\<close>

theorem three_way_total:
  "\<exists>r drafts. match_invoice_three_way lib invoice po (build_snapshot rs as po policy doc) policy = Inr (r, drafts)"
  by (rule three_way_runs)

text \<open>The bounds under which the quantities of a line add up exactly, the tolerance included.\<close>

definition line_exact :: "goods_receipt list \<Rightarrow> three_way_allocation list \<Rightarrow> po_line \<Rightarrow> decimal \<Rightarrow> bool" where
  "line_exact receipts prior pol tol \<longleftrightarrow>
     line_bounded receipts prior pol \<and> -8 \<le> expo tol
     \<and> fits28 (sum_list (map (\<lambda>q. \<bar>scale_of (-8) q\<bar>)
         (accepted_quantities receipts pol @ allocated_quantities prior pol)) + \<bar>scale_of (-8) tol\<bar>)"

lemma within_available_exact:
  assumes "line_exact receipts prior pol (tp_quantity_absolute_tolerance policy)"
    and "decimal_of_string (cl_available_quantity (context_of_line receipts prior current pol)) = Some available"
    and "within_available policy q available"
  shows "dval q \<le> sum_list (map dval (accepted_quantities receipts pol))
    - sum_list (map dval (allocated_quantities prior pol)) + dval (tp_quantity_absolute_tolerance policy)"
proof -
  let ?diff = "dsub (received_quantity receipts pol) (prior_quantity prior pol)"
  let ?tol = "tp_quantity_absolute_tolerance policy"
  have bounded: "line_bounded receipts prior pol" and tol: "-8 \<le> expo ?tol"
    and fit: "fits28 (sum_list (map (\<lambda>q. \<bar>scale_of (-8) q\<bar>)
         (accepted_quantities receipts pol @ allocated_quantities prior pol)) + \<bar>scale_of (-8) ?tol\<bar>)"
    using assms(1) by (auto simp: line_exact_def)
  note quantities = context_quantities [OF bounded]
  obtain d where d: "decimal_of_string (decimal_string ?diff) = Some d" "dval d = dval ?diff"
    "-8 \<le> expo d" "scale_of (-8) d = scale_of (-8) ?diff"
    using decimal_roundtrip_scale [OF quantities(4)] by auto
  have "available = d" using assms(2) d(1) by (simp add: context_of_line_def Let_def)
  moreover have "fits28 (\<bar>scale_of (-8) d\<bar> + \<bar>scale_of (-8) ?tol\<bar>)"
    using fit quantities(5) by (simp add: d(4) fits28_def)
  ultimately have "dval (dadd available ?tol) = dval ?diff + dval ?tol"
    using dadd_value(1) [OF d(3) tol] d(2) by simp
  then show ?thesis
    using assms(3) quantities(3) by (simp add: within_available_def num_iffs)
qed

lemma draft_within_received:
  assumes "match_invoice_three_way lib invoice po (build_snapshot rs as po policy doc) policy = Inr (r, drafts)"
    and "d \<in> set drafts" and "pol \<in> set (po_lines po)" and "pl_id pol = ad_purchase_order_line_id d"
    and "distinct (map pl_id (po_lines po))"
    and "line_exact (receipts_of_order rs po) (prior_allocations as po doc) pol
          (tp_quantity_absolute_tolerance policy)"
  shows "sum_list (map dval (allocated_quantities (prior_allocations as po doc) pol)) + dval (ad_quantity d)
    \<le> sum_list (map dval (accepted_quantities (receipts_of_order rs po) pol))
      + dval (tp_quantity_absolute_tolerance policy)"
proof -
  let ?ctx = "build_snapshot rs as po policy doc"
  have matched: "mr_decision r = MATCHED" using three_way_result [OF assms(1)] assms(2) by (metis empty_iff empty_set)
  obtain a where a: "a \<in> set (mr_line_assignments r)" "d = draft_of invoice a"
    using three_way_step_agrees(4) [OF assms(1) matched] assms(2) by auto
  obtain line pol' where agrees: "context_by_line ?ctx (la_po_line_id a) = Some line"
    "three_way_agrees invoice policy (inv_line_items invoice ! la_invoice_line_index a) pol' line"
    using three_way_step_agrees(5) [OF assms(1) matched a(1)] by blast
  from agrees(1) have line: "line = context_of_line (receipts_of_order rs po) (prior_allocations as po doc)
      (current_allocations as po doc) pol"
  proof (rule context_by_line_built)
    fix p assume p: "p \<in> set (po_lines po)" "pl_id p = la_po_line_id a"
      "line = context_of_line (receipts_of_order rs po) (prior_allocations as po doc)
        (current_allocations as po doc) p"
    then have "p = pol"
      using assms(3,4,5) a(2) inj_onD [of pl_id "set (po_lines po)" p pol]
      by (simp add: draft_of_def distinct_map)
    with p show ?thesis by simp
  qed
  obtain available q u t where q: "decimal_of_string (cl_available_quantity line) = Some available"
    "line_numbers_of (inv_line_items invoice ! la_invoice_line_index a) = Some (q, u, t)"
    "within_available policy q available"
    using agrees(2) unfolding three_way_agrees_def by blast
  then have "ad_quantity d = q" by (simp add: a(2) draft_of_def line_numbers_of_Some)
  with within_available_exact [OF assms(6) q(1) [unfolded line] q(3)] show ?thesis by simp
qed

text \<open>
  A three-way match never allocates more than was received. For every drafted allocation the
  quantities already allocated to other invoices for the same purchase-order line plus the new
  quantity stay within the accepted quantities of the line's unreversed receipts, up to the
  policy's tolerance.
\<close>

theorem three_way_no_overallocation:
  assumes "match_invoice_three_way lib invoice po (build_snapshot rs as po policy doc) policy = Inr (r, drafts)"
    and "d \<in> set drafts" and "pol \<in> set (po_lines po)" and "pl_id pol = ad_purchase_order_line_id d"
    and "distinct (map pl_id (po_lines po))"
    and "line_exact (receipts_of_order rs po) (prior_allocations as po doc) pol
          (tp_quantity_absolute_tolerance policy)"
  shows "sum_list (map dval (allocated_quantities (prior_allocations as po doc) pol)) + dval (ad_quantity d)
    \<le> sum_list (map dval (accepted_quantities (receipts_of_order rs po) pol))
      + dval (tp_quantity_absolute_tolerance policy)"
  using assms by (rule draft_within_received)

text \<open>The quantity of a draft is the extracted quantity of an invoice line.\<close>

lemma draft_digits:
  assumes "match_invoice_three_way lib invoice po ctx policy = Inr (r, drafts)" and "mr_decision r = MATCHED"
    and "d \<in> set drafts"
  shows "\<exists>l \<in> set (inv_line_items invoice). numeric_value (il_quantity l) = Some (ad_quantity d)"
proof -
  obtain a where a: "a \<in> set (mr_line_assignments r)" "d = draft_of invoice a"
    using three_way_step_agrees(4) [OF assms(1,2)] assms(3) by auto
  obtain line pol where "three_way_agrees invoice policy (inv_line_items invoice ! la_invoice_line_index a) pol line"
    using three_way_step_agrees(5) [OF assms(1,2) a(1)] by blast
  then obtain q u t where q: "line_numbers_of (inv_line_items invoice ! la_invoice_line_index a) = Some (q, u, t)"
    unfolding three_way_agrees_def by blast
  have "la_invoice_line_index a \<in> set (map pr_invoice_index (selected_pairs lib invoice po (base_policy policy)))"
    using three_way_step_agrees(3) [OF assms(1,2)] a(1) by (metis image_eqI list.set_map)
  then have "la_invoice_line_index a < length (inv_line_items invoice)"
    using selected_pairs_valid [where invoice = invoice and po = po and lib = lib and policy = "base_policy policy"]
    by (auto simp: one_to_one_def)
  then have "inv_line_items invoice ! la_invoice_line_index a \<in> set (inv_line_items invoice)" by (rule nth_mem)
  moreover have "numeric_value (il_quantity (inv_line_items invoice ! la_invoice_line_index a)) = Some (ad_quantity d)"
    using q by (simp add: a(2) draft_of_def line_numbers_of_Some)
  ultimately show ?thesis ..
qed

subsection \<open>The decision without reference to checks\<close>

lemma kept_none: "kept_checks cs = cs" if "\<forall>c \<in> set cs. vc_code c \<notin> set discarded"
  using that by (simp add: kept_checks_def)

lemma kept_loop_checks:
  "kept_checks (ex_checks (loop_state lib invoice po policy)) = ex_checks (loop_state lib invoice po policy)"
  "kept_checks (concat (map fst (loop_steps lib invoice po policy))) = concat (map fst (loop_steps lib invoice po policy))"
  "kept_checks (po_unmatched_checks po ps) = []"
proof -
  show "kept_checks (ex_checks (loop_state lib invoice po policy)) = ex_checks (loop_state lib invoice po policy)"
    using exact_phase_issues [where invoice = invoice and lib = lib and po = po and policy = policy]
    by (intro kept_none) (auto simp: loop_state_def list_all_iff exact_issue_def discarded_def)
  have "vc_code c \<notin> set discarded" if "c \<in> set (fst (edge_step lib invoice po policy av i))" for c av i
    using that edge_step_checks [where lib = lib and invoice = invoice and po = po and policy = policy
        and available = av and i = i]
    by (auto simp: discarded_def split: prod.splits)
  then show "kept_checks (concat (map fst (loop_steps lib invoice po policy)))
      = concat (map fst (loop_steps lib invoice po policy))"
    by (intro kept_none) (auto simp: loop_steps_def)
  show "kept_checks (po_unmatched_checks po ps) = []"
    by (auto simp: kept_checks_def po_unmatched_checks_def discarded_def filter_empty_conv)
qed

lemma kept_assignment_checks:
  "all_passed (kept_checks (la_checks (assignment lib invoice po policy p)))
    \<longleftrightarrow> fle (mp_description_similarity_threshold policy) (pr_score p)"
  by (simp add: assignment_def assignment_checks_def kept_checks_def discarded_def Let_def split: option.split)

lemma three_way_matchedI:
  assumes run: "match_invoice_three_way lib invoice po ctx policy = Inr (r, drafts)"
    and engine: "all_passed (engine_checks invoice po (base_policy policy))"
    and loops: "ex_checks (loop_state lib invoice po (base_policy policy)) = []"
      "list_all (\<lambda>step. fst step = []) (loop_steps lib invoice po (base_policy policy))"
    and lines: "\<And>p line pol. p \<in> set (selected_pairs lib invoice po (base_policy policy)) \<Longrightarrow>
      context_by_line ctx (pl_id (po_lines po ! pr_po_index p)) = Some line \<Longrightarrow>
      po_by_line po (pl_id (po_lines po ! pr_po_index p)) = Some pol \<Longrightarrow>
      fle (tp_description_similarity_threshold policy) (pr_score p)
      \<and> three_way_agrees invoice policy (inv_line_items invoice ! pr_invoice_index p) pol line"
  shows "mr_decision r = MATCHED"
  using run
proof (cases rule: three_way_result)
  case (1 steps)
  let ?ps = "selected_pairs lib invoice po (base_policy policy)"
  have fc: "financially_consistent (mp_amount_absolute_tolerance (base_policy policy)) invoice"
    using engine by (simp add: engine_checks_passed)
  have "all_passed (la_checks a)" if step: "(a, d) \<in> set steps" for a d
  proof -
    have "Inr (a, d) \<in> set (map (three_way_line invoice po ctx policy)
        (map (assignment lib invoice po (base_policy policy)) ?ps))"
      using 1(1) step by (simp add: match_invoice_fields(2))
    then obtain p where p: "p \<in> set ?ps"
      "three_way_line invoice po ctx policy (assignment lib invoice po (base_policy policy) p) = Inr (a, d)"
      by auto
    from p(2) show ?thesis
    proof (rule three_way_line_passed)
      show "line_consistent (mp_amount_absolute_tolerance (base_policy policy))
          (inv_line_items invoice ! la_invoice_line_index (assignment lib invoice po (base_policy policy) p))"
        using selected_line_consistent [OF fc p(1)] by simp
    qed (use lines [OF p(1)] in \<open>auto simp: kept_assignment_checks base_policy_def\<close>)
  qed
  then have "\<forall>a \<in> set (mr_line_assignments r). all_passed (la_checks a)" using 1(3) by auto
  moreover have "all_passed (mr_checks r)"
    using engine loops
    by (simp add: 1(2) match_invoice_fields(1) kept_engine_checks kept_loop_checks loop_checks_passed)
  ultimately show ?thesis using three_way.matched_iff [OF three_way_run_of [OF run]] by blast
qed

subsection \<open>Witnesses\<close>

definition sample_bolts :: invoice where
  "sample_bolts = sample_invoice [(''bolt'', 2, 10)]"

definition sample_bolt_po :: purchase_order where
  "sample_bolt_po = sample_po [(''bolt'', 5, 10)]"

definition sample_context :: three_way_snapshot where
  "sample_context = build_snapshot [sample_receipt] [] sample_bolt_po default_three_way_policy (Some 3)"

definition sample_bolt_line :: context_line where
  "sample_bolt_line = \<lparr>cl_purchase_order_line_id = 20, cl_ordered_quantity = ''5'',
     cl_active_receipts = [\<lparr>rq_receipt_id = 50, rq_accepted_quantity = ''5.00000000'',
       rq_received_at = sample_time 737500\<rparr>],
     cl_reversed_receipts = [], cl_reversal_ids = [], cl_prior_allocations = [],
     cl_current_invoice_allocations = [], cl_effective_received_quantity = ''5.00000000'',
     cl_previously_allocated_quantity = ''0'', cl_available_quantity = ''5.00000000''\<rparr>"

lemma sample_context_line: "ts_lines sample_context = [sample_bolt_line]"
  by code_simp

text \<open>Invoices with one line of bolts, the whole engine evaluated from its parts.\<close>

lemma single_line_matched:
  assumes pairs: "selected_pairs sample_lib i sample_bolt_po (base_policy default_three_way_policy)
      = [\<lparr>pr_invoice_index = 0, pr_po_index = 0, pr_score = Scaled 1 0, pr_exact = True\<rparr>]"
    and loops: "ex_checks (loop_state sample_lib i sample_bolt_po (base_policy default_three_way_policy)) = []"
      "ex_unresolved (loop_state sample_lib i sample_bolt_po (base_policy default_three_way_policy)) = []"
    and agrees: "three_way_agrees i default_three_way_policy (inv_line_items i ! 0) (po_lines sample_bolt_po ! 0) sample_bolt_line"
    and engine: "all_passed (engine_checks i sample_bolt_po (base_policy default_three_way_policy))"
    and quantity: "numeric_value (il_quantity (inv_line_items i ! 0)) = Some q"
  shows "\<exists>r. match_invoice_three_way sample_lib i sample_bolt_po sample_context default_three_way_policy
       = Inr (r, [\<lparr>ad_purchase_order_line_id = 20, ad_invoice_line_index = 0, ad_quantity = q\<rparr>])
     \<and> mr_decision r = MATCHED"
proof -
  let ?p = default_three_way_policy
  obtain r drafts where run: "match_invoice_three_way sample_lib i sample_bolt_po sample_context ?p = Inr (r, drafts)"
    using three_way_runs unfolding sample_context_def by blast
  have id: "pl_id (po_lines sample_bolt_po ! 0) = 20" "po_lines sample_bolt_po = [po_lines sample_bolt_po ! 0]"
    by (simp_all add: sample_bolt_po_def sample_po_def)
  have "context_by_line sample_context 20 = Some sample_bolt_line"
    by (simp add: context_by_line_def sample_context_line dict_of_def sample_bolt_line_def)
  moreover have "po_by_line sample_bolt_po 20 = Some (po_lines sample_bolt_po ! 0)"
    unfolding po_by_line_def by (subst id(2)) (simp add: dict_of_def id(1))
  moreover have "fle (tp_description_similarity_threshold ?p) (Scaled 1 0)" by code_simp
  ultimately have matched: "mr_decision r = MATCHED"
    using engine loops agrees by (intro three_way_matchedI [OF run]) (auto simp: pairs id(1) loop_steps_def)
  have one: "map la_po_line_id (mr_line_assignments r) = [20]" "map la_invoice_line_index (mr_line_assignments r) = [0]"
    "drafts = map (draft_of i) (mr_line_assignments r)"
    using three_way_step_agrees(2,3,4) [OF run matched] by (simp_all add: pairs id(1))
  then obtain a where "mr_line_assignments r = [a]" "la_po_line_id a = 20" "la_invoice_line_index a = 0"
    by (auto simp: map_eq_Cons_conv)
  with one(3) have "drafts = [\<lparr>ad_purchase_order_line_id = 20, ad_invoice_line_index = 0, ad_quantity = q\<rparr>]"
    by (simp add: draft_of_def quantity)
  with run matched show ?thesis by blast
qed

lemma single_line_agrees:
  assumes "line_numbers_of (inv_line_items i ! 0) = Some (q, Scaled 10 0, t)"
    and "within_available default_three_way_policy q (Scaled 500000000 (-8))"
    and "within_tol t (dmul q (pl_unit_price (po_lines sample_bolt_po ! 0)))
           (tp_amount_absolute_tolerance default_three_way_policy)"
    and "invoice_date_of i = Some 738000"
  shows "three_way_agrees i default_three_way_policy (inv_line_items i ! 0) (po_lines sample_bolt_po ! 0) sample_bolt_line"
proof -
  let ?p = default_three_way_policy
  have "decimal_of_string ''5.00000000'' = Some (Scaled 500000000 (-8))"
    and "decimal_of_string ''5'' = Some (Scaled 5 0)"
    and "dle (Scaled 500000000 (-8)) (dadd (Scaled 5 0) (tp_quantity_absolute_tolerance ?p))"
    and "tp_allow_partial_invoice ?p"
    and "within_tol (Scaled 10 0) (pl_unit_price (po_lines sample_bolt_po ! 0))
           (three_way_price_tolerance ?p (po_lines sample_bolt_po ! 0))"
    and "dt_date (sample_time 737500) = 737500"
    by code_simp+
  with assms show ?thesis
    unfolding three_way_agrees_def by (simp add: sample_bolt_line_def)
qed

lemma sample_three_way_matched:
  "\<exists>r. match_invoice_three_way sample_lib sample_bolts sample_bolt_po sample_context default_three_way_policy
       = Inr (r, [\<lparr>ad_purchase_order_line_id = 20, ad_invoice_line_index = 0, ad_quantity = Scaled 2 0\<rparr>])
     \<and> mr_decision r = MATCHED"
proof (rule single_line_matched)
  show "three_way_agrees sample_bolts default_three_way_policy (inv_line_items sample_bolts ! 0)
      (po_lines sample_bolt_po ! 0) sample_bolt_line"
    by (rule single_line_agrees) code_simp+
  show "all_passed (engine_checks sample_bolts sample_bolt_po (base_policy default_three_way_policy))"
    unfolding engine_checks_passed by (intro conjI) code_simp+
qed code_simp+

definition sample_no_bolts :: invoice where
  "sample_no_bolts = sample_invoice [(''bolt'', 0, 10)]"

text \<open>A line that bills nothing is matched as well, with an allocation of zero.\<close>

lemma sample_zero_matched:
  "\<exists>r. match_invoice_three_way sample_lib sample_no_bolts sample_bolt_po sample_context default_three_way_policy
       = Inr (r, [\<lparr>ad_purchase_order_line_id = 20, ad_invoice_line_index = 0, ad_quantity = Scaled 0 0\<rparr>])
     \<and> mr_decision r = MATCHED"
proof (rule single_line_matched)
  show "three_way_agrees sample_no_bolts default_three_way_policy (inv_line_items sample_no_bolts ! 0)
      (po_lines sample_bolt_po ! 0) sample_bolt_line"
    by (rule single_line_agrees) code_simp+
  show "all_passed (engine_checks sample_no_bolts sample_bolt_po (base_policy default_three_way_policy))"
    unfolding engine_checks_passed by (intro conjI) code_simp+
qed code_simp+

theorem three_way_contract_witness:
  "\<exists>r drafts. match_invoice_three_way sample_lib sample_bolts sample_bolt_po sample_context
      default_three_way_policy = Inr (r, drafts) \<and> drafts \<noteq> [] \<and> validate_decision_contract r"
  using sample_three_way_matched three_way_contract by blast

theorem three_way_matched_sound_witness:
  "\<exists>r drafts. match_invoice_three_way sample_lib sample_bolts sample_bolt_po sample_context
      default_three_way_policy = Inr (r, drafts) \<and> mr_decision r = MATCHED
     \<and> currency_matches sample_bolts sample_bolt_po"
  using sample_three_way_matched three_way_matched_sound by blast

theorem three_way_drafts_witness:
  "\<exists>r drafts. match_invoice_three_way sample_lib sample_bolts sample_bolt_po sample_context
      default_three_way_policy = Inr (r, drafts) \<and> drafts \<noteq> []
     \<and> distinct (map ad_purchase_order_line_id drafts)"
proof -
  have "distinct (map pl_id (po_lines sample_bolt_po))"
    by (simp add: sample_bolt_po_def sample_po_def)
  then show ?thesis using sample_three_way_matched three_way_drafts by blast
qed

theorem three_way_no_overallocation_witness:
  "sum_list (map dval (allocated_quantities (prior_allocations [] sample_bolt_po (Some 3))
       (po_lines sample_bolt_po ! 0))) + dval (Scaled 2 0)
   \<le> sum_list (map dval (accepted_quantities (receipts_of_order [sample_receipt] sample_bolt_po)
       (po_lines sample_bolt_po ! 0)))
     + dval (tp_quantity_absolute_tolerance default_three_way_policy)"
proof -
  let ?pol = "po_lines sample_bolt_po ! 0"
  obtain r where run: "match_invoice_three_way sample_lib sample_bolts sample_bolt_po
      (build_snapshot [sample_receipt] [] sample_bolt_po default_three_way_policy (Some 3))
      default_three_way_policy
      = Inr (r, [\<lparr>ad_purchase_order_line_id = 20, ad_invoice_line_index = 0, ad_quantity = Scaled 2 0\<rparr>])"
    using sample_three_way_matched unfolding sample_context_def by blast
  have acc: "accepted_quantities (receipts_of_order [sample_receipt] sample_bolt_po) ?pol
      = [Scaled 500000000 (-8)]"
    and alloc: "allocated_quantities (prior_allocations [] sample_bolt_po (Some 3)) ?pol = []" by code_simp+
  have "line_exact (receipts_of_order [sample_receipt] sample_bolt_po)
      (prior_allocations [] sample_bolt_po (Some 3)) ?pol
      (tp_quantity_absolute_tolerance default_three_way_policy)"
    by (simp add: line_exact_def line_bounded_def acc alloc scale_of_def align_def fits28_def
        default_three_way_policy_def)
  from three_way_no_overallocation [OF run list.set_intros(1) _ _ _ this] show ?thesis
    by (simp add: sample_bolt_po_def sample_po_def)
qed

end
