(* ===== verification/Risk.thy ===== *)
theory Risk
  imports Samples
begin

text \<open>
  Duplicate risk (\<^verbatim>\<open>invoiceops/schemas/risk.py\<close>, \<^verbatim>\<open>invoiceops/risk/normalization.py\<close> and
  \<^verbatim>\<open>invoiceops/risk/engine.py\<close>): the features of an invoice are compared with those of earlier
  invoices, and the signals decide whether a person has to look at it.
\<close>

subsection \<open>Schema\<close>

datatype risk_disposition = CLEAR | RISK_NEEDS_REVIEW | NOT_ASSESSABLE

datatype risk_signal_code =
    EXACT_BUSINESS_KEY_DUPLICATE
  | REUSED_VENDOR_INVOICE_NUMBER
  | SAME_PO_INVOICE_REPLAY
  | NEAR_DUPLICATE
  | DUPLICATE_CHECK_INCOMPLETE

datatype risk_severity = RISK_INFO | RISK_WARNING | RISK_CRITICAL

record risk_policy =
  rp_version :: string
  rp_amount_absolute_tolerance :: decimal
  rp_date_window_days :: int
  rp_invoice_number_similarity_threshold :: decimal
  rp_route_incomplete_to_review :: bool

definition default_risk_policy :: risk_policy where
  "default_risk_policy = \<lparr>
     rp_version = ''duplicate-risk-v1'',
     rp_amount_absolute_tolerance = Scaled 2 (-2),
     rp_date_window_days = 7,
     rp_invoice_number_similarity_threshold = Scaled 92 (-2),
     rp_route_incomplete_to_review = True\<rparr>"

record risk_features =
  rf_normalized_vendor :: "string option"
  rf_normalized_invoice_number :: "string option"
  rf_invoice_date :: "date option"
  rf_currency :: "string option"
  rf_total :: "string option"
  rf_purchase_order_id :: uuid
  rf_document_id :: uuid
  rf_extraction_run_id :: uuid
  rf_match_run_id :: uuid
  rf_missing_fields :: "string list"

definition features_complete :: "risk_features \<Rightarrow> bool" where
  "features_complete f = (rf_missing_fields f = [])"

record risk_signal_draft =
  sg_code :: risk_signal_code
  sg_severity :: risk_severity
  sg_comparison_match_run_id :: "uuid option"
  sg_observed :: "(string \<times> json) list"
  sg_reference :: "(string \<times> json) list"
  sg_explanation :: string

record risk_result =
  rr_disposition :: risk_disposition
  rr_features :: risk_features
  rr_signals :: "risk_signal_draft list"

subsection \<open>Normalization\<close>

definition normalize_vendor :: "string \<Rightarrow> string" where
  "normalize_vendor s =
     py_join '' '' (py_split (map (\<lambda>c. if is_alnum c then c else CHR '' '') (py_casefold s)))"

definition normalize_invoice_number :: "string \<Rightarrow> string" where
  "normalize_invoice_number s = filter is_alnum (py_casefold s)"

subsection \<open>Comparison of two invoices\<close>

fun signal_order :: "risk_signal_code \<Rightarrow> nat" where
  "signal_order EXACT_BUSINESS_KEY_DUPLICATE = 0"
| "signal_order REUSED_VENDOR_INVOICE_NUMBER = 1"
| "signal_order SAME_PO_INVOICE_REPLAY = 2"
| "signal_order NEAR_DUPLICATE = 3"
| "signal_order DUPLICATE_CHECK_INCOMPLETE = 4"

definition required_fields :: "string list" where
  "required_fields =
     [''normalized_vendor'', ''normalized_invoice_number'', ''invoice_date'', ''currency'', ''total'']"

definition comparison_values :: "risk_features \<Rightarrow> decimal \<Rightarrow> (string \<times> json) list" where
  "comparison_values f amount_difference =
     [(''normalized_vendor'', json_opt JStr (rf_normalized_vendor f)),
      (''normalized_invoice_number'', json_opt JStr (rf_normalized_invoice_number f)),
      (''invoice_date'', json_opt (\<lambda>d. JStr (date_isoformat d)) (rf_invoice_date f)),
      (''currency'', json_opt JStr (rf_currency f)),
      (''total'', json_opt JStr (rf_total f)),
      (''purchase_order_id'', JStr (uuid_text (rf_purchase_order_id f))),
      (''document_id'', JStr (uuid_text (rf_document_id f))),
      (''amount_difference'', JStr (decimal_string amount_difference))]"

definition risk_signal ::
  "risk_signal_code \<Rightarrow> risk_severity \<Rightarrow> risk_features \<Rightarrow> (string \<times> json) list \<Rightarrow> (string \<times> json) list
    \<Rightarrow> string \<Rightarrow> risk_signal_draft" where
  "risk_signal code severity reference observed expected explanation = \<lparr>
     sg_code = code, sg_severity = severity,
     sg_comparison_match_run_id = Some (rf_match_run_id reference),
     sg_observed = observed, sg_reference = expected, sg_explanation = explanation\<rparr>"

text \<open>The values the assertions of \<^verbatim>\<open>_compare\<close> require; \<open>None\<close> is a failed assertion.\<close>

definition feature_values :: "risk_features \<Rightarrow> (string \<times> string \<times> date \<times> string \<times> decimal) option" where
  "feature_values f =
     (case (rf_normalized_vendor f, rf_normalized_invoice_number f, rf_invoice_date f, rf_currency f,
            rf_total f) of
        (Some v, Some n, Some d, Some c, Some t) \<Rightarrow> map_option (\<lambda>x. (v, n, d, c, x)) (decimal_of_string t)
      | _ \<Rightarrow> None)"

definition number_similarity :: "lib \<Rightarrow> string \<Rightarrow> string \<Rightarrow> decimal" where
  "number_similarity lib a b =
     (case ddiv (ratio_decimal lib a b) (Scaled 100 0) of Some x \<Rightarrow> x | None \<Rightarrow> dzero)"

type_synonym key_values = "string \<times> string \<times> date \<times> string \<times> decimal"

definition exact_key :: "risk_policy \<Rightarrow> key_values \<Rightarrow> key_values \<Rightarrow> bool" where
  "exact_key policy x y =
     (case (x, y) of ((cv, cn, cd, cc, ct), (rv, rn, rd, rc, rt)) \<Rightarrow>
        cv = rv \<and> cn = rn \<and> cd = rd \<and> cc = rc
        \<and> dle (dabs (dsub ct rt)) (rp_amount_absolute_tolerance policy))"

definition near_key :: "lib \<Rightarrow> risk_policy \<Rightarrow> key_values \<Rightarrow> key_values \<Rightarrow> bool" where
  "near_key lib policy x y =
     (case (x, y) of ((cv, cn, cd, cc, ct), (rv, rn, rd, rc, rt)) \<Rightarrow>
        \<not> exact_key policy x y \<and> cv = rv \<and> cc = rc
        \<and> dle (dabs (dsub ct rt)) (rp_amount_absolute_tolerance policy)
        \<and> \<bar>cd - rd\<bar> \<le> rp_date_window_days policy
        \<and> dle (rp_invoice_number_similarity_threshold policy) (number_similarity lib cn rn))"

definition same_number :: "key_values \<Rightarrow> key_values \<Rightarrow> bool" where
  "same_number x y = (fst (snd x) = fst (snd y))"

definition same_vendor :: "key_values \<Rightarrow> key_values \<Rightarrow> bool" where
  "same_vendor x y = (fst x = fst y)"

definition near_signal ::
  "lib \<Rightarrow> risk_features \<Rightarrow> risk_policy \<Rightarrow> key_values \<Rightarrow> key_values \<Rightarrow> (string \<times> json) list
    \<Rightarrow> (string \<times> json) list \<Rightarrow> risk_signal_draft" where
  "near_signal lib reference policy x y observed expected =
     (case (x, y) of ((cv, cn, cd, cc, ct), (rv, rn, rd, rc, rt)) \<Rightarrow>
        risk_signal NEAR_DUPLICATE RISK_WARNING reference
          (observed @ [(''invoice_number_similarity'', JStr (decimal_string (number_similarity lib cn rn))),
                       (''date_distance_days'', JInt \<bar>cd - rd\<bar>)])
          (expected @ [(''minimum_similarity'',
                          JStr (decimal_string (rp_invoice_number_similarity_threshold policy))),
                       (''maximum_date_distance_days'', JInt (rp_date_window_days policy))])
          ''A prior invoice from the same vendor has a sufficiently similar invoice number, close date and total, and the same currency.'')"

definition compare_features ::
  "lib \<Rightarrow> risk_features \<Rightarrow> risk_features \<Rightarrow> risk_policy \<Rightarrow> risk_signal_draft list option" where
  "compare_features lib current reference policy =
     (case (feature_values current, feature_values reference) of
        (Some x, Some y) \<Rightarrow>
          let amount_difference = dabs (dsub (snd (snd (snd (snd x)))) (snd (snd (snd (snd y)))));
              same_po = (rf_purchase_order_id current = rf_purchase_order_id reference);
              observed = comparison_values current amount_difference;
              expected = comparison_values reference dzero
          in Some (
            (if exact_key policy x y
             then [risk_signal EXACT_BUSINESS_KEY_DUPLICATE RISK_CRITICAL reference observed expected
                     ''Vendor, invoice number, date and currency match a prior invoice and the total is within the configured absolute tolerance.'']
             else if same_vendor x y \<and> same_number x y
             then [risk_signal REUSED_VENDOR_INVOICE_NUMBER RISK_WARNING reference observed expected
                     ''The vendor and invoice number match a prior invoice, but another material business-key value differs.'']
             else [])
            @ (if same_po \<and> same_number x y
               then [risk_signal SAME_PO_INVOICE_REPLAY RISK_CRITICAL reference observed expected
                       ''The same invoice number was previously processed against this purchase order.'']
               else [])
            @ (if near_key lib policy x y
               then [near_signal lib reference policy x y observed expected] else []))
      | _ \<Rightarrow> None)"

lemma risk_signal_simps [simp]:
  "sg_code (risk_signal c v r obs e m) = c"
  "sg_comparison_match_run_id (risk_signal c v r obs e m) = Some (rf_match_run_id r)"
  by (simp_all add: risk_signal_def)

lemma near_signal_simps [simp]:
  "sg_code (near_signal lib r p x y obs e) = NEAR_DUPLICATE"
  "sg_comparison_match_run_id (near_signal lib r p x y obs e) = Some (rf_match_run_id r)"
  by (simp_all add: near_signal_def split: prod.split)

subsection \<open>The assessment\<close>

definition deduplicate :: "risk_signal_draft list \<Rightarrow> risk_signal_draft list" where
  "deduplicate signals =
     map snd (dict_of (map (\<lambda>s. ((sg_code s, sg_comparison_match_run_id s), s)) signals))"

text \<open>The sort key; no identifier sorts before every identifier, as the empty text does.\<close>

definition signal_key :: "risk_signal_draft \<Rightarrow> nat \<times> nat" where
  "signal_key s =
     (signal_order (sg_code s), case sg_comparison_match_run_id s of None \<Rightarrow> 0 | Some u \<Rightarrow> Suc u)"

definition incomplete_signal :: "risk_features \<Rightarrow> risk_signal_draft" where
  "incomplete_signal current = \<lparr>
     sg_code = DUPLICATE_CHECK_INCOMPLETE, sg_severity = RISK_WARNING,
     sg_comparison_match_run_id = None,
     sg_observed = [(''missing_fields'', JArr (map JStr (rf_missing_fields current)))],
     sg_reference = [(''required_fields'', JArr (map JStr required_fields))],
     sg_explanation = ''Duplicate comparison is incomplete because required business-key features are unavailable: ''
       @ py_join '', '' (rf_missing_fields current) @ ''.''\<rparr>"

definition comparable :: "risk_features \<Rightarrow> risk_features \<Rightarrow> bool" where
  "comparable current reference \<longleftrightarrow>
     features_complete reference \<and> rf_match_run_id reference \<noteq> rf_match_run_id current
     \<and> rf_document_id reference \<noteq> rf_document_id current"

definition raw_signals ::
  "lib \<Rightarrow> risk_features \<Rightarrow> risk_features list \<Rightarrow> risk_policy \<Rightarrow> risk_signal_draft list option" where
  "raw_signals lib current historical policy =
     (if \<not> features_complete current then Some [incomplete_signal current]
      else map_option concat (all_some (map (\<lambda>r. compare_features lib current r policy)
             (filter (comparable current) historical))))"

definition disposition_of :: "risk_policy \<Rightarrow> risk_signal_draft list \<Rightarrow> risk_disposition" where
  "disposition_of policy signals =
     (let duplicate_found = list_ex (\<lambda>s. sg_code s \<noteq> DUPLICATE_CHECK_INCOMPLETE) signals;
          incomplete = list_ex (\<lambda>s. sg_code s = DUPLICATE_CHECK_INCOMPLETE) signals
      in if duplicate_found \<or> (incomplete \<and> rp_route_incomplete_to_review policy) then RISK_NEEDS_REVIEW
         else if incomplete then NOT_ASSESSABLE else CLEAR)"

text \<open>\<open>None\<close> is the failed assertion of a comparison.\<close>

definition assess_duplicate_risk ::
  "lib \<Rightarrow> risk_features \<Rightarrow> risk_features list \<Rightarrow> risk_policy \<Rightarrow> risk_result option" where
  "assess_duplicate_risk lib current historical policy =
     map_option (\<lambda>signals.
         let ordered = sort_key signal_key (deduplicate signals)
         in \<lparr>rr_disposition = disposition_of policy ordered, rr_features = current, rr_signals = ordered\<rparr>)
       (raw_signals lib current historical policy)"

subsection \<open>Signals\<close>

definition signal_id :: "risk_signal_draft \<Rightarrow> risk_signal_code \<times> uuid option" where
  "signal_id s = (sg_code s, sg_comparison_match_run_id s)"

lemma deduplicate_subset: "set (deduplicate xs) \<subseteq> set xs"
  using set_dict_of [of "map (\<lambda>s. ((sg_code s, sg_comparison_match_run_id s), s)) xs"]
  by (auto simp: deduplicate_def)

lemma deduplicate_ids: "map signal_id (deduplicate xs)
    = map fst (dict_of (map (\<lambda>s. ((sg_code s, sg_comparison_match_run_id s), s)) xs))"
  using set_dict_of [of "map (\<lambda>s. ((sg_code s, sg_comparison_match_run_id s), s)) xs"]
  by (auto simp: deduplicate_def signal_id_def)

lemma deduplicate_distinct: "distinct (map signal_id (deduplicate xs))"
  by (simp add: deduplicate_ids dict_of_distinct)

lemma deduplicate_id_set: "signal_id ` set (deduplicate xs) = signal_id ` set xs"
proof -
  have "signal_id ` set (deduplicate xs) = set (map signal_id (deduplicate xs))" by simp
  also have "\<dots> = signal_id ` set xs"
    by (simp only: deduplicate_ids set_map dict_of_keys) (simp add: signal_id_def image_image)
  finally show ?thesis .
qed

lemma deduplicate_codes: "sg_code ` set (deduplicate xs) = sg_code ` set xs"
  using arg_cong [OF deduplicate_id_set [of xs], of "(`) fst"] by (simp add: signal_id_def image_image)

lemma deduplicate_Nil_iff: "deduplicate xs = [] \<longleftrightarrow> xs = []"
  using deduplicate_id_set [of xs] by auto

lemma signal_order_inj: "signal_order c = signal_order d \<longleftrightarrow> c = d"
  by (cases c; cases d) simp_all

lemma signal_key_eq_iff: "signal_key s = signal_key t \<longleftrightarrow> signal_id s = signal_id t"
  by (auto simp: signal_key_def signal_id_def signal_order_inj split: option.splits)

lemma compare_features_refs:
  assumes "compare_features lib current reference policy = Some ss" and "s \<in> set ss"
  shows "sg_comparison_match_run_id s = Some (rf_match_run_id reference)
    \<and> sg_code s \<noteq> DUPLICATE_CHECK_INCOMPLETE"
  using assms by (auto simp: compare_features_def Let_def split: option.splits if_splits)

lemma all_some_map:
  "all_some (map f xs) = Some ys \<longleftrightarrow> (\<forall>x \<in> set xs. f x \<noteq> None) \<and> ys = map (\<lambda>x. the (f x)) xs"
proof (induction xs arbitrary: ys)
  case (Cons x xs)
  then show ?case by (cases "f x") auto
qed auto

abbreviation comparables :: "risk_features \<Rightarrow> risk_features list \<Rightarrow> risk_features set" where
  "comparables current historical \<equiv> {h \<in> set historical. comparable current h}"

lemma raw_signals_complete:
  assumes "features_complete current" and "raw_signals lib current historical policy = Some ss"
  shows "h \<in> comparables current historical \<Longrightarrow> \<exists>cs. compare_features lib current h policy = Some cs"
    and "set ss = (\<Union>h \<in> comparables current historical. set (the (compare_features lib current h policy)))"
  using assms by (auto simp: raw_signals_def all_some_map)

lemma raw_signals_member:
  assumes "features_complete current" and "raw_signals lib current historical policy = Some ss" and "s \<in> set ss"
  obtains h cs where "h \<in> comparables current historical"
    and "compare_features lib current h policy = Some cs" and "s \<in> set cs"
  using assms raw_signals_complete [OF assms(1,2)] by fastforce

lemma assess_fields:
  assumes "assess_duplicate_risk lib current historical policy = Some r"
  obtains ss where "raw_signals lib current historical policy = Some ss"
    and "rr_signals r = sort_key signal_key (deduplicate ss)"
    and "rr_disposition r = disposition_of policy (rr_signals r)"
  using assms by (auto simp: assess_duplicate_risk_def Let_def)

text \<open>
  An invoice is CLEAR of duplicate risk exactly when its features are complete and no comparable
  earlier invoice gives a signal; it goes to review exactly when there is a duplicate signal, or the
  features are incomplete and the policy routes that to review; it is NOT_ASSESSABLE otherwise.
\<close>

theorem risk_disposition_characterized:
  assumes "assess_duplicate_risk lib current historical policy = Some r"
  shows "(rr_disposition r = CLEAR \<longleftrightarrow> features_complete current
      \<and> (\<forall>h \<in> set historical. comparable current h \<longrightarrow> compare_features lib current h policy = Some []))
    \<and> (rr_disposition r = NOT_ASSESSABLE \<longleftrightarrow>
        \<not> features_complete current \<and> \<not> rp_route_incomplete_to_review policy)"
  using assms
proof (cases rule: assess_fields)
  case (1 ss)
  have codes: "sg_code ` set (rr_signals r) = sg_code ` set ss"
    by (simp add: 1(2) deduplicate_codes)
  show ?thesis
  proof (cases "features_complete current")
    case False
    then have "ss = [incomplete_signal current]" using 1(1) by (simp add: raw_signals_def)
    with codes have "sg_code ` set (rr_signals r) = {DUPLICATE_CHECK_INCOMPLETE}"
      by (simp add: incomplete_signal_def)
    then have "list_ex (\<lambda>s. sg_code s = DUPLICATE_CHECK_INCOMPLETE) (rr_signals r)"
      and "\<not> list_ex (\<lambda>s. sg_code s \<noteq> DUPLICATE_CHECK_INCOMPLETE) (rr_signals r)"
      unfolding list_ex_iff by (metis imageE insertI1, metis imageI singletonD)
    with False 1(3) show ?thesis by (simp add: disposition_of_def Let_def)
  next
    case True
    have "sg_code s \<noteq> DUPLICATE_CHECK_INCOMPLETE" if "s \<in> set ss" for s
      using raw_signals_member [OF True 1(1) that] compare_features_refs by metis
    then have none: "\<not> list_ex (\<lambda>s. sg_code s = DUPLICATE_CHECK_INCOMPLETE) (rr_signals r)"
      unfolding list_ex_iff using codes by (metis imageE imageI)
    then have disposition: "rr_disposition r = (if rr_signals r = [] then CLEAR else RISK_NEEDS_REVIEW)"
      using 1(3) by (auto simp: disposition_of_def Let_def list_ex_iff)
    have "rr_signals r = [] \<longleftrightarrow> set ss = {}"
      by (metis 1(2) deduplicate_Nil_iff length_0_conv length_sort set_empty)
    also have "\<dots> \<longleftrightarrow>
        (\<forall>h \<in> set historical. comparable current h \<longrightarrow> compare_features lib current h policy = Some [])"
    proof -
      have "set (the (compare_features lib current h policy)) = {}
          \<longleftrightarrow> compare_features lib current h policy = Some []" if "h \<in> comparables current historical" for h
        using raw_signals_complete(1) [OF True 1(1) that] by auto
      then show ?thesis unfolding raw_signals_complete(2) [OF True 1(1)] by auto
    qed
    finally show ?thesis using True disposition by (metis risk_disposition.distinct)
  qed
qed

lemma no_self_signal:
  assumes "raw_signals lib current historical policy = Some ss" and s: "s \<in> set ss"
  shows "sg_comparison_match_run_id s \<noteq> Some (rf_match_run_id current)"
proof (cases "features_complete current")
  case True
  then obtain h cs where h: "comparable current h" "compare_features lib current h policy = Some cs"
    "s \<in> set cs"
    using raw_signals_member [OF True assms] by blast
  from compare_features_refs [OF h(2,3)] h(1) show ?thesis by (simp add: comparable_def)
next
  case False
  with assms show ?thesis by (auto simp: raw_signals_def incomplete_signal_def)
qed

text \<open>
  The signals of an assessment are in the order of severity of their codes and then of the
  earlier match run, no pair of code and earlier run occurs twice, and no signal refers to the
  invoice's own match run.
\<close>

theorem risk_signals_ordered:
  assumes "assess_duplicate_risk lib current historical policy = Some r"
  shows "sorted (map signal_key (rr_signals r)) \<and> distinct (map signal_id (rr_signals r))
    \<and> Some (rf_match_run_id current) \<notin> sg_comparison_match_run_id ` set (rr_signals r)"
  using assms
proof (cases rule: assess_fields)
  case (1 ss)
  have "Some (rf_match_run_id current) \<notin> sg_comparison_match_run_id ` set (rr_signals r)"
    using no_self_signal [OF 1(1)] deduplicate_subset [of ss] by (auto simp: 1(2)) (metis subsetD)
  then show ?thesis by (simp add: 1(2) deduplicate_distinct)
qed

text \<open>What the business key of two invoices agrees on.\<close>

definition same_business_key :: "risk_policy \<Rightarrow> risk_features \<Rightarrow> risk_features \<Rightarrow> bool" where
  "same_business_key policy f g \<longleftrightarrow>
     rf_normalized_vendor f = rf_normalized_vendor g
     \<and> rf_normalized_invoice_number f = rf_normalized_invoice_number g
     \<and> rf_invoice_date f = rf_invoice_date g \<and> rf_currency f = rf_currency g
     \<and> (\<exists>t u. map_option decimal_of_string (rf_total f) = Some (Some t)
          \<and> map_option decimal_of_string (rf_total g) = Some (Some u)
          \<and> dle (dabs (dsub t u)) (rp_amount_absolute_tolerance policy))"

lemma compare_exact_iff:
  assumes "compare_features lib current reference policy = Some ss"
  shows "EXACT_BUSINESS_KEY_DUPLICATE \<in> sg_code ` set ss \<longleftrightarrow> same_business_key policy current reference"
proof -
  obtain x y where xy: "feature_values current = Some x" "feature_values reference = Some y"
    using assms by (auto simp: compare_features_def split: option.splits)
  then have "same_business_key policy current reference \<longleftrightarrow> exact_key policy x y"
    by (auto simp: same_business_key_def exact_key_def feature_values_def split: option.splits prod.splits)
  then show ?thesis
    using assms xy by (auto simp: compare_features_def Let_def split: if_splits)
qed

text \<open>
  C23: an exact duplicate is always flagged and sent to review. The assessment of an invoice with complete
  features carries an \<^verbatim>\<open>EXACT_BUSINESS_KEY_DUPLICATE\<close> signal exactly when some comparable earlier invoice has
  the same vendor, invoice number, date and currency and a total within the tolerance; each such earlier invoice has
  its own signal, and the assessment then requires review.
\<close>

theorem exact_duplicate_flagged:
  assumes "assess_duplicate_risk lib current historical policy = Some r" and "features_complete current"
  shows "(EXACT_BUSINESS_KEY_DUPLICATE \<in> sg_code ` set (rr_signals r)
      \<longleftrightarrow> (\<exists>h \<in> set historical. comparable current h \<and> same_business_key policy current h))
    \<and> (\<forall>h \<in> set historical. comparable current h \<and> same_business_key policy current h \<longrightarrow>
        rr_disposition r = RISK_NEEDS_REVIEW
        \<and> (\<exists>s \<in> set (rr_signals r). sg_code s = EXACT_BUSINESS_KEY_DUPLICATE \<and> sg_comparison_match_run_id s = Some (rf_match_run_id h)))"
  using assms(1)
proof (cases rule: assess_fields)
  case (1 ss)
  note complete = raw_signals_complete [OF assms(2) 1(1)]
  have exact: "EXACT_BUSINESS_KEY_DUPLICATE \<in> sg_code ` set (the (compare_features lib current h policy))
      \<longleftrightarrow> same_business_key policy current h" if "h \<in> comparables current historical" for h
    using complete(1) [OF that] compare_exact_iff by fastforce
  have "sg_code ` set (rr_signals r)
      = (\<Union>h \<in> comparables current historical. sg_code ` set (the (compare_features lib current h policy)))"
    by (simp add: 1(2) deduplicate_codes complete(2) image_UN)
  then have iff: "EXACT_BUSINESS_KEY_DUPLICATE \<in> sg_code ` set (rr_signals r)
      \<longleftrightarrow> (\<exists>h \<in> set historical. comparable current h \<and> same_business_key policy current h)"
    using exact by auto
  have ids: "signal_id ` set (rr_signals r) = signal_id ` set ss" by (simp add: 1(2) deduplicate_id_set)
  have "rr_disposition r = RISK_NEEDS_REVIEW
      \<and> (\<exists>s \<in> set (rr_signals r). sg_code s = EXACT_BUSINESS_KEY_DUPLICATE \<and> sg_comparison_match_run_id s = Some (rf_match_run_id h))"
    if h: "h \<in> set historical" "comparable current h" "same_business_key policy current h" for h
  proof -
    have "h \<in> comparables current historical" using h by simp
    with exact h(3) complete obtain s where s: "s \<in> set (the (compare_features lib current h policy))"
      "s \<in> set ss" "sg_code s = EXACT_BUSINESS_KEY_DUPLICATE" by fastforce
    with complete(1) [OF \<open>h \<in> comparables current historical\<close>] have ref: "sg_comparison_match_run_id s = Some (rf_match_run_id h)"
      using compare_features_refs by fastforce
    with s(2,3) ids have "signal_id s \<in> signal_id ` set (rr_signals r)" by simp
    then obtain t where t: "t \<in> set (rr_signals r)" "sg_code t = EXACT_BUSINESS_KEY_DUPLICATE"
      "sg_comparison_match_run_id t = Some (rf_match_run_id h)" using s(3) ref by (auto simp: signal_id_def)
    then have "list_ex (\<lambda>s. sg_code s \<noteq> DUPLICATE_CHECK_INCOMPLETE) (rr_signals r)" by (force simp: list_ex_iff)
    with 1(3) t show ?thesis by (auto simp: disposition_of_def Let_def)
  qed
  with iff show ?thesis by blast
qed

subsection \<open>Witnesses\<close>

definition sample_features :: "uuid \<Rightarrow> uuid \<Rightarrow> risk_features" where
  "sample_features run doc = \<lparr>rf_normalized_vendor = Some ''acme'', rf_normalized_invoice_number = Some ''inv1'',
     rf_invoice_date = Some 738000, rf_currency = Some ''EUR'', rf_total = Some ''20'',
     rf_purchase_order_id = 7, rf_document_id = doc, rf_extraction_run_id = 4, rf_match_run_id = run,
     rf_missing_fields = []\<rparr>"

lemma sample_assessed:
  "\<exists>r. assess_duplicate_risk sample_lib (sample_features 2 3) [sample_features 1 2] default_risk_policy = Some r"
proof -
  have "feature_values (sample_features 2 3) = Some (''acme'', ''inv1'', 738000, ''EUR'', Scaled 20 0)"
    and "feature_values (sample_features 1 2) = Some (''acme'', ''inv1'', 738000, ''EUR'', Scaled 20 0)"
    by code_simp+
  then have "compare_features sample_lib (sample_features 2 3) (sample_features 1 2) default_risk_policy \<noteq> None"
    by (simp add: compare_features_def Let_def)
  then show ?thesis
    by (auto simp: assess_duplicate_risk_def raw_signals_def comparable_def features_complete_def
        sample_features_def)
qed

lemma sample_same_key:
  "features_complete (sample_features 2 3)" "comparable (sample_features 2 3) (sample_features 1 2)"
  "same_business_key default_risk_policy (sample_features 2 3) (sample_features 1 2)"
proof -
  have "decimal_of_string ''20'' = Some (Scaled 20 0)"
    and "dle (dabs (dsub (Scaled 20 0) (Scaled 20 0))) (rp_amount_absolute_tolerance default_risk_policy)"
    by code_simp+
  then show "same_business_key default_risk_policy (sample_features 2 3) (sample_features 1 2)"
    by (simp add: same_business_key_def sample_features_def)
qed (simp_all add: features_complete_def comparable_def sample_features_def)

theorem risk_disposition_characterized_witness:
  "\<exists>r. assess_duplicate_risk sample_lib (sample_features 2 3) [sample_features 1 2] default_risk_policy = Some r
     \<and> rr_disposition r \<noteq> NOT_ASSESSABLE"
  using sample_assessed risk_disposition_characterized sample_same_key(1) by blast

theorem risk_signals_ordered_witness:
  "\<exists>r. assess_duplicate_risk sample_lib (sample_features 2 3) [sample_features 1 2] default_risk_policy = Some r
     \<and> sorted (map signal_key (rr_signals r))"
  using sample_assessed risk_signals_ordered by blast

theorem exact_duplicate_flagged_witness:
  "\<exists>r. assess_duplicate_risk sample_lib (sample_features 2 3) [sample_features 1 2] default_risk_policy = Some r
     \<and> EXACT_BUSINESS_KEY_DUPLICATE \<in> sg_code ` set (rr_signals r) \<and> rr_disposition r = RISK_NEEDS_REVIEW"
proof -
  obtain r where r: "assess_duplicate_risk sample_lib (sample_features 2 3) [sample_features 1 2]
      default_risk_policy = Some r"
    using sample_assessed by blast
  then show ?thesis
    using exact_duplicate_flagged [OF r sample_same_key(1)] sample_same_key(2,3) by auto
qed

end
