(* ===== verification/Risk_Service.thy ===== *)
theory Risk_Service
  imports Risk
begin

text \<open>
  The duplicate-risk service (\<^verbatim>\<open>invoiceops/risk/service.py\<close>) with the rows of match runs, feature
  records and assessments (\<^verbatim>\<open>invoiceops/models.py\<close>). The query for candidate records is a filter
  on the table; identifiers and the time are arguments.
\<close>

subsection \<open>Rows\<close>

record match_run =
  mrun_id :: uuid
  mrun_document_id :: uuid
  mrun_purchase_order_id :: uuid
  mrun_extraction_run_id :: uuid
  mrun_policy_version :: string
  mrun_policy_snapshot :: json
  mrun_matching_mode :: matching_mode
  mrun_context_fingerprint :: string
  mrun_risk_policy_version :: string
  mrun_decision :: match_decision
  mrun_result :: match_result
  mrun_created_at :: datetime

record feature_record =
  fr_id :: uuid
  fr_match_run_id :: uuid
  fr_normalized_vendor :: "string option"
  fr_normalized_invoice_number :: "string option"
  fr_invoice_date :: "date option"
  fr_currency :: "string option"
  fr_total :: "decimal option"
  fr_purchase_order_id :: uuid
  fr_document_id :: uuid
  fr_extraction_run_id :: uuid
  fr_missing_fields :: "string list"
  fr_created_at :: datetime

record risk_metrics =
  km_historical_record_count :: nat
  km_candidate_record_count :: nat
  km_candidate_reduction_rate :: decimal
  km_comparison_count :: nat

record risk_signal_row =
  sr_id :: uuid
  sr_signal :: risk_signal_draft

record risk_assessment =
  ra_id :: uuid
  ra_match_run_id :: uuid
  ra_policy_version :: string
  ra_policy_snapshot :: risk_policy
  ra_disposition :: risk_disposition
  ra_feature_snapshot :: risk_features
  ra_candidate_metrics :: risk_metrics
  ra_created_at :: datetime
  ra_signals :: "risk_signal_row list"

record risk_db =
  kdb_records :: "feature_record list"
  kdb_assessments :: "risk_assessment list"

datatype risk_error =
    RiskAssessmentNotFoundError
  | RiskAssertionError
  | RiskSelfComparisonError
  | RiskMetricsValidationError

subsection \<open>Features\<close>

definition vendor_feature :: "purchase_order \<Rightarrow> string option" where
  "vendor_feature po =
     (case po_vendor_name po of
        None \<Rightarrow> None
      | Some v \<Rightarrow> if v = [] \<or> normalize_vendor v = [] then None else Some (normalize_vendor v))"

definition number_feature :: "invoice \<Rightarrow> string option" where
  "number_feature invoice =
     (case extracted_value (inv_invoice_number invoice) of
        None \<Rightarrow> None
      | Some n \<Rightarrow> if normalize_invoice_number n = [] then None else Some (normalize_invoice_number n))"

definition missing_if :: "string \<Rightarrow> 'a option \<Rightarrow> string list" where
  "missing_if label v = (if v = None then [label] else [])"

definition build_feature_snapshot :: "match_run \<Rightarrow> purchase_order \<Rightarrow> invoice \<Rightarrow> risk_features" where
  "build_feature_snapshot run po invoice =
     (let vendor = vendor_feature po; number = number_feature invoice;
          date = extracted_value (inv_invoice_date invoice);
          currency = extracted_value (inv_currency invoice);
          total = extracted_value (inv_total invoice)
      in \<lparr>rf_normalized_vendor = vendor, rf_normalized_invoice_number = number,
          rf_invoice_date = date, rf_currency = map_option py_upper currency,
          rf_total = map_option decimal_string total,
          rf_purchase_order_id = mrun_purchase_order_id run, rf_document_id = mrun_document_id run,
          rf_extraction_run_id = mrun_extraction_run_id run, rf_match_run_id = mrun_id run,
          rf_missing_fields = missing_if ''normalized_vendor'' vendor
            @ missing_if ''normalized_invoice_number'' number @ missing_if ''invoice_date'' date
            @ missing_if ''currency'' currency @ missing_if ''total'' total\<rparr>)"

definition record_to_snapshot :: "feature_record \<Rightarrow> risk_features" where
  "record_to_snapshot r = \<lparr>
     rf_normalized_vendor = fr_normalized_vendor r,
     rf_normalized_invoice_number = fr_normalized_invoice_number r,
     rf_invoice_date = fr_invoice_date r, rf_currency = fr_currency r,
     rf_total = map_option decimal_string (fr_total r),
     rf_purchase_order_id = fr_purchase_order_id r, rf_document_id = fr_document_id r,
     rf_extraction_run_id = fr_extraction_run_id r, rf_match_run_id = fr_match_run_id r,
     rf_missing_fields = fr_missing_fields r\<rparr>"

text \<open>\<^verbatim>\<open>Decimal(features.total)\<close> reads the text that \<^verbatim>\<open>format(total, "f")\<close> wrote.\<close>

definition record_of_features :: "lib \<Rightarrow> uuid \<Rightarrow> datetime \<Rightarrow> risk_features \<Rightarrow> feature_record" where
  "record_of_features lib new_id now f = \<lparr>
     fr_id = new_id, fr_match_run_id = rf_match_run_id f,
     fr_normalized_vendor = rf_normalized_vendor f,
     fr_normalized_invoice_number = rf_normalized_invoice_number f,
     fr_invoice_date = rf_invoice_date f, fr_currency = rf_currency f,
     fr_total = map_option (\<lambda>t. numeric_column lib
       (case decimal_of_string t of Some d \<Rightarrow> d | None \<Rightarrow> dzero)) (rf_total f),
     fr_purchase_order_id = rf_purchase_order_id f, fr_document_id = rf_document_id f,
     fr_extraction_run_id = rf_extraction_run_id f, fr_missing_fields = rf_missing_fields f,
     fr_created_at = now\<rparr>"

subsection \<open>The service\<close>

definition find_record :: "risk_db \<Rightarrow> uuid \<Rightarrow> feature_record option" where
  "find_record db run = find_row (\<lambda>r. fr_match_run_id r = run) (kdb_records db)"

definition find_for_match :: "risk_db \<Rightarrow> uuid \<Rightarrow> string \<Rightarrow> risk_assessment option" where
  "find_for_match db run version =
     find_row (\<lambda>a. ra_match_run_id a = run \<and> ra_policy_version a = version) (kdb_assessments db)"

definition risk_get :: "risk_db \<Rightarrow> uuid \<Rightarrow> (risk_error, risk_assessment) result" where
  "risk_get db aid =
     (case find_row (\<lambda>a. ra_id a = aid) (kdb_assessments db) of
        None \<Rightarrow> Inl RiskAssessmentNotFoundError | Some a \<Rightarrow> Inr a)"

definition risk_get_for_match ::
  "match_run list \<Rightarrow> risk_db \<Rightarrow> uuid \<Rightarrow> (risk_error, risk_assessment) result" where
  "risk_get_for_match runs db run =
     (case find_row (\<lambda>r. mrun_id r = run) runs of
        None \<Rightarrow> Inl RiskAssessmentNotFoundError
      | Some r \<Rightarrow>
          (case find_for_match db run (mrun_risk_policy_version r) of
             None \<Rightarrow> Inl RiskAssessmentNotFoundError | Some a \<Rightarrow> Inr a))"

text \<open>\<^verbatim>\<open>select_effective_assessment\<close>: the assessment under the run's risk policy.\<close>

definition select_effective_assessment :: "risk_db \<Rightarrow> match_run \<Rightarrow> risk_assessment option" where
  "select_effective_assessment db run =
     find_row (\<lambda>a. ra_policy_version a = mrun_risk_policy_version run)
       (filter (\<lambda>a. ra_match_run_id a = mrun_id run) (kdb_assessments db))"

definition ensure_feature_record ::
  "lib \<Rightarrow> uuid \<Rightarrow> datetime \<Rightarrow> risk_features \<Rightarrow> risk_db \<Rightarrow> feature_record \<times> risk_db" where
  "ensure_feature_record lib new_id now f db =
     (case find_record db (rf_match_run_id f) of
        Some r \<Rightarrow> (r, db)
      | None \<Rightarrow> (let r = record_of_features lib new_id now f
                 in (r, db\<lparr>kdb_records := kdb_records db @ [r]\<rparr>)))"

definition other_invoice :: "feature_record \<Rightarrow> feature_record \<Rightarrow> bool" where
  "other_invoice current r \<longleftrightarrow>
     fr_match_run_id r \<noteq> fr_match_run_id current \<and> fr_document_id r \<noteq> fr_document_id current"

text \<open>SQL equality with a column that is NULL is not true.\<close>

definition truthy :: "string option \<Rightarrow> bool" where
  "truthy v = (case v of None \<Rightarrow> False | Some s \<Rightarrow> s \<noteq> [])"

definition plausible :: "risk_policy \<Rightarrow> feature_record \<Rightarrow> feature_record \<Rightarrow> bool" where
  "plausible policy current r \<longleftrightarrow>
     fr_purchase_order_id r = fr_purchase_order_id current
     \<or> (truthy (fr_normalized_vendor current) \<and> truthy (fr_normalized_invoice_number current)
        \<and> fr_normalized_vendor r = fr_normalized_vendor current
        \<and> fr_normalized_invoice_number r = fr_normalized_invoice_number current)
     \<or> (truthy (fr_normalized_vendor current) \<and> truthy (fr_currency current)
        \<and> (case (fr_invoice_date current, fr_invoice_date r) of
             (Some d, Some e) \<Rightarrow>
               fr_normalized_vendor r = fr_normalized_vendor current \<and> fr_currency r = fr_currency current
               \<and> d - rp_date_window_days policy \<le> e \<and> e \<le> d + rp_date_window_days policy
           | _ \<Rightarrow> False))"

definition candidate_records :: "risk_policy \<Rightarrow> feature_record \<Rightarrow> risk_db \<Rightarrow> nat \<times> feature_record list" where
  "candidate_records policy current db =
     (length (filter (other_invoice current) (kdb_records db)),
      sort_key (\<lambda>r. (dt_utc (fr_created_at r), fr_id r))
        (filter (\<lambda>r. other_invoice current r \<and> plausible policy current r) (kdb_records db)))"

definition reduction_rate :: "nat \<Rightarrow> nat \<Rightarrow> decimal" where
  "reduction_rate candidates historical =
     (if historical = 0 then dzero
      else case ddiv (Scaled (int candidates) 0) (Scaled (int historical) 0) of
             Some q \<Rightarrow> dsub (Scaled 1 0) q | None \<Rightarrow> dzero)"

text \<open>
  \<^verbatim>\<open>DuplicateRiskService.ensure\<close>. Identifier 0 of \<open>fresh\<close> is the feature record's, 1 the
  assessment's, the others the signals'. An exception undoes what was not committed.
\<close>

definition risk_ensure ::
  "lib \<Rightarrow> risk_policy \<Rightarrow> (nat \<Rightarrow> uuid) \<Rightarrow> datetime \<Rightarrow> match_run \<Rightarrow> purchase_order \<Rightarrow> invoice \<Rightarrow> risk_db
    \<Rightarrow> (risk_error, risk_assessment \<times> bool) result \<times> risk_db" where
  "risk_ensure lib policy fresh now run po invoice db =
     (let features = build_feature_snapshot run po invoice;
          (record, db1) = ensure_feature_record lib (fresh 0) now features db
      in case find_for_match db (mrun_id run) (rp_version policy) of
           Some existing \<Rightarrow> (Inr (existing, False), db1)
         | None \<Rightarrow>
             let (historical_count, candidates) = candidate_records policy record db1;
                 historical = map record_to_snapshot candidates
             in case assess_duplicate_risk lib features historical policy of
                  None \<Rightarrow> (Inl RiskAssertionError, db)
                | Some r \<Rightarrow>
                    let rate = reduction_rate (length candidates) historical_count;
                        metrics = \<lparr>km_historical_record_count = historical_count,
                          km_candidate_record_count = length candidates,
                          km_candidate_reduction_rate = rate,
                          km_comparison_count = length (filter (comparable features) historical)\<rparr>;
                        signals = map (\<lambda>(k, s). \<lparr>sr_id = fresh (k + 2), sr_signal = s\<rparr>)
                          (List.enumerate 0 (rr_signals r));
                        assessment = \<lparr>ra_id = fresh 1, ra_match_run_id = mrun_id run,
                          ra_policy_version = rp_version policy, ra_policy_snapshot = policy,
                          ra_disposition = rr_disposition r, ra_feature_snapshot = rr_features r,
                          ra_candidate_metrics = metrics, ra_created_at = now, ra_signals = signals\<rparr>
                    in if \<not> (dle dzero rate \<and> dle rate (Scaled 1 0)) then (Inl RiskMetricsValidationError, db)
                       else if list_ex (\<lambda>s. sg_comparison_match_run_id s = Some (mrun_id run)) (rr_signals r)
                       then (Inl RiskSelfComparisonError, db)
                       else (Inr (assessment, True),
                             db1\<lparr>kdb_assessments := kdb_assessments db1 @ [assessment]\<rparr>))"

subsection \<open>Features are well formed\<close>

definition features_ok :: "risk_features \<Rightarrow> bool" where
  "features_ok f \<longleftrightarrow> (features_complete f \<longrightarrow> feature_values f \<noteq> None)"

lemma decimal_string_parses: "\<exists>d. decimal_of_string (decimal_string x) = Some d"
  by (rule decimal_roundtrip_value [of x]) blast

lemma build_feature_snapshot_ok: "features_ok (build_feature_snapshot run po invoice)"
  using decimal_string_parses
  by (auto simp: features_ok_def features_complete_def build_feature_snapshot_def Let_def missing_if_def
      feature_values_def split: if_splits option.splits)

definition record_ok :: "feature_record \<Rightarrow> bool" where
  "record_ok r \<longleftrightarrow> features_ok (record_to_snapshot r)"

lemma record_of_features_ok: "features_ok f \<Longrightarrow> record_ok (record_of_features lib i now f)"
  using decimal_string_parses
  by (auto simp: record_ok_def features_ok_def features_complete_def record_of_features_def
      record_to_snapshot_def feature_values_def split: option.splits)

subsection \<open>Candidate blocking loses nothing\<close>

lemma raw_signals_filter:
  assumes "\<And>h. h \<in> set rs \<Longrightarrow> comparable f (snap h) \<Longrightarrow> \<not> Q h \<Longrightarrow> compare_features lib f (snap h) policy = Some []"
  shows "raw_signals lib f (map snap (filter Q rs)) policy = raw_signals lib f (map snap rs) policy"
proof (cases "features_complete f")
  case True
  have "map_option concat (all_some (map (\<lambda>r. compare_features lib f r policy)
      (filter (comparable f) (map snap (filter Q rs)))))
    = map_option concat (all_some (map (\<lambda>r. compare_features lib f r policy)
      (filter (comparable f) (map snap rs))))"
    using assms
  proof (induction rs)
    case (Cons h rs)
    then have IH: "map_option concat (all_some (map (\<lambda>r. compare_features lib f r policy)
        (filter (comparable f) (map snap (filter Q rs)))))
      = map_option concat (all_some (map (\<lambda>r. compare_features lib f r policy)
        (filter (comparable f) (map snap rs))))" by simp
    have pull: "map_option concat (map_option (Cons xs) y) = map_option ((@) xs) (map_option concat y)"
      for xs :: "risk_signal_draft list" and y by (cases y) auto
    have nil: "map_option ((@) []) y = y" for y :: "risk_signal_draft list option" by (cases y) auto
    show ?case
    proof (cases "compare_features lib f (snap h) policy")
      case None
      with Cons.prems [of h] IH show ?thesis by auto
    next
      case (Some cs)
      with Cons.prems [of h] IH show ?thesis by (cases "comparable f (snap h)"; cases "Q h") (auto simp: pull nil)
    qed
  qed simp
  with True show ?thesis by (simp add: raw_signals_def)
qed (simp add: raw_signals_def)

lemma implausible_no_signal:
  assumes ok: "record_ok h" and f: "features_ok f" "features_complete f"
    and h: "comparable f (record_to_snapshot h)"
    and match: "r = record_of_features lib i now f"
    and vals: "truthy (rf_normalized_vendor f)" "truthy (rf_normalized_invoice_number f)" "truthy (rf_currency f)"
    and no: "\<not> plausible policy r h"
  shows "compare_features lib f (record_to_snapshot h) policy = Some []"
proof -
  obtain x where x: "feature_values f = Some x" using f by (auto simp: features_ok_def)
  obtain y where y: "feature_values (record_to_snapshot h) = Some y"
    using ok h by (auto simp: record_ok_def features_ok_def comparable_def)
  have same: "rf_normalized_vendor f = Some (fst x)" "rf_normalized_invoice_number f = Some (fst (snd x))"
    "rf_invoice_date f = Some (fst (snd (snd x)))" "rf_currency f = Some (fst (snd (snd (snd x))))"
    "fr_normalized_vendor h = Some (fst y)" "fr_normalized_invoice_number h = Some (fst (snd y))"
    "fr_invoice_date h = Some (fst (snd (snd y)))" "fr_currency h = Some (fst (snd (snd (snd y))))"
    using x y by (auto simp: feature_values_def record_to_snapshot_def split: option.splits)
  note cols = same match vals no
  have "\<not> (same_vendor x y \<and> same_number x y)"
    using cols by (auto simp: plausible_def record_of_features_def same_vendor_def same_number_def)
  moreover from this have "\<not> exact_key policy x y"
    by (auto simp: exact_key_def same_vendor_def same_number_def split: prod.splits)
  moreover have "\<not> near_key lib policy x y"
    using cols by (auto simp: near_key_def plausible_def record_of_features_def split: prod.splits)
  moreover have "fr_purchase_order_id h \<noteq> rf_purchase_order_id f"
    using cols by (auto simp: plausible_def record_of_features_def)
  ultimately show ?thesis
    using x y by (simp add: compare_features_def Let_def record_to_snapshot_def)
qed

lemma feature_truthy:
  "truthy (rf_normalized_vendor (build_feature_snapshot run po invoice))
     \<longleftrightarrow> rf_normalized_vendor (build_feature_snapshot run po invoice) \<noteq> None"
  "truthy (rf_normalized_invoice_number (build_feature_snapshot run po invoice))
     \<longleftrightarrow> rf_normalized_invoice_number (build_feature_snapshot run po invoice) \<noteq> None"
  by (auto simp: build_feature_snapshot_def Let_def vendor_feature_def number_feature_def truthy_def
      split: option.splits)

lemma complete_features_present:
  "features_complete (build_feature_snapshot run po invoice) \<Longrightarrow>
    vendor_feature po \<noteq> None \<and> number_feature invoice \<noteq> None"
  by (auto simp: features_complete_def build_feature_snapshot_def Let_def missing_if_def split: if_splits)

lemma sort_by_created_filter:
  "sort_key (\<lambda>r. (dt_utc (fr_created_at r), fr_id r)) (filter P rs)
    = filter P (sort_key (\<lambda>r. (dt_utc (fr_created_at r), fr_id r)) rs)"
  by (simp add: filter_sort)

text \<open>
  C22: comparing an invoice only with the candidate records the query selects gives the same
  assessment as comparing it with every feature record of the table: the query loses no duplicate. The stored
  records are well formed (one with no missing field has its values, its total a decimal), as those are that the
  service stores, and the currency of the invoice is not the empty text.
\<close>

theorem risk_blocking_lossless:
  assumes "list_all record_ok (kdb_records db)"
    and "f = build_feature_snapshot run po invoice" and "rf_currency f \<noteq> Some []"
    and "r = record_of_features lib i now f"
  shows "assess_duplicate_risk lib f (map record_to_snapshot (snd (candidate_records policy r db))) policy
    = assess_duplicate_risk lib f (map record_to_snapshot
        (sort_key (\<lambda>r. (dt_utc (fr_created_at r), fr_id r)) (kdb_records db))) policy"
proof (cases "features_complete f")
  case True
  let ?rs = "sort_key (\<lambda>r. (dt_utc (fr_created_at r), fr_id r)) (kdb_records db)"
  have vals: "truthy (rf_normalized_vendor f)" "truthy (rf_normalized_invoice_number f)"
    using complete_features_present [of run po invoice] True feature_truthy [of run po invoice]
    by (auto simp: assms(2)) (auto simp: build_feature_snapshot_def Let_def)
  have "feature_values f \<noteq> None" using True build_feature_snapshot_ok by (simp add: assms(2) features_ok_def)
  then have "truthy (rf_currency f)"
    using assms(3) by (auto simp: feature_values_def truthy_def split: option.splits)
  have "compare_features lib f (record_to_snapshot h) policy = Some []"
    if "h \<in> set ?rs" "comparable f (record_to_snapshot h)"
      "\<not> (other_invoice r h \<and> plausible policy r h)" for h
  proof (rule implausible_no_signal [OF _ _ True that(2) assms(4) vals])
    show "record_ok h" using assms(1) that(1) by (simp add: list_all_iff)
    show "features_ok f" by (simp add: assms(2) build_feature_snapshot_ok)
    show "truthy (rf_currency f)" by fact
    show "\<not> plausible policy r h"
      using that(2,3) by (auto simp: comparable_def other_invoice_def assms(4) record_of_features_def
          record_to_snapshot_def)
  qed
  from raw_signals_filter [of ?rs f record_to_snapshot "\<lambda>h. other_invoice r h \<and> plausible policy r h",
      OF this]
  show ?thesis
    by (simp add: assess_duplicate_risk_def candidate_records_def sort_by_created_filter)
qed (simp add: assess_duplicate_risk_def raw_signals_def)

subsection \<open>Replays and errors\<close>

text \<open>A request carries its policy, match run, purchase order and invoice.\<close>

type_synonym risk_request = "risk_policy \<times> match_run \<times> purchase_order \<times> invoice"

definition risk_run ::
  "lib \<Rightarrow> (nat \<Rightarrow> uuid) \<times> datetime \<Rightarrow> risk_request \<Rightarrow> risk_db
    \<Rightarrow> (risk_error, risk_assessment \<times> bool) result \<times> risk_db" where
  "risk_run lib env c db =
     (case (env, c) of ((fresh, now), (policy, run, po, invoice)) \<Rightarrow>
        risk_ensure lib policy fresh now run po invoice db)"

definition risk_lookup :: "risk_request \<Rightarrow> risk_db \<Rightarrow> risk_assessment option" where
  "risk_lookup c db =
     (case c of (policy, run, po, invoice) \<Rightarrow>
        if find_record db (mrun_id run) = None then None
        else find_for_match db (mrun_id run) (rp_version policy))"

lemma rf_match_run_id_build [simp]: "rf_match_run_id (build_feature_snapshot run po invoice) = mrun_id run"
  by (simp add: build_feature_snapshot_def Let_def)

lemma ensure_feature_record_found:
  "ensure_feature_record lib i now f db = (r, db1) \<Longrightarrow>
    find_record db1 (rf_match_run_id f) = Some r \<and> kdb_assessments db1 = kdb_assessments db"
  by (auto simp: ensure_feature_record_def find_record_def find_row_append record_of_features_def Let_def
      split: option.splits)

lemma ensure_feature_record_hit:
  "find_record db (rf_match_run_id f) = Some r \<Longrightarrow> ensure_feature_record lib i now f db = (r, db)"
  by (simp add: ensure_feature_record_def)

lemma risk_ensure_stored:
  assumes "risk_ensure lib policy fresh now run po invoice db = (Inr (a, b), db')"
  shows "find_record db' (mrun_id run) \<noteq> None \<and> find_for_match db' (mrun_id run) (rp_version policy) = Some a"
proof -
  obtain r db1 where rec: "ensure_feature_record lib (fresh 0) now (build_feature_snapshot run po invoice) db = (r, db1)"
    by (cases "ensure_feature_record lib (fresh 0) now (build_feature_snapshot run po invoice) db")
  have found: "find_record db1 (mrun_id run) = Some r" "kdb_assessments db1 = kdb_assessments db"
    using ensure_feature_record_found [OF rec] by simp_all
  show ?thesis
  proof (cases "find_for_match db (mrun_id run) (rp_version policy)")
    case None
    with assms rec have "b" "db' = db1\<lparr>kdb_assessments := kdb_assessments db1 @ [a]\<rparr>"
      "ra_match_run_id a = mrun_id run" "ra_policy_version a = rp_version policy"
      by (auto simp: risk_ensure_def Let_def split: option.splits prod.splits if_splits)
    with None found show ?thesis
      by (simp add: find_for_match_def find_record_def find_row_append)
  next
    case (Some x)
    with assms rec found show ?thesis
      by (auto simp: risk_ensure_def Let_def find_for_match_def split: prod.splits)
  qed
qed

interpretation risk_replay: keyed_replay risk_lookup "\<lambda>c a. True" "risk_run lib" for lib
proof
  show "risk_run lib env c db = (Inr (a, False), db)" if "risk_lookup c db = Some a" for env c db a
    using that ensure_feature_record_hit
    by (cases env; cases c) (auto simp: risk_run_def risk_lookup_def risk_ensure_def Let_def split: if_splits)
  show "risk_lookup c db' = Some a \<and> True" if "risk_run lib env c db = (Inr (a, b), db')" for env c db a b db'
    using that by (cases env; cases c) (auto simp: risk_run_def risk_lookup_def dest: risk_ensure_stored)
qed

text \<open>
  Assessing the duplicate risk of a match run is idempotent: once it has succeeded, assessing the
  run again under the same policy version returns the stored assessment and writes nothing.
\<close>

theorem risk_ensure_idempotent:
  assumes "risk_ensure lib policy fresh now run po invoice db = (Inr (a, b), db')"
  shows "risk_ensure lib policy fresh' now' run po invoice db' = (Inr (a, False), db')"
  using risk_replay.replay_idempotent [of lib "(fresh, now)" "(policy, run, po, invoice)" db a b db'
      "(fresh', now')"] assms
  by (simp add: risk_run_def)

lemma assess_total:
  assumes "features_ok f" and "\<forall>h \<in> set hs. features_ok h"
  shows "\<exists>r. assess_duplicate_risk lib f hs policy = Some r"
proof -
  have "compare_features lib f h policy \<noteq> None" if "features_complete f" "h \<in> set hs" "comparable f h" for h
    using that assms by (auto simp: features_ok_def comparable_def compare_features_def Let_def)
  then have "\<exists>ss. raw_signals lib f hs policy = Some ss"
    by (cases "features_complete f") (auto simp: raw_signals_def all_some_map)
  then show ?thesis by (auto simp: assess_duplicate_risk_def)
qed

lemma ensure_feature_record_ok:
  assumes "ensure_feature_record lib i now f db = (r, db1)" and "features_ok f"
    and "list_all record_ok (kdb_records db)"
  shows "list_all record_ok (kdb_records db1)"
  using assms record_of_features_ok
  by (auto simp: ensure_feature_record_def Let_def split: option.splits)

text \<open>
  The internal checks of the risk service never fire. When every stored feature record that
  claims to be complete is, assessing a run raises no assertion and never compares the run with
  itself, and the table keeps that property.
\<close>

theorem risk_ensure_no_internal_error:
  assumes "list_all record_ok (kdb_records db)"
    and "risk_ensure lib policy fresh now run po invoice db = (res, db')"
  shows "res \<noteq> Inl RiskAssertionError \<and> res \<noteq> Inl RiskSelfComparisonError
    \<and> list_all record_ok (kdb_records db')"
proof -
  let ?f = "build_feature_snapshot run po invoice"
  obtain r db1 where rec: "ensure_feature_record lib (fresh 0) now ?f db = (r, db1)"
    by (cases "ensure_feature_record lib (fresh 0) now ?f db")
  have ok1: "list_all record_ok (kdb_records db1)"
    using ensure_feature_record_ok [OF rec build_feature_snapshot_ok assms(1)] .
  have "\<forall>h \<in> set (map record_to_snapshot (snd (candidate_records policy r db1))). features_ok h"
    using ok1 by (auto simp: candidate_records_def list_all_iff record_ok_def)
  then obtain a where a: "assess_duplicate_risk lib ?f
      (map record_to_snapshot (snd (candidate_records policy r db1))) policy = Some a"
    using assess_total [OF build_feature_snapshot_ok] by blast
  obtain ss where ss: "raw_signals lib ?f (map record_to_snapshot (snd (candidate_records policy r db1))) policy = Some ss"
    "rr_signals a = sort_key signal_key (deduplicate ss)"
    using assess_fields [OF a] by blast
  have "\<not> list_ex (\<lambda>s. sg_comparison_match_run_id s = Some (mrun_id run)) (rr_signals a)"
    using no_self_signal [OF ss(1)] deduplicate_subset [of ss] by (auto simp: list_ex_iff ss(2))
  then show ?thesis
    using assms rec a ok1
    by (auto simp: risk_ensure_def Let_def split: option.splits prod.splits if_splits)
qed

subsection \<open>Witnesses\<close>

definition sample_result :: match_result where
  "sample_result = \<lparr>mr_decision = MATCHED,
     mr_summary = \<lparr>ms_invoice_line_count = 1, ms_po_line_count = 1, ms_assigned_line_count = 1,
       ms_passed_check_count = 1, ms_failed_check_count = 0\<rparr>,
     mr_checks = [], mr_line_assignments = [], mr_reason_codes = []\<rparr>"

definition sample_run :: match_run where
  "sample_run = \<lparr>mrun_id = 2, mrun_document_id = 3, mrun_purchase_order_id = 7, mrun_extraction_run_id = 4,
     mrun_policy_version = ''matching-v3'', mrun_policy_snapshot = JNull, mrun_matching_mode = TWO_WAY,
     mrun_context_fingerprint = ''x'', mrun_risk_policy_version = ''duplicate-risk-v1'',
     mrun_decision = MATCHED, mrun_result = sample_result, mrun_created_at = sample_time 738100\<rparr>"

definition sample_risk_invoice :: invoice where
  "sample_risk_invoice = sample_invoice [(''bolt'', 2, 10)]"

definition sample_risk_po :: purchase_order where
  "sample_risk_po = sample_po [(''bolt'', 5, 10)]"

definition empty_risk_db :: risk_db where
  "empty_risk_db = \<lparr>kdb_records = [], kdb_assessments = []\<rparr>"

text \<open>The first run that is ever assessed succeeds.\<close>

lemma risk_ensure_empty:
  "\<exists>a rdb. risk_ensure lib policy fresh now run po invoice empty_risk_db = (Inr (a, True), rdb)"
proof -
  let ?f = "build_feature_snapshot run po invoice"
  let ?r = "record_of_features lib (fresh 0) now ?f"
  obtain x where x: "assess_duplicate_risk lib ?f [] policy = Some x"
    using assess_total [OF build_feature_snapshot_ok] by fastforce
  obtain ss where ss: "raw_signals lib ?f (map record_to_snapshot []) policy = Some ss"
    "rr_signals x = sort_key signal_key (deduplicate ss)"
    using assess_fields [OF x] by auto
  have "\<not> list_ex (\<lambda>s. sg_comparison_match_run_id s = Some (mrun_id run)) (rr_signals x)"
    using no_self_signal [OF ss(1)] deduplicate_subset [of ss] by (auto simp: list_ex_iff ss(2))
  moreover have "candidate_records policy ?r (empty_risk_db\<lparr>kdb_records := [?r]\<rparr>) = (0, [])"
    by (simp add: candidate_records_def other_invoice_def)
  moreover have "dle dzero (reduction_rate 0 0)" "dle (reduction_rate 0 0) (Scaled 1 0)" by code_simp+
  ultimately show ?thesis
    using x by (simp add: risk_ensure_def ensure_feature_record_def find_record_def find_for_match_def
        empty_risk_db_def Let_def)
qed

theorem risk_ensure_idempotent_witness:
  "\<exists>a db'. risk_ensure sample_lib default_risk_policy (\<lambda>k. 30 + k) (sample_time 738100) sample_run
        sample_risk_po sample_risk_invoice empty_risk_db = (Inr (a, True), db')
     \<and> risk_ensure sample_lib default_risk_policy (\<lambda>k. 60 + k) (sample_time 738200) sample_run
        sample_risk_po sample_risk_invoice db' = (Inr (a, False), db')"
proof -
  obtain a db' where "risk_ensure sample_lib default_risk_policy (\<lambda>k. 30 + k) (sample_time 738100) sample_run
      sample_risk_po sample_risk_invoice empty_risk_db = (Inr (a, True), db')"
    using risk_ensure_empty by blast
  with risk_ensure_idempotent [OF this] show ?thesis by blast
qed

theorem risk_ensure_no_internal_error_witness:
  "\<exists>res db'. risk_ensure sample_lib default_risk_policy (\<lambda>k. 30 + k) (sample_time 738100) sample_run
        sample_risk_po sample_risk_invoice empty_risk_db = (res, db')
     \<and> res \<noteq> Inl RiskAssertionError \<and> list_all record_ok (kdb_records db')"
proof -
  obtain res db' where run: "risk_ensure sample_lib default_risk_policy (\<lambda>k. 30 + k) (sample_time 738100)
      sample_run sample_risk_po sample_risk_invoice empty_risk_db = (res, db')" by fastforce
  have "list_all record_ok (kdb_records empty_risk_db)" by (simp add: empty_risk_db_def)
  from risk_ensure_no_internal_error [OF this run] run show ?thesis by blast
qed

text \<open>Two earlier invoices: the same one again, which the query selects, and one of another vendor, which it does not.\<close>

definition sample_earlier :: "uuid \<Rightarrow> string \<Rightarrow> string \<Rightarrow> feature_record" where
  "sample_earlier n vendor number = record_of_features sample_lib (40 + n) (sample_time 738000)
     (build_feature_snapshot (sample_run\<lparr>mrun_id := n, mrun_document_id := n, mrun_purchase_order_id := n\<rparr>)
        (sample_risk_po\<lparr>po_id := n, po_vendor_name := Some vendor\<rparr>)
        (sample_risk_invoice\<lparr>inv_invoice_number := seen number\<rparr>))"

definition sample_risk_db :: risk_db where
  "sample_risk_db = \<lparr>kdb_records = [sample_earlier 12 ''Acme'' ''INV-1'', sample_earlier 13 ''Other'' ''X-9''], kdb_assessments = []\<rparr>"

lemma sample_risk_db_ok: "list_all record_ok (kdb_records sample_risk_db)"
  by (simp add: sample_risk_db_def sample_earlier_def record_of_features_ok build_feature_snapshot_ok)

lemma sample_candidates:
  "map fr_id (snd (candidate_records default_risk_policy (record_of_features sample_lib 30 (sample_time 738100)
     (build_feature_snapshot sample_run sample_risk_po sample_risk_invoice)) sample_risk_db)) = [52]"
  "map fr_id (sort_key (\<lambda>r. (dt_utc (fr_created_at r), fr_id r)) (kdb_records sample_risk_db)) = [52, 53]"
  by code_simp+

theorem risk_blocking_lossless_witness:
  "let f = build_feature_snapshot sample_run sample_risk_po sample_risk_invoice;
       candidates = snd (candidate_records default_risk_policy (record_of_features sample_lib 30 (sample_time 738100) f) sample_risk_db);
       all = sort_key (\<lambda>r. (dt_utc (fr_created_at r), fr_id r)) (kdb_records sample_risk_db)
   in map fr_id candidates = [52] \<and> map fr_id all = [52, 53]
    \<and> assess_duplicate_risk sample_lib f (map record_to_snapshot candidates) default_risk_policy
      = assess_duplicate_risk sample_lib f (map record_to_snapshot all) default_risk_policy"
proof -
  have "rf_currency (build_feature_snapshot sample_run sample_risk_po sample_risk_invoice) \<noteq> Some []" by code_simp
  from risk_blocking_lossless [OF sample_risk_db_ok refl this refl] show ?thesis
    using sample_candidates by (simp add: Let_def)
qed

end
