(* ===== verification/Review_State.thy ===== *)
theory Review_State
  imports Risk_Service
begin

text \<open>
  The review state machine and its audit trail (\<^verbatim>\<open>invoiceops/schemas/review.py\<close>,
  \<^verbatim>\<open>invoiceops/review/state.py\<close> and \<^verbatim>\<open>invoiceops/review/audit.py\<close>): the transitions of a case,
  the hash of an event and the state that a list of events reconstructs.
\<close>

datatype review_status = OPEN | CLAIMED | RESOLVED

datatype review_resolution = ACCEPTED_EXCEPTION | REJECTED_DOCUMENT | CORRECTION_REQUESTED

datatype review_event_type = CASE_OPENED | CASE_CLAIMED | COMMENT_ADDED | CASE_RELEASED | CASE_RESOLVED

fun resolution_text :: "review_resolution \<Rightarrow> string" where
  "resolution_text ACCEPTED_EXCEPTION = ''ACCEPTED_EXCEPTION''"
| "resolution_text REJECTED_DOCUMENT = ''REJECTED_DOCUMENT''"
| "resolution_text CORRECTION_REQUESTED = ''CORRECTION_REQUESTED''"

definition resolution_of_text :: "string \<Rightarrow> review_resolution option" where
  "resolution_of_text s =
     find_row (\<lambda>r. resolution_text r = s) [ACCEPTED_EXCEPTION, REJECTED_DOCUMENT, CORRECTION_REQUESTED]"

fun event_type_text :: "review_event_type \<Rightarrow> string" where
  "event_type_text CASE_OPENED = ''CASE_OPENED''"
| "event_type_text CASE_CLAIMED = ''CASE_CLAIMED''"
| "event_type_text COMMENT_ADDED = ''COMMENT_ADDED''"
| "event_type_text CASE_RELEASED = ''CASE_RELEASED''"
| "event_type_text CASE_RESOLVED = ''CASE_RESOLVED''"

subsection \<open>Transitions\<close>

datatype review_error_code =
    STALE_VERSION
  | INVALID_TRANSITION
  | ALREADY_RESOLVED
  | RESOLUTION_REASON_REQUIRED
  | REVIEWER_OWNERSHIP_CONFLICT

text \<open>\<^verbatim>\<open>ReviewTransitionError\<close>: the code (\<^verbatim>\<open>CASE_RESOLVED\<close> is \<open>ALREADY_RESOLVED\<close>) and the message.\<close>

type_synonym transition_error = "review_error_code \<times> string"

record review_state =
  vs_status :: review_status
  vs_assignee :: "string option"
  vs_version :: nat
  vs_resolution :: "review_resolution option"
  vs_resolution_reason :: "string option"

record transition =
  tr_event_type :: review_event_type
  tr_status :: review_status
  tr_assignee :: "string option"
  tr_resolution :: "review_resolution option"
  tr_resolution_reason :: "string option"
  tr_payload :: "(string \<times> json) list"

definition validate_expected_version :: "review_state \<Rightarrow> nat \<Rightarrow> (transition_error, unit) result" where
  "validate_expected_version st expected =
     (if expected \<noteq> vs_version st then Inl (STALE_VERSION, ''The review case version is stale'') else Inr ())"

definition require_assigned_claim :: "review_state \<Rightarrow> string \<Rightarrow> (transition_error, unit) result" where
  "require_assigned_claim st actor =
     (if vs_status st = RESOLVED then Inl (ALREADY_RESOLVED, ''A resolved case cannot be changed'')
      else if vs_status st \<noteq> CLAIMED then Inl (INVALID_TRANSITION, ''The case must be claimed first'')
      else if vs_assignee st \<noteq> Some actor
      then Inl (REVIEWER_OWNERSHIP_CONFLICT, ''Only the assigned reviewer can perform this action'')
      else Inr ())"

definition guarded :: "('e, unit) result \<Rightarrow> ('e, 'a) result \<Rightarrow> ('e, 'a) result" where
  "guarded g r = (case g of Inl e \<Rightarrow> Inl e | Inr _ \<Rightarrow> r)"

definition claim :: "review_state \<Rightarrow> string \<Rightarrow> nat \<Rightarrow> (transition_error, transition) result" where
  "claim st actor expected =
     guarded (validate_expected_version st expected)
       (if vs_status st \<noteq> OPEN then Inl (INVALID_TRANSITION, ''Only an open case can be claimed'')
        else Inr \<lparr>tr_event_type = CASE_CLAIMED, tr_status = CLAIMED, tr_assignee = Some actor,
                  tr_resolution = None, tr_resolution_reason = None,
                  tr_payload = [(''reviewer_id'', JStr actor)]\<rparr>)"

definition release :: "review_state \<Rightarrow> string \<Rightarrow> nat \<Rightarrow> string \<Rightarrow> (transition_error, transition) result" where
  "release st actor expected reason =
     guarded (validate_expected_version st expected)
       (guarded (require_assigned_claim st actor)
         (Inr \<lparr>tr_event_type = CASE_RELEASED, tr_status = OPEN, tr_assignee = None,
               tr_resolution = None, tr_resolution_reason = None,
               tr_payload = [(''reason'', JStr reason)]\<rparr>))"

definition comment :: "review_state \<Rightarrow> string \<Rightarrow> nat \<Rightarrow> string \<Rightarrow> (transition_error, transition) result" where
  "comment st actor expected txt =
     guarded (validate_expected_version st expected)
       (if vs_status st = RESOLVED then Inl (ALREADY_RESOLVED, ''A resolved case cannot be changed'')
        else Inr \<lparr>tr_event_type = COMMENT_ADDED, tr_status = vs_status st, tr_assignee = vs_assignee st,
                  tr_resolution = vs_resolution st, tr_resolution_reason = vs_resolution_reason st,
                  tr_payload = [(''comment'', JStr txt)]\<rparr>)"

definition resolve ::
  "review_state \<Rightarrow> string \<Rightarrow> nat \<Rightarrow> review_resolution \<Rightarrow> string \<Rightarrow> (transition_error, transition) result" where
  "resolve st actor expected resolution reason =
     guarded (validate_expected_version st expected)
       (guarded (require_assigned_claim st actor)
         (if py_strip reason = []
          then Inl (RESOLUTION_REASON_REQUIRED, ''Resolution requires an explanation'')
          else Inr \<lparr>tr_event_type = CASE_RESOLVED, tr_status = RESOLVED, tr_assignee = Some actor,
                    tr_resolution = Some resolution, tr_resolution_reason = Some (py_strip reason),
                    tr_payload = [(''resolution'', JStr (resolution_text resolution)),
                                  (''reason'', JStr (py_strip reason))]\<rparr>))"

subsection \<open>Audit hashes\<close>

definition AUDIT_HASH_V1 :: string where "AUDIT_HASH_V1 = ''review-audit-v1''"
definition AUDIT_HASH_V2 :: string where "AUDIT_HASH_V2 = ''review-audit-v2''"

definition canonical_json :: "lib \<Rightarrow> json \<Rightarrow> string" where
  "canonical_json lib j = json_dumps (float_repr lib) False j"

record event_content =
  ec_case_id :: uuid
  ec_sequence_number :: nat
  ec_event_type :: review_event_type
  ec_actor_id :: string
  ec_occurred_at :: datetime
  ec_payload :: "(string \<times> json) list"
  ec_previous_hash :: "string option"

definition event_envelope :: "string \<Rightarrow> event_content \<Rightarrow> json" where
  "event_envelope version c =
     JObj [(''hash_version'', JStr version),
           (''review_case_id'', JStr (uuid_text (ec_case_id c))),
           (''sequence_number'', JInt (int (ec_sequence_number c))),
           (''event_type'', JStr (event_type_text (ec_event_type c))),
           (''actor_id'', JStr (ec_actor_id c)),
           (''occurred_at'', JStr (canonical_utc (ec_occurred_at c))),
           (''payload'', JObj (ec_payload c)),
           (''previous_hash'', json_opt JStr (ec_previous_hash c))]"

text \<open>\<open>None\<close> is \<^verbatim>\<open>UnsupportedAuditHashVersionError\<close>.\<close>

definition event_hash :: "lib \<Rightarrow> string \<Rightarrow> event_content \<Rightarrow> string option" where
  "event_hash lib version c =
     (if version = AUDIT_HASH_V1
      then Some (sha256_hex lib
             (uuid_text (ec_case_id c) @ int_text (int (ec_sequence_number c))
              @ event_type_text (ec_event_type c) @ ec_actor_id c @ canonical_utc (ec_occurred_at c)
              @ canonical_json lib (JObj (ec_payload c))
              @ (case ec_previous_hash c of None \<Rightarrow> [] | Some h \<Rightarrow> h)))
      else if version = AUDIT_HASH_V2
      then Some (sha256_hex lib (canonical_json lib (event_envelope version c)))
      else None)"

subsection \<open>Reconstruction\<close>

record reconstructed =
  rx_status :: "review_status option"
  rx_assignee :: "string option"
  rx_resolution :: "review_resolution option"
  rx_resolution_reason :: "string option"
  rx_version :: nat
  rx_opening_triggers :: "json list"

definition is_object :: "json \<Rightarrow> bool" where
  "is_object j = (case j of JObj _ \<Rightarrow> True | _ \<Rightarrow> False)"

definition triggers_of_payload :: "(string \<times> json) list \<Rightarrow> json list" where
  "triggers_of_payload payload =
     (case map_of payload ''review_triggers'' of Some (JArr items) \<Rightarrow> filter is_object items | _ \<Rightarrow> [])"

text \<open>\<^verbatim>\<open>str(payload.get(key, default))\<close> for the texts the service writes.\<close>

definition payload_text :: "(string \<times> json) list \<Rightarrow> string \<Rightarrow> string \<Rightarrow> string" where
  "payload_text payload key fallback = (case map_of payload key of Some (JStr s) \<Rightarrow> s | _ \<Rightarrow> fallback)"

text \<open>\<open>None\<close> is the \<^verbatim>\<open>ValueError\<close> of an unknown resolution.\<close>

definition apply_event ::
  "reconstructed \<Rightarrow> review_event_type \<Rightarrow> string \<Rightarrow> (string \<times> json) list \<Rightarrow> reconstructed option" where
  "apply_event st event_type actor payload =
     (case event_type of
        CASE_OPENED \<Rightarrow>
          Some \<lparr>rx_status = Some OPEN, rx_assignee = None, rx_resolution = None, rx_resolution_reason = None,
                rx_version = rx_version st + 1, rx_opening_triggers = triggers_of_payload payload\<rparr>
      | CASE_CLAIMED \<Rightarrow>
          Some \<lparr>rx_status = Some CLAIMED, rx_assignee = Some actor, rx_resolution = None,
                rx_resolution_reason = None, rx_version = rx_version st + 1,
                rx_opening_triggers = rx_opening_triggers st\<rparr>
      | COMMENT_ADDED \<Rightarrow> Some (st\<lparr>rx_version := rx_version st + 1\<rparr>)
      | CASE_RELEASED \<Rightarrow>
          Some \<lparr>rx_status = Some OPEN, rx_assignee = None, rx_resolution = None, rx_resolution_reason = None,
                rx_version = rx_version st + 1, rx_opening_triggers = rx_opening_triggers st\<rparr>
      | CASE_RESOLVED \<Rightarrow>
          (case resolution_of_text (payload_text payload ''resolution'' ''None'') of
             None \<Rightarrow> None
           | Some r \<Rightarrow>
               Some \<lparr>rx_status = Some RESOLVED, rx_assignee = Some actor, rx_resolution = Some r,
                     rx_resolution_reason = Some (payload_text payload ''reason'' []),
                     rx_version = rx_version st + 1, rx_opening_triggers = rx_opening_triggers st\<rparr>))"

subsection \<open>Texts of the codes\<close>

fun reason_text :: "reason_code \<Rightarrow> string" where
  "reason_text EXTRACTION_ROW_ASSOCIATION_UNRESOLVED = ''EXTRACTION_ROW_ASSOCIATION_UNRESOLVED''"
| "reason_text INVOICE_SCHEMA_INCOMPLETE = ''INVOICE_SCHEMA_INCOMPLETE''"
| "reason_text INVOICE_LINE_ARITHMETIC_MISMATCH = ''INVOICE_LINE_ARITHMETIC_MISMATCH''"
| "reason_text INVOICE_SUBTOTAL_MISMATCH = ''INVOICE_SUBTOTAL_MISMATCH''"
| "reason_text INVOICE_TOTAL_MISMATCH = ''INVOICE_TOTAL_MISMATCH''"
| "reason_text CURRENCY_MISMATCH = ''CURRENCY_MISMATCH''"
| "reason_text INVOICE_LINE_UNMATCHED = ''INVOICE_LINE_UNMATCHED''"
| "reason_text PO_LINE_UNMATCHED = ''PO_LINE_UNMATCHED''"
| "reason_text DESCRIPTION_BELOW_THRESHOLD = ''DESCRIPTION_BELOW_THRESHOLD''"
| "reason_text DESCRIPTION_AMBIGUOUS = ''DESCRIPTION_AMBIGUOUS''"
| "reason_text QUANTITY_MISMATCH = ''QUANTITY_MISMATCH''"
| "reason_text UNIT_PRICE_MISMATCH = ''UNIT_PRICE_MISMATCH''"
| "reason_text EXTRA_INVOICE_LINE = ''EXTRA_INVOICE_LINE''"
| "reason_text LINE_AMOUNT_MISMATCH = ''LINE_AMOUNT_MISMATCH''"
| "reason_text PO_LINE_AMOUNT_MISMATCH = ''PO_LINE_AMOUNT_MISMATCH''"
| "reason_text NEGATIVE_AMOUNT = ''NEGATIVE_AMOUNT''"
| "reason_text NO_GOODS_RECEIPT = ''NO_GOODS_RECEIPT''"
| "reason_text RECEIPT_LINE_MISSING = ''RECEIPT_LINE_MISSING''"
| "reason_text GOODS_RECEIPT_REVERSED = ''GOODS_RECEIPT_REVERSED''"
| "reason_text INVOICE_QUANTITY_EXCEEDS_RECEIVED = ''INVOICE_QUANTITY_EXCEEDS_RECEIVED''"
| "reason_text CUMULATIVE_QUANTITY_EXCEEDS_RECEIVED = ''CUMULATIVE_QUANTITY_EXCEEDS_RECEIVED''"
| "reason_text RECEIVED_QUANTITY_EXCEEDS_ORDERED = ''RECEIVED_QUANTITY_EXCEEDS_ORDERED''"
| "reason_text RECEIPT_AFTER_INVOICE = ''RECEIPT_AFTER_INVOICE''"
| "reason_text THREE_WAY_UNIT_PRICE_MISMATCH = ''THREE_WAY_UNIT_PRICE_MISMATCH''"
| "reason_text THREE_WAY_LINE_AMOUNT_MISMATCH = ''THREE_WAY_LINE_AMOUNT_MISMATCH''"
| "reason_text RECEIPT_CONTEXT_CHANGED = ''RECEIPT_CONTEXT_CHANGED''"
| "reason_text ALLOCATION_RECONCILIATION_REQUIRED = ''ALLOCATION_RECONCILIATION_REQUIRED''"

fun signal_text :: "risk_signal_code \<Rightarrow> string" where
  "signal_text EXACT_BUSINESS_KEY_DUPLICATE = ''EXACT_BUSINESS_KEY_DUPLICATE''"
| "signal_text REUSED_VENDOR_INVOICE_NUMBER = ''REUSED_VENDOR_INVOICE_NUMBER''"
| "signal_text SAME_PO_INVOICE_REPLAY = ''SAME_PO_INVOICE_REPLAY''"
| "signal_text NEAR_DUPLICATE = ''NEAR_DUPLICATE''"
| "signal_text DUPLICATE_CHECK_INCOMPLETE = ''DUPLICATE_CHECK_INCOMPLETE''"

subsection \<open>Facts about the transitions\<close>

lemma resolution_of_text_roundtrip [simp]: "resolution_of_text (resolution_text r) = Some r"
  by (cases r) (simp_all add: resolution_of_text_def)

lemma guarded_Inr: "guarded g r = Inr x \<longleftrightarrow> (\<exists>u. g = Inr u) \<and> r = Inr x"
  by (auto simp: guarded_def split: sum.splits)

lemmas transition_defs = claim_def release_def comment_def resolve_def guarded_Inr
  validate_expected_version_def require_assigned_claim_def

text \<open>
  A resolved case is final. Whatever its version, no claim, release, comment or resolution of it
  succeeds.
\<close>

theorem resolved_is_terminal:
  assumes "vs_status st = RESOLVED"
  shows "raises (claim st actor expected) \<and> raises (release st actor expected reason)
    \<and> raises (comment st actor expected txt) \<and> raises (resolve st actor expected resolution reason)"
  using assms
  by (auto simp: claim_def release_def comment_def resolve_def guarded_def validate_expected_version_def
      require_assigned_claim_def split: sum.splits)

text \<open>
  Only the reviewer who holds a claimed case can release or resolve it, only with the current
  version, and a resolution always carries a reason that is not blank.
\<close>

theorem resolution_requires_ownership:
  assumes "resolve st actor expected resolution reason = Inr t"
  shows "vs_status st = CLAIMED \<and> vs_assignee st = Some actor \<and> expected = vs_version st
    \<and> tr_status t = RESOLVED \<and> tr_resolution t = Some resolution
    \<and> (\<exists>r. tr_resolution_reason t = Some r \<and> r \<noteq> [] \<and> py_strip r = r)"
  using assms by (auto simp: transition_defs split: if_splits)

theorem resolved_is_terminal_witness:
  "raises (comment \<lparr>vs_status = RESOLVED, vs_assignee = Some ''ana'', vs_version = 3,
     vs_resolution = Some ACCEPTED_EXCEPTION, vs_resolution_reason = Some ''fine''\<rparr> ''bob'' 3 ''hello'')"
  using resolved_is_terminal [of "\<lparr>vs_status = RESOLVED, vs_assignee = Some ''ana'', vs_version = 3,
     vs_resolution = Some ACCEPTED_EXCEPTION, vs_resolution_reason = Some ''fine''\<rparr>"] by simp

definition sample_claimed :: review_state where
  "sample_claimed = \<lparr>vs_status = CLAIMED, vs_assignee = Some ''ana'', vs_version = 2,
     vs_resolution = None, vs_resolution_reason = None\<rparr>"

theorem resolution_requires_ownership_witness:
  "\<exists>t. resolve sample_claimed ''ana'' 2 ACCEPTED_EXCEPTION ''agreed'' = Inr t
     \<and> tr_resolution t = Some ACCEPTED_EXCEPTION"
proof -
  have "py_strip ''agreed'' = ''agreed''" by code_simp
  then obtain t where "resolve sample_claimed ''ana'' 2 ACCEPTED_EXCEPTION ''agreed'' = Inr t"
    by (auto simp: resolve_def guarded_def validate_expected_version_def require_assigned_claim_def
        sample_claimed_def)
  with resolution_requires_ownership [OF this] show ?thesis by blast
qed

end
