(* ===== verification/Review_Service.thy ===== *)
theory Review_Service
  imports Review_State
begin

text \<open>
  The review service (\<^verbatim>\<open>invoiceops/review/service.py\<close>) with the rows of cases, events and triggers
  (\<^verbatim>\<open>invoiceops/models.py\<close>): routing of a match run to review, the versioned transitions that append
  to the hash chain, the verification of the chain and the review queue. Reading a case and updating
  it are separate steps, so that two reviewers may interleave.
\<close>

subsection \<open>Rows\<close>

record review_case =
  rvc_id :: uuid
  rvc_match_run_id :: uuid
  rvc_status :: review_status
  rvc_assigned_reviewer_id :: "string option"
  rvc_version :: nat
  rvc_opened_at :: datetime
  rvc_claimed_at :: "datetime option"
  rvc_resolved_at :: "datetime option"
  rvc_resolution :: "review_resolution option"
  rvc_resolution_reason :: "string option"

record review_event =
  rve_id :: uuid
  rve_review_case_id :: uuid
  rve_sequence_number :: nat
  rve_event_type :: review_event_type
  rve_actor_id :: string
  rve_payload :: "(string \<times> json) list"
  rve_hash_version :: string
  rve_previous_hash :: "string option"
  rve_event_hash :: string
  rve_occurred_at :: datetime

record review_trigger =
  rvt_id :: uuid
  rvt_review_case_id :: uuid
  rvt_trigger_type :: string
  rvt_trigger_code :: string
  rvt_source_id :: uuid
  rvt_created_at :: datetime

record review_db =
  vdb_cases :: "review_case list"
  vdb_events :: "review_event list"
  vdb_triggers :: "review_trigger list"

datatype review_error =
    ReviewCaseNotFoundError
  | ReviewTransitionError review_error_code string
  | ReviewHistoryError
  | ReviewIntegrityError

text \<open>The constraint \<^verbatim>\<open>ck_review_case_state_shape\<close>. SQL's \<^verbatim>\<open>trim\<close> removes blanks only.\<close>

definition sql_nonblank :: "string option \<Rightarrow> bool" where
  "sql_nonblank v = (case v of None \<Rightarrow> False | Some s \<Rightarrow> list_ex (\<lambda>c. c \<noteq> CHR '' '') s)"

definition state_shape :: "review_case \<Rightarrow> bool" where
  "state_shape c \<longleftrightarrow>
     (rvc_status c = OPEN \<and> rvc_assigned_reviewer_id c = None \<and> rvc_claimed_at c = None
        \<and> rvc_resolved_at c = None \<and> rvc_resolution c = None \<and> rvc_resolution_reason c = None)
     \<or> (rvc_status c = CLAIMED \<and> rvc_assigned_reviewer_id c \<noteq> None \<and> rvc_claimed_at c \<noteq> None
        \<and> rvc_resolved_at c = None \<and> rvc_resolution c = None \<and> rvc_resolution_reason c = None)
     \<or> (rvc_status c = RESOLVED \<and> rvc_assigned_reviewer_id c \<noteq> None \<and> rvc_claimed_at c \<noteq> None
        \<and> rvc_resolved_at c \<noteq> None \<and> rvc_resolution c \<noteq> None \<and> sql_nonblank (rvc_resolution_reason c))"

definition SYSTEM_ACTOR_ID :: string where "SYSTEM_ACTOR_ID = ''system:matching''"
definition MATCH_REASON_TRIGGER :: string where "MATCH_REASON_TRIGGER = ''MATCH_REASON''"
definition RISK_SIGNAL_TRIGGER :: string where "RISK_SIGNAL_TRIGGER = ''RISK_SIGNAL''"

definition find_case :: "review_db \<Rightarrow> uuid \<Rightarrow> review_case option" where
  "find_case db cid = find_row (\<lambda>c. rvc_id c = cid) (vdb_cases db)"

definition find_case_of_run :: "review_db \<Rightarrow> uuid \<Rightarrow> review_case option" where
  "find_case_of_run db run = find_row (\<lambda>c. rvc_match_run_id c = run) (vdb_cases db)"

definition case_events :: "review_db \<Rightarrow> uuid \<Rightarrow> review_event list" where
  "case_events db cid =
     sort_key rve_sequence_number (filter (\<lambda>e. rve_review_case_id e = cid) (vdb_events db))"

definition content_of :: "review_event \<Rightarrow> uuid \<Rightarrow> event_content" where
  "content_of e cid = \<lparr>ec_case_id = cid, ec_sequence_number = rve_sequence_number e,
     ec_event_type = rve_event_type e, ec_actor_id = rve_actor_id e, ec_occurred_at = rve_occurred_at e,
     ec_payload = rve_payload e, ec_previous_hash = rve_previous_hash e\<rparr>"

text \<open>An event with its hash under version 2.\<close>

definition build_event ::
  "lib \<Rightarrow> uuid \<Rightarrow> uuid \<Rightarrow> nat \<Rightarrow> review_event_type \<Rightarrow> string \<Rightarrow> (string \<times> json) list \<Rightarrow> string option
    \<Rightarrow> datetime \<Rightarrow> review_event" where
  "build_event lib eid cid n event_type actor payload previous now =
     \<lparr>rve_id = eid, rve_review_case_id = cid, rve_sequence_number = n, rve_event_type = event_type,
      rve_actor_id = actor, rve_payload = payload, rve_hash_version = AUDIT_HASH_V2,
      rve_previous_hash = previous,
      rve_event_hash = sha256_hex lib (canonical_json lib (event_envelope AUDIT_HASH_V2
        \<lparr>ec_case_id = cid, ec_sequence_number = n, ec_event_type = event_type, ec_actor_id = actor,
         ec_occurred_at = now, ec_payload = payload, ec_previous_hash = previous\<rparr>)),
      rve_occurred_at = now\<rparr>"

subsection \<open>Routing\<close>

definition requires_review :: "match_run \<Rightarrow> risk_assessment option \<Rightarrow> bool" where
  "requires_review run risk \<longleftrightarrow>
     mrun_decision run = NEEDS_REVIEW
     \<or> (case risk of None \<Rightarrow> False | Some a \<Rightarrow> ra_disposition a = RISK_NEEDS_REVIEW)"

text \<open>
  \<^verbatim>\<open>_trigger_snapshot\<close>. The texts of two UUIDs have the order of the UUIDs, so the sort key keeps
  the number.
\<close>

definition trigger_snapshot :: "match_run \<Rightarrow> risk_assessment option \<Rightarrow> (string \<times> string \<times> uuid) list" where
  "trigger_snapshot run risk =
     sort (dict_fromkeys
       (map (\<lambda>r. (MATCH_REASON_TRIGGER, reason_text r, mrun_id run)) (mr_reason_codes (mrun_result run))
        @ (case risk of None \<Rightarrow> []
           | Some a \<Rightarrow> map (\<lambda>s. (RISK_SIGNAL_TRIGGER, signal_text (sg_code (sr_signal s)), ra_id a))
                        (ra_signals a))))"

definition trigger_json :: "string \<times> string \<times> uuid \<Rightarrow> json" where
  "trigger_json t = (case t of (ty, code, src) \<Rightarrow>
     JObj [(''type'', JStr ty), (''code'', JStr code), (''source_id'', JStr (uuid_text src))])"

definition trigger_key :: "review_trigger \<Rightarrow> string \<times> string \<times> uuid" where
  "trigger_key t = (rvt_trigger_type t, rvt_trigger_code t, rvt_source_id t)"

definition ensure_review_triggers ::
  "(nat \<Rightarrow> uuid) \<Rightarrow> review_case \<Rightarrow> match_run \<Rightarrow> risk_assessment option \<Rightarrow> review_db \<Rightarrow> review_db" where
  "ensure_review_triggers fresh c run risk db =
     (let existing = map trigger_key (filter (\<lambda>t. rvt_review_case_id t = rvc_id c) (vdb_triggers db));
          missing = filter (\<lambda>k. k \<notin> set existing) (trigger_snapshot run risk)
      in db\<lparr>vdb_triggers := vdb_triggers db
           @ map (\<lambda>(n, ty, code, src). \<lparr>rvt_id = fresh n, rvt_review_case_id = rvc_id c,
                rvt_trigger_type = ty, rvt_trigger_code = code, rvt_source_id = src,
                rvt_created_at = rvc_opened_at c\<rparr>) (List.enumerate 0 missing)\<rparr>)"

definition opening_payload :: "match_run \<Rightarrow> risk_assessment option \<Rightarrow> (string \<times> json) list" where
  "opening_payload run risk =
     [(''match_run_id'', JStr (uuid_text (mrun_id run))),
      (''reason_codes'', JArr (map (\<lambda>r. JStr (reason_text r)) (mr_reason_codes (mrun_result run)))),
      (''review_triggers'', JArr (map trigger_json (trigger_snapshot run risk)))]"

text \<open>Identifier 0 of \<open>fresh\<close> is the case's, 1 the opening event's, the others the triggers'.\<close>

definition ensure_review_case ::
  "lib \<Rightarrow> (nat \<Rightarrow> uuid) \<Rightarrow> datetime \<Rightarrow> match_run \<Rightarrow> risk_assessment option \<Rightarrow> review_db
    \<Rightarrow> (review_case option \<times> bool) \<times> review_db" where
  "ensure_review_case lib fresh now run risk db =
     (if \<not> requires_review run risk then ((None, False), db)
      else case find_case_of_run db (mrun_id run) of
             Some existing \<Rightarrow>
               ((Some existing, False), ensure_review_triggers (\<lambda>n. fresh (n + 2)) existing run risk db)
           | None \<Rightarrow>
               let c = \<lparr>rvc_id = fresh 0, rvc_match_run_id = mrun_id run, rvc_status = OPEN,
                     rvc_assigned_reviewer_id = None, rvc_version = 1, rvc_opened_at = now,
                     rvc_claimed_at = None, rvc_resolved_at = None, rvc_resolution = None,
                     rvc_resolution_reason = None\<rparr>;
                   e = build_event lib (fresh 1) (fresh 0) 1 CASE_OPENED SYSTEM_ACTOR_ID
                     (opening_payload run risk) None now
               in ((Some c, True),
                   ensure_review_triggers (\<lambda>n. fresh (n + 2)) c run risk
                     (db\<lparr>vdb_cases := vdb_cases db @ [c], vdb_events := vdb_events db @ [e]\<rparr>)))"

subsection \<open>Transitions\<close>

definition review_get :: "review_db \<Rightarrow> uuid \<Rightarrow> (review_error, review_case) result" where
  "review_get db cid = (case find_case db cid of None \<Rightarrow> Inl ReviewCaseNotFoundError | Some c \<Rightarrow> Inr c)"

definition state_of :: "review_case \<Rightarrow> review_state" where
  "state_of c = \<lparr>vs_status = rvc_status c, vs_assignee = rvc_assigned_reviewer_id c,
     vs_version = rvc_version c, vs_resolution = rvc_resolution c,
     vs_resolution_reason = rvc_resolution_reason c\<rparr>"

definition updated_row :: "transition \<Rightarrow> datetime \<Rightarrow> review_case \<Rightarrow> review_case" where
  "updated_row t now c = c\<lparr>rvc_status := tr_status t, rvc_assigned_reviewer_id := tr_assignee t,
     rvc_version := rvc_version c + 1, rvc_resolution := tr_resolution t,
     rvc_resolution_reason := tr_resolution_reason t,
     rvc_claimed_at := (case tr_event_type t of CASE_CLAIMED \<Rightarrow> Some now | CASE_RELEASED \<Rightarrow> None
                        | _ \<Rightarrow> rvc_claimed_at c),
     rvc_resolved_at := (case tr_event_type t of CASE_RESOLVED \<Rightarrow> Some now | _ \<Rightarrow> rvc_resolved_at c)\<rparr>"

definition role_payload :: "transition \<Rightarrow> string list \<Rightarrow> (string \<times> json) list" where
  "role_payload t roles =
     (if roles = [] then tr_payload t
      else dict_put ''actor_roles'' (JArr (map JStr roles)) (tr_payload t))"

definition stale :: review_error where
  "stale = ReviewTransitionError STALE_VERSION ''The review case version is stale''"

text \<open>
  \<^verbatim>\<open>ReviewService._apply\<close>: \<open>c\<close> is the row as it was read, \<open>db\<close> the database at the time of the
  update. Every error rolls back.
\<close>

definition review_apply ::
  "lib \<Rightarrow> uuid \<Rightarrow> datetime \<Rightarrow> review_case \<Rightarrow> transition \<Rightarrow> string \<Rightarrow> string list \<Rightarrow> review_db
    \<Rightarrow> (review_error, review_case) result \<times> review_db" where
  "review_apply lib eid now c t actor roles db =
     (let hit = (\<lambda>r. rvc_id r = rvc_id c \<and> rvc_version r = rvc_version c);
          cases' = update_rows hit (updated_row t now) (vdb_cases db)
      in if length (filter hit (vdb_cases db)) \<noteq> 1 then (Inl stale, db)
         else if \<not> list_all state_shape cases' then (Inl ReviewIntegrityError, db)
         else case find_row (\<lambda>e. rve_review_case_id e = rvc_id c \<and> rve_sequence_number e = rvc_version c)
                     (vdb_events db) of
                None \<Rightarrow> (Inl ReviewHistoryError, db)
              | Some previous \<Rightarrow>
                  let e = build_event lib eid (rvc_id c) (rvc_version c + 1) (tr_event_type t) actor
                        (role_payload t roles) (Some (rve_event_hash previous)) now;
                      db' = db\<lparr>vdb_cases := cases', vdb_events := vdb_events db @ [e]\<rparr>
                  in if list_ex (\<lambda>x. rve_review_case_id x = rvc_id c
                           \<and> rve_sequence_number x = rvc_version c + 1) (vdb_events db)
                     then (Inl stale, db)
                     else (review_get db' (rvc_id c), db'))"

datatype review_command =
    Claim
  | Release string
  | Comment string
  | Resolve review_resolution string

definition transition_of ::
  "review_command \<Rightarrow> review_state \<Rightarrow> string \<Rightarrow> nat \<Rightarrow> (transition_error, transition) result" where
  "transition_of cmd st actor expected =
     (case cmd of
        Claim \<Rightarrow> claim st actor expected
      | Release reason \<Rightarrow> release st actor expected reason
      | Comment txt \<Rightarrow> comment st actor expected txt
      | Resolve resolution reason \<Rightarrow> resolve st actor expected resolution reason)"

text \<open>
  \<^verbatim>\<open>ReviewService.claim\<close>, \<^verbatim>\<open>release\<close>, \<^verbatim>\<open>comment\<close> and \<^verbatim>\<open>resolve\<close>: read the case, compute the
  transition from the row that was read, apply it.
\<close>

definition review_act ::
  "lib \<Rightarrow> uuid \<Rightarrow> datetime \<Rightarrow> review_command \<Rightarrow> uuid \<Rightarrow> string \<Rightarrow> nat \<Rightarrow> string list \<Rightarrow> review_db
    \<Rightarrow> (review_error, review_case) result \<times> review_db" where
  "review_act lib eid now cmd cid actor expected roles db =
     (case review_get db cid of
        Inl e \<Rightarrow> (Inl e, db)
      | Inr c \<Rightarrow>
          (case transition_of cmd (state_of c) actor expected of
             Inl (code, msg) \<Rightarrow> (Inl (ReviewTransitionError code msg), db)
           | Inr t \<Rightarrow> review_apply lib eid now c t actor roles db))"

subsection \<open>Verification of the audit trail\<close>

definition reconstruct_event :: "reconstructed \<Rightarrow> review_event \<Rightarrow> reconstructed option" where
  "reconstruct_event st e =
     (if (case rve_event_type e of
            CASE_OPENED \<Rightarrow> rx_version st \<noteq> 0 \<or> rve_actor_id e \<noteq> SYSTEM_ACTOR_ID
          | CASE_CLAIMED \<Rightarrow> rx_status st \<noteq> Some OPEN
          | COMMENT_ADDED \<Rightarrow> rx_status st = Some RESOLVED \<or> rx_status st = None
          | _ \<Rightarrow> rx_status st \<noteq> Some CLAIMED \<or> rx_assignee st \<noteq> Some (rve_actor_id e))
      then None
      else apply_event st (rve_event_type e) (rve_actor_id e) (rve_payload e))"

definition at_number :: "string \<Rightarrow> nat \<Rightarrow> string" where
  "at_number label n = label @ int_text (int n)"

definition blank_state :: reconstructed where
  "blank_state = \<lparr>rx_status = None, rx_assignee = None, rx_resolution = None, rx_resolution_reason = None,
     rx_version = 0, rx_opening_triggers = []\<rparr>"

definition hash_errors :: "lib \<Rightarrow> uuid \<Rightarrow> review_event \<Rightarrow> string list" where
  "hash_errors lib cid e =
     (case event_hash lib (rve_hash_version e) (content_of e cid) of
        None \<Rightarrow> [at_number ''UNSUPPORTED_HASH_VERSION_AT_'' (rve_sequence_number e)]
      | Some h \<Rightarrow> if rve_event_hash e \<noteq> h then [at_number ''EVENT_HASH_MISMATCH_AT_'' (rve_sequence_number e)]
                  else [])"

text \<open>One turn of the loop; the state is the errors, the previous hash and the reconstruction.\<close>

definition audit_step ::
  "lib \<Rightarrow> uuid \<Rightarrow> string list \<times> string option \<times> reconstructed \<Rightarrow> nat \<times> review_event
    \<Rightarrow> string list \<times> string option \<times> reconstructed" where
  "audit_step lib cid acc ne =
     (case (acc, ne) of ((errors, previous, st), (n, e)) \<Rightarrow>
        let seq_errors = (if rve_sequence_number e \<noteq> n then [at_number ''SEQUENCE_GAP_AT_'' n] else []);
            prev_errors = (if rve_previous_hash e \<noteq> previous
              then [at_number ''PREVIOUS_HASH_MISMATCH_AT_'' (rve_sequence_number e)] else []);
            (st_errors, st') = (case reconstruct_event st e of
              None \<Rightarrow> ([at_number ''INVALID_TRANSITION_AT_'' (rve_sequence_number e)], st)
            | Some s \<Rightarrow> ([], s))
        in (errors @ seq_errors @ prev_errors @ hash_errors lib cid e @ st_errors,
            Some (rve_event_hash e), st'))"

definition audit_run ::
  "lib \<Rightarrow> uuid \<Rightarrow> review_event list \<Rightarrow> string list \<times> string option \<times> reconstructed" where
  "audit_run lib cid events = foldl (audit_step lib cid) ([], None, blank_state) (List.enumerate 1 events)"

record audit_verification =
  av_valid :: bool
  av_event_count :: nat
  av_last_sequence_number :: nat
  av_errors :: "string list"
  av_reconstructed :: reconstructed

definition materialized :: "review_case \<Rightarrow> reconstructed \<Rightarrow> bool" where
  "materialized c st \<longleftrightarrow>
     rx_status st = Some (rvc_status c) \<and> rx_assignee st = rvc_assigned_reviewer_id c
     \<and> rx_resolution st = rvc_resolution c \<and> rx_resolution_reason st = rvc_resolution_reason c
     \<and> rx_version st = rvc_version c"

definition verify_audit :: "lib \<Rightarrow> review_db \<Rightarrow> uuid \<Rightarrow> (review_error, audit_verification) result" where
  "verify_audit lib db cid =
     (case review_get db cid of
        Inl e \<Rightarrow> Inl e
      | Inr c \<Rightarrow>
          (let events = case_events db cid in
           case audit_run lib (rvc_id c) events of (errors, previous, st) \<Rightarrow>
             let all_errors = errors @ (if materialized c st then [] else [''MATERIALIZED_STATE_MISMATCH''])
             in Inr \<lparr>av_valid = (all_errors = []), av_event_count = length events,
                     av_last_sequence_number = (if events = [] then 0 else rve_sequence_number (last events)),
                     av_errors = all_errors, av_reconstructed = st\<rparr>))"

subsection \<open>Reconciliation\<close>

definition review_reconcile ::
  "lib \<Rightarrow> (nat \<Rightarrow> nat \<Rightarrow> uuid) \<Rightarrow> datetime \<Rightarrow> match_run list \<Rightarrow> risk_assessment list \<Rightarrow> review_db
    \<Rightarrow> (nat \<times> nat \<times> nat) \<times> review_db" where
  "review_reconcile lib fresh now runs assessments db =
     (let todo = sort_key (\<lambda>r. (dt_utc (mrun_created_at r), mrun_id r))
            (filter (\<lambda>r. mrun_decision r = NEEDS_REVIEW) runs);
          (created, present, db') = foldl (\<lambda>(created, present, d) (n, run).
            case ensure_review_case lib (fresh n) now run
                   (find_row (\<lambda>a. ra_match_run_id a = mrun_id run) assessments) d of
              ((_, was_created), d') \<Rightarrow>
                (created + (if was_created then 1 else 0), present + (if was_created then 0 else 1), d'))
            (0, 0, db) (List.enumerate 0 todo)
      in ((length todo, created, present), db'))"

subsection \<open>The review queue\<close>

record queue_filter =
  qf_status :: "review_status option"
  qf_assignee :: "string option"
  qf_trigger_type :: "string option"
  qf_trigger_code :: "string option"
  qf_reason_code :: "reason_code option"
  qf_created_before :: "datetime option"
  qf_created_after :: "datetime option"

definition opt_holds :: "('a \<Rightarrow> bool) \<Rightarrow> 'a option \<Rightarrow> bool" where
  "opt_holds P v = (case v of None \<Rightarrow> True | Some x \<Rightarrow> P x)"

text \<open>The cursor is the decoded pair of the last row's opening time and identifier.\<close>

definition queue_rank :: "review_case \<Rightarrow> int \<times> nat" where
  "queue_rank c = (dt_utc (rvc_opened_at c), rvc_id c)"

definition queue_row_ok :: "queue_filter \<Rightarrow> (int \<times> nat) option \<Rightarrow> review_case \<Rightarrow> bool" where
  "queue_row_ok f cursor c \<longleftrightarrow>
     opt_holds (\<lambda>s. rvc_status c = s) (qf_status f)
     \<and> opt_holds (\<lambda>a. rvc_assigned_reviewer_id c = Some a) (qf_assignee f)
     \<and> opt_holds (\<lambda>t. dt_utc (rvc_opened_at c) < dt_utc t) (qf_created_before f)
     \<and> opt_holds (\<lambda>t. dt_utc t \<le> dt_utc (rvc_opened_at c)) (qf_created_after f)
     \<and> opt_holds (\<lambda>(opened, cid). dt_utc (rvc_opened_at c) < opened
          \<or> (dt_utc (rvc_opened_at c) = opened \<and> rvc_id c < cid)) cursor"

text \<open>A conflict of the deprecated reason filter with the trigger filters empties the page.\<close>

definition effective_filter :: "queue_filter \<Rightarrow> (string option \<times> string option) option" where
  "effective_filter f =
     (case qf_reason_code f of
        None \<Rightarrow> Some (qf_trigger_type f, qf_trigger_code f)
      | Some r \<Rightarrow>
          if opt_holds (\<lambda>t. t = MATCH_REASON_TRIGGER) (qf_trigger_type f)
             \<and> opt_holds (\<lambda>c. c = reason_text r) (qf_trigger_code f)
          then Some (Some MATCH_REASON_TRIGGER, Some (reason_text r)) else None)"

text \<open>The rows of the statement before the limit: the join pairs a case with each of its triggers.\<close>

definition joined_rows ::
  "(string option \<times> string option) \<Rightarrow> review_db \<Rightarrow> review_case list \<Rightarrow> review_case list" where
  "joined_rows eff db cs =
     (case eff of
        (None, None) \<Rightarrow> cs
      | (ty, code) \<Rightarrow>
          concat (map (\<lambda>c. map (\<lambda>t. c)
            (filter (\<lambda>t. rvt_review_case_id t = rvc_id c
                \<and> opt_holds (\<lambda>x. rvt_trigger_type t = x) ty \<and> opt_holds (\<lambda>x. rvt_trigger_code t = x) code)
              (vdb_triggers db))) cs))"

definition list_cases ::
  "queue_filter \<Rightarrow> (int \<times> nat) option \<Rightarrow> nat \<Rightarrow> review_db \<Rightarrow> review_case list \<times> (int \<times> nat) option" where
  "list_cases f cursor limit db =
     (case effective_filter f of
        None \<Rightarrow> ([], None)
      | Some eff \<Rightarrow>
          let rows = joined_rows eff db
                (rev (sort_key queue_rank (filter (queue_row_ok f cursor) (vdb_cases db))));
              candidates = take (limit + 1) rows;
              page = take limit candidates
          in (page, if limit < length candidates then Some (queue_rank (last page)) else None))"


subsection \<open>Transitions keep the shape and agree with the reconstruction\<close>

lemma transition_cases:
  assumes "transition_of cmd st actor expected = Inr t"
  obtains (claimed) "vs_status st = OPEN" and
      "t = \<lparr>tr_event_type = CASE_CLAIMED, tr_status = CLAIMED, tr_assignee = Some actor, tr_resolution = None,
            tr_resolution_reason = None, tr_payload = [(''reviewer_id'', JStr actor)]\<rparr>"
    | (released) reason where "vs_status st = CLAIMED" and "vs_assignee st = Some actor" and
      "t = \<lparr>tr_event_type = CASE_RELEASED, tr_status = OPEN, tr_assignee = None, tr_resolution = None,
            tr_resolution_reason = None, tr_payload = [(''reason'', JStr reason)]\<rparr>"
    | (commented) body where "vs_status st \<noteq> RESOLVED" and
      "t = \<lparr>tr_event_type = COMMENT_ADDED, tr_status = vs_status st, tr_assignee = vs_assignee st,
            tr_resolution = vs_resolution st, tr_resolution_reason = vs_resolution_reason st,
            tr_payload = [(''comment'', JStr body)]\<rparr>"
    | (resolved) resolution reason where "vs_status st = CLAIMED" and "vs_assignee st = Some actor" and
      "py_strip reason \<noteq> []" and
      "t = \<lparr>tr_event_type = CASE_RESOLVED, tr_status = RESOLVED, tr_assignee = Some actor,
            tr_resolution = Some resolution, tr_resolution_reason = Some (py_strip reason),
            tr_payload = [(''resolution'', JStr (resolution_text resolution)),
                          (''reason'', JStr (py_strip reason))]\<rparr>"
  using assms
  by (cases cmd) (auto simp: transition_of_def transition_defs split: if_splits)

lemma transition_version: "transition_of cmd st actor expected = Inr t \<Longrightarrow> expected = vs_version st"
  by (cases cmd) (auto simp: transition_of_def transition_defs split: if_splits)

lemma updated_row_fields [simp]:
  "rvc_id (updated_row t now c) = rvc_id c"
  "rvc_match_run_id (updated_row t now c) = rvc_match_run_id c"
  "rvc_opened_at (updated_row t now c) = rvc_opened_at c"
  "rvc_version (updated_row t now c) = Suc (rvc_version c)"
  by (simp_all add: updated_row_def)

lemma sql_nonblank_strip: "py_strip s \<noteq> [] \<Longrightarrow> sql_nonblank (Some (py_strip s))"
proof -
  assume "py_strip s \<noteq> []"
  then have "py_strip (py_strip s) \<noteq> []" by simp
  then obtain c where "c \<in> set (py_strip s)" "\<not> is_space c"
    unfolding py_strip_blank_iff by blast
  moreover have "is_space (CHR '' '')" by code_simp
  ultimately have "\<exists>c \<in> set (py_strip s). c \<noteq> CHR '' ''" by metis
  then show ?thesis by (simp only: sql_nonblank_def list_ex_iff option.case)
qed

lemma updated_row_shape:
  assumes "transition_of cmd (state_of c) actor expected = Inr t" and "state_shape c"
  shows "state_shape (updated_row t now c)"
  using assms(1)
proof (cases rule: transition_cases)
  case (resolved resolution reason)
  with sql_nonblank_strip [of reason] assms(2) show ?thesis
    by (auto simp: state_shape_def updated_row_def state_of_def)
qed (use assms(2) in \<open>auto simp: state_shape_def updated_row_def state_of_def\<close>)

lemma role_payload_lookup:
  "key \<noteq> ''actor_roles'' \<Longrightarrow> map_of (role_payload t roles) key = map_of (tr_payload t) key"
  by (simp add: role_payload_def)

lemma build_event_fields [simp]:
  "rve_review_case_id (build_event lib eid cid n ty actor payload previous now) = cid"
  "rve_sequence_number (build_event lib eid cid n ty actor payload previous now) = n"
  "rve_event_type (build_event lib eid cid n ty actor payload previous now) = ty"
  "rve_actor_id (build_event lib eid cid n ty actor payload previous now) = actor"
  "rve_payload (build_event lib eid cid n ty actor payload previous now) = payload"
  "rve_previous_hash (build_event lib eid cid n ty actor payload previous now) = previous"
  by (simp_all add: build_event_def)

lemma build_event_hash [simp]:
  "hash_errors lib cid (build_event lib eid cid n ty actor payload previous now) = []"
  by (simp add: hash_errors_def event_hash_def content_of_def build_event_def AUDIT_HASH_V1_def
      AUDIT_HASH_V2_def)

lemma transition_reconstructed:
  assumes "transition_of cmd (state_of c) actor expected = Inr t" and "materialized c st"
  shows "\<exists>s. reconstruct_event st (build_event lib eid cid n (tr_event_type t) actor
      (role_payload t roles) previous now) = Some s \<and> materialized (updated_row t now c) s"
  using assms(1)
proof (cases rule: transition_cases)
  case (resolved resolution reason)
  with assms(2) show ?thesis
    by (auto simp: materialized_def reconstruct_event_def apply_event_def updated_row_def state_of_def
        payload_text_def role_payload_lookup)
qed (use assms(2) in
  \<open>auto simp: materialized_def reconstruct_event_def apply_event_def updated_row_def state_of_def\<close>)

subsection \<open>The chain grows at its end\<close>

lemma audit_run_snoc:
  "audit_run lib cid (es @ [e]) = audit_step lib cid (audit_run lib cid es) (Suc (length es), e)"
  by (simp add: audit_run_def enumerate_append_eq)

lemma audit_run_hash:
  "es \<noteq> [] \<Longrightarrow> fst (snd (audit_run lib cid es)) = Some (rve_event_hash (last es))"
proof (cases es rule: rev_cases)
  case (snoc ys y)
  then show ?thesis
    by (auto simp: audit_run_snoc audit_step_def Let_def split: prod.splits option.splits)
qed simp

definition chain_ok :: "lib \<Rightarrow> review_event list \<Rightarrow> review_case \<Rightarrow> bool" where
  "chain_ok lib events c \<longleftrightarrow>
     (let es = filter (\<lambda>e. rve_review_case_id e = rvc_id c) events in
      map rve_sequence_number es = [1..<Suc (rvc_version c)]
      \<and> (\<exists>h st. audit_run lib (rvc_id c) es = ([], h, st) \<and> materialized c st))"

definition review_inv :: "lib \<Rightarrow> review_db \<Rightarrow> bool" where
  "review_inv lib db \<longleftrightarrow>
     distinct (map rvc_id (vdb_cases db)) \<and> distinct (map rvc_match_run_id (vdb_cases db))
     \<and> (\<forall>e \<in> set (vdb_events db). rve_review_case_id e \<in> rvc_id ` set (vdb_cases db))
     \<and> (\<forall>t \<in> set (vdb_triggers db). rvt_review_case_id t \<in> rvc_id ` set (vdb_cases db))
     \<and> distinct (map (\<lambda>t. (rvt_review_case_id t, trigger_key t)) (vdb_triggers db))
     \<and> (\<forall>c \<in> set (vdb_cases db). state_shape c \<and> 1 \<le> rvc_version c \<and> chain_ok lib (vdb_events db) c)"

lemma chain_sorted:
  assumes "chain_ok lib (vdb_events db) c"
  shows "case_events db (rvc_id c) = filter (\<lambda>e. rve_review_case_id e = rvc_id c) (vdb_events db)"
proof -
  from assms have "map rve_sequence_number (filter (\<lambda>e. rve_review_case_id e = rvc_id c) (vdb_events db))
      = [1..<Suc (rvc_version c)]" by (simp add: chain_ok_def Let_def)
  then have "sorted (map rve_sequence_number (filter (\<lambda>e. rve_review_case_id e = rvc_id c) (vdb_events db)))"
    by (metis sorted_upt)
  then show ?thesis by (simp add: case_events_def sort_key_id_if_sorted)
qed

lemma chain_other:
  assumes "rve_review_case_id e \<noteq> rvc_id c"
  shows "chain_ok lib (events @ [e]) c \<longleftrightarrow> chain_ok lib events c"
  using assms by (simp add: chain_ok_def Let_def)

text \<open>The row whose sequence number is the version of the case is the end of its chain.\<close>

lemma chain_previous:
  assumes "chain_ok lib events c" and "1 \<le> rvc_version c"
  obtains p where
    "find_row (\<lambda>e. rve_review_case_id e = rvc_id c \<and> rve_sequence_number e = rvc_version c) events = Some p" and
    "p = last (filter (\<lambda>e. rve_review_case_id e = rvc_id c) events)" and
    "filter (\<lambda>e. rve_review_case_id e = rvc_id c) events \<noteq> []"
proof -
  let ?es = "filter (\<lambda>e. rve_review_case_id e = rvc_id c) events"
  have seqs: "map rve_sequence_number ?es = [1..<Suc (rvc_version c)]"
    using assms(1) by (simp add: chain_ok_def Let_def)
  then have ne: "?es \<noteq> []" using assms(2) by auto
  have "length ?es = rvc_version c" using arg_cong [OF seqs, of length] by simp
  then have "map rve_sequence_number ?es ! (length ?es - 1) = rvc_version c"
    using assms(2) by (simp add: seqs del: upt_Suc)
  then have last_seq: "rve_sequence_number (last ?es) = rvc_version c"
    using ne by (simp add: last_conv_nth)
  have inj: "inj_on rve_sequence_number (set ?es)"
    using seqs by (metis distinct_map distinct_upt)
  have mem: "last ?es \<in> set ?es" using ne by (rule last_in_set)
  have "find_row (\<lambda>e. rve_review_case_id e = rvc_id c \<and> rve_sequence_number e = rvc_version c) events
      = Some (last ?es)"
  proof (rule find_row_unique)
    show "y = last ?es" if "y \<in> set events" "rve_review_case_id y = rvc_id c \<and> rve_sequence_number y = rvc_version c" for y
      by (rule inj_onD [OF inj]) (use that last_seq mem in auto)
  qed (use mem last_seq in auto)
  then show ?thesis using ne that by blast
qed

lemma chain_step:
  assumes ok: "chain_ok lib events c" and v: "1 \<le> rvc_version c"
    and t: "transition_of cmd (state_of c) actor expected = Inr t"
    and p: "p = last (filter (\<lambda>e. rve_review_case_id e = rvc_id c) events)"
  shows "chain_ok lib (events @ [build_event lib eid (rvc_id c) (Suc (rvc_version c)) (tr_event_type t)
      actor (role_payload t roles) (Some (rve_event_hash p)) now]) (updated_row t now c)"
proof -
  let ?es = "filter (\<lambda>e. rve_review_case_id e = rvc_id c) events"
  let ?e = "build_event lib eid (rvc_id c) (Suc (rvc_version c)) (tr_event_type t)
      actor (role_payload t roles) (Some (rve_event_hash p)) now"
  have seqs: "map rve_sequence_number ?es = [1..<Suc (rvc_version c)]"
    using ok by (simp add: chain_ok_def Let_def)
  obtain h st where run: "audit_run lib (rvc_id c) ?es = ([], h, st)" and m: "materialized c st"
    using ok by (auto simp: chain_ok_def Let_def)
  have ne: "?es \<noteq> []" using chain_previous [OF ok v] by metis
  then have h: "h = Some (rve_event_hash p)" using audit_run_hash [OF ne, of lib "rvc_id c"] run p by simp
  have len: "length ?es = rvc_version c" using arg_cong [OF seqs, of length] by simp
  obtain s where s: "reconstruct_event st ?e = Some s" "materialized (updated_row t now c) s"
    using transition_reconstructed [OF t m] by blast
  have "audit_run lib (rvc_id c) (?es @ [?e]) = ([], Some (rve_event_hash ?e), s)"
    using run h len s by (simp add: audit_run_snoc audit_step_def)
  with seqs s show ?thesis by (simp add: chain_ok_def Let_def)
qed

subsection \<open>Transitions on a consistent database\<close>

definition applied :: "lib \<Rightarrow> uuid \<Rightarrow> datetime \<Rightarrow> review_case \<Rightarrow> transition \<Rightarrow> string \<Rightarrow> string list \<Rightarrow> review_db \<Rightarrow> review_db" where
  "applied lib eid now c t actor roles db =
     db\<lparr>vdb_cases := update_rows (\<lambda>r. rvc_id r = rvc_id c \<and> rvc_version r = rvc_version c) (updated_row t now) (vdb_cases db),
        vdb_events := vdb_events db @ [build_event lib eid (rvc_id c) (Suc (rvc_version c)) (tr_event_type t)
          actor (role_payload t roles)
          (Some (rve_event_hash (last (filter (\<lambda>e. rve_review_case_id e = rvc_id c) (vdb_events db))))) now]\<rparr>"

lemma inv_row:
  assumes "review_inv lib db" and "c \<in> set (vdb_cases db)"
  shows "state_shape c" "1 \<le> rvc_version c" "chain_ok lib (vdb_events db) c"
    "find_case db (rvc_id c) = Some c"
  using assms by (auto simp: review_inv_def find_case_def intro: find_row_key)

lemma inv_row_unique:
  "review_inv lib db \<Longrightarrow> c \<in> set (vdb_cases db) \<Longrightarrow> d \<in> set (vdb_cases db) \<Longrightarrow> rvc_id d = rvc_id c \<Longrightarrow> d = c"
  by (auto simp: review_inv_def distinct_map dest: inj_onD)

lemma applied_rows:
  assumes "review_inv lib db" and "c \<in> set (vdb_cases db)"
  shows "vdb_cases (applied lib eid now c t actor roles db)
    = map (\<lambda>r. if r = c then updated_row t now c else r) (vdb_cases db)"
proof -
  have "update_rows (\<lambda>r. rvc_id r = rvc_id c \<and> rvc_version r = rvc_version c) (updated_row t now) rs
      = map (\<lambda>r. if r = c then updated_row t now c else r) rs" if "set rs \<subseteq> set (vdb_cases db)" for rs
    using that by (induction rs) (auto dest: inv_row_unique [OF assms])
  then show ?thesis by (simp add: applied_def)
qed

lemma chain_numbers:
  assumes "chain_ok lib events c" and "e \<in> set events" and "rve_review_case_id e = rvc_id c"
  shows "rve_sequence_number e \<le> rvc_version c"
proof -
  from assms have "rve_sequence_number e \<in> set (map rve_sequence_number
      (filter (\<lambda>e. rve_review_case_id e = rvc_id c) events))" by auto
  also have "\<dots> = {1..<Suc (rvc_version c)}"
    using assms(1) by (simp only: chain_ok_def Let_def set_upt)
  finally show ?thesis by simp
qed

lemma review_apply_succeeds:
  assumes inv: "review_inv lib db" and c: "c \<in> set (vdb_cases db)"
    and t: "transition_of cmd (state_of c) actor expected = Inr t"
  shows "review_apply lib eid now c t actor roles db
    = (Inr (updated_row t now c), applied lib eid now c t actor roles db)"
proof -
  let ?hit = "\<lambda>r. rvc_id r = rvc_id c \<and> rvc_version r = rvc_version c"
  let ?db = "applied lib eid now c t actor roles db"
  note row = inv_row [OF inv c]
  have "filter ?hit (vdb_cases db) = filter (\<lambda>r. r = c) (vdb_cases db)"
    by (rule filter_cong) (auto dest: inv_row_unique [OF inv c])
  moreover have "distinct (vdb_cases db)"
    using inv by (simp add: review_inv_def distinct_map)
  moreover have "length (filter (\<lambda>r. r = c) rs) = 1" if "distinct rs" "c \<in> set rs" for rs
    using that by (induction rs) (auto simp: filter_empty_conv)
  ultimately have one: "length (filter ?hit (vdb_cases db)) = 1" using c by simp
  have rows: "update_rows ?hit (updated_row t now) (vdb_cases db)
      = map (\<lambda>r. if r = c then updated_row t now c else r) (vdb_cases db)"
    using applied_rows [OF inv c, of eid now t actor roles] by (simp add: applied_def)
  have shape: "list_all state_shape (update_rows ?hit (updated_row t now) (vdb_cases db))"
    using inv updated_row_shape [OF t row(1)] by (auto simp: rows list_all_iff review_inv_def)
  obtain p where p: "find_row (\<lambda>e. rve_review_case_id e = rvc_id c \<and> rve_sequence_number e = rvc_version c)
      (vdb_events db) = Some p" "p = last (filter (\<lambda>e. rve_review_case_id e = rvc_id c) (vdb_events db))"
    using chain_previous [OF row(3,2)] by metis
  have free: "\<not> list_ex (\<lambda>x. rve_review_case_id x = rvc_id c \<and> rve_sequence_number x = rvc_version c + 1)
      (vdb_events db)"
    using chain_numbers [OF row(3)] by (fastforce simp: list_ex_iff)
  have "review_get ?db (rvc_id c) = Inr (updated_row t now c)"
    using row(4) by (simp add: review_get_def find_case_def applied_def find_row_update_rows)
  with one shape p free show ?thesis
    by (simp add: review_apply_def applied_def Let_def)
qed

lemma applied_inv:
  assumes inv: "review_inv lib db" and c: "c \<in> set (vdb_cases db)"
    and t: "transition_of cmd (state_of c) actor expected = Inr t"
  shows "review_inv lib (applied lib eid now c t actor roles db)"
proof -
  let ?db = "applied lib eid now c t actor roles db"
  note row = inv_row [OF inv c]
  have keys: "map rvc_id (vdb_cases ?db) = map rvc_id (vdb_cases db)"
    "map rvc_match_run_id (vdb_cases ?db) = map rvc_match_run_id (vdb_cases db)"
    by (simp_all add: applied_rows [OF inv c])
  have owned: "(\<forall>e \<in> set (vdb_events ?db). rve_review_case_id e \<in> rvc_id ` set (vdb_cases ?db))
    \<and> (\<forall>t \<in> set (vdb_triggers ?db). rvt_review_case_id t \<in> rvc_id ` set (vdb_cases ?db))
    \<and> vdb_triggers ?db = vdb_triggers db"
  proof -
    have "rvc_id ` set (vdb_cases ?db) = rvc_id ` set (vdb_cases db)"
      using keys(1) by (metis set_map)
    with inv c show ?thesis by (auto simp: review_inv_def applied_def)
  qed
  have ok: "state_shape r \<and> 1 \<le> rvc_version r \<and> chain_ok lib (vdb_events ?db) r"
    if "r \<in> set (vdb_cases ?db)" for r
  proof (cases "r = updated_row t now c")
    case True
    with updated_row_shape [OF t row(1)] chain_step [OF row(3,2) t refl] show ?thesis
      by (simp add: applied_def)
  next
    case False
    with that have r: "r \<in> set (vdb_cases db)" "r \<noteq> c" by (auto simp: applied_rows [OF inv c] split: if_splits)
    then have "rvc_id c \<noteq> rvc_id r" using inv_row_unique [OF inv c] by metis
    with inv_row [OF inv r(1)] show ?thesis by (simp add: applied_def chain_other)
  qed
  from keys owned ok inv show ?thesis by (simp add: review_inv_def)
qed

lemma stale_apply:
  assumes "\<And>r. r \<in> set (vdb_cases db) \<Longrightarrow> rvc_id r = rvc_id c \<Longrightarrow> rvc_version r \<noteq> rvc_version c"
  shows "review_apply lib eid now c t actor roles db = (Inl stale, db)"
proof -
  have "filter (\<lambda>r. rvc_id r = rvc_id c \<and> rvc_version r = rvc_version c) (vdb_cases db) = []"
    using assms by (auto simp: filter_empty_conv)
  then show ?thesis by (simp add: review_apply_def)
qed

subsection \<open>Routing on a consistent database\<close>

definition triggers_of :: "review_db \<Rightarrow> uuid \<Rightarrow> (string \<times> string \<times> uuid) list" where
  "triggers_of db cid = map trigger_key (filter (\<lambda>t. rvt_review_case_id t = cid) (vdb_triggers db))"

lemma ensure_review_triggers_rows [simp]:
  "vdb_cases (ensure_review_triggers fresh c run risk db) = vdb_cases db"
  "vdb_events (ensure_review_triggers fresh c run risk db) = vdb_events db"
  by (simp_all add: ensure_review_triggers_def Let_def)

lemma distinct_trigger_snapshot [simp]: "distinct (trigger_snapshot run risk)"
  by (simp add: trigger_snapshot_def)

lemma new_trigger_keys:
  "map (\<lambda>t. (rvt_review_case_id t, trigger_key t))
     (map (\<lambda>(n, ty, code, src). \<lparr>rvt_id = fresh n, rvt_review_case_id = cid, rvt_trigger_type = ty,
        rvt_trigger_code = code, rvt_source_id = src, rvt_created_at = now\<rparr>) (List.enumerate k ts))
   = map (Pair cid) ts"
  by (induction ts arbitrary: k) (auto simp: trigger_key_def)

lemma ensure_review_triggers_keys:
  "map (\<lambda>t. (rvt_review_case_id t, trigger_key t)) (vdb_triggers (ensure_review_triggers fresh c run risk db))
   = map (\<lambda>t. (rvt_review_case_id t, trigger_key t)) (vdb_triggers db)
     @ map (Pair (rvc_id c)) (filter (\<lambda>k. k \<notin> set (triggers_of db (rvc_id c))) (trigger_snapshot run risk))"
  by (simp add: ensure_review_triggers_def Let_def new_trigger_keys triggers_of_def del: map_map)

lemma set_triggers_of:
  "k \<in> set (triggers_of db cid)
   \<longleftrightarrow> (cid, k) \<in> set (map (\<lambda>t. (rvt_review_case_id t, trigger_key t)) (vdb_triggers db))"
  by (auto simp: triggers_of_def)

lemma triggers_of_ensure:
  "set (triggers_of (ensure_review_triggers fresh c run risk db) (rvc_id c))
   = set (triggers_of db (rvc_id c)) \<union> set (trigger_snapshot run risk)"
proof (rule set_eqI)
  fix k
  show "k \<in> set (triggers_of (ensure_review_triggers fresh c run risk db) (rvc_id c))
      \<longleftrightarrow> k \<in> set (triggers_of db (rvc_id c)) \<union> set (trigger_snapshot run risk)"
    unfolding set_triggers_of ensure_review_triggers_keys set_append
    by (auto simp: image_iff set_triggers_of)
qed

lemma ensure_review_triggers_distinct:
  assumes "distinct (map (\<lambda>t. (rvt_review_case_id t, trigger_key t)) (vdb_triggers db))"
  shows "distinct (map (\<lambda>t. (rvt_review_case_id t, trigger_key t))
    (vdb_triggers (ensure_review_triggers fresh c run risk db)))"
  using assms by (simp only: ensure_review_triggers_keys distinct_append)
    (auto simp: distinct_map inj_on_def triggers_of_def)

lemma ensure_review_triggers_owner:
  "t \<in> set (vdb_triggers (ensure_review_triggers fresh c run risk db)) \<Longrightarrow>
    t \<in> set (vdb_triggers db) \<or> rvt_review_case_id t = rvc_id c"
  by (auto simp: ensure_review_triggers_def Let_def)

lemma ensure_review_triggers_again:
  assumes "set (trigger_snapshot run risk) \<subseteq> set (triggers_of db (rvc_id c))"
  shows "ensure_review_triggers fresh c run risk db = db"
proof -
  have "filter (\<lambda>k. k \<notin> set (triggers_of db (rvc_id c))) (trigger_snapshot run risk) = []"
    using assms by (auto simp: filter_empty_conv)
  then show ?thesis by (simp add: ensure_review_triggers_def Let_def triggers_of_def)
qed

lemma ensure_triggers_inv:
  assumes "review_inv lib db" and "c \<in> set (vdb_cases db)"
  shows "review_inv lib (ensure_review_triggers fresh c run risk db)"
  using assms ensure_review_triggers_distinct [of db fresh c run risk]
  by (auto simp: review_inv_def dest!: ensure_review_triggers_owner [of _ fresh c run risk db])

lemma opened_chain:
  assumes "filter (\<lambda>e. rve_review_case_id e = rvc_id c) events = []"
    and "rvc_status c = OPEN" "rvc_assigned_reviewer_id c = None" "rvc_version c = 1"
      "rvc_resolution c = None" "rvc_resolution_reason c = None"
  shows "chain_ok lib (events @ [build_event lib eid (rvc_id c) 1 CASE_OPENED SYSTEM_ACTOR_ID payload None now]) c"
proof -
  let ?e = "build_event lib eid (rvc_id c) 1 CASE_OPENED SYSTEM_ACTOR_ID payload None now"
  obtain s where s: "reconstruct_event blank_state ?e = Some s" "materialized c s"
    using assms by (simp add: reconstruct_event_def blank_state_def apply_event_def materialized_def)
  have "audit_run lib (rvc_id c) ([] @ [?e]) = ([], Some (rve_event_hash ?e), s)"
    using s(1) by (simp only: audit_run_snoc) (simp add: audit_run_def audit_step_def)
  with assms s(2) show ?thesis by (simp add: chain_ok_def Let_def)
qed

lemma ensure_review_case_inv:
  assumes inv: "review_inv lib db" and fresh: "fresh 0 \<notin> rvc_id ` set (vdb_cases db)"
    and run: "ensure_review_case lib fresh now run risk db = (r, db')"
  shows "review_inv lib db'"
proof (cases "requires_review run risk")
  case req: True
  show ?thesis
  proof (cases "find_case_of_run db (mrun_id run)")
    case None
    define c where "c = \<lparr>rvc_id = fresh 0, rvc_match_run_id = mrun_id run, rvc_status = OPEN,
      rvc_assigned_reviewer_id = None, rvc_version = 1, rvc_opened_at = now, rvc_claimed_at = None,
      rvc_resolved_at = None, rvc_resolution = None, rvc_resolution_reason = None\<rparr>"
    define e where "e = build_event lib (fresh 1) (rvc_id c) 1 CASE_OPENED SYSTEM_ACTOR_ID
      (opening_payload run risk) None now"
    let ?db = "db\<lparr>vdb_cases := vdb_cases db @ [c], vdb_events := vdb_events db @ [e]\<rparr>"
    have new: "rvc_id c \<notin> rvc_id ` set (vdb_cases db)" using fresh by (simp add: c_def)
    have none: "filter (\<lambda>e. rve_review_case_id e = rvc_id c) (vdb_events db) = []"
    proof -
      have "rve_review_case_id x \<noteq> rvc_id c" if "x \<in> set (vdb_events db)" for x
        using that inv new unfolding review_inv_def by metis
      then show ?thesis by (simp add: filter_empty_conv)
    qed
    have chain: "chain_ok lib (vdb_events db @ [e]) c"
      unfolding e_def by (rule opened_chain) (use none in \<open>simp_all add: c_def\<close>)
    have others: "chain_ok lib (vdb_events db @ [e]) d" if "d \<in> set (vdb_cases db)" for d
    proof -
      have "rve_review_case_id e \<noteq> rvc_id d" using that new by (auto simp: e_def)
      with inv_row(3) [OF inv that] show ?thesis by (simp add: chain_other)
    qed
    have shape: "state_shape c \<and> 1 \<le> rvc_version c" by (simp add: c_def state_shape_def)
    have runs: "mrun_id run \<notin> rvc_match_run_id ` set (vdb_cases db)"
      using None by (auto simp: find_case_of_run_def find_row_None_iff)
    have "review_inv lib ?db"
      using inv new runs chain others shape
      by (auto simp: review_inv_def e_def c_def [symmetric]) (auto simp: c_def)
    then have "review_inv lib (ensure_review_triggers (\<lambda>n. fresh (n + 2)) c run risk ?db)"
      by (rule ensure_triggers_inv) simp
    with run req None show ?thesis
      by (auto simp: ensure_review_case_def Let_def c_def e_def)
  next
    case (Some c)
    then have "c \<in> set (vdb_cases db)" by (auto simp: find_case_of_run_def dest: find_row_Some)
    with run req Some show ?thesis by (auto simp: ensure_review_case_def intro: ensure_triggers_inv [OF inv])
  qed
qed (use run inv in \<open>auto simp: ensure_review_case_def\<close>)

subsection \<open>Interleaved reviewers\<close>

text \<open>
  A state is the database and the transitions that reviewers have computed from rows they read and
  not applied yet. \<^verbatim>\<open>uuid4\<close> gives an identifier that no case has.
\<close>

type_synonym review_system = "review_db \<times> (review_case \<times> transition \<times> string) set"

inductive review_step :: "lib \<Rightarrow> review_system \<Rightarrow> review_system \<Rightarrow> bool" for lib where
  routed: "fresh 0 \<notin> rvc_id ` set (vdb_cases db) \<Longrightarrow>
     review_step lib (db, P) (snd (ensure_review_case lib fresh now run risk db), P)"
| prepared: "review_get db cid = Inr c \<Longrightarrow> transition_of cmd (state_of c) actor expected = Inr t \<Longrightarrow>
     review_step lib (db, P) (db, insert (c, t, actor) P)"
| committed: "(c, t, actor) \<in> P \<Longrightarrow>
     review_step lib (db, P) (snd (review_apply lib eid now c t actor roles db), P - {(c, t, actor)})"

definition empty_review_db :: review_db where
  "empty_review_db = \<lparr>vdb_cases = [], vdb_events = [], vdb_triggers = []\<rparr>"

definition review_start :: "review_system \<Rightarrow> bool" where
  "review_start s \<longleftrightarrow> s = (empty_review_db, {})"

text \<open>A pending transition fits the row it was read from; a row of that version is that row.\<close>

definition pending_ok :: "review_db \<Rightarrow> review_case \<times> transition \<times> string \<Rightarrow> bool" where
  "pending_ok db p \<longleftrightarrow>
     (case p of (c, t, actor) \<Rightarrow>
        (\<exists>cmd expected. transition_of cmd (state_of c) actor expected = Inr t)
        \<and> (\<exists>r \<in> set (vdb_cases db). rvc_id r = rvc_id c
             \<and> rvc_version c \<le> rvc_version r \<and> (rvc_version r = rvc_version c \<longrightarrow> r = c)))"

definition system_inv :: "lib \<Rightarrow> review_system \<Rightarrow> bool" where
  "system_inv lib s \<longleftrightarrow> review_inv lib (fst s) \<and> (\<forall>p \<in> snd s. pending_ok (fst s) p)"

lemma pending_applied:
  assumes "review_inv lib db" and "c \<in> set (vdb_cases db)" and "pending_ok db p"
  shows "pending_ok (applied lib eid now c t actor roles db) p"
proof -
  obtain d u b where p: "p = (d, u, b)" by (cases p)
  then obtain r where r: "r \<in> set (vdb_cases db)" "rvc_id r = rvc_id d" "rvc_version d \<le> rvc_version r"
      "rvc_version r = rvc_version d \<longrightarrow> r = d"
    using assms(3) by (auto simp: pending_ok_def)
  let ?r = "if r = c then updated_row t now c else r"
  have "?r \<in> set (vdb_cases (applied lib eid now c t actor roles db))"
    using r(1) by (auto simp: applied_rows [OF assms(1,2)])
  moreover have "rvc_id ?r = rvc_id d \<and> rvc_version d \<le> rvc_version ?r \<and> (rvc_version ?r = rvc_version d \<longrightarrow> ?r = d)"
    using r by auto
  ultimately show ?thesis using assms(3) by (auto simp: pending_ok_def p)
qed

lemma pending_apply:
  assumes inv: "review_inv lib db" and p: "pending_ok db (c, t, actor)"
  shows "(c \<in> set (vdb_cases db) \<and> review_apply lib eid now c t actor roles db
      = (Inr (updated_row t now c), applied lib eid now c t actor roles db)
      \<and> review_inv lib (applied lib eid now c t actor roles db))
    \<or> review_apply lib eid now c t actor roles db = (Inl stale, db)"
proof -
  obtain cmd expected r where t: "transition_of cmd (state_of c) actor expected = Inr t"
    and r: "r \<in> set (vdb_cases db)" "rvc_id r = rvc_id c" "rvc_version r = rvc_version c \<longrightarrow> r = c"
    using p by (auto simp: pending_ok_def)
  show ?thesis
  proof (cases "rvc_version r = rvc_version c")
    case True
    with r have "c \<in> set (vdb_cases db)" by auto
    with review_apply_succeeds [OF inv _ t] applied_inv [OF inv _ t] show ?thesis by blast
  next
    case False
    then have "review_apply lib eid now c t actor roles db = (Inl stale, db)"
      using inv_row_unique [OF inv r(1)] r(2) by (intro stale_apply) metis
    then show ?thesis ..
  qed
qed

lemma pending_more:
  assumes "pending_ok db p" and "set (vdb_cases db) \<subseteq> set (vdb_cases db')"
  shows "pending_ok db' p"
  using assms by (auto simp: pending_ok_def split: prod.splits)

lemma ensure_review_case_grows:
  "set (vdb_cases db) \<subseteq> set (vdb_cases (snd (ensure_review_case lib fresh now run risk db)))"
  by (auto simp: ensure_review_case_def Let_def split: option.splits)

lemma system_inv_step:
  assumes "review_step lib s s'" and "system_inv lib s"
  shows "system_inv lib s'"
  using assms(1)
proof (cases rule: review_step.cases)
  case (routed fresh db P now run risk)
  have "review_inv lib db" using assms(2) routed by (simp add: system_inv_def)
  from ensure_review_case_inv [OF this, of fresh now run risk] routed
  have "review_inv lib (snd (ensure_review_case lib fresh now run risk db))"
    by (metis prod.collapse)
  with routed assms(2) pending_more [OF _ ensure_review_case_grows] show ?thesis
    by (auto simp: system_inv_def)
next
  case (prepared db cid c cmd actor expected t P)
  then have "c \<in> set (vdb_cases db)"
    by (auto simp: review_get_def find_case_def split: option.splits dest: find_row_Some)
  with prepared assms(2) show ?thesis by (auto simp: system_inv_def pending_ok_def)
next
  case (committed c t actor P db eid now roles)
  then have inv: "review_inv lib db" and p: "pending_ok db (c, t, actor)"
    using assms(2) by (auto simp: system_inv_def)
  from pending_apply [OF inv p, of eid now roles] show ?thesis
    using committed assms(2) pending_applied [OF inv] by (auto simp: system_inv_def)
qed

interpretation review_machine: inductive_system review_start "review_step lib" "system_inv lib" for lib
proof
  show "system_inv lib s" if "review_start s" for s
    using that by (simp add: review_start_def system_inv_def review_inv_def empty_review_db_def)
qed (rule system_inv_step)

lemma reachable_inv: "reachable_from review_start (review_step lib) (db, P) \<Longrightarrow> review_inv lib db"
  using review_machine.inv_reachable by (fastforce simp: system_inv_def)

lemma second_apply_stale:
  assumes "review_apply lib e1 now1 c t1 actor1 roles1 db = (Inr c', db')"
  shows "review_apply lib e2 now2 c t2 actor2 roles2 db' = (Inl stale, db')"
proof (rule stale_apply)
  let ?hit = "\<lambda>r. rvc_id r = rvc_id c \<and> rvc_version r = rvc_version c"
  have "vdb_cases db' = update_rows ?hit (updated_row t1 now1) (vdb_cases db)"
    using assms by (auto simp: review_apply_def Let_def split: if_splits option.splits)
  then show "rvc_version r \<noteq> rvc_version c" if "r \<in> set (vdb_cases db')" "rvc_id r = rvc_id c" for r
    using that by (auto simp: set_update_rows split: if_splits)
qed

subsection \<open>Properties of the transitions\<close>

text \<open>
  C3: the audit trail is always valid. Whatever reviewers do and however their reads and updates
  interleave, verification of any case reports no error, counts as many events as the case has
  versions, and reconstructs the stored row.
\<close>

theorem review_audit_always_valid:
  assumes "reachable_from review_start (review_step lib) (db, P)" and "c \<in> set (vdb_cases db)"
  shows "\<exists>v. verify_audit lib db (rvc_id c) = Inr v \<and> av_valid v \<and> av_errors v = []
    \<and> av_event_count v = rvc_version c \<and> materialized c (av_reconstructed v)"
proof -
  note inv = reachable_inv [OF assms(1)]
  note row = inv_row [OF inv assms(2)]
  from row(3) obtain h st where
    run: "audit_run lib (rvc_id c) (case_events db (rvc_id c)) = ([], h, st)" "materialized c st"
    by (auto simp: chain_sorted [OF row(3)] chain_ok_def Let_def)
  have "length (map rve_sequence_number (case_events db (rvc_id c))) = rvc_version c"
    using row(3) by (simp only: chain_sorted [OF row(3)] chain_ok_def Let_def length_upt)
  with run row(4) show ?thesis
    by (simp add: verify_audit_def review_get_def Let_def)
qed

text \<open>
  C20: the version protects a case. Of two transitions computed from the same version of a case, the
  one that is applied second fails with \<open>STALE_VERSION\<close> and changes nothing.
\<close>

theorem review_first_writer_wins:
  assumes "review_apply lib e1 now1 c t1 actor1 roles1 db = (Inr c', db')"
  shows "review_apply lib e2 now2 c t2 actor2 roles2 db' = (Inl stale, db')"
  using assms by (rule second_apply_stale)

text \<open>
  applying a transition fails in one way only. In every reachable state, a transition that a
  reviewer prepared either is applied or is refused as stale with the database unchanged; neither
  the shape constraint nor a gap in the history stops it.
\<close>

theorem review_fails_only_stale:
  assumes "reachable_from review_start (review_step lib) (db, P)" and "(c, t, actor) \<in> P"
    and "review_apply lib eid now c t actor roles db = (Inl e, db')"
  shows "e = stale \<and> db' = db"
proof -
  have "review_inv lib db" "pending_ok db (c, t, actor)"
    using review_machine.inv_reachable [OF assms(1)] assms(2) by (auto simp: system_inv_def)
  from pending_apply [OF this, of eid now roles] assms(3) show ?thesis by auto
qed

lemma review_act_succeeds:
  assumes "review_inv lib db" and "find_case db cid = Some c"
    and "transition_of cmd (state_of c) actor expected = Inr t"
  shows "review_act lib eid now cmd cid actor expected roles db
      = (Inr (updated_row t now c), applied lib eid now c t actor roles db)
    \<and> review_inv lib (applied lib eid now c t actor roles db)
    \<and> find_case (applied lib eid now c t actor roles db) cid = Some (updated_row t now c)"
proof -
  have c: "c \<in> set (vdb_cases db)" "rvc_id c = cid"
    using assms(2) by (auto simp: find_case_def dest: find_row_Some)
  have "updated_row t now c \<in> set (vdb_cases (applied lib eid now c t actor roles db))"
    using c by (auto simp: applied_rows [OF assms(1) c(1)])
  with c assms review_apply_succeeds [OF assms(1) c(1) assms(3)] applied_inv [OF assms(1) c(1) assms(3)]
  show ?thesis
    using inv_row(4) [OF applied_inv [OF assms(1) c(1) assms(3)], of "updated_row t now c" eid now roles]
    by (auto simp: review_act_def review_get_def)
qed

text \<open>
  C35: an open case can be resolved. In every reachable state a reviewer who claims an open case with
  its version and then resolves it with a reason that is not blank succeeds twice, and the case
  holds the resolution and the trimmed reason.
\<close>

theorem review_open_case_resolvable:
  assumes "reachable_from review_start (review_step lib) (db, P)" and "c \<in> set (vdb_cases db)"
    and "rvc_status c = OPEN" and "py_strip reason \<noteq> []"
  shows "\<exists>c1 db1 c2 db2.
    review_act lib e1 now1 Claim (rvc_id c) actor (rvc_version c) roles db = (Inr c1, db1)
    \<and> review_act lib e2 now2 (Resolve resolution reason) (rvc_id c) actor (rvc_version c + 1) roles db1 = (Inr c2, db2)
    \<and> rvc_status c2 = RESOLVED \<and> rvc_assigned_reviewer_id c2 = Some actor
    \<and> rvc_resolution c2 = Some resolution \<and> rvc_resolution_reason c2 = Some (py_strip reason)"
proof -
  note inv = reachable_inv [OF assms(1)]
  obtain t1 where t1: "transition_of Claim (state_of c) actor (rvc_version c) = Inr t1"
    "tr_status t1 = CLAIMED" "tr_assignee t1 = Some actor"
    using assms(3) by (simp add: transition_of_def claim_def guarded_def validate_expected_version_def state_of_def)
  let ?c1 = "updated_row t1 now1 c" and ?db1 = "applied lib e1 now1 c t1 actor roles db"
  note first = review_act_succeeds [OF inv inv_row(4) [OF inv assms(2)] t1(1), of e1 now1 roles]
  obtain t2 where t2: "transition_of (Resolve resolution reason) (state_of ?c1) actor (rvc_version c + 1) = Inr t2"
    "tr_status t2 = RESOLVED" "tr_assignee t2 = Some actor" "tr_resolution t2 = Some resolution"
    "tr_resolution_reason t2 = Some (py_strip reason)"
    using t1 assms(4) by (simp add: transition_of_def resolve_def guarded_def validate_expected_version_def
        require_assigned_claim_def state_of_def updated_row_def)
  from first have "review_inv lib ?db1" "find_case ?db1 (rvc_id c) = Some ?c1" by blast+
  from first review_act_succeeds [OF this t2(1), of e2 now2 roles] t2 show ?thesis
    by (auto simp: updated_row_def)
qed

subsection \<open>Properties of the routing\<close>

lemma ensure_review_case_facts:
  assumes "ensure_review_case lib fresh now run risk db = ((r, created), db')"
  shows "(r \<noteq> None \<longleftrightarrow> requires_review run risk)
    \<and> (created \<longleftrightarrow> requires_review run risk \<and> find_case_of_run db (mrun_id run) = None)
    \<and> (\<forall>c. r = Some c \<longrightarrow> find_case_of_run db' (mrun_id run) = Some c
         \<and> set (triggers_of db' (rvc_id c)) = set (triggers_of db (rvc_id c)) \<union> set (trigger_snapshot run risk))
    \<and> ensure_review_case lib fresh' now' run risk db' = ((r, False), db')"
proof (cases r)
  case None
  then show ?thesis
    using assms by (auto simp: ensure_review_case_def Let_def split: if_splits option.splits)
next
  case (Some c)
  then have req: "requires_review run risk"
    using assms by (auto simp: ensure_review_case_def split: if_splits)
  obtain base where base: "db' = ensure_review_triggers (\<lambda>n. fresh (n + 2)) c run risk base"
    and trig: "triggers_of base = triggers_of db" and found: "find_case_of_run base (mrun_id run) = Some c"
    using assms Some req
    by (cases "find_case_of_run db (mrun_id run)")
      (auto simp: ensure_review_case_def Let_def triggers_of_def find_case_of_run_def find_row_append fun_eq_iff)
  have found': "find_case_of_run db' (mrun_id run) = Some c"
    using found by (simp add: base find_case_of_run_def)
  have sets: "set (triggers_of db' (rvc_id c)) = set (triggers_of db (rvc_id c)) \<union> set (trigger_snapshot run risk)"
    using trig by (simp add: base triggers_of_ensure)
  then have "ensure_review_triggers (\<lambda>n. fresh' (n + 2)) c run risk db' = db'"
    by (intro ensure_review_triggers_again) simp
  moreover have "created \<longleftrightarrow> find_case_of_run db (mrun_id run) = None"
    using assms req by (simp add: ensure_review_case_def Let_def split: option.splits) metis+
  ultimately show ?thesis
    using Some req found' sets by (simp add: ensure_review_case_def)
qed

text \<open>
  a match run has a review case exactly when matching or duplicate risk asks for review. The case
  is created once, its triggers are the earlier ones and the reasons and signals of the run, and
  routing the run again finds the case and changes nothing.
\<close>

theorem review_routing:
  assumes "ensure_review_case lib fresh now run risk db = ((r, created), db')"
  shows "(r \<noteq> None \<longleftrightarrow> requires_review run risk)
    \<and> (created \<longleftrightarrow> requires_review run risk \<and> find_case_of_run db (mrun_id run) = None)
    \<and> (\<forall>c. r = Some c \<longrightarrow> find_case_of_run db' (mrun_id run) = Some c
         \<and> set (triggers_of db' (rvc_id c)) = set (triggers_of db (rvc_id c)) \<union> set (trigger_snapshot run risk))
    \<and> ensure_review_case lib fresh' now' run risk db' = ((r, False), db')"
  using assms by (rule ensure_review_case_facts)

subsection \<open>Properties of the queue\<close>

definition queue_listing :: "queue_filter \<Rightarrow> (int \<times> nat) option \<Rightarrow> review_db \<Rightarrow> review_case list" where
  "queue_listing f cursor db = rev (sort_key queue_rank (filter (queue_row_ok f cursor) (vdb_cases db)))"

lemma rank_less: "queue_rank c < (t, i) \<longleftrightarrow> dt_utc (rvc_opened_at c) < t \<or> (dt_utc (rvc_opened_at c) = t \<and> rvc_id c < i)"
  by (auto simp: queue_rank_def)

lemma queue_row_ok_cursor:
  "queue_row_ok f (Some k) c \<longleftrightarrow> queue_row_ok f None c \<and> queue_rank c < k"
  by (cases k) (auto simp: queue_row_ok_def opt_holds_def queue_rank_def)

lemma queue_listing_cursor:
  "queue_listing f (Some k) db = filter (\<lambda>c. queue_rank c < k) (queue_listing f None db)"
proof -
  have "filter (queue_row_ok f (Some k)) (vdb_cases db)
      = filter (\<lambda>c. queue_rank c < k) (filter (queue_row_ok f None) (vdb_cases db))"
    by (simp add: filter_filter) (rule filter_cong, auto simp: queue_row_ok_cursor)
  then show ?thesis by (simp add: queue_listing_def filter_sort flip: rev_filter)
qed

lemma queue_listing_ordered:
  assumes "distinct (map rvc_id (vdb_cases db))"
  shows "sorted_wrt (\<lambda>c d. queue_rank d < queue_rank c) (queue_listing f cursor db)"
proof -
  let ?xs = "sort_key queue_rank (filter (queue_row_ok f cursor) (vdb_cases db))"
  have "inj_on queue_rank (set ?xs)"
    using assms by (auto simp: inj_on_def distinct_map queue_rank_def)
  moreover have "distinct ?xs" using assms by (simp add: distinct_map)
  ultimately have "sorted_wrt (<) (map queue_rank ?xs)"
    by (simp add: strict_sorted_iff distinct_map)
  then show ?thesis by (simp add: queue_listing_def sorted_wrt_rev sorted_wrt_map)
qed

lemma filter_below_last:
  assumes "sorted_wrt (\<lambda>c d. g d < g c) (xs @ [x] @ ys)"
  shows "filter (\<lambda>c. (g c :: 'a :: linorder) < g x) (xs @ [x] @ ys) = ys"
proof -
  have "filter (\<lambda>c. g c < g x) xs = []" using assms by (auto simp: sorted_wrt_append filter_empty_conv)
  moreover have "filter (\<lambda>c. g c < g x) ys = ys" using assms by (auto simp: sorted_wrt_append filter_id_conv)
  ultimately show ?thesis by simp
qed

text \<open>
  Paging through the review queue neither skips nor repeats a case when no trigger filter is set.
  From any cursor, a page without a next cursor is the rest of the queue; otherwise the rest is the
  page, of full length, followed by what its next cursor gives.
\<close>

theorem review_queue_pages:
  assumes "distinct (map rvc_id (vdb_cases db))" and "0 < limit"
    and "qf_trigger_type f = None" "qf_trigger_code f = None" "qf_reason_code f = None"
    and "list_cases f cursor limit db = (page, next)"
  shows "case next of
      None \<Rightarrow> page = queue_listing f cursor db
    | Some k \<Rightarrow> queue_listing f cursor db = page @ queue_listing f (Some k) db \<and> length page = limit"
proof -
  let ?rows = "queue_listing f cursor db"
  have page: "page = take limit ?rows"
    and "next": "next = (if limit < length ?rows then Some (queue_rank (last page)) else None)"
    using assms by (auto simp: list_cases_def effective_filter_def joined_rows_def queue_listing_def Let_def)
  show ?thesis
  proof (cases "limit < length ?rows")
    case False
    with page "next" show ?thesis by simp
  next
    case True
    then have len: "length page = limit" using page by simp
    with assms(2) obtain xs x where x: "page = xs @ [x]" by (cases page rule: rev_cases) auto
    then have rows: "?rows = xs @ [x] @ drop limit ?rows"
      using page by (metis append_assoc append_take_drop_id)
    have ord: "sorted_wrt (\<lambda>c d. queue_rank d < queue_rank c) (xs @ [x] @ drop limit ?rows)"
      using queue_listing_ordered [OF assms(1), of f cursor] rows by simp
    have "queue_listing f (Some (queue_rank x)) db = filter (\<lambda>c. queue_rank c < queue_rank x) ?rows"
    proof (cases cursor)
      case (Some k)
      have "x \<in> set ?rows" by (subst rows) simp
      then have "queue_rank x < k" using Some by (simp add: queue_listing_cursor)
      then show ?thesis
        unfolding Some by (subst (1 2) queue_listing_cursor) (auto intro!: filter_cong)
    qed (simp add: queue_listing_cursor)
    also have "\<dots> = drop limit ?rows" using filter_below_last [OF ord] rows by metis
    finally show ?thesis using True "next" x rows len page by simp
  qed
qed

definition all_cases :: queue_filter where
  "all_cases = \<lparr>qf_status = None, qf_assignee = None, qf_trigger_type = None, qf_trigger_code = None,
     qf_reason_code = None, qf_created_before = None, qf_created_after = None\<rparr>"

subsection \<open>Witnesses\<close>

definition sample_review_run :: match_run where
  "sample_review_run = sample_run\<lparr>mrun_decision := NEEDS_REVIEW,
     mrun_result := sample_result\<lparr>mr_decision := NEEDS_REVIEW,
       mr_reason_codes := [QUANTITY_MISMATCH, CURRENCY_MISMATCH]\<rparr>\<rparr>"

definition sample_review_case :: review_case where
  "sample_review_case = \<lparr>rvc_id = 50, rvc_match_run_id = 2, rvc_status = OPEN,
     rvc_assigned_reviewer_id = None, rvc_version = 1, rvc_opened_at = sample_time 738100,
     rvc_claimed_at = None, rvc_resolved_at = None, rvc_resolution = None, rvc_resolution_reason = None\<rparr>"

definition sample_review_db :: review_db where
  "sample_review_db = snd (ensure_review_case sample_lib (\<lambda>k. 50 + k) (sample_time 738100)
     sample_review_run None empty_review_db)"

lemma sample_review_routed:
  "ensure_review_case sample_lib (\<lambda>k. 50 + k) (sample_time 738100) sample_review_run None empty_review_db
    = ((Some sample_review_case, True), sample_review_db)"
  by (simp add: ensure_review_case_def sample_review_db_def Let_def empty_review_db_def
      find_case_of_run_def requires_review_def sample_review_run_def sample_review_case_def sample_run_def)

lemma sample_review_cases: "vdb_cases sample_review_db = [sample_review_case]"
  by (simp add: sample_review_db_def ensure_review_case_def Let_def empty_review_db_def
      find_case_of_run_def requires_review_def sample_review_run_def sample_review_case_def sample_run_def)

lemma sample_review_reachable:
  "reachable_from review_start (review_step sample_lib) (sample_review_db, {})"
proof (rule reach_step)
  show "reachable_from review_start (review_step sample_lib) (empty_review_db, {})"
    by (rule reach_start) (simp add: review_start_def)
  show "review_step sample_lib (empty_review_db, {}) (sample_review_db, {})"
    unfolding sample_review_db_def by (rule routed) (simp add: empty_review_db_def)
qed

definition sample_claim :: transition where
  "sample_claim = \<lparr>tr_event_type = CASE_CLAIMED, tr_status = CLAIMED, tr_assignee = Some ''ana'',
     tr_resolution = None, tr_resolution_reason = None, tr_payload = [(''reviewer_id'', JStr ''ana'')]\<rparr>"

lemma sample_claim_transition:
  "transition_of Claim (state_of sample_review_case) ''ana'' 1 = Inr sample_claim"
  by (simp add: transition_of_def claim_def guarded_def validate_expected_version_def state_of_def
      sample_review_case_def sample_claim_def)

lemma sample_claim_applies:
  "\<exists>c' db'. review_apply sample_lib 60 (sample_time 738101) sample_review_case sample_claim ''ana'' []
     sample_review_db = (Inr c', db')"
  using review_apply_succeeds [OF reachable_inv [OF sample_review_reachable] _ sample_claim_transition]
  by (auto simp: sample_review_cases)

theorem review_audit_always_valid_witness:
  "\<exists>v. verify_audit sample_lib sample_review_db 50 = Inr v \<and> av_valid v \<and> av_event_count v = 1"
  using review_audit_always_valid [OF sample_review_reachable, of sample_review_case]
  by (auto simp: sample_review_cases sample_review_case_def)

theorem review_first_writer_wins_witness:
  "\<exists>c' db'. review_apply sample_lib 60 (sample_time 738101) sample_review_case sample_claim ''ana'' []
       sample_review_db = (Inr c', db')
     \<and> review_apply sample_lib 61 (sample_time 738102) sample_review_case sample_claim ''ana'' [] db'
       = (Inl stale, db')"
  using sample_claim_applies review_first_writer_wins by blast

theorem review_fails_only_stale_witness:
  "\<exists>db P e db'. reachable_from review_start (review_step sample_lib) (db, P)
     \<and> (sample_review_case, sample_claim, ''ana'') \<in> P
     \<and> review_apply sample_lib 61 (sample_time 738102) sample_review_case sample_claim ''ana'' [] db = (Inl e, db')
     \<and> e = stale \<and> db' = db"
proof -
  let ?p = "(sample_review_case, sample_claim, ''ana'')"
  have get: "review_get sample_review_db 50 = Inr sample_review_case"
    by (simp add: review_get_def find_case_def sample_review_cases sample_review_case_def)
  have one: "reachable_from review_start (review_step sample_lib) (sample_review_db, {?p})"
    by (rule reach_step, rule sample_review_reachable, rule prepared, rule get, rule sample_claim_transition)
  obtain t where t: "transition_of (Comment ''hello'') (state_of sample_review_case) ''bob'' 1 = Inr t"
    by (simp add: transition_of_def comment_def guarded_def validate_expected_version_def state_of_def
        sample_review_case_def)
  have ne: "(sample_review_case, t, ''bob'') \<noteq> ?p" by simp
  have two: "reachable_from review_start (review_step sample_lib)
      (sample_review_db, {(sample_review_case, t, ''bob''), ?p})"
    by (rule reach_step, rule one, rule prepared, rule get, rule t)
  obtain c2 db2 where ap2: "review_apply sample_lib 60 (sample_time 738101) sample_review_case t ''bob'' []
      sample_review_db = (Inr c2, db2)"
    using review_apply_succeeds [OF reachable_inv [OF sample_review_reachable] _ t]
    by (auto simp: sample_review_cases)
  have "review_step sample_lib (sample_review_db, {(sample_review_case, t, ''bob''), ?p}) (db2, {?p})"
    using committed [where lib = sample_lib and c = sample_review_case and t = t and actor = "''bob''"
        and eid = 60 and now = "sample_time 738101" and roles = "[]" and db = sample_review_db
        and P = "{(sample_review_case, t, ''bob''), ?p}"] ap2 ne by (simp add: insert_Diff_if)
  with two have "reachable_from review_start (review_step sample_lib) (db2, {?p})" by (rule reach_step)
  moreover have "review_apply sample_lib 61 (sample_time 738102) sample_review_case sample_claim ''ana'' [] db2
      = (Inl stale, db2)"
    using ap2 by (rule second_apply_stale)
  ultimately show ?thesis
    using review_fails_only_stale [of sample_lib db2 "{?p}" sample_review_case sample_claim "''ana''"] by blast
qed

theorem review_open_case_resolvable_witness:
  "\<exists>c1 db1 c2 db2.
    review_act sample_lib 60 (sample_time 738101) Claim 50 ''ana'' 1 [] sample_review_db = (Inr c1, db1)
    \<and> review_act sample_lib 61 (sample_time 738102) (Resolve ACCEPTED_EXCEPTION '' ok '') 50 ''ana'' 2 [] db1
      = (Inr c2, db2)
    \<and> rvc_resolution_reason c2 = Some ''ok''"
proof -
  have strip: "py_strip '' ok '' = ''ok''" by code_simp
  have fields: "rvc_status sample_review_case = OPEN" "rvc_id sample_review_case = 50"
    "rvc_version sample_review_case = 1"
    by (simp_all add: sample_review_case_def)
  show ?thesis
    using review_open_case_resolvable [OF sample_review_reachable, of sample_review_case "'' ok ''" 60
        "sample_time 738101" "''ana''" "[]" 61 "sample_time 738102" ACCEPTED_EXCEPTION]
    by (auto simp: fields strip sample_review_cases numeral_2_eq_2)
qed

theorem review_routing_witness:
  "find_case_of_run sample_review_db 2 = Some sample_review_case
   \<and> ensure_review_case sample_lib (\<lambda>k. 90 + k) (sample_time 738200) sample_review_run None sample_review_db
     = ((Some sample_review_case, False), sample_review_db)"
proof -
  have "mrun_id sample_review_run = 2" by (simp add: sample_review_run_def sample_run_def)
  with review_routing [OF sample_review_routed, where fresh' = "\<lambda>k. 90 + k" and now' = "sample_time 738200"]
  show ?thesis by auto
qed

theorem review_queue_pages_witness:
  "queue_listing all_cases None
     (sample_review_db\<lparr>vdb_cases := [sample_review_case, sample_review_case\<lparr>rvc_id := 51\<rparr>]\<rparr>)
   = [sample_review_case\<lparr>rvc_id := 51\<rparr>]
     @ queue_listing all_cases (Some (queue_rank (sample_review_case\<lparr>rvc_id := 51\<rparr>)))
         (sample_review_db\<lparr>vdb_cases := [sample_review_case, sample_review_case\<lparr>rvc_id := 51\<rparr>]\<rparr>)"
proof -
  let ?db = "sample_review_db\<lparr>vdb_cases := [sample_review_case, sample_review_case\<lparr>rvc_id := 51\<rparr>]\<rparr>"
  have page: "list_cases all_cases None 1 ?db
      = ([sample_review_case\<lparr>rvc_id := 51\<rparr>], Some (queue_rank (sample_review_case\<lparr>rvc_id := 51\<rparr>)))"
    by (simp add: list_cases_def effective_filter_def all_cases_def joined_rows_def queue_row_ok_def
        opt_holds_def queue_rank_def sample_review_case_def Let_def)
  have "distinct (map rvc_id (vdb_cases ?db))" by (simp add: sample_review_case_def)
  from review_queue_pages [OF this _ _ _ _ page] show ?thesis by (simp add: all_cases_def)
qed

text \<open>
  A filter by trigger type alone repeats a case once per trigger of that type. The run with two
  reasons has one case, and the first page of the queue of match reasons shows it twice.
\<close>

theorem review_queue_repeats_case:
  "fst (list_cases (all_cases\<lparr>qf_trigger_type := Some MATCH_REASON_TRIGGER\<rparr>) None 50 sample_review_db)
     = [sample_review_case, sample_review_case]
   \<and> vdb_cases sample_review_db = [sample_review_case]"
proof -
  have "map (\<lambda>t. (rvt_review_case_id t, trigger_key t)) (vdb_triggers sample_review_db)
      = map (Pair 50) (trigger_snapshot sample_review_run None)"
    by (simp add: sample_review_db_def ensure_review_case_def Let_def empty_review_db_def
        find_case_of_run_def requires_review_def ensure_review_triggers_keys triggers_of_def)
      (simp add: sample_review_run_def)
  also have "trigger_snapshot sample_review_run None
      = [(''MATCH_REASON'', ''CURRENCY_MISMATCH'', 2), (''MATCH_REASON'', ''QUANTITY_MISMATCH'', 2)]"
    by code_simp
  finally obtain a b where "vdb_triggers sample_review_db = [a, b]"
    "rvt_review_case_id a = 50" "rvt_review_case_id b = 50"
    "rvt_trigger_type a = ''MATCH_REASON''" "rvt_trigger_type b = ''MATCH_REASON''"
    by (auto simp: trigger_key_def map_eq_Cons_conv)
  then show ?thesis
    by (simp add: list_cases_def effective_filter_def all_cases_def joined_rows_def queue_row_ok_def
        opt_holds_def sample_review_cases MATCH_REASON_TRIGGER_def Let_def)
      (simp add: sample_review_case_def)
qed

end
