(* ===== verification/Matching_Service.thy ===== *)
theory Matching_Service
  imports Three_Way Review_Service
begin

text \<open>
  The matching service (\<^verbatim>\<open>invoiceops/matching/service.py\<close>) that composes the engines, the context
  builder, the duplicate-risk service and the review routing in one transaction, with the choice of
  the extraction (\<^verbatim>\<open>invoiceops/extraction/selection.py\<close>). The tables are the fields of one database;
  what other transactions commit in between is part of the environment of a call.
\<close>

subsection \<open>Extractions\<close>

datatype extraction_run_status = EXTRACTION_PROCESSING | EXTRACTION_SUCCEEDED | EXTRACTION_FAILED

text \<open>The stored output was written from a validated invoice, so reading it back is that invoice.\<close>

record extraction_run =
  er_id :: uuid
  er_document_id :: uuid
  er_extractor_name :: string
  er_extractor_version :: string
  er_status :: extraction_run_status
  er_output :: "invoice option"
  er_created_at :: datetime

definition CURRENT_EXTRACTION_STRATEGIES :: "(string \<times> string) list" where
  "CURRENT_EXTRACTION_STRATEGIES =
     [(''hybrid-routed'', ''0.5.0''), (''deterministic-baseline'', ''0.2.0'')]"

definition strategy_key :: "string \<Rightarrow> string \<Rightarrow> string" where
  "strategy_key name version = name @ '':'' @ version"

definition strategy_priority :: "extraction_run \<Rightarrow> nat" where
  "strategy_priority r =
     length (takeWhile (\<lambda>(n, v). strategy_key n v \<noteq> strategy_key (er_extractor_name r) (er_extractor_version r))
       CURRENT_EXTRACTION_STRATEGIES)"

definition current_successful_extraction :: "extraction_run list \<Rightarrow> uuid \<Rightarrow> extraction_run option" where
  "current_successful_extraction runs doc =
     (case sort_key strategy_priority
        (filter (\<lambda>r. er_document_id r = doc \<and> er_status r = EXTRACTION_SUCCEEDED
            \<and> strategy_priority r < length CURRENT_EXTRACTION_STRATEGIES) runs) of
        [] \<Rightarrow> None | r # _ \<Rightarrow> Some r)"

subsection \<open>Tables\<close>

record three_way_context_row =
  tc_match_run_id :: uuid
  tc_context_fingerprint :: string
  tc_replay_fingerprint :: string
  tc_snapshot :: three_way_snapshot
  tc_created_at :: datetime

record matching_db =
  gdb_documents :: "uuid list"
  gdb_orders :: "purchase_order list"
  gdb_extractions :: "extraction_run list"
  gdb_receipts :: "goods_receipt list"
  gdb_runs :: "match_run list"
  gdb_contexts :: "three_way_context_row list"
  gdb_allocations :: "three_way_allocation list"
  gdb_risk :: risk_db
  gdb_review :: review_db

datatype match_error =
    MatchDocumentNotFoundError
  | MatchPurchaseOrderNotFoundError
  | MatchRunNotFoundError
  | ExtractionNotReadyError
  | MatchEngineError three_way_error
  | MatchRiskError risk_error
  | MatchIntegrityError

text \<open>
  The environment of a call: the time, the identifiers \<^verbatim>\<open>uuid4\<close> gives, the match runs that other
  transactions commit before this one writes, and, when the commit of a repaired run collides with
  another repair, the database that the other one left.
\<close>

record match_env =
  me_now :: datetime
  me_run_id :: uuid
  me_allocation_id :: "nat \<Rightarrow> uuid"
  me_risk_id :: "nat \<Rightarrow> uuid"
  me_review_id :: "nat \<Rightarrow> uuid"
  me_racing :: "match_run list"
  me_repaired :: "matching_db option"

subsection \<open>Purchase orders\<close>

definition purchase_order_row :: "lib \<Rightarrow> (nat \<Rightarrow> uuid) \<Rightarrow> datetime \<Rightarrow> po_create \<Rightarrow> purchase_order" where
  "purchase_order_row lib fresh now c = \<lparr>
     po_id = fresh 0, po_external_po_number = poc_external_po_number c,
     po_vendor_name = poc_vendor_name c, po_currency = poc_currency c, po_created_at = now,
     po_lines = sort_key pl_line_number (map (\<lambda>(k, l). \<lparr>
         pl_id = fresh (Suc k), pl_purchase_order_id = fresh 0, pl_line_number = plc_line_number l,
         pl_description = plc_description l,
         pl_ordered_quantity = numeric_column lib (plc_ordered_quantity l),
         pl_unit_price = numeric_column lib (plc_unit_price l),
         pl_line_total = map_option (numeric_column lib) (plc_line_total l)\<rparr>)
       (List.enumerate 0 (poc_lines c)))\<rparr>"

definition purchase_order_get :: "matching_db \<Rightarrow> uuid \<Rightarrow> (match_error, purchase_order) result" where
  "purchase_order_get db poid =
     (case find_row (\<lambda>p. po_id p = poid) (gdb_orders db) of
        None \<Rightarrow> Inl MatchPurchaseOrderNotFoundError | Some p \<Rightarrow> Inr p)"

text \<open>A repeated line number violates \<^verbatim>\<open>uq_po_line_purchase_order_number\<close>.\<close>

definition purchase_order_create ::
  "lib \<Rightarrow> (nat \<Rightarrow> uuid) \<Rightarrow> datetime \<Rightarrow> po_create \<Rightarrow> matching_db
    \<Rightarrow> (match_error, purchase_order) result \<times> matching_db" where
  "purchase_order_create lib fresh now c db =
     (let row = purchase_order_row lib fresh now c;
          db' = db\<lparr>gdb_orders := gdb_orders db @ [row]\<rparr>
      in if distinct (map pl_line_number (po_lines row)) then (purchase_order_get db' (po_id row), db')
         else (Inl MatchIntegrityError, db))"

subsection \<open>Finding an earlier run\<close>

definition TWO_WAY_CONTEXT_FINGERPRINT :: "lib \<Rightarrow> string" where
  "TWO_WAY_CONTEXT_FINGERPRINT lib = sha256_hex lib ''invoiceops:two-way-context:v1''"

type_synonym match_key = "uuid \<times> uuid \<times> uuid \<times> matching_mode \<times> string"

definition match_key :: "match_run \<Rightarrow> match_key" where
  "match_key r = (mrun_document_id r, mrun_purchase_order_id r, mrun_extraction_run_id r,
     mrun_matching_mode r, mrun_policy_version r)"

definition find_existing :: "match_run list \<Rightarrow> match_key \<Rightarrow> string \<Rightarrow> match_run option" where
  "find_existing runs key fp = find_row (\<lambda>r. match_key r = key \<and> mrun_context_fingerprint r = fp) runs"

definition find_prior_candidates :: "match_run list \<Rightarrow> match_key \<Rightarrow> match_run list" where
  "find_prior_candidates runs key =
     rev (sort_key (\<lambda>r. (dt_utc (mrun_created_at r), mrun_id r)) (filter (\<lambda>r. match_key r = key) runs))"

definition context_of_run :: "matching_db \<Rightarrow> match_run \<Rightarrow> three_way_context_row option" where
  "context_of_run db r = find_row (\<lambda>c. tc_match_run_id c = mrun_id r) (gdb_contexts db)"

definition find_replay :: "matching_db \<Rightarrow> match_key \<Rightarrow> string \<Rightarrow> match_run option" where
  "find_replay db key replay =
     find_row (\<lambda>r. map_option tc_replay_fingerprint (context_of_run db r) = Some replay)
       (find_prior_candidates (gdb_runs db) key)"

subsection \<open>Reconciliation of allocations\<close>

definition proposals :: "invoice \<Rightarrow> match_result \<Rightarrow> (nat \<times> allocation_draft) list" where
  "proposals invoice r =
     dict_of (List.map_filter (\<lambda>a.
       map_option (\<lambda>q. (la_invoice_line_index a,
           \<lparr>ad_purchase_order_line_id = la_po_line_id a,
            ad_invoice_line_index = la_invoice_line_index a, ad_quantity = q\<rparr>))
         (fvalue (il_quantity (inv_line_items invoice ! la_invoice_line_index a))))
       (mr_line_assignments r))"

definition existing_by_line :: "three_way_allocation list \<Rightarrow> (nat \<times> three_way_allocation) list" where
  "existing_by_line existing = dict_of (map (\<lambda>a. (ta_invoice_line_index a, a)) existing)"

definition allocation_conflict :: "(nat \<times> allocation_draft) list \<Rightarrow> (nat \<times> three_way_allocation) list \<Rightarrow> bool" where
  "allocation_conflict ps es \<longleftrightarrow>
     set (map fst ps) \<noteq> set (map fst es)
     \<or> list_ex (\<lambda>(i, d). case map_of es i of
          None \<Rightarrow> False
        | Some a \<Rightarrow> ad_purchase_order_line_id d \<noteq> ta_purchase_order_line_id a
                    \<or> \<not> deq (ad_quantity d) (ta_allocated_quantity a)) ps"

definition reconciliation_check :: validation_check where
  "reconciliation_check = \<lparr>vc_code = ALLOCATION_RECONCILIATION_REQUIRED, vc_status = FAILED,
     vc_severity = ERROR, vc_expected = None, vc_actual = None, vc_tolerance = None,
     vc_message = ''The proposed allocation differs from this invoice's existing immutable allocation and requires explicit reconciliation.'',
     vc_invoice_line_index = None, vc_po_line_id = None, vc_evidence = [], vc_receipt_ids = [],
     vc_ordered_quantity = None, vc_received_quantity = None, vc_previously_invoiced_quantity = None,
     vc_available_quantity = None, vc_invoice_quantity = None\<rparr>"

definition reconciled_result :: "match_result \<Rightarrow> match_result" where
  "reconciled_result r =
     r\<lparr>mr_decision := NEEDS_REVIEW, mr_checks := mr_checks r @ [reconciliation_check],
       mr_reason_codes := (if ALLOCATION_RECONCILIATION_REQUIRED \<in> set (mr_reason_codes r)
         then mr_reason_codes r else mr_reason_codes r @ [ALLOCATION_RECONCILIATION_REQUIRED]),
       mr_summary := (mr_summary r)\<lparr>ms_failed_check_count := ms_failed_check_count (mr_summary r) + 1\<rparr>\<rparr>"

definition reconcile_allocations ::
  "three_way_allocation list \<Rightarrow> uuid \<Rightarrow> uuid \<Rightarrow> invoice \<Rightarrow> match_result \<Rightarrow> allocation_draft list
    \<Rightarrow> match_result \<times> allocation_draft list" where
  "reconcile_allocations as doc poid invoice r drafts =
     (let existing = filter (\<lambda>a. ta_document_id a = doc \<and> ta_purchase_order_id a = poid) as
      in if existing = [] then (r, drafts)
         else if \<not> allocation_conflict (proposals invoice r) (existing_by_line existing) then (r, [])
         else (reconciled_result r, []))"

subsection \<open>Risk and review of a run\<close>

definition set_risk_version :: "string \<Rightarrow> match_run \<Rightarrow> match_run" where
  "set_risk_version v r = r\<lparr>mrun_risk_policy_version := v\<rparr>"

text \<open>\<^verbatim>\<open>DuplicateRiskService.ensure\<close> followed by \<^verbatim>\<open>ensure_review_case\<close>.\<close>

definition assess_and_route ::
  "lib \<Rightarrow> match_env \<Rightarrow> match_run \<Rightarrow> purchase_order \<Rightarrow> invoice \<Rightarrow> matching_db
    \<Rightarrow> (match_error, match_run) result \<times> matching_db" where
  "assess_and_route lib env run po invoice db =
     (case risk_ensure lib default_risk_policy (me_risk_id env) (me_now env) run po invoice (gdb_risk db) of
        (Inl e, _) \<Rightarrow> (Inl (MatchRiskError e), db)
      | (Inr (a, created), rdb) \<Rightarrow>
          let version = rp_version default_risk_policy;
              run' = (if created then set_risk_version version run else run);
              runs' = (if created
                then update_rows (\<lambda>r. mrun_id r = mrun_id run) (set_risk_version version) (gdb_runs db)
                else gdb_runs db);
              vdb = snd (ensure_review_case lib (me_review_id env) (me_now env) run' (Some a) (gdb_review db))
          in (Inr run', db\<lparr>gdb_runs := runs', gdb_risk := rdb, gdb_review := vdb\<rparr>))"

definition ensure_case_for_existing ::
  "lib \<Rightarrow> match_env \<Rightarrow> match_run \<Rightarrow> matching_db \<Rightarrow> (match_error, match_run) result \<times> matching_db" where
  "ensure_case_for_existing lib env run db =
     (case (find_row (\<lambda>e. er_id e = mrun_extraction_run_id run) (gdb_extractions db),
            find_row (\<lambda>p. po_id p = mrun_purchase_order_id run) (gdb_orders db)) of
        (Some e, Some po) \<Rightarrow>
          (case er_output e of
             None \<Rightarrow> (Inl ExtractionNotReadyError, db)
           | Some invoice \<Rightarrow>
               (case me_repaired env of
                  None \<Rightarrow> assess_and_route lib env run po invoice db
                | Some other \<Rightarrow>
                    (case risk_get_for_match (gdb_runs other) (gdb_risk other) (mrun_id run) of
                       Inl err \<Rightarrow> (Inl (MatchRiskError err), other)
                     | Inr a \<Rightarrow>
                         if requires_review run (Some a) \<and> find_case_of_run (gdb_review other) (mrun_id run) = None
                         then (Inl MatchIntegrityError, other) else (Inr run, other))))
      | _ \<Rightarrow> (Inl ExtractionNotReadyError, db))"

definition replayed :: "(match_error, match_run) result \<times> matching_db \<Rightarrow> (match_error, match_run \<times> bool) result \<times> matching_db" where
  "replayed x = (case x of (Inl e, db) \<Rightarrow> (Inl e, db) | (Inr r, db) \<Rightarrow> (Inr (r, False), db))"

subsection \<open>Storing a run\<close>

definition allocation_rows ::
  "lib \<Rightarrow> match_env \<Rightarrow> match_run \<Rightarrow> allocation_draft list \<Rightarrow> three_way_allocation list" where
  "allocation_rows lib env run drafts =
     map (\<lambda>(k, d). \<lparr>ta_id = me_allocation_id env k, ta_match_run_id = mrun_id run,
        ta_document_id = mrun_document_id run, ta_purchase_order_id = mrun_purchase_order_id run,
        ta_extraction_run_id = mrun_extraction_run_id run,
        ta_purchase_order_line_id = ad_purchase_order_line_id d,
        ta_invoice_line_index = ad_invoice_line_index d,
        ta_allocated_quantity = numeric_column lib (ad_quantity d), ta_created_at = me_now env\<rparr>)
       (List.enumerate 0 drafts)"

definition allocation_key :: "three_way_allocation \<Rightarrow> uuid \<times> uuid \<times> nat" where
  "allocation_key a = (ta_document_id a, ta_purchase_order_id a, ta_invoice_line_index a)"

text \<open>The constraints of the allocation table.\<close>

definition allocations_valid :: "three_way_allocation list \<Rightarrow> three_way_allocation list \<Rightarrow> bool" where
  "allocations_valid old new \<longleftrightarrow>
     list_all (\<lambda>a. dlt dzero (ta_allocated_quantity a)) new
     \<and> distinct (map allocation_key new) \<and> set (map allocation_key new) \<inter> set (map allocation_key old) = {}"

text \<open>
  The try block of \<^verbatim>\<open>match\<close>: insert the run, its context and its allocations, assess and route it,
  commit; after an integrity error look for a concurrent run.
\<close>

definition commit_match ::
  "lib \<Rightarrow> match_env \<Rightarrow> match_run \<Rightarrow> purchase_order \<Rightarrow> invoice \<Rightarrow> three_way_context_row list
    \<Rightarrow> allocation_draft list \<Rightarrow> matching_db \<Rightarrow> (match_error, match_run \<times> bool) result \<times> matching_db" where
  "commit_match lib env run po invoice contexts drafts db =
     (let db0 = db\<lparr>gdb_runs := gdb_runs db @ me_racing env\<rparr>;
          rows = allocation_rows lib env run drafts;
          concurrent = find_existing (gdb_runs db0) (match_key run) (mrun_context_fingerprint run)
      in if concurrent = None \<and> allocations_valid (gdb_allocations db) rows
         then case assess_and_route lib env run po invoice
                (db0\<lparr>gdb_runs := gdb_runs db0 @ [run], gdb_contexts := gdb_contexts db @ contexts,
                     gdb_allocations := gdb_allocations db @ rows\<rparr>) of
                (Inl e, _) \<Rightarrow> (Inl e, db0)
              | (Inr r, db') \<Rightarrow> (Inr (r, True), db')
         else case concurrent of
                None \<Rightarrow> (Inl MatchIntegrityError, db0)
              | Some r \<Rightarrow> replayed (ensure_case_for_existing lib env r db0))"

definition matching_policy_json :: "lib \<Rightarrow> matching_policy \<Rightarrow> json" where
  "matching_policy_json lib p =
     JObj [(''version'', JStr (mp_version p)),
           (''amount_absolute_tolerance'', JStr (decimal_json lib (mp_amount_absolute_tolerance p))),
           (''quantity_absolute_tolerance'', JStr (decimal_json lib (mp_quantity_absolute_tolerance p))),
           (''unit_price_relative_tolerance'', JStr (decimal_json lib (mp_unit_price_relative_tolerance p))),
           (''description_similarity_threshold'', JFloat (mp_description_similarity_threshold p)),
           (''ambiguity_margin'', JFloat (mp_ambiguity_margin p))]"

definition new_run ::
  "match_env \<Rightarrow> match_key \<Rightarrow> string \<Rightarrow> json \<Rightarrow> match_result \<Rightarrow> match_run" where
  "new_run env key fp policy r =
     (case key of (doc, poid, ext, mode, version) \<Rightarrow>
        \<lparr>mrun_id = me_run_id env, mrun_document_id = doc, mrun_purchase_order_id = poid,
         mrun_extraction_run_id = ext, mrun_policy_version = version, mrun_policy_snapshot = policy,
         mrun_matching_mode = mode, mrun_context_fingerprint = fp,
         mrun_risk_policy_version = ''duplicate-risk-v1'', mrun_decision = mr_decision r, mrun_result = r,
         mrun_created_at = me_now env\<rparr>)"

definition match_two_way ::
  "lib \<Rightarrow> match_env \<Rightarrow> matching_policy \<Rightarrow> match_key \<Rightarrow> purchase_order \<Rightarrow> invoice \<Rightarrow> matching_db
    \<Rightarrow> (match_error, match_run \<times> bool) result \<times> matching_db" where
  "match_two_way lib env policy key po invoice db =
     (let fp = TWO_WAY_CONTEXT_FINGERPRINT lib in
      case find_existing (gdb_runs db) key fp of
        Some r \<Rightarrow> replayed (ensure_case_for_existing lib env r db)
      | None \<Rightarrow> commit_match lib env
          (new_run env key fp (matching_policy_json lib policy) (match_invoice lib invoice po policy))
          po invoice [] [] db)"

definition match_three_way ::
  "lib \<Rightarrow> match_env \<Rightarrow> three_way_policy \<Rightarrow> match_key \<Rightarrow> purchase_order \<Rightarrow> invoice \<Rightarrow> matching_db
    \<Rightarrow> (match_error, match_run \<times> bool) result \<times> matching_db" where
  "match_three_way lib env policy key po invoice db =
     (case build_context lib (gdb_receipts db) (gdb_allocations db) po policy (Some (fst key)) of
        (snapshot, fp, replay) \<Rightarrow>
          (case find_replay db key replay of
             Some prior \<Rightarrow> replayed (ensure_case_for_existing lib env prior db)
           | None \<Rightarrow>
               (case find_existing (gdb_runs db) key fp of
                  Some r \<Rightarrow> replayed (ensure_case_for_existing lib env r db)
                | None \<Rightarrow>
                    (case match_invoice_three_way lib invoice po snapshot policy of
                       Inl e \<Rightarrow> (Inl (MatchEngineError e), db)
                     | Inr (r0, drafts0) \<Rightarrow>
                         (case reconcile_allocations (gdb_allocations db) (fst key) (po_id po) invoice r0 drafts0 of
                            (r, drafts) \<Rightarrow>
                              commit_match lib env (new_run env key fp (three_way_policy_json lib policy) r) po invoice
                                [\<lparr>tc_match_run_id = me_run_id env, tc_context_fingerprint = fp,
                                  tc_replay_fingerprint = replay, tc_snapshot = snapshot, tc_created_at = me_now env\<rparr>]
                                drafts db)))))"

text \<open>\<^verbatim>\<open>MatchingService.match\<close>.\<close>

definition match_service ::
  "lib \<Rightarrow> match_env \<Rightarrow> matching_policy \<Rightarrow> three_way_policy \<Rightarrow> uuid \<Rightarrow> uuid \<Rightarrow> matching_mode \<Rightarrow> matching_db
    \<Rightarrow> (match_error, match_run \<times> bool) result \<times> matching_db" where
  "match_service lib env policy policy3 doc poid mode db =
     (if doc \<notin> set (gdb_documents db) then (Inl MatchDocumentNotFoundError, db)
      else case lock_purchase_order (gdb_orders db) poid of
             None \<Rightarrow> (Inl MatchPurchaseOrderNotFoundError, db)
           | Some po \<Rightarrow>
               (case current_successful_extraction (gdb_extractions db) doc of
                  None \<Rightarrow> (Inl ExtractionNotReadyError, db)
                | Some e \<Rightarrow>
                    (case er_output e of
                       None \<Rightarrow> (Inl ExtractionNotReadyError, db)
                     | Some invoice \<Rightarrow>
                         (case mode of
                            TWO_WAY \<Rightarrow> match_two_way lib env policy (doc, poid, er_id e, mode, mp_version policy) po invoice db
                          | THREE_WAY \<Rightarrow> match_three_way lib env policy3 (doc, poid, er_id e, mode, tp_version policy3) po invoice db))))"

definition match_get :: "matching_db \<Rightarrow> uuid \<Rightarrow> (match_error, match_run) result" where
  "match_get db rid =
     (case find_row (\<lambda>r. mrun_id r = rid) (gdb_runs db) of None \<Rightarrow> Inl MatchRunNotFoundError | Some r \<Rightarrow> Inr r)"

subsection \<open>Assessing and routing again\<close>

lemma set_risk_version_fields [simp]:
  "mrun_id (set_risk_version v r) = mrun_id r"
  "match_key (set_risk_version v r) = match_key r"
  "mrun_context_fingerprint (set_risk_version v r) = mrun_context_fingerprint r"
  "mrun_extraction_run_id (set_risk_version v r) = mrun_extraction_run_id r"
  "mrun_purchase_order_id (set_risk_version v r) = mrun_purchase_order_id r"
  "mrun_created_at (set_risk_version v r) = mrun_created_at r"
  "mrun_decision (set_risk_version v r) = mrun_decision r"
  by (simp_all add: set_risk_version_def match_key_def)

lemma set_risk_version_features [simp]:
  "build_feature_snapshot (set_risk_version v run) po invoice = build_feature_snapshot run po invoice"
  by (simp add: build_feature_snapshot_def set_risk_version_def)

lemma set_risk_version_routing [simp]:
  "requires_review (set_risk_version v run) risk = requires_review run risk"
  "trigger_snapshot (set_risk_version v run) risk = trigger_snapshot run risk"
  "opening_payload (set_risk_version v run) risk = opening_payload run risk"
  "ensure_review_triggers fresh c (set_risk_version v run) risk rdb = ensure_review_triggers fresh c run risk rdb"
  by (simp_all add: requires_review_def trigger_snapshot_def opening_payload_def ensure_review_triggers_def
      set_risk_version_def)

lemma set_risk_version_ensure [simp]:
  "risk_ensure lib policy fresh now (set_risk_version v run) po invoice db
    = risk_ensure lib policy fresh now run po invoice db"
  "ensure_review_case lib fresh now (set_risk_version v run) risk rdb
    = ensure_review_case lib fresh now run risk rdb"
  by (simp_all only: risk_ensure_def ensure_review_case_def set_risk_version_features set_risk_version_fields
      set_risk_version_routing)

lemma assess_and_route_cases:
  assumes "assess_and_route lib env run po invoice db = (Inr r, db')"
  obtains a created rdb g where
    "risk_ensure lib default_risk_policy (me_risk_id env) (me_now env) run po invoice (gdb_risk db)
       = (Inr (a, created), rdb)" and
    "g = (\<lambda>x. if created \<and> mrun_id x = mrun_id run then set_risk_version (rp_version default_risk_policy) x else x)" and
    "r = g run" and
    "db' = db\<lparr>gdb_runs := map g (gdb_runs db), gdb_risk := rdb, gdb_review :=
       snd (ensure_review_case lib (me_review_id env) (me_now env) run (Some a) (gdb_review db))\<rparr>"
proof -
  have rows: "update_rows P f xs = map (\<lambda>x. if P x then f x else x) xs" for P f and xs :: "match_run list"
    by (induction xs) auto
  obtain a created rdb where
    "risk_ensure lib default_risk_policy (me_risk_id env) (me_now env) run po invoice (gdb_risk db)
       = (Inr (a, created), rdb)"
    using assms by (auto simp: assess_and_route_def split: prod.splits sum.splits)
  with assms show ?thesis
    by (intro that [OF _ refl]) (auto simp: assess_and_route_def rows Let_def split: if_splits)
qed

lemma ensure_review_case_same:
  "snd (ensure_review_case lib fresh' now' run risk (snd (ensure_review_case lib fresh now run risk db)))
    = snd (ensure_review_case lib fresh now run risk db)"
proof -
  obtain r b db' where "ensure_review_case lib fresh now run risk db = ((r, b), db')"
    by (metis surj_pair)
  from this ensure_review_case_facts [OF this, of fresh' now'] show ?thesis by simp
qed

lemma assess_and_route_again:
  assumes "assess_and_route lib env run po invoice db = (Inr r, db')"
  shows "assess_and_route lib env' r po invoice db' = (Inr r, db')"
proof -
  from assms show ?thesis
  proof (cases rule: assess_and_route_cases)
    case (1 a created rdb g)
    have "risk_run lib (me_risk_id env, me_now env) (default_risk_policy, run, po, invoice) (gdb_risk db)
        = (Inr (a, created), rdb)"
      using 1 by (simp add: risk_run_def)
    from risk_replay.replay_idempotent [OF this, of "(me_risk_id env', me_now env')"]
    have "risk_ensure lib default_risk_policy (me_risk_id env') (me_now env') r po invoice rdb
        = (Inr (a, False), rdb)"
      using 1 by (simp add: risk_run_def)
    moreover have "snd (ensure_review_case lib (me_review_id env') (me_now env') r (Some a) (gdb_review db'))
        = gdb_review db'"
      using 1 by (simp add: ensure_review_case_same)
    moreover have "gdb_risk db' = rdb" using 1 by simp
    ultimately show ?thesis by (simp add: assess_and_route_def)
  qed
qed

lemma assess_and_route_keeps:
  assumes "assess_and_route lib env run po invoice db = (Inr r, db')"
  shows "gdb_documents db' = gdb_documents db" "gdb_orders db' = gdb_orders db"
    "gdb_extractions db' = gdb_extractions db" "gdb_receipts db' = gdb_receipts db"
    "gdb_contexts db' = gdb_contexts db" "gdb_allocations db' = gdb_allocations db"
    "r = run \<or> r = set_risk_version (rp_version default_risk_policy) run"
  using assms by (auto elim!: assess_and_route_cases split: if_splits)

lemma ensure_case_again:
  assumes "ensure_case_for_existing lib env run db = (Inr r, db')"
    and "me_repaired env = None" "me_repaired env' = None"
  shows "ensure_case_for_existing lib env' r db' = (Inr r, db')"
proof -
  obtain e po invoice where found:
    "find_row (\<lambda>e. er_id e = mrun_extraction_run_id run) (gdb_extractions db) = Some e"
    "find_row (\<lambda>p. po_id p = mrun_purchase_order_id run) (gdb_orders db) = Some po" "er_output e = Some invoice"
    and run: "assess_and_route lib env run po invoice db = (Inr r, db')"
    using assms by (auto simp: ensure_case_for_existing_def split: option.splits)
  note keeps = assess_and_route_keeps [OF run]
  have "mrun_extraction_run_id r = mrun_extraction_run_id run" "mrun_purchase_order_id r = mrun_purchase_order_id run"
    using keeps(7) by auto
  with found keeps assess_and_route_again [OF run, of env'] assms(3) show ?thesis
    by (simp add: ensure_case_for_existing_def)
qed

subsection \<open>Rows that are found again\<close>

lemma sort_key_map_same:
  assumes "\<And>x. k (g x) = k x"
  shows "sort_key k (map g xs) = map g (sort_key k xs)"
proof -
  have ins: "insort_key k (g x) (map g ys) = map g (insort_key k x ys)" for x ys
    by (induction ys) (auto simp: assms)
  show ?thesis by (induction xs) (auto simp: sort_key_def ins)
qed

lemma find_row_map:
  assumes "\<And>x. Q (g x) = Q x"
  shows "find_row Q (map g xs) = map_option g (find_row Q xs)"
  by (induction xs) (auto simp: assms)

lemma find_prior_candidates_map:
  assumes "\<And>x. match_key (g x) = match_key x" "\<And>x. mrun_id (g x) = mrun_id x"
    "\<And>x. mrun_created_at (g x) = mrun_created_at x"
  shows "find_prior_candidates (map g xs) key = map g (find_prior_candidates xs key)"
  by (simp add: find_prior_candidates_def filter_map comp_def assms sort_key_map_same rev_map)

text \<open>Assessing a run rewrites its row only, so what was found by key is found again.\<close>

lemma assess_finds:
  assumes run: "assess_and_route lib env run po invoice db = (Inr r, db')"
  shows "find_existing (gdb_runs db) key fp = Some run \<Longrightarrow> find_existing (gdb_runs db') key fp = Some r"
    and "find_replay db key replay = Some run \<Longrightarrow> find_replay db' key replay = Some r"
    and "find_replay db key replay = None \<Longrightarrow> find_replay db' key replay = None"
proof -
  obtain a created rdb g where g:
    "g = (\<lambda>x. if created \<and> mrun_id x = mrun_id run then set_risk_version (rp_version default_risk_policy) x else x)"
    "r = g run" "gdb_runs db' = map g (gdb_runs db)" "gdb_contexts db' = gdb_contexts db"
    using run by (cases rule: assess_and_route_cases) auto
  have keep: "match_key (g x) = match_key x" "mrun_id (g x) = mrun_id x" "mrun_created_at (g x) = mrun_created_at x"
    "mrun_context_fingerprint (g x) = mrun_context_fingerprint x" for x
    by (simp_all add: g(1))
  show "find_existing (gdb_runs db') key fp = Some r" if "find_existing (gdb_runs db) key fp = Some run"
    using that by (simp add: find_existing_def g(2,3) find_row_map keep)
  have replay: "find_replay db' key replay = map_option g (find_replay db key replay)"
    by (simp add: find_replay_def g(3,4) find_prior_candidates_map keep find_row_map context_of_run_def)
  show "find_replay db' key replay = Some r" if "find_replay db key replay = Some run"
    using that replay by (simp add: g(2))
  show "find_replay db' key replay = None" if "find_replay db key replay = None"
    using that replay by simp
qed

lemma replayed_Inr: "replayed x = (Inr (r, b), db) \<longleftrightarrow> x = (Inr r, db) \<and> \<not> b"
  by (auto simp: replayed_def split: prod.splits sum.splits)

lemma ensure_case_assesses:
  assumes "ensure_case_for_existing lib env run db = (Inr r, db')" and "me_repaired env = None"
  obtains po invoice where "assess_and_route lib env run po invoice db = (Inr r, db')"
  using assms by (auto simp: ensure_case_for_existing_def split: option.splits)

subsection \<open>What a created run stores\<close>

lemma new_run_fields [simp]:
  "match_key (new_run env key fp policy r) = key" "mrun_id (new_run env key fp policy r) = me_run_id env"
  "mrun_context_fingerprint (new_run env key fp policy r) = fp"
  "mrun_document_id (new_run env key fp policy r) = fst key"
  "mrun_purchase_order_id (new_run env key fp policy r) = fst (snd key)"
  "mrun_decision (new_run env key fp policy r) = mr_decision r"
  "mrun_result (new_run env key fp policy r) = r"
  by (simp_all add: new_run_def match_key_def split: prod.split)

definition stored_db ::
  "lib \<Rightarrow> match_env \<Rightarrow> match_run \<Rightarrow> three_way_context_row list \<Rightarrow> allocation_draft list \<Rightarrow> matching_db \<Rightarrow> matching_db" where
  "stored_db lib env run contexts drafts db =
     db\<lparr>gdb_runs := gdb_runs db @ me_racing env @ [run], gdb_contexts := gdb_contexts db @ contexts,
        gdb_allocations := gdb_allocations db @ allocation_rows lib env run drafts\<rparr>"

lemma commit_match_cases:
  assumes "commit_match lib env run po invoice contexts drafts db = (Inr (r, b), db')"
  obtains (stored) "b" and "find_existing (gdb_runs db @ me_racing env) (match_key run) (mrun_context_fingerprint run) = None"
      and "allocations_valid (gdb_allocations db) (allocation_rows lib env run drafts)"
      and "assess_and_route lib env run po invoice (stored_db lib env run contexts drafts db) = (Inr r, db')"
    | (concurrent) c where "\<not> b"
      and "find_existing (gdb_runs db @ me_racing env) (match_key run) (mrun_context_fingerprint run) = Some c"
      and "ensure_case_for_existing lib env c (db\<lparr>gdb_runs := gdb_runs db @ me_racing env\<rparr>) = (Inr r, db')"
  using assms
  by (auto simp: commit_match_def stored_db_def Let_def replayed_Inr
      split: if_splits option.splits prod.splits sum.splits)

lemma find_existing_snoc:
  "find_existing runs (match_key r) (mrun_context_fingerprint r) = None \<Longrightarrow>
    find_existing (runs @ [r]) (match_key r) (mrun_context_fingerprint r) = Some r"
  by (simp add: find_existing_def find_row_append)

lemma set_find_prior_candidates: "set (find_prior_candidates runs key) = {r \<in> set runs. match_key r = key}"
  by (simp add: find_prior_candidates_def)

lemma find_replay_stored:
  assumes none: "find_replay db (match_key run) (tc_replay_fingerprint c) = None"
    and c: "tc_match_run_id c = mrun_id run"
    and fresh: "mrun_id run \<notin> mrun_id ` set (gdb_runs db)" "mrun_id run \<notin> tc_match_run_id ` set (gdb_contexts db)"
    and racing: "me_racing env = []"
  shows "find_replay (stored_db lib env run [c] drafts db) (match_key run) (tc_replay_fingerprint c) = Some run"
  unfolding find_replay_def
proof (rule find_row_unique)
  let ?db = "stored_db lib env run [c] drafts db"
  have old: "context_of_run ?db r = context_of_run db r" if "r \<in> set (gdb_runs db)" for r
  proof -
    have "mrun_id run \<noteq> mrun_id r" using that fresh(1) by auto
    then show ?thesis
      by (auto simp: context_of_run_def stored_db_def find_row_append c split: option.split)
  qed
  have "find_row (\<lambda>x. tc_match_run_id x = mrun_id run) (gdb_contexts db) = None"
    using fresh(2) by (force simp: find_row_None_iff)
  then show "map_option tc_replay_fingerprint (context_of_run ?db run) = Some (tc_replay_fingerprint c)"
    by (simp add: context_of_run_def stored_db_def find_row_append c)
  show "run \<in> set (find_prior_candidates (gdb_runs ?db) (match_key run))"
    by (simp add: set_find_prior_candidates stored_db_def)
  show "y = run" if "y \<in> set (find_prior_candidates (gdb_runs ?db) (match_key run))"
    and "map_option tc_replay_fingerprint (context_of_run ?db y) = Some (tc_replay_fingerprint c)" for y
  proof (rule ccontr)
    assume "y \<noteq> run"
    with that(1) have y: "y \<in> set (gdb_runs db)" "match_key y = match_key run"
      by (auto simp: set_find_prior_candidates stored_db_def racing)
    with none that(2) show False
      by (auto simp: find_replay_def find_row_None_iff set_find_prior_candidates old)
  qed
qed

subsection \<open>Idempotence\<close>

lemma two_way_again:
  assumes run: "match_two_way lib env policy key po invoice db = (Inr (r, b), db')"
    and env: "me_racing env = []" "me_repaired env = None" "me_repaired env' = None"
    and inputs: "find_row (\<lambda>e. er_id e = fst (snd (snd key))) (gdb_extractions db) = Some e" "er_output e = Some invoice"
      "find_row (\<lambda>p. po_id p = fst (snd key)) (gdb_orders db) = Some po"
  shows "match_two_way lib env' policy key po invoice db' = (Inr (r, False), db')"
proof -
  let ?fp = "TWO_WAY_CONTEXT_FINGERPRINT lib"
  have "find_existing (gdb_runs db') key ?fp = Some r \<and> ensure_case_for_existing lib env' r db' = (Inr r, db')"
  proof (cases "find_existing (gdb_runs db) key ?fp")
    case (Some c)
    with run have c: "ensure_case_for_existing lib env c db = (Inr r, db')"
      by (simp add: match_two_way_def replayed_Inr)
    then obtain po' invoice' where "assess_and_route lib env c po' invoice' db = (Inr r, db')"
      using env(2) by (rule ensure_case_assesses)
    with Some ensure_case_again [OF c env(2,3)] assess_finds(1) show ?thesis by blast
  next
    case None
    let ?run = "new_run env key ?fp (matching_policy_json lib policy) (match_invoice lib invoice po policy)"
    from run None have "commit_match lib env ?run po invoice [] [] db = (Inr (r, b), db')"
      by (simp add: match_two_way_def)
    then have assess: "assess_and_route lib env ?run po invoice (stored_db lib env ?run [] [] db) = (Inr r, db')"
      using None env(1) by (cases rule: commit_match_cases) auto
    have "find_existing (gdb_runs (stored_db lib env ?run [] [] db)) key ?fp = Some ?run"
      using None env(1) find_existing_snoc [of "gdb_runs db" ?run] by (simp add: stored_db_def)
    note found = assess_finds(1) [OF assess this]
    have "mrun_extraction_run_id ?run = fst (snd (snd key))" by (simp add: new_run_def split: prod.split)
    then have "ensure_case_for_existing lib env ?run (stored_db lib env ?run [] [] db) = (Inr r, db')"
      using inputs assess env(2) by (simp add: ensure_case_for_existing_def stored_db_def)
    from ensure_case_again [OF this env(2,3)] found show ?thesis by simp
  qed
  then show ?thesis by (simp add: match_two_way_def replayed_def)
qed

lemma allocation_rows_document: "list_all (\<lambda>a. ta_document_id a = mrun_document_id run) (allocation_rows lib env run drafts)"
  by (auto simp: allocation_rows_def list_all_iff)

lemma allocation_row_draft:
  assumes "a \<in> set (allocation_rows lib env run drafts)"
  shows "\<exists>d \<in> set drafts. ta_purchase_order_line_id a = ad_purchase_order_line_id d
    \<and> ta_invoice_line_index a = ad_invoice_line_index d
    \<and> ta_allocated_quantity a = numeric_column lib (ad_quantity d)"
proof -
  obtain k d where kd: "(k, d) \<in> set (List.enumerate 0 drafts)"
    and a: "ta_purchase_order_line_id a = ad_purchase_order_line_id d"
      "ta_invoice_line_index a = ad_invoice_line_index d"
      "ta_allocated_quantity a = numeric_column lib (ad_quantity d)"
    using assms by (auto simp: allocation_rows_def)
  from kd have "d \<in> set drafts" by (auto simp: in_set_enumerate_eq)
  with a show ?thesis by blast
qed

lemma match_three_way_cases:
  assumes "match_three_way lib env policy key po invoice db = (Inr (r, b), db')"
    and ctx: "build_context lib (gdb_receipts db) (gdb_allocations db) po policy (Some (fst key)) = (snapshot, fp, replay)"
  obtains (prior) c where "find_replay db key replay = Some c" and "\<not> b"
      and "ensure_case_for_existing lib env c db = (Inr r, db')"
    | (existing) c where "find_replay db key replay = None" and "find_existing (gdb_runs db) key fp = Some c" and "\<not> b"
      and "ensure_case_for_existing lib env c db = (Inr r, db')"
    | (fresh) r0 drafts0 r1 drafts where "find_replay db key replay = None" and "find_existing (gdb_runs db) key fp = None"
      and "match_invoice_three_way lib invoice po snapshot policy = Inr (r0, drafts0)"
      and "reconcile_allocations (gdb_allocations db) (fst key) (po_id po) invoice r0 drafts0 = (r1, drafts)"
      and "commit_match lib env (new_run env key fp (three_way_policy_json lib policy) r1) po invoice
         [\<lparr>tc_match_run_id = me_run_id env, tc_context_fingerprint = fp, tc_replay_fingerprint = replay,
           tc_snapshot = snapshot, tc_created_at = me_now env\<rparr>] drafts db = (Inr (r, b), db')"
  using assms by (auto simp: match_three_way_def replayed_Inr split: option.splits prod.splits sum.splits)

lemma three_way_again:
  assumes run: "match_three_way lib env policy key po invoice db = (Inr (r, b), db')"
    and env: "me_racing env = []" "me_repaired env = None" "me_repaired env' = None"
    and fresh: "me_run_id env \<notin> mrun_id ` set (gdb_runs db)" "me_run_id env \<notin> tc_match_run_id ` set (gdb_contexts db)"
    and inputs: "find_row (\<lambda>e. er_id e = fst (snd (snd key))) (gdb_extractions db) = Some e" "er_output e = Some invoice"
      "find_row (\<lambda>p. po_id p = fst (snd key)) (gdb_orders db) = Some po"
  shows "match_three_way lib env' policy key po invoice db' = (Inr (r, False), db')"
proof -
  obtain snapshot fp replay where ctx:
    "build_context lib (gdb_receipts db) (gdb_allocations db) po policy (Some (fst key)) = (snapshot, fp, replay)"
    by (metis surj_pair)
  from run ctx show ?thesis
  proof (cases rule: match_three_way_cases)
    case (prior c)
    from prior(3) env(2) obtain po' invoice' where a: "assess_and_route lib env c po' invoice' db = (Inr r, db')"
      by (rule ensure_case_assesses)
    note keeps = assess_and_route_keeps [OF a]
    show ?thesis
      using ctx assess_finds(2) [OF a prior(1)] ensure_case_again [OF prior(3) env(2,3)]
      by (simp add: match_three_way_def keeps replayed_def)
  next
    case (existing c)
    from existing(4) env(2) obtain po' invoice' where a: "assess_and_route lib env c po' invoice' db = (Inr r, db')"
      by (rule ensure_case_assesses)
    note keeps = assess_and_route_keeps [OF a]
    show ?thesis
      using ctx assess_finds(1) [OF a existing(2)] assess_finds(3) [OF a existing(1)]
        ensure_case_again [OF existing(4) env(2,3)]
      by (simp add: match_three_way_def keeps replayed_def)
  next
    case (fresh r0 drafts0 r1 drafts)
    let ?run = "new_run env key fp (three_way_policy_json lib policy) r1"
    let ?c = "\<lparr>tc_match_run_id = me_run_id env, tc_context_fingerprint = fp, tc_replay_fingerprint = replay,
           tc_snapshot = snapshot, tc_created_at = me_now env\<rparr>"
    let ?db = "stored_db lib env ?run [?c] drafts db"
    have a: "assess_and_route lib env ?run po invoice ?db = (Inr r, db')"
      using fresh(5,2) env(1) by (cases rule: commit_match_cases) auto
    note keeps = assess_and_route_keeps [OF a]
    have "find_replay ?db key replay = Some ?run"
      using find_replay_stored [of db ?run ?c env lib drafts] fresh(1) assms(5,6) env(1) by simp
    note found = assess_finds(2) [OF a this]
    have "snd (snd (build_context lib (gdb_receipts db') (gdb_allocations db') po policy (Some (fst key)))) = replay"
      using replay_fingerprint_own [OF allocation_rows_document [where run = ?run], of lib "gdb_receipts db"
          "gdb_allocations db" lib env drafts po policy] ctx keeps by (simp add: stored_db_def)
    then obtain s' fp' where ctx': "build_context lib (gdb_receipts db') (gdb_allocations db') po policy (Some (fst key))
        = (s', fp', replay)" by (metis prod.collapse)
    have "mrun_extraction_run_id ?run = fst (snd (snd key))" by (simp add: new_run_def split: prod.split)
    then have "ensure_case_for_existing lib env ?run ?db = (Inr r, db')"
      using inputs a env(2) by (simp add: ensure_case_for_existing_def stored_db_def)
    from ensure_case_again [OF this env(2,3)] found ctx' show ?thesis
      by (simp add: match_three_way_def replayed_def)
  qed
qed

lemma match_service_inputs:
  assumes "match_service lib env policy policy3 doc poid mode db = (Inr x, db')"
  obtains po e invoice where "doc \<in> set (gdb_documents db)" and "lock_purchase_order (gdb_orders db) poid = Some po"
    and "current_successful_extraction (gdb_extractions db) doc = Some e" and "er_output e = Some invoice"
    and "mode = TWO_WAY \<Longrightarrow> match_two_way lib env policy (doc, poid, er_id e, mode, mp_version policy) po invoice db = (Inr x, db')"
    and "mode = THREE_WAY \<Longrightarrow> match_three_way lib env policy3 (doc, poid, er_id e, mode, tp_version policy3) po invoice db = (Inr x, db')"
  using assms by (auto simp: match_service_def split: if_splits option.splits matching_mode.splits)

lemma current_successful_extraction_in:
  assumes "current_successful_extraction runs doc = Some e"
  shows "e \<in> set runs" "er_document_id e = doc" "er_status e = EXTRACTION_SUCCEEDED"
proof -
  let ?xs = "sort_key strategy_priority (filter (\<lambda>r. er_document_id r = doc \<and> er_status r = EXTRACTION_SUCCEEDED
      \<and> strategy_priority r < length CURRENT_EXTRACTION_STRATEGIES) runs)"
  from assms obtain ys where "?xs = e # ys"
    by (auto simp: current_successful_extraction_def split: list.splits)
  then have "e \<in> set ?xs" by (metis list.set_intros(1))
  then show "e \<in> set runs" "er_document_id e = doc" "er_status e = EXTRACTION_SUCCEEDED" by simp_all
qed

lemma commit_match_keeps:
  assumes "commit_match lib env run po invoice contexts drafts db = (Inr (r, b), db')" and "me_repaired env = None"
  shows "gdb_documents db' = gdb_documents db \<and> gdb_orders db' = gdb_orders db
    \<and> gdb_extractions db' = gdb_extractions db \<and> gdb_receipts db' = gdb_receipts db"
  using assms(1)
proof (cases rule: commit_match_cases)
  case stored
  from assess_and_route_keeps [OF stored(4)] show ?thesis by (simp add: stored_db_def)
next
  case (concurrent c)
  from ensure_case_assesses [OF concurrent(3) assms(2)] show ?thesis
    using assess_and_route_keeps by fastforce
qed

lemma match_service_keeps:
  assumes "match_service lib env policy policy3 doc poid mode db = (Inr (r, b), db')" and "me_repaired env = None"
  shows "gdb_documents db' = gdb_documents db \<and> gdb_orders db' = gdb_orders db
    \<and> gdb_extractions db' = gdb_extractions db \<and> gdb_receipts db' = gdb_receipts db"
proof -
  have found: ?thesis if "ensure_case_for_existing lib env c db = (Inr r, db')" for c
    using ensure_case_assesses [OF that assms(2)] assess_and_route_keeps by metis
  from assms(1) show ?thesis
  proof (rule match_service_inputs)
    fix po e invoice
    assume "mode = TWO_WAY \<Longrightarrow>
        match_two_way lib env policy (doc, poid, er_id e, mode, mp_version policy) po invoice db = (Inr (r, b), db')"
      and "mode = THREE_WAY \<Longrightarrow>
        match_three_way lib env policy3 (doc, poid, er_id e, mode, tp_version policy3) po invoice db = (Inr (r, b), db')"
    then show ?thesis
      using found commit_match_keeps [OF _ assms(2)]
      by (cases mode; auto simp: match_two_way_def match_three_way_def replayed_Inr Let_def
          split: option.splits prod.splits sum.splits)
  qed
qed

text \<open>
  C4: matching is idempotent. Once a match has returned a run, asking for the same match again, whatever
  the time and the new identifiers, returns the same run as not created and changes no table; this
  holds in three-way mode although the first call recorded allocations that are part of the context.
\<close>

theorem match_idempotent:
  assumes "match_service lib env policy policy3 doc poid mode db = (Inr (run, created), db')"
    and "me_racing env = []" "me_repaired env = None" "me_repaired env' = None"
    and "me_run_id env \<notin> mrun_id ` set (gdb_runs db)" "me_run_id env \<notin> tc_match_run_id ` set (gdb_contexts db)"
    and "distinct (map er_id (gdb_extractions db))"
  shows "match_service lib env' policy policy3 doc poid mode db' = (Inr (run, False), db')"
proof -
  note keeps = match_service_keeps [OF assms(1,3)]
  from assms(1) show ?thesis
  proof (rule match_service_inputs)
    fix po e invoice
    assume in_docs: "doc \<in> set (gdb_documents db)" and po: "lock_purchase_order (gdb_orders db) poid = Some po"
      and e: "current_successful_extraction (gdb_extractions db) doc = Some e" "er_output e = Some invoice"
      and two: "mode = TWO_WAY \<Longrightarrow> match_two_way lib env policy (doc, poid, er_id e, mode, mp_version policy) po invoice db
        = (Inr (run, created), db')"
      and three: "mode = THREE_WAY \<Longrightarrow> match_three_way lib env policy3 (doc, poid, er_id e, mode, tp_version policy3) po
        invoice db = (Inr (run, created), db')"
    have found: "find_row (\<lambda>x. er_id x = er_id e) (gdb_extractions db) = Some e"
      using find_row_key [OF assms(7) current_successful_extraction_in(1) [OF e(1)]] .
    have order: "find_row (\<lambda>p. po_id p = poid) (gdb_orders db) = Some po"
      using po by (simp add: lock_purchase_order_def)
    show ?thesis
      using two_way_again [OF two assms(2-4), where e = e] three_way_again [OF three assms(2-6), where e = e]
        found order e po in_docs keeps
      by (cases mode) (simp_all add: match_service_def)
  qed
qed

subsection \<open>Risk and review of every returned run\<close>

lemma assess_and_route_effect:
  assumes "assess_and_route lib env run po invoice db = (Inr r, db')"
  shows "\<exists>a. find_for_match (gdb_risk db') (mrun_id r) (rp_version default_risk_policy) = Some a
    \<and> (requires_review r (Some a) \<longrightarrow> (\<exists>c. find_case_of_run (gdb_review db') (mrun_id r) = Some c
         \<and> set (trigger_snapshot r (Some a)) \<subseteq> set (triggers_of (gdb_review db') (rvc_id c))))"
  using assms
proof (cases rule: assess_and_route_cases)
  case (1 a created rdb g)
  have "risk_run lib (me_risk_id env, me_now env) (default_risk_policy, run, po, invoice) (gdb_risk db)
      = (Inr (a, created), rdb)" using 1 by (simp add: risk_run_def)
  from risk_replay.stored [OF this] have "find_for_match rdb (mrun_id run) (rp_version default_risk_policy) = Some a"
    by (simp add: risk_lookup_def split: if_splits)
  moreover obtain c b vdb where c: "ensure_review_case lib (me_review_id env) (me_now env) run (Some a) (gdb_review db) = ((c, b), vdb)"
    by (metis surj_pair)
  ultimately show ?thesis
    using 1 ensure_review_case_facts [OF c] by (cases c) auto
qed

lemma match_service_assesses:
  assumes "match_service lib env policy policy3 doc poid mode db = (Inr (r, b), db')" and "me_repaired env = None"
  shows "\<exists>run po invoice db0. assess_and_route lib env run po invoice db0 = (Inr r, db')"
proof -
  have found: ?thesis if "ensure_case_for_existing lib env c d = (Inr r, db')" for c d
    using that assms(2) by (rule ensure_case_assesses) blast
  have committed: ?thesis if "commit_match lib env run po invoice contexts drafts db = (Inr (r, b), db')"
    for run po invoice contexts drafts
    using that by (cases rule: commit_match_cases) (blast intro: found)+
  from assms(1) show ?thesis
  proof (rule match_service_inputs)
    fix po e invoice
    assume "mode = TWO_WAY \<Longrightarrow>
        match_two_way lib env policy (doc, poid, er_id e, mode, mp_version policy) po invoice db = (Inr (r, b), db')"
      and "mode = THREE_WAY \<Longrightarrow>
        match_three_way lib env policy3 (doc, poid, er_id e, mode, tp_version policy3) po invoice db = (Inr (r, b), db')"
    then show ?thesis
      using found committed
      by (cases mode; auto simp: match_two_way_def match_three_way_def replayed_Inr Let_def
          split: option.splits prod.splits sum.splits)
  qed
qed

text \<open>
  C6: no run escapes review. Every run that matching returns has a stored duplicate-risk assessment,
  and when its decision or the assessment asks for review the database holds its review case, with
  every reason and signal of the run among the case's triggers.
\<close>

theorem match_routes_to_review:
  assumes "match_service lib env policy policy3 doc poid mode db = (Inr (run, created), db')"
    and "me_repaired env = None"
  shows "\<exists>a. find_for_match (gdb_risk db') (mrun_id run) ''duplicate-risk-v1'' = Some a
    \<and> (requires_review run (Some a) \<longrightarrow> (\<exists>c. find_case_of_run (gdb_review db') (mrun_id run) = Some c
         \<and> set (trigger_snapshot run (Some a)) \<subseteq> set (triggers_of (gdb_review db') (rvc_id c))))"
proof -
  from assms obtain r0 po invoice db0 where "assess_and_route lib env r0 po invoice db0 = (Inr run, db')"
    using match_service_assesses by blast
  from assess_and_route_effect [OF this] show ?thesis by (simp add: default_risk_policy_def)
qed

subsection \<open>The ledger of allocations\<close>

definition ledger_total :: "three_way_allocation list \<Rightarrow> purchase_order \<Rightarrow> po_line \<Rightarrow> rat" where
  "ledger_total as po pol =
     sum_list (map dval (allocated_quantities (filter (\<lambda>a. ta_purchase_order_id a = po_id po) as) pol))"

lemma ledger_total_append [simp]: "ledger_total (as @ bs) po pol = ledger_total as po pol + ledger_total bs po pol"
  by (simp add: ledger_total_def allocated_quantities_def)

lemma ledger_total_sorted: "sum_list (map dval (allocated_quantities (allocations_of_order as po) pol)) = ledger_total as po pol"
proof -
  have "mset (map dval (allocated_quantities (allocations_of_order as po) pol))
      = mset (map dval (allocated_quantities (filter (\<lambda>a. ta_purchase_order_id a = po_id po) as) pol))"
    by (simp add: allocated_quantities_def allocations_of_order_def filter_filter_mset conj_commute)
  then show ?thesis unfolding ledger_total_def by (metis sum_mset_sum_list)
qed

lemma ledger_total_prior:
  assumes "filter (\<lambda>a. ta_document_id a = doc \<and> ta_purchase_order_id a = po_id po) as = []"
  shows "ledger_total as po pol = sum_list (map dval (allocated_quantities (prior_allocations as po (Some doc)) pol))"
proof -
  have "prior_allocations as po (Some doc) = allocations_of_order as po"
    using assms by (auto simp: prior_allocations_def allocations_of_order_def filter_empty_conv intro!: filter_True)
  then show ?thesis by (simp add: ledger_total_sorted)
qed

lemma allocation_rows_line:
  assumes "distinct (map ad_purchase_order_line_id drafts)" and "d \<in> set drafts"
    and "pl_id pol = ad_purchase_order_line_id d" and "mrun_purchase_order_id run = po_id po"
  shows "ledger_total (allocation_rows lib env run drafts) po pol = dval (numeric_column lib (ad_quantity d))"
proof -
  let ?row = "\<lambda>(k, d). \<lparr>ta_id = me_allocation_id env k, ta_match_run_id = mrun_id run,
        ta_document_id = mrun_document_id run, ta_purchase_order_id = mrun_purchase_order_id run,
        ta_extraction_run_id = mrun_extraction_run_id run,
        ta_purchase_order_line_id = ad_purchase_order_line_id d,
        ta_invoice_line_index = ad_invoice_line_index d,
        ta_allocated_quantity = numeric_column lib (ad_quantity d), ta_created_at = me_now env\<rparr>"
  have quantities: "allocated_quantities (filter (\<lambda>a. ta_purchase_order_id a = po_id po) (map ?row (List.enumerate n ds))) pol
      = map (\<lambda>d. numeric_column lib (ad_quantity d)) (filter (\<lambda>d. ad_purchase_order_line_id d = pl_id pol) ds)" for n ds
    by (induction ds arbitrary: n) (auto simp: allocated_quantities_def assms(4))
  have "filter (\<lambda>d. ad_purchase_order_line_id d = pl_id pol) ds = [d]"
    if "distinct (map ad_purchase_order_line_id ds)" "d \<in> set ds" for ds
    using that
  proof (induction ds)
    case (Cons x ds)
    then show ?case
      by (cases "x = d") (auto simp: assms(3) filter_empty_conv image_iff)
  qed simp
  then show ?thesis
    using assms(1,2) quantities [of 0 drafts] by (simp add: ledger_total_def allocation_rows_def)
qed

text \<open>
  C1: the ledger never exceeds the goods. When a three-way match is stored with an allocation for a
  purchase-order line, the sum of all allocations of that line, those of earlier invoices and the new
  one, is at most the accepted quantity of its unreversed receipts plus the policy's tolerance.
\<close>

theorem match_ledger_within_received:
  assumes run: "match_service lib env policy policy3 doc poid THREE_WAY db = (Inr (run, True), db')"
    and env: "me_repaired env = None"
    and po: "lock_purchase_order (gdb_orders db) poid = Some po" "distinct (map pl_id (po_lines po))" "pol \<in> set (po_lines po)"
    and new: "a \<in> set (drop (length (gdb_allocations db)) (gdb_allocations db'))" "ta_purchase_order_line_id a = pl_id pol"
    and exact: "numeric_column_exact lib"
      "line_exact (receipts_of_order (gdb_receipts db) po) (prior_allocations (gdb_allocations db) po (Some doc)) pol
         (tp_quantity_absolute_tolerance policy3)"
    and digits: "\<And>e invoice l q. current_successful_extraction (gdb_extractions db) doc = Some e \<Longrightarrow> er_output e = Some invoice \<Longrightarrow>
      l \<in> set (inv_line_items invoice) \<Longrightarrow> numeric_value (il_quantity l) = Some q \<Longrightarrow> -8 \<le> expo q"
  shows "ledger_total (gdb_allocations db') po pol
    \<le> sum_list (map dval (accepted_quantities (receipts_of_order (gdb_receipts db) po) pol))
      + dval (tp_quantity_absolute_tolerance policy3)"
proof -
  have poid: "po_id po = poid" using po(1) by (auto simp: lock_purchase_order_def dest: find_row_Some)
  obtain e invoice where e: "current_successful_extraction (gdb_extractions db) doc = Some e" "er_output e = Some invoice"
    and three: "match_three_way lib env policy3 (doc, poid, er_id e, THREE_WAY, tp_version policy3) po invoice db = (Inr (run, True), db')"
    by (rule match_service_inputs [OF run]) (use po(1) in auto)
  let ?key = "(doc, poid, er_id e, THREE_WAY, tp_version policy3)"
  obtain snapshot fp replay where ctx:
    "build_context lib (gdb_receipts db) (gdb_allocations db) po policy3 (Some doc) = (snapshot, fp, replay)"
    by (metis surj_pair)
  have snapshot: "snapshot = build_snapshot (gdb_receipts db) (gdb_allocations db) po policy3 (Some doc)"
    using ctx by (simp add: build_context_def Let_def)
  obtain r0 drafts0 r1 drafts where
    engine: "match_invoice_three_way lib invoice po snapshot policy3 = Inr (r0, drafts0)" and
    rec: "reconcile_allocations (gdb_allocations db) doc poid invoice r0 drafts0 = (r1, drafts)" and
    commit: "commit_match lib env (new_run env ?key fp (three_way_policy_json lib policy3) r1) po invoice
         [\<lparr>tc_match_run_id = me_run_id env, tc_context_fingerprint = fp, tc_replay_fingerprint = replay,
           tc_snapshot = snapshot, tc_created_at = me_now env\<rparr>] drafts db = (Inr (run, True), db')"
    by (rule match_three_way_cases [OF three]) (use ctx poid in auto)
  let ?run = "new_run env ?key fp (three_way_policy_json lib policy3) r1"
  let ?rows = "allocation_rows lib env ?run drafts"
  have alloc: "gdb_allocations db' = gdb_allocations db @ ?rows"
    using commit by (cases rule: commit_match_cases) (auto dest: assess_and_route_keeps(6) simp: stored_db_def)
  then obtain d where d: "d \<in> set drafts" "pl_id pol = ad_purchase_order_line_id d"
    using new allocation_row_draft [of a lib env ?run drafts] by auto
  then have own: "filter (\<lambda>a. ta_document_id a = doc \<and> ta_purchase_order_id a = po_id po) (gdb_allocations db) = []"
    and same: "drafts = drafts0" using rec poid by (auto simp: reconcile_allocations_def Let_def split: if_splits)
  have matched: "mr_decision r0 = MATCHED"
    using three_way_result [OF engine] d(1) same by (metis empty_iff empty_set)
  have "distinct (map ad_purchase_order_line_id drafts)"
    using matched_drafts [OF engine matched po(2)] same by blast
  from allocation_rows_line [OF this d(1) d(2), of ?run po lib env]
  have "ledger_total ?rows po pol = dval (numeric_column lib (ad_quantity d))" using poid by simp
  moreover have "-8 \<le> expo (ad_quantity d)"
    using digits [OF e] draft_digits [OF engine matched] d(1) same by blast
  then have "dval (numeric_column lib (ad_quantity d)) = dval (ad_quantity d)"
    using exact(1) by (simp add: numeric_column_exact_def)
  ultimately show ?thesis
    using draft_within_received [OF engine [unfolded snapshot] _ po(3) d(2) po(2) exact(2)] d(1) same
    by (simp add: alloc ledger_total_prior [OF own])
qed

subsection \<open>Reconciliation keeps the decision contract\<close>

text \<open>
  An invoice that already has allocations never gets more. Reconciling a result with the stored
  allocations of the same invoice drops the new drafts; it keeps the result when the proposals agree
  with what is stored and otherwise turns it into \<open>NEEDS_REVIEW\<close> with the reconciliation reason, and
  the outcome satisfies the decision contract although the code copies it without validation.
\<close>

theorem reconcile_allocations_contract:
  assumes "reconcile_allocations as doc poid invoice r drafts = (r', drafts')" and "validate_decision_contract r"
  defines "existing \<equiv> filter (\<lambda>a. ta_document_id a = doc \<and> ta_purchase_order_id a = poid) as"
  shows "validate_decision_contract r'
    \<and> (existing = [] \<longrightarrow> r' = r \<and> drafts' = drafts)
    \<and> (existing \<noteq> [] \<longrightarrow> drafts' = []
         \<and> (if allocation_conflict (proposals invoice r) (existing_by_line existing)
            then mr_decision r' = NEEDS_REVIEW \<and> ALLOCATION_RECONCILIATION_REQUIRED \<in> set (mr_reason_codes r')
            else r' = r))"
proof -
  have "validate_decision_contract (reconciled_result r)"
    by (auto simp: validate_decision_contract_def reconciled_result_def reconciliation_check_def Let_def)
  moreover have "ALLOCATION_RECONCILIATION_REQUIRED \<in> set (mr_reason_codes (reconciled_result r))"
    "mr_decision (reconciled_result r) = NEEDS_REVIEW"
    by (simp_all add: reconciled_result_def)
  ultimately show ?thesis
    using assms(1,2) unfolding existing_def by (auto simp: reconcile_allocations_def Let_def split: if_splits)
qed

subsection \<open>The ledger as a transition system\<close>

text \<open>
  Matches in any order and in both modes, from an empty ledger. Orders, extractions and receipts may
  change in between.
\<close>

inductive match_step :: "lib \<Rightarrow> matching_db \<Rightarrow> matching_db \<Rightarrow> bool" for lib where
  matched_once: "match_service lib env policy policy3 doc poid mode db = (res, db') \<Longrightarrow> me_repaired env = None \<Longrightarrow>
     match_step lib db db'"
| inputs_changed: "gdb_allocations db' = gdb_allocations db \<Longrightarrow> match_step lib db db'"

definition ledger_start :: "matching_db \<Rightarrow> bool" where
  "ledger_start db \<longleftrightarrow> gdb_allocations db = []"

definition ledger_inv :: "matching_db \<Rightarrow> bool" where
  "ledger_inv db \<longleftrightarrow>
     list_all (\<lambda>a. dlt dzero (ta_allocated_quantity a)) (gdb_allocations db)
     \<and> distinct (map allocation_key (gdb_allocations db))"

lemma allocations_valid_append:
  "ledger_inv db \<Longrightarrow> allocations_valid (gdb_allocations db) rows \<Longrightarrow> gdb_allocations db' = gdb_allocations db @ rows \<Longrightarrow>
    ledger_inv db'"
  by (auto simp: ledger_inv_def allocations_valid_def)

lemma ledger_inv_same: "ledger_inv db \<Longrightarrow> gdb_allocations db' = gdb_allocations db \<Longrightarrow> ledger_inv db'"
  by (simp add: ledger_inv_def)

lemma assess_and_route_allocations:
  "assess_and_route lib env run po invoice db = (res, db') \<Longrightarrow> gdb_allocations db' = gdb_allocations db"
  by (auto simp: assess_and_route_def Let_def split: prod.splits sum.splits)

lemma ensure_case_allocations:
  "ensure_case_for_existing lib env run db = (res, db') \<Longrightarrow> me_repaired env = None \<Longrightarrow>
    gdb_allocations db' = gdb_allocations db"
  by (auto simp: ensure_case_for_existing_def split: option.splits dest: assess_and_route_allocations)

lemma replayed_allocations:
  "replayed (ensure_case_for_existing lib env run db) = (res, db') \<Longrightarrow> me_repaired env = None \<Longrightarrow>
    gdb_allocations db' = gdb_allocations db"
  by (auto simp: replayed_def split: prod.splits sum.splits dest: ensure_case_allocations)

lemma commit_match_ledger:
  assumes "commit_match lib env run po invoice contexts drafts db = (res, db')" and "me_repaired env = None"
    and "ledger_inv db"
  shows "ledger_inv db'"
proof -
  let ?rows = "allocation_rows lib env run drafts"
  from assms(1,2) consider "gdb_allocations db' = gdb_allocations db"
    | "allocations_valid (gdb_allocations db) ?rows" "gdb_allocations db' = gdb_allocations db @ ?rows"
    by (auto simp: commit_match_def Let_def split: if_splits option.splits prod.splits sum.splits
        dest: assess_and_route_allocations replayed_allocations)
  then show ?thesis
    by cases (use assms(3) ledger_inv_same allocations_valid_append in blast)+
qed

lemma match_service_ledger:
  assumes "match_service lib env policy policy3 doc poid mode db = (res, db')" and "me_repaired env = None"
    and inv: "ledger_inv db"
  shows "ledger_inv db'"
proof -
  have two: "ledger_inv db'" if "match_two_way lib env policy key po invoice db = (res, db')" for key po invoice
    using that commit_match_ledger [OF _ assms(2) inv] replayed_allocations [OF _ assms(2)] inv
    by (auto simp: match_two_way_def Let_def split: option.splits intro: ledger_inv_same)
  have three: "ledger_inv db'" if "match_three_way lib env policy3 key po invoice db = (res, db')" for key po invoice
    using that commit_match_ledger [OF _ assms(2) inv] replayed_allocations [OF _ assms(2)] inv
    by (auto simp: match_three_way_def split: option.splits prod.splits sum.splits intro: ledger_inv_same)
  from assms(1) inv two three show ?thesis
    by (auto simp: match_service_def split: if_splits option.splits matching_mode.splits)
qed

interpretation ledger: inductive_system ledger_start "match_step lib" ledger_inv for lib
proof
  show "ledger_inv db" if "ledger_start db" for db
    using that by (simp add: ledger_start_def ledger_inv_def)
  show "ledger_inv db'" if "match_step lib db db'" and "ledger_inv db" for db db'
    using that by (cases rule: match_step.cases) (auto intro: match_service_ledger ledger_inv_same)
qed

text \<open>
  the allocation ledger is sound. Whatever matches are made, every allocation is positive and an
  invoice line is allocated at most once per purchase order.
\<close>

theorem ledger_reachable_sound:
  assumes "reachable_from ledger_start (match_step lib) db"
  shows "list_all (\<lambda>a. 0 < dval (ta_allocated_quantity a)) (gdb_allocations db)
    \<and> distinct (map (\<lambda>a. (ta_document_id a, ta_purchase_order_id a, ta_invoice_line_index a)) (gdb_allocations db))"
  using ledger.inv_reachable [OF assms]
  by (simp add: ledger_inv_def num_iffs allocation_key_def [abs_def] dval_dzero)

subsection \<open>Witnesses\<close>

definition sample_extraction :: "invoice \<Rightarrow> extraction_run" where
  "sample_extraction i = \<lparr>er_id = 4, er_document_id = 3, er_extractor_name = ''hybrid-routed'',
     er_extractor_version = ''0.5.0'', er_status = EXTRACTION_SUCCEEDED, er_output = Some i,
     er_created_at = sample_time 738010\<rparr>"

definition sample_match_db :: "invoice \<Rightarrow> matching_db" where
  "sample_match_db i = \<lparr>gdb_documents = [3], gdb_orders = [sample_bolt_po],
     gdb_extractions = [sample_extraction i], gdb_receipts = [sample_receipt], gdb_runs = [],
     gdb_contexts = [], gdb_allocations = [], gdb_risk = empty_risk_db, gdb_review = empty_review_db\<rparr>"

definition sample_env :: "nat \<Rightarrow> match_env" where
  "sample_env n = \<lparr>me_now = sample_time 738100, me_run_id = 100 + n, me_allocation_id = (\<lambda>k. 200 + n + k),
     me_risk_id = (\<lambda>k. 300 + n + k), me_review_id = (\<lambda>k. 400 + n + k), me_racing = [], me_repaired = None\<rparr>"

abbreviation sample_match :: "nat \<Rightarrow> matching_db \<Rightarrow> (match_error, match_run \<times> bool) result \<times> matching_db" where
  "sample_match n \<equiv> match_service sample_lib (sample_env n) default_policy default_three_way_policy 3 7 THREE_WAY"

lemma sample_current_extraction:
  "current_successful_extraction [sample_extraction i] 3 = Some (sample_extraction i)"
proof -
  have "strategy_priority (sample_extraction i) = 0"
    by (simp add: strategy_priority_def sample_extraction_def strategy_key_def CURRENT_EXTRACTION_STRATEGIES_def)
  then show ?thesis
    by (simp add: current_successful_extraction_def sample_extraction_def CURRENT_EXTRACTION_STRATEGIES_def)
qed

lemma sample_match_commits:
  assumes "match_invoice_three_way sample_lib i sample_bolt_po sample_context default_three_way_policy = Inr (r, drafts)"
  obtains run contexts where "mrun_purchase_order_id run = 7" "mrun_document_id run = 3"
    "sample_match 0 (sample_match_db i) = commit_match sample_lib (sample_env 0) run sample_bolt_po i contexts drafts (sample_match_db i)"
proof -
  have "build_context sample_lib [sample_receipt] [] sample_bolt_po default_three_way_policy (Some 3)
      = (sample_context, fst (snd (build_context sample_lib [sample_receipt] [] sample_bolt_po default_three_way_policy (Some 3))),
         snd (snd (build_context sample_lib [sample_receipt] [] sample_bolt_po default_three_way_policy (Some 3))))"
    by (simp add: build_context_def Let_def sample_context_def)
  then obtain fp replay where ctx: "build_context sample_lib [sample_receipt] [] sample_bolt_po default_three_way_policy (Some 3)
      = (sample_context, fp, replay)" by blast
  have "lock_purchase_order [sample_bolt_po] 7 = Some sample_bolt_po"
    by (simp add: lock_purchase_order_def sample_bolt_po_def sample_po_def)
  with assms ctx sample_current_extraction show ?thesis
    by (intro that [of "new_run (sample_env 0) (3, 7, 4, THREE_WAY, tp_version default_three_way_policy) fp
          (three_way_policy_json sample_lib default_three_way_policy) r"
          "[\<lparr>tc_match_run_id = me_run_id (sample_env 0), tc_context_fingerprint = fp,
             tc_replay_fingerprint = replay, tc_snapshot = sample_context, tc_created_at = me_now (sample_env 0)\<rparr>]"])
      (simp_all add: match_service_def match_three_way_def sample_match_db_def sample_extraction_def find_replay_def
        find_prior_candidates_def find_existing_def reconcile_allocations_def)
qed

text \<open>
  A matched line that bills a quantity of zero breaks the match. The engine matches it and drafts an
  allocation of zero, which the check constraint of the allocation table refuses; no concurrent run
  exists, so the integrity error is raised again and the request fails.
\<close>

theorem zero_quantity_line_fails:
  "fst (sample_match 0 (sample_match_db sample_no_bolts)) = Inl MatchIntegrityError"
proof -
  obtain r where "match_invoice_three_way sample_lib sample_no_bolts sample_bolt_po sample_context default_three_way_policy
      = Inr (r, [\<lparr>ad_purchase_order_line_id = 20, ad_invoice_line_index = 0, ad_quantity = Scaled 0 0\<rparr>])"
    using sample_zero_matched by blast
  then show ?thesis
  proof (rule sample_match_commits)
    fix run contexts
    assume commits: "sample_match 0 (sample_match_db sample_no_bolts)
        = commit_match sample_lib (sample_env 0) run sample_bolt_po sample_no_bolts contexts
            [\<lparr>ad_purchase_order_line_id = 20, ad_invoice_line_index = 0, ad_quantity = Scaled 0 0\<rparr>]
            (sample_match_db sample_no_bolts)"
    have "\<not> dlt dzero (numeric_column sample_lib (Scaled 0 0))" by code_simp
    then show ?thesis
      unfolding commits
      by (simp add: commit_match_def allocation_rows_def allocations_valid_def find_existing_def
          sample_match_db_def sample_env_def Let_def)
  qed
qed

lemma sample_match_created:
  obtains run db' where "sample_match 0 (sample_match_db sample_bolts) = (Inr (run, True), db')"
    "length (gdb_allocations db') = 1" "ta_purchase_order_line_id (hd (gdb_allocations db')) = 20"
proof -
  obtain r where "match_invoice_three_way sample_lib sample_bolts sample_bolt_po sample_context default_three_way_policy
      = Inr (r, [\<lparr>ad_purchase_order_line_id = 20, ad_invoice_line_index = 0, ad_quantity = Scaled 2 0\<rparr>])"
    using sample_three_way_matched by blast
  then show ?thesis
  proof (rule sample_match_commits)
    fix run contexts
    let ?d = "[\<lparr>ad_purchase_order_line_id = 20, ad_invoice_line_index = 0, ad_quantity = Scaled 2 0\<rparr>]"
    assume commits: "sample_match 0 (sample_match_db sample_bolts)
        = commit_match sample_lib (sample_env 0) run sample_bolt_po sample_bolts contexts ?d (sample_match_db sample_bolts)"
    let ?db = "stored_db sample_lib (sample_env 0) run contexts ?d (sample_match_db sample_bolts)"
    have "dlt dzero (numeric_column sample_lib (Scaled 2 0))" by code_simp
    then have valid: "allocations_valid [] (allocation_rows sample_lib (sample_env 0) run ?d)"
      by (simp add: allocations_valid_def allocation_rows_def)
    have "gdb_risk ?db = empty_risk_db" by (simp add: stored_db_def sample_match_db_def)
    then obtain run' db' where assess: "assess_and_route sample_lib (sample_env 0) run sample_bolt_po sample_bolts ?db = (Inr run', db')"
      using risk_ensure_empty [of sample_lib default_risk_policy "me_risk_id (sample_env 0)" "me_now (sample_env 0)"
          run sample_bolt_po sample_bolts]
      by (auto simp: assess_and_route_def Let_def)
    have "gdb_allocations db' = allocation_rows sample_lib (sample_env 0) run ?d"
      using assess_and_route_keeps(6) [OF assess] by (simp add: stored_db_def sample_match_db_def)
    with assess valid commits show ?thesis
      by (intro that [of run' db'])
        (simp_all add: commit_match_def stored_db_def find_existing_def sample_match_db_def sample_env_def
          Let_def allocation_rows_def)
  qed
qed

theorem match_idempotent_witness:
  "\<exists>run db'. sample_match 0 (sample_match_db sample_bolts) = (Inr (run, True), db')
     \<and> sample_match 9 db' = (Inr (run, False), db')"
proof -
  obtain run db' where run: "sample_match 0 (sample_match_db sample_bolts) = (Inr (run, True), db')"
    by (rule sample_match_created)
  have "sample_match 9 db' = (Inr (run, False), db')"
    by (rule match_idempotent [OF run]) (simp_all add: sample_env_def sample_match_db_def sample_extraction_def)
  with run show ?thesis by blast
qed

theorem match_routes_to_review_witness:
  "\<exists>run db' a. sample_match 0 (sample_match_db sample_bolts) = (Inr (run, True), db')
     \<and> find_for_match (gdb_risk db') (mrun_id run) ''duplicate-risk-v1'' = Some a
     \<and> (requires_review run (Some a) \<longrightarrow> find_case_of_run (gdb_review db') (mrun_id run) \<noteq> None)"
proof -
  obtain run db' where run: "sample_match 0 (sample_match_db sample_bolts) = (Inr (run, True), db')"
    by (rule sample_match_created)
  from match_routes_to_review [OF run] run show ?thesis by (fastforce simp: sample_env_def)
qed

theorem match_ledger_within_received_witness:
  "\<exists>run db'. sample_match 0 (sample_match_db sample_bolts) = (Inr (run, True), db')
     \<and> ledger_total (gdb_allocations db') sample_bolt_po (po_lines sample_bolt_po ! 0) \<le> 5"
proof -
  let ?pol = "po_lines sample_bolt_po ! 0" and ?tol = "tp_quantity_absolute_tolerance default_three_way_policy"
  obtain run db' where run: "sample_match 0 (sample_match_db sample_bolts) = (Inr (run, True), db')"
    and alloc: "length (gdb_allocations db') = 1" "ta_purchase_order_line_id (hd (gdb_allocations db')) = 20"
    by (rule sample_match_created)
  have acc: "accepted_quantities (receipts_of_order [sample_receipt] sample_bolt_po) ?pol = [Scaled 500000000 (-8)]"
    and prior: "allocated_quantities (prior_allocations [] sample_bolt_po (Some 3)) ?pol = []" by code_simp+
  have exact: "line_exact (receipts_of_order [sample_receipt] sample_bolt_po) (prior_allocations [] sample_bolt_po (Some 3)) ?pol ?tol"
    by (simp add: line_exact_def line_bounded_def acc prior scale_of_def align_def fits28_def default_three_way_policy_def)
  have total: "sum_list (map dval (accepted_quantities (receipts_of_order [sample_receipt] sample_bolt_po) ?pol)) + dval ?tol = 5"
    by (simp add: acc default_three_way_policy_def dval_def sval_def power_int_def power_divide)
  have pol: "?pol \<in> set (po_lines sample_bolt_po)" "distinct (map pl_id (po_lines sample_bolt_po))" "pl_id ?pol = 20"
    "lock_purchase_order [sample_bolt_po] 7 = Some sample_bolt_po"
    by (simp_all add: sample_bolt_po_def sample_po_def lock_purchase_order_def)
  obtain a where a: "gdb_allocations db' = [a]" using alloc(1) by (auto simp: length_Suc_conv)
  have "ledger_total (gdb_allocations db') sample_bolt_po ?pol
    \<le> sum_list (map dval (accepted_quantities (receipts_of_order (gdb_receipts (sample_match_db sample_bolts)) sample_bolt_po) ?pol))
      + dval ?tol"
  proof (rule match_ledger_within_received [OF run])
    show "-8 \<le> expo q" if "current_successful_extraction (gdb_extractions (sample_match_db sample_bolts)) 3 = Some e"
      "er_output e = Some i" "l \<in> set (inv_line_items i)" "numeric_value (il_quantity l) = Some q" for e i l q
    proof -
      have "e = sample_extraction sample_bolts"
        using that(1) sample_current_extraction [of sample_bolts] by (simp add: sample_match_db_def)
      then have "i = sample_bolts" using that(2) by (simp add: sample_extraction_def)
      then show ?thesis
        using that(3,4) by (auto simp: sample_bolts_def sample_invoice_def sample_line_def numeric_value_def seen_def)
    qed
    show "a \<in> set (drop (length (gdb_allocations (sample_match_db sample_bolts))) (gdb_allocations db'))"
      by (simp add: a sample_match_db_def)
    show "ta_purchase_order_line_id a = pl_id ?pol" using alloc(2) a pol(3) by simp
  qed (use pol exact sample_lib_column in \<open>simp_all add: sample_match_db_def sample_env_def\<close>)
  with total run show ?thesis by (auto simp: sample_match_db_def)
qed

theorem ledger_reachable_sound_witness:
  "\<exists>run db'. sample_match 0 (sample_match_db sample_bolts) = (Inr (run, True), db')
     \<and> list_all (\<lambda>a. 0 < dval (ta_allocated_quantity a)) (gdb_allocations db')"
proof -
  obtain run db' where run: "sample_match 0 (sample_match_db sample_bolts) = (Inr (run, True), db')"
    by (rule sample_match_created)
  have "reachable_from ledger_start (match_step sample_lib) (sample_match_db sample_bolts)"
    by (rule reach_start) (simp add: ledger_start_def sample_match_db_def)
  then have "reachable_from ledger_start (match_step sample_lib) db'"
    by (rule reach_step) (rule matched_once [OF run], simp add: sample_env_def)
  from ledger_reachable_sound [OF this] run show ?thesis by blast
qed

theorem reconcile_allocations_contract_witness:
  "\<exists>r'. reconcile_allocations [sample_allocation] 3 7 sample_bolts sample_result
        [\<lparr>ad_purchase_order_line_id = 20, ad_invoice_line_index = 0, ad_quantity = Scaled 2 0\<rparr>] = (r', [])
     \<and> mr_decision r' = NEEDS_REVIEW \<and> validate_decision_contract r'"
proof -
  obtain r' ds where run: "reconcile_allocations [sample_allocation] 3 7 sample_bolts sample_result
      [\<lparr>ad_purchase_order_line_id = 20, ad_invoice_line_index = 0, ad_quantity = Scaled 2 0\<rparr>] = (r', ds)"
    by (metis surj_pair)
  have ok: "validate_decision_contract sample_result" by code_simp
  have "allocation_conflict (proposals sample_bolts sample_result) (existing_by_line [sample_allocation])"
    by (simp add: allocation_conflict_def proposals_def sample_result_def existing_by_line_def dict_of_def)
  moreover have "filter (\<lambda>a. ta_document_id a = 3 \<and> ta_purchase_order_id a = 7) [sample_allocation] = [sample_allocation]"
    by (simp add: sample_allocation_def)
  ultimately show ?thesis using reconcile_allocations_contract [OF run ok] run by simp
qed

end
