(* ===== verification/Event_Log.thy ===== *)
theory Event_Log
  imports Canonical
begin

text \<open>
  Progress events of jobs and payable cases (\<^verbatim>\<open>invoiceops/jobs/events.py\<close>,
  \<^verbatim>\<open>invoiceops/cases/events.py\<close> and the types of \<^verbatim>\<open>invoiceops/schemas/jobs.py\<close>): append under a row
  lock with an event key that makes redelivery harmless. Both logs have the contract of the locale
  \<open>keyed_log\<close>.
\<close>

subsection \<open>The contract of a log\<close>

text \<open>
  \<open>append d es\<close> is \<open>None\<close> when the owner's row does not exist; otherwise it returns the event and the
  log after the call.
\<close>

locale keyed_log =
  fixes owner :: "'e \<Rightarrow> uuid"
    and seqno :: "'e \<Rightarrow> nat"
    and key :: "'e \<Rightarrow> string"
    and draft_owner :: "'d \<Rightarrow> uuid"
    and draft_key :: "'d \<Rightarrow> string"
    and append :: "'env \<Rightarrow> 'd \<Rightarrow> 'e list \<Rightarrow> ('e \<times> 'e list) option"
  assumes hit: "append env d es = Some (e, es') \<Longrightarrow>
      find_row (\<lambda>x. owner x = draft_owner d \<and> key x = draft_key d) es = Some e0 \<Longrightarrow> e = e0 \<and> es' = es"
    and miss: "append env d es = Some (e, es') \<Longrightarrow>
      find_row (\<lambda>x. owner x = draft_owner d \<and> key x = draft_key d) es = None \<Longrightarrow>
      es' = es @ [e] \<and> owner e = draft_owner d \<and> key e = draft_key d
      \<and> seqno e = max_list (map seqno (filter (\<lambda>x. owner x = draft_owner d) es)) + 1"
    and total: "append env d es = Some x \<Longrightarrow> append env' d es' \<noteq> None"
begin

definition log_ok :: "'e list \<Rightarrow> bool" where
  "log_ok es \<longleftrightarrow> (\<forall>i. map seqno (filter (\<lambda>x. owner x = i) es) = [1..<Suc (length (filter (\<lambda>x. owner x = i) es))]
     \<and> distinct (map key (filter (\<lambda>x. owner x = i) es)))"

lemma log_ok_Nil: "log_ok []"
  by (simp add: log_ok_def)

lemma append_ok:
  assumes "append env d es = Some (e, es')" and "log_ok es"
  shows "log_ok es'"
proof (cases "find_row (\<lambda>x. owner x = draft_owner d \<and> key x = draft_key d) es")
  case (Some e0)
  with hit [OF assms(1)] assms(2) show ?thesis by simp
next
  case None
  note new = miss [OF assms(1) None]
  let ?own = "filter (\<lambda>x. owner x = draft_owner d) es"
  have seqs: "map seqno ?own = [1..<Suc (length ?own)]" using assms(2) by (simp only: log_ok_def)
  then have "seqno e = Suc (length ?own)" using new max_list_upto [of "length ?own"] by simp
  moreover have "key e \<notin> set (map key ?own)"
    using None new by (auto simp: find_row_None_iff)
  ultimately show ?thesis
    using assms(2) new seqs by (auto simp: log_ok_def)
qed

lemma append_again:
  assumes "append env d es = Some (e, es')"
  shows "append env' d es' = Some (e, es')"
proof -
  have found: "find_row (\<lambda>x. owner x = draft_owner d \<and> key x = draft_key d) es' = Some e"
  proof (cases "find_row (\<lambda>x. owner x = draft_owner d \<and> key x = draft_key d) es")
    case (Some e0)
    with hit [OF assms] show ?thesis by simp
  next
    case None
    with miss [OF assms None] show ?thesis by (simp add: find_row_append)
  qed
  obtain e1 es1 where "append env' d es' = Some (e1, es1)"
    using total [OF assms] by fastforce
  with hit [OF this found] show ?thesis by simp
qed

lemma append_prefix: "append env d es = Some (e, es') \<Longrightarrow> \<exists>new. es' = es @ new"
  using hit miss by (cases "find_row (\<lambda>x. owner x = draft_owner d \<and> key x = draft_key d) es") fastforce+

end

subsection \<open>Job events\<close>

datatype job_event_type = UPLOAD_ACCEPTED | DOCUMENT_VALIDATED | EXTRACTION_STARTED | EXTRACTION_COMPLETED
  | PROCESSING_COMPLETED | PROCESSING_FAILED | HEARTBEAT

record job_event =
  je_job_id :: uuid
  je_sequence_number :: nat
  je_event_key :: string
  je_event_type :: job_event_type
  je_stage :: string
  je_status :: string
  je_message :: string
  je_payload :: "(string \<times> json) list"
  je_trace_id :: "string option"
  je_occurred_at :: datetime

record job_event_draft =
  jd_job_id :: uuid
  jd_event_key :: string
  jd_event_type :: job_event_type
  jd_stage :: string
  jd_status :: string
  jd_message :: string
  jd_payload :: "(string \<times> json) list"

text \<open>The environment is the set of jobs that exist, the trace identifier and the time.\<close>

definition append_job_event ::
  "uuid set \<Rightarrow> string option \<times> datetime \<Rightarrow> job_event_draft \<Rightarrow> job_event list \<Rightarrow> (job_event \<times> job_event list) option" where
  "append_job_event jobs env d es =
     (if jd_job_id d \<notin> jobs then None
      else case find_row (\<lambda>e. je_job_id e = jd_job_id d \<and> je_event_key e = jd_event_key d) es of
             Some e \<Rightarrow> Some (e, es)
           | None \<Rightarrow>
               let last_sequence = max_list (map je_sequence_number (filter (\<lambda>e. je_job_id e = jd_job_id d) es));
                   e = \<lparr>je_job_id = jd_job_id d, je_sequence_number = last_sequence + 1,
                        je_event_key = jd_event_key d, je_event_type = jd_event_type d, je_stage = jd_stage d,
                        je_status = jd_status d, je_message = jd_message d, je_payload = jd_payload d,
                        je_trace_id = fst env, je_occurred_at = snd env\<rparr>
               in Some (e, es @ [e]))"

definition list_job_events :: "job_event list \<Rightarrow> uuid \<Rightarrow> nat \<Rightarrow> nat \<Rightarrow> job_event list" where
  "list_job_events es job after_sequence limit =
     take limit (sort_key je_sequence_number
       (filter (\<lambda>e. je_job_id e = job \<and> after_sequence < je_sequence_number e) es))"

interpretation job_log: keyed_log je_job_id je_sequence_number je_event_key jd_job_id jd_event_key
    "append_job_event jobs" for jobs
  by unfold_locales (auto simp: append_job_event_def Let_def split: if_splits option.splits)

subsection \<open>Case events\<close>

datatype document_role = INVOICE | PURCHASE_ORDER | GOODS_RECEIPT | DELIVERY_NOTE

fun role_text :: "document_role \<Rightarrow> string" where
  "role_text INVOICE = ''INVOICE''"
| "role_text PURCHASE_ORDER = ''PURCHASE_ORDER''"
| "role_text GOODS_RECEIPT = ''GOODS_RECEIPT''"
| "role_text DELIVERY_NOTE = ''DELIVERY_NOTE''"

record case_event =
  ce_case_id :: uuid
  ce_sequence_number :: nat
  ce_event_key :: string
  ce_event_type :: string
  ce_stage :: string
  ce_status :: string
  ce_message :: string
  ce_document_id :: "uuid option"
  ce_document_role :: "document_role option"
  ce_payload :: "(string \<times> json) list"
  ce_occurred_at :: datetime

record case_event_draft =
  cd_case_id :: uuid
  cd_event_key :: string
  cd_event_type :: string
  cd_stage :: string
  cd_status :: string
  cd_message :: string
  cd_document_id :: "uuid option"
  cd_document_role :: "document_role option"
  cd_payload :: "(string \<times> json) list"

definition append_case_event ::
  "uuid set \<Rightarrow> datetime \<Rightarrow> case_event_draft \<Rightarrow> case_event list \<Rightarrow> (case_event \<times> case_event list) option" where
  "append_case_event cases now d es =
     (if cd_case_id d \<notin> cases then None
      else case find_row (\<lambda>e. ce_case_id e = cd_case_id d \<and> ce_event_key e = cd_event_key d) es of
             Some e \<Rightarrow> Some (e, es)
           | None \<Rightarrow>
               let last_sequence = max_list (map ce_sequence_number (filter (\<lambda>e. ce_case_id e = cd_case_id d) es));
                   e = \<lparr>ce_case_id = cd_case_id d, ce_sequence_number = last_sequence + 1,
                        ce_event_key = cd_event_key d, ce_event_type = cd_event_type d, ce_stage = cd_stage d,
                        ce_status = cd_status d, ce_message = cd_message d, ce_document_id = cd_document_id d,
                        ce_document_role = cd_document_role d, ce_payload = cd_payload d, ce_occurred_at = now\<rparr>
               in Some (e, es @ [e]))"

interpretation case_log: keyed_log ce_case_id ce_sequence_number ce_event_key cd_case_id cd_event_key
    "append_case_event cases" for cases
  by unfold_locales (auto simp: append_case_event_def Let_def split: if_splits option.splits)

subsection \<open>Logging from a running operation\<close>

text \<open>The log after a call of an operation that goes on after the event was appended.\<close>

definition log_case_event :: "uuid set \<Rightarrow> datetime \<Rightarrow> case_event_draft \<Rightarrow> case_event list \<Rightarrow> case_event list" where
  "log_case_event cases now d es = (case append_case_event cases now d es of None \<Rightarrow> es | Some (e, es') \<Rightarrow> es')"

definition log_job_event :: "uuid set \<Rightarrow> string option \<times> datetime \<Rightarrow> job_event_draft \<Rightarrow> job_event list \<Rightarrow> job_event list" where
  "log_job_event jobs env d es = (case append_job_event jobs env d es of None \<Rightarrow> es | Some (e, es') \<Rightarrow> es')"

abbreviation case_log_ok :: "case_event list \<Rightarrow> bool" where
  "case_log_ok \<equiv> case_log.log_ok"

abbreviation job_log_ok :: "job_event list \<Rightarrow> bool" where
  "job_log_ok \<equiv> job_log.log_ok"

lemma log_case_event_ok [inv_intros]: "case_log_ok es \<Longrightarrow> case_log_ok (log_case_event cases now d es)"
  by (auto simp: log_case_event_def split: option.splits intro: case_log.append_ok)

lemma log_job_event_ok [inv_intros]: "job_log_ok es \<Longrightarrow> job_log_ok (log_job_event jobs env d es)"
  by (auto simp: log_job_event_def split: option.splits intro: job_log.append_ok)

lemma log_job_event_again: "log_job_event jobs env' d (log_job_event jobs env d es) = log_job_event jobs env d es"
  by (auto simp: log_job_event_def split: option.splits dest: job_log.append_again [where env' = env'] job_log.total [where env' = env and es' = es])

lemma log_case_event_again: "log_case_event cases now' d (log_case_event cases now d es) = log_case_event cases now d es"
  by (auto simp: log_case_event_def split: option.splits dest: case_log.append_again [where env' = now'] case_log.total [where env' = now and es' = es])

text \<open>
  The event log of a job has no gaps. Any sequence of appended events, with any repetition of
  event keys, numbers the events of each job 1, 2, 3 and so on and stores each key once per job.
\<close>

theorem job_events_gapless:
  "let es = foldl (\<lambda>es (jobs, env, d). log_job_event jobs env d es) [] appends in
   map je_sequence_number (filter (\<lambda>e. je_job_id e = job) es) = [1..<Suc (length (filter (\<lambda>e. je_job_id e = job) es))]
   \<and> distinct (map je_event_key (filter (\<lambda>e. je_job_id e = job) es))"
proof -
  have "job_log_ok (foldl (\<lambda>es (jobs, env, d). log_job_event jobs env d es) [] appends)"
    by (induction appends rule: rev_induct) (auto intro: log_job_event_ok job_log.log_ok_Nil)
  then show ?thesis by (simp only: job_log.log_ok_def Let_def)
qed

end
