(* ===== verification/Ingestion.thy ===== *)
theory Ingestion
  imports Event_Log Samples
begin

text \<open>
  Document ingestion (\<^verbatim>\<open>invoiceops/ingestion/service.py\<close>) with the rows of documents and jobs
  (\<^verbatim>\<open>invoiceops/models.py\<close>). The object store is a dictionary from keys to bodies, the job queue a list
  of identifiers; bytes are characters.
\<close>

subsection \<open>Rows\<close>

datatype job_status = QUEUED | PROCESSING | SUCCEEDED | JOB_FAILED

record document_row =
  dc_id :: uuid
  dc_original_filename :: string
  dc_content_type :: string
  dc_byte_size :: nat
  dc_sha256 :: string
  dc_object_key :: string
  dc_created_at :: datetime

record ingestion_job =
  ij_id :: uuid
  ij_document_id :: uuid
  ij_status :: job_status
  ij_error_code :: "string option"
  ij_error_message :: "string option"
  ij_created_at :: datetime

record ingestion_db =
  idb_documents :: "document_row list"
  idb_jobs :: "ingestion_job list"
  idb_events :: "job_event list"
  idb_objects :: "(string \<times> string) list"
  idb_queue :: "uuid list"

record upload_command =
  up_filename :: string
  up_content_type :: string
  up_body :: string

datatype ingestion_error =
    UnsupportedDocumentError
  | EmptyDocumentError
  | DocumentTooLargeError
  | ObjectStoreError
  | IngestionTransactionError

text \<open>
  What a request draws: identifiers, trace and time. The environment adds a request of another client
  that commits after this one has looked for the checksum, what the calls of the object store do, and the
  failures of the transaction and the dispatcher. A call of the store returns, or raises with or without
  having taken effect (a time-out may hide a write). A transaction that raises is rolled back.
\<close>

record upload_ids =
  ui_document_id :: uuid
  ui_job_id :: uuid
  ui_trace :: "string option"
  ui_now :: datetime

datatype store_reply = StoreDone | StoreRaised bool

fun store_applied :: "store_reply \<Rightarrow> bool" where
  "store_applied StoreDone = True"
| "store_applied (StoreRaised applied) = applied"

record ingestion_env = upload_ids +
  ie_racing :: "(upload_ids \<times> upload_command) option"
  ie_put :: store_reply
  ie_delete :: store_reply
  ie_commit_fails :: bool
  ie_dispatch_fails :: bool

subsection \<open>Validation\<close>

definition FILE_SIGNATURES :: "(string \<times> string) list" where
  "FILE_SIGNATURES =
     [(''application/pdf'', ''%PDF-''),
      (''image/jpeg'', [CHR 0xFF, CHR 0xD8, CHR 0xFF]),
      (''image/png'', [CHR 0x89, CHR ''P'', CHR ''N'', CHR ''G'', CHR 0x0D, CHR 0x0A, CHR 0x1A, CHR 0x0A])]"

definition validate_upload :: "nat \<Rightarrow> upload_command \<Rightarrow> (ingestion_error, unit) result" where
  "validate_upload max_upload_bytes c =
     (case map_of FILE_SIGNATURES (up_content_type c) of
        None \<Rightarrow> Inl UnsupportedDocumentError
      | Some signature \<Rightarrow>
          if up_body c = [] then Inl EmptyDocumentError
          else if max_upload_bytes < length (up_body c) then Inl DocumentTooLargeError
          else if take (length signature) (up_body c) \<noteq> signature then Inl UnsupportedDocumentError
          else Inr ())"

text \<open>\<^verbatim>\<open>PurePath(filename).name or "upload"\<close>: the last component that is neither empty nor a dot.\<close>

definition safe_name :: "string \<Rightarrow> string" where
  "safe_name filename =
     (let parts = filter (\<lambda>p. p \<noteq> [] \<and> p \<noteq> ''.'') (split_on (CHR 0x2F) [] filename)
      in if parts = [] then ''upload'' else last parts)"

definition find_job_by_digest :: "ingestion_db \<Rightarrow> string \<Rightarrow> ingestion_job option" where
  "find_job_by_digest db digest =
     find_row (\<lambda>j. list_ex (\<lambda>d. dc_id d = ij_document_id j \<and> dc_sha256 d = digest) (idb_documents db)) (idb_jobs db)"

subsection \<open>Ingestion\<close>

definition object_key_of :: "'a upload_ids_scheme \<Rightarrow> upload_command \<Rightarrow> string" where
  "object_key_of ids c = ''invoices/'' @ uuid_text (ui_document_id ids) @ ''/'' @ safe_name (up_filename c)"

definition new_document :: "lib \<Rightarrow> 'a upload_ids_scheme \<Rightarrow> upload_command \<Rightarrow> document_row" where
  "new_document lib ids c = \<lparr>dc_id = ui_document_id ids, dc_original_filename = safe_name (up_filename c),
     dc_content_type = up_content_type c, dc_byte_size = length (up_body c),
     dc_sha256 = sha256_hex lib (up_body c), dc_object_key = object_key_of ids c, dc_created_at = ui_now ids\<rparr>"

definition new_job :: "'a upload_ids_scheme \<Rightarrow> ingestion_job" where
  "new_job ids = \<lparr>ij_id = ui_job_id ids, ij_document_id = ui_document_id ids, ij_status = QUEUED,
     ij_error_code = None, ij_error_message = None, ij_created_at = ui_now ids\<rparr>"

definition upload_events :: "'a upload_ids_scheme \<Rightarrow> upload_command \<Rightarrow> job_event_draft list" where
  "upload_events ids c =
     [\<lparr>jd_job_id = ui_job_id ids, jd_event_key = ''upload.accepted'', jd_event_type = UPLOAD_ACCEPTED,
       jd_stage = ''upload'', jd_status = ''completed'', jd_message = ''Invoice upload accepted'',
       jd_payload = [(''deduplicated'', JBool False)]\<rparr>,
      \<lparr>jd_job_id = ui_job_id ids, jd_event_key = ''document.validated'', jd_event_type = DOCUMENT_VALIDATED,
       jd_stage = ''validation'', jd_status = ''completed'', jd_message = ''Document type and signature validated'',
       jd_payload = [(''content_type'', JStr (up_content_type c))]\<rparr>]"

definition put_object :: "string \<Rightarrow> string \<Rightarrow> ingestion_db \<Rightarrow> ingestion_db" where
  "put_object k body db = db\<lparr>idb_objects := dict_put k body (idb_objects db)\<rparr>"

definition delete_object :: "string \<Rightarrow> ingestion_db \<Rightarrow> ingestion_db" where
  "delete_object k db = db\<lparr>idb_objects := filter (\<lambda>(k', _). k' \<noteq> k) (idb_objects db)\<rparr>"

text \<open>A call of the store as the service sees it: the exception, if any, and what the store holds afterwards.\<close>

definition store_call :: "store_reply \<Rightarrow> (ingestion_db \<Rightarrow> ingestion_db) \<Rightarrow> ingestion_db \<Rightarrow> ingestion_error option \<times> ingestion_db" where
  "store_call reply f db =
     (if reply = StoreDone then None else Some ObjectStoreError, if store_applied reply then f db else db)"

text \<open>\<^verbatim>\<open>Document.sha256\<close> is unique: the insert is refused when the checksum is stored.\<close>

definition digest_stored :: "ingestion_db \<Rightarrow> string \<Rightarrow> bool" where
  "digest_stored db digest \<longleftrightarrow> digest \<in> set (map dc_sha256 (idb_documents db))"

definition insert_upload :: "lib \<Rightarrow> 'a upload_ids_scheme \<Rightarrow> upload_command \<Rightarrow> ingestion_db \<Rightarrow> ingestion_db" where
  "insert_upload lib ids c db =
     (let jobs = idb_jobs db @ [new_job ids]
      in db\<lparr>idb_documents := idb_documents db @ [new_document lib ids c], idb_jobs := jobs,
           idb_events := foldl (\<lambda>es d. log_job_event (set (map ij_id jobs)) (ui_trace ids, ui_now ids) d es)
             (idb_events db) (upload_events ids c)\<rparr>)"

text \<open>The database after the other request has committed, if its own insert was not refused.\<close>

definition raced :: "lib \<Rightarrow> ingestion_env \<Rightarrow> ingestion_db \<Rightarrow> ingestion_db" where
  "raced lib env db =
     (case ie_racing env of
        None \<Rightarrow> db
      | Some (ids, c) \<Rightarrow>
          if digest_stored db (sha256_hex lib (up_body c)) then db
          else insert_upload lib ids c (put_object (object_key_of ids c) (up_body c) db))"

definition ingest ::
  "lib \<Rightarrow> ingestion_env \<Rightarrow> nat \<Rightarrow> bool \<Rightarrow> upload_command \<Rightarrow> ingestion_db
    \<Rightarrow> (ingestion_error, ingestion_job \<times> bool) result \<times> ingestion_db" where
  "ingest lib env max_upload_bytes dispatch c db =
     (case validate_upload max_upload_bytes c of
        Inl e \<Rightarrow> (Inl e, db)
      | Inr _ \<Rightarrow>
          let digest = sha256_hex lib (up_body c); key = object_key_of env c in
          (case find_job_by_digest db digest of
             Some existing \<Rightarrow> (Inr (existing, False), db)
           | None \<Rightarrow>
               (case store_call (ie_put env) (put_object key (up_body c)) db of
                  (Some e, db1) \<Rightarrow> (Inl e, db1)
                | (None, db1) \<Rightarrow>
                    let stored = raced lib env db1 in
                    if ie_commit_fails env \<or> digest_stored stored digest
                    then (case store_call (ie_delete env) (delete_object key) stored of
                            (Some e, db2) \<Rightarrow> (Inl e, db2)
                          | (None, db2) \<Rightarrow>
                              if ie_commit_fails env then (Inl IngestionTransactionError, db2)
                              else (case find_job_by_digest db2 digest of
                                      None \<Rightarrow> (Inl IngestionTransactionError, db2)
                                    | Some existing \<Rightarrow> (Inr (existing, False), db2)))
                    else
                      let committed = insert_upload lib env c stored;
                          queued = (if dispatch \<and> \<not> ie_dispatch_fails env
                            then committed\<lparr>idb_queue := idb_queue committed @ [ui_job_id env]\<rparr> else committed)
                      in (Inr (new_job env, True), queued))))"

subsection \<open>Invariant\<close>

text \<open>
  Documents have distinct identifiers and checksums, the jobs are one per document, the object store
  holds the bodies of the stored documents, and the event log has no gaps.
\<close>

definition ingestion_ok :: "lib \<Rightarrow> ingestion_db \<Rightarrow> bool" where
  "ingestion_ok lib db \<longleftrightarrow>
     distinct (map dc_id (idb_documents db)) \<and> distinct (map dc_sha256 (idb_documents db))
     \<and> distinct (map ij_id (idb_jobs db)) \<and> map ij_document_id (idb_jobs db) = map dc_id (idb_documents db)
     \<and> distinct (map fst (idb_objects db))
     \<and> set (map (\<lambda>d. (dc_object_key d, dc_sha256 d)) (idb_documents db))
       \<subseteq> set (map (\<lambda>(k, body). (k, sha256_hex lib body)) (idb_objects db))
     \<and> set (idb_queue db) \<subseteq> set (map ij_id (idb_jobs db)) \<and> job_log_ok (idb_events db)"

text \<open>The keys of objects that belong to no document.\<close>

definition orphans :: "ingestion_db \<Rightarrow> string set" where
  "orphans db = set (map fst (idb_objects db)) - set (map dc_object_key (idb_documents db))"

text \<open>Identifiers are drawn at random; a request relies on their being new.\<close>

definition fresh_ids :: "ingestion_db \<Rightarrow> 'a upload_ids_scheme \<Rightarrow> upload_command \<Rightarrow> bool" where
  "fresh_ids db ids c \<longleftrightarrow> ui_document_id ids \<notin> set (map dc_id (idb_documents db))
     \<and> ui_job_id ids \<notin> set (map ij_id (idb_jobs db)) \<and> object_key_of ids c \<notin> set (map fst (idb_objects db))"

definition fresh_upload :: "ingestion_db \<Rightarrow> ingestion_env \<Rightarrow> upload_command \<Rightarrow> bool" where
  "fresh_upload db env c \<longleftrightarrow> fresh_ids db env c
     \<and> (case ie_racing env of
          None \<Rightarrow> True
        | Some (ids, c') \<Rightarrow> fresh_ids db ids c' \<and> ui_document_id ids \<noteq> ui_document_id env
            \<and> ui_job_id ids \<noteq> ui_job_id env \<and> object_key_of ids c' \<noteq> object_key_of env c)"

lemma dict_put_fresh: "k \<notin> fst ` set d \<Longrightarrow> dict_put k v d = d @ [(k, v)]"
  by (induction k v d rule: dict_put.induct) auto

lemma new_document_sel [simp]:
  "dc_id (new_document lib ids c) = ui_document_id ids"
  "dc_sha256 (new_document lib ids c) = sha256_hex lib (up_body c)"
  "dc_object_key (new_document lib ids c) = object_key_of ids c"
  by (simp_all add: new_document_def)

lemma new_job_sel [simp]:
  "ij_id (new_job ids) = ui_job_id ids" "ij_document_id (new_job ids) = ui_document_id ids"
  by (simp_all add: new_job_def)

lemma upload_log_ok [inv_intros]:
  "job_log_ok es \<Longrightarrow> job_log_ok (foldl (\<lambda>es d. log_job_event jobs env d es) es ds)"
  by (induction ds arbitrary: es) (auto intro: inv_intros)

text \<open>An upload that is stored whole: the object and, when the insert is not refused, its rows.\<close>

lemma insert_upload_ok [inv_intros]:
  assumes "ingestion_ok lib db" and "fresh_ids db ids c" and "\<not> digest_stored db (sha256_hex lib (up_body c))"
  shows "ingestion_ok lib (insert_upload lib ids c (put_object (object_key_of ids c) (up_body c) db))"
  using assms
  by (auto simp: ingestion_ok_def fresh_ids_def insert_upload_def put_object_def Let_def digest_stored_def
      dict_put_fresh image_iff intro!: inv_intros)

lemma raced_frame [simp]:
  "put_object k b (put_object k' b' db) = db\<lparr>idb_objects := dict_put k b (dict_put k' b' (idb_objects db))\<rparr>"
  "digest_stored (put_object k b db) h = digest_stored db h"
  "idb_objects (insert_upload lib ids c db) = idb_objects db"
  by (simp_all add: put_object_def digest_stored_def insert_upload_def Let_def)

text \<open>
  Deleting the object of a request after another request committed leaves the database in which only
  the other request ran; committing instead is the same as running after it.
\<close>

lemma delete_after_race:
  assumes "fresh_upload db env c"
  shows "delete_object (object_key_of env c) (raced lib env (put_object (object_key_of env c) (up_body c) db))
    = raced lib env db"
proof -
  have keep: "filter (\<lambda>(k', _). k' \<noteq> object_key_of env c) (idb_objects db) = idb_objects db"
    using assms by (force simp: fresh_upload_def fresh_ids_def filter_id_conv)
  show ?thesis
    using assms keep
    by (auto simp: raced_def fresh_upload_def fresh_ids_def dict_put_fresh put_object_def delete_object_def
        insert_upload_def digest_stored_def Let_def split: option.splits)
qed

definition fresh_race :: "ingestion_db \<Rightarrow> ingestion_env \<Rightarrow> bool" where
  "fresh_race db env \<longleftrightarrow> (case ie_racing env of None \<Rightarrow> True | Some (ids, c) \<Rightarrow> fresh_ids db ids c)"

lemma fresh_upload_race:
  assumes "fresh_upload db env c"
  shows "fresh_race db env" and "fresh_race (put_object (object_key_of env c) (up_body c) db) env"
    and "object_key_of env c \<notin> fst ` set (idb_objects db)"
  using assms by (auto simp: fresh_upload_def fresh_race_def fresh_ids_def put_object_def dict_put_fresh split: option.splits)

lemma raced_ok [inv_intros]: "ingestion_ok lib db \<Longrightarrow> fresh_race db env \<Longrightarrow> ingestion_ok lib (raced lib env db)"
  by (auto simp: raced_def fresh_race_def split: option.splits intro: inv_intros)

lemma put_object_ok [inv_intros]:
  "ingestion_ok lib db \<Longrightarrow> k \<notin> fst ` set (idb_objects db) \<Longrightarrow> ingestion_ok lib (put_object k body db)"
  by (auto simp: ingestion_ok_def put_object_def dict_put_fresh)

lemma raced_fresh: "fresh_upload db env c \<Longrightarrow> fresh_ids (raced lib env db) env c"
  by (auto simp: raced_def fresh_upload_def fresh_ids_def insert_upload_def put_object_def Let_def dict_put_fresh
      split: option.splits)

lemma ingestion_ok_objects:
  assumes "ingestion_ok lib db" and "idb_documents db' = idb_documents db" and "idb_jobs db' = idb_jobs db"
    and "idb_events db' = idb_events db" and "set (idb_queue db') \<subseteq> set (map ij_id (idb_jobs db))"
    and "distinct (map fst (idb_objects db'))" and "set (idb_objects db') = set (idb_objects db)"
  shows "ingestion_ok lib db'"
  using assms by (simp add: ingestion_ok_def)

lemma committed_ok:
  assumes "ingestion_ok lib db" and "fresh_upload db env c"
    and "\<not> digest_stored (raced lib env db) (sha256_hex lib (up_body c))"
  shows "ingestion_ok lib (insert_upload lib env c (raced lib env (put_object (object_key_of env c) (up_body c) db)))"
proof -
  have alone: "ingestion_ok lib (insert_upload lib env c (put_object (object_key_of env c) (up_body c) (raced lib env db)))"
    using assms by (intro insert_upload_ok raced_ok raced_fresh fresh_upload_race)
  then show ?thesis
    by (rule ingestion_ok_objects)
      (use assms(2) alone in \<open>auto simp: raced_def insert_upload_def put_object_def Let_def digest_stored_def
          fresh_upload_def fresh_ids_def dict_put_fresh ingestion_ok_def split: option.splits\<close>)
qed

lemma digest_stored_put: "digest_stored (raced lib env (put_object k b db)) h = digest_stored (raced lib env db) h"
  by (auto simp: raced_def insert_upload_def put_object_def digest_stored_def Let_def split: option.splits)

lemma find_job_put: "find_job_by_digest (raced lib env (put_object k b db)) h = find_job_by_digest (raced lib env db) h"
  by (auto simp: raced_def insert_upload_def put_object_def digest_stored_def find_job_by_digest_def Let_def
      split: option.splits)

text \<open>A stored checksum has a job.\<close>

lemma find_job_stored:
  assumes "ingestion_ok lib db"
  shows "find_job_by_digest db h \<noteq> None \<longleftrightarrow> digest_stored db h"
proof
  assume "find_job_by_digest db h \<noteq> None"
  then show "digest_stored db h"
    by (auto simp: find_job_by_digest_def digest_stored_def list_ex_iff dest: find_row_Some)
next
  assume "digest_stored db h"
  then obtain d where d: "d \<in> set (idb_documents db)" "dc_sha256 d = h" by (auto simp: digest_stored_def)
  moreover from d assms have "dc_id d \<in> set (map ij_document_id (idb_jobs db))" by (simp add: ingestion_ok_def)
  ultimately show "find_job_by_digest db h \<noteq> None"
    by (auto simp: find_job_by_digest_def find_row_None_iff list_ex_iff)
qed

subsection \<open>What an upload does\<close>

text \<open>The store after the cleanup of a request that was not committed.\<close>

definition cleaned :: "lib \<Rightarrow> ingestion_env \<Rightarrow> upload_command \<Rightarrow> ingestion_db \<Rightarrow> ingestion_db" where
  "cleaned lib env c db = snd (store_call (ie_delete env) (delete_object (object_key_of env c))
     (raced lib env (put_object (object_key_of env c) (up_body c) db)))"

lemma cleaned_cases:
  assumes "fresh_upload db env c"
  shows "cleaned lib env c db = (if store_applied (ie_delete env) then raced lib env db
    else raced lib env (put_object (object_key_of env c) (up_body c) db))"
  by (simp add: cleaned_def store_call_def delete_after_race [OF assms])

lemma cleaned_ok [inv_intros]: "ingestion_ok lib db \<Longrightarrow> fresh_upload db env c \<Longrightarrow> ingestion_ok lib (cleaned lib env c db)"
  by (simp add: cleaned_cases raced_ok put_object_ok fresh_upload_race)

text \<open>The outcomes of an upload on a consistent database.\<close>

lemma ingest_cases:
  assumes "ingestion_ok lib db" and "fresh_upload db env c" and "ingest lib env n dispatch c db = (r, db')"
  obtains (refused) e where "validate_upload n c = Inl e" and "r = Inl e" and "db' = db"
  | (known) job where "validate_upload n c = Inr ()" and "find_job_by_digest db (sha256_hex lib (up_body c)) = Some job"
      and "r = Inr (job, False)" and "db' = db"
  | (unavailable) "ie_put env \<noteq> StoreDone" and "r = Inl ObjectStoreError"
      and "db' = db \<or> db' = put_object (object_key_of env c) (up_body c) db"
  | (aborted) e where "ie_commit_fails env \<or> ie_delete env \<noteq> StoreDone" and "r = Inl e" and "db' = cleaned lib env c db"
  | (lost) job where "validate_upload n c = Inr ()" and "ie_delete env = StoreDone"
      and "find_job_by_digest (raced lib env db) (sha256_hex lib (up_body c)) = Some job"
      and "r = Inr (job, False)" and "db' = raced lib env db"
  | (created) "validate_upload n c = Inr ()" and "\<not> digest_stored (raced lib env db) (sha256_hex lib (up_body c))"
      and "r = Inr (new_job env, True)"
      and "db' = (let committed = insert_upload lib env c (raced lib env (put_object (object_key_of env c) (up_body c) db))
        in committed\<lparr>idb_queue := idb_queue committed @ (if dispatch \<and> \<not> ie_dispatch_fails env then [ui_job_id env] else [])\<rparr>)"
proof -
  let ?h = "sha256_hex lib (up_body c)" and ?key = "object_key_of env c"
  have stored: "find_job_by_digest (raced lib env db) ?h \<noteq> None \<longleftrightarrow> digest_stored (raced lib env db) ?h"
    by (rule find_job_stored [OF raced_ok [OF assms(1) fresh_upload_race(1) [OF assms(2)]]])
  show thesis
  proof (cases "validate_upload n c")
    case (Inl e)
    with assms(3) show thesis by (intro refused) (auto simp: ingest_def)
  next
    case (Inr u)
    then have val: "validate_upload n c = Inr ()" by simp
    consider (k) job where "find_job_by_digest db ?h = Some job"
      | (p) "find_job_by_digest db ?h = None" "ie_put env \<noteq> StoreDone"
      | (t) "find_job_by_digest db ?h = None" "ie_put env = StoreDone" "ie_commit_fails env \<or> digest_stored (raced lib env db) ?h"
          "ie_commit_fails env \<or> ie_delete env \<noteq> StoreDone"
      | (l) job where "find_job_by_digest db ?h = None" "ie_put env = StoreDone" "\<not> ie_commit_fails env" "ie_delete env = StoreDone"
          "digest_stored (raced lib env db) ?h" "find_job_by_digest (raced lib env db) ?h = Some job"
      | (c) "find_job_by_digest db ?h = None" "ie_put env = StoreDone" "\<not> ie_commit_fails env"
          "\<not> digest_stored (raced lib env db) ?h"
      using stored by fastforce
    then show thesis
    proof cases
      case k
      with val assms(3) show thesis by (intro known) (auto simp: ingest_def)
    next
      case p
      with val assms(3) show thesis by (intro unavailable) (auto simp: ingest_def store_call_def)
    next
      case t
      have "\<exists>e. r = Inl e \<and> db' = cleaned lib env c db"
        using t val assms(3) by (auto simp: ingest_def Let_def store_call_def cleaned_def digest_stored_put split: if_splits)
      with t(4) show thesis using aborted by blast
    next
      case l
      with val assms(3) show thesis
        by (intro lost) (auto simp: ingest_def Let_def store_call_def delete_after_race [OF assms(2)] digest_stored_put)
    next
      case c
      with val assms(3) show thesis
        by (intro created) (auto simp: ingest_def Let_def store_call_def digest_stored_put split: if_splits)
    qed
  qed
qed

lemma ingest_ok [inv_intros]:
  assumes "ingestion_ok lib db" and "fresh_upload db env c" and "ingest lib env n dispatch c db = (r, db')"
  shows "ingestion_ok lib db'"
  using assms
proof (cases rule: ingest_cases)
  case created
  have "ingestion_ok lib (insert_upload lib env c (raced lib env (put_object (object_key_of env c) (up_body c) db)))"
    using assms(1,2) created(2) by (rule committed_ok)
  moreover have "ui_job_id env \<in> set (map ij_id (idb_jobs (insert_upload lib env c db'')))" for db''
    by (simp add: insert_upload_def Let_def)
  ultimately show ?thesis using created(4)
    by (auto simp: ingestion_ok_def Let_def)
next
  case unavailable
  then show ?thesis using put_object_ok [OF assms(1) fresh_upload_race(3) [OF assms(2)]] assms(1) by blast
qed (use assms in \<open>auto intro: raced_ok cleaned_ok fresh_upload_race\<close>)

inductive ingestion_step :: "lib \<Rightarrow> ingestion_db \<Rightarrow> ingestion_db \<Rightarrow> bool" for lib where
  upload: "fresh_upload db env c \<Longrightarrow> ingestion_step lib db (snd (ingest lib env n dispatch c db))"

definition ingestion_start :: "ingestion_db \<Rightarrow> bool" where
  "ingestion_start db \<longleftrightarrow> db = \<lparr>idb_documents = [], idb_jobs = [], idb_events = [], idb_objects = [], idb_queue = []\<rparr>"

interpretation uploads: inductive_system ingestion_start "ingestion_step lib" "ingestion_ok lib" for lib
proof
  show "ingestion_ok lib db" if "ingestion_start db" for db
    using that by (simp add: ingestion_start_def ingestion_ok_def job_log.log_ok_Nil)
  show "ingestion_ok lib db'" if "ingestion_step lib db db'" and "ingestion_ok lib db" for db db'
    using that by (auto elim!: ingestion_step.cases intro: ingest_ok [OF _ _ surjective_pairing])
qed

text \<open>The job found for a checksum after an upload is the one the upload returned.\<close>

lemma ingest_found:
  assumes "ingestion_ok lib db" and "fresh_upload db env c" and "ingest lib env n dispatch c db = (Inr (job, b), db')"
  shows "find_job_by_digest db' (sha256_hex lib (up_body c)) = Some job"
  using assms
proof (cases rule: ingest_cases)
  case created
  let ?r = "raced lib env db"
  have ok: "ingestion_ok lib ?r" and fresh: "fresh_ids ?r env c"
    using assms raced_ok raced_fresh fresh_upload_race(1) by blast+
  have same: "idb_documents (raced lib env (put_object k body db)) = idb_documents ?r"
    "idb_jobs (raced lib env (put_object k body db)) = idb_jobs ?r" for k body
    by (auto simp: raced_def insert_upload_def put_object_def digest_stored_def Let_def split: option.splits)
  have old: "ij_document_id j \<in> set (map dc_id (idb_documents ?r))" if "j \<in> set (idb_jobs ?r)" for j
  proof -
    have "map ij_document_id (idb_jobs ?r) = map dc_id (idb_documents ?r)" using ok by (simp add: ingestion_ok_def)
    moreover have "ij_document_id j \<in> set (map ij_document_id (idb_jobs ?r))" using that by simp
    ultimately show ?thesis by simp
  qed
  have "find_row (\<lambda>j. list_ex (\<lambda>d. dc_id d = ij_document_id j \<and> dc_sha256 d = sha256_hex lib (up_body c))
      (idb_documents ?r @ [new_document lib env c])) (idb_jobs ?r) = None"
    unfolding find_row_None_iff
  proof
    fix j assume j: "j \<in> set (idb_jobs ?r)"
    have "ij_document_id j \<noteq> ui_document_id env" using old [OF j] fresh by (auto simp: fresh_ids_def)
    moreover have "dc_sha256 d \<noteq> sha256_hex lib (up_body c)" if "d \<in> set (idb_documents ?r)" for d
      using created(2) that by (auto simp: digest_stored_def image_iff)
    ultimately show "\<not> list_ex (\<lambda>d. dc_id d = ij_document_id j \<and> dc_sha256 d = sha256_hex lib (up_body c))
      (idb_documents ?r @ [new_document lib env c])" by (auto simp: list_ex_iff)
  qed
  then show ?thesis
    using created(3,4) by (auto simp: find_job_by_digest_def insert_upload_def Let_def same find_row_append)
qed auto

text \<open>
  uploads are deduplicated by content. Once an upload has returned a job, every later upload of the
  same bytes, under any file name, returns that job as not created and changes nothing; and an upload
  of an acceptable document fails only when a call of the store or the transaction fails.
\<close>

theorem ingest_deduplicates:
  assumes "reachable_from ingestion_start (ingestion_step lib) db" and "fresh_upload db env c"
    and "validate_upload n c = Inr ()" and "validate_upload n' c' = Inr ()" and "up_body c' = up_body c"
  shows "case ingest lib env n dispatch c db of
      (Inr (job, _), db') \<Rightarrow> ingest lib env' n' dispatch' c' db' = (Inr (job, False), db')
    | (Inl _, db') \<Rightarrow> ie_put env \<noteq> StoreDone \<or> ie_delete env \<noteq> StoreDone \<or> ie_commit_fails env"
proof -
  have ok: "ingestion_ok lib db" using assms(1) by (rule uploads.inv_reachable)
  obtain r db' where run: "ingest lib env n dispatch c db = (r, db')" by fastforce
  show ?thesis
  proof (cases r)
    case (Inl e)
    with ok assms(2) run have "ie_put env \<noteq> StoreDone \<or> ie_delete env \<noteq> StoreDone \<or> ie_commit_fails env"
      by (cases rule: ingest_cases) (use assms(3) Inl in auto)
    with run Inl show ?thesis by simp
  next
    case (Inr x)
    obtain job b where "x = (job, b)" by fastforce
    with run Inr have run': "ingest lib env n dispatch c db = (Inr (job, b), db')" by simp
    then show ?thesis
      using ingest_found [OF ok assms(2) run'] assms(4,5) by (simp add: ingest_def)
  qed
qed

text \<open>What a request may leave in the store without a document.\<close>

lemma orphans_raced: "fresh_race db env \<Longrightarrow> orphans (raced lib env db) \<subseteq> orphans db"
  by (auto simp: orphans_def raced_def fresh_race_def fresh_ids_def insert_upload_def put_object_def Let_def dict_put_fresh split: option.splits)

lemma orphans_put: "k \<notin> fst ` set (idb_objects db) \<Longrightarrow> orphans (put_object k body db) \<subseteq> insert k (orphans db)"
  by (auto simp: orphans_def put_object_def dict_put_fresh)

lemma orphans_insert: "orphans (insert_upload lib env c db) = orphans db - {object_key_of env c}"
  by (auto simp: orphans_def insert_upload_def Let_def)

lemma ingest_orphans:
  assumes "ingestion_ok lib db" and "fresh_upload db env c" and "ingest lib env n dispatch c db = (r, db')"
  shows "orphans db' \<subseteq> orphans db \<union> (if ie_put env = StoreDone \<and> ie_delete env = StoreDone then {} else {object_key_of env c})"
proof -
  note fresh = fresh_upload_race [OF assms(2)]
  have put: "orphans (put_object (object_key_of env c) (up_body c) db) \<subseteq> insert (object_key_of env c) (orphans db)"
    by (rule orphans_put [OF fresh(3)])
  have race: "orphans (raced lib env db) \<subseteq> orphans db" by (rule orphans_raced [OF fresh(1)])
  have both: "orphans (raced lib env (put_object (object_key_of env c) (up_body c) db)) \<subseteq> insert (object_key_of env c) (orphans db)"
    using orphans_raced [OF fresh(2)] put by blast
  show ?thesis
    using assms
  proof (cases rule: ingest_cases)
    case unavailable
    with put show ?thesis by auto
  next
    case aborted
    with race both assms(2) show ?thesis by (cases "ie_delete env") (auto simp: cleaned_cases)
  next
    case created
    have "orphans db' = orphans (insert_upload lib env c (raced lib env (put_object (object_key_of env c) (up_body c) db)))"
      using created(4) by (simp add: orphans_def Let_def)
    with both show ?thesis by (auto simp: orphans_insert)
  qed (use race in auto)
qed

text \<open>
  C21: the object store and the database stay consistent. Whatever uploads are served, with concurrent
  uploads and with failures of the store, of the transaction or of the dispatcher, every stored document has
  its object with its checksum, checksums are unique and every document has one job; and a request leaves an
  object that belongs to no document only under its own key and only when a call of the store raised, the
  upload itself or the cleanup of a request that was not committed.
\<close>

theorem ingestion_no_orphans:
  assumes "reachable_from ingestion_start (ingestion_step lib) db" and "fresh_upload db env c"
    and "ingest lib env n dispatch c db = (r, db')"
  shows "set (map (\<lambda>d. (dc_object_key d, dc_sha256 d)) (idb_documents db'))
      \<subseteq> set (map (\<lambda>(k, body). (k, sha256_hex lib body)) (idb_objects db'))
    \<and> distinct (map fst (idb_objects db')) \<and> distinct (map dc_sha256 (idb_documents db'))
    \<and> map ij_document_id (idb_jobs db') = map dc_id (idb_documents db')
    \<and> orphans db' \<subseteq> orphans db \<union> (if ie_put env = StoreDone \<and> ie_delete env = StoreDone then {} else {object_key_of env c})"
proof -
  have ok: "ingestion_ok lib db" using assms(1) by (rule uploads.inv_reachable)
  show ?thesis
    using ingest_ok [OF ok assms(2,3)] ingest_orphans [OF ok assms(2,3)] by (simp add: ingestion_ok_def)
qed

text \<open>The cleanup may fail: the object of a request that lost the race then stays, and the request fails with it.\<close>

lemma ingest_cleanup_orphans:
  assumes "fresh_upload db env c" and "validate_upload n c = Inr ()" and "find_job_by_digest db (sha256_hex lib (up_body c)) = None"
    and "ie_put env = StoreDone" and "ie_commit_fails env" and "ie_delete env = StoreRaised False" and "ie_racing env = None"
  shows "ingest lib env n dispatch c db = (Inl ObjectStoreError, put_object (object_key_of env c) (up_body c) db)"
  using assms by (simp add: ingest_def Let_def store_call_def raced_def)

subsection \<open>Witnesses\<close>

definition sample_upload :: upload_command where
  "sample_upload = \<lparr>up_filename = ''scans/a.pdf'', up_content_type = ''application/pdf'', up_body = ''%PDF-1''\<rparr>"

definition sample_ingestion_env :: "bool \<Rightarrow> ingestion_env" where
  "sample_ingestion_env fails = \<lparr>ui_document_id = 1, ui_job_id = 2, ui_trace = None, ui_now = sample_time 738000,
     ie_racing = Some (\<lparr>ui_document_id = 3, ui_job_id = 4, ui_trace = None, ui_now = sample_time 738000\<rparr>, sample_upload),
     ie_put = StoreDone, ie_delete = StoreDone, ie_commit_fails = fails, ie_dispatch_fails = False\<rparr>"

definition empty_ingestion_db :: ingestion_db where
  "empty_ingestion_db = \<lparr>idb_documents = [], idb_jobs = [], idb_events = [], idb_objects = [], idb_queue = []\<rparr>"

lemma empty_ingestion_reachable: "reachable_from ingestion_start (ingestion_step lib) empty_ingestion_db"
  by (rule reach_start) (simp add: ingestion_start_def empty_ingestion_db_def)

lemma sample_upload_fresh: "fresh_upload empty_ingestion_db (sample_ingestion_env fails) sample_upload"
  by (cases fails) (simp_all only:, code_simp+)

text \<open>The other request stores the same bytes first: the upload returns the other job.\<close>

lemma sample_ingest_raced:
  "fst (ingest sample_lib (sample_ingestion_env False) 100 True sample_upload empty_ingestion_db)
     = Inr (new_job \<lparr>ui_document_id = 3, ui_job_id = 4, ui_trace = None, ui_now = sample_time 738000\<rparr>, False)"
  by code_simp

theorem ingest_deduplicates_witness:
  "(let db' = snd (ingest sample_lib (sample_ingestion_env False) 100 True sample_upload empty_ingestion_db) in
     ingest sample_lib (sample_ingestion_env False) 100 True (sample_upload\<lparr>up_filename := ''b.pdf''\<rparr>) db'
       = (Inr (new_job \<lparr>ui_document_id = 3, ui_job_id = 4, ui_trace = None, ui_now = sample_time 738000\<rparr>, False), db'))"
proof -
  have val: "validate_upload 100 (sample_upload\<lparr>up_filename := ''b.pdf''\<rparr>) = Inr ()"
    and val0: "validate_upload 100 sample_upload = Inr ()" by code_simp+
  from ingest_deduplicates [OF empty_ingestion_reachable [of sample_lib] sample_upload_fresh [of False] val0 val, where dispatch = True and env' = "sample_ingestion_env False" and dispatch' = True]
  show ?thesis using sample_ingest_raced
    by (auto simp: Let_def sample_upload_def split: prod.splits)
qed

text \<open>
  The other request committed first and the cleanup raises: the object of the losing request stays, and is the
  only one without a document.
\<close>

definition sample_cleanup_env :: ingestion_env where
  "sample_cleanup_env = (sample_ingestion_env False)\<lparr>ie_delete := StoreRaised False\<rparr>"

definition sample_left :: ingestion_db where
  "sample_left = snd (ingest sample_lib sample_cleanup_env 100 True sample_upload empty_ingestion_db)"

lemma sample_left_values:
  "fst (ingest sample_lib sample_cleanup_env 100 True sample_upload empty_ingestion_db) = Inl ObjectStoreError"
  "map fst (idb_objects sample_left) = [object_key_of sample_cleanup_env sample_upload, ''invoices/'' @ uuid_text 3 @ ''/a.pdf'']"
  "map dc_object_key (idb_documents sample_left) = [''invoices/'' @ uuid_text 3 @ ''/a.pdf'']"
  "object_key_of sample_cleanup_env sample_upload \<noteq> ''invoices/'' @ uuid_text 3 @ ''/a.pdf''"
  by code_simp+

theorem ingestion_no_orphans_witness:
  "(''invoices/'' @ uuid_text 3 @ ''/a.pdf'', ''%PDF-1'') \<in> set (map (\<lambda>(k, body). (k, sha256_hex sample_lib body)) (idb_objects sample_left))
   \<and> orphans sample_left = {object_key_of sample_cleanup_env sample_upload}"
proof -
  have fresh: "fresh_upload empty_ingestion_db sample_cleanup_env sample_upload" by code_simp
  note sound = ingestion_no_orphans [OF empty_ingestion_reachable [of sample_lib] fresh surjective_pairing,
    where n = 100 and dispatch = True, folded sample_left_def]
  have docs: "map (\<lambda>d. (dc_object_key d, dc_sha256 d)) (idb_documents sample_left) = [(''invoices/'' @ uuid_text 3 @ ''/a.pdf'', ''%PDF-1'')]"
    by code_simp
  have "orphans sample_left = {object_key_of sample_cleanup_env sample_upload}"
    unfolding orphans_def sample_left_values(2,3) using sample_left_values(4) by auto
  then show ?thesis using sound unfolding docs by simp
qed

end
