(* ===== verification/Case_Data.thy ===== *)
theory Case_Data
  imports Event_Log Receipts
begin

text \<open>
  The data of payable cases (\<^verbatim>\<open>invoiceops/schemas/cases.py\<close>): statuses, extracted supporting
  documents, the values a reviewer confirms with their validators, the comparison of confirmed with
  extracted values (\<^verbatim>\<open>_po_corrected_fields\<close> and \<^verbatim>\<open>_receipt_corrected_fields\<close> of
  \<^verbatim>\<open>invoiceops/cases/service.py\<close>) and the choice of the supporting extraction
  (\<^verbatim>\<open>invoiceops/extraction/selection.py\<close>).
\<close>

subsection \<open>Text of a decimal\<close>

text \<open>\<^verbatim>\<open>str(Decimal)\<close>: fixed notation, or scientific when the exponent is positive or the value small.\<close>

definition decimal_str :: "decimal \<Rightarrow> string" where
  "decimal_str d =
     (let ds = nat_digits \<bar>coeff d\<bar>; leftdigits = expo d + int (length ds) in
      if expo d \<le> 0 \<and> -6 < leftdigits then decimal_string d
      else (if coeff d < 0 then ''-'' else []) @ take 1 ds
           @ (if length ds = 1 then [] else ''.'' @ drop 1 ds)
           @ ''E'' @ (if leftdigits - 1 < 0 then ''-'' else ''+'') @ nat_digits \<bar>leftdigits - 1\<bar>)"

lemma signed_digits_exponent:
  assumes "list_all is_digit es" and "es \<noteq> []"
  shows "signed_digits ((if neg then CHR ''-'' else CHR ''+'') # es) = Some ((if neg then -1 else 1) * digits_value es)"
  using assms by (simp add: signed_digits_def Let_def)

lemma decimal_of_scientific:
  assumes "list_all is_digit ip" and "list_all is_digit fp" and "ip \<noteq> []" and "list_all is_digit es" and "es \<noteq> []"
  shows "decimal_of_string ((if neg then ''-'' else []) @ (ip @ (if fp = [] then [] else CHR ''.'' # fp))
      @ CHR ''E'' # (if eneg then CHR ''-'' else CHR ''+'') # es)
    = Some (Scaled ((if neg then -1 else 1) * digits_value (ip @ fp))
        ((if eneg then -1 else 1) * digits_value es - int (length fp)))"
proof -
  let ?m = "ip @ (if fp = [] then [] else CHR ''.'' # fp)"
  let ?r = "CHR ''E'' # (if eneg then CHR ''-'' else CHR ''+'') # es"
  let ?s = "(if neg then ''-'' else []) @ ?m @ ?r"
  have dig: "\<forall>c \<in> set ip. is_digit c" "\<forall>c \<in> set fp. is_digit c" "\<forall>c \<in> set es. is_digit c"
    using assms by (simp_all add: list_all_iff)
  have "\<forall>c \<in> set ?s. \<not> is_space c"
    using dig digit_not_space by (auto simp: is_space_def char_code_def)
  then have strip: "py_strip ?s = ?s" by (rule py_strip_no_space)
  from assms(3) obtain c cs where ip: "ip = c # cs" by (cases ip) auto
  have c: "c \<noteq> CHR ''-''" "c \<noteq> CHR ''+''" using dig(1) ip digit_not_special by auto
  have mant: "takeWhile (\<lambda>c. c \<noteq> CHR ''e'' \<and> c \<noteq> CHR ''E'') (?m @ ?r) = ?m"
  proof (subst takeWhile_append2)
    show "c \<noteq> CHR ''e'' \<and> c \<noteq> CHR ''E''" if "c \<in> set ?m" for c
      using that dig(1,2) digit_not_special by (auto split: if_splits)
  qed simp
  have int_part: "takeWhile (\<lambda>c. c \<noteq> CHR ''.'') ?m = ip"
    using dig(1) digit_not_special by (auto simp: takeWhile_append takeWhile_eq_all_conv)
  have ex: "signed_digits ((if eneg then CHR ''-'' else CHR ''+'') # es)
      = Some ((if eneg then -1 else 1) * digits_value es)"
    using assms(4,5) by (rule signed_digits_exponent)
  have u: "(if ?s \<noteq> [] \<and> (hd ?s = CHR ''-'' \<or> hd ?s = CHR ''+'') then tl ?s else ?s) = ?m @ ?r"
    using c ip by simp
  have neg: "(?s \<noteq> [] \<and> hd ?s = CHR ''-'') = neg" using c ip by simp
  have frac: "tl (drop (length ip) ?m) = fp" by simp
  have rest: "drop (length ?m) (?m @ ?r) = ?r" by (rule append_eq_conv_conj [THEN iffD1, THEN conjunct2, symmetric]) simp
  have digits: "ip @ fp \<noteq> [] \<and> list_all is_digit (ip @ fp)" using assms(1-3) by simp
  show ?thesis
    unfolding decimal_of_string_def Let_def strip u neg mant int_part frac rest
    by (simp only: digits ex list.sel list.distinct if_True if_False option.case simp_thms)
qed

text \<open>Reading back the text of a decimal gives the decimal, with its exponent.\<close>

lemma decimal_str_roundtrip: "decimal_of_string (decimal_str d) = Some d"
proof -
  let ?ds = "nat_digits \<bar>coeff d\<bar>" and ?e = "expo d + int (length (nat_digits \<bar>coeff d\<bar>)) - 1"
  have val: "digits_value ?ds = \<bar>coeff d\<bar>" by simp
  show ?thesis
  proof (cases "expo d \<le> 0 \<and> -6 < expo d + int (length ?ds)")
    case True
    then consider "expo d < 0" | "expo d = 0" by linarith
    then show ?thesis
    proof cases
      case 1
      with True show ?thesis by (simp add: decimal_str_def Let_def decimal_roundtrip_neg_expo)
    next
      case 2
      with True show ?thesis by (cases d) (simp add: decimal_str_def Let_def decimal_roundtrip_nonneg_expo)
    qed
  next
    case False
    obtain c fp where ds: "?ds = c # fp" by (cases ?ds) auto
    have "list_all is_digit (c # fp)" using nat_digits_all_digits [of "\<bar>coeff d\<bar>"] ds by simp
    then have dig: "list_all is_digit [c]" "list_all is_digit fp" by simp_all
    have es: "list_all is_digit (nat_digits \<bar>?e\<bar>)" by (rule nat_digits_all_digits) simp
    have "decimal_str d = (if coeff d < 0 then ''-'' else []) @ [c] @ (if fp = [] then [] else CHR ''.'' # fp)
        @ CHR ''E'' # (if ?e < 0 then CHR ''-'' else CHR ''+'') # nat_digits \<bar>?e\<bar>"
      using False ds by (auto simp: decimal_str_def Let_def)
    then have "decimal_of_string (decimal_str d) = Some (Scaled ((if coeff d < 0 then -1 else 1) * digits_value (c # fp))
        ((if ?e < 0 then -1 else 1) * digits_value (nat_digits \<bar>?e\<bar>) - int (length fp)))"
      using decimal_of_scientific [OF dig(1) dig(2) _ es, of "coeff d < 0" "?e < 0"] by simp
    also have "\<dots> = Some d" using ds val by (cases d) (auto split: if_splits)
    finally show ?thesis .
  qed
qed

subsection \<open>Statuses\<close>

datatype case_status = CASE_DRAFT | CASE_PROCESSING | NEEDS_CONFIRMATION | READY_TO_MATCH
  | CASE_MATCHED | CASE_NEEDS_REVIEW | CASE_FAILED

datatype confirmation_status = NOT_REQUIRED | PENDING | CONFIRMED

datatype supporting_status = SUPPORTING_PROCESSING | SUPPORTING_SUCCEEDED | SUPPORTING_FAILED

subsection \<open>Extracted supporting documents\<close>

record extracted_po_line =
  xpl_line_number :: "string extracted_field"
  xpl_description :: "string extracted_field"
  xpl_ordered_quantity :: "decimal extracted_field"
  xpl_unit_price :: "decimal extracted_field"
  xpl_line_total :: "decimal extracted_field"

record extracted_po =
  xpo_po_number :: "string extracted_field"
  xpo_issue_date :: "date extracted_field"
  xpo_vendor :: "string extracted_field"
  xpo_buyer :: "string extracted_field"
  xpo_currency :: "string extracted_field"
  xpo_subtotal :: "decimal extracted_field"
  xpo_tax :: "decimal extracted_field"
  xpo_total :: "decimal extracted_field"
  xpo_line_items :: "extracted_po_line list"

record extracted_receipt_line =
  xrl_description :: "string extracted_field"
  xrl_received_quantity :: "decimal extracted_field"
  xrl_accepted_quantity :: "decimal extracted_field"
  xrl_rejected_quantity :: "decimal extracted_field"

record extracted_receipt =
  xrc_receipt_number :: "string extracted_field"
  xrc_referenced_po_number :: "string extracted_field"
  xrc_received_date :: "date extracted_field"
  xrc_supplier :: "string extracted_field"
  xrc_line_items :: "extracted_receipt_line list"

datatype supporting_output = OutputPO extracted_po | OutputReceipt extracted_receipt

record supporting_run =
  spr_id :: uuid
  spr_document_id :: uuid
  spr_role :: document_role
  spr_extractor_name :: string
  spr_extractor_version :: string
  spr_status :: supporting_status
  spr_output :: "supporting_output option"
  spr_created_at :: datetime

definition SUPPORTING_EXTRACTOR :: "string \<times> string" where
  "SUPPORTING_EXTRACTOR = (''deterministic-supporting-documents'', ''0.3.0'')"

definition SUPPORTING_HYBRID :: "string \<times> string" where
  "SUPPORTING_HYBRID = (''supporting-hybrid-routed'', ''0.4.0'')"

definition supporting_priority :: "supporting_run \<Rightarrow> nat" where
  "supporting_priority r =
     (let extractor = (spr_extractor_name r, spr_extractor_version r) in
      if extractor = SUPPORTING_HYBRID \<and> spr_status r = SUPPORTING_SUCCEEDED then 0
      else if extractor = SUPPORTING_EXTRACTOR \<and> spr_status r = SUPPORTING_SUCCEEDED then 1
      else if extractor = SUPPORTING_EXTRACTOR then 2 else 3)"

definition current_supporting_extraction ::
  "supporting_run list \<Rightarrow> uuid \<Rightarrow> document_role \<Rightarrow> supporting_run option" where
  "current_supporting_extraction runs doc role =
     (case sort_key (\<lambda>r. (int (supporting_priority r), - dt_utc (spr_created_at r), - int (spr_id r)))
         (filter (\<lambda>r. spr_document_id r = doc \<and> spr_role r = role) runs) of
        [] \<Rightarrow> None | r # _ \<Rightarrow> Some r)"

subsection \<open>Confirmed purchase orders\<close>

text \<open>
  \<^verbatim>\<open>PurchaseOrderConfirmationValues\<close>; \<open>pv_amount_provided\<close> says for each line whether the request
  named \<^verbatim>\<open>line_total\<close>.
\<close>

record po_values =
  pv_order :: po_create
  pv_issue_date :: "date option"
  pv_buyer_name :: "string option"
  pv_subtotal :: "decimal option"
  pv_tax :: "decimal option"
  pv_total :: "decimal option"
  pv_amount_provided :: "bool list"

definition non_negative :: "decimal option \<Rightarrow> bool" where
  "non_negative d = (case d of None \<Rightarrow> True | Some x \<Rightarrow> dle dzero x)"

definition totals_consistent :: "po_values \<Rightarrow> bool" where
  "totals_consistent v =
     (case (pv_subtotal v, pv_total v) of
        (Some sub, Some gross) \<Rightarrow>
          let tax = (case pv_tax v of None \<Rightarrow> dzero | Some t \<Rightarrow> if deq t dzero then dzero else t) in
          dle (dabs (dsub (dadd sub tax) gross)) (Scaled 2 (-2))
          \<or> dle (dabs (dsub sub gross)) (Scaled 2 (-2))
      | _ \<Rightarrow> True)"

definition validate_po_values :: "po_values \<Rightarrow> po_values option" where
  "validate_po_values v =
     (case validate_po_create (pv_order v) of
        None \<Rightarrow> None
      | Some order \<Rightarrow>
          if (case pv_buyer_name v of None \<Rightarrow> True | Some b \<Rightarrow> length b \<le> 255)
             \<and> non_negative (pv_subtotal v) \<and> non_negative (pv_tax v) \<and> non_negative (pv_total v)
             \<and> totals_consistent v
          then Some (v\<lparr>pv_order := order\<rparr>) else None)"

text \<open>\<^verbatim>\<open>strip_optional\<close> turns a blank text into \<^verbatim>\<open>None\<close>, the idempotency key included.\<close>

definition strip_optional :: "string option \<Rightarrow> string option" where
  "strip_optional s = (case s of None \<Rightarrow> None | Some t \<Rightarrow> non_blank t)"

record po_confirmation =
  pcc_expected_case_version :: nat
  pcc_extraction_run_id :: uuid
  pcc_extractor_version :: string
  pcc_confirmed :: po_values
  pcc_correction_reason :: "string option"
  pcc_idempotency_key :: "string option"

definition validate_po_confirmation :: "po_confirmation \<Rightarrow> po_confirmation option" where
  "validate_po_confirmation c =
     (case (validate_po_values (pcc_confirmed c), pcc_idempotency_key c) of
        (Some v, Some k) \<Rightarrow>
          if 1 \<le> pcc_expected_case_version c \<and> pcc_extractor_version c \<noteq> [] \<and> length (pcc_extractor_version c) \<le> 50
             \<and> (case pcc_correction_reason c of None \<Rightarrow> True | Some r \<Rightarrow> length r \<le> 2000)
             \<and> k \<noteq> [] \<and> length k \<le> 200
          then Some (c\<lparr>pcc_confirmed := v, pcc_correction_reason := strip_optional (pcc_correction_reason c),
                       pcc_idempotency_key := strip_optional (Some k)\<rparr>)
          else None
      | _ \<Rightarrow> None)"

subsection \<open>Confirmed receipts\<close>

record receipt_value_line =
  rvl_purchase_order_line_number :: string
  rvl_description :: string
  rvl_received_quantity :: decimal
  rvl_accepted_quantity :: decimal
  rvl_rejected_quantity :: decimal

record receipt_values =
  rv_external_receipt_number :: string
  rv_referenced_po_number :: string
  rv_supplier :: "string option"
  rv_received_at :: datetime
  rv_lines :: "receipt_value_line list"

definition text_within :: "nat \<Rightarrow> string \<Rightarrow> bool" where
  "text_within n s \<longleftrightarrow> s \<noteq> [] \<and> length s \<le> n"

definition receipt_value_line_ok :: "receipt_value_line \<Rightarrow> bool" where
  "receipt_value_line_ok l \<longleftrightarrow> text_within 50 (rvl_purchase_order_line_number l) \<and> text_within 500 (rvl_description l)
     \<and> dlt dzero (rvl_received_quantity l) \<and> dlt dzero (rvl_accepted_quantity l) \<and> dle dzero (rvl_rejected_quantity l)
     \<and> deq (dadd (rvl_accepted_quantity l) (rvl_rejected_quantity l)) (rvl_received_quantity l)"

definition receipt_values_ok :: "receipt_values \<Rightarrow> bool" where
  "receipt_values_ok v \<longleftrightarrow> text_within 100 (rv_external_receipt_number v) \<and> text_within 100 (rv_referenced_po_number v)
     \<and> (case rv_supplier v of None \<Rightarrow> True | Some s \<Rightarrow> length s \<le> 255)
     \<and> rv_lines v \<noteq> [] \<and> list_all receipt_value_line_ok (rv_lines v)
     \<and> distinct (map (\<lambda>l. py_strip (rvl_purchase_order_line_number l)) (rv_lines v))"

record receipt_confirmation =
  rcc_expected_case_version :: nat
  rcc_extraction_run_id :: uuid
  rcc_extractor_version :: string
  rcc_confirmed :: receipt_values
  rcc_correction_reason :: "string option"
  rcc_idempotency_key :: string

subsection \<open>Confirmed values as JSON\<close>

definition json_opt :: "('a \<Rightarrow> string) \<Rightarrow> 'a option \<Rightarrow> json" where
  "json_opt f v = (case v of None \<Rightarrow> JNull | Some x \<Rightarrow> JStr (f x))"

definition po_line_payload :: "lib \<Rightarrow> po_line_create \<Rightarrow> json" where
  "po_line_payload lib l =
     JObj [(''line_number'', JStr (plc_line_number l)), (''description'', JStr (plc_description l)),
           (''ordered_quantity'', JStr (decimal_json lib (plc_ordered_quantity l))),
           (''unit_price'', JStr (decimal_json lib (plc_unit_price l))),
           (''line_total'', json_opt (decimal_json lib) (plc_line_total l))]"

definition po_payload :: "lib \<Rightarrow> po_values \<Rightarrow> json" where
  "po_payload lib v =
     JObj [(''external_po_number'', JStr (poc_external_po_number (pv_order v))),
           (''vendor_name'', json_opt id (poc_vendor_name (pv_order v))),
           (''currency'', JStr (poc_currency (pv_order v))),
           (''lines'', JArr (map (po_line_payload lib) (poc_lines (pv_order v)))),
           (''issue_date'', json_opt date_isoformat (pv_issue_date v)),
           (''buyer_name'', json_opt id (pv_buyer_name v)),
           (''subtotal'', json_opt (decimal_json lib) (pv_subtotal v)),
           (''tax'', json_opt (decimal_json lib) (pv_tax v)),
           (''total'', json_opt (decimal_json lib) (pv_total v))]"

definition receipt_line_payload :: "lib \<Rightarrow> receipt_value_line \<Rightarrow> json" where
  "receipt_line_payload lib l =
     JObj [(''purchase_order_line_number'', JStr (rvl_purchase_order_line_number l)),
           (''description'', JStr (rvl_description l)),
           (''received_quantity'', JStr (decimal_json lib (rvl_received_quantity l))),
           (''accepted_quantity'', JStr (decimal_json lib (rvl_accepted_quantity l))),
           (''rejected_quantity'', JStr (decimal_json lib (rvl_rejected_quantity l)))]"

definition receipt_payload :: "lib \<Rightarrow> receipt_values \<Rightarrow> json" where
  "receipt_payload lib v =
     JObj [(''external_receipt_number'', JStr (rv_external_receipt_number v)),
           (''referenced_po_number'', JStr (rv_referenced_po_number v)),
           (''supplier'', json_opt id (rv_supplier v)),
           (''received_at'', JStr (datetime_json lib (rv_received_at v))),
           (''lines'', JArr (map (receipt_line_payload lib) (rv_lines v)))]"

subsection \<open>Corrected fields\<close>

text \<open>
  The values of a field before and after confirmation, both as JSON: \<^verbatim>\<open>json.dumps(..., default=str)\<close>
  on the extracted value, pydantic's JSON mode on the confirmed one.
\<close>

definition changed_names :: "(string \<times> json \<times> json) list \<Rightarrow> string list" where
  "changed_names pairs = map fst (filter (\<lambda>(_, extracted, confirmed). extracted \<noteq> confirmed) pairs)"

definition po_pairs :: "lib \<Rightarrow> extracted_po \<Rightarrow> po_values \<Rightarrow> (string \<times> json \<times> json) list" where
  "po_pairs lib x v =
     [(''external_po_number'', json_opt id (fvalue (xpo_po_number x)), JStr (poc_external_po_number (pv_order v))),
      (''issue_date'', json_opt date_isoformat (fvalue (xpo_issue_date x)), json_opt date_isoformat (pv_issue_date v)),
      (''buyer_name'', json_opt id (fvalue (xpo_buyer x)), json_opt id (pv_buyer_name v)),
      (''vendor_name'', json_opt id (fvalue (xpo_vendor x)), json_opt id (poc_vendor_name (pv_order v))),
      (''currency'', json_opt id (fvalue (xpo_currency x)), JStr (poc_currency (pv_order v))),
      (''subtotal'', json_opt decimal_str (fvalue (xpo_subtotal x)), json_opt (decimal_json lib) (pv_subtotal v)),
      (''tax'', json_opt decimal_str (fvalue (xpo_tax x)), json_opt (decimal_json lib) (pv_tax v)),
      (''total'', json_opt decimal_str (fvalue (xpo_total x)), json_opt (decimal_json lib) (pv_total v))]"

text \<open>
  \<^verbatim>\<open>source_value != Decimal(str(candidate_value))\<close> when both are present; the text was written from a
  decimal, so reading it back does not fail.
\<close>

definition amount_differs :: "lib \<Rightarrow> decimal option \<Rightarrow> decimal option \<Rightarrow> bool" where
  "amount_differs lib source candidate =
     (case (source, candidate) of
        (Some s, Some c) \<Rightarrow>
          (case decimal_of_string (decimal_json lib c) of None \<Rightarrow> True | Some v \<Rightarrow> \<not> deq s v)
      | (None, None) \<Rightarrow> False
      | _ \<Rightarrow> True)"

definition po_line_changed :: "lib \<Rightarrow> extracted_po_line \<Rightarrow> po_line_create \<Rightarrow> bool \<Rightarrow> bool" where
  "po_line_changed lib x l provided \<longleftrightarrow>
     fvalue (xpl_line_number x) \<noteq> Some (plc_line_number l)
     \<or> fvalue (xpl_description x) \<noteq> Some (plc_description l)
     \<or> amount_differs lib (fvalue (xpl_ordered_quantity x)) (Some (plc_ordered_quantity l))
     \<or> amount_differs lib (fvalue (xpl_unit_price x)) (Some (plc_unit_price l))
     \<or> provided \<and> amount_differs lib (fvalue (xpl_line_total x)) (plc_line_total l)"

definition po_corrected_fields :: "lib \<Rightarrow> extracted_po \<Rightarrow> po_values \<Rightarrow> string list" where
  "po_corrected_fields lib x v =
     (let lines = zip (xpo_line_items x) (zip (poc_lines (pv_order v)) (pv_amount_provided v));
          totals = map (\<lambda>(k, _). ''lines.'' @ int_text (int k) @ ''.line_total'')
            (filter (\<lambda>(_, xl, l, provided). provided \<and> amount_differs lib (fvalue (xpl_line_total xl)) (plc_line_total l))
              (List.enumerate 0 lines));
          lines_changed = (length (poc_lines (pv_order v)) \<noteq> length (xpo_line_items x)
            \<or> list_ex (\<lambda>(xl, l, provided). po_line_changed lib xl l provided) lines)
      in sort (changed_names (po_pairs lib x v) @ totals @ (if lines_changed then [''lines''] else [])))"

definition receipt_pairs :: "lib \<Rightarrow> extracted_receipt \<Rightarrow> receipt_values \<Rightarrow> (string \<times> json \<times> json) list" where
  "receipt_pairs lib x v =
     [(''external_receipt_number'', json_opt id (fvalue (xrc_receipt_number x)), JStr (rv_external_receipt_number v)),
      (''referenced_po_number'', json_opt id (fvalue (xrc_referenced_po_number x)), JStr (rv_referenced_po_number v)),
      (''received_at'', json_opt (\<lambda>d. date_isoformat d @ ''T00:00:00Z'') (fvalue (xrc_received_date x)),
         JStr (datetime_json lib (rv_received_at v))),
      (''supplier'', json_opt id (fvalue (xrc_supplier x)), json_opt id (rv_supplier v))]"

definition receipt_line_changed :: "lib \<Rightarrow> extracted_receipt_line \<Rightarrow> receipt_value_line \<Rightarrow> bool" where
  "receipt_line_changed lib x l \<longleftrightarrow>
     json_opt id (fvalue (xrl_description x)) \<noteq> JStr (rvl_description l)
     \<or> json_opt decimal_str (fvalue (xrl_received_quantity x)) \<noteq> JStr (decimal_json lib (rvl_received_quantity l))
     \<or> json_opt decimal_str (fvalue (xrl_accepted_quantity x)) \<noteq> JStr (decimal_json lib (rvl_accepted_quantity l))
     \<or> json_opt decimal_str (fvalue (xrl_rejected_quantity x)) \<noteq> JStr (decimal_json lib (rvl_rejected_quantity l))"

definition receipt_corrected_fields :: "lib \<Rightarrow> extracted_receipt \<Rightarrow> receipt_values \<Rightarrow> string list" where
  "receipt_corrected_fields lib x v =
     (let lines_changed = (list_ex (\<lambda>(xl, l). receipt_line_changed lib xl l) (zip (xrc_line_items x) (rv_lines v))
            \<or> length (rv_lines v) \<noteq> length (xrc_line_items x))
      in sort (changed_names (receipt_pairs lib x v) @ (if lines_changed then [''lines''] else [])))"

subsection \<open>A confirmation without corrections\<close>

text \<open>Documented behaviour of pydantic: the JSON text of a decimal is \<^verbatim>\<open>str(Decimal)\<close>.\<close>

definition decimal_json_str :: "lib \<Rightarrow> bool" where
  "decimal_json_str lib \<longleftrightarrow> (\<forall>d. decimal_json lib d = decimal_str d)"

lemma amount_differs_iff:
  assumes "decimal_json_str lib"
  shows "amount_differs lib (Some s) (Some c) \<longleftrightarrow> dval s \<noteq> dval c"
  using assms by (simp add: amount_differs_def decimal_json_str_def decimal_str_roundtrip deq_iff)

lemma sort_Nil_iff: "sort xs = [] \<longleftrightarrow> xs = ([] :: 'a :: linorder list)"
  by (metis length_0_conv length_sort)

lemma json_opt_eq_JStr: "json_opt f v = JStr t \<longleftrightarrow> (\<exists>x. v = Some x \<and> f x = t)"
  by (auto simp: json_opt_def split: option.splits)

lemma json_opt_id_eq: "json_opt id v = json_opt id w \<longleftrightarrow> v = w"
  by (auto simp: json_opt_def split: option.splits)

lemma json_opt_eq: "json_opt f v = json_opt g w \<longleftrightarrow> map_option f v = map_option g w"
  by (auto simp: json_opt_def split: option.splits)

text \<open>
  A line total that the request names is the extracted one; one that it leaves out is the model's default, which is
  null (\<^verbatim>\<open>model_fields_set\<close> holds the fields a request names, \<open>totals_named\<close>).
\<close>

definition line_agrees :: "extracted_po_line \<Rightarrow> po_line_create \<times> bool \<Rightarrow> bool" where
  "line_agrees x = (\<lambda>(l, provided). fvalue (xpl_line_number x) = Some (plc_line_number l)
     \<and> fvalue (xpl_description x) = Some (plc_description l)
     \<and> map_option dval (fvalue (xpl_ordered_quantity x)) = Some (dval (plc_ordered_quantity l))
     \<and> map_option dval (fvalue (xpl_unit_price x)) = Some (dval (plc_unit_price l))
     \<and> (if provided then map_option dval (fvalue (xpl_line_total x)) = map_option dval (plc_line_total l)
        else plc_line_total l = None))"

definition totals_named :: "po_values \<Rightarrow> bool" where
  "totals_named v \<longleftrightarrow> list_all2 (\<lambda>l provided. provided \<or> plc_line_total l = None) (poc_lines (pv_order v)) (pv_amount_provided v)"

definition order_agrees :: "extracted_po \<Rightarrow> po_values \<Rightarrow> bool" where
  "order_agrees x v \<longleftrightarrow> fvalue (xpo_po_number x) = Some (poc_external_po_number (pv_order v))
     \<and> fvalue (xpo_vendor x) = poc_vendor_name (pv_order v) \<and> fvalue (xpo_currency x) = Some (poc_currency (pv_order v))
     \<and> fvalue (xpo_buyer x) = pv_buyer_name v
     \<and> map_option date_isoformat (fvalue (xpo_issue_date x)) = map_option date_isoformat (pv_issue_date v)
     \<and> fvalue (xpo_subtotal x) = pv_subtotal v \<and> fvalue (xpo_tax x) = pv_tax v \<and> fvalue (xpo_total x) = pv_total v
     \<and> list_all2 line_agrees (xpo_line_items x) (zip (poc_lines (pv_order v)) (pv_amount_provided v))"

lemma unchanged_line_agrees:
  assumes "decimal_json_str lib" and "\<not> po_line_changed lib x l provided" and "provided \<or> plc_line_total l = None"
  shows "line_agrees x (l, provided)"
proof -
  have same: "map_option dval s = map_option dval c" if "\<not> amount_differs lib s c" for s c
    using that assms(1) by (cases s; cases c) (auto simp: amount_differs_iff amount_differs_def [of lib None] amount_differs_def [of lib _ None])
  with assms(2,3) show ?thesis
    by (auto simp: po_line_changed_def line_agrees_def simp flip: option.map(2))
qed

lemma decimal_str_inj: "map_option decimal_str v = map_option decimal_str w \<longleftrightarrow> v = w"
  by (cases v; cases w) (auto dest: arg_cong [where f = decimal_of_string] simp: decimal_str_roundtrip)

lemma uncorrected_order_agrees:
  assumes "decimal_json_str lib" and "totals_named v" and "po_corrected_fields lib x v = []"
  shows "order_agrees x v"
proof -
  let ?lines = "zip (xpo_line_items x) (zip (poc_lines (pv_order v)) (pv_amount_provided v))"
  from assms(3) have names: "changed_names (po_pairs lib x v) = []"
    and len: "length (poc_lines (pv_order v)) = length (xpo_line_items x)"
    and same: "list_all (\<lambda>(xl, l, provided). \<not> po_line_changed lib xl l provided) ?lines"
    by (auto simp: po_corrected_fields_def Let_def list_ex_iff list_all_iff sort_Nil_iff split: if_splits)
  have null: "pv_amount_provided v ! k \<or> plc_line_total (poc_lines (pv_order v) ! k) = None" if "k < length (poc_lines (pv_order v))" for k
    using assms(2) that by (auto simp: totals_named_def list_all2_conv_all_nth)
  have len2: "length (pv_amount_provided v) = length (poc_lines (pv_order v))"
    using assms(2) by (auto simp: totals_named_def dest: list_all2_lengthD)
  have "line_agrees (xpo_line_items x ! k) (poc_lines (pv_order v) ! k, pv_amount_provided v ! k)" if k: "k < length (xpo_line_items x)" for k
  proof -
    have "?lines ! k = (xpo_line_items x ! k, poc_lines (pv_order v) ! k, pv_amount_provided v ! k)"
      using k len len2 by simp
    moreover have "?lines ! k \<in> set ?lines" using k len len2 by (intro nth_mem) simp
    ultimately show ?thesis using same unchanged_line_agrees [OF assms(1) _ null] k len
      by (fastforce simp: list_all_iff)
  qed
  then have "list_all2 line_agrees (xpo_line_items x) (zip (poc_lines (pv_order v)) (pv_amount_provided v))"
    using len len2 by (simp add: list_all2_conv_all_nth)
  moreover have "decimal_json lib = decimal_str" using assms(1) by (simp add: decimal_json_str_def fun_eq_iff)
  ultimately show ?thesis
    using names by (auto simp: changed_names_def po_pairs_def order_agrees_def json_opt_eq_JStr json_opt_eq decimal_str_inj option.map_id
        split: if_splits)
qed

text \<open>
  C36: confirmed amounts survive the way through JSON. Reading back the text that a confirmed decimal is
  sent as gives the decimal with its exponent, so a confirmed line amount counts as changed exactly when
  its value differs from the extracted one, however the two are written.
\<close>

theorem confirmed_amount_roundtrip:
  assumes "decimal_json_str lib"
  shows "decimal_of_string (decimal_json lib c) = Some c
    \<and> (amount_differs lib (Some s) (Some c) \<longleftrightarrow> dval s \<noteq> dval c)"
  using assms amount_differs_iff [OF assms] by (simp add: decimal_json_str_def decimal_str_roundtrip)

theorem confirmed_amount_roundtrip_witness:
  "\<not> amount_differs (sample_lib\<lparr>decimal_json := decimal_str\<rparr>) (Some (Scaled 1500 0)) (Some (Scaled 15 2))"
proof -
  have "decimal_json_str (sample_lib\<lparr>decimal_json := decimal_str\<rparr>)" by (simp add: decimal_json_str_def)
  from confirmed_amount_roundtrip [OF this, of "Scaled 15 2" "Scaled 1500 0"] show ?thesis
    by (simp add: dval_def sval_def)
qed

end
