(* ===== verification/Cases.thy ===== *)
theory Cases
  imports Case_Data Ingestion Matching_Service
begin

text \<open>
  Payable cases (\<^verbatim>\<open>invoiceops/cases/service.py\<close>): creating a case, attaching documents, confirming
  extracted purchase orders and receipts into canonical records, and matching. An operation that
  commits half way, or gives up its row lock, is modelled in two parts, so that what other
  requests commit in between can stand between them.

  The session keeps the rows it has read (\<^verbatim>\<open>sessionmaker(expire_on_commit=False)\<close>): selecting a case
  again, also with \<^verbatim>\<open>FOR UPDATE\<close>, returns the object with the values first read, unless a rollback
  has expired it. A flush writes the columns whose values the request changed.
\<close>

subsection \<open>Rows\<close>

record payable_case =
  pc_id :: uuid
  pc_case_number :: string
  pc_status :: case_status
  pc_version :: nat
  pc_idempotency_key :: string
  pc_request_fingerprint :: string
  pc_created_at :: datetime
  pc_updated_at :: datetime

record case_document =
  cdoc_id :: uuid
  cdoc_case_id :: uuid
  cdoc_document_id :: uuid
  cdoc_role :: document_role
  cdoc_attachment_order :: nat
  cdoc_active_slot :: "document_role option"
  cdoc_supersedes_id :: "uuid option"
  cdoc_idempotency_key :: string
  cdoc_request_fingerprint :: string
  cdoc_created_at :: datetime

record case_confirmation =
  cf_id :: uuid
  cf_case_id :: uuid
  cf_case_document_id :: uuid
  cf_extraction_run_id :: uuid
  cf_extractor_version :: string
  cf_canonical_record_type :: string
  cf_canonical_record_id :: uuid
  cf_confirmed :: json
  cf_corrected_fields :: "string list"
  cf_correction_reason :: "string option"
  cf_idempotency_key :: "string option"
  cf_request_fingerprint :: string
  cf_created_at :: datetime

record case_match_context =
  cm_case_id :: uuid
  cm_match_run_id :: uuid
  cm_context :: json
  cm_idempotency_key :: string
  cm_request_fingerprint :: string

record case_db =
  kdb_cases :: "payable_case list"
  kdb_documents :: "case_document list"
  kdb_support_runs :: "supporting_run list"
  kdb_confirmations :: "case_confirmation list"
  kdb_events :: "case_event list"
  kdb_contexts :: "case_match_context list"
  kdb_ingestion :: ingestion_db
  kdb_matching :: matching_db
  kdb_support_queue :: "uuid list"

datatype case_error =
    CaseNotFoundError
  | CaseConflictError string
  | CaseNotReadyError
  | CaseRuntimeError
  | CaseValidationError
  | CaseIntegrityError
  | CaseIngestionError ingestion_error
  | CaseMatchError match_error

definition fingerprint :: "lib \<Rightarrow> json \<Rightarrow> string" where
  "fingerprint lib v = sha256_hex lib (json_dumps (float_repr lib) True v)"

definition case_ids :: "case_db \<Rightarrow> uuid set" where
  "case_ids db = set (map pc_id (kdb_cases db))"

definition find_payable_case :: "case_db \<Rightarrow> uuid \<Rightarrow> payable_case option" where
  "find_payable_case db cid = find_row (\<lambda>c. pc_id c = cid) (kdb_cases db)"

definition case_get :: "case_db \<Rightarrow> uuid \<Rightarrow> (case_error, payable_case) result" where
  "case_get db cid = (case find_payable_case db cid of None \<Rightarrow> Inl CaseNotFoundError | Some c \<Rightarrow> Inr c)"

definition documents_of :: "case_db \<Rightarrow> uuid \<Rightarrow> case_document list" where
  "documents_of db cid = filter (\<lambda>d. cdoc_case_id d = cid) (kdb_documents db)"

definition list_documents :: "case_db \<Rightarrow> uuid \<Rightarrow> (case_error, case_document list) result" where
  "list_documents db cid =
     (case case_get db cid of
        Inl e \<Rightarrow> Inl e
      | Inr _ \<Rightarrow> Inr (sort_key cdoc_attachment_order (documents_of db cid)))"

definition has_successor :: "case_db \<Rightarrow> uuid \<Rightarrow> bool" where
  "has_successor db aid = list_ex (\<lambda>d. cdoc_supersedes_id d = Some aid) (kdb_documents db)"

definition active_in_slot :: "case_db \<Rightarrow> uuid \<Rightarrow> document_role \<Rightarrow> case_document option" where
  "active_in_slot db cid role =
     find_row (\<lambda>d. cdoc_case_id d = cid \<and> cdoc_active_slot d = Some role) (kdb_documents db)"

definition active_attachment :: "case_db \<Rightarrow> uuid \<Rightarrow> document_role \<Rightarrow> (case_error, case_document) result" where
  "active_attachment db cid role =
     (case active_in_slot db cid role of None \<Rightarrow> Inl CaseNotReadyError | Some d \<Rightarrow> Inr d)"

definition confirmation_of :: "case_db \<Rightarrow> uuid \<Rightarrow> case_confirmation option" where
  "confirmation_of db aid = find_row (\<lambda>f. cf_case_document_id f = aid) (kdb_confirmations db)"

text \<open>
  What a flush writes to the row of a case: \<open>obj\<close> holds the values as they were loaded, the request
  increments the version and sets the status; a column that keeps its loaded value is not written.
\<close>

definition flush_case :: "datetime \<Rightarrow> payable_case \<Rightarrow> case_status \<Rightarrow> payable_case \<Rightarrow> payable_case" where
  "flush_case now obj status row =
     row\<lparr>pc_version := pc_version obj + 1,
         pc_status := (if status = pc_status obj then pc_status row else status), pc_updated_at := now\<rparr>"

definition write_case :: "datetime \<Rightarrow> payable_case \<Rightarrow> case_status \<Rightarrow> payable_case list \<Rightarrow> payable_case list" where
  "write_case now obj status = update_rows (\<lambda>c. pc_id c = pc_id obj) (flush_case now obj status)"

subsection \<open>Creating a case\<close>

text \<open>\<^verbatim>\<open>f"CASE-{now:%Y%m%d}-{case_id.hex[:8].upper()}"\<close>\<close>

definition case_number_of :: "uuid \<Rightarrow> datetime \<Rightarrow> string" where
  "case_number_of cid now =
     ''CASE-'' @ filter (\<lambda>c. c \<noteq> CHR ''-'') (date_isoformat (dt_utc now div us_per_day + 1)) @ ''-''
       @ py_upper (take 8 (uuid_text cid))"

definition create_fingerprint :: "lib \<Rightarrow> string" where
  "create_fingerprint lib = fingerprint lib (JObj [(''operation'', JStr ''create_case'')])"

definition new_case :: "lib \<Rightarrow> uuid \<Rightarrow> datetime \<Rightarrow> string \<Rightarrow> payable_case" where
  "new_case lib cid now key = \<lparr>pc_id = cid, pc_case_number = case_number_of cid now, pc_status = CASE_DRAFT,
     pc_version = 1, pc_idempotency_key = key, pc_request_fingerprint = create_fingerprint lib,
     pc_created_at = now, pc_updated_at = now\<rparr>"

definition case_constraints :: "payable_case list \<Rightarrow> payable_case \<Rightarrow> bool" where
  "case_constraints cases c \<longleftrightarrow> pc_idempotency_key c \<notin> set (map pc_idempotency_key cases)
     \<and> pc_case_number c \<notin> set (map pc_case_number cases) \<and> sql_nonblank (Some (pc_idempotency_key c))"

definition created_event :: "uuid \<Rightarrow> case_event_draft" where
  "created_event cid = \<lparr>cd_case_id = cid, cd_event_key = ''case.created'', cd_event_type = ''CASE_CREATED'',
     cd_stage = ''case'', cd_status = ''completed'', cd_message = ''Payable case created'',
     cd_document_id = None, cd_document_role = None, cd_payload = []\<rparr>"

definition insert_case :: "lib \<Rightarrow> uuid \<Rightarrow> datetime \<Rightarrow> string \<Rightarrow> case_db \<Rightarrow> case_db" where
  "insert_case lib cid now key db =
     (let db' = db\<lparr>kdb_cases := kdb_cases db @ [new_case lib cid now key]\<rparr>
      in db'\<lparr>kdb_events := log_case_event (case_ids db') now (created_event cid) (kdb_events db)\<rparr>)"

text \<open>Another request may create a case after this one has looked for the key.\<close>

definition create_raced :: "lib \<Rightarrow> (uuid \<times> datetime \<times> string) option \<Rightarrow> case_db \<Rightarrow> case_db" where
  "create_raced lib racing db =
     (case racing of
        None \<Rightarrow> db
      | Some (cid, now, key) \<Rightarrow>
          if case_constraints (kdb_cases db) (new_case lib cid now key) then insert_case lib cid now key db else db)"

definition case_create ::
  "lib \<Rightarrow> (uuid \<times> datetime \<times> string) option \<Rightarrow> uuid \<Rightarrow> datetime \<Rightarrow> string \<Rightarrow> case_db
    \<Rightarrow> (case_error, payable_case \<times> bool) result \<times> case_db" where
  "case_create lib racing cid now key db =
     (case find_row (\<lambda>c. pc_idempotency_key c = key) (kdb_cases db) of
        Some existing \<Rightarrow>
          if pc_request_fingerprint existing \<noteq> create_fingerprint lib
          then (Inl (CaseConflictError ''IDEMPOTENCY_KEY_REUSED''), db) else (Inr (existing, False), db)
      | None \<Rightarrow>
          let db1 = create_raced lib racing db; row = new_case lib cid now key in
          if case_constraints (kdb_cases db1) row then (Inr (row, True), insert_case lib cid now key db1)
          else (case find_row (\<lambda>c. pc_idempotency_key c = key) (kdb_cases db1) of
                  Some concurrent \<Rightarrow>
                    if pc_request_fingerprint concurrent \<noteq> create_fingerprint lib
                    then (Inl (CaseConflictError ''IDEMPOTENCY_KEY_REUSED''), db1) else (Inr (concurrent, False), db1)
                | None \<Rightarrow> (Inl (CaseConflictError ''IDEMPOTENCY_KEY_REUSED''), db1)))"

subsection \<open>Attaching a document\<close>

record attach_command =
  at_case_id :: uuid
  at_role :: document_role
  at_idempotency_key :: string
  at_expected_case_version :: nat
  at_upload :: upload_command
  at_supersedes_id :: "uuid option"

definition attach_fingerprint :: "lib \<Rightarrow> attach_command \<Rightarrow> string" where
  "attach_fingerprint lib c = fingerprint lib
     (JObj [(''role'', JStr (role_text (at_role c))), (''sha256'', JStr (sha256_hex lib (up_body (at_upload c)))),
            (''supersedes_id'', json_opt uuid_text (at_supersedes_id c))])"

definition find_attachment :: "case_db \<Rightarrow> uuid \<Rightarrow> string \<Rightarrow> case_document option" where
  "find_attachment db cid key =
     find_row (\<lambda>d. cdoc_case_id d = cid \<and> cdoc_idempotency_key d = key) (kdb_documents db)"

definition job_of_document :: "case_db \<Rightarrow> uuid \<Rightarrow> ingestion_job option" where
  "job_of_document db doc = find_row (\<lambda>j. ij_document_id j = doc) (idb_jobs (kdb_ingestion db))"

definition enqueue :: "bool \<Rightarrow> uuid \<Rightarrow> case_db \<Rightarrow> case_db" where
  "enqueue fails job db =
     (if fails then db
      else db\<lparr>kdb_ingestion := (kdb_ingestion db)\<lparr>idb_queue := idb_queue (kdb_ingestion db) @ [job]\<rparr>\<rparr>)"

definition enqueue_supporting :: "bool \<Rightarrow> uuid \<Rightarrow> case_db \<Rightarrow> case_db" where
  "enqueue_supporting fails aid db = (if fails then db else db\<lparr>kdb_support_queue := kdb_support_queue db @ [aid]\<rparr>)"

text \<open>\<^verbatim>\<open>_redispatch\<close> swallows every exception, also that of a missing job.\<close>

definition redispatch :: "bool \<Rightarrow> case_document \<Rightarrow> case_db \<Rightarrow> case_db" where
  "redispatch fails a db =
     (if cdoc_role a = INVOICE
      then (case job_of_document db (cdoc_document_id a) of
              None \<Rightarrow> db
            | Some j \<Rightarrow> if ij_status j \<noteq> SUCCEEDED then enqueue fails (ij_id j) db else db)
      else (case current_supporting_extraction (kdb_support_runs db) (cdoc_document_id a) (cdoc_role a) of
              None \<Rightarrow> enqueue_supporting fails (cdoc_id a) db
            | Some run \<Rightarrow> if spr_status run \<noteq> SUPPORTING_SUCCEEDED then enqueue_supporting fails (cdoc_id a) db else db))"

text \<open>
  The first part of \<^verbatim>\<open>attach\<close>, up to the end of the upload. \<open>Uploaded obj job created expired\<close>: the
  case as the session holds it, the job, whether the document is new, and whether a rollback after a
  concurrent upload has expired the session's objects.
\<close>

datatype attach_progress = AttachReplayed case_document | Uploaded payable_case ingestion_job bool bool

definition sync_documents :: "case_db \<Rightarrow> ingestion_db \<Rightarrow> case_db" where
  "sync_documents db idb =
     db\<lparr>kdb_ingestion := idb,
        kdb_matching := (kdb_matching db)\<lparr>gdb_documents := map dc_id (idb_documents idb)\<rparr>\<rparr>"

definition attach_begin ::
  "lib \<Rightarrow> ingestion_env \<Rightarrow> nat \<Rightarrow> attach_command \<Rightarrow> case_db \<Rightarrow> (case_error, attach_progress) result \<times> case_db" where
  "attach_begin lib env max_upload_bytes c db =
     (case find_attachment db (at_case_id c) (at_idempotency_key c) of
        Some replay \<Rightarrow>
          if cdoc_request_fingerprint replay \<noteq> attach_fingerprint lib c
          then (Inl (CaseConflictError ''IDEMPOTENCY_KEY_REUSED''), db)
          else (Inr (AttachReplayed replay), redispatch (ie_dispatch_fails env) replay db)
      | None \<Rightarrow>
          (case find_payable_case db (at_case_id c) of
             None \<Rightarrow> (Inl CaseNotFoundError, db)
           | Some initial \<Rightarrow>
               if pc_version initial \<noteq> at_expected_case_version c
               then (Inl (CaseConflictError ''STALE_CASE_VERSION''), db)
               else (case ingest lib env max_upload_bytes False (at_upload c) (kdb_ingestion db) of
                       (Inl e, idb) \<Rightarrow> (Inl (CaseIngestionError e), sync_documents db idb)
                     | (Inr (job, created), idb) \<Rightarrow>
                         (Inr (Uploaded initial job created
                            (\<not> created \<and> find_job_by_digest (kdb_ingestion db) (sha256_hex lib (up_body (at_upload c))) = None)),
                          sync_documents db idb))))"

text \<open>The single-document slots; the other roles have no slot.\<close>

definition slot_of :: "document_role \<Rightarrow> document_role option" where
  "slot_of role = (if role \<in> {INVOICE, PURCHASE_ORDER} then Some role else None)"

text \<open>Supersession: the documents after the active one has given up its slot, or the error code.\<close>

definition supersede :: "attach_command \<Rightarrow> case_db \<Rightarrow> (string, case_document list) result" where
  "supersede c db =
     (case slot_of (at_role c) of
        Some slot \<Rightarrow>
          (case active_in_slot db (at_case_id c) slot of
             Some active \<Rightarrow>
               if at_supersedes_id c \<noteq> Some (cdoc_id active) then Inl ''ACTIVE_DOCUMENT_EXISTS''
               else Inr (update_rows (\<lambda>d. cdoc_id d = cdoc_id active) (cdoc_active_slot_update (\<lambda>_. None)) (kdb_documents db))
           | None \<Rightarrow> if at_supersedes_id c \<noteq> None then Inl ''INVALID_SUPERSESSION'' else Inr (kdb_documents db))
      | None \<Rightarrow>
          (case at_supersedes_id c of
             None \<Rightarrow> Inr (kdb_documents db)
           | Some sid \<Rightarrow>
               (case find_row (\<lambda>d. cdoc_id d = sid) (kdb_documents db) of
                  None \<Rightarrow> Inl ''INVALID_SUPERSESSION''
                | Some old \<Rightarrow>
                    if cdoc_case_id old \<noteq> at_case_id c \<or> cdoc_role old \<noteq> at_role c \<or> has_successor db (cdoc_id old)
                    then Inl ''INVALID_SUPERSESSION'' else Inr (kdb_documents db))))"

definition new_attachment :: "lib \<Rightarrow> uuid \<Rightarrow> datetime \<Rightarrow> attach_command \<Rightarrow> uuid \<Rightarrow> case_document list \<Rightarrow> case_document" where
  "new_attachment lib aid now c doc docs = \<lparr>cdoc_id = aid, cdoc_case_id = at_case_id c, cdoc_document_id = doc,
     cdoc_role = at_role c,
     cdoc_attachment_order = max_list (map cdoc_attachment_order (filter (\<lambda>d. cdoc_case_id d = at_case_id c) docs)) + 1,
     cdoc_active_slot = slot_of (at_role c), cdoc_supersedes_id = at_supersedes_id c,
     cdoc_idempotency_key = at_idempotency_key c, cdoc_request_fingerprint = attach_fingerprint lib c,
     cdoc_created_at = now\<rparr>"

definition document_constraints :: "case_document list \<Rightarrow> case_document \<Rightarrow> bool" where
  "document_constraints docs a \<longleftrightarrow>
     list_all (\<lambda>d. cdoc_case_id d = cdoc_case_id a \<longrightarrow>
         cdoc_idempotency_key d \<noteq> cdoc_idempotency_key a
         \<and> \<not> (cdoc_role d = cdoc_role a \<and> cdoc_document_id d = cdoc_document_id a)
         \<and> (cdoc_active_slot a = None \<or> cdoc_active_slot d \<noteq> cdoc_active_slot a)
         \<and> cdoc_attachment_order d \<noteq> cdoc_attachment_order a) docs
     \<and> (case cdoc_supersedes_id a of None \<Rightarrow> True | Some sid \<Rightarrow> list_all (\<lambda>d. cdoc_supersedes_id d \<noteq> Some sid) docs)"

definition attached_event :: "case_document \<Rightarrow> string \<Rightarrow> case_event_draft" where
  "attached_event a filename = \<lparr>cd_case_id = cdoc_case_id a, cd_event_key = ''document.attached:'' @ uuid_text (cdoc_id a),
     cd_event_type = ''UPLOAD_ACCEPTED'', cd_stage = ''upload'', cd_status = ''completed'',
     cd_message = ''Case document attached'', cd_document_id = Some (cdoc_document_id a),
     cd_document_role = Some (cdoc_role a),
     cd_payload = [(''attachment_id'', JStr (uuid_text (cdoc_id a))), (''filename'', JStr filename)]\<rparr>"

definition reused_event :: "case_document \<Rightarrow> uuid \<Rightarrow> case_event_draft" where
  "reused_event a run = \<lparr>cd_case_id = cdoc_case_id a, cd_event_key = ''invoice-extraction-completed:'' @ uuid_text run,
     cd_event_type = ''EXTRACTION_COMPLETED'', cd_stage = ''extraction'', cd_status = ''completed'',
     cd_message = ''Existing invoice extraction reused'', cd_document_id = Some (cdoc_document_id a),
     cd_document_role = Some (cdoc_role a),
     cd_payload = [(''extraction_run_id'', JStr (uuid_text run)), (''reused'', JBool True)]\<rparr>"

text \<open>The extraction an attached invoice can use at once.\<close>

definition reusable_extraction :: "attach_command \<Rightarrow> ingestion_job \<Rightarrow> case_db \<Rightarrow> extraction_run option" where
  "reusable_extraction c job db =
     (if at_role c = INVOICE \<and> ij_status job = SUCCEEDED
      then current_successful_extraction (gdb_extractions (kdb_matching db)) (ij_document_id job) else None)"

text \<open>The rows written by the second part of \<^verbatim>\<open>attach\<close>, with the dispatch after the commit.\<close>

definition store_attachment ::
  "datetime \<Rightarrow> payable_case \<Rightarrow> extraction_run option \<Rightarrow> string \<Rightarrow> case_document list \<Rightarrow> case_document \<Rightarrow> case_db \<Rightarrow> case_db" where
  "store_attachment now obj reuse filename docs a db =
     db\<lparr>kdb_documents := docs @ [a],
        kdb_cases := write_case now obj (if reuse = None then CASE_PROCESSING else NEEDS_CONFIRMATION) (kdb_cases db),
        kdb_events := (case reuse of
            None \<Rightarrow> log_case_event (case_ids db) now (attached_event a filename) (kdb_events db)
          | Some run \<Rightarrow> log_case_event (case_ids db) now (reused_event a (er_id run))
              (log_case_event (case_ids db) now (attached_event a filename) (kdb_events db)))\<rparr>"

text \<open>
  The insert is flushed inside the \<^verbatim>\<open>try\<close> block, except for an invoice whose job has succeeded: there the query for
  its extraction flushes first, and a violated constraint leaves \<^verbatim>\<open>attach\<close> as the \<^verbatim>\<open>IntegrityError\<close> it is.
\<close>

definition attach_finish ::
  "lib \<Rightarrow> uuid \<Rightarrow> datetime \<Rightarrow> bool \<Rightarrow> attach_command \<Rightarrow> payable_case \<Rightarrow> ingestion_job \<Rightarrow> bool \<Rightarrow> case_db
    \<Rightarrow> (case_error, case_document \<times> bool) result \<times> case_db" where
  "attach_finish lib aid now fails c initial job expired db =
     (case find_payable_case db (at_case_id c) of
        None \<Rightarrow> (Inl CaseNotFoundError, db)
      | Some row \<Rightarrow>
          let obj = (if expired then row else initial) in
          if pc_version obj \<noteq> at_expected_case_version c then (Inl (CaseConflictError ''STALE_CASE_VERSION''), db)
          else (case find_row (\<lambda>d. dc_id d = ij_document_id job) (idb_documents (kdb_ingestion db)) of
                  None \<Rightarrow> (Inl CaseRuntimeError, db)
                | Some document \<Rightarrow>
                    if list_ex (\<lambda>d. cdoc_role d = at_role c \<and> cdoc_document_id d = dc_id document) (documents_of db (at_case_id c))
                    then (Inl (CaseConflictError ''DOCUMENT_ALREADY_ATTACHED''), db)
                    else (case supersede c db of
                            Inl code \<Rightarrow> (Inl (CaseConflictError code), db)
                          | Inr docs \<Rightarrow>
                              let a = new_attachment lib aid now c (dc_id document) docs;
                                  reuse = reusable_extraction c job db in
                              if \<not> document_constraints docs a \<and> at_role c = INVOICE \<and> ij_status job = SUCCEEDED
                              then (Inl CaseIntegrityError, db)
                              else if \<not> document_constraints docs a
                              then (case find_attachment db (at_case_id c) (at_idempotency_key c) of
                                      Some concurrent \<Rightarrow>
                                        if cdoc_request_fingerprint concurrent \<noteq> attach_fingerprint lib c
                                        then (Inl (CaseConflictError ''ATTACHMENT_CONFLICT''), db)
                                        else (Inr (concurrent, True), redispatch fails concurrent db)
                                    | None \<Rightarrow> (Inl (CaseConflictError ''ATTACHMENT_CONFLICT''), db))
                              else
                                let stored = store_attachment now obj reuse (dc_original_filename document) docs a db
                                in (Inr (a, False),
                                    if at_role c \<noteq> INVOICE then enqueue_supporting fails aid stored
                                    else if reuse = None then enqueue fails (ij_id job) stored else stored))))"

text \<open>\<^verbatim>\<open>attach\<close> with nothing in between: the attachment and whether it was replayed.\<close>

definition attach ::
  "lib \<Rightarrow> ingestion_env \<Rightarrow> nat \<Rightarrow> uuid \<Rightarrow> attach_command \<Rightarrow> case_db
    \<Rightarrow> (case_error, case_document \<times> bool) result \<times> case_db" where
  "attach lib env max_upload_bytes aid c db =
     (case attach_begin lib env max_upload_bytes c db of
        (Inl e, db1) \<Rightarrow> (Inl e, db1)
      | (Inr (AttachReplayed a), db1) \<Rightarrow> (Inr (a, True), db1)
      | (Inr (Uploaded initial job created expired), db1) \<Rightarrow>
          attach_finish lib aid (ui_now env) (ie_dispatch_fails env) c initial job expired db1)"

subsection \<open>Reading an attachment\<close>

record case_document_read =
  cdr_id :: uuid
  cdr_job_id :: uuid
  cdr_filename :: string
  cdr_content_type :: string
  cdr_byte_size :: nat
  cdr_attachment_order :: nat
  cdr_supersedes_id :: "uuid option"
  cdr_is_active :: bool
  cdr_job_status :: string
  cdr_extraction_status :: "supporting_status option"
  cdr_confirmation_status :: confirmation_status

fun job_status_text :: "job_status \<Rightarrow> string" where
  "job_status_text QUEUED = ''queued''"
| "job_status_text PROCESSING = ''processing''"
| "job_status_text SUCCEEDED = ''succeeded''"
| "job_status_text JOB_FAILED = ''failed''"

fun supporting_status_lower :: "supporting_status \<Rightarrow> string" where
  "supporting_status_lower SUPPORTING_PROCESSING = ''processing''"
| "supporting_status_lower SUPPORTING_SUCCEEDED = ''succeeded''"
| "supporting_status_lower SUPPORTING_FAILED = ''failed''"

definition is_active :: "case_db \<Rightarrow> case_document \<Rightarrow> bool" where
  "is_active db a \<longleftrightarrow> cdoc_active_slot a \<noteq> None
     \<or> cdoc_role a \<in> {GOODS_RECEIPT, DELIVERY_NOTE} \<and> \<not> has_successor db (cdoc_id a)"

text \<open>\<open>None\<close> when the document or its job is missing, which the foreign keys exclude.\<close>

definition attachment_to_read :: "case_db \<Rightarrow> case_document \<Rightarrow> case_document_read option" where
  "attachment_to_read db a =
     (case (find_row (\<lambda>d. dc_id d = cdoc_document_id a) (idb_documents (kdb_ingestion db)),
            job_of_document db (cdoc_document_id a)) of
        (Some d, Some j) \<Rightarrow>
          let run = current_supporting_extraction (kdb_support_runs db) (cdoc_document_id a) (cdoc_role a) in
          Some \<lparr>cdr_id = cdoc_id a, cdr_job_id = ij_id j, cdr_filename = dc_original_filename d,
            cdr_content_type = dc_content_type d, cdr_byte_size = dc_byte_size d,
            cdr_attachment_order = cdoc_attachment_order a, cdr_supersedes_id = cdoc_supersedes_id a,
            cdr_is_active = is_active db a,
            cdr_job_status = (case run of
                Some r \<Rightarrow> if cdoc_role a \<noteq> INVOICE then supporting_status_lower (spr_status r) else job_status_text (ij_status j)
              | None \<Rightarrow> job_status_text (ij_status j)),
            cdr_extraction_status = map_option spr_status run,
            cdr_confirmation_status = (if cdoc_role a = INVOICE then NOT_REQUIRED
              else if confirmation_of db (cdoc_id a) \<noteq> None then CONFIRMED else PENDING)\<rparr>
      | _ \<Rightarrow> None)"

subsection \<open>Confirming\<close>

definition support_run :: "case_db \<Rightarrow> case_document \<Rightarrow> uuid \<Rightarrow> string \<Rightarrow> (case_error, supporting_output) result" where
  "support_run db a run_id version =
     (case find_row (\<lambda>r. spr_id r = run_id) (kdb_support_runs db) of
        None \<Rightarrow> Inl CaseNotReadyError
      | Some run \<Rightarrow>
          if spr_document_id run \<noteq> cdoc_document_id a \<or> spr_role run \<noteq> cdoc_role a
             \<or> spr_extractor_version run \<noteq> version \<or> spr_status run \<noteq> SUPPORTING_SUCCEEDED
          then Inl CaseNotReadyError
          else case spr_output run of None \<Rightarrow> Inl CaseNotReadyError | Some out \<Rightarrow> Inr out)"

definition confirmation_fingerprint :: "lib \<Rightarrow> uuid \<Rightarrow> json \<Rightarrow> string" where
  "confirmation_fingerprint lib aid payload =
     fingerprint lib (JObj [(''attachment_id'', JStr (uuid_text aid)), (''confirmed'', payload)])"

text \<open>A \<^verbatim>\<open>NULL\<close> key equals nothing.\<close>

definition confirmation_replay ::
  "case_db \<Rightarrow> uuid \<Rightarrow> string option \<Rightarrow> string \<Rightarrow> (case_error, case_confirmation option) result" where
  "confirmation_replay db cid key fp =
     (case find_row (\<lambda>f. cf_case_id f = cid \<and> key \<noteq> None \<and> cf_idempotency_key f = key) (kdb_confirmations db) of
        None \<Rightarrow> Inr None
      | Some existing \<Rightarrow>
          if cf_request_fingerprint existing \<noteq> fp then Inl (CaseConflictError ''IDEMPOTENCY_KEY_REUSED'')
          else Inr (Some existing))"

definition status_after_confirmation :: "case_db \<Rightarrow> uuid \<Rightarrow> uuid \<Rightarrow> case_status" where
  "status_after_confirmation db cid current =
     (case active_in_slot db cid PURCHASE_ORDER of
        None \<Rightarrow> NEEDS_CONFIRMATION
      | Some _ \<Rightarrow>
          let confirmed_ids = insert current
                (set (map cf_case_document_id (filter (\<lambda>f. cf_case_id f = cid) (kdb_confirmations db))));
              active_support = set (map cdoc_id (filter (\<lambda>d. cdoc_active_slot d = Some PURCHASE_ORDER
                \<or> cdoc_role d \<in> {GOODS_RECEIPT, DELIVERY_NOTE} \<and> \<not> has_successor db (cdoc_id d)) (documents_of db cid)))
          in if active_support \<subseteq> confirmed_ids then READY_TO_MATCH else NEEDS_CONFIRMATION)"

definition confirmed_event :: "case_document \<Rightarrow> case_confirmation \<Rightarrow> case_event_draft" where
  "confirmed_event a f = \<lparr>cd_case_id = cdoc_case_id a, cd_event_key = ''document.confirmed:'' @ uuid_text (cf_id f),
     cd_event_type = ''DOCUMENT_CONFIRMED'', cd_stage = ''confirmation'', cd_status = ''completed'',
     cd_message = ''Supporting document confirmed into a canonical record'',
     cd_document_id = Some (cdoc_document_id a), cd_document_role = Some (cdoc_role a),
     cd_payload = [(''confirmation_id'', JStr (uuid_text (cf_id f))),
       (''canonical_record_type'', JStr (cf_canonical_record_type f)),
       (''corrected_fields'', JArr (map JStr (cf_corrected_fields f)))]\<rparr>"

text \<open>
  The constraints of the confirmation table. The flush that sends the row to the database is outside
  the \<^verbatim>\<open>try\<close> of the commit, so a violation is raised as it is.
\<close>

definition confirmation_constraints :: "case_confirmation list \<Rightarrow> case_confirmation \<Rightarrow> bool" where
  "confirmation_constraints fs f \<longleftrightarrow> cf_idempotency_key f \<noteq> None
     \<and> list_all (\<lambda>g. cf_case_document_id g \<noteq> cf_case_document_id f
         \<and> \<not> (cf_case_id g = cf_case_id f \<and> cf_idempotency_key g = cf_idempotency_key f)) fs"

text \<open>The end of a confirmation: insert it, set the version and status of the case, log, commit; a
  violation rolls back to \<open>db0\<close>.\<close>

definition store_confirmation ::
  "datetime \<Rightarrow> payable_case \<Rightarrow> case_document \<Rightarrow> case_confirmation \<Rightarrow> case_db \<Rightarrow> case_db
    \<Rightarrow> (case_error, case_confirmation) result \<times> case_db" where
  "store_confirmation now row a f db0 db =
     (if \<not> confirmation_constraints (kdb_confirmations db) f then (Inl CaseIntegrityError, db0)
      else let db1 = db\<lparr>kdb_confirmations := kdb_confirmations db @ [f]\<rparr>;
               db2 = db1\<lparr>kdb_cases := write_case now row (status_after_confirmation db1 (cf_case_id f) (cdoc_id a)) (kdb_cases db1)\<rparr>
           in (Inr f, db2\<lparr>kdb_events := log_case_event (case_ids db2) now (confirmed_event a f) (kdb_events db2)\<rparr>))"

text \<open>Identifier 0 of \<open>fresh\<close> is the confirmation's, the others are those of the canonical record.\<close>

definition po_confirmation_row ::
  "lib \<Rightarrow> (nat \<Rightarrow> uuid) \<Rightarrow> datetime \<Rightarrow> uuid \<Rightarrow> case_document \<Rightarrow> po_confirmation \<Rightarrow> string list \<Rightarrow> case_confirmation" where
  "po_confirmation_row lib fresh now cid a c corrected = \<lparr>cf_id = fresh 0, cf_case_id = cid, cf_case_document_id = cdoc_id a,
     cf_extraction_run_id = pcc_extraction_run_id c, cf_extractor_version = pcc_extractor_version c,
     cf_canonical_record_type = ''PURCHASE_ORDER'', cf_canonical_record_id = fresh 1,
     cf_confirmed = po_payload lib (pcc_confirmed c), cf_corrected_fields = corrected,
     cf_correction_reason = pcc_correction_reason c, cf_idempotency_key = pcc_idempotency_key c,
     cf_request_fingerprint = confirmation_fingerprint lib (cdoc_id a) (po_payload lib (pcc_confirmed c)),
     cf_created_at = now\<rparr>"

definition confirm_purchase_order ::
  "lib \<Rightarrow> (nat \<Rightarrow> uuid) \<Rightarrow> datetime \<Rightarrow> uuid \<Rightarrow> po_confirmation \<Rightarrow> case_db
    \<Rightarrow> (case_error, case_confirmation) result \<times> case_db" where
  "confirm_purchase_order lib fresh now cid c db =
     (case active_attachment db cid PURCHASE_ORDER of
        Inl e \<Rightarrow> (Inl e, db)
      | Inr a \<Rightarrow>
          (case confirmation_replay db cid (pcc_idempotency_key c)
                  (confirmation_fingerprint lib (cdoc_id a) (po_payload lib (pcc_confirmed c))) of
             Inl e \<Rightarrow> (Inl e, db)
           | Inr (Some replay) \<Rightarrow> (Inr replay, db)
           | Inr None \<Rightarrow>
               (case case_get db cid of
                  Inl e \<Rightarrow> (Inl e, db)
                | Inr row \<Rightarrow>
                    if pc_version row \<noteq> pcc_expected_case_version c
                    then (Inl (CaseConflictError ''STALE_CASE_VERSION''), db)
                    else (case support_run db a (pcc_extraction_run_id c) (pcc_extractor_version c) of
                            Inl e \<Rightarrow> (Inl e, db)
                          | Inr (OutputReceipt _) \<Rightarrow> (Inl CaseValidationError, db)
                          | Inr (OutputPO x) \<Rightarrow>
                              let corrected = po_corrected_fields lib x (pcc_confirmed c) in
                              if corrected \<noteq> [] \<and> \<not> truthy (pcc_correction_reason c)
                              then (Inl (CaseConflictError ''CORRECTION_REASON_REQUIRED''), db)
                              else
                                let order = purchase_order_row lib (\<lambda>k. fresh (Suc k)) now (pv_order (pcc_confirmed c));
                                    db1 = db\<lparr>kdb_matching := (kdb_matching db)\<lparr>gdb_orders := gdb_orders (kdb_matching db) @ [order]\<rparr>\<rparr>
                                in if \<not> distinct (map pl_line_number (po_lines order)) then (Inl CaseIntegrityError, db)
                                   else store_confirmation now row a (po_confirmation_row lib fresh now cid a c corrected)
                                          db db1))))"

definition receipt_command ::
  "purchase_order \<Rightarrow> receipt_values \<Rightarrow> (case_error, receipt_create) result" where
  "receipt_command po v =
     (case all_some (map (\<lambda>l. map_option (\<lambda>pl. \<lparr>rlc_purchase_order_line_id = pl_id pl,
              rlc_accepted_quantity = rvl_accepted_quantity l\<rparr>)
            (find_row (\<lambda>pl. pl_line_number pl = rvl_purchase_order_line_number l) (rev (po_lines po)))) (rv_lines v)) of
        None \<Rightarrow> Inl (CaseConflictError ''PO_LINE_NOT_FOUND'')
      | Some lines \<Rightarrow>
          (case validate_receipt_create \<lparr>rc_purchase_order_id = po_id po,
              rc_external_receipt_number = rv_external_receipt_number v, rc_received_at = rv_received_at v, rc_lines = lines\<rparr> of
             None \<Rightarrow> Inl CaseValidationError | Some c \<Rightarrow> Inr c))"

definition receipt_confirmation_row ::
  "lib \<Rightarrow> (nat \<Rightarrow> uuid) \<Rightarrow> datetime \<Rightarrow> uuid \<Rightarrow> case_document \<Rightarrow> receipt_confirmation \<Rightarrow> string list \<Rightarrow> case_confirmation" where
  "receipt_confirmation_row lib fresh now cid a c corrected = \<lparr>cf_id = fresh 0, cf_case_id = cid, cf_case_document_id = cdoc_id a,
     cf_extraction_run_id = rcc_extraction_run_id c, cf_extractor_version = rcc_extractor_version c,
     cf_canonical_record_type = ''GOODS_RECEIPT'', cf_canonical_record_id = fresh 1,
     cf_confirmed = receipt_payload lib (rcc_confirmed c), cf_corrected_fields = corrected,
     cf_correction_reason = rcc_correction_reason c, cf_idempotency_key = Some (rcc_idempotency_key c),
     cf_request_fingerprint = confirmation_fingerprint lib (cdoc_id a) (receipt_payload lib (rcc_confirmed c)),
     cf_created_at = now\<rparr>"

text \<open>The purchase order the case has confirmed, for the receipt to refer to.\<close>

definition confirmed_order :: "case_db \<Rightarrow> uuid \<Rightarrow> (case_error, purchase_order) result" where
  "confirmed_order db cid =
     (case active_attachment db cid PURCHASE_ORDER of
        Inl e \<Rightarrow> Inl e
      | Inr a \<Rightarrow>
          (case confirmation_of db (cdoc_id a) of
             None \<Rightarrow> Inl CaseNotReadyError
           | Some f \<Rightarrow>
               (case find_row (\<lambda>p. po_id p = cf_canonical_record_id f) (gdb_orders (kdb_matching db)) of
                  None \<Rightarrow> Inl CaseRuntimeError | Some po \<Rightarrow> Inr po)))"

definition store_receipt ::
  "lib \<Rightarrow> (nat \<Rightarrow> uuid) \<Rightarrow> datetime \<Rightarrow> uuid \<Rightarrow> payable_case \<Rightarrow> case_document \<Rightarrow> receipt_confirmation \<Rightarrow> string list
    \<Rightarrow> case_db \<Rightarrow> (case_error, case_confirmation) result \<times> case_db" where
  "store_receipt lib fresh now cid row a c corrected db =
     (case confirmed_order db cid of
        Inl e \<Rightarrow> (Inl e, db)
      | Inr po \<Rightarrow>
          if rv_referenced_po_number (rcc_confirmed c) \<noteq> po_external_po_number po
          then (Inl (CaseConflictError ''PO_REFERENCE_MISMATCH''), db)
          else (case receipt_command po (rcc_confirmed c) of
                  Inl e \<Rightarrow> (Inl e, db)
                | Inr command \<Rightarrow>
                    let receipt = receipt_row lib (\<lambda>k. fresh (Suc k)) now command;
                        receipts = gdb_receipts (kdb_matching db);
                        db1 = db\<lparr>kdb_matching := (kdb_matching db)\<lparr>gdb_receipts := receipts @ [receipt]\<rparr>\<rparr>
                    in if \<not> receipt_constraints receipts receipt then (Inl CaseIntegrityError, db)
                       else store_confirmation now row a (receipt_confirmation_row lib fresh now cid a c corrected)
                              db db1))"

definition confirm_receipt ::
  "lib \<Rightarrow> (nat \<Rightarrow> uuid) \<Rightarrow> datetime \<Rightarrow> uuid \<Rightarrow> uuid \<Rightarrow> receipt_confirmation \<Rightarrow> case_db
    \<Rightarrow> (case_error, case_confirmation) result \<times> case_db" where
  "confirm_receipt lib fresh now cid doc c db =
     (case find_row (\<lambda>d. cdoc_case_id d = cid \<and> cdoc_document_id d = doc \<and> cdoc_role d \<in> {GOODS_RECEIPT, DELIVERY_NOTE})
             (kdb_documents db) of
        None \<Rightarrow> (Inl CaseNotFoundError, db)
      | Some a \<Rightarrow>
          if has_successor db (cdoc_id a) then (Inl (CaseConflictError ''ATTACHMENT_SUPERSEDED''), db)
          else (case confirmation_replay db cid (Some (rcc_idempotency_key c))
                       (confirmation_fingerprint lib (cdoc_id a) (receipt_payload lib (rcc_confirmed c))) of
                  Inl e \<Rightarrow> (Inl e, db)
                | Inr (Some replay) \<Rightarrow> (Inr replay, db)
                | Inr None \<Rightarrow>
                    (case case_get db cid of
                       Inl e \<Rightarrow> (Inl e, db)
                     | Inr row \<Rightarrow>
                         if pc_version row \<noteq> rcc_expected_case_version c
                         then (Inl (CaseConflictError ''STALE_CASE_VERSION''), db)
                         else (case support_run db a (rcc_extraction_run_id c) (rcc_extractor_version c) of
                                 Inl e \<Rightarrow> (Inl e, db)
                               | Inr (OutputPO _) \<Rightarrow> (Inl CaseValidationError, db)
                               | Inr (OutputReceipt x) \<Rightarrow>
                                   let corrected = receipt_corrected_fields lib x (rcc_confirmed c) in
                                   if corrected \<noteq> [] \<and> \<not> truthy (rcc_correction_reason c)
                                   then (Inl (CaseConflictError ''CORRECTION_REASON_REQUIRED''), db)
                                   else store_receipt lib fresh now cid row a c corrected db))))"

subsection \<open>Matching a case\<close>

record case_match_command =
  cmc_expected_case_version :: nat
  cmc_idempotency_key :: string

definition receipt_confirmations :: "case_db \<Rightarrow> uuid \<Rightarrow> case_confirmation list" where
  "receipt_confirmations db cid =
     sort_key (\<lambda>f. (dt_utc (cf_created_at f), cf_id f))
       (filter (\<lambda>f. cf_canonical_record_type f = ''GOODS_RECEIPT''
          \<and> list_ex (\<lambda>d. cdoc_id d = cf_case_document_id f \<and> cdoc_role d \<in> {GOODS_RECEIPT, DELIVERY_NOTE}
              \<and> \<not> has_successor db (cdoc_id d)) (documents_of db cid)) (kdb_confirmations db))"

record case_inputs =
  ci_mode :: matching_mode
  ci_policy_version :: string
  ci_invoice :: case_document
  ci_invoice_run :: extraction_run
  ci_po :: case_document
  ci_po_confirmation :: case_confirmation
  ci_receipts :: "case_confirmation list"

definition case_inputs_of ::
  "matching_policy \<Rightarrow> three_way_policy \<Rightarrow> case_db \<Rightarrow> uuid \<Rightarrow> (case_error, case_inputs) result" where
  "case_inputs_of policy policy3 db cid =
     (case (active_attachment db cid INVOICE, active_attachment db cid PURCHASE_ORDER) of
        (Inr ia, Inr pa) \<Rightarrow>
          (case (current_successful_extraction (gdb_extractions (kdb_matching db)) (cdoc_document_id ia),
                 confirmation_of db (cdoc_id pa)) of
             (Some run, Some f) \<Rightarrow>
               let receipts = receipt_confirmations db cid; three_way = (receipts \<noteq> []) in
               Inr \<lparr>ci_mode = (if three_way then THREE_WAY else TWO_WAY),
                    ci_policy_version = (if three_way then tp_version policy3 else mp_version policy),
                    ci_invoice = ia, ci_invoice_run = run, ci_po = pa, ci_po_confirmation = f, ci_receipts = receipts\<rparr>
           | _ \<Rightarrow> Inl CaseNotReadyError)
      | _ \<Rightarrow> Inl CaseNotReadyError)"

fun matching_mode_text :: "matching_mode \<Rightarrow> string" where
  "matching_mode_text TWO_WAY = ''TWO_WAY''"
| "matching_mode_text THREE_WAY = ''THREE_WAY''"

definition case_context :: "case_inputs \<Rightarrow> json" where
  "case_context i = JObj
     [(''matching_mode'', JStr (matching_mode_text (ci_mode i))),
      (''matching_policy_version'', JStr (ci_policy_version i)),
      (''invoice_attachment_id'', JStr (uuid_text (cdoc_id (ci_invoice i)))),
      (''invoice_document_id'', JStr (uuid_text (cdoc_document_id (ci_invoice i)))),
      (''invoice_extraction_run_id'', JStr (uuid_text (er_id (ci_invoice_run i)))),
      (''purchase_order_attachment_id'', JStr (uuid_text (cdoc_id (ci_po i)))),
      (''purchase_order_confirmation_id'', JStr (uuid_text (cf_id (ci_po_confirmation i)))),
      (''purchase_order_id'', JStr (uuid_text (cf_canonical_record_id (ci_po_confirmation i)))),
      (''receipt_confirmation_ids'', JArr (map (\<lambda>f. JStr (uuid_text (cf_id f))) (ci_receipts i))),
      (''receipt_ids'', JArr (map (\<lambda>f. JStr (uuid_text (cf_canonical_record_id f))) (ci_receipts i)))]"

definition context_run :: "case_db \<Rightarrow> case_match_context \<Rightarrow> (case_error, match_run) result" where
  "context_run db k =
     (case find_row (\<lambda>r. mrun_id r = cm_match_run_id k) (gdb_runs (kdb_matching db)) of
        None \<Rightarrow> Inl CaseRuntimeError | Some r \<Rightarrow> Inr r)"

text \<open>
  The first part of \<^verbatim>\<open>match\<close>, which ends when the matching service commits and so gives up the lock
  of the case: the case as the session holds it, the context and the run.
\<close>

datatype match_progress = MatchReplayed match_run | MatchRan payable_case case_inputs match_run

definition case_match_begin ::
  "lib \<Rightarrow> match_env \<Rightarrow> matching_policy \<Rightarrow> three_way_policy \<Rightarrow> uuid \<Rightarrow> case_match_command \<Rightarrow> case_db
    \<Rightarrow> (case_error, match_progress) result \<times> case_db" where
  "case_match_begin lib env policy policy3 cid c db =
     (case find_row (\<lambda>k. cm_case_id k = cid \<and> cm_idempotency_key k = cmc_idempotency_key c) (kdb_contexts db) of
        Some k \<Rightarrow> (map_sum id MatchReplayed (context_run db k), db)
      | None \<Rightarrow>
          (case case_get db cid of
             Inl e \<Rightarrow> (Inl e, db)
           | Inr row \<Rightarrow>
               if pc_version row \<noteq> cmc_expected_case_version c
               then (Inl (CaseConflictError ''STALE_CASE_VERSION''), db)
               else (case case_inputs_of policy policy3 db cid of
                       Inl e \<Rightarrow> (Inl e, db)
                     | Inr i \<Rightarrow>
                         (case find_row (\<lambda>k. cm_case_id k = cid \<and> cm_request_fingerprint k = fingerprint lib (case_context i))
                                 (kdb_contexts db) of
                            Some k \<Rightarrow> (map_sum id MatchReplayed (context_run db k), db)
                          | None \<Rightarrow>
                              (case match_service lib env policy policy3 (cdoc_document_id (ci_invoice i))
                                      (cf_canonical_record_id (ci_po_confirmation i)) (ci_mode i) (kdb_matching db) of
                                 (Inl e, mdb) \<Rightarrow> (Inl (CaseMatchError e), db\<lparr>kdb_matching := mdb\<rparr>)
                               | (Inr (run, _), mdb) \<Rightarrow> (Inr (MatchRan row i run), db\<lparr>kdb_matching := mdb\<rparr>))))))"

fun case_decision_text :: "match_decision \<Rightarrow> string" where
  "case_decision_text MATCHED = ''MATCHED''"
| "case_decision_text NEEDS_REVIEW = ''NEEDS_REVIEW''"

definition matched_event :: "lib \<Rightarrow> uuid \<Rightarrow> case_inputs \<Rightarrow> match_run \<Rightarrow> case_event_draft" where
  "matched_event lib cid i run = \<lparr>cd_case_id = cid, cd_event_key = ''case.matched:'' @ fingerprint lib (case_context i),
     cd_event_type = ''CASE_MATCHED'', cd_stage = ''matching'', cd_status = ''completed'',
     cd_message = ''Deterministic case matching completed'', cd_document_id = None, cd_document_role = None,
     cd_payload = [(''match_run_id'', JStr (uuid_text (mrun_id run))),
       (''decision'', JStr (case_decision_text (mrun_decision run)))]\<rparr>"

definition case_status_of :: "case_db \<Rightarrow> match_run \<Rightarrow> case_status" where
  "case_status_of db run =
     (if mrun_decision run = MATCHED \<and> find_case_of_run (gdb_review (kdb_matching db)) (mrun_id run) = None
      then CASE_MATCHED else CASE_NEEDS_REVIEW)"

text \<open>
  The second part: lock the case again, store the context, set version and status, log. \<open>expired\<close> says
  that the matching service rolled back, so that the case is read again.
\<close>

definition case_match_finish ::
  "lib \<Rightarrow> datetime \<Rightarrow> uuid \<Rightarrow> case_match_command \<Rightarrow> payable_case \<Rightarrow> bool \<Rightarrow> case_inputs \<Rightarrow> match_run \<Rightarrow> case_db
    \<Rightarrow> (case_error, match_run) result \<times> case_db" where
  "case_match_finish lib now cid c initial expired i run db =
     (case find_payable_case db cid of
        None \<Rightarrow> (Inl CaseNotFoundError, db)
      | Some row \<Rightarrow>
          let obj = (if expired then row else initial); fp = fingerprint lib (case_context i) in
          if list_ex (\<lambda>k. cm_case_id k = cid \<and> (cm_request_fingerprint k = fp \<or> cm_idempotency_key k = cmc_idempotency_key c))
               (kdb_contexts db)
          then (Inl CaseIntegrityError, db)
          else (Inr run,
            db\<lparr>kdb_contexts := kdb_contexts db @ [\<lparr>cm_case_id = cid, cm_match_run_id = mrun_id run,
                 cm_context = case_context i, cm_idempotency_key = cmc_idempotency_key c, cm_request_fingerprint = fp\<rparr>],
               kdb_cases := write_case now obj (case_status_of db run) (kdb_cases db),
               kdb_events := log_case_event (case_ids db) now (matched_event lib cid i run) (kdb_events db)\<rparr>))"

definition case_match ::
  "lib \<Rightarrow> match_env \<Rightarrow> matching_policy \<Rightarrow> three_way_policy \<Rightarrow> uuid \<Rightarrow> case_match_command \<Rightarrow> case_db
    \<Rightarrow> (case_error, match_run) result \<times> case_db" where
  "case_match lib env policy policy3 cid c db =
     (case case_match_begin lib env policy policy3 cid c db of
        (Inl e, db1) \<Rightarrow> (Inl e, db1)
      | (Inr (MatchReplayed run), db1) \<Rightarrow> (Inr run, db1)
      | (Inr (MatchRan row i run), db1) \<Rightarrow> case_match_finish lib (me_now env) cid c row False i run db1)"

end
