(* ===== verification/Case_Machine.thy ===== *)
theory Case_Machine
  imports Cases
begin

text \<open>
  Properties of payable cases: an invariant of the tables that every operation keeps, with the parts of
  different requests in any order; versions; confirmations; matching again. The last section evaluates
  concrete requests.
\<close>

subsection \<open>Invariant\<close>

definition keys_distinct :: "('a \<Rightarrow> 'k option) \<Rightarrow> 'a list \<Rightarrow> bool" where
  "keys_distinct key xs \<longleftrightarrow> distinct (map key (filter (\<lambda>x. key x \<noteq> None) xs))"

lemma keys_distinct_snoc [simp]:
  "keys_distinct key (xs @ [x]) \<longleftrightarrow> keys_distinct key xs \<and> (key x = None \<or> (\<forall>y \<in> set xs. key y \<noteq> key x))"
  by (auto simp: keys_distinct_def image_iff)

lemma map_filter_update_rows:
  assumes "\<And>x. g (f x) = g x" and "\<And>x. Q (f x) = Q x"
  shows "map g (filter Q (update_rows P f xs)) = map g (filter Q xs)"
  using assms by (induction P f xs rule: update_rows.induct) auto

lemma keys_distinct_unique:
  assumes "keys_distinct key xs" and "x \<in> set xs" and "y \<in> set xs" and "key x = key y" and "key x \<noteq> None"
  shows "x = y"
  using assms by (auto simp: keys_distinct_def distinct_map dest: inj_onD)

lemma keys_distinct_update:
  assumes "keys_distinct key xs" and "\<And>x. P x \<Longrightarrow> key (f x) = None \<or> key (f x) = key x"
  shows "keys_distinct key (update_rows P f xs)"
  using assms
proof (induction P f xs rule: update_rows.induct)
  case (2 P f x xs)
  have sub: "key y \<in> insert None (key ` set xs)" if "y \<in> set (update_rows P f xs)" for y
    using that 2(3) by (auto simp: set_update_rows image_iff)
  from 2 have rec: "keys_distinct key (update_rows P f xs)" by (auto simp: keys_distinct_def split: if_splits)
  show ?case
    using rec 2(2,3) sub by (auto simp: keys_distinct_def image_iff split: if_splits) (metis image_iff insert_iff option.distinct(1))+
qed (simp add: keys_distinct_def)

definition slot_key :: "case_document \<Rightarrow> (uuid \<times> document_role) option" where
  "slot_key d = map_option (Pair (cdoc_case_id d)) (cdoc_active_slot d)"

definition documents_ok :: "case_document list \<Rightarrow> bool" where
  "documents_ok docs \<longleftrightarrow>
     distinct (map cdoc_id docs)
     \<and> (\<forall>cid. map cdoc_attachment_order (filter (\<lambda>d. cdoc_case_id d = cid) docs)
           = [1..<Suc (length (filter (\<lambda>d. cdoc_case_id d = cid) docs))])
     \<and> keys_distinct slot_key docs \<and> keys_distinct cdoc_supersedes_id docs
     \<and> distinct (map (\<lambda>d. (cdoc_case_id d, cdoc_idempotency_key d)) docs)
     \<and> distinct (map (\<lambda>d. (cdoc_case_id d, cdoc_role d, cdoc_document_id d)) docs)
     \<and> list_all (\<lambda>d. cdoc_active_slot d \<in> {None, slot_of (cdoc_role d)}) docs"

definition case_inv :: "lib \<Rightarrow> case_db \<Rightarrow> bool" where
  "case_inv lib db \<longleftrightarrow>
     distinct (map pc_id (kdb_cases db)) \<and> distinct (map pc_idempotency_key (kdb_cases db))
     \<and> distinct (map pc_case_number (kdb_cases db))
     \<and> documents_ok (kdb_documents db) \<and> distinct (map cf_case_document_id (kdb_confirmations db))
     \<and> distinct (map (\<lambda>k. (cm_case_id k, cm_request_fingerprint k)) (kdb_contexts db))
     \<and> case_log_ok (kdb_events db) \<and> ingestion_ok lib (kdb_ingestion db)"

subsection \<open>Attachments\<close>

text \<open>Giving up a slot keeps the table well-formed.\<close>

lemma supersede_ok:
  assumes "supersede c db = Inr docs" and "documents_ok (kdb_documents db)"
  shows "documents_ok docs"
proof -
  have "documents_ok (update_rows P (cdoc_active_slot_update (\<lambda>_. None)) (kdb_documents db))" for P
  proof -
    let ?f = "cdoc_active_slot_update (\<lambda>_. None)" and ?docs = "kdb_documents db"
    have same: "map g (update_rows P ?f ?docs) = map g ?docs" if "\<And>d. g (?f d) = g d" for g :: "case_document \<Rightarrow> 'a"
      using that by (rule map_update_rows)
    have own: "map cdoc_attachment_order (filter (\<lambda>d. cdoc_case_id d = cid) (update_rows P ?f ?docs))
        = map cdoc_attachment_order (filter (\<lambda>d. cdoc_case_id d = cid) ?docs)" for cid
      by (rule map_filter_update_rows) simp_all
    then have len: "length (filter (\<lambda>d. cdoc_case_id d = cid) (update_rows P ?f ?docs))
        = length (filter (\<lambda>d. cdoc_case_id d = cid) ?docs)" for cid
      by (metis length_map)
    show ?thesis
      using assms(2) own len unfolding documents_ok_def
      by (auto simp: same slot_key_def set_update_rows list_all_iff intro!: keys_distinct_update split: if_splits)
  qed
  with assms show ?thesis
    by (auto simp: supersede_def split: option.splits if_splits)
qed

lemma attach_rows_ok:
  assumes "documents_ok docs" and "document_constraints docs (new_attachment lib aid now c doc docs)"
    and "aid \<notin> set (map cdoc_id docs)"
  shows "documents_ok (docs @ [new_attachment lib aid now c doc docs])"
proof -
  let ?a = "new_attachment lib aid now c doc docs"
  have a: "cdoc_id ?a = aid" "cdoc_case_id ?a = at_case_id c" "cdoc_active_slot ?a = slot_of (cdoc_role ?a)"
    by (simp_all add: new_attachment_def)
  let ?own = "filter (\<lambda>d. cdoc_case_id d = at_case_id c) docs"
  have "map cdoc_attachment_order ?own = [1..<Suc (length ?own)]" using assms(1) by (simp add: documents_ok_def)
  then have order: "cdoc_attachment_order ?a = Suc (length ?own)"
    using max_list_upto [of "length ?own"] by (simp add: new_attachment_def)
  show ?thesis
    using assms order a
    by (auto simp: documents_ok_def document_constraints_def slot_key_def list_all_iff split: option.splits)
qed

lemma supersede_ids: "supersede c db = Inr docs \<Longrightarrow> map cdoc_id docs = map cdoc_id (kdb_documents db)"
  by (auto simp: supersede_def map_update_rows split: option.splits if_splits)

text \<open>Writing to a case changes only its version, status and time.\<close>

lemma write_case_keeps [simp]:
  "map pc_id (write_case now obj st cs) = map pc_id cs"
  "map pc_idempotency_key (write_case now obj st cs) = map pc_idempotency_key cs"
  "map pc_case_number (write_case now obj st cs) = map pc_case_number cs"
  by (simp_all add: write_case_def flush_case_def map_update_rows)

lemma enqueue_keeps [simp]:
  "case_inv lib (enqueue_supporting fails aid db) = case_inv lib db"
  by (simp add: enqueue_supporting_def case_inv_def)

lemma enqueue_inv:
  assumes "case_inv lib db" and "fails \<or> job \<in> set (map ij_id (idb_jobs (kdb_ingestion db)))"
  shows "case_inv lib (enqueue fails job db)"
  using assms by (auto simp: enqueue_def case_inv_def ingestion_ok_def)

lemma redispatch_inv [inv_intros]: "case_inv lib db \<Longrightarrow> case_inv lib (redispatch fails a db)"
  by (auto simp: redispatch_def job_of_document_def split: option.splits intro!: enqueue_inv dest!: find_row_Some)

lemma ingest_job_stored:
  assumes "ingestion_ok lib db" and "fresh_upload db env c" and "ingest lib env n dispatch c db = (Inr (job, b), db')"
  shows "ij_id job \<in> set (map ij_id (idb_jobs db'))"
  using ingest_found [OF assms] by (auto simp: find_job_by_digest_def dest: find_row_Some)

lemma attach_begin_inv [inv_intros]:
  assumes "case_inv lib db" and "fresh_upload (kdb_ingestion db) env (at_upload c)"
    and "attach_begin lib env n c db = (r, db')"
  shows "case_inv lib db'"
proof -
  have sync: "case_inv lib (sync_documents db idb)"
    if "ingest lib env n False (at_upload c) (kdb_ingestion db) = (x, idb)" for x idb
    using ingest_ok [OF _ assms(2) that] assms(1) by (simp add: case_inv_def sync_documents_def)
  from assms(1,3) show ?thesis
    by (auto simp: attach_begin_def intro: sync redispatch_inv split: option.splits if_splits prod.splits sum.splits)
qed

lemma store_attachment_inv:
  assumes "case_inv lib db" and "supersede c db = Inr docs" and "a = new_attachment lib aid now c doc docs"
    and "document_constraints docs a" and "aid \<notin> set (map cdoc_id (kdb_documents db))"
  shows "case_inv lib (store_attachment now obj reuse filename docs a db)"
proof -
  have "documents_ok (docs @ [a])"
    unfolding assms(3)
  proof (rule attach_rows_ok)
    show "documents_ok docs" using assms(1,2) supersede_ok by (auto simp: case_inv_def)
    show "document_constraints docs (new_attachment lib aid now c doc docs)" using assms(3,4) by simp
    show "aid \<notin> set (map cdoc_id docs)" using assms(5) supersede_ids [OF assms(2)] by simp
  qed
  with assms(1) show ?thesis
    by (auto simp: case_inv_def store_attachment_def split: option.splits intro: log_case_event_ok)
qed

lemma attach_finish_inv [inv_intros]:
  assumes "case_inv lib db" and "aid \<notin> set (map cdoc_id (kdb_documents db))"
    and "ij_id job \<in> set (map ij_id (idb_jobs (kdb_ingestion db)))"
    and "attach_finish lib aid now fails c initial job expired db = (r, db')"
  shows "case_inv lib db'"
proof -
  have stored: "case_inv lib (store_attachment now obj reuse filename docs (new_attachment lib aid now c doc docs) db)"
    if "supersede c db = Inr docs" and "document_constraints docs (new_attachment lib aid now c doc docs)"
    for obj reuse filename docs doc
    using store_attachment_inv [OF assms(1) that(1) refl that(2) assms(2)] .
  have jobs: "idb_jobs (kdb_ingestion (store_attachment now obj reuse filename docs a db)) = idb_jobs (kdb_ingestion db)"
    for obj reuse filename docs a by (simp add: store_attachment_def)
  from assms(4) show ?thesis
    using assms(1,3)
    by (auto simp: attach_finish_def Let_def jobs intro!: stored enqueue_inv redispatch_inv
        split: option.splits if_splits sum.splits)
qed

subsection \<open>The other operations\<close>

lemma insert_case_inv:
  assumes "case_inv lib db" and "case_constraints (kdb_cases db) (new_case lib cid now key)"
    and "cid \<notin> set (map pc_id (kdb_cases db))"
  shows "case_inv lib (insert_case lib cid now key db)"
  using assms by (auto simp: case_inv_def insert_case_def case_constraints_def Let_def new_case_def intro: log_case_event_ok)

lemma case_create_inv [inv_intros]:
  assumes "case_inv lib db" and "cid \<notin> set (map pc_id (kdb_cases db))"
    and "case racing of None \<Rightarrow> True | Some (cid', _) \<Rightarrow> cid' \<notin> insert cid (set (map pc_id (kdb_cases db)))"
    and "case_create lib racing cid now key db = (r, db')"
  shows "case_inv lib db'"
proof -
  have raced: "case_inv lib (create_raced lib racing db)"
    using assms(1,3) by (auto simp: create_raced_def intro: insert_case_inv split: option.splits)
  have fresh: "cid \<notin> set (map pc_id (kdb_cases (create_raced lib racing db)))"
    using assms(2,3) by (auto simp: create_raced_def insert_case_def Let_def new_case_def split: option.splits)
  from assms(1,4) show ?thesis
    by (auto simp: case_create_def Let_def intro: raced insert_case_inv [OF raced _ fresh]
        split: option.splits if_splits)
qed

lemma store_confirmation_inv:
  assumes "case_inv lib db0" and "case_inv lib db" and "store_confirmation now row a f db0 db = (r, db')"
  shows "case_inv lib db'"
proof (cases "confirmation_constraints (kdb_confirmations db) f")
  case True
  then have "cf_case_document_id f \<notin> set (map cf_case_document_id (kdb_confirmations db))"
    by (auto simp: confirmation_constraints_def list_all_iff image_iff)
  with True assms(2,3) show ?thesis
    by (auto simp: store_confirmation_def case_inv_def Let_def intro: log_case_event_ok)
qed (use assms in \<open>simp add: store_confirmation_def\<close>)

lemma case_inv_matching [simp]: "case_inv lib (db\<lparr>kdb_matching := m\<rparr>) = case_inv lib db"
  by (simp add: case_inv_def)

lemma confirm_purchase_order_inv [inv_intros]:
  assumes "case_inv lib db" and "confirm_purchase_order lib fresh now cid c db = (r, db')"
  shows "case_inv lib db'"
  using assms
  by (auto simp: confirm_purchase_order_def Let_def split: sum.splits option.splits if_splits supporting_output.splits
      elim!: store_confirmation_inv [rotated 2])

lemma confirm_receipt_inv [inv_intros]:
  assumes "case_inv lib db" and "confirm_receipt lib fresh now cid doc c db = (r, db')"
  shows "case_inv lib db'"
  using assms
  by (auto simp: confirm_receipt_def store_receipt_def Let_def split: sum.splits option.splits if_splits supporting_output.splits
      elim!: store_confirmation_inv [rotated 2])

lemma case_match_begin_inv [inv_intros]:
  assumes "case_inv lib db" and "case_match_begin lib env policy policy3 cid c db = (r, db')"
  shows "case_inv lib db'"
  using assms by (auto simp: case_match_begin_def split: sum.splits option.splits if_splits prod.splits)

lemma case_match_finish_inv [inv_intros]:
  assumes "case_inv lib db" and "case_match_finish lib now cid c initial expired i run db = (r, db')"
  shows "case_inv lib db'"
proof -
  let ?fp = "fingerprint lib (case_context i)"
  have "(cid, ?fp) \<notin> set (map (\<lambda>k. (cm_case_id k, cm_request_fingerprint k)) (kdb_contexts db))"
    if "\<not> list_ex (\<lambda>k. cm_case_id k = cid \<and> (cm_request_fingerprint k = ?fp \<or> cm_idempotency_key k = cmc_idempotency_key c)) (kdb_contexts db)"
    using that by (auto simp: list_ex_iff image_iff)
  with assms show ?thesis
    by (auto simp: case_match_finish_def case_inv_def Let_def intro: log_case_event_ok split: option.splits if_splits)
qed

subsection \<open>Interleaved requests\<close>

text \<open>
  One step is one transaction of one request. The second parts of \<^verbatim>\<open>attach\<close> and \<^verbatim>\<open>match\<close> may follow
  any transactions of other requests, so they are taken with any earlier state of the case that the
  session may hold. Extractions, orders, receipts and matches may change through other services at any
  time. Identifiers that a request draws are new.
\<close>

inductive case_step :: "lib \<Rightarrow> case_db \<Rightarrow> case_db \<Rightarrow> bool" for lib where
  create: "cid \<notin> set (map pc_id (kdb_cases db)) \<Longrightarrow>
    (case racing of None \<Rightarrow> True | Some (cid', _) \<Rightarrow> cid' \<notin> insert cid (set (map pc_id (kdb_cases db)))) \<Longrightarrow>
    case_step lib db (snd (case_create lib racing cid now key db))"
| attach1: "fresh_upload (kdb_ingestion db) env (at_upload c) \<Longrightarrow> case_step lib db (snd (attach_begin lib env n c db))"
| attach2: "aid \<notin> set (map cdoc_id (kdb_documents db)) \<Longrightarrow> ij_id job \<in> set (map ij_id (idb_jobs (kdb_ingestion db))) \<Longrightarrow>
    case_step lib db (snd (attach_finish lib aid now fails c initial job expired db))"
| confirm_po: "case_step lib db (snd (confirm_purchase_order lib fresh now cid pc db))"
| confirm_rc: "case_step lib db (snd (confirm_receipt lib fresh now cid doc rc db))"
| match1: "case_step lib db (snd (case_match_begin lib menv policy policy3 cid mc db))"
| match2: "case_step lib db (snd (case_match_finish lib now cid mc initial expired i run db))"
| others: "case_step lib db (db\<lparr>kdb_support_runs := runs, kdb_matching := m\<rparr>)"

definition case_start :: "case_db \<Rightarrow> bool" where
  "case_start db \<longleftrightarrow> kdb_cases db = [] \<and> kdb_documents db = [] \<and> kdb_confirmations db = [] \<and> kdb_events db = []
     \<and> kdb_contexts db = [] \<and> ingestion_start (kdb_ingestion db)"

interpretation cases: inductive_system case_start "case_step lib" "case_inv lib" for lib
proof
  show "case_inv lib db" if "case_start db" for db
    using that uploads.inv_start
    by (auto simp: case_start_def case_inv_def documents_ok_def keys_distinct_def case_log.log_ok_Nil)
  show "case_inv lib db'" if "case_step lib db db'" and "case_inv lib db" for db db'
    using that(1)
  proof (cases rule: case_step.cases)
    case create
    with that(2) show ?thesis by (metis case_create_inv surjective_pairing)
  next
    case attach1
    with that(2) show ?thesis by (metis attach_begin_inv surjective_pairing)
  next
    case attach2
    with that(2) show ?thesis by (metis attach_finish_inv surjective_pairing)
  next
    case others
    with that(2) show ?thesis by (simp add: case_inv_def)
  qed (use that(2) in \<open>metis confirm_purchase_order_inv confirm_receipt_inv case_match_begin_inv case_match_finish_inv surjective_pairing\<close>)+
qed

lemma attach_begin_job:
  assumes "case_inv lib db" and "fresh_upload (kdb_ingestion db) env (at_upload c)"
    and "attach_begin lib env n c db = (Inr (Uploaded initial job created expired), db')"
  shows "ij_id job \<in> set (map ij_id (idb_jobs (kdb_ingestion db')))" and "kdb_documents db' = kdb_documents db"
  using assms(3) ingest_job_stored [OF _ assms(2)] assms(1)
  by (auto simp: attach_begin_def case_inv_def sync_documents_def split: option.splits if_splits prod.splits sum.splits)

text \<open>A request to attach that is not interrupted is two steps.\<close>

lemma attach_reachable:
  assumes reach: "reachable_from case_start (case_step lib) db" and fresh: "fresh_upload (kdb_ingestion db) env (at_upload c)"
    and aid: "aid \<notin> set (map cdoc_id (kdb_documents db))"
  shows "reachable_from case_start (case_step lib) (snd (attach lib env n aid c db))"
proof -
  have inv: "case_inv lib db" using reach by (rule cases.inv_reachable)
  obtain r db1 where b: "attach_begin lib env n c db = (r, db1)" by fastforce
  with reach_step [OF reach attach1 [OF fresh, of lib n]] have one: "reachable_from case_start (case_step lib) db1" by simp
  show ?thesis
  proof (cases "\<exists>initial job created expired. r = Inr (Uploaded initial job created expired)")
    case True
    then obtain initial job created expired where r: "r = Inr (Uploaded initial job created expired)" by blast
    with attach_begin_job [OF inv fresh] b aid
    have "ij_id job \<in> set (map ij_id (idb_jobs (kdb_ingestion db1)))" "aid \<notin> set (map cdoc_id (kdb_documents db1))" by auto
    from reach_step [OF one attach2 [OF this(2,1)]] b r show ?thesis by (simp add: attach_def)
  next
    case False
    with one b show ?thesis by (auto simp: attach_def split: sum.splits attach_progress.splits)
  qed
qed

lemma sorted_own_documents:
  assumes "documents_ok docs"
  shows "sort_key cdoc_attachment_order (filter (\<lambda>d. cdoc_case_id d = cid) docs) = filter (\<lambda>d. cdoc_case_id d = cid) docs"
proof (rule sort_key_id_if_sorted)
  have "map cdoc_attachment_order (filter (\<lambda>d. cdoc_case_id d = cid) docs)
      = [1..<Suc (length (filter (\<lambda>d. cdoc_case_id d = cid) docs))]"
    using assms by (simp add: documents_ok_def)
  then show "sorted (map cdoc_attachment_order (filter (\<lambda>d. cdoc_case_id d = cid) docs))" by (simp del: upt_Suc)
qed

text \<open>
  C7: the documents of a case are consistent under concurrent requests. Whatever requests are served,
  with the transactions of different requests in any order, the attachments of a case are listed as
  1, 2, 3 and so on, at most one of them is the active invoice and at most one the active purchase
  order, none is superseded twice, none is confirmed twice, and the events of the case have no gaps.
\<close>

theorem case_documents_sound:
  assumes "reachable_from case_start (case_step lib) db" and "list_documents db cid = Inr ds"
  shows "map cdoc_attachment_order ds = [1..<Suc (length ds)]
    \<and> (\<forall>role. length (filter (\<lambda>d. cdoc_active_slot d = Some role) ds) \<le> 1)
    \<and> (\<forall>aid. length (filter (\<lambda>d. cdoc_supersedes_id d = Some aid) (kdb_documents db)) \<le> 1)
    \<and> (\<forall>aid. length (filter (\<lambda>f. cf_case_document_id f = aid) (kdb_confirmations db)) \<le> 1)
    \<and> map ce_sequence_number (filter (\<lambda>e. ce_case_id e = cid) (kdb_events db))
      = [1..<Suc (length (filter (\<lambda>e. ce_case_id e = cid) (kdb_events db)))]"
proof -
  have inv: "case_inv lib db" using assms(1) by (rule cases.inv_reachable)
  then have docs: "documents_ok (kdb_documents db)" by (simp add: case_inv_def)
  have ds: "ds = documents_of db cid"
    using assms(2) sorted_own_documents [OF docs] by (auto simp: list_documents_def documents_of_def split: sum.splits)
  have one: "length (filter P xs) \<le> 1" if "distinct xs" and "\<And>x y. x \<in> set xs \<Longrightarrow> y \<in> set xs \<Longrightarrow> P x \<Longrightarrow> P y \<Longrightarrow> x = y"
    for P and xs :: "'z list"
    using that by (auto simp: distinct_length_filter card_le_Suc0_iff_eq)
  have dist: "distinct (kdb_documents db)" using docs by (simp add: documents_ok_def distinct_map)
  have "length (filter (\<lambda>d. cdoc_active_slot d = Some role) ds) \<le> 1" for role
  proof (rule one)
    show "distinct ds" using dist by (simp add: ds documents_of_def)
    show "x = y" if "x \<in> set ds" "y \<in> set ds" "cdoc_active_slot x = Some role" "cdoc_active_slot y = Some role" for x y
      using that docs keys_distinct_unique [of slot_key "kdb_documents db" x y]
      by (auto simp: ds documents_of_def documents_ok_def slot_key_def)
  qed
  moreover have "length (filter (\<lambda>d. cdoc_supersedes_id d = Some aid) (kdb_documents db)) \<le> 1" for aid
    using docs keys_distinct_unique [of cdoc_supersedes_id "kdb_documents db"]
    by (intro one dist) (auto simp: documents_ok_def)
  moreover have "length (filter (\<lambda>f. cf_case_document_id f = aid) (kdb_confirmations db)) \<le> 1" for aid
    using inv by (intro one) (auto simp: case_inv_def distinct_map dest: inj_onD)
  moreover have "map cdoc_attachment_order ds = [1..<Suc (length ds)]"
    using docs by (simp add: ds documents_of_def documents_ok_def)
  moreover have "case_log_ok (kdb_events db)" using inv by (simp add: case_inv_def)
  ultimately show ?thesis by (simp add: case_log.log_ok_def)
qed

subsection \<open>Versions\<close>

lemma find_written_case:
  assumes "find_payable_case db cid = Some row" and "pc_id obj = cid" and "kdb_cases db' = write_case now obj st (kdb_cases db)"
  shows "find_payable_case db' cid = Some (flush_case now obj st row)"
proof -
  have "pc_id row = cid" using assms(1) by (auto simp: find_payable_case_def dest: find_row_Some)
  moreover have "find_payable_case db' cid
      = map_option (\<lambda>x. if pc_id x = pc_id obj then flush_case now obj st x else x) (find_payable_case db cid)"
    by (simp add: find_payable_case_def assms(3) write_case_def find_row_update_rows flush_case_def)
  ultimately show ?thesis using assms(1,2) by simp
qed

lemma enqueue_cases [simp]:
  "kdb_cases (enqueue fails j db) = kdb_cases db" "kdb_cases (enqueue_supporting fails aid db) = kdb_cases db"
  "kdb_documents (enqueue fails j db) = kdb_documents db" "kdb_documents (enqueue_supporting fails aid db) = kdb_documents db"
  by (simp_all add: enqueue_def enqueue_supporting_def)

text \<open>A new attachment writes the case with the values the session holds.\<close>

lemma attach_finish_stored:
  assumes "attach_finish lib aid now fails c initial job expired db = (Inr (a, False), db')"
  shows "\<exists>row. find_payable_case db (at_case_id c) = Some row
    \<and> pc_version (if expired then row else initial) = at_expected_case_version c
    \<and> kdb_cases db' = write_case now (if expired then row else initial)
      (if reusable_extraction c job db = None then CASE_PROCESSING else NEEDS_CONFIRMATION) (kdb_cases db)"
    and "\<exists>docs doc. a = new_attachment lib aid now c doc docs \<and> supersede c db = Inr docs \<and> kdb_documents db' = docs @ [a]"
  using assms
  by (auto simp: attach_finish_def Let_def store_attachment_def split: option.splits if_splits sum.splits)

lemma redispatch_documents [simp]: "kdb_documents (redispatch fails a db) = kdb_documents db"
  by (simp add: redispatch_def split: option.split)

lemma supersede_keys:
  "supersede c db = Inr docs \<Longrightarrow>
    map (\<lambda>d. (cdoc_case_id d, cdoc_idempotency_key d)) docs = map (\<lambda>d. (cdoc_case_id d, cdoc_idempotency_key d)) (kdb_documents db)"
  by (auto simp: supersede_def map_update_rows split: option.splits if_splits)

lemma attach_finish_replay:
  assumes "attach_finish lib aid now fails c initial job expired db = (Inr (a, False), db')"
    and "find_attachment db (at_case_id c) (at_idempotency_key c) = None"
  shows "find_attachment db' (at_case_id c) (at_idempotency_key c) = Some a"
    and "cdoc_request_fingerprint a = attach_fingerprint lib c"
proof -
  from attach_finish_stored(2) [OF assms(1)] obtain docs doc where
    a: "a = new_attachment lib aid now c doc docs" and docs: "supersede c db = Inr docs" "kdb_documents db' = docs @ [a]" by blast
  have "(at_case_id c, at_idempotency_key c) \<notin> set (map (\<lambda>d. (cdoc_case_id d, cdoc_idempotency_key d)) (kdb_documents db))"
    using assms(2) by (auto simp: find_attachment_def find_row_None_iff)
  then have "find_row (\<lambda>d. cdoc_case_id d = at_case_id c \<and> cdoc_idempotency_key d = at_idempotency_key c) docs = None"
    unfolding supersede_keys [OF docs(1), symmetric] by (auto simp: find_row_None_iff image_iff)
  with docs a show "find_attachment db' (at_case_id c) (at_idempotency_key c) = Some a"
    by (simp add: find_attachment_def find_row_append new_attachment_def)
  show "cdoc_request_fingerprint a = attach_fingerprint lib c" using a by (simp add: new_attachment_def)
qed

lemma attach_begin_uploaded:
  assumes "attach_begin lib env n c db = (Inr (Uploaded initial job created expired), db')"
  shows "find_payable_case db (at_case_id c) = Some initial" and "pc_id initial = at_case_id c"
    and "pc_version initial = at_expected_case_version c" and "kdb_cases db' = kdb_cases db"
    and "find_attachment db (at_case_id c) (at_idempotency_key c) = None"
    and "kdb_documents db' = kdb_documents db"
  using assms
  by (auto simp: attach_begin_def sync_documents_def find_payable_case_def
      split: option.splits if_splits prod.splits sum.splits dest: find_row_Some)

text \<open>
  C31: the check of the version after the upload has no effect. An upload that went through without a
  rollback leaves the case in the session, and selecting it again for update does not refresh it: in
  whatever state the database is by then, the second part of the request does not report a stale
  version, and when it attaches the document it sets the version of the case back to the expected
  version plus one.
\<close>

theorem attach_version_overwritten:
  assumes "attach_begin lib env n c db = (Inr (Uploaded initial job created False), db1)"
  shows "fst (attach_finish lib aid now fails c initial job False db2) \<noteq> Inl (CaseConflictError ''STALE_CASE_VERSION'')
    \<and> (\<forall>a db3. attach_finish lib aid now fails c initial job False db2 = (Inr (a, False), db3) \<longrightarrow>
         (\<exists>row. find_payable_case db3 (at_case_id c) = Some row \<and> pc_version row = at_expected_case_version c + 1))"
proof -
  note began = attach_begin_uploaded [OF assms]
  have codes: "supersede c db2 \<noteq> Inl ''STALE_CASE_VERSION''"
    by (auto simp: supersede_def split: option.splits)
  then have "fst (attach_finish lib aid now fails c initial job False db2) \<noteq> Inl (CaseConflictError ''STALE_CASE_VERSION'')"
    using began(3) by (auto simp: attach_finish_def Let_def split: option.splits sum.splits)
  moreover have "\<exists>row. find_payable_case db3 (at_case_id c) = Some row \<and> pc_version row = at_expected_case_version c + 1"
    if "attach_finish lib aid now fails c initial job False db2 = (Inr (a, False), db3)" for a db3
  proof -
    from attach_finish_stored(1) [OF that] obtain row st where "find_payable_case db2 (at_case_id c) = Some row"
      and "kdb_cases db3 = write_case now initial st (kdb_cases db2)" by auto
    from find_written_case [OF this(1) began(2) this(2)] began(3) show ?thesis by (simp add: flush_case_def)
  qed
  ultimately show ?thesis by blast
qed

text \<open>
  C32: without interleaving the version protects the case. After a request has attached a document, the
  version of the case is the expected one plus one, the same request is answered with the same
  attachment, and every attachment, confirmation of a purchase order or of a receipt, or match that still expects
  the earlier version, with a key of its own, is refused as stale and changes nothing.
\<close>

theorem case_versions_serial:
  assumes "attach lib env n aid c db = (Inr (a, False), db')"
  shows "(\<exists>row. find_payable_case db' (at_case_id c) = Some row \<and> pc_version row = at_expected_case_version c + 1)
    \<and> (\<forall>env'. fst (attach lib env' n aid' c db') = Inr (a, True)
        \<and> kdb_documents (snd (attach lib env' n aid' c db')) = kdb_documents db')
    \<and> (\<forall>c' env'. at_case_id c' = at_case_id c \<longrightarrow> at_expected_case_version c' = at_expected_case_version c \<longrightarrow>
        find_attachment db' (at_case_id c) (at_idempotency_key c') = None \<longrightarrow>
        attach lib env' n aid' c' db' = (Inl (CaseConflictError ''STALE_CASE_VERSION''), db'))
    \<and> (\<forall>p pa. pcc_expected_case_version p = at_expected_case_version c \<longrightarrow>
        active_in_slot db' (at_case_id c) PURCHASE_ORDER = Some pa \<longrightarrow>
        confirmation_replay db' (at_case_id c) (pcc_idempotency_key p)
          (confirmation_fingerprint lib (cdoc_id pa) (po_payload lib (pcc_confirmed p))) = Inr None \<longrightarrow>
        confirm_purchase_order lib fresh now (at_case_id c) p db' = (Inl (CaseConflictError ''STALE_CASE_VERSION''), db'))
    \<and> (\<forall>r doc ra. rcc_expected_case_version r = at_expected_case_version c \<longrightarrow>
        find_row (\<lambda>d. cdoc_case_id d = at_case_id c \<and> cdoc_document_id d = doc \<and> cdoc_role d \<in> {GOODS_RECEIPT, DELIVERY_NOTE})
          (kdb_documents db') = Some ra \<longrightarrow> \<not> has_successor db' (cdoc_id ra) \<longrightarrow>
        confirmation_replay db' (at_case_id c) (Some (rcc_idempotency_key r))
          (confirmation_fingerprint lib (cdoc_id ra) (receipt_payload lib (rcc_confirmed r))) = Inr None \<longrightarrow>
        confirm_receipt lib fresh now (at_case_id c) doc r db' = (Inl (CaseConflictError ''STALE_CASE_VERSION''), db'))
    \<and> (\<forall>m menv. cmc_expected_case_version m = at_expected_case_version c \<longrightarrow>
        find_row (\<lambda>k. cm_case_id k = at_case_id c \<and> cm_idempotency_key k = cmc_idempotency_key m) (kdb_contexts db') = None \<longrightarrow>
        case_match lib menv policy policy3 (at_case_id c) m db' = (Inl (CaseConflictError ''STALE_CASE_VERSION''), db'))"
proof -
  from assms obtain initial job created expired db1 where
    began: "attach_begin lib env n c db = (Inr (Uploaded initial job created expired), db1)" and
    fin: "attach_finish lib aid (ui_now env) (ie_dispatch_fails env) c initial job expired db1 = (Inr (a, False), db')"
    by (auto simp: attach_def split: prod.splits sum.splits attach_progress.splits)
  note b = attach_begin_uploaded [OF began]
  have cur: "find_payable_case db1 (at_case_id c) = Some initial" using b(1,4) by (simp add: find_payable_case_def)
  from attach_finish_stored(1) [OF fin] cur obtain st where
    "kdb_cases db' = write_case (ui_now env) initial st (kdb_cases db1)" by (auto split: if_splits)
  from find_written_case [OF cur b(2) this] b(3)
  obtain row where row: "find_payable_case db' (at_case_id c) = Some row" "pc_version row = at_expected_case_version c + 1"
    by (simp add: flush_case_def)
  have "find_attachment db1 (at_case_id c) (at_idempotency_key c) = None"
    using b(5,6) by (simp add: find_attachment_def)
  note replay = attach_finish_replay [OF fin this]
  have "fst (attach lib env' n aid' c db') = Inr (a, True)
      \<and> kdb_documents (snd (attach lib env' n aid' c db')) = kdb_documents db'" for env'
    using replay by (simp add: attach_def attach_begin_def)
  with row show ?thesis
    by (auto simp: attach_def attach_begin_def case_match_def case_match_begin_def case_get_def
        confirm_purchase_order_def confirm_receipt_def active_attachment_def)
qed

subsection \<open>Confirmations\<close>

lemma store_confirmation_stored:
  assumes "store_confirmation now row a f db0 db = (Inr f', db')"
  shows "f' = f" and "confirmation_constraints (kdb_confirmations db) f"
    and "kdb_confirmations db' = kdb_confirmations db @ [f]" and "kdb_matching db' = kdb_matching db"
    and "kdb_documents db' = kdb_documents db"
    and "kdb_cases db' = write_case now row
      (status_after_confirmation (db\<lparr>kdb_confirmations := kdb_confirmations db @ [f]\<rparr>) (cf_case_id f) (cdoc_id a)) (kdb_cases db)"
  using assms by (auto simp: store_confirmation_def Let_def split: if_splits)

lemma subset_keys_iff:
  "set (map k (filter P xs)) \<subseteq> insert y (set (map h (filter Q ys)))
    \<longleftrightarrow> (\<forall>x \<in> set xs. P x \<longrightarrow> k x = y \<or> (\<exists>g \<in> set ys. h g = k x \<and> Q g))"
proof -
  have mem: "z \<in> h ` {g \<in> set ys. Q g} \<longleftrightarrow> (\<exists>g \<in> set ys. h g = z \<and> Q g)" for z
    by auto
  have "set (map k (filter P xs)) \<subseteq> insert y (set (map h (filter Q ys)))
      \<longleftrightarrow> (\<forall>x \<in> set xs. P x \<longrightarrow> k x \<in> insert y (h ` {g \<in> set ys. Q g}))"
    by auto
  then show ?thesis by (simp only: insert_iff mem)
qed

text \<open>What a new confirmation of a purchase order went through.\<close>

lemma confirm_purchase_order_new:
  assumes "confirm_purchase_order lib fresh now cid c db = (Inr f, db')" and "f \<notin> set (kdb_confirmations db)"
  shows "\<exists>a row x. active_in_slot db cid PURCHASE_ORDER = Some a \<and> find_payable_case db cid = Some row
    \<and> pc_version row = pcc_expected_case_version c
    \<and> support_run db a (pcc_extraction_run_id c) (pcc_extractor_version c) = Inr (OutputPO x)
    \<and> (po_corrected_fields lib x (pcc_confirmed c) = [] \<or> truthy (pcc_correction_reason c))
    \<and> f = po_confirmation_row lib fresh now cid a c (po_corrected_fields lib x (pcc_confirmed c))
    \<and> (let order = purchase_order_row lib (\<lambda>k. fresh (Suc k)) now (pv_order (pcc_confirmed c))
       in store_confirmation now row a f db
            (db\<lparr>kdb_matching := (kdb_matching db)\<lparr>gdb_orders := gdb_orders (kdb_matching db) @ [order]\<rparr>\<rparr>) = (Inr f, db'))"
proof -
  from assms(1) obtain a where a: "active_in_slot db cid PURCHASE_ORDER = Some a"
    by (auto simp: confirm_purchase_order_def active_attachment_def split: option.splits)
  have "confirmation_replay db cid (pcc_idempotency_key c)
      (confirmation_fingerprint lib (cdoc_id a) (po_payload lib (pcc_confirmed c))) = Inr None"
    using assms a
    by (auto simp: confirm_purchase_order_def active_attachment_def confirmation_replay_def
        split: option.splits if_splits dest: find_row_Some)
  with assms(1) a show ?thesis
    by (auto simp: confirm_purchase_order_def active_attachment_def case_get_def Let_def
        split: option.splits if_splits sum.splits supporting_output.splits dest: store_confirmation_stored(1))
qed

text \<open>
  C19: a purchase order confirmed without a correction reason is the extracted one. When a confirmation
  that gives no reason is accepted as new, the confirmed values and the order that is stored for later matching have
  the number, the vendor, the buyer, the issue date, the currency and the totals and, line by line, the numbers,
  descriptions, quantities and prices that the named extraction of the active document produced; and each line total
  is the extracted one or, where the request does not name it, null.
\<close>

theorem confirm_without_reason_is_extracted:
  assumes "decimal_json_str lib" and "totals_named (pcc_confirmed c)"
    and "confirm_purchase_order lib fresh now cid c db = (Inr f, db')" and "f \<notin> set (kdb_confirmations db)"
    and "\<not> truthy (pcc_correction_reason c)"
  shows "\<exists>a x. active_in_slot db cid PURCHASE_ORDER = Some a \<and> cf_case_document_id f = cdoc_id a
    \<and> support_run db a (pcc_extraction_run_id c) (pcc_extractor_version c) = Inr (OutputPO x)
    \<and> order_agrees x (pcc_confirmed c)
    \<and> cf_canonical_record_id f = fresh 1
    \<and> purchase_order_row lib (\<lambda>k. fresh (Suc k)) now (pv_order (pcc_confirmed c)) \<in> set (gdb_orders (kdb_matching db'))"
proof -
  from confirm_purchase_order_new [OF assms(3,4)] assms(5) obtain a row x where
    a: "active_in_slot db cid PURCHASE_ORDER = Some a"
    and x: "support_run db a (pcc_extraction_run_id c) (pcc_extractor_version c) = Inr (OutputPO x)"
    and none: "po_corrected_fields lib x (pcc_confirmed c) = []"
    and f: "f = po_confirmation_row lib fresh now cid a c []"
    and st: "store_confirmation now row a f db (db\<lparr>kdb_matching := (kdb_matching db)\<lparr>gdb_orders := gdb_orders (kdb_matching db)
       @ [purchase_order_row lib (\<lambda>k. fresh (Suc k)) now (pv_order (pcc_confirmed c))]\<rparr>\<rparr>) = (Inr f, db')"
    by (auto simp: Let_def)
  have "order_agrees x (pcc_confirmed c)" using assms(1,2) none by (rule uncorrected_order_agrees)
  with a x f store_confirmation_stored(4) [OF st] show ?thesis
    by (auto simp: po_confirmation_row_def)
qed

text \<open>
  A case becomes ready to match exactly when everything is confirmed. After a new confirmation of
  the purchase order, the case is READY_TO_MATCH if and only if every active purchase order, receipt and
  delivery note of the case has a confirmation, and otherwise NEEDS_CONFIRMATION; the version has grown by one.
\<close>

theorem confirm_ready_iff_complete:
  assumes "reachable_from case_start (case_step lib) db"
    and "confirm_purchase_order lib fresh now cid c db = (Inr f, db')" and "f \<notin> set (kdb_confirmations db)"
  shows "\<exists>row. find_payable_case db' cid = Some row \<and> pc_version row = pcc_expected_case_version c + 1
    \<and> pc_status row = (if \<forall>d \<in> set (documents_of db' cid). cdoc_role d \<noteq> INVOICE \<and> is_active db' d \<longrightarrow>
          (\<exists>g \<in> set (kdb_confirmations db'). cf_case_document_id g = cdoc_id d \<and> cf_case_id g = cid)
        then READY_TO_MATCH else NEEDS_CONFIRMATION)"
proof -
  from confirm_purchase_order_new [OF assms(2,3)] obtain a row corrected order where
    a: "active_in_slot db cid PURCHASE_ORDER = Some a" and row: "find_payable_case db cid = Some row"
    and version: "pc_version row = pcc_expected_case_version c"
    and f: "f = po_confirmation_row lib fresh now cid a c corrected"
    and st: "store_confirmation now row a f db
      (db\<lparr>kdb_matching := (kdb_matching db)\<lparr>gdb_orders := gdb_orders (kdb_matching db) @ [order]\<rparr>\<rparr>) = (Inr f, db')"
    by (auto simp: Let_def)
  note stored = store_confirmation_stored [OF st]
  have ids: "cf_case_id f = cid" "cf_case_document_id f = cdoc_id a" "pc_id row = cid"
    using f row by (auto simp: po_confirmation_row_def find_payable_case_def dest: find_row_Some)
  have slots: "cdoc_active_slot d \<in> {None, slot_of (cdoc_role d)}" if "d \<in> set (kdb_documents db)" for d
    using cases.inv_reachable [OF assms(1)] that by (simp add: case_inv_def documents_ok_def list_all_iff)
  have status: "status_after_confirmation (db\<lparr>kdb_matching := m, kdb_confirmations := kdb_confirmations db @ [f]\<rparr>) cid (cdoc_id a)
      = (if \<forall>d \<in> set (documents_of db' cid). cdoc_role d \<noteq> INVOICE \<and> is_active db' d \<longrightarrow>
          (\<exists>g \<in> set (kdb_confirmations db'). cf_case_document_id g = cdoc_id d \<and> cf_case_id g = cid)
         then READY_TO_MATCH else NEEDS_CONFIRMATION)" (is "?l = ?r") for m
  proof -
    let ?P = "\<lambda>d. cdoc_active_slot d = Some PURCHASE_ORDER
      \<or> cdoc_role d \<in> {GOODS_RECEIPT, DELIVERY_NOTE} \<and> \<not> has_successor db (cdoc_id d)"
    have active: "cdoc_role d \<noteq> INVOICE \<and> is_active db' d \<longleftrightarrow> ?P d" if "d \<in> set (documents_of db' cid)" for d
      using slots [of d] that stored(5)
      by (cases "cdoc_role d") (auto simp: is_active_def has_successor_def slot_of_def documents_of_def)
    have "set (map cdoc_id (filter ?P (documents_of db' cid)))
        \<subseteq> insert (cdoc_id a) (set (map cf_case_document_id (filter (\<lambda>g. cf_case_id g = cid) (kdb_confirmations db @ [f]))))
      \<longleftrightarrow> (\<forall>d \<in> set (documents_of db' cid). ?P d \<longrightarrow>
          (\<exists>g \<in> set (kdb_confirmations db'). cf_case_document_id g = cdoc_id d \<and> cf_case_id g = cid))"
      unfolding subset_keys_iff stored(3) using ids by auto
    then show ?thesis
      using a active stored(5)
      by (simp add: status_after_confirmation_def active_in_slot_def has_successor_def documents_of_def Let_def)
  qed
  show ?thesis
    using find_written_case [OF _ ids(3) stored(6), of row] row version status ids
    by (auto simp: flush_case_def find_payable_case_def)
qed

text \<open>
  A second confirmation of an attachment ends in an integrity error. The attachment has a
  confirmation, the request has a key of its own and is valid in every other respect: the flush that
  inserts the row violates the unique constraint outside the handler that would report
  ATTACHMENT_ALREADY_CONFIRMED, so the request fails with the database error and stores nothing.
\<close>

theorem second_confirmation_integrity_error:
  assumes "active_in_slot db cid PURCHASE_ORDER = Some a" and "confirmation_of db (cdoc_id a) = Some f"
    and "find_row (\<lambda>g. cf_case_id g = cid \<and> cf_idempotency_key g = pcc_idempotency_key c) (kdb_confirmations db) = None"
    and "find_payable_case db cid = Some row" and "pc_version row = pcc_expected_case_version c"
    and "support_run db a (pcc_extraction_run_id c) (pcc_extractor_version c) = Inr (OutputPO x)"
    and "po_corrected_fields lib x (pcc_confirmed c) = [] \<or> truthy (pcc_correction_reason c)"
  shows "confirm_purchase_order lib fresh now cid c db = (Inl CaseIntegrityError, db)"
proof -
  have replay: "confirmation_replay db cid (pcc_idempotency_key c) fp = Inr None" for fp
    using assms(3) by (auto simp: confirmation_replay_def find_row_None_iff split: option.splits dest!: find_row_Some)
  have "f \<in> set (kdb_confirmations db)" "cf_case_document_id f = cdoc_id a"
    using assms(2) by (auto simp: confirmation_of_def dest: find_row_Some)
  then have taken: "\<not> confirmation_constraints (kdb_confirmations db) (po_confirmation_row lib fresh now cid a c corrected)" for corrected
    by (auto simp: confirmation_constraints_def po_confirmation_row_def list_all_iff)
  show ?thesis
    using assms(1,4-7) replay taken
    by (auto simp: confirm_purchase_order_def active_attachment_def case_get_def Let_def store_confirmation_def)
qed

subsection \<open>Matching again\<close>

lemma assess_and_route_stores:
  assumes "assess_and_route lib env run po invoice db = (Inr r, db')" and "run \<in> set (gdb_runs db)"
  shows "mrun_id r \<in> set (map mrun_id (gdb_runs db'))"
  using assms by (cases rule: assess_and_route_cases) (auto simp: image_iff)

lemma match_service_stores:
  assumes "match_service lib env policy policy3 doc poid mode db = (Inr (r, b), db')" and "me_repaired env = None"
  shows "mrun_id r \<in> set (map mrun_id (gdb_runs db'))"
proof -
  have found: ?thesis if "ensure_case_for_existing lib env c d = (Inr r, db')" and "c \<in> set (gdb_runs d)" for c d
    using that(1) assms(2) by (rule ensure_case_assesses) (rule assess_and_route_stores [OF _ that(2)])
  have committed: ?thesis if "commit_match lib env run po invoice contexts drafts db = (Inr (r, b), db')"
    for run po invoice contexts drafts
    using that
  proof (cases rule: commit_match_cases)
    case stored
    then show ?thesis by (intro assess_and_route_stores [OF stored(4)]) (simp add: stored_db_def)
  next
    case (concurrent c)
    then show ?thesis by (intro found [OF concurrent(3)]) (auto simp: find_existing_def dest: find_row_Some)
  qed
  have existing: ?thesis if "find_existing (gdb_runs db) key fp = Some c" and "ensure_case_for_existing lib env c db = (Inr r, db')" for c key fp
    using that(1) by (intro found [OF that(2)]) (auto simp: find_existing_def dest!: find_row_Some)
  have replay: ?thesis if "find_replay db key fp = Some c" and "ensure_case_for_existing lib env c db = (Inr r, db')" for c key fp
    using that(1) by (intro found [OF that(2)]) (auto simp: find_replay_def find_prior_candidates_def dest!: find_row_Some)
  from assms(1) show ?thesis
  proof (rule match_service_inputs)
    fix po e invoice
    assume "mode = TWO_WAY \<Longrightarrow>
        match_two_way lib env policy (doc, poid, er_id e, mode, mp_version policy) po invoice db = (Inr (r, b), db')"
      and "mode = THREE_WAY \<Longrightarrow>
        match_three_way lib env policy3 (doc, poid, er_id e, mode, tp_version policy3) po invoice db = (Inr (r, b), db')"
    then show ?thesis
      using committed existing replay
      by (cases mode; auto simp: match_two_way_def match_three_way_def replayed_Inr Let_def
          split: option.splits prod.splits sum.splits)
  qed
qed

text \<open>The rest of a case that a match leaves as it is.\<close>

lemma case_match_ran:
  assumes "case_match lib env policy policy3 cid c db = (Inr run, db')" and "me_repaired env = None"
    and "find_row (\<lambda>k. cm_case_id k = cid \<and> cm_idempotency_key k = cmc_idempotency_key c) (kdb_contexts db) = None"
  obtains (replayed) row i k where "db' = db" and "find_payable_case db cid = Some row"
      and "case_inputs_of policy policy3 db cid = Inr i"
      and "find_row (\<lambda>k. cm_case_id k = cid \<and> cm_request_fingerprint k = fingerprint lib (case_context i)) (kdb_contexts db) = Some k"
      and "context_run db k = Inr run" and "pc_version row = cmc_expected_case_version c"
    | (matched) i m where "case_inputs_of policy policy3 db cid = Inr i"
      and "find_row (\<lambda>k. cm_case_id k = cid \<and> cm_request_fingerprint k = fingerprint lib (case_context i)) (kdb_contexts db) = None"
      and "\<exists>b. match_service lib env policy policy3 (cdoc_document_id (ci_invoice i)) (cf_canonical_record_id (ci_po_confirmation i))
          (ci_mode i) (kdb_matching db) = (Inr (run, b), m)"
      and "kdb_matching db' = m" and "kdb_documents db' = kdb_documents db" and "kdb_confirmations db' = kdb_confirmations db"
      and "kdb_contexts db' = kdb_contexts db @ [\<lparr>cm_case_id = cid, cm_match_run_id = mrun_id run, cm_context = case_context i,
        cm_idempotency_key = cmc_idempotency_key c, cm_request_fingerprint = fingerprint lib (case_context i)\<rparr>]"
proof -
  from assms(1,3) obtain row i where row: "find_payable_case db cid = Some row" "pc_version row = cmc_expected_case_version c"
    and i: "case_inputs_of policy policy3 db cid = Inr i"
    by (auto simp: case_match_def case_match_begin_def case_get_def split: option.splits if_splits sum.splits prod.splits)
  show thesis
  proof (cases "find_row (\<lambda>k. cm_case_id k = cid \<and> cm_request_fingerprint k = fingerprint lib (case_context i)) (kdb_contexts db)")
    case (Some k)
    with assms(1,3) row i show thesis
      by (intro replayed [of row i k]; cases "context_run db k") (simp_all add: case_match_def case_match_begin_def case_get_def)
  next
    case None
    obtain res m where run: "match_service lib env policy policy3 (cdoc_document_id (ci_invoice i))
        (cf_canonical_record_id (ci_po_confirmation i)) (ci_mode i) (kdb_matching db) = (res, m)" by fastforce
    show thesis
    proof (cases res)
      case (Inl e)
      with assms(1,3) row i None run show thesis by (simp add: case_match_def case_match_begin_def case_get_def)
    next
      case (Inr x)
      obtain r b where "x = (r, b)" by fastforce
      with Inr assms(1,3) row i None run have
        "case_match_finish lib (me_now env) cid c row False i r (db\<lparr>kdb_matching := m\<rparr>) = (Inr run, db')"
        by (simp add: case_match_def case_match_begin_def case_get_def)
      with row have "r = run" and "kdb_matching db' = m" "kdb_documents db' = kdb_documents db" "kdb_confirmations db' = kdb_confirmations db"
        "kdb_contexts db' = kdb_contexts db @ [\<lparr>cm_case_id = cid, cm_match_run_id = mrun_id run, cm_context = case_context i,
        cm_idempotency_key = cmc_idempotency_key c, cm_request_fingerprint = fingerprint lib (case_context i)\<rparr>]"
        by (auto simp: case_match_finish_def find_payable_case_def Let_def split: if_splits option.splits)
      with matched [OF i None] run Inr \<open>x = (r, b)\<close> show thesis by blast
    qed
  qed
qed

lemma case_inputs_same:
  assumes "kdb_documents db' = kdb_documents db" and "kdb_confirmations db' = kdb_confirmations db"
    and "gdb_extractions (kdb_matching db') = gdb_extractions (kdb_matching db)"
  shows "case_inputs_of policy policy3 db' cid = case_inputs_of policy policy3 db cid"
proof -
  have same: "active_attachment db' = active_attachment db" "confirmation_of db' = confirmation_of db"
    "receipt_confirmations db' = receipt_confirmations db"
    using assms
    by (auto simp: fun_eq_iff active_attachment_def active_in_slot_def confirmation_of_def receipt_confirmations_def
        documents_of_def has_successor_def)
  show ?thesis unfolding case_inputs_of_def assms(3) same ..
qed

text \<open>
  Matching a case is idempotent. Once a match under a new key has returned a run, the same request, and any
  request under another new key that names the current version of the case, returns the run of that
  identifier and changes nothing, so the engines do not run again while the documents stay as they are.
\<close>

theorem case_match_again:
  assumes "case_match lib env policy policy3 cid c db = (Inr run, db')" and "me_repaired env = None"
    and "find_row (\<lambda>k. cm_case_id k = cid \<and> cm_idempotency_key k = cmc_idempotency_key c) (kdb_contexts db) = None"
    and "find_payable_case db' cid = Some row"
    and "cmc_expected_case_version c' = pc_version row"
    and "find_row (\<lambda>k. cm_case_id k = cid \<and> cm_idempotency_key k = cmc_idempotency_key c') (kdb_contexts db') = None"
  shows "\<exists>r. mrun_id r = mrun_id run \<and> case_match lib env' policy policy3 cid c db' = (Inr r, db')
    \<and> case_match lib env' policy policy3 cid c' db' = (Inr r, db')"
  using assms(1-3)
proof (cases rule: case_match_ran)
  case (replayed row' i k)
  have "mrun_id run = cm_match_run_id k"
    using replayed(5) by (auto simp: context_run_def split: option.splits dest: find_row_Some)
  with replayed assms(3-6) show ?thesis
    by (intro exI [of _ run]) (simp add: case_match_def case_match_begin_def case_get_def)
next
  case (matched i m)
  from matched(3) obtain b where run: "match_service lib env policy policy3 (cdoc_document_id (ci_invoice i))
      (cf_canonical_record_id (ci_po_confirmation i)) (ci_mode i) (kdb_matching db) = (Inr (run, b), m)" by blast
  have inputs: "case_inputs_of policy policy3 db' cid = Inr i"
    using case_inputs_same [of db' db] matched match_service_keeps [OF run assms(2)] by simp
  let ?k = "\<lparr>cm_case_id = cid, cm_match_run_id = mrun_id run, cm_context = case_context i,
        cm_idempotency_key = cmc_idempotency_key c, cm_request_fingerprint = fingerprint lib (case_context i)\<rparr>"
  have "mrun_id run \<in> set (map mrun_id (gdb_runs (kdb_matching db')))"
    using match_service_stores [OF run assms(2)] matched(4) by simp
  then obtain r where r: "find_row (\<lambda>x. mrun_id x = mrun_id run) (gdb_runs (kdb_matching db')) = Some r"
    by (cases "find_row (\<lambda>x. mrun_id x = mrun_id run) (gdb_runs (kdb_matching db'))") (auto simp: find_row_None_iff)
  then have "context_run db' ?k = Inr r" "mrun_id r = mrun_id run"
    by (auto simp: context_run_def dest: find_row_Some)
  then show ?thesis
    using matched(2,7) assms(3-6) inputs
    by (intro exI [of _ r]) (simp add: case_match_def case_match_begin_def case_get_def find_row_append)
qed

subsection \<open>Concrete requests\<close>

definition sample_case_lib :: lib where
  "sample_case_lib = sample_lib\<lparr>decimal_json := decimal_str\<rparr>"

definition sample_start :: case_db where
  "sample_start = \<lparr>kdb_cases = [], kdb_documents = [], kdb_support_runs = [], kdb_confirmations = [], kdb_events = [],
     kdb_contexts = [], kdb_ingestion = empty_ingestion_db, kdb_matching = (sample_match_db sample_bolts)\<lparr>gdb_documents := []\<rparr>,
     kdb_support_queue = []\<rparr>"

definition sample_case_db :: case_db where
  "sample_case_db = snd (case_create sample_case_lib None 50 (sample_time 738000) ''k'' sample_start)"

definition sample_attach_env :: "nat \<Rightarrow> ingestion_env" where
  "sample_attach_env n = \<lparr>ui_document_id = n, ui_job_id = n + 1, ui_trace = None, ui_now = sample_time 738000,
     ie_racing = None, ie_put = StoreDone, ie_delete = StoreDone, ie_commit_fails = False, ie_dispatch_fails = False\<rparr>"

definition sample_attach :: "document_role \<Rightarrow> string \<Rightarrow> attach_command" where
  "sample_attach role key = \<lparr>at_case_id = 50, at_role = role, at_idempotency_key = key, at_expected_case_version = 1,
     at_upload = sample_upload\<lparr>up_body := ''%PDF-'' @ key\<rparr>, at_supersedes_id = None\<rparr>"

abbreviation sample_begin_po :: "case_db \<Rightarrow> (case_error, attach_progress) result \<times> case_db" where
  "sample_begin_po \<equiv> attach_begin sample_case_lib (sample_attach_env 1) 100 (sample_attach PURCHASE_ORDER ''po'')"

abbreviation sample_begin_receipt :: "case_db \<Rightarrow> (case_error, attach_progress) result \<times> case_db" where
  "sample_begin_receipt \<equiv> attach_begin sample_case_lib (sample_attach_env 3) 100 (sample_attach GOODS_RECEIPT ''rc'')"

abbreviation sample_finish_po :: "case_db \<Rightarrow> (case_error, case_document \<times> bool) result \<times> case_db" where
  "sample_finish_po \<equiv> attach_finish sample_case_lib 60 (sample_time 738000) False (sample_attach PURCHASE_ORDER ''po'')
     (new_case sample_case_lib 50 (sample_time 738000) ''k'') (new_job (sample_attach_env 1)) False"

abbreviation sample_finish_receipt :: "case_db \<Rightarrow> (case_error, case_document \<times> bool) result \<times> case_db" where
  "sample_finish_receipt \<equiv> attach_finish sample_case_lib 61 (sample_time 738000) False (sample_attach GOODS_RECEIPT ''rc'')
     (new_case sample_case_lib 50 (sample_time 738000) ''k'') (new_job (sample_attach_env 3)) False"

text \<open>Both requests upload before either attaches; then both attach.\<close>

definition po_uploaded :: case_db where
  "po_uploaded = snd (sample_begin_po sample_case_db)"

definition both_uploaded :: case_db where
  "both_uploaded = snd (sample_begin_receipt po_uploaded)"

definition po_attached :: case_db where
  "po_attached = snd (sample_finish_po both_uploaded)"

definition both_attached :: case_db where
  "both_attached = snd (sample_finish_receipt po_attached)"

text \<open>The run, evaluated once.\<close>

lemma sample_run:
  "let db0 = sample_case_db; db1 = snd (sample_begin_po db0); p2 = sample_begin_receipt db1; db2 = snd p2;
       db3 = snd (sample_finish_po db2); p4 = sample_finish_receipt db3; db4 = snd p4
   in fresh_upload (kdb_ingestion db0) (sample_attach_env 1) (at_upload (sample_attach PURCHASE_ORDER ''po''))
    \<and> fresh_upload (kdb_ingestion db1) (sample_attach_env 3) (at_upload (sample_attach GOODS_RECEIPT ''rc''))
    \<and> fst p2 = Inr (Uploaded (new_case sample_case_lib 50 (sample_time 738000) ''k'') (new_job (sample_attach_env 3)) True False)
    \<and> 60 \<notin> set (map cdoc_id (kdb_documents db2))
    \<and> ij_id (new_job (sample_attach_env 1)) \<in> set (map ij_id (idb_jobs (kdb_ingestion db2)))
    \<and> 61 \<notin> set (map cdoc_id (kdb_documents db3))
    \<and> ij_id (new_job (sample_attach_env 3)) \<in> set (map ij_id (idb_jobs (kdb_ingestion db3)))
    \<and> map_option pc_version (find_payable_case db3 50) = Some 2
    \<and> map_sum id (map_prod cdoc_id id) (fst p4) = Inr (61, False)
    \<and> map_sum id (map cdoc_id) (list_documents db4 50) = Inr [60, 61]"
  by code_simp

lemmas sample_facts = sample_run [unfolded Let_def, folded po_uploaded_def, folded both_uploaded_def,
    folded po_attached_def, folded both_attached_def]

lemma sample_start_reachable: "reachable_from case_start (case_step lib) sample_start"
  by (rule reach_start) (simp add: case_start_def sample_start_def ingestion_start_def empty_ingestion_db_def)

lemma sample_reachable:
  "reachable_from case_start (case_step sample_case_lib) sample_case_db"
  "reachable_from case_start (case_step sample_case_lib) po_uploaded"
  "reachable_from case_start (case_step sample_case_lib) both_uploaded"
  "reachable_from case_start (case_step sample_case_lib) po_attached"
  "reachable_from case_start (case_step sample_case_lib) both_attached"
proof -
  show created: "reachable_from case_start (case_step sample_case_lib) sample_case_db"
    unfolding sample_case_db_def
    by (rule reach_step [OF sample_start_reachable create]) (simp_all add: sample_start_def)
  have "fresh_upload (kdb_ingestion sample_case_db) (sample_attach_env 1) (at_upload (sample_attach PURCHASE_ORDER ''po''))"
    using sample_facts by blast
  then show up1: "reachable_from case_start (case_step sample_case_lib) po_uploaded"
    unfolding po_uploaded_def by (rule reach_step [OF created attach1])
  have "fresh_upload (kdb_ingestion po_uploaded) (sample_attach_env 3) (at_upload (sample_attach GOODS_RECEIPT ''rc''))"
    using sample_facts by blast
  then show up2: "reachable_from case_start (case_step sample_case_lib) both_uploaded"
    unfolding both_uploaded_def by (rule reach_step [OF up1 attach1])
  have "60 \<notin> set (map cdoc_id (kdb_documents both_uploaded))"
    "ij_id (new_job (sample_attach_env 1)) \<in> set (map ij_id (idb_jobs (kdb_ingestion both_uploaded)))"
    using sample_facts by blast+
  then show at1: "reachable_from case_start (case_step sample_case_lib) po_attached"
    unfolding po_attached_def by (rule reach_step [OF up2 attach2])
  have "61 \<notin> set (map cdoc_id (kdb_documents po_attached))"
    "ij_id (new_job (sample_attach_env 3)) \<in> set (map ij_id (idb_jobs (kdb_ingestion po_attached)))"
    using sample_facts by blast+
  then show "reachable_from case_start (case_step sample_case_lib) both_attached"
    unfolding both_attached_def by (rule reach_step [OF at1 attach2])
qed

theorem attach_version_overwritten_witness:
  "map_option pc_version (find_payable_case po_attached 50) = Some 2
   \<and> map_option pc_version (find_payable_case both_attached 50) = Some 2"
proof -
  obtain db1 where begun: "sample_begin_receipt po_uploaded
      = (Inr (Uploaded (new_case sample_case_lib 50 (sample_time 738000) ''k'') (new_job (sample_attach_env 3)) True False), db1)"
    using sample_facts by (metis prod.collapse)
  have "map_sum id (map_prod cdoc_id id) (fst (sample_finish_receipt po_attached)) = Inr (61, False)"
    and version: "map_option pc_version (find_payable_case po_attached 50) = Some 2" using sample_facts by blast+
  then obtain a where "sample_finish_receipt po_attached = (Inr (a, False), both_attached)"
    unfolding both_attached_def
    by (cases "sample_finish_receipt po_attached"; cases "fst (sample_finish_receipt po_attached)") auto
  with attach_version_overwritten [OF begun, of 61 "sample_time 738000" False po_attached] version
  show ?thesis by (auto simp: sample_attach_def)
qed

theorem case_documents_sound_witness:
  "\<exists>ds. list_documents both_attached 50 = Inr ds \<and> map cdoc_attachment_order ds = [1..<Suc (length ds)] \<and> length ds = 2"
proof -
  have "map_sum id (map cdoc_id) (list_documents both_attached 50) = Inr [60, 61]" using sample_facts by blast
  then obtain ds where ds: "list_documents both_attached 50 = Inr ds" "map cdoc_id ds = [60, 61]"
    by (cases "list_documents both_attached 50") auto
  then have "length ds = 2" by (metis length_map length_Cons list.size(3) numeral_2_eq_2)
  with ds case_documents_sound [OF sample_reachable(5) ds(1)] show ?thesis by blast
qed

definition serial_attached :: case_db where
  "serial_attached = snd (attach sample_case_lib (sample_attach_env 1) 100 60 (sample_attach PURCHASE_ORDER ''po'') sample_case_db)"

definition sample_extracted_po :: extracted_po where
  "sample_extracted_po = \<lparr>xpo_po_number = seen ''PO-9'', xpo_issue_date = seen 737000, xpo_vendor = seen ''Acme'',
     xpo_buyer = seen ''Shop'', xpo_currency = seen ''EUR'', xpo_subtotal = seen (Scaled 10 0), xpo_tax = seen (Scaled 0 0),
     xpo_total = seen (Scaled 10 0),
     xpo_line_items = [\<lparr>xpl_line_number = seen ''1'', xpl_description = seen ''bolt'', xpl_ordered_quantity = seen (Scaled 20 (-1)),
       xpl_unit_price = seen (Scaled 5 0), xpl_line_total = seen (Scaled 10 0)\<rparr>]\<rparr>"

definition sample_po_run :: supporting_run where
  "sample_po_run = \<lparr>spr_id = 70, spr_document_id = 1, spr_role = PURCHASE_ORDER,
     spr_extractor_name = fst SUPPORTING_EXTRACTOR, spr_extractor_version = snd SUPPORTING_EXTRACTOR,
     spr_status = SUPPORTING_SUCCEEDED, spr_output = Some (OutputPO sample_extracted_po), spr_created_at = sample_time 738000\<rparr>"

definition sample_po_values :: po_values where
  "sample_po_values = \<lparr>pv_order = \<lparr>poc_external_po_number = ''PO-9'', poc_vendor_name = Some ''Acme'', poc_currency = ''EUR'',
       poc_lines = [\<lparr>plc_line_number = ''1'', plc_description = ''bolt'', plc_ordered_quantity = Scaled 2 0,
         plc_unit_price = Scaled 5 0, plc_line_total = Some (Scaled 100 (-1))\<rparr>]\<rparr>,
     pv_issue_date = Some 737000, pv_buyer_name = Some ''Shop'', pv_subtotal = Some (Scaled 10 0), pv_tax = Some (Scaled 0 0),
     pv_total = Some (Scaled 10 0), pv_amount_provided = [True]\<rparr>"

definition sample_confirmation :: "string \<Rightarrow> nat \<Rightarrow> po_confirmation" where
  "sample_confirmation key version = \<lparr>pcc_expected_case_version = version, pcc_extraction_run_id = 70,
     pcc_extractor_version = snd SUPPORTING_EXTRACTOR, pcc_confirmed = sample_po_values, pcc_correction_reason = None,
     pcc_idempotency_key = Some key\<rparr>"

abbreviation sample_confirm :: "string \<Rightarrow> nat \<Rightarrow> case_db \<Rightarrow> (case_error, case_confirmation) result \<times> case_db" where
  "sample_confirm key version \<equiv> confirm_purchase_order sample_case_lib (\<lambda>k. 80 + k) (sample_time 738001) 50 (sample_confirmation key version)"

definition po_extracted :: case_db where
  "po_extracted = serial_attached\<lparr>kdb_support_runs := [sample_po_run], kdb_matching := kdb_matching serial_attached\<rparr>"

definition po_confirmed :: case_db where
  "po_confirmed = snd (sample_confirm ''c1'' 2 po_extracted)"

definition sample_active_po :: case_document where
  "sample_active_po = the (active_in_slot po_confirmed 50 PURCHASE_ORDER)"

lemma sample_confirm_run:
  "let p1 = attach sample_case_lib (sample_attach_env 1) 100 60 (sample_attach PURCHASE_ORDER ''po'') sample_case_db; db1 = snd p1;
       db2 = db1\<lparr>kdb_support_runs := [sample_po_run], kdb_matching := kdb_matching db1\<rparr>;
       p3 = sample_confirm ''c1'' 2 db2; db3 = snd p3; a = the (active_in_slot db3 50 PURCHASE_ORDER)
   in map_sum id (map_prod cdoc_id id) (fst p1) = Inr (60, False)
    \<and> kdb_contexts db1 = [] \<and> kdb_confirmations db2 = [] \<and> map_sum id cf_id (fst p3) = Inr 80
    \<and> active_in_slot db3 50 PURCHASE_ORDER = Some a
    \<and> confirmation_of db3 (cdoc_id a) \<noteq> None
    \<and> find_row (\<lambda>g. cf_case_id g = 50 \<and> cf_idempotency_key g = Some ''c2'') (kdb_confirmations db3) = None
    \<and> map_option pc_version (find_payable_case db3 50) = Some 3
    \<and> support_run db3 a 70 (snd SUPPORTING_EXTRACTOR) = Inr (OutputPO sample_extracted_po)
    \<and> po_corrected_fields sample_case_lib sample_extracted_po sample_po_values = []"
  by code_simp

lemmas sample_confirm_facts = sample_confirm_run [unfolded Let_def, folded serial_attached_def, folded po_extracted_def,
    folded po_confirmed_def, folded sample_active_po_def]

lemma fst_Inr_obtain:
  assumes "map_sum id f (fst p) = Inr y"
  obtains x where "p = (Inr x, snd p)" and "f x = y"
  using assms by (cases p; cases "fst p") auto

lemma sample_serial_attach:
  obtains a where "attach sample_case_lib (sample_attach_env 1) 100 60 (sample_attach PURCHASE_ORDER ''po'') sample_case_db
    = (Inr (a, False), serial_attached)"
proof -
  have "map_sum id (map_prod cdoc_id id)
      (fst (attach sample_case_lib (sample_attach_env 1) 100 60 (sample_attach PURCHASE_ORDER ''po'') sample_case_db)) = Inr (60, False)"
    using sample_confirm_facts by blast
  then show ?thesis
    by (rule fst_Inr_obtain) (use that serial_attached_def in auto)
qed

lemma sample_first_confirmation:
  obtains f where "sample_confirm ''c1'' 2 po_extracted = (Inr f, po_confirmed)" and "f \<notin> set (kdb_confirmations po_extracted)"
proof -
  have "map_sum id cf_id (fst (sample_confirm ''c1'' 2 po_extracted)) = Inr 80" and "kdb_confirmations po_extracted = []"
    using sample_confirm_facts by blast+
  then show ?thesis using that po_confirmed_def by (metis fst_Inr_obtain list.set(1) empty_iff)
qed

theorem case_versions_serial_witness:
  "case_match sample_case_lib (sample_env 0) default_policy default_three_way_policy 50
     \<lparr>cmc_expected_case_version = 1, cmc_idempotency_key = ''m''\<rparr> serial_attached
   = (Inl (CaseConflictError ''STALE_CASE_VERSION''), serial_attached)"
proof -
  have "kdb_contexts serial_attached = []" using sample_confirm_facts by blast
  then have none: "find_row (\<lambda>k. cm_case_id k = 50 \<and> cm_idempotency_key k = ''m'') (kdb_contexts serial_attached) = None" by simp
  obtain a where "attach sample_case_lib (sample_attach_env 1) 100 60 (sample_attach PURCHASE_ORDER ''po'') sample_case_db
    = (Inr (a, False), serial_attached)" by (rule sample_serial_attach)
  from case_versions_serial [OF this] none show ?thesis
    by (auto simp: sample_attach_def)
qed

lemma po_extracted_reachable: "reachable_from case_start (case_step sample_case_lib) po_extracted"
proof -
  have "fresh_upload (kdb_ingestion sample_case_db) (sample_attach_env 1) (at_upload (sample_attach PURCHASE_ORDER ''po''))"
    using sample_facts by blast
  moreover have "kdb_documents sample_case_db = []"
    by (simp add: sample_case_db_def case_create_def sample_start_def create_raced_def insert_case_def Let_def)
  ultimately have "reachable_from case_start (case_step sample_case_lib) serial_attached"
    unfolding serial_attached_def by (intro attach_reachable sample_reachable(1)) simp_all
  then show ?thesis unfolding po_extracted_def by (rule reach_step) (rule others)
qed

theorem confirm_without_reason_is_extracted_witness:
  "order_agrees sample_extracted_po sample_po_values
   \<and> purchase_order_row sample_case_lib (\<lambda>k. 80 + Suc k) (sample_time 738001) (pv_order sample_po_values)
     \<in> set (gdb_orders (kdb_matching po_confirmed))"
proof -
  obtain f where f: "sample_confirm ''c1'' 2 po_extracted = (Inr f, po_confirmed)" "f \<notin> set (kdb_confirmations po_extracted)"
    by (rule sample_first_confirmation)
  have "decimal_json_str sample_case_lib" by (simp add: decimal_json_str_def sample_case_lib_def)
  from confirm_without_reason_is_extracted [OF this _ f]
  obtain a x where "support_run po_extracted a 70 (snd SUPPORTING_EXTRACTOR) = Inr (OutputPO x)"
    and agrees: "order_agrees x sample_po_values"
    and stored: "purchase_order_row sample_case_lib (\<lambda>k. 80 + Suc k) (sample_time 738001) (pv_order sample_po_values)
      \<in> set (gdb_orders (kdb_matching po_confirmed))"
    by (auto simp: sample_confirmation_def sample_po_values_def truthy_def totals_named_def)
  moreover from this(1) have "x = sample_extracted_po"
    by (auto simp: support_run_def po_extracted_def sample_po_run_def split: option.splits if_splits)
  ultimately show ?thesis by simp
qed

theorem confirm_ready_iff_complete_witness:
  "\<exists>row. find_payable_case po_confirmed 50 = Some row \<and> pc_version row = 3
    \<and> (pc_status row = READY_TO_MATCH \<or> pc_status row = NEEDS_CONFIRMATION)"
proof -
  obtain f where f: "sample_confirm ''c1'' 2 po_extracted = (Inr f, po_confirmed)" "f \<notin> set (kdb_confirmations po_extracted)"
    by (rule sample_first_confirmation)
  from confirm_ready_iff_complete [OF po_extracted_reachable f] show ?thesis
    by (fastforce simp: sample_confirmation_def split: if_splits)
qed

theorem second_confirmation_integrity_error_witness:
  "sample_confirm ''c2'' 3 po_confirmed = (Inl CaseIntegrityError, po_confirmed)"
proof -
  from sample_confirm_facts obtain f row where
    "active_in_slot po_confirmed 50 PURCHASE_ORDER = Some sample_active_po"
    "confirmation_of po_confirmed (cdoc_id sample_active_po) = Some f"
    "find_row (\<lambda>g. cf_case_id g = 50 \<and> cf_idempotency_key g = Some ''c2'') (kdb_confirmations po_confirmed) = None"
    "find_payable_case po_confirmed 50 = Some row" "pc_version row = 3"
    "support_run po_confirmed sample_active_po 70 (snd SUPPORTING_EXTRACTOR) = Inr (OutputPO sample_extracted_po)"
    "po_corrected_fields sample_case_lib sample_extracted_po sample_po_values = []"
    by auto
  then show ?thesis
    by (intro second_confirmation_integrity_error [where a = sample_active_po and f = f and row = row and x = sample_extracted_po])
      (simp_all add: sample_confirmation_def)
qed

text \<open>A case with an invoice, a confirmed purchase order and a confirmed receipt.\<close>

definition sample_document :: "uuid \<Rightarrow> uuid \<Rightarrow> document_role \<Rightarrow> nat \<Rightarrow> case_document" where
  "sample_document aid doc role order = \<lparr>cdoc_id = aid, cdoc_case_id = 50, cdoc_document_id = doc, cdoc_role = role,
     cdoc_attachment_order = order, cdoc_active_slot = slot_of role, cdoc_supersedes_id = None,
     cdoc_idempotency_key = uuid_text aid, cdoc_request_fingerprint = ''f'', cdoc_created_at = sample_time 738000\<rparr>"

definition sample_confirmed :: "uuid \<Rightarrow> uuid \<Rightarrow> string \<Rightarrow> uuid \<Rightarrow> case_confirmation" where
  "sample_confirmed i aid kind canonical = \<lparr>cf_id = i, cf_case_id = 50, cf_case_document_id = aid, cf_extraction_run_id = 70,
     cf_extractor_version = snd SUPPORTING_EXTRACTOR, cf_canonical_record_type = kind, cf_canonical_record_id = canonical,
     cf_confirmed = JNull, cf_corrected_fields = [], cf_correction_reason = None, cf_idempotency_key = Some (uuid_text i),
     cf_request_fingerprint = ''f'', cf_created_at = sample_time 738000\<rparr>"

definition ready_case_db :: case_db where
  "ready_case_db = sample_start\<lparr>kdb_cases := [(new_case sample_lib 50 (sample_time 738000) ''k'')\<lparr>pc_status := READY_TO_MATCH\<rparr>],
     kdb_documents := [sample_document 60 1 PURCHASE_ORDER 1, sample_document 61 2 GOODS_RECEIPT 2, sample_document 62 3 INVOICE 3],
     kdb_confirmations := [sample_confirmed 80 60 ''PURCHASE_ORDER'' 7, sample_confirmed 81 61 ''GOODS_RECEIPT'' 9],
     kdb_matching := sample_match_db sample_bolts\<rparr>"

abbreviation sample_case_match :: "nat \<Rightarrow> string \<Rightarrow> nat \<Rightarrow> case_db \<Rightarrow> (case_error, match_run) result \<times> case_db" where
  "sample_case_match n key version \<equiv> case_match sample_lib (sample_env n) default_policy default_three_way_policy 50
     \<lparr>cmc_expected_case_version = version, cmc_idempotency_key = key\<rparr>"

lemma sample_document_sel [simp]:
  "cdoc_id (sample_document a d r n) = a" "cdoc_document_id (sample_document a d r n) = d"
  "cdoc_case_id (sample_document a d r n) = 50" "cdoc_role (sample_document a d r n) = r"
  "cdoc_active_slot (sample_document a d r n) = slot_of r" "cdoc_supersedes_id (sample_document a d r n) = None"
  by (simp_all add: sample_document_def)

lemma sample_confirmed_sel [simp]:
  "cf_canonical_record_id (sample_confirmed i a k c) = c" "cf_canonical_record_type (sample_confirmed i a k c) = k"
  "cf_case_document_id (sample_confirmed i a k c) = a" "cf_id (sample_confirmed i a k c) = i"
  by (simp_all add: sample_confirmed_def)

lemma ready_case_inputs:
  obtains i where "case_inputs_of default_policy default_three_way_policy ready_case_db 50 = Inr i" and "ci_mode i = THREE_WAY"
    and "cdoc_document_id (ci_invoice i) = 3" and "cf_canonical_record_id (ci_po_confirmation i) = 7"
proof -
  have "gdb_extractions (kdb_matching ready_case_db) = [sample_extraction sample_bolts]"
    by (simp add: ready_case_db_def sample_match_db_def)
  moreover have "active_attachment ready_case_db 50 INVOICE = Inr (sample_document 62 3 INVOICE 3)"
    "active_attachment ready_case_db 50 PURCHASE_ORDER = Inr (sample_document 60 1 PURCHASE_ORDER 1)"
    "confirmation_of ready_case_db 60 = Some (sample_confirmed 80 60 ''PURCHASE_ORDER'' 7)"
    "receipt_confirmations ready_case_db 50 = [sample_confirmed 81 61 ''GOODS_RECEIPT'' 9]"
    by (simp_all add: active_attachment_def active_in_slot_def confirmation_of_def receipt_confirmations_def ready_case_db_def
        slot_of_def documents_of_def has_successor_def)
  ultimately have "case_inputs_of default_policy default_three_way_policy ready_case_db 50
      = Inr \<lparr>ci_mode = THREE_WAY, ci_policy_version = tp_version default_three_way_policy,
          ci_invoice = sample_document 62 3 INVOICE 3, ci_invoice_run = sample_extraction sample_bolts,
          ci_po = sample_document 60 1 PURCHASE_ORDER 1, ci_po_confirmation = sample_confirmed 80 60 ''PURCHASE_ORDER'' 7,
          ci_receipts = [sample_confirmed 81 61 ''GOODS_RECEIPT'' 9]\<rparr>"
    by (simp add: case_inputs_of_def sample_current_extraction Let_def)
  then show ?thesis by (rule that) simp_all
qed

theorem case_match_again_witness:
  "\<exists>run r db'. sample_case_match 0 ''m1'' 1 ready_case_db = (Inr run, db') \<and> mrun_id r = mrun_id run
     \<and> sample_case_match 1 ''m1'' 1 db' = (Inr r, db') \<and> sample_case_match 1 ''m2'' 2 db' = (Inr r, db')"
proof -
  obtain i where i: "case_inputs_of default_policy default_three_way_policy ready_case_db 50 = Inr i" "ci_mode i = THREE_WAY"
    "cdoc_document_id (ci_invoice i) = 3" "cf_canonical_record_id (ci_po_confirmation i) = 7" by (rule ready_case_inputs)
  obtain run m where m: "sample_match 0 (sample_match_db sample_bolts) = (Inr (run, True), m)" by (rule sample_match_created)
  let ?row = "(new_case sample_lib 50 (sample_time 738000) ''k'')\<lparr>pc_status := READY_TO_MATCH\<rparr>"
  have ready: "find_payable_case ready_case_db 50 = Some ?row" "kdb_contexts ready_case_db = []" "pc_version ?row = 1"
    "pc_id ?row = 50" "kdb_matching ready_case_db = sample_match_db sample_bolts"
    by (simp_all add: ready_case_db_def find_payable_case_def new_case_def sample_start_def)
  let ?fin = "case_match_finish sample_lib (me_now (sample_env 0)) 50 \<lparr>cmc_expected_case_version = 1, cmc_idempotency_key = ''m1''\<rparr>
      ?row False i run (ready_case_db\<lparr>kdb_matching := m\<rparr>)"
  have fin: "sample_case_match 0 ''m1'' 1 ready_case_db = ?fin"
    using i m ready by (simp add: case_match_def case_match_begin_def case_get_def)
  have found: "find_payable_case (ready_case_db\<lparr>kdb_matching := m\<rparr>) 50 = Some ?row"
    using ready(1) by (simp add: find_payable_case_def)
  then have ran: "?fin = (Inr run, snd ?fin)" and ctx: "map cm_idempotency_key (kdb_contexts (snd ?fin)) = [''m1'']"
    and cases: "kdb_cases (snd ?fin) = write_case (me_now (sample_env 0)) ?row
      (case_status_of (ready_case_db\<lparr>kdb_matching := m\<rparr>) run) (kdb_cases (ready_case_db\<lparr>kdb_matching := m\<rparr>))"
    using ready(2) by (simp_all add: case_match_finish_def Let_def)
  note row = find_written_case [OF found ready(4) cases]
  have "find_row (\<lambda>k. cm_case_id k = 50 \<and> cm_idempotency_key k = ''m2'') (kdb_contexts (snd ?fin)) = None"
    using ctx by (cases "kdb_contexts (snd ?fin)") auto
  moreover have "find_row (\<lambda>k. cm_case_id k = 50 \<and> cm_idempotency_key k = ''m1'') (kdb_contexts ready_case_db) = None"
    using ready(2) by simp
  ultimately obtain r where "mrun_id r = mrun_id run" "sample_case_match 1 ''m1'' 1 (snd ?fin) = (Inr r, snd ?fin)"
    "sample_case_match 1 ''m2'' 2 (snd ?fin) = (Inr r, snd ?fin)"
    using case_match_again [OF trans [OF fin ran] _ _ row, of "\<lparr>cmc_expected_case_version = 2, cmc_idempotency_key = ''m2''\<rparr>" "sample_env 1"]
      ready(3) by (auto simp: sample_env_def flush_case_def)
  with trans [OF fin ran] show ?thesis by blast
qed

end
