(* ===== verification/Access.thy ===== *)
theory Access
  imports Canonical
begin

text \<open>
  Authentication (\<^verbatim>\<open>invoiceops/auth.py\<close>) and the authorization of every API request
  (\<^verbatim>\<open>apps/api/security.py\<close>). The functions of \<^verbatim>\<open>jwt\<close> and the answers of the identity provider are the
  record \<open>idp\<close>; the verifier's key cache is explicit state, with the requests it has sent.
\<close>

subsection \<open>Principals\<close>

datatype role = OPERATOR | REVIEWER | AUDITOR | ADMIN

definition role_of_text :: "string \<Rightarrow> role option" where
  "role_of_text s = map_of [(''operator'', OPERATOR), (''reviewer'', REVIEWER), (''auditor'', AUDITOR), (''admin'', ADMIN)] s"

record principal =
  pr_subject :: string
  pr_roles :: "role list"

datatype auth_error = TokenRejected | IdentityProviderUnavailable

subsection \<open>URIs\<close>

text \<open>The parts of \<^verbatim>\<open>urllib.parse.urlparse\<close> that are read.\<close>

record parsed_uri =
  uri_scheme :: string
  uri_netloc :: string
  uri_fragment :: string

definition is_scheme_char :: "char \<Rightarrow> bool" where
  "is_scheme_char c \<longleftrightarrow> is_alnum c \<or> c \<in> set ''+-.''"

definition urlparse :: "string \<Rightarrow> parsed_uri" where
  "urlparse s =
     (let pre = takeWhile (\<lambda>c. c \<noteq> CHR '':'') s;
          has = (pre \<noteq> [] \<and> length pre < length s \<and> (is_upper (hd pre) \<or> is_lower (hd pre)) \<and> list_all is_scheme_char pre);
          rest = (if has then drop (Suc (length pre)) s else s);
          host = (if starts_with ''//'' rest then takeWhile (\<lambda>c. c \<notin> set ''/?#'') (drop 2 rest) else []);
          tail = (if starts_with ''//'' rest then drop (2 + length host) rest else rest)
      in \<lparr>uri_scheme = (if has then py_casefold pre else []), uri_netloc = host,
          uri_fragment = drop 1 (dropWhile (\<lambda>c. c \<noteq> CHR ''#'') tail)\<rparr>)"

text \<open>\<^verbatim>\<open>rpartition("@")\<close>: what stands before the last separator, and what stands after it.\<close>

definition user_info :: "string \<Rightarrow> string option" where
  "user_info netloc =
     (if CHR ''@'' \<in> set netloc then Some (rev (drop 1 (dropWhile (\<lambda>c. c \<noteq> CHR ''@'') (rev netloc)))) else None)"

definition host_info :: "string \<Rightarrow> string" where
  "host_info netloc = rev (takeWhile (\<lambda>c. c \<noteq> CHR ''@'') (rev netloc))"

definition uri_hostname :: "parsed_uri \<Rightarrow> string" where
  "uri_hostname u =
     (let h = host_info (uri_netloc u); br = dropWhile (\<lambda>c. c \<noteq> CHR ''['') h
      in if br \<noteq> [] then takeWhile (\<lambda>c. c \<noteq> CHR '']'') (tl br) else takeWhile (\<lambda>c. c \<noteq> CHR '':'') h)"

definition uri_username :: "parsed_uri \<Rightarrow> string" where
  "uri_username u = (case user_info (uri_netloc u) of None \<Rightarrow> [] | Some i \<Rightarrow> takeWhile (\<lambda>c. c \<noteq> CHR '':'') i)"

definition uri_password :: "parsed_uri \<Rightarrow> string" where
  "uri_password u = (case user_info (uri_netloc u) of None \<Rightarrow> [] | Some i \<Rightarrow> drop 1 (dropWhile (\<lambda>c. c \<noteq> CHR '':'') i))"

subsection \<open>Verification of tokens\<close>

text \<open>
  \<open>None\<close> stands for the exceptions the code catches: \<^verbatim>\<open>PyJWTError\<close> of the header, of the key and of the
  decoder, and \<^verbatim>\<open>HTTPError\<close> or an invalid body for a request. The answer to a request depends on the number
  of requests sent before, so that the provider can change its keys; the requests are logged with their answers.
\<close>

record 'k idp =
  unverified_header :: "string \<Rightarrow> (string \<times> json) list option"
  jwt_decode :: "'k \<Rightarrow> string \<Rightarrow> string \<Rightarrow> string \<Rightarrow> (string \<times> json) list option"
  http_get :: "nat \<Rightarrow> string \<Rightarrow> json option"
  jwk_key :: "(string \<times> json) list \<Rightarrow> 'k option"

record oidc_settings =
  os_issuer :: string
  os_audience :: string
  os_roles_claim :: string
  os_ttl_seconds :: int

record 'k verifier =
  ov_keys :: "(string \<times> 'k) list"
  ov_expires_at :: int
  ov_jwks_uri :: "string option"
  ov_requests :: "(string \<times> json option) list"

definition trusted_uri :: "oidc_settings \<Rightarrow> string \<Rightarrow> bool" where
  "trusted_uri s v =
     (let parsed = urlparse v; issuer = urlparse (os_issuer s) in
      (uri_scheme parsed = ''https'' \<or> uri_scheme issuer = ''http'' \<and> uri_scheme parsed = ''http'')
      \<and> uri_hostname parsed \<noteq> [] \<and> uri_username parsed = [] \<and> uri_password parsed = [] \<and> uri_fragment parsed = [])"

definition discovery_url :: "oidc_settings \<Rightarrow> string" where
  "discovery_url s = rev (dropWhile (\<lambda>c. c = CHR ''/'') (rev (os_issuer s))) @ ''/.well-known/openid-configuration''"

definition discovered_uri :: "oidc_settings \<Rightarrow> json \<Rightarrow> string option" where
  "discovered_uri s metadata =
     (case metadata of
        JObj flds \<Rightarrow>
          if map_of flds ''issuer'' \<noteq> Some (JStr (os_issuer s)) then None
          else (case map_of flds ''jwks_uri'' of
                  Some (JStr uri) \<Rightarrow> if trusted_uri s uri then Some uri else None
                | _ \<Rightarrow> None)
      | _ \<Rightarrow> None)"

definition signing_kid :: "(string \<times> json) list \<Rightarrow> string option" where
  "signing_kid item =
     (case map_of item ''kid'' of
        Some (JStr kid) \<Rightarrow>
          if map_of item ''kty'' = Some (JStr ''RSA'')
             \<and> map_of item ''use'' \<in> {None, Some (JStr ''sig'')} \<and> map_of item ''alg'' \<in> {None, Some (JStr ''RS256'')}
          then Some kid else None
      | _ \<Rightarrow> None)"

text \<open>The keys of a key set; a later key of the same identifier replaces the earlier one.\<close>

fun collect_keys :: "'k idp \<Rightarrow> json list \<Rightarrow> (string \<times> 'k) list \<Rightarrow> (string \<times> 'k) list option" where
  "collect_keys p [] keys = Some keys"
| "collect_keys p (JObj item # items) keys =
     (case signing_kid item of
        None \<Rightarrow> collect_keys p items keys
      | Some kid \<Rightarrow> (case jwk_key p item of None \<Rightarrow> None | Some k \<Rightarrow> collect_keys p items (dict_put kid k keys)))"
| "collect_keys p (_ # items) keys = collect_keys p items keys"

definition read_jwks :: "'k idp \<Rightarrow> json \<Rightarrow> (string \<times> 'k) list option" where
  "read_jwks p data =
     (case data of
        JObj flds \<Rightarrow>
          (case map_of flds ''keys'' of
             Some (JArr items) \<Rightarrow>
               if 50 < length items then None
               else (case collect_keys p items [] of None \<Rightarrow> None | Some keys \<Rightarrow> if keys = [] then None else Some keys)
           | _ \<Rightarrow> None)
      | _ \<Rightarrow> None)"

definition send_get :: "'k idp \<Rightarrow> string \<Rightarrow> 'k verifier \<Rightarrow> json option \<times> 'k verifier" where
  "send_get p url v =
     (let answer = http_get p (length (ov_requests v)) url
      in (answer, v\<lparr>ov_requests := ov_requests v @ [(url, answer)]\<rparr>))"

text \<open>\<^verbatim>\<open>_refresh\<close>: whether it succeeded. The address of the key set is kept once it is known.\<close>

definition refresh_keys :: "'k idp \<Rightarrow> oidc_settings \<Rightarrow> int \<Rightarrow> string \<Rightarrow> 'k verifier \<Rightarrow> bool \<times> 'k verifier" where
  "refresh_keys p s now uri v =
     (case send_get p uri v of
        (None, v1) \<Rightarrow> (False, v1)
      | (Some data, v1) \<Rightarrow>
          (case read_jwks p data of
             None \<Rightarrow> (False, v1)
           | Some keys \<Rightarrow> (True, v1\<lparr>ov_keys := keys, ov_expires_at := now + os_ttl_seconds s\<rparr>)))"

definition refresh :: "'k idp \<Rightarrow> oidc_settings \<Rightarrow> int \<Rightarrow> 'k verifier \<Rightarrow> bool \<times> 'k verifier" where
  "refresh p s now v =
     (case ov_jwks_uri v of
        Some uri \<Rightarrow> refresh_keys p s now uri v
      | None \<Rightarrow>
          (case send_get p (discovery_url s) v of
             (None, v1) \<Rightarrow> (False, v1)
           | (Some metadata, v1) \<Rightarrow>
               (case discovered_uri s metadata of
                  None \<Rightarrow> (False, v1)
                | Some uri \<Rightarrow> refresh_keys p s now uri (v1\<lparr>ov_jwks_uri := Some uri\<rparr>))))"

definition key_for ::
  "'k idp \<Rightarrow> oidc_settings \<Rightarrow> int \<Rightarrow> string \<Rightarrow> 'k verifier \<Rightarrow> (auth_error, 'k option) result \<times> 'k verifier" where
  "key_for p s now kid v =
     (let (ok, v1) = (if ov_expires_at v \<le> now then refresh p s now v else (True, v)) in
      if \<not> ok then (Inl IdentityProviderUnavailable, v1)
      else case map_of (ov_keys v1) kid of
             Some key \<Rightarrow> (Inr (Some key), v1)
           | None \<Rightarrow>
               (case refresh p s now v1 of
                  (False, v2) \<Rightarrow> (Inl IdentityProviderUnavailable, v2)
                | (True, v2) \<Rightarrow> (Inr (map_of (ov_keys v2) kid), v2)))"

definition read_roles :: "json list \<Rightarrow> role list option" where
  "read_roles vs =
     (let texts = List.map_filter (\<lambda>v. case v of JStr t \<Rightarrow> Some t | _ \<Rightarrow> None) vs;
          known = List.map_filter role_of_text texts
      in if length known \<noteq> length texts \<or> length (remdups known) \<noteq> length vs \<or> known = [] then None
         else Some (remdups known))"

definition read_principal :: "oidc_settings \<Rightarrow> (string \<times> json) list \<Rightarrow> principal option" where
  "read_principal s claims =
     (case (map_of claims ''sub'', map_of claims (os_roles_claim s)) of
        (Some (JStr subject), Some (JArr vs)) \<Rightarrow>
          if py_strip subject = [] \<or> 100 < length subject \<or> vs = [] then None
          else map_option (\<lambda>roles. \<lparr>pr_subject = subject, pr_roles = roles\<rparr>) (read_roles vs)
      | _ \<Rightarrow> None)"

definition verify_token ::
  "'k idp \<Rightarrow> oidc_settings \<Rightarrow> int \<Rightarrow> string \<Rightarrow> 'k verifier \<Rightarrow> (auth_error, principal) result \<times> 'k verifier" where
  "verify_token p s now token v =
     (if 16384 < length token then (Inl TokenRejected, v)
      else case unverified_header p token of
             None \<Rightarrow> (Inl TokenRejected, v)
           | Some header \<Rightarrow>
               if map_of header ''alg'' \<noteq> Some (JStr ''RS256'') then (Inl TokenRejected, v)
               else (case map_of header ''kid'' of
                       Some (JStr kid) \<Rightarrow>
                         if kid = [] \<or> 256 < length kid then (Inl TokenRejected, v)
                         else (case key_for p s now kid v of
                                 (Inl e, v1) \<Rightarrow> (Inl e, v1)
                               | (Inr None, v1) \<Rightarrow> (Inl TokenRejected, v1)
                               | (Inr (Some key), v1) \<Rightarrow>
                                   (case jwt_decode p key (os_issuer s) (os_audience s) token of
                                      None \<Rightarrow> (Inl TokenRejected, v1)
                                    | Some claims \<Rightarrow>
                                        (case read_principal s claims of
                                           None \<Rightarrow> (Inl TokenRejected, v1) | Some pr \<Rightarrow> (Inr pr, v1))))
                     | _ \<Rightarrow> (Inl TokenRejected, v)))"

subsection \<open>Authorization of requests\<close>

definition READ_ROLES :: "role list" where "READ_ROLES = [OPERATOR, REVIEWER, AUDITOR, ADMIN]"
definition OPERATION_ROLES :: "role list" where "OPERATION_ROLES = [OPERATOR, REVIEWER, ADMIN]"
definition REVIEW_ROLES :: "role list" where "REVIEW_ROLES = [REVIEWER, ADMIN]"
definition REVIEW_READ_ROLES :: "role list" where "REVIEW_READ_ROLES = [REVIEWER, AUDITOR, ADMIN]"

definition ROUTE_ROLES :: "((string \<times> string) \<times> role list) list" where
  "ROUTE_ROLES =
     [((''GET'', ''/v1/me''), READ_ROLES),
      ((''POST'', ''/v1/cases''), OPERATION_ROLES),
      ((''GET'', ''/v1/cases/{case_id}''), READ_ROLES),
      ((''POST'', ''/v1/cases/{case_id}/documents''), OPERATION_ROLES),
      ((''GET'', ''/v1/cases/{case_id}/documents''), READ_ROLES),
      ((''GET'', ''/v1/cases/{case_id}/extractions''), READ_ROLES),
      ((''GET'', ''/v1/cases/{case_id}/events''), READ_ROLES),
      ((''POST'', ''/v1/cases/{case_id}/purchase-order/confirm''), REVIEW_ROLES),
      ((''POST'', ''/v1/cases/{case_id}/receipts/{document_id}/confirm''), REVIEW_ROLES),
      ((''POST'', ''/v1/cases/{case_id}/match''), OPERATION_ROLES),
      ((''POST'', ''/v1/invoices''), OPERATION_ROLES),
      ((''GET'', ''/v1/invoices''), READ_ROLES),
      ((''GET'', ''/v1/invoices/{document_id}''), READ_ROLES),
      ((''GET'', ''/v1/documents/{document_id}/content''), READ_ROLES),
      ((''GET'', ''/v1/dashboard/summary''), READ_ROLES),
      ((''GET'', ''/v1/jobs/{job_id}''), READ_ROLES),
      ((''GET'', ''/v1/jobs/{job_id}/events''), READ_ROLES),
      ((''GET'', ''/v1/invoices/{document_id}/extraction''), READ_ROLES),
      ((''POST'', ''/v1/purchase-orders''), OPERATION_ROLES),
      ((''GET'', ''/v1/purchase-orders''), READ_ROLES),
      ((''GET'', ''/v1/purchase-orders/{purchase_order_id}''), READ_ROLES),
      ((''POST'', ''/v1/goods-receipts''), OPERATION_ROLES),
      ((''GET'', ''/v1/goods-receipts''), READ_ROLES),
      ((''GET'', ''/v1/purchase-orders/{purchase_order_id}/goods-receipts''), READ_ROLES),
      ((''GET'', ''/v1/goods-receipts/{receipt_id}''), READ_ROLES),
      ((''POST'', ''/v1/goods-receipts/{receipt_id}/reverse''), REVIEW_ROLES),
      ((''POST'', ''/v1/documents/{document_id}/matches''), OPERATION_ROLES),
      ((''GET'', ''/v1/matches/{match_run_id}''), READ_ROLES),
      ((''GET'', ''/v1/matches/{match_run_id}/three-way-context''), READ_ROLES),
      ((''GET'', ''/v1/matches/{match_run_id}/risk''), READ_ROLES),
      ((''GET'', ''/v1/risk-assessments/{risk_assessment_id}''), READ_ROLES),
      ((''GET'', ''/v1/review-cases''), REVIEW_READ_ROLES),
      ((''GET'', ''/v1/review-cases/{case_id}''), REVIEW_READ_ROLES),
      ((''POST'', ''/v1/review-cases/{case_id}/claim''), REVIEW_ROLES),
      ((''POST'', ''/v1/review-cases/{case_id}/release''), REVIEW_ROLES),
      ((''POST'', ''/v1/review-cases/{case_id}/comments''), REVIEW_ROLES),
      ((''POST'', ''/v1/review-cases/{case_id}/resolve''), REVIEW_ROLES),
      ((''GET'', ''/v1/review-cases/{case_id}/events''), REVIEW_READ_ROLES),
      ((''GET'', ''/v1/review-cases/{case_id}/audit-verification''), REVIEW_READ_ROLES)]"

datatype auth_mode = DEVELOPMENT_MODE | OIDC_MODE

record api_request =
  rq_method :: string
  rq_template :: string
  rq_header :: "string \<Rightarrow> string option"

text \<open>An \<^verbatim>\<open>HTTPException\<close> is its status.\<close>

type_synonym http_status = nat

definition header_or :: "api_request \<Rightarrow> string \<Rightarrow> string \<Rightarrow> string" where
  "header_or r name alt = (case rq_header r name of None \<Rightarrow> alt | Some v \<Rightarrow> v)"

definition first_nonempty :: "string list \<Rightarrow> string" where
  "first_nonempty xs = (case filter (\<lambda>x. x \<noteq> []) xs of [] \<Rightarrow> [] | x # _ \<Rightarrow> x)"

definition development_principal :: "api_request \<Rightarrow> (http_status, principal) result" where
  "development_principal r =
     (if starts_with ''/v1/review-cases/'' (rq_template r) \<and> rq_method r = ''POST''
         \<and> py_strip (header_or r ''X-Reviewer-ID'' []) = [] then Inl 422
      else if rq_template r = ''/v1/goods-receipts/{receipt_id}/reverse'' \<and> py_strip (header_or r ''X-Actor-ID'' []) = []
      then Inl 422
      else
        let subject = py_strip (first_nonempty
              [header_or r ''X-Reviewer-ID'' [], header_or r ''X-Actor-ID'' [], ''local-developer'']) in
        if subject = [] \<or> 100 < length subject then Inl 422
        else (case those (map (\<lambda>t. role_of_text (py_strip t)) (split_on (CHR '','') [] (header_or r ''X-Dev-Roles'' ''admin''))) of
                None \<Rightarrow> Inl 422
              | Some roles \<Rightarrow> Inr \<lparr>pr_subject = subject, pr_roles = remdups roles\<rparr>))"

definition resolve_principal ::
  "'k idp \<Rightarrow> oidc_settings \<Rightarrow> auth_mode \<Rightarrow> int \<Rightarrow> api_request \<Rightarrow> 'k verifier
    \<Rightarrow> (http_status, principal) result \<times> 'k verifier" where
  "resolve_principal p s mode now r v =
     (case mode of
        DEVELOPMENT_MODE \<Rightarrow> (development_principal r, v)
      | OIDC_MODE \<Rightarrow>
          let authorization = header_or r ''Authorization'' []; token = py_strip (drop 7 authorization) in
          if \<not> starts_with ''Bearer '' authorization \<or> token = [] then (Inl 401, v)
          else (case verify_token p s now token v of
                  (Inl TokenRejected, v1) \<Rightarrow> (Inl 401, v1)
                | (Inl IdentityProviderUnavailable, v1) \<Rightarrow> (Inl 503, v1)
                | (Inr pr, v1) \<Rightarrow> (Inr pr, v1)))"

text \<open>\<open>Inr None\<close> is a health check, which has no principal.\<close>

definition authorize_request ::
  "'k idp \<Rightarrow> oidc_settings \<Rightarrow> auth_mode \<Rightarrow> int \<Rightarrow> api_request \<Rightarrow> 'k verifier
    \<Rightarrow> (http_status, principal option) result \<times> 'k verifier" where
  "authorize_request p s mode now r v =
     (if rq_template r \<in> {''/health/live'', ''/healthz'', ''/health/ready''} then (Inr None, v)
      else case map_of ROUTE_ROLES (rq_method r, rq_template r) of
             None \<Rightarrow> (Inl 403, v)
           | Some required \<Rightarrow>
               (case resolve_principal p s mode now r v of
                  (Inl e, v1) \<Rightarrow> (Inl e, v1)
                | (Inr pr, v1) \<Rightarrow>
                    if set (pr_roles pr) \<inter> set required = {} then (Inl 403, v1) else (Inr (Some pr), v1)))"

subsection \<open>What a request may do\<close>

lemmas role_sets = READ_ROLES_def OPERATION_ROLES_def REVIEW_ROLES_def REVIEW_READ_ROLES_def

text \<open>Facts of the table, by evaluation: what the routes of each kind require.\<close>

lemma route_table:
  "list_all (\<lambda>((m, t), roles). (m \<noteq> ''GET'' \<longrightarrow> AUDITOR \<notin> set roles)
     \<and> (starts_with ''/v1/review-cases'' t \<longrightarrow> OPERATOR \<notin> set roles)
     \<and> (m \<noteq> ''GET'' \<and> (starts_with ''/v1/review-cases'' t \<or> list_ex (\<lambda>s. starts_with (rev s) (rev t)) [''/confirm'', ''/reverse''])
          \<longrightarrow> set roles \<subseteq> {REVIEWER, ADMIN})
     \<and> roles \<noteq> []) ROUTE_ROLES"
  by code_simp

lemma authorized_by_table:
  assumes "authorize_request p s mode now r v = (Inr (Some pr), v')"
  obtains roles where "((rq_method r, rq_template r), roles) \<in> set ROUTE_ROLES" and "set (pr_roles pr) \<inter> set roles \<noteq> {}"
    and "resolve_principal p s mode now r v = (Inr pr, v')"
  using assms
  by (auto simp: authorize_request_def split: if_splits option.splits prod.splits sum.splits dest!: map_of_SomeD)

text \<open>
  C10: access is denied by default and by role. A request that is let through, other than a health check,
  is for a route of the table and carries one of the roles of its entry; somebody who is only an auditor
  can only read; somebody who is only an operator reaches no review case; and confirming documents,
  reversing receipts and changing review cases takes a reviewer or an administrator.
\<close>

theorem access_policy:
  assumes "authorize_request p s mode now r v = (Inr (Some pr), v')"
  shows "(\<exists>roles. map_of ROUTE_ROLES (rq_method r, rq_template r) = Some roles \<and> set (pr_roles pr) \<inter> set roles \<noteq> {})
    \<and> (set (pr_roles pr) \<subseteq> {AUDITOR} \<longrightarrow> rq_method r = ''GET'')
    \<and> (set (pr_roles pr) \<subseteq> {OPERATOR} \<longrightarrow> \<not> starts_with ''/v1/review-cases'' (rq_template r))
    \<and> (rq_method r \<noteq> ''GET'' \<and> (starts_with ''/v1/review-cases'' (rq_template r)
          \<or> list_ex (\<lambda>t. starts_with (rev t) (rev (rq_template r))) [''/confirm'', ''/reverse''])
        \<longrightarrow> REVIEWER \<in> set (pr_roles pr) \<or> ADMIN \<in> set (pr_roles pr))"
proof -
  from assms obtain roles where mem: "((rq_method r, rq_template r), roles) \<in> set ROUTE_ROLES"
    and common: "set (pr_roles pr) \<inter> set roles \<noteq> {}" by (rule authorized_by_table)
  have "\<exists>roles. map_of ROUTE_ROLES (rq_method r, rq_template r) = Some roles \<and> set (pr_roles pr) \<inter> set roles \<noteq> {}"
    using assms by (auto simp: authorize_request_def split: if_splits option.splits prod.splits sum.splits)
  moreover note bspec [OF route_table [unfolded list_all_iff] mem]
  ultimately show ?thesis using common by fastforce
qed

subsection \<open>The verifier\<close>

text \<open>Every cached key is a signing key that the provider published at a trusted address.\<close>

definition published :: "'k verifier \<Rightarrow> string \<Rightarrow> (string \<times> json) list \<Rightarrow> bool" where
  "published v uri item \<longleftrightarrow> (\<exists>flds items. (uri, Some (JObj flds)) \<in> set (ov_requests v)
     \<and> map_of flds ''keys'' = Some (JArr items) \<and> JObj item \<in> set items)"

definition verifier_ok :: "'k idp \<Rightarrow> oidc_settings \<Rightarrow> 'k verifier \<Rightarrow> bool" where
  "verifier_ok p s v \<longleftrightarrow> length (ov_keys v) \<le> 50
     \<and> (\<forall>(kid, k) \<in> set (ov_keys v). \<exists>item uri. trusted_uri s uri \<and> published v uri item \<and> signing_kid item = Some kid \<and> jwk_key p item = Some k)
     \<and> (\<forall>uri. ov_jwks_uri v = Some uri \<longrightarrow> trusted_uri s uri) \<and> (ov_keys v \<noteq> [] \<longrightarrow> ov_jwks_uri v \<noteq> None)"

lemma length_dict_put: "length (dict_put k v d) \<le> Suc (length d)"
  by (induction k v d rule: dict_put.induct) auto

lemma set_dict_put: "set (dict_put k v d) \<subseteq> insert (k, v) (set d)"
  by (induction k v d rule: dict_put.induct) auto

lemma collect_keys_sound:
  assumes "collect_keys p items keys = Some ks"
  shows "length ks \<le> length keys + length items"
    and "(kid, k) \<in> set ks \<Longrightarrow> (kid, k) \<in> set keys \<or> (\<exists>item. JObj item \<in> set items \<and> signing_kid item = Some kid \<and> jwk_key p item = Some k)"
  using assms
proof (induction p items keys rule: collect_keys.induct)
  case (2 p item items keys)
  {
    case 1
    then show ?case using 2 length_dict_put [of _ _ keys]
      by (fastforce split: option.splits intro: order_trans)
  next
    case 2
    then show ?case using "2.IH" set_dict_put [of _ _ keys]
      by (fastforce split: option.splits)
  }
qed auto

lemma read_jwks_sound:
  assumes "read_jwks p data = Some ks"
  shows "length ks \<le> 50" and "ks \<noteq> []"
    and "(kid, k) \<in> set ks \<Longrightarrow> \<exists>flds items item. data = JObj flds \<and> map_of flds ''keys'' = Some (JArr items)
      \<and> JObj item \<in> set items \<and> signing_kid item = Some kid \<and> jwk_key p item = Some k"
  using assms
  by (auto simp: read_jwks_def split: json.splits option.splits if_splits
      dest: collect_keys_sound(1) collect_keys_sound(2))

lemma verifier_ok_logged:
  "verifier_ok p s v \<Longrightarrow> verifier_ok p s (v\<lparr>ov_requests := ov_requests v @ [entry]\<rparr>)"
  unfolding verifier_ok_def published_def by fastforce

lemma refresh_keys_ok:
  assumes "refresh_keys p s now uri v = (b, v')" and "verifier_ok p s v" and "ov_jwks_uri v = Some uri"
  shows "verifier_ok p s v'" and "length (ov_requests v') = Suc (length (ov_requests v))" and "ov_jwks_uri v' = Some uri"
proof -
  let ?answer = "http_get p (length (ov_requests v)) uri"
  let ?v = "v\<lparr>ov_requests := ov_requests v @ [(uri, ?answer)]\<rparr>"
  have trusted: "trusted_uri s uri" using assms(2,3) by (simp add: verifier_ok_def)
  have "verifier_ok p s v' \<and> length (ov_requests v') = Suc (length (ov_requests v)) \<and> ov_jwks_uri v' = Some uri"
  proof (cases "\<exists>data keys. ?answer = Some data \<and> read_jwks p data = Some keys")
    case True
    then obtain data keys where d: "?answer = Some data" "read_jwks p data = Some keys" by blast
    then have v': "v' = ?v\<lparr>ov_keys := keys, ov_expires_at := now + os_ttl_seconds s\<rparr>"
      using assms(1) by (simp add: refresh_keys_def send_get_def Let_def)
    have "\<exists>item. published v' uri item \<and> signing_kid item = Some kid \<and> jwk_key p item = Some k" if "(kid, k) \<in> set keys" for kid k
      using read_jwks_sound(3) [OF d(2) that] by (auto simp: published_def v' d(1))
    then have "\<forall>(kid, k) \<in> set keys. \<exists>item uri. trusted_uri s uri \<and> published v' uri item \<and> signing_kid item = Some kid \<and> jwk_key p item = Some k"
      using trusted by blast
    moreover have "ov_keys v' = keys" "ov_jwks_uri v' = Some uri" "length (ov_requests v') = Suc (length (ov_requests v))"
      using v' assms(3) by simp_all
    ultimately show ?thesis using trusted read_jwks_sound(1) [OF d(2)] by (simp add: verifier_ok_def)
  next
    case False
    then have "v' = ?v" using assms(1) by (auto simp: refresh_keys_def send_get_def Let_def split: option.splits)
    then show ?thesis using verifier_ok_logged [OF assms(2)] assms(3) by simp
  qed
  then show "verifier_ok p s v'" and "length (ov_requests v') = Suc (length (ov_requests v))" and "ov_jwks_uri v' = Some uri" by blast+
qed

lemma discovered_trusted: "discovered_uri s m = Some uri \<Longrightarrow> trusted_uri s uri"
  by (auto simp: discovered_uri_def split: json.splits option.splits if_splits)

text \<open>A refresh sends one request, or two when the address of the key set is not known yet.\<close>

lemma refresh_ok:
  assumes "refresh p s now v = (b, v')" and "verifier_ok p s v"
  shows "verifier_ok p s v'"
    and "length (ov_requests v') \<le> length (ov_requests v) + (if ov_jwks_uri v = None then 2 else 1)"
    and "b \<Longrightarrow> ov_jwks_uri v' \<noteq> None"
proof -
  have "verifier_ok p s v' \<and> length (ov_requests v') \<le> length (ov_requests v) + (if ov_jwks_uri v = None then 2 else 1)
      \<and> (b \<longrightarrow> ov_jwks_uri v' \<noteq> None)"
  proof (cases "ov_jwks_uri v")
    case (Some uri)
    with assms show ?thesis using refresh_keys_ok [of p s now uri v b v'] by (simp add: refresh_def)
  next
    case None
    let ?answer = "http_get p (length (ov_requests v)) (discovery_url s)"
    let ?v = "v\<lparr>ov_requests := ov_requests v @ [(discovery_url s, ?answer)]\<rparr>"
    show ?thesis
    proof (cases "\<exists>m uri. ?answer = Some m \<and> discovered_uri s m = Some uri")
      case True
      then obtain m uri where m: "?answer = Some m" "discovered_uri s m = Some uri" by blast
      with None assms(1) have run: "refresh_keys p s now uri (?v\<lparr>ov_jwks_uri := Some uri\<rparr>) = (b, v')"
        by (simp add: refresh_def send_get_def Let_def)
      have "verifier_ok p s (?v\<lparr>ov_jwks_uri := Some uri\<rparr>)"
        using verifier_ok_logged [OF assms(2), of "(discovery_url s, ?answer)"] discovered_trusted [OF m(2)]
        by (simp add: verifier_ok_def published_def)
      from refresh_keys_ok [OF run this] None show ?thesis by simp
    next
      case False
      with None assms have "v' = ?v" "\<not> b"
        by (auto simp: refresh_def send_get_def Let_def split: option.splits)
      with None verifier_ok_logged [OF assms(2)] show ?thesis by simp
    qed
  qed
  then show "verifier_ok p s v'"
    and "length (ov_requests v') \<le> length (ov_requests v) + (if ov_jwks_uri v = None then 2 else 1)"
    and "b \<Longrightarrow> ov_jwks_uri v' \<noteq> None" by blast+
qed

lemma key_for_ok:
  assumes "key_for p s now kid v = (r, v')" and "verifier_ok p s v"
  shows "verifier_ok p s v'" and "length (ov_requests v') \<le> length (ov_requests v) + 3"
    and "now < ov_expires_at v \<Longrightarrow> map_of (ov_keys v) kid \<noteq> None \<Longrightarrow> v' = v"
    and "r = Inr (Some key) \<Longrightarrow> (kid, key) \<in> set (ov_keys v')"
proof -
  obtain ok v1 where first: "(if ov_expires_at v \<le> now then refresh p s now v else (True, v)) = (ok, v1)" by fastforce
  have v1: "verifier_ok p s v1" "length (ov_requests v1) \<le> length (ov_requests v) + 2"
    "ok \<Longrightarrow> ov_jwks_uri v1 = None \<Longrightarrow> v1 = v"
    using first assms(2) refresh_ok [of p s now v ok v1] by (auto split: if_splits)
  have "verifier_ok p s v' \<and> length (ov_requests v') \<le> length (ov_requests v) + 3
      \<and> (r = Inr (Some key) \<longrightarrow> (kid, key) \<in> set (ov_keys v'))" for key
  proof (cases "ok \<and> map_of (ov_keys v1) kid = None")
    case True
    obtain b v2 where second: "refresh p s now v1 = (b, v2)" by fastforce
    note r2 = refresh_ok [OF second v1(1)]
    have "v' = v2" "r = Inr (Some key) \<Longrightarrow> map_of (ov_keys v2) kid = Some key"
      using assms(1) first True second by (auto simp: key_for_def split: bool.splits)
    moreover have "length (ov_requests v2) \<le> length (ov_requests v) + 3"
    proof (cases "ov_jwks_uri v1 = None")
      case True
      with v1(3) \<open>ok \<and> _\<close> r2(2) show ?thesis by auto
    next
      case False
      with r2(2) v1(2) show ?thesis by auto
    qed
    ultimately show ?thesis using r2(1) by (auto dest: map_of_SomeD)
  next
    case False
    then have "v' = v1" and "r = Inr (Some key) \<Longrightarrow> map_of (ov_keys v1) kid = Some key"
      using assms(1) first by (auto simp: key_for_def split: option.splits if_splits)
    with v1(1,2) show ?thesis by (auto dest: map_of_SomeD)
  qed
  then show "verifier_ok p s v'" "length (ov_requests v') \<le> length (ov_requests v) + 3"
    "r = Inr (Some key) \<Longrightarrow> (kid, key) \<in> set (ov_keys v')" by blast+
  show "v' = v" if "now < ov_expires_at v" and "map_of (ov_keys v) kid \<noteq> None"
    using that assms(1) by (auto simp: key_for_def split: option.splits)
qed

inductive verifier_step :: "'k idp \<Rightarrow> oidc_settings \<Rightarrow> 'k verifier \<Rightarrow> 'k verifier \<Rightarrow> bool" for p s where
  verify: "verifier_step p s v (snd (verify_token p s now token v))"

definition verifier_start :: "'k verifier \<Rightarrow> bool" where
  "verifier_start v \<longleftrightarrow> ov_keys v = [] \<and> ov_expires_at v = 0 \<and> ov_jwks_uri v = None \<and> ov_requests v = []"

text \<open>A verification either stops before a key is looked up or looks up one key.\<close>

lemma verify_token_cases:
  assumes "verify_token p s now token v = (r, v')"
  obtains (early) "v' = v" and "r = Inl TokenRejected"
  | (looked_up) header kid k where "length token \<le> 16384" and "unverified_header p token = Some header"
      and "map_of header ''alg'' = Some (JStr ''RS256'')" and "map_of header ''kid'' = Some (JStr kid)"
      and "key_for p s now kid v = (k, v')"
      and "\<And>pr. r = Inr pr \<Longrightarrow> \<exists>key claims. k = Inr (Some key)
        \<and> jwt_decode p key (os_issuer s) (os_audience s) token = Some claims \<and> read_principal s claims = Some pr"
  using assms
  by (auto simp: verify_token_def split: if_splits option.splits json.splits prod.splits sum.splits)

lemma verify_token_ok:
  assumes "verify_token p s now token v = (r, v')" and "verifier_ok p s v"
  shows "verifier_ok p s v'" and "length (ov_requests v') \<le> length (ov_requests v) + 3"
proof -
  from assms(1) have "verifier_ok p s v' \<and> length (ov_requests v') \<le> length (ov_requests v) + 3"
    by (cases rule: verify_token_cases) (use assms(2) key_for_ok(1,2) in \<open>auto\<close>)
  then show "verifier_ok p s v'" "length (ov_requests v') \<le> length (ov_requests v) + 3" by auto
qed

interpretation verifiers: inductive_system verifier_start "verifier_step p s" "verifier_ok p s" for p :: "'k idp" and s
proof
  show "verifier_ok p s v" if "verifier_start v" for v
    using that by (simp add: verifier_start_def verifier_ok_def)
  show "verifier_ok p s v'" if "verifier_step p s v v'" and "verifier_ok p s v" for v v'
    using that by (auto elim!: verifier_step.cases intro: verify_token_ok(1) [OF surjective_pairing])
qed

text \<open>
  C9: only tokens signed by the provider are accepted. When the verifier, after any tokens before, returns
  a principal, the token names RS256, its signature was accepted for the configured issuer and audience under a key
  that the provider published for RS256 signatures in a key set at a trusted address, and the principal
  has a non-blank subject of at most 100 characters and at least one role, each once.
\<close>

theorem verified_principal_sound:
  assumes "reachable_from verifier_start (verifier_step p s) v" and "verify_token p s now token v = (Inr pr, v')"
  shows "\<exists>header kid item key claims uri. unverified_header p token = Some header
    \<and> map_of header ''alg'' = Some (JStr ''RS256'') \<and> map_of header ''kid'' = Some (JStr kid)
    \<and> signing_kid item = Some kid \<and> jwk_key p item = Some key
    \<and> trusted_uri s uri \<and> published v' uri item
    \<and> jwt_decode p key (os_issuer s) (os_audience s) token = Some claims
    \<and> map_of claims ''sub'' = Some (JStr (pr_subject pr)) \<and> py_strip (pr_subject pr) \<noteq> [] \<and> length (pr_subject pr) \<le> 100
    \<and> pr_roles pr \<noteq> [] \<and> distinct (pr_roles pr)"
  using assms(2)
proof (cases rule: verify_token_cases)
  case (looked_up header kid k)
  obtain key claims where key: "k = Inr (Some key)" "jwt_decode p key (os_issuer s) (os_audience s) token = Some claims"
    "read_principal s claims = Some pr" using looked_up(6) by blast
  have ok: "verifier_ok p s v" using assms(1) by (rule verifiers.inv_reachable)
  have v': "verifier_ok p s v'" "(kid, key) \<in> set (ov_keys v')"
    using key_for_ok(1,4) [OF looked_up(5) ok] key(1) by auto
  then obtain item uri where "signing_kid item = Some kid" "jwk_key p item = Some key"
    "trusted_uri s uri" "published v' uri item"
    by (fastforce simp: verifier_ok_def)
  moreover from key(3) have "map_of claims ''sub'' = Some (JStr (pr_subject pr))" "py_strip (pr_subject pr) \<noteq> []"
    "length (pr_subject pr) \<le> 100" "pr_roles pr \<noteq> []" "distinct (pr_roles pr)"
    by (auto simp: read_principal_def read_roles_def Let_def split: option.splits json.splits if_splits)
  ultimately show ?thesis using looked_up(2-4) key(2) by blast
qed auto

text \<open>
  C37: the verifier cannot be driven into endless requests or a growing cache. Verifying one token sends
  at most three requests to the identity provider, none when its key is cached and the cache has not
  expired, and the cache never holds more than fifty keys.
\<close>

theorem verify_bounded:
  assumes "reachable_from verifier_start (verifier_step p s) v" and "verify_token p s now token v = (r, v')"
  shows "length (ov_requests v') \<le> length (ov_requests v) + 3 \<and> length (ov_keys v') \<le> 50
    \<and> (\<forall>header kid. unverified_header p token = Some header \<longrightarrow> map_of header ''kid'' = Some (JStr kid) \<longrightarrow>
        now < ov_expires_at v \<longrightarrow> map_of (ov_keys v) kid \<noteq> None \<longrightarrow> v' = v)"
proof -
  have ok: "verifier_ok p s v" using assms(1) by (rule verifiers.inv_reachable)
  have "v' = v" if "unverified_header p token = Some header" "map_of header ''kid'' = Some (JStr kid)"
    "now < ov_expires_at v" "map_of (ov_keys v) kid \<noteq> None" for header kid
    using assms(2)
    by (cases rule: verify_token_cases) (use that key_for_ok(3) [OF _ ok] in \<open>auto\<close>)
  then show ?thesis using verify_token_ok [OF assms(2) ok] by (auto simp: verifier_ok_def)
qed

subsection \<open>A provider\<close>

definition sample_settings :: oidc_settings where
  "sample_settings = \<lparr>os_issuer = ''https://idp.example/'', os_audience = ''invoiceops'', os_roles_claim = ''roles'', os_ttl_seconds = 300\<rparr>"

definition sample_idp :: "nat idp" where
  "sample_idp = \<lparr>
     unverified_header = (\<lambda>t. Some [(''alg'', JStr ''RS256''), (''kid'', JStr ''k1'')]),
     jwt_decode = (\<lambda>k i a t. if k = 1 then Some [(''sub'', JStr ''ann''), (''roles'', JArr [JStr t])] else None),
     http_get = (\<lambda>n u. if u = ''https://idp.example/.well-known/openid-configuration''
        then Some (JObj [(''issuer'', JStr ''https://idp.example/''), (''jwks_uri'', JStr ''https://idp.example/keys'')])
        else if u = ''https://idp.example/keys''
        then Some (JObj [(''keys'', JArr [JObj [(''kid'', JStr ''k1''), (''kty'', JStr ''RSA'')]])]) else None),
     jwk_key = (\<lambda>i. Some 1)\<rparr>"

definition sample_verifier :: "nat verifier" where
  "sample_verifier = \<lparr>ov_keys = [], ov_expires_at = 0, ov_jwks_uri = None, ov_requests = []\<rparr>"

definition sample_request :: "string \<Rightarrow> api_request" where
  "sample_request token = \<lparr>rq_method = ''GET'', rq_template = ''/v1/review-cases'',
     rq_header = (\<lambda>n. if n = ''Authorization'' then Some (''Bearer '' @ token) else None)\<rparr>"

lemma sample_verifier_reachable: "reachable_from verifier_start (verifier_step p s) sample_verifier"
  by (rule reach_start) (simp add: verifier_start_def sample_verifier_def)

lemma sample_verify:
  "fst (verify_token sample_idp sample_settings 10 ''auditor'' sample_verifier) = Inr \<lparr>pr_subject = ''ann'', pr_roles = [AUDITOR]\<rparr>
   \<and> map fst (ov_requests (snd (verify_token sample_idp sample_settings 10 ''auditor'' sample_verifier)))
     = [''https://idp.example/.well-known/openid-configuration'', ''https://idp.example/keys'']"
  by code_simp

theorem verified_principal_sound_witness:
  "\<exists>item uri. signing_kid item = Some ''k1'' \<and> jwk_key sample_idp item = Some 1 \<and> trusted_uri sample_settings uri
     \<and> published (snd (verify_token sample_idp sample_settings 10 ''auditor'' sample_verifier)) uri item"
proof -
  have "verify_token sample_idp sample_settings 10 ''auditor'' sample_verifier
      = (Inr \<lparr>pr_subject = ''ann'', pr_roles = [AUDITOR]\<rparr>, snd (verify_token sample_idp sample_settings 10 ''auditor'' sample_verifier))"
    using sample_verify by (metis surjective_pairing)
  from verified_principal_sound [OF sample_verifier_reachable this] show ?thesis
    by (force simp: sample_idp_def)
qed

theorem verify_bounded_witness:
  "length (ov_requests (snd (verify_token sample_idp sample_settings 10 ''auditor'' sample_verifier))) \<le> 3"
proof -
  have "ov_requests sample_verifier = []" by (simp add: sample_verifier_def)
  with verify_bounded [OF sample_verifier_reachable surjective_pairing, of sample_idp sample_settings 10 "''auditor''"]
  show ?thesis by simp
qed

theorem access_policy_witness:
  "authorize_request sample_idp sample_settings OIDC_MODE 10 (sample_request ''auditor'') sample_verifier
     = (Inr (Some \<lparr>pr_subject = ''ann'', pr_roles = [AUDITOR]\<rparr>),
        snd (verify_token sample_idp sample_settings 10 ''auditor'' sample_verifier))
   \<and> rq_method (sample_request ''auditor'') = ''GET''"
proof -
  have run: "authorize_request sample_idp sample_settings OIDC_MODE 10 (sample_request ''auditor'') sample_verifier
     = (Inr (Some \<lparr>pr_subject = ''ann'', pr_roles = [AUDITOR]\<rparr>),
        snd (verify_token sample_idp sample_settings 10 ''auditor'' sample_verifier))" by code_simp
  from access_policy [OF this] show ?thesis using run by simp
qed

end
