(* ===== verification/Worker.thy ===== *)
theory Worker
  imports Case_Machine
begin

text \<open>
  The extraction worker: the tasks of \<^verbatim>\<open>workers/extraction/tasks.py\<close> with the bookkeeping of
  \<^verbatim>\<open>invoiceops/extraction/service.py\<close>, \<^verbatim>\<open>supporting_service.py\<close> and \<^verbatim>\<open>failures.py\<close>. What reading a document
  gives (object store, text extraction, OCR, the extraction rules and the schema) is the outcome, an input
  of a task.
\<close>

subsection \<open>Outcomes of reading a document\<close>

datatype extraction_failure = ENCRYPTED | UNSUPPORTED | OCR_UNAVAILABLE | SCHEMA_INVALID | UNREADABLE

datatype 'a reading = Extracted 'a | TerminalFailure extraction_failure | OperationalFailure

fun extraction_error_code :: "extraction_failure \<Rightarrow> string" where
  "extraction_error_code ENCRYPTED = ''document_encrypted''"
| "extraction_error_code UNSUPPORTED = ''document_unsupported''"
| "extraction_error_code OCR_UNAVAILABLE = ''ocr_unavailable''"
| "extraction_error_code SCHEMA_INVALID = ''extraction_schema_invalid''"
| "extraction_error_code UNREADABLE = ''document_unreadable''"

fun safe_extraction_error_message :: "extraction_failure \<Rightarrow> string" where
  "safe_extraction_error_message ENCRYPTED = ''The document is password-protected''"
| "safe_extraction_error_message UNSUPPORTED = ''The document type is not supported''"
| "safe_extraction_error_message OCR_UNAVAILABLE = ''OCR is unavailable for this document''"
| "safe_extraction_error_message SCHEMA_INVALID = ''The extracted result did not match the invoice schema''"
| "safe_extraction_error_message UNREADABLE = ''The document could not be read''"

text \<open>What a task raises: \<open>None\<close> for an operational failure.\<close>

type_synonym raised = "extraction_failure option"

subsection \<open>The run of an invoice extraction\<close>

definition EXTRACTOR :: "string \<times> string" where
  "EXTRACTOR = (''deterministic-baseline'', ''0.2.0'')"

record worker_env =
  we_run_id :: uuid
  we_trace :: "string option"
  we_now :: datetime
  we_racing :: "extraction_run option"

definition find_extraction :: "string \<times> string \<Rightarrow> extraction_run list \<Rightarrow> uuid \<Rightarrow> extraction_run option" where
  "find_extraction ex runs doc =
     find_row (\<lambda>r. er_document_id r = doc \<and> (er_extractor_name r, er_extractor_version r) = ex) runs"

text \<open>Another worker may insert the run first.\<close>

definition get_or_create_run :: "string \<times> string \<Rightarrow> worker_env \<Rightarrow> uuid \<Rightarrow> extraction_run list \<Rightarrow> (raised, extraction_run) result \<times> extraction_run list" where
  "get_or_create_run ex env doc runs =
     (case find_extraction ex runs doc of
        Some existing \<Rightarrow> (Inr existing, runs)
      | None \<Rightarrow>
          let run = \<lparr>er_id = we_run_id env, er_document_id = doc, er_extractor_name = fst ex,
                er_extractor_version = snd ex, er_status = EXTRACTION_PROCESSING, er_output = None,
                er_created_at = we_now env\<rparr>;
              runs1 = (case we_racing env of None \<Rightarrow> runs | Some r \<Rightarrow> runs @ [r])
          in case find_extraction ex runs1 doc of
               None \<Rightarrow> (Inr run, runs1 @ [run])
             | Some concurrent \<Rightarrow> (Inr concurrent, runs1))"

definition set_run :: "uuid \<Rightarrow> extraction_run_status \<Rightarrow> invoice option \<Rightarrow> extraction_run list \<Rightarrow> extraction_run list" where
  "set_run rid status out = update_rows (\<lambda>r. er_id r = rid) (\<lambda>r. r\<lparr>er_status := status, er_output := out\<rparr>)"

definition set_unless_succeeded :: "uuid \<Rightarrow> extraction_run_status \<Rightarrow> extraction_run list \<Rightarrow> extraction_run list" where
  "set_unless_succeeded rid status =
     update_rows (\<lambda>r. er_id r = rid \<and> er_status r \<noteq> EXTRACTION_SUCCEEDED) (\<lambda>r. r\<lparr>er_status := status, er_output := None\<rparr>)"

definition mark_processing :: "extraction_run \<Rightarrow> extraction_run list \<Rightarrow> extraction_run list" where
  "mark_processing run runs =
     (if er_status run = EXTRACTION_PROCESSING then runs else set_unless_succeeded (er_id run) EXTRACTION_PROCESSING runs)"

text \<open>
  \<^verbatim>\<open>ExtractionService.process\<close> commits before the document is read and writes the result afterwards, so
  another worker may run between the two parts.
\<close>

definition extraction_begin ::
  "string \<times> string \<Rightarrow> worker_env \<Rightarrow> uuid \<Rightarrow> extraction_run list \<Rightarrow> (raised, extraction_run) result \<times> extraction_run list" where
  "extraction_begin ex env doc runs =
     (case get_or_create_run ex env doc runs of
        (Inl e, runs1) \<Rightarrow> (Inl e, runs1)
      | (Inr run, runs1) \<Rightarrow>
          if er_status run = EXTRACTION_SUCCEEDED then (Inr run, runs1)
          else
            let runs2 = mark_processing run runs1 in
            (case find_row (\<lambda>r. er_id r = er_id run) runs2 of
               None \<Rightarrow> (Inl None, runs2) | Some r \<Rightarrow> (Inr r, runs2)))"

definition extraction_finish ::
  "invoice reading \<Rightarrow> uuid \<Rightarrow> extraction_run list \<Rightarrow> (raised, extraction_run) result \<times> extraction_run list" where
  "extraction_finish outcome rid runs =
     (case outcome of
        OperationalFailure \<Rightarrow> (Inl None, runs)
      | TerminalFailure e \<Rightarrow> (Inl (Some e), set_unless_succeeded rid EXTRACTION_FAILED runs)
      | Extracted invoice \<Rightarrow>
          let runs3 = set_run rid EXTRACTION_SUCCEEDED (Some invoice) runs in
          (case find_row (\<lambda>r. er_id r = rid) runs3 of
             None \<Rightarrow> (Inl None, runs3) | Some r \<Rightarrow> (Inr r, runs3)))"

definition extraction_process ::
  "worker_env \<Rightarrow> invoice reading \<Rightarrow> uuid \<Rightarrow> extraction_run list \<Rightarrow> (raised, extraction_run) result \<times> extraction_run list" where
  "extraction_process env outcome doc runs =
     (case extraction_begin EXTRACTOR env doc runs of
        (Inl e, runs1) \<Rightarrow> (Inl e, runs1)
      | (Inr run, runs1) \<Rightarrow>
          if er_status run = EXTRACTION_SUCCEEDED then (Inr run, runs1)
          else extraction_finish outcome (er_id run) runs1)"

subsection \<open>The job of an invoice\<close>

definition MAX_RETRIES :: nat where "MAX_RETRIES = 3"

definition find_job :: "case_db \<Rightarrow> uuid \<Rightarrow> ingestion_job option" where
  "find_job db job = find_row (\<lambda>j. ij_id j = job) (idb_jobs (kdb_ingestion db))"

definition set_job :: "uuid \<Rightarrow> job_status \<Rightarrow> string option \<Rightarrow> string option \<Rightarrow> case_db \<Rightarrow> case_db" where
  "set_job job status code msg db =
     db\<lparr>kdb_ingestion := (kdb_ingestion db)\<lparr>idb_jobs := update_rows (\<lambda>j. ij_id j = job)
       (\<lambda>j. j\<lparr>ij_status := status, ij_error_code := code, ij_error_message := msg\<rparr>) (idb_jobs (kdb_ingestion db))\<rparr>\<rparr>"

definition log_job :: "worker_env \<Rightarrow> job_event_draft \<Rightarrow> case_db \<Rightarrow> case_db" where
  "log_job env d db =
     db\<lparr>kdb_ingestion := (kdb_ingestion db)\<lparr>idb_events := log_job_event (set (map ij_id (idb_jobs (kdb_ingestion db))))
       (we_trace env, we_now env) d (idb_events (kdb_ingestion db))\<rparr>\<rparr>"

definition job_draft :: "uuid \<Rightarrow> string \<Rightarrow> job_event_type \<Rightarrow> string \<Rightarrow> string \<Rightarrow> string \<Rightarrow> (string \<times> json) list \<Rightarrow> job_event_draft" where
  "job_draft job key kind stage status msg payload = \<lparr>jd_job_id = job, jd_event_key = key, jd_event_type = kind,
     jd_stage = stage, jd_status = status, jd_message = msg, jd_payload = payload\<rparr>"

definition present :: "'a extracted_field \<Rightarrow> nat" where
  "present f = (if fvalue f = None then 0 else 1)"

text \<open>\<^verbatim>\<open>_safe_extraction_summary\<close> without the flag for OCR, which is not part of the model.\<close>

definition extraction_summary :: "extraction_run \<Rightarrow> (string \<times> json) list" where
  "extraction_summary run =
     (case er_output run of
        None \<Rightarrow> [(''field_count'', JInt 0), (''line_item_count'', JInt 0)]
      | Some i \<Rightarrow> [(''field_count'', JInt (int (present (inv_invoice_number i) + present (inv_invoice_date i)
            + present (inv_currency i) + present (inv_subtotal i) + present (inv_tax i) + present (inv_total i)))),
          (''line_item_count'', JInt (int (length (inv_line_items i))))])
     @ [(''fallback_used'', JBool (er_extractor_name run = ''hybrid-routed''))]"

definition active_invoices :: "case_db \<Rightarrow> uuid \<Rightarrow> case_document list" where
  "active_invoices db doc = filter (\<lambda>d. cdoc_document_id d = doc \<and> cdoc_role d = INVOICE
     \<and> cdoc_active_slot d = Some INVOICE) (kdb_documents db)"

definition log_case :: "worker_env \<Rightarrow> case_document \<Rightarrow> string \<Rightarrow> string \<Rightarrow> string \<Rightarrow> string \<Rightarrow> string \<Rightarrow> (string \<times> json) list \<Rightarrow> case_db \<Rightarrow> case_db" where
  "log_case env a key kind stage status msg payload db =
     db\<lparr>kdb_events := log_case_event (case_ids db) (we_now env)
       \<lparr>cd_case_id = cdoc_case_id a, cd_event_key = key, cd_event_type = kind, cd_stage = stage, cd_status = status,
        cd_message = msg, cd_document_id = Some (cdoc_document_id a), cd_document_role = Some (cdoc_role a),
        cd_payload = payload\<rparr> (kdb_events db)\<rparr>"

text \<open>Set the status and the version of a case when its status satisfies the condition.\<close>

definition move_case :: "worker_env \<Rightarrow> uuid \<Rightarrow> (case_status \<Rightarrow> bool) \<Rightarrow> case_status \<Rightarrow> case_db \<Rightarrow> case_db" where
  "move_case env cid cond status db =
     (case find_payable_case db cid of
        None \<Rightarrow> db
      | Some row \<Rightarrow> if cond (pc_status row) then db\<lparr>kdb_cases := write_case (we_now env) row status (kdb_cases db)\<rparr> else db)"

definition invoice_completed :: "worker_env \<Rightarrow> extraction_run \<Rightarrow> case_db \<Rightarrow> case_document \<Rightarrow> case_db" where
  "invoice_completed env run db a =
     move_case env (cdoc_case_id a) (\<lambda>st. st = CASE_PROCESSING) NEEDS_CONFIRMATION
       (log_case env a (''invoice-extraction-completed:'' @ uuid_text (er_id run)) ''EXTRACTION_COMPLETED'' ''extraction''
          ''completed'' ''Invoice extraction completed'' [(''extraction_run_id'', JStr (uuid_text (er_id run)))] db)"

definition invoice_failed :: "worker_env \<Rightarrow> uuid \<Rightarrow> string \<Rightarrow> case_db \<Rightarrow> case_document \<Rightarrow> case_db" where
  "invoice_failed env job code db a =
     move_case env (cdoc_case_id a) (\<lambda>st. st \<noteq> CASE_FAILED) CASE_FAILED
       (log_case env a (''invoice-processing-failed:'' @ uuid_text job) ''PROCESSING_FAILED'' ''processing''
          ''failed'' ''Invoice processing failed'' [(''error_code'', JStr code)] db)"

definition job_started :: "worker_env \<Rightarrow> uuid \<Rightarrow> case_db \<Rightarrow> case_db" where
  "job_started env job db =
     log_job env (job_draft job ''extraction.started'' EXTRACTION_STARTED ''extraction'' ''started'' ''Invoice extraction started'' [])
       (set_job job PROCESSING None None db)"

definition job_succeeded :: "worker_env \<Rightarrow> ingestion_job \<Rightarrow> extraction_run \<Rightarrow> case_db \<Rightarrow> case_db" where
  "job_succeeded env j run db =
     (let db1 = set_job (ij_id j) SUCCEEDED None None db;
          db2 = log_job env (job_draft (ij_id j) ''extraction.completed'' EXTRACTION_COMPLETED ''extraction'' ''completed''
            ''Invoice extraction completed'' (extraction_summary run)) db1;
          db3 = log_job env (job_draft (ij_id j) ''processing.completed'' PROCESSING_COMPLETED ''processing'' ''completed''
            ''Invoice processing completed'' []) db2
      in foldl (invoice_completed env run) db3 (active_invoices db3 (ij_document_id j)))"

text \<open>\<^verbatim>\<open>run_job\<close>: whether work was done, or what was raised. The start is committed before the document is read.\<close>

definition run_job :: "worker_env \<Rightarrow> invoice reading \<Rightarrow> uuid \<Rightarrow> case_db \<Rightarrow> (raised, bool) result \<times> case_db" where
  "run_job env outcome job db =
     (case find_job db job of
        None \<Rightarrow> (Inr False, db)
      | Some j \<Rightarrow>
          if ij_status j = SUCCEEDED then (Inr False, db)
          else
            let db1 = job_started env job db in
            (case extraction_process env outcome (ij_document_id j) (gdb_extractions (kdb_matching db1)) of
               (r, runs) \<Rightarrow>
                 let db2 = db1\<lparr>kdb_matching := (kdb_matching db1)\<lparr>gdb_extractions := runs\<rparr>\<rparr> in
                 (case r of Inl e \<Rightarrow> (Inl e, db2) | Inr run \<Rightarrow> (Inr True, job_succeeded env j run db2))))"

text \<open>\<^verbatim>\<open>value or fallback\<close>: an empty text counts as absent.\<close>

definition first_or :: "string \<Rightarrow> string option \<Rightarrow> string" where
  "first_or alt v = (case v of None \<Rightarrow> alt | Some t \<Rightarrow> if t = [] then alt else t)"

definition record_failure :: "worker_env \<Rightarrow> uuid \<Rightarrow> bool \<Rightarrow> string option \<Rightarrow> string option \<Rightarrow> case_db \<Rightarrow> case_db" where
  "record_failure env job terminal code msg db =
     (case find_job db job of
        None \<Rightarrow> db
      | Some j \<Rightarrow>
          if ij_status j = SUCCEEDED then db
          else if \<not> terminal then set_job job QUEUED None None db
          else
            let error_code = first_or ''processing_failed'' code;
                db1 = set_job job JOB_FAILED (Some error_code) (Some (first_or ''Document processing failed'' msg)) db;
                db2 = log_job env (job_draft job ''processing.failed'' PROCESSING_FAILED ''processing'' ''failed''
                  ''Invoice processing failed'' [(''error_code'', JStr error_code)]) db1
            in foldl (invoice_failed env job error_code) db2 (active_invoices db2 (ij_document_id j)))"

text \<open>
  \<^verbatim>\<open>_process_document\<close>: one delivery with its number of earlier retries. \<open>Some n\<close> schedules a retry after
  \<open>n\<close> seconds.
\<close>

definition process_document :: "worker_env \<Rightarrow> nat \<Rightarrow> invoice reading \<Rightarrow> uuid \<Rightarrow> case_db \<Rightarrow> nat option \<times> case_db" where
  "process_document env retries outcome job db =
     (case run_job env outcome job db of
        (Inr _, db1) \<Rightarrow> (None, db1)
      | (Inl (Some e), db1) \<Rightarrow>
          (None, record_failure env job True (Some (extraction_error_code e)) (Some (safe_extraction_error_message e)) db1)
      | (Inl None, db1) \<Rightarrow>
          let terminal = (MAX_RETRIES \<le> retries); db2 = record_failure env job terminal None None db1
          in (if terminal then None else Some (min (2 ^ retries) 30), db2))"

text \<open>The deliveries of one task message: the broker delivers again as long as a retry is scheduled.\<close>

fun deliver :: "nat \<Rightarrow> (worker_env \<times> invoice reading) list \<Rightarrow> uuid \<Rightarrow> case_db \<Rightarrow> case_db" where
  "deliver retries [] job db = db"
| "deliver retries ((env, outcome) # rest) job db =
     (case process_document env retries outcome job db of
        (None, db1) \<Rightarrow> db1
      | (Some _, db1) \<Rightarrow> deliver (Suc retries) rest job db1)"

subsection \<open>Supporting documents\<close>

definition find_support_run :: "supporting_run list \<Rightarrow> uuid \<Rightarrow> document_role \<Rightarrow> supporting_run option" where
  "find_support_run runs doc role = find_row (\<lambda>r. spr_document_id r = doc \<and> spr_role r = role
     \<and> (spr_extractor_name r, spr_extractor_version r) = SUPPORTING_EXTRACTOR) runs"

definition get_or_create_support :: "worker_env \<Rightarrow> case_document \<Rightarrow> case_db \<Rightarrow> supporting_run \<times> case_db" where
  "get_or_create_support env a db =
     (case find_support_run (kdb_support_runs db) (cdoc_document_id a) (cdoc_role a) of
        Some existing \<Rightarrow> (existing, db)
      | None \<Rightarrow>
          let run = \<lparr>spr_id = we_run_id env, spr_document_id = cdoc_document_id a, spr_role = cdoc_role a,
                spr_extractor_name = fst SUPPORTING_EXTRACTOR, spr_extractor_version = snd SUPPORTING_EXTRACTOR,
                spr_status = SUPPORTING_PROCESSING, spr_output = None, spr_created_at = we_now env\<rparr>
          in (run, db\<lparr>kdb_support_runs := kdb_support_runs db @ [run]\<rparr>))"

definition set_support_run :: "uuid \<Rightarrow> (supporting_run \<Rightarrow> supporting_run) \<Rightarrow> case_db \<Rightarrow> case_db" where
  "set_support_run rid f db = db\<lparr>kdb_support_runs := update_rows (\<lambda>r. spr_id r = rid) f (kdb_support_runs db)\<rparr>"

definition support_active :: "case_db \<Rightarrow> case_document \<Rightarrow> bool" where
  "support_active db a =
     (if cdoc_role a = PURCHASE_ORDER then cdoc_active_slot a = Some PURCHASE_ORDER else \<not> has_successor db (cdoc_id a))"

definition support_succeeded :: "worker_env \<Rightarrow> case_document \<Rightarrow> uuid \<Rightarrow> case_db \<Rightarrow> case_db" where
  "support_succeeded env a rid db =
     (let db1 = log_case env a (''support-extraction-completed:'' @ uuid_text rid) ''EXTRACTION_COMPLETED'' ''extraction'' ''completed''
            ''Supporting-document extraction completed; confirmation required''
            [(''extraction_run_id'', JStr (uuid_text rid)), (''confirmation_required'', JBool True)] db
      in if support_active db1 a then move_case env (cdoc_case_id a) (\<lambda>st. st \<in> {CASE_PROCESSING, CASE_FAILED}) NEEDS_CONFIRMATION db1
         else db1)"

text \<open>\<^verbatim>\<open>SupportingExtractionService.process\<close>: \<open>Inl\<close> is what is raised.\<close>

definition support_process ::
  "worker_env \<Rightarrow> supporting_output reading \<Rightarrow> case_document \<Rightarrow> case_db \<Rightarrow> (raised, uuid) result \<times> case_db" where
  "support_process env outcome a db =
     (if cdoc_role a = INVOICE then (Inl None, db)
      else
        let (run, db1) = get_or_create_support env a db in
        if spr_status run = SUPPORTING_SUCCEEDED then (Inr (spr_id run), support_succeeded env a (spr_id run) db1)
        else (case outcome of
                OperationalFailure \<Rightarrow> (Inl None, db1)
              | TerminalFailure e \<Rightarrow>
                  (Inl (Some e),
                   move_case env (cdoc_case_id a) (\<lambda>_. True) CASE_FAILED
                     (log_case env a (''support-extraction-failed:'' @ uuid_text (spr_id run)) ''PROCESSING_FAILED'' ''extraction'' ''failed''
                        ''Supporting-document extraction failed'' [(''error_code'', JStr (extraction_error_code e))]
                        (set_support_run (spr_id run) (\<lambda>r. r\<lparr>spr_status := SUPPORTING_FAILED\<rparr>) db1)))
              | Extracted out \<Rightarrow>
                  (Inr (spr_id run),
                   support_succeeded env a (spr_id run)
                     (set_support_run (spr_id run) (\<lambda>r. r\<lparr>spr_status := SUPPORTING_SUCCEEDED, spr_output := Some out\<rparr>) db1))))"

definition mark_operational_failure :: "worker_env \<Rightarrow> case_document \<Rightarrow> case_db \<Rightarrow> case_db" where
  "mark_operational_failure env a db =
     (let (run, db1) = get_or_create_support env a db;
          db2 = log_case env a (''support-processing-failed:'' @ uuid_text (spr_id run)) ''PROCESSING_FAILED'' ''processing'' ''failed''
            ''Supporting-document processing failed'' [(''error_code'', JStr ''processing_failed'')]
            (set_support_run (spr_id run) (\<lambda>r. r\<lparr>spr_status := SUPPORTING_FAILED, spr_output := None\<rparr>) db1)
      in if support_active db2 a then move_case env (cdoc_case_id a) (\<lambda>st. st \<noteq> CASE_FAILED) CASE_FAILED db2 else db2)"

definition process_supporting_document ::
  "worker_env \<Rightarrow> nat \<Rightarrow> supporting_output reading \<Rightarrow> uuid \<Rightarrow> case_db \<Rightarrow> nat option \<times> case_db" where
  "process_supporting_document env retries outcome aid db =
     (case find_row (\<lambda>d. cdoc_id d = aid) (kdb_documents db) of
        None \<Rightarrow> (None, db)
      | Some a \<Rightarrow>
          (case support_process env outcome a db of
             (Inr _, db1) \<Rightarrow> (None, db1)
           | (Inl (Some e), db1) \<Rightarrow> (None, db1)
           | (Inl None, db1) \<Rightarrow>
               if MAX_RETRIES \<le> retries then (None, mark_operational_failure env a db1)
               else (Some (min (2 ^ retries) 30), db1)))"

subsection \<open>Invoice extractions are written once\<close>

definition runs_ok :: "extraction_run list \<Rightarrow> bool" where
  "runs_ok runs \<longleftrightarrow> distinct (map er_id runs)
     \<and> distinct (map (\<lambda>r. (er_document_id r, er_extractor_name r, er_extractor_version r)) runs)
     \<and> list_all (\<lambda>r. er_status r = EXTRACTION_SUCCEEDED \<longrightarrow> er_output r \<noteq> None) runs"

definition fresh_run :: "worker_env \<Rightarrow> extraction_run list \<Rightarrow> bool" where
  "fresh_run env runs \<longleftrightarrow> we_run_id env \<notin> set (map er_id runs)
     \<and> (case we_racing env of None \<Rightarrow> True
        | Some r \<Rightarrow> er_id r \<notin> insert (we_run_id env) (set (map er_id runs)) \<and> er_status r = EXTRACTION_PROCESSING \<and> er_output r = None
            \<and> (er_document_id r, er_extractor_name r, er_extractor_version r)
              \<notin> set (map (\<lambda>x. (er_document_id x, er_extractor_name x, er_extractor_version x)) runs))"

text \<open>A run of an extractor for a document.\<close>

definition own_run :: "string \<times> string \<Rightarrow> uuid \<Rightarrow> extraction_run \<Rightarrow> bool" where
  "own_run ex doc r \<longleftrightarrow> er_document_id r = doc \<and> (er_extractor_name r, er_extractor_version r) = ex"

lemma get_or_create_run_ok:
  assumes "get_or_create_run ex env doc runs = (x, runs')" and "runs_ok runs" and "fresh_run env runs"
  obtains run new where "x = Inr run" and "run \<in> set runs'" and "runs' = runs @ new" and "runs_ok runs'"
    and "find_extraction ex runs' doc = Some run" and "\<forall>r \<in> set new. er_status r = EXTRACTION_PROCESSING"
proof (cases "find_extraction ex runs doc")
  case (Some existing)
  with assms show ?thesis
    by (intro that [of existing "[]"]) (auto simp: get_or_create_run_def find_extraction_def dest: find_row_Some)
next
  case None
  let ?run = "\<lparr>er_id = we_run_id env, er_document_id = doc, er_extractor_name = fst ex,
      er_extractor_version = snd ex, er_status = EXTRACTION_PROCESSING, er_output = None, er_created_at = we_now env\<rparr>"
  define extra where "extra = (case we_racing env of None \<Rightarrow> [] | Some r \<Rightarrow> [r])"
  have extra: "(case we_racing env of None \<Rightarrow> runs | Some r \<Rightarrow> runs @ [r]) = runs @ extra" "\<forall>r \<in> set extra. er_status r = EXTRACTION_PROCESSING"
    using assms(3) by (auto simp: extra_def fresh_run_def split: option.splits)
  have ok1: "runs_ok (runs @ extra)" "we_run_id env \<notin> set (map er_id (runs @ extra))"
    using assms(2,3) by (auto simp: extra_def runs_ok_def fresh_run_def split: option.splits)
  show ?thesis
  proof (cases "find_extraction ex (runs @ extra) doc")
    case (Some c)
    with None assms(1) extra ok1 show ?thesis
      by (intro that [of c extra]) (auto simp: get_or_create_run_def find_extraction_def Let_def dest: find_row_Some)
  next
    case fresh: None
    have "runs_ok ((runs @ extra) @ [?run])"
      using ok1 fresh by (auto simp: runs_ok_def find_extraction_def find_row_None_iff image_iff)
    with None fresh assms(1) extra show ?thesis
      by (intro that [of ?run "extra @ [?run]"])
        (auto simp: get_or_create_run_def find_extraction_def Let_def find_row_append)
  qed
qed

lemma find_run_id: "runs_ok runs \<Longrightarrow> r \<in> set runs \<Longrightarrow> find_row (\<lambda>x. er_id x = er_id r) runs = Some r"
  by (rule find_row_key) (auto simp: runs_ok_def)

lemma set_runs_ok [inv_intros]:
  "runs_ok runs \<Longrightarrow> st \<noteq> EXTRACTION_SUCCEEDED \<Longrightarrow> runs_ok (set_unless_succeeded rid st runs)"
  "runs_ok runs \<Longrightarrow> runs_ok (set_run rid EXTRACTION_SUCCEEDED (Some i) runs)"
  by (auto simp: runs_ok_def set_unless_succeeded_def set_run_def map_update_rows list_all_iff set_update_rows)

lemma mark_processing_ok [inv_intros]: "runs_ok runs \<Longrightarrow> runs_ok (mark_processing run runs)"
  by (auto simp: mark_processing_def intro: inv_intros)

text \<open>Succeeded runs are kept by every write but that of a result.\<close>

lemma succeeded_kept:
  assumes "er_status r = EXTRACTION_SUCCEEDED" and "r \<in> set runs"
  shows "r \<in> set (set_unless_succeeded rid st runs)" and "r \<in> set (mark_processing run runs)"
    and "er_id r \<noteq> rid \<Longrightarrow> r \<in> set (set_run rid st' out runs)"
  using assms by (force simp: mark_processing_def set_unless_succeeded_def set_run_def set_update_rows image_iff)+

text \<open>The part before the document is read.\<close>

lemma extraction_begin_ok:
  assumes "extraction_begin ex env doc runs = (x, runs')" and "runs_ok runs" and "fresh_run env runs"
  obtains run where "x = Inr run" and "run \<in> set runs'" and "runs_ok runs'" and "own_run ex doc run"
    and "{r \<in> set runs. er_status r = EXTRACTION_SUCCEEDED} \<subseteq> set runs'"
proof -
  obtain g runs1 where g: "get_or_create_run ex env doc runs = (g, runs1)" by fastforce
  from get_or_create_run_ok [OF g assms(2,3)] obtain run new where
    r: "g = Inr run" "run \<in> set runs1" "runs1 = runs @ new" "runs_ok runs1" "find_extraction ex runs1 doc = Some run"
    by metis
  have doc: "own_run ex doc run" using r(5) by (auto simp: own_run_def find_extraction_def dest: find_row_Some)
  show ?thesis
  proof (cases "er_status run = EXTRACTION_SUCCEEDED")
    case True
    with assms(1) g r doc show ?thesis by (intro that [of run]) (auto simp: extraction_begin_def)
  next
    case False
    define f :: "extraction_run \<Rightarrow> extraction_run" where "f = (\<lambda>x. if er_status run = EXTRACTION_PROCESSING \<or> er_id x \<noteq> er_id run \<or> er_status x = EXTRACTION_SUCCEEDED then x
      else x\<lparr>er_status := EXTRACTION_PROCESSING, er_output := None\<rparr>)"
    have "set (mark_processing run runs1) = f ` set runs1"
      by (force simp: mark_processing_def set_unless_succeeded_def set_update_rows f_def)
    then have mem: "f run \<in> set (mark_processing run runs1)" using r(2) by auto
    have ok: "runs_ok (mark_processing run runs1)" using r(4) by (rule mark_processing_ok)
    have "er_id (f run) = er_id run" "own_run ex doc (f run)" using doc by (auto simp: f_def own_run_def)
    with find_run_id [OF ok mem] False g r(1) assms(1)
    have "x = Inr (f run) \<and> runs' = mark_processing run runs1" by (auto simp: extraction_begin_def Let_def)
    with mem ok r(3) \<open>own_run ex doc (f run)\<close> show ?thesis
      by (intro that [of "f run"]) (auto intro: succeeded_kept)
  qed
qed

lemma extraction_finish_ok:
  assumes "extraction_finish outcome (er_id run) runs = (x, runs')" and "runs_ok runs" and "run \<in> set runs"
  shows "runs_ok runs'" and "x = Inr r \<Longrightarrow> r \<in> set runs' \<and> er_status r = EXTRACTION_SUCCEEDED \<and> (own_run ex doc run \<longrightarrow> own_run ex doc r)"
    and "\<exists>i. outcome = Extracted i \<Longrightarrow> \<exists>r. x = Inr r"
    and "er_status run \<noteq> EXTRACTION_SUCCEEDED \<Longrightarrow> {r \<in> set runs. er_status r = EXTRACTION_SUCCEEDED} \<subseteq> set runs'"
proof -
  show ok: "runs_ok runs'"
    using assms(1,2) by (auto simp: extraction_finish_def Let_def intro: inv_intros split: reading.splits option.splits)
  have found: "find_row (\<lambda>r. er_id r = er_id run) (set_run (er_id run) EXTRACTION_SUCCEEDED (Some i) runs)
      = Some (run\<lparr>er_status := EXTRACTION_SUCCEEDED, er_output := Some i\<rparr>)" for i
    using find_run_id [OF assms(2,3)] by (simp add: set_run_def find_row_update_rows)
  show "r \<in> set runs' \<and> er_status r = EXTRACTION_SUCCEEDED \<and> (own_run ex doc run \<longrightarrow> own_run ex doc r)" if "x = Inr r"
    using assms(1,3) that found
    by (auto simp: extraction_finish_def Let_def own_run_def split: reading.splits dest: find_row_Some)
  show "\<exists>r. x = Inr r" if "\<exists>i. outcome = Extracted i"
    using assms(1) that found by (auto simp: extraction_finish_def Let_def)
  show "{r \<in> set runs. er_status r = EXTRACTION_SUCCEEDED} \<subseteq> set runs'" if "er_status run \<noteq> EXTRACTION_SUCCEEDED"
  proof
    fix r
    assume r: "r \<in> {r \<in> set runs. er_status r = EXTRACTION_SUCCEEDED}"
    then have "er_id r \<noteq> er_id run" using assms(2,3) that by (auto simp: runs_ok_def distinct_map inj_on_def)
    with r assms(1) found show "r \<in> set runs'"
      by (auto simp: extraction_finish_def Let_def split: reading.splits intro: succeeded_kept)
  qed
qed

lemma extraction_process_ok:
  assumes "extraction_process env outcome doc runs = (x, runs')" and "runs_ok runs" and "fresh_run env runs"
  shows "runs_ok runs'" and "{r \<in> set runs. er_status r = EXTRACTION_SUCCEEDED} \<subseteq> set runs'"
    and "x = Inr r \<Longrightarrow> r \<in> set runs' \<and> er_status r = EXTRACTION_SUCCEEDED \<and> own_run EXTRACTOR doc r"
    and "\<exists>i. outcome = Extracted i \<Longrightarrow> \<exists>r. x = Inr r"
proof -
  obtain b runs1 where b: "extraction_begin EXTRACTOR env doc runs = (b, runs1)" by fastforce
  from extraction_begin_ok [OF b assms(2,3)] obtain run where
    r: "b = Inr run" "run \<in> set runs1" "runs_ok runs1" "own_run EXTRACTOR doc run"
      "{r \<in> set runs. er_status r = EXTRACTION_SUCCEEDED} \<subseteq> set runs1" by metis
  have "runs_ok runs' \<and> {r \<in> set runs. er_status r = EXTRACTION_SUCCEEDED} \<subseteq> set runs'
      \<and> (\<forall>r. x = Inr r \<longrightarrow> r \<in> set runs' \<and> er_status r = EXTRACTION_SUCCEEDED \<and> own_run EXTRACTOR doc r)
      \<and> ((\<exists>i. outcome = Extracted i) \<longrightarrow> (\<exists>r. x = Inr r))"
  proof (cases "er_status run = EXTRACTION_SUCCEEDED")
    case True
    with assms(1) b r show ?thesis by (auto simp: extraction_process_def)
  next
    case False
    with assms(1) b r(1) have fin: "extraction_finish outcome (er_id run) runs1 = (x, runs')"
      by (simp add: extraction_process_def)
    show ?thesis
      using extraction_finish_ok [OF fin r(3,2)] r(4,5) False by fastforce
  qed
  then show "runs_ok runs'" and "{r \<in> set runs. er_status r = EXTRACTION_SUCCEEDED} \<subseteq> set runs'"
    and "x = Inr r \<Longrightarrow> r \<in> set runs' \<and> er_status r = EXTRACTION_SUCCEEDED \<and> own_run EXTRACTOR doc r"
    and "\<exists>i. outcome = Extracted i \<Longrightarrow> \<exists>r. x = Inr r" by simp_all
qed

subsection \<open>What a delivery writes\<close>

lemma log_job_sel [simp]:
  "kdb_matching (log_job env d db) = kdb_matching db" "kdb_cases (log_job env d db) = kdb_cases db"
  "kdb_documents (log_job env d db) = kdb_documents db" "idb_jobs (kdb_ingestion (log_job env d db)) = idb_jobs (kdb_ingestion db)"
  "find_job (log_job env d db) = find_job db"
  by (simp_all add: log_job_def find_job_def fun_eq_iff)

lemma set_job_sel [simp]:
  "kdb_matching (set_job job st c m db) = kdb_matching db" "kdb_cases (set_job job st c m db) = kdb_cases db"
  "kdb_documents (set_job job st c m db) = kdb_documents db"
  by (simp_all add: set_job_def)

lemma find_set_job [simp]:
  "find_job (set_job job st c m db) job = map_option (\<lambda>j. j\<lparr>ij_status := st, ij_error_code := c, ij_error_message := m\<rparr>) (find_job db job)"
proof (cases "find_job db job")
  case None
  then show ?thesis by (simp add: find_job_def set_job_def find_row_update_rows)
next
  case (Some j)
  then have "ij_id j = job" by (auto simp: find_job_def dest: find_row_Some)
  with Some show ?thesis by (simp add: find_job_def set_job_def find_row_update_rows)
qed

lemma case_writes_sel [simp]:
  "kdb_ingestion (log_case env a key kind stage status msg payload db) = kdb_ingestion db"
  "kdb_matching (log_case env a key kind stage status msg payload db) = kdb_matching db"
  "kdb_documents (log_case env a key kind stage status msg payload db) = kdb_documents db"
  "kdb_cases (log_case env a key kind stage status msg payload db) = kdb_cases db"
  "kdb_support_runs (log_case env a key kind stage status msg payload db) = kdb_support_runs db"
  "kdb_ingestion (move_case env cid cond st db) = kdb_ingestion db"
  "kdb_matching (move_case env cid cond st db) = kdb_matching db"
  "kdb_documents (move_case env cid cond st db) = kdb_documents db"
  "kdb_support_runs (move_case env cid cond st db) = kdb_support_runs db"
  by (simp_all add: log_case_def move_case_def split: option.split)

lemma invoice_folds_sel [simp]:
  "kdb_ingestion (foldl (invoice_completed env run) db as) = kdb_ingestion db"
  "kdb_matching (foldl (invoice_completed env run) db as) = kdb_matching db"
  "kdb_ingestion (foldl (invoice_failed env job code) db as) = kdb_ingestion db"
  "kdb_matching (foldl (invoice_failed env job code) db as) = kdb_matching db"
  by (induction as arbitrary: db) (simp_all add: invoice_completed_def invoice_failed_def)

lemma find_job_cong: "kdb_ingestion db = kdb_ingestion db' \<Longrightarrow> find_job db = find_job db'"
  by (simp add: find_job_def fun_eq_iff)

definition job_state :: "case_db \<Rightarrow> uuid \<Rightarrow> job_status option" where
  "job_state db job = map_option ij_status (find_job db job)"

lemma job_started_state [simp]:
  "find_job (job_started env job db) job = map_option (\<lambda>j. j\<lparr>ij_status := PROCESSING, ij_error_code := None, ij_error_message := None\<rparr>) (find_job db job)"
  "kdb_matching (job_started env job db) = kdb_matching db" "kdb_documents (job_started env job db) = kdb_documents db"
  "kdb_cases (job_started env job db) = kdb_cases db"
  by (simp_all add: job_started_def)

lemma job_succeeded_state:
  "job_state (job_succeeded env j run db) (ij_id j) = map_option (\<lambda>_. SUCCEEDED) (job_state db (ij_id j))"
  "kdb_matching (job_succeeded env j run db) = kdb_matching db"
  by (simp_all add: job_succeeded_def Let_def job_state_def find_job_cong [OF invoice_folds_sel(1)] option.map_comp comp_def)

lemma record_failure_state:
  "job_state (record_failure env job terminal code msg db) job
    = map_option (\<lambda>st. if st = SUCCEEDED then SUCCEEDED else if terminal then JOB_FAILED else QUEUED) (job_state db job)"
  "kdb_matching (record_failure env job terminal code msg db) = kdb_matching db"
  by (auto simp: record_failure_def Let_def job_state_def find_job_cong [OF invoice_folds_sel(3)] split: option.splits)

text \<open>The state of the job after one attempt.\<close>

lemma run_job_state:
  assumes "run_job env outcome job db = (x, db')" and "job_state db job = Some st"
  shows "st = SUCCEEDED \<Longrightarrow> x = Inr False \<and> db' = db"
    and "st \<noteq> SUCCEEDED \<Longrightarrow> x = Inr True \<Longrightarrow> job_state db' job = Some SUCCEEDED"
    and "st \<noteq> SUCCEEDED \<Longrightarrow> x \<noteq> Inr True \<Longrightarrow> (\<exists>e. x = Inl e) \<and> job_state db' job = Some PROCESSING"
proof -
  obtain j where j: "find_job db job = Some j" "ij_status j = st" using assms(2) by (auto simp: job_state_def)
  then have jid: "ij_id j = job" by (auto simp: find_job_def dest: find_row_Some)
  let ?db1 = "job_started env job db"
  obtain r runs where p: "extraction_process env outcome (ij_document_id j) (gdb_extractions (kdb_matching db)) = (r, runs)"
    by fastforce
  have st2: "job_state (?db1\<lparr>kdb_matching := m\<rparr>) job = Some PROCESSING" for m
    using j by (simp add: job_state_def find_job_cong [of "?db1\<lparr>kdb_matching := m\<rparr>" ?db1])
  show "st = SUCCEEDED \<Longrightarrow> x = Inr False \<and> db' = db"
    using assms(1) j by (simp add: run_job_def)
  show "st \<noteq> SUCCEEDED \<Longrightarrow> x = Inr True \<Longrightarrow> job_state db' job = Some SUCCEEDED"
    using assms(1) j p job_succeeded_state(1) [of env j] jid st2
    by (auto simp: run_job_def Let_def split: sum.splits)
  show "st \<noteq> SUCCEEDED \<Longrightarrow> x \<noteq> Inr True \<Longrightarrow> (\<exists>e. x = Inl e) \<and> job_state db' job = Some PROCESSING"
    using assms(1) j p st2 by (auto simp: run_job_def Let_def split: sum.splits)
qed

lemma process_document_state:
  assumes "process_document env retries outcome job db = (x, db')" and "job_state db job = Some st"
  shows "x = None \<Longrightarrow> job_state db' job \<in> {Some SUCCEEDED, Some JOB_FAILED}"
    and "x = Some n \<Longrightarrow> job_state db' job = Some QUEUED \<and> retries < MAX_RETRIES \<and> n = 2 ^ retries"
proof -
  obtain r db1 where r: "run_job env outcome job db = (r, db1)" by fastforce
  note st = run_job_state [OF r assms(2)]
  have pow: "min (2 ^ retries) 30 = (2 :: nat) ^ retries" if "retries < MAX_RETRIES"
  proof -
    have "(2 :: nat) ^ retries \<le> 2 ^ 3" using that by (intro power_increasing) (auto simp: MAX_RETRIES_def)
    then show ?thesis by simp
  qed
  show "x = None \<Longrightarrow> job_state db' job \<in> {Some SUCCEEDED, Some JOB_FAILED}"
    using assms r st
    by (cases "st = SUCCEEDED") (auto simp: process_document_def Let_def record_failure_state split: sum.splits option.splits if_splits)
  show "x = Some n \<Longrightarrow> job_state db' job = Some QUEUED \<and> retries < MAX_RETRIES \<and> n = 2 ^ retries"
    using assms r st pow
    by (cases "st = SUCCEEDED") (auto simp: process_document_def Let_def record_failure_state split: sum.splits option.splits if_splits)
qed

lemma deliver_settles:
  assumes "job_state db job = Some st" and "MAX_RETRIES < retries + length ds" and "ds \<noteq> []"
  shows "job_state (deliver retries ds job db) job \<in> {Some SUCCEEDED, Some JOB_FAILED}"
  using assms
proof (induction retries ds job db arbitrary: st rule: deliver.induct)
  case (2 retries env outcome rest job db)
  obtain x db1 where x: "process_document env retries outcome job db = (x, db1)" by fastforce
  show ?case
  proof (cases x)
    case None
    with x process_document_state(1) [OF x 2(2)] show ?thesis by simp
  next
    case (Some n)
    with process_document_state(2) [OF x 2(2)] have q: "job_state db1 job = Some QUEUED" "retries < MAX_RETRIES" by auto
    with x Some 2(3) show ?thesis using "2.IH" [OF x [symmetric] Some q(1)] by (cases "rest = []") auto
  qed
qed simp

subsection \<open>The pipeline\<close>

text \<open>
  The system of the service and the worker: the case service, which does not write extraction runs, and
  deliveries of the two tasks.
\<close>

inductive pipeline_step :: "lib \<Rightarrow> case_db \<Rightarrow> case_db \<Rightarrow> bool" for lib where
  service: "case_step lib db db' \<Longrightarrow> gdb_extractions (kdb_matching db') = gdb_extractions (kdb_matching db) \<Longrightarrow>
    pipeline_step lib db db'"
| invoice: "fresh_run env (gdb_extractions (kdb_matching db)) \<Longrightarrow>
    pipeline_step lib db (snd (process_document env retries outcome job db))"
| supporting: "pipeline_step lib db (snd (process_supporting_document env retries outcome aid db))"

text \<open>A job that has succeeded has a stored extraction of its document.\<close>

definition jobs_backed :: "case_db \<Rightarrow> bool" where
  "jobs_backed db \<longleftrightarrow> (\<forall>j \<in> set (idb_jobs (kdb_ingestion db)). ij_status j = SUCCEEDED \<longrightarrow>
     (\<exists>r \<in> set (gdb_extractions (kdb_matching db)). own_run EXTRACTOR (ij_document_id j) r \<and> er_status r = EXTRACTION_SUCCEEDED))"

definition pipeline_inv :: "lib \<Rightarrow> case_db \<Rightarrow> bool" where
  "pipeline_inv lib db \<longleftrightarrow> case_inv lib db \<and> runs_ok (gdb_extractions (kdb_matching db)) \<and> jobs_backed db"

definition pipeline_start :: "case_db \<Rightarrow> bool" where
  "pipeline_start db \<longleftrightarrow> case_start db \<and> gdb_extractions (kdb_matching db) = []"

text \<open>Only the worker completes a job.\<close>

lemma ingest_jobs:
  assumes "ingest lib env n dispatch c db = (x, db')"
  shows "j \<in> set (idb_jobs db') \<Longrightarrow> j \<in> set (idb_jobs db) \<or> ij_status j = QUEUED"
  using assms
  by (auto simp: ingest_def store_call_def raced_def insert_upload_def put_object_def delete_object_def new_job_def Let_def
      split: sum.splits option.splits if_splits)

lemma enqueue_jobs [simp]:
  "idb_jobs (kdb_ingestion (enqueue fails job db)) = idb_jobs (kdb_ingestion db)"
  "idb_jobs (kdb_ingestion (enqueue_supporting fails aid db)) = idb_jobs (kdb_ingestion db)"
  "idb_jobs (kdb_ingestion (redispatch fails a db)) = idb_jobs (kdb_ingestion db)"
  by (auto simp: enqueue_def enqueue_supporting_def redispatch_def split: option.splits)

lemma attach_begin_jobs:
  assumes "j \<in> set (idb_jobs (kdb_ingestion (snd (attach_begin lib env n c db))))"
  shows "j \<in> set (idb_jobs (kdb_ingestion db)) \<or> ij_status j = QUEUED"
  using assms
  by (auto simp: attach_begin_def sync_documents_def split: option.splits if_splits prod.splits sum.splits dest: ingest_jobs)

lemma attach_finish_jobs:
  "idb_jobs (kdb_ingestion (snd (attach_finish lib aid now fails c initial job expired db))) = idb_jobs (kdb_ingestion db)"
  by (auto simp: attach_finish_def store_attachment_def Let_def split: option.splits if_splits sum.splits prod.splits)

lemma case_create_ingestion [simp]: "kdb_ingestion (snd (case_create lib racing cid now key db)) = kdb_ingestion db"
  by (auto simp: case_create_def create_raced_def insert_case_def Let_def split: option.splits if_splits prod.splits)

lemma confirm_ingestion [simp]:
  "kdb_ingestion db0 = kdb_ingestion db1 \<Longrightarrow> kdb_ingestion (snd (store_confirmation now row a f db0 db1)) = kdb_ingestion db1"
  "kdb_ingestion (snd (store_receipt lib fresh now cid row a rc corrected db)) = kdb_ingestion db"
  "kdb_ingestion (snd (confirm_purchase_order lib fresh now cid pc db)) = kdb_ingestion db"
  "kdb_ingestion (snd (confirm_receipt lib fresh now cid doc rc db)) = kdb_ingestion db"
proof -
  show st: "kdb_ingestion (snd (store_confirmation now row a f db0 db1)) = kdb_ingestion db1" if "kdb_ingestion db0 = kdb_ingestion db1" for row a f db0 db1
    using that by (simp add: store_confirmation_def Let_def)
  show rc: "kdb_ingestion (snd (store_receipt lib fresh now cid row a rc corrected db)) = kdb_ingestion db" for row a corrected
    by (simp add: store_receipt_def Let_def st split: sum.split)
  show "kdb_ingestion (snd (confirm_purchase_order lib fresh now cid pc db)) = kdb_ingestion db"
    by (simp add: confirm_purchase_order_def Let_def st split: sum.split option.split supporting_output.split)
  show "kdb_ingestion (snd (confirm_receipt lib fresh now cid doc rc db)) = kdb_ingestion db"
    by (simp add: confirm_receipt_def Let_def rc split: sum.split option.split supporting_output.split)
qed

lemma case_match_ingestion [simp]:
  "kdb_ingestion (snd (case_match_begin lib menv policy policy3 cid mc db)) = kdb_ingestion db"
  "kdb_ingestion (snd (case_match_finish lib now cid mc initial expired i run db)) = kdb_ingestion db"
  by (auto simp: case_match_begin_def case_match_finish_def Let_def split: option.splits if_splits sum.splits prod.splits)

lemma case_step_jobs:
  assumes "case_step lib db db'" and "j \<in> set (idb_jobs (kdb_ingestion db'))"
  shows "j \<in> set (idb_jobs (kdb_ingestion db)) \<or> ij_status j = QUEUED"
  using assms(1)
proof (cases rule: case_step.cases)
  case attach1
  with assms(2) show ?thesis using attach_begin_jobs by simp
next
  case attach2
  with assms(2) show ?thesis by (simp add: attach_finish_jobs)
qed (use assms(2) in simp_all)

lemma log_job_inv: "case_inv lib db \<Longrightarrow> case_inv lib (log_job env d db)"
  by (auto simp: log_job_def case_inv_def ingestion_ok_def intro: inv_intros)

lemma set_job_inv: "case_inv lib db \<Longrightarrow> case_inv lib (set_job job st c m db)"
  by (auto simp: set_job_def case_inv_def ingestion_ok_def map_update_rows)

lemma log_case_inv: "case_inv lib db \<Longrightarrow> case_inv lib (log_case env a key kind stage status msg payload db)"
  by (auto simp: log_case_def case_inv_def intro: inv_intros)

lemma move_case_inv: "case_inv lib db \<Longrightarrow> case_inv lib (move_case env cid cond st db)"
  by (auto simp: move_case_def case_inv_def split: option.splits)

lemmas row_invs = log_job_inv set_job_inv log_case_inv move_case_inv

lemma invoice_row_inv:
  "case_inv lib db \<Longrightarrow> case_inv lib (invoice_completed env run db a)"
  "case_inv lib db \<Longrightarrow> case_inv lib (invoice_failed env job code db a)"
  unfolding invoice_completed_def invoice_failed_def by (rule row_invs, rule row_invs, assumption)+

lemma invoice_folds_inv:
  "case_inv lib db \<Longrightarrow> case_inv lib (foldl (invoice_completed env run) db as)"
  "case_inv lib db \<Longrightarrow> case_inv lib (foldl (invoice_failed env job code) db as)"
  by (induction as arbitrary: db) (simp_all add: invoice_row_inv)

lemmas worker_invs = row_invs invoice_folds_inv

lemma record_failure_inv: "case_inv lib db \<Longrightarrow> case_inv lib (record_failure env job terminal code msg db)"
  by (auto simp: record_failure_def Let_def split: option.splits intro!: worker_invs)

lemma run_job_inv:
  assumes "case_inv lib db" and "run_job env outcome job db = (x, db')"
  shows "case_inv lib db'"
proof -
  have started: "case_inv lib (job_started env job db)"
    using assms(1) by (auto simp: job_started_def intro: worker_invs)
  show ?thesis
    using assms started
    by (auto simp: run_job_def job_succeeded_def Let_def split: option.splits if_splits prod.splits sum.splits intro!: worker_invs)
qed

lemma process_document_inv:
  assumes "case_inv lib db" and "process_document env retries outcome job db = (x, db')"
  shows "case_inv lib db'"
  using assms run_job_inv [OF assms(1)]
  by (auto simp: process_document_def Let_def split: prod.splits sum.splits option.splits intro: worker_invs record_failure_inv)

lemma support_runs_inv [simp]:
  "case_inv lib (db\<lparr>kdb_support_runs := rs\<rparr>) = case_inv lib db" "case_inv lib (set_support_run rid f db) = case_inv lib db"
  by (simp_all add: case_inv_def set_support_run_def)

lemma get_or_create_support_sel:
  assumes "get_or_create_support env a db = (run, db')"
  shows "db' = db\<lparr>kdb_support_runs := kdb_support_runs db'\<rparr>"
  using assms by (auto simp: get_or_create_support_def Let_def split: option.splits)

lemma process_supporting_inv:
  assumes "case_inv lib db" and "process_supporting_document env retries outcome aid db = (x, db')"
  shows "case_inv lib db'"
proof -
  have create: "case_inv lib d'" if "case_inv lib d" and "get_or_create_support env a d = (run, d')" for a run d d'
    using that get_or_create_support_sel support_runs_inv(1) by metis
  have process: "case_inv lib d'" if "case_inv lib d" and "support_process env outcome a d = (y, d')" for a y d d'
    using that create [OF that(1)]
    by (auto simp: support_process_def support_succeeded_def Let_def split: if_splits prod.splits reading.splits intro!: worker_invs)
  have mark: "case_inv lib (mark_operational_failure env a d)" if "case_inv lib d" for a d
    using create [OF that]
    by (auto simp: mark_operational_failure_def Let_def split: prod.splits intro!: worker_invs)
  show ?thesis
    using assms process mark
    by (auto simp: process_supporting_document_def split: option.splits prod.splits sum.splits if_splits)
qed

lemma jobs_backed_runs:
  assumes "jobs_backed db" and "{r \<in> set (gdb_extractions (kdb_matching db)). er_status r = EXTRACTION_SUCCEEDED} \<subseteq> set runs"
  shows "jobs_backed (db\<lparr>kdb_matching := (kdb_matching db)\<lparr>gdb_extractions := runs\<rparr>\<rparr>)"
  using assms unfolding jobs_backed_def by fastforce

lemma jobs_backed_cong:
  "idb_jobs (kdb_ingestion db) = idb_jobs (kdb_ingestion db') \<Longrightarrow> kdb_matching db = kdb_matching db' \<Longrightarrow> jobs_backed db = jobs_backed db'"
  by (simp add: jobs_backed_def)

lemma jobs_backed_set_job:
  assumes "jobs_backed db" and "st = SUCCEEDED \<Longrightarrow> \<forall>j \<in> set (idb_jobs (kdb_ingestion db)). ij_id j = job \<longrightarrow>
    (\<exists>r \<in> set (gdb_extractions (kdb_matching db)). own_run EXTRACTOR (ij_document_id j) r \<and> er_status r = EXTRACTION_SUCCEEDED)"
  shows "jobs_backed (set_job job st c m db)"
  using assms by (auto simp: jobs_backed_def set_job_def set_update_rows)

lemma record_failure_backed: "jobs_backed db \<Longrightarrow> jobs_backed (record_failure env job terminal code msg db)"
  by (auto simp: record_failure_def Let_def jobs_backed_cong [OF arg_cong [OF invoice_folds_sel(3)] invoice_folds_sel(4)]
      jobs_backed_cong [OF log_job_sel(4) log_job_sel(1)] intro!: jobs_backed_set_job split: option.splits)

lemma job_started_backed: "jobs_backed db \<Longrightarrow> jobs_backed (job_started env job db)"
  by (simp add: job_started_def jobs_backed_cong [OF log_job_sel(4) log_job_sel(1)]) (auto intro: jobs_backed_set_job)

lemma job_succeeded_backed:
  assumes "jobs_backed db" and "\<forall>j' \<in> set (idb_jobs (kdb_ingestion db)). ij_id j' = ij_id j \<longrightarrow> own_run EXTRACTOR (ij_document_id j') run"
    and "run \<in> set (gdb_extractions (kdb_matching db))" and "er_status run = EXTRACTION_SUCCEEDED"
  shows "jobs_backed (job_succeeded env j run db)"
  using assms
  by (auto simp: job_succeeded_def Let_def jobs_backed_cong [OF arg_cong [OF invoice_folds_sel(1)] invoice_folds_sel(2)]
      jobs_backed_cong [OF log_job_sel(4) log_job_sel(1)] intro!: jobs_backed_set_job)

lemma job_started_rows:
  "j' \<in> set (idb_jobs (kdb_ingestion (job_started env job db))) \<Longrightarrow>
   \<exists>y \<in> set (idb_jobs (kdb_ingestion db)). ij_id y = ij_id j' \<and> ij_document_id y = ij_document_id j'"
  by (fastforce simp: job_started_def set_job_def set_update_rows split: if_splits)

lemma job_started_documents:
  assumes "case_inv lib db" and "find_job db job = Some j" and "j' \<in> set (idb_jobs (kdb_ingestion (job_started env job db)))" and "ij_id j' = job"
  shows "ij_document_id j' = ij_document_id j"
proof -
  have "distinct (map ij_id (idb_jobs (kdb_ingestion db)))" using assms(1) by (simp add: case_inv_def ingestion_ok_def)
  moreover have "j \<in> set (idb_jobs (kdb_ingestion db))" "ij_id j = job" using assms(2) by (auto simp: find_job_def dest: find_row_Some)
  moreover obtain y where "y \<in> set (idb_jobs (kdb_ingestion db))" "ij_id y = job" "ij_document_id y = ij_document_id j'"
    using job_started_rows [OF assms(3)] assms(4) by blast
  ultimately have "y = j" by (auto simp: distinct_map inj_on_def)
  with \<open>ij_document_id y = _\<close> show ?thesis by simp
qed

lemma run_job_pipeline:
  assumes "pipeline_inv lib db" and "fresh_run env (gdb_extractions (kdb_matching db))" and "run_job env outcome job db = (x, db')"
  shows "runs_ok (gdb_extractions (kdb_matching db')) \<and> jobs_backed db'"
proof (cases "job_state db job \<in> {None, Some SUCCEEDED}")
  case True
  with assms(1,3) show ?thesis by (auto simp: run_job_def job_state_def pipeline_inv_def)
next
  case False
  then obtain j where j: "find_job db job = Some j" "ij_status j \<noteq> SUCCEEDED" by (auto simp: job_state_def)
  then have jid: "ij_id j = job" by (auto simp: find_job_def dest: find_row_Some)
  let ?db1 = "job_started env job db"
  obtain r runs where p: "extraction_process env outcome (ij_document_id j) (gdb_extractions (kdb_matching db)) = (r, runs)"
    by fastforce
  have inv: "case_inv lib db" "runs_ok (gdb_extractions (kdb_matching db))" "jobs_backed db"
    using assms(1) by (simp_all add: pipeline_inv_def)
  note ok = extraction_process_ok [OF p inv(2) assms(2)]
  let ?db2 = "?db1\<lparr>kdb_matching := (kdb_matching ?db1)\<lparr>gdb_extractions := runs\<rparr>\<rparr>"
  have backed: "jobs_backed ?db2" using jobs_backed_runs [OF job_started_backed [OF inv(3)]] ok(2) by simp
  show ?thesis
  proof (cases r)
    case (Inl e)
    with assms(3) j p backed ok(1) show ?thesis by (auto simp: run_job_def Let_def)
  next
    case (Inr run)
    with ok(3) have run: "run \<in> set runs" "er_status run = EXTRACTION_SUCCEEDED" "own_run EXTRACTOR (ij_document_id j) run" by auto
    have "jobs_backed (job_succeeded env j run ?db2)"
      by (rule job_succeeded_backed [OF backed]) (use run jid job_started_documents [OF inv(1) j(1)] in auto)
    with Inr assms(3) j p ok(1) show ?thesis by (auto simp: run_job_def Let_def job_succeeded_state)
  qed
qed

lemma process_document_pipeline:
  assumes "pipeline_inv lib db" and "fresh_run env (gdb_extractions (kdb_matching db))"
    and "process_document env retries outcome job db = (x, db')"
  shows "pipeline_inv lib db'"
  using assms(3) run_job_pipeline [OF assms(1,2)] process_document_inv [OF _ assms(3)] assms(1)
  by (auto simp: pipeline_inv_def process_document_def Let_def record_failure_state record_failure_backed
      split: prod.splits sum.splits option.splits)

lemma support_frame:
  assumes "process_supporting_document env retries outcome aid db = (x, db')"
  shows "kdb_ingestion db' = kdb_ingestion db \<and> kdb_matching db' = kdb_matching db"
proof -
  have create: "kdb_ingestion d' = kdb_ingestion d \<and> kdb_matching d' = kdb_matching d"
    if "get_or_create_support env a d = (run, d')" for a run d d'
    using get_or_create_support_sel [OF that] by (metis case_db.select_convs case_db.surjective case_db.update_convs(3))
  have process: "kdb_ingestion d' = kdb_ingestion d \<and> kdb_matching d' = kdb_matching d"
    if "support_process env outcome a d = (y, d')" for a y d d'
    using that
    by (auto simp: support_process_def support_succeeded_def set_support_run_def Let_def split: if_splits prod.splits reading.splits dest!: create)
  have mark: "kdb_ingestion (mark_operational_failure env a d) = kdb_ingestion d
      \<and> kdb_matching (mark_operational_failure env a d) = kdb_matching d" for a d
    by (auto simp: mark_operational_failure_def set_support_run_def Let_def split: prod.splits dest!: create)
  show ?thesis
    using assms
    by (auto simp: process_supporting_document_def mark split: option.splits prod.splits sum.splits if_splits dest!: process)
qed

interpretation pipeline: inductive_system pipeline_start "pipeline_step lib" "pipeline_inv lib" for lib
proof
  show "pipeline_inv lib db" if "pipeline_start db" for db
    using that cases.inv_start [of db lib]
    by (auto simp: pipeline_start_def pipeline_inv_def runs_ok_def jobs_backed_def case_start_def ingestion_start_def)
  show "pipeline_inv lib db'" if "pipeline_step lib db db'" and "pipeline_inv lib db" for db db'
    using that(1)
  proof (cases rule: pipeline_step.cases)
    case service
    with that(2) cases.inv_step [of lib db db'] case_step_jobs [of lib db db'] show ?thesis
      unfolding pipeline_inv_def jobs_backed_def by (metis job_status.distinct(3))
  next
    case (invoice env retries outcome job)
    with that(2) show ?thesis by (metis process_document_pipeline surjective_pairing)
  next
    case (supporting env retries outcome aid)
    then obtain x where x: "process_supporting_document env retries outcome aid db = (x, db')" by (metis surjective_pairing)
    with that(2) show ?thesis
      using process_supporting_inv support_frame by (auto simp: pipeline_inv_def jobs_backed_def)
  qed
qed

subsection \<open>What the worker promises\<close>

lemma own_run_current:
  assumes "r \<in> set runs" and "own_run EXTRACTOR doc r" and "er_status r = EXTRACTION_SUCCEEDED" and "runs_ok runs"
  shows "\<exists>run invoice. current_successful_extraction runs doc = Some run \<and> er_output run = Some invoice"
proof -
  let ?P = "\<lambda>r. er_document_id r = doc \<and> er_status r = EXTRACTION_SUCCEEDED
      \<and> strategy_priority r < length CURRENT_EXTRACTION_STRATEGIES"
  have "strategy_priority r < length CURRENT_EXTRACTION_STRATEGIES"
    using assms(2) by (simp add: own_run_def EXTRACTOR_def strategy_priority_def strategy_key_def CURRENT_EXTRACTION_STRATEGIES_def)
  with assms have "r \<in> set (filter ?P runs)" by (simp add: own_run_def)
  then have nonempty: "filter ?P runs \<noteq> []" by force
  define qs where "qs = sort_key strategy_priority (filter ?P runs)"
  have qs: "set qs = set (filter ?P runs)" by (simp add: qs_def)
  with nonempty have "qs \<noteq> []" by (metis set_empty)
  then obtain x xs where x: "qs = x # xs" by (meson neq_Nil_conv)
  with qs have "?P x" "x \<in> set runs" by auto
  with assms(4) obtain i where "er_output x = Some i" by (auto simp: runs_ok_def list_all_iff)
  with x show ?thesis by (simp add: current_successful_extraction_def qs_def)
qed

text \<open>
  C8: in every state that uploads, requests on cases and deliveries of the worker's tasks reach, in any
  order, an invoice whose job is reported as SUCCEEDED can be matched: the selection of extractions
  finds a run of its document, with an output.
\<close>

theorem succeeded_job_matchable:
  assumes "reachable_from pipeline_start (pipeline_step lib) db"
    and "j \<in> set (idb_jobs (kdb_ingestion db))" and "ij_status j = SUCCEEDED"
  shows "\<exists>run invoice. current_successful_extraction (gdb_extractions (kdb_matching db)) (ij_document_id j) = Some run
    \<and> er_output run = Some invoice"
proof -
  have "runs_ok (gdb_extractions (kdb_matching db))" "jobs_backed db"
    using pipeline.inv_reachable [OF assms(1)] by (simp_all add: pipeline_inv_def)
  then show ?thesis using assms(2,3) own_run_current unfolding jobs_backed_def by blast
qed

text \<open>
  C11: the deliveries of a task end. An existing job that gets four deliveries, whatever reading the
  document gives each time, is SUCCEEDED or FAILED afterwards, and delivering a succeeded job again,
  any number of times, changes nothing.
\<close>

theorem worker_settles:
  assumes "find_job db job = Some j" and "MAX_RETRIES < length ds"
  shows "let db' = deliver 0 ds job db in job_state db' job \<in> {Some SUCCEEDED, Some JOB_FAILED}
    \<and> (job_state db' job = Some SUCCEEDED \<longrightarrow> (\<forall>retries ds'. deliver retries ds' job db' = db'))"
proof -
  have "deliver retries ds' job db' = db'" if "job_state db' job = Some SUCCEEDED" for retries ds' db'
  proof (cases ds')
    case (Cons d rest)
    obtain x db1 where r: "run_job (fst d) (snd d) job db' = (x, db1)" by fastforce
    with run_job_state(1) [OF r that] Cons show ?thesis by (cases d) (simp add: process_document_def)
  qed simp
  moreover have "job_state (deliver 0 ds job db) job \<in> {Some SUCCEEDED, Some JOB_FAILED}"
    by (rule deliver_settles) (use assms in \<open>auto simp: job_state_def\<close>)
  ultimately show ?thesis by (auto simp: Let_def)
qed

text \<open>
  a completed extraction is not redone. Whatever a delivery of the invoice task reads, an
  extraction that had succeeded is afterwards stored as it was.
\<close>

theorem completed_extraction_kept:
  assumes "reachable_from pipeline_start (pipeline_step lib) db" and "fresh_run env (gdb_extractions (kdb_matching db))"
    and "r \<in> set (gdb_extractions (kdb_matching db))" and "er_status r = EXTRACTION_SUCCEEDED"
  shows "r \<in> set (gdb_extractions (kdb_matching (snd (process_document env retries outcome job db))))"
proof -
  have ok: "runs_ok (gdb_extractions (kdb_matching db))"
    using pipeline.inv_reachable [OF assms(1)] by (simp add: pipeline_inv_def)
  have "r \<in> set (gdb_extractions (kdb_matching (snd (run_job env outcome job db))))"
    using assms(3,4) extraction_process_ok(2) [OF _ ok assms(2)]
    by (auto simp: run_job_def Let_def job_succeeded_state subset_iff split: option.splits prod.splits sum.splits)
  then show ?thesis
    by (auto simp: process_document_def Let_def record_failure_state split: prod.splits sum.splits option.splits)
qed

lemma finish_extracted:
  assumes "find_row (\<lambda>r. er_id r = rid) runs = Some r"
  shows "extraction_finish (Extracted i) rid runs = (Inr (r\<lparr>er_status := EXTRACTION_SUCCEEDED, er_output := Some i\<rparr>), set_run rid EXTRACTION_SUCCEEDED (Some i) runs)"
    and "find_row (\<lambda>r. er_id r = rid) (set_run rid EXTRACTION_SUCCEEDED (Some i) runs) = Some (r\<lparr>er_status := EXTRACTION_SUCCEEDED, er_output := Some i\<rparr>)"
proof -
  have "er_id r = rid" using assms(1) by (auto dest: find_row_Some)
  then show found: "find_row (\<lambda>r. er_id r = rid) (set_run rid EXTRACTION_SUCCEEDED (Some i) runs) = Some (r\<lparr>er_status := EXTRACTION_SUCCEEDED, er_output := Some i\<rparr>)"
    using assms by (simp add: set_run_def find_row_update_rows)
  show "extraction_finish (Extracted i) rid runs = (Inr (r\<lparr>er_status := EXTRACTION_SUCCEEDED, er_output := Some i\<rparr>), set_run rid EXTRACTION_SUCCEEDED (Some i) runs)"
    using found by (simp add: extraction_finish_def)
qed

lemma find_own_run:
  assumes "runs_ok runs" and "r \<in> set runs" and "own_run ex doc r"
  shows "find_extraction ex runs doc = Some r"
  unfolding find_extraction_def
proof (rule find_row_unique)
  show "y = r" if "y \<in> set runs" and "er_document_id y = doc \<and> (er_extractor_name y, er_extractor_version y) = ex" for y
    using assms that by (auto simp: runs_ok_def own_run_def distinct_map inj_on_def)
qed (use assms in \<open>auto simp: own_run_def\<close>)

text \<open>
  Two workers on the same document. When a second delivery has begun before the first one stores
  its result, both find the run in progress and the second result replaces the output of the run that
  the first had completed: the write of a result, unlike that of a failure, does not ask for the status.
\<close>

theorem late_success_overwrites_extraction:
  assumes "runs_ok runs" and "fresh_run env1 runs" and "fresh_run env2 runs1"
    and "extraction_begin EXTRACTOR env1 doc runs = (Inr r1, runs1)" and "er_status r1 \<noteq> EXTRACTION_SUCCEEDED"
    and "extraction_begin EXTRACTOR env2 doc runs1 = (Inr r2, runs2)"
    and "extraction_finish (Extracted i1) (er_id r1) runs2 = (Inr a, runs3)"
  shows "\<exists>b runs4. extraction_finish (Extracted i2) (er_id r2) runs3 = (Inr b, runs4) \<and> er_id b = er_id a
    \<and> er_status a = EXTRACTION_SUCCEEDED \<and> er_output a = Some i1 \<and> er_output b = Some i2"
proof -
  have one: "r1 \<in> set runs1" "runs_ok runs1" "own_run EXTRACTOR doc r1"
    using extraction_begin_ok [OF assms(4,1,2)] by auto
  have two: "r2 \<in> set runs2" "runs_ok runs2"
    using extraction_begin_ok [OF assms(6) one(2) assms(3)] by auto
  have "get_or_create_run EXTRACTOR env2 doc runs1 = (Inr r1, runs1)"
    by (simp add: get_or_create_run_def find_own_run [OF one(2,1,3)])
  with assms(5,6) have id: "er_id r2 = er_id r1"
    by (auto simp: extraction_begin_def Let_def split: option.splits dest!: find_row_Some)
  note stored = finish_extracted [OF find_run_id [OF two(2,1)], unfolded id]
  have a: "a = r2\<lparr>er_status := EXTRACTION_SUCCEEDED, er_output := Some i1\<rparr>"
    "runs3 = set_run (er_id r1) EXTRACTION_SUCCEEDED (Some i1) runs2" using assms(7) stored(1) by auto
  show ?thesis
    using finish_extracted(1) [OF stored(2) [of i1], of i2] by (simp add: a id)
qed

lemma find_moved_case:
  "find_payable_case (move_case env cid cond st db) cid' = map_option (\<lambda>row. if cid' = cid \<and> cond (pc_status row)
     then row\<lparr>pc_version := pc_version row + 1, pc_status := st, pc_updated_at := we_now env\<rparr> else row) (find_payable_case db cid')"
proof (cases "find_payable_case db cid")
  case None
  then show ?thesis by (cases "cid' = cid") (simp_all add: move_case_def option.map_ident)
next
  case (Some row)
  then have row: "pc_id row = cid" by (auto simp: find_payable_case_def dest: find_row_Some)
  have written: "find_payable_case (db\<lparr>kdb_cases := write_case (we_now env) row st (kdb_cases db)\<rparr>) cid'
      = map_option (\<lambda>x. if pc_id x = cid then flush_case (we_now env) row st x else x) (find_payable_case db cid')"
    by (simp add: find_payable_case_def write_case_def row find_row_update_rows flush_case_def)
  show ?thesis
  proof (cases "cid' = cid")
    case True
    with Some row written show ?thesis by (simp add: move_case_def flush_case_def)
  next
    case False
    have "map_option (\<lambda>x. if pc_id x = cid then flush_case (we_now env) row st x else x) (find_payable_case db cid') = find_payable_case db cid'"
      using False by (cases "find_payable_case db cid'") (auto simp: find_payable_case_def dest: find_row_Some)
    with False Some written show ?thesis by (simp add: move_case_def option.map_ident)
  qed
qed

lemma find_logged_case [simp]: "find_payable_case (log_case env a key kind stage status msg payload db) = find_payable_case db"
  by (simp add: find_payable_case_def fun_eq_iff)

definition case_state :: "case_db \<Rightarrow> uuid \<Rightarrow> case_status option" where
  "case_state db cid = map_option pc_status (find_payable_case db cid)"

lemma invoice_row_state:
  "case_state (invoice_completed env run db a) cid
    = map_option (\<lambda>st. if cid = cdoc_case_id a \<and> st = CASE_PROCESSING then NEEDS_CONFIRMATION else st) (case_state db cid)"
  "case_state (invoice_failed env job code db a) cid
    = map_option (\<lambda>st. if cid = cdoc_case_id a then CASE_FAILED else st) (case_state db cid)"
  by (auto simp: invoice_completed_def invoice_failed_def case_state_def find_moved_case option.map_comp comp_def intro!: option.map_cong)

lemma completed_fold_state:
  "case_state (foldl (invoice_completed env run) db as) cid
    = map_option (\<lambda>st. if cid \<in> cdoc_case_id ` set as \<and> st = CASE_PROCESSING then NEEDS_CONFIRMATION else st) (case_state db cid)"
  by (induction as arbitrary: db) (auto simp: invoice_row_state option.map_comp comp_def intro!: option.map_cong map_option_idI [symmetric])

lemma failed_fold_state:
  "case_state (foldl (invoice_failed env job code) db as) cid
    = map_option (\<lambda>st. if cid \<in> cdoc_case_id ` set as then CASE_FAILED else st) (case_state db cid)"
  by (induction as arbitrary: db) (auto simp: invoice_row_state option.map_comp comp_def intro!: option.map_cong map_option_idI [symmetric])

lemma active_invoices_cong: "kdb_documents db = kdb_documents db' \<Longrightarrow> active_invoices db = active_invoices db'"
  by (simp add: active_invoices_def fun_eq_iff)

lemma case_state_cong: "kdb_cases db = kdb_cases db' \<Longrightarrow> case_state db = case_state db'"
  by (simp add: case_state_def find_payable_case_def fun_eq_iff)

lemma job_succeeded_cases:
  "case_state (job_succeeded env j run db) cid = map_option (\<lambda>st. if cid \<in> cdoc_case_id ` set (active_invoices db (ij_document_id j))
     \<and> st = CASE_PROCESSING then NEEDS_CONFIRMATION else st) (case_state db cid)"
  by (simp add: job_succeeded_def Let_def completed_fold_state active_invoices_cong [OF log_job_sel(3)]
      active_invoices_cong [OF set_job_sel(3)] case_state_cong [OF log_job_sel(2)] case_state_cong [OF set_job_sel(2)])

lemma record_failure_cases:
  assumes "find_job db job = Some j" and "ij_status j \<noteq> SUCCEEDED"
  shows "case_state (record_failure env job True code msg db) cid
    = map_option (\<lambda>st. if cid \<in> cdoc_case_id ` set (active_invoices db (ij_document_id j)) then CASE_FAILED else st) (case_state db cid)"
  using assms
  by (simp add: record_failure_def Let_def failed_fold_state active_invoices_cong [OF log_job_sel(3)]
      active_invoices_cong [OF set_job_sel(3)] case_state_cong [OF log_job_sel(2)] case_state_cong [OF set_job_sel(2)])

lemma run_job_cases:
  assumes "run_job env outcome job db = (x, db')" and "find_job db job = Some j" and "ij_status j \<noteq> SUCCEEDED"
  shows "x = Inr b \<Longrightarrow> case_state db' cid = map_option (\<lambda>st. if cid \<in> cdoc_case_id ` set (active_invoices db (ij_document_id j))
      \<and> st = CASE_PROCESSING then NEEDS_CONFIRMATION else st) (case_state db cid)"
    and "x = Inl e \<Longrightarrow> case_state db' = case_state db \<and> active_invoices db' = active_invoices db
      \<and> find_job db' job = Some (j\<lparr>ij_status := PROCESSING, ij_error_code := None, ij_error_message := None\<rparr>)"
proof -
  let ?db1 = "job_started env job db"
  have same: "active_invoices (?db1\<lparr>kdb_matching := m\<rparr>) = active_invoices db" "case_state (?db1\<lparr>kdb_matching := m\<rparr>) = case_state db"
    "find_job (?db1\<lparr>kdb_matching := m\<rparr>) job = Some (j\<lparr>ij_status := PROCESSING, ij_error_code := None, ij_error_message := None\<rparr>)" for m
    using assms(2) find_job_cong [of "?db1\<lparr>kdb_matching := m\<rparr>" ?db1]
    by (auto intro!: active_invoices_cong case_state_cong)
  show "case_state db' cid = map_option (\<lambda>st. if cid \<in> cdoc_case_id ` set (active_invoices db (ij_document_id j))
      \<and> st = CASE_PROCESSING then NEEDS_CONFIRMATION else st) (case_state db cid)" if "x = Inr b"
    using assms that by (auto simp: run_job_def Let_def job_succeeded_cases same split: prod.splits sum.splits)
  show "case_state db' = case_state db \<and> active_invoices db' = active_invoices db
      \<and> find_job db' job = Some (j\<lparr>ij_status := PROCESSING, ij_error_code := None, ij_error_message := None\<rparr>)" if "x = Inl e"
    using assms that by (auto simp: run_job_def Let_def same split: prod.splits sum.splits)
qed

text \<open>
  The end of a task reaches the cases. When a delivery ends the task of a job that had not
  succeeded, every case whose active invoice is the document has left PROCESSING for
  NEEDS_CONFIRMATION if the job succeeded, and is FAILED if the job failed; no other case changes its
  status.
\<close>

theorem settled_job_reaches_cases:
  assumes "process_document env retries outcome job db = (None, db')" and "find_job db job = Some j" and "ij_status j \<noteq> SUCCEEDED"
  shows "case_state db' cid = map_option (\<lambda>st.
      if cid \<notin> cdoc_case_id ` set (active_invoices db (ij_document_id j)) then st
      else if job_state db' job = Some JOB_FAILED then CASE_FAILED
      else if st = CASE_PROCESSING then NEEDS_CONFIRMATION else st) (case_state db cid)"
proof -
  obtain r db1 where r: "run_job env outcome job db = (r, db1)" by fastforce
  have st: "job_state db job = Some (ij_status j)" using assms(2) by (simp add: job_state_def)
  show ?thesis
  proof (cases r)
    case (Inr b)
    with run_job_state(2,3) [OF r st] assms(3) have "job_state db1 job = Some SUCCEEDED" by auto
    with Inr r assms(1) run_job_cases(1) [OF r assms(2,3)] show ?thesis
      by (auto simp: process_document_def intro!: option.map_cong)
  next
    case (Inl e)
    note same = run_job_cases(2) [OF r assms(2,3) Inl]
    obtain code msg where db': "db' = record_failure env job True code msg db1"
      using assms(1) r Inl by (auto simp: process_document_def Let_def split: option.splits if_splits)
    have "job_state db1 job = Some PROCESSING" using same by (simp add: job_state_def)
    then have "job_state db' job = Some JOB_FAILED" by (simp add: db' record_failure_state)
    moreover have "case_state db' cid = map_option (\<lambda>st. if cid \<in> cdoc_case_id ` set (active_invoices db (ij_document_id j))
        then CASE_FAILED else st) (case_state db cid)"
      using same record_failure_cases [of db1 job "j\<lparr>ij_status := PROCESSING, ij_error_code := None, ij_error_message := None\<rparr>"]
      by (simp add: db')
    ultimately show ?thesis by (auto intro!: option.map_cong)
  qed
qed

text \<open>
  A superseded document can fail its case. When the extraction of an attachment that is no longer
  active fails for good, the case is set to FAILED, although a replacement is being processed; the
  operational failure of the same attachment leaves the case alone.
\<close>

theorem superseded_failure_fails_case:
  assumes "cdoc_role a \<noteq> INVOICE" and "\<not> support_active db a" and "find_payable_case db (cdoc_case_id a) = Some row"
    and "\<forall>run. find_support_run (kdb_support_runs db) (cdoc_document_id a) (cdoc_role a) = Some run \<longrightarrow> spr_status run \<noteq> SUPPORTING_SUCCEEDED"
  shows "case_state (snd (support_process env (TerminalFailure e) a db)) (cdoc_case_id a) = Some CASE_FAILED
    \<and> case_state (mark_operational_failure env a db) (cdoc_case_id a) = Some (pc_status row)"
proof -
  obtain run db1 where g: "get_or_create_support env a db = (run, db1)" by fastforce
  then have db1: "db1 = db\<lparr>kdb_support_runs := kdb_support_runs db1\<rparr>" by (rule get_or_create_support_sel)
  have run: "spr_status run \<noteq> SUPPORTING_SUCCEEDED"
    using g assms(4) by (auto simp: get_or_create_support_def Let_def split: option.splits)
  have same: "find_payable_case (set_support_run rid f db1) = find_payable_case db" "kdb_documents (set_support_run rid f db1) = kdb_documents db" for rid f
    using db1 by (auto simp: set_support_run_def find_payable_case_def fun_eq_iff intro: arg_cong) (metis case_db.select_convs(1,2) case_db.surjective case_db.update_convs(3))+
  show ?thesis
    using assms(1-3) g run
    by (auto simp: support_process_def mark_operational_failure_def Let_def case_state_def find_moved_case same support_active_def
        has_successor_def split: if_splits)
qed

subsection \<open>Witnesses\<close>

definition worker_start :: case_db where
  "worker_start = sample_start\<lparr>kdb_matching := (kdb_matching sample_start)\<lparr>gdb_extractions := []\<rparr>\<rparr>"

definition worker_created :: case_db where
  "worker_created = snd (case_create sample_case_lib None 50 (sample_time 738000) ''k'' worker_start)"

definition worker_uploaded :: case_db where
  "worker_uploaded = snd (attach_begin sample_case_lib (sample_attach_env 1) 100 (sample_attach INVOICE ''inv'') worker_created)"

definition worker_attached :: case_db where
  "worker_attached = snd (attach_finish sample_case_lib 60 (sample_time 738000) False (sample_attach INVOICE ''inv'')
     (new_case sample_case_lib 50 (sample_time 738000) ''k'') (new_job (sample_attach_env 1)) False worker_uploaded)"

definition sample_worker_env :: "uuid \<Rightarrow> worker_env" where
  "sample_worker_env rid = \<lparr>we_run_id = rid, we_trace = None, we_now = sample_time 738001, we_racing = None\<rparr>"

definition worker_done :: case_db where
  "worker_done = snd (process_document (sample_worker_env 70) 0 (Extracted sample_bolts) 2 worker_attached)"

lemma worker_run:
  "let db0 = worker_created;
       db1 = snd (attach_begin sample_case_lib (sample_attach_env 1) 100 (sample_attach INVOICE ''inv'') db0);
       db2 = snd (attach_finish sample_case_lib 60 (sample_time 738000) False (sample_attach INVOICE ''inv'')
         (new_case sample_case_lib 50 (sample_time 738000) ''k'') (new_job (sample_attach_env 1)) False db1);
       db3 = snd (process_document (sample_worker_env 70) 0 (Extracted sample_bolts) 2 db2);
       p4 = process_document (sample_worker_env 71) 0 (TerminalFailure ENCRYPTED) 2 db2
   in map_option pc_id (find_payable_case db0 50) = Some 50 \<and> kdb_support_runs db0 = []
    \<and> gdb_extractions (kdb_matching db0) = [] \<and> fresh_upload (kdb_ingestion db0) (sample_attach_env 1) (at_upload (sample_attach INVOICE ''inv''))
    \<and> gdb_extractions (kdb_matching db1) = [] \<and> 60 \<notin> set (map cdoc_id (kdb_documents db1))
    \<and> ij_id (new_job (sample_attach_env 1)) \<in> set (map ij_id (idb_jobs (kdb_ingestion db1)))
    \<and> gdb_extractions (kdb_matching db2) = [] \<and> map_option ij_status (find_job db2 2) = Some QUEUED
    \<and> map (\<lambda>j. (ij_id j, ij_document_id j, ij_status j)) (idb_jobs (kdb_ingestion db3)) = [(2, 1, SUCCEEDED)]
    \<and> map (\<lambda>r. (er_id r, er_status r)) (gdb_extractions (kdb_matching db3)) = [(70, EXTRACTION_SUCCEEDED)]
    \<and> map_option ij_document_id (find_job db2 2) = Some 1 \<and> fst p4 = None
    \<and> job_state (snd p4) 2 = Some JOB_FAILED \<and> map cdoc_case_id (active_invoices db2 1) = [50]
    \<and> case_state db2 50 = Some CASE_PROCESSING"
  by code_simp

lemmas worker_facts = worker_run [unfolded Let_def, folded worker_uploaded_def, folded worker_attached_def, folded worker_done_def]

lemma worker_done_reachable: "reachable_from pipeline_start (pipeline_step sample_case_lib) worker_done"
proof -
  have none: "gdb_extractions (kdb_matching worker_start) = []" by (simp add: worker_start_def)
  have runs: "gdb_extractions (kdb_matching worker_created) = []" "gdb_extractions (kdb_matching worker_uploaded) = []"
    "gdb_extractions (kdb_matching worker_attached) = []"
    using worker_facts by blast+
  have "reachable_from pipeline_start (pipeline_step sample_case_lib) worker_start"
    by (rule reach_start)
      (simp add: pipeline_start_def case_start_def worker_start_def sample_start_def ingestion_start_def empty_ingestion_db_def)
  moreover have "case_step sample_case_lib worker_start worker_created"
    unfolding worker_created_def by (rule create) (simp_all add: worker_start_def sample_start_def)
  ultimately have r1: "reachable_from pipeline_start (pipeline_step sample_case_lib) worker_created"
    using none runs by (metis reach_step service)
  have "case_step sample_case_lib worker_created worker_uploaded"
    unfolding worker_uploaded_def by (rule attach1) (use worker_facts in blast)
  then have r2: "reachable_from pipeline_start (pipeline_step sample_case_lib) worker_uploaded"
    using r1 runs by (metis reach_step service)
  have "case_step sample_case_lib worker_uploaded worker_attached"
    unfolding worker_attached_def by (rule attach2) (use worker_facts in blast)+
  then have r3: "reachable_from pipeline_start (pipeline_step sample_case_lib) worker_attached"
    using r2 runs by (metis reach_step service)
  show ?thesis
    unfolding worker_done_def
    by (rule reach_step [OF r3 invoice]) (simp add: runs fresh_run_def sample_worker_env_def)
qed

theorem succeeded_job_matchable_witness:
  "\<exists>run invoice. current_successful_extraction (gdb_extractions (kdb_matching worker_done)) 1 = Some run \<and> er_output run = Some invoice"
proof -
  have "map (\<lambda>j. (ij_id j, ij_document_id j, ij_status j)) (idb_jobs (kdb_ingestion worker_done)) = [(2, 1, SUCCEEDED)]"
    using worker_facts by blast
  then obtain j where "j \<in> set (idb_jobs (kdb_ingestion worker_done))" "ij_document_id j = 1" "ij_status j = SUCCEEDED"
    by (cases "idb_jobs (kdb_ingestion worker_done)") auto
  then show ?thesis using succeeded_job_matchable [OF worker_done_reachable] by metis
qed

theorem completed_extraction_kept_witness:
  "\<exists>r. er_status r = EXTRACTION_SUCCEEDED \<and> r \<in> set (gdb_extractions (kdb_matching
     (snd (process_document (sample_worker_env 71) 0 (TerminalFailure ENCRYPTED) 2 worker_done))))"
proof -
  have runs: "map (\<lambda>r. (er_id r, er_status r)) (gdb_extractions (kdb_matching worker_done)) = [(70, EXTRACTION_SUCCEEDED)]"
    using worker_facts by blast
  then obtain r where r: "gdb_extractions (kdb_matching worker_done) = [r]" "er_id r = 70" "er_status r = EXTRACTION_SUCCEEDED"
    by (cases "gdb_extractions (kdb_matching worker_done)") auto
  then have "fresh_run (sample_worker_env 71) (gdb_extractions (kdb_matching worker_done))"
    by (simp add: fresh_run_def sample_worker_env_def)
  from completed_extraction_kept [OF worker_done_reachable this, of r] r show ?thesis by auto
qed

theorem worker_settles_witness:
  "job_state (deliver 0 (replicate 4 (sample_worker_env 70, OperationalFailure)) 2 worker_attached) 2
     \<in> {Some SUCCEEDED, Some JOB_FAILED}"
proof -
  have "map_option ij_status (find_job worker_attached 2) = Some QUEUED" using worker_facts by blast
  then obtain j where "find_job worker_attached 2 = Some j" by auto
  from worker_settles [OF this, of "replicate 4 (sample_worker_env 70, OperationalFailure)"] show ?thesis
    by (simp add: MAX_RETRIES_def Let_def)
qed

theorem settled_job_reaches_cases_witness:
  "case_state (snd (process_document (sample_worker_env 71) 0 (TerminalFailure ENCRYPTED) 2 worker_attached)) 50 = Some CASE_FAILED"
proof -
  let ?p = "process_document (sample_worker_env 71) 0 (TerminalFailure ENCRYPTED) 2 worker_attached"
  have f: "map_option ij_status (find_job worker_attached 2) = Some QUEUED" "map_option ij_document_id (find_job worker_attached 2) = Some 1"
    "fst ?p = None" "job_state (snd ?p) 2 = Some JOB_FAILED" "map cdoc_case_id (active_invoices worker_attached 1) = [50]"
    "case_state worker_attached 50 = Some CASE_PROCESSING"
    using worker_facts by blast+
  obtain j where j: "find_job worker_attached 2 = Some j" "ij_status j = QUEUED" "ij_document_id j = 1" using f(1,2) by auto
  have p: "?p = (None, snd ?p)" using f(3) by (metis surjective_pairing)
  have "50 \<in> cdoc_case_id ` set (active_invoices worker_attached 1)"
    using f(5) by (metis image_set list.set_intros(1))
  with settled_job_reaches_cases [OF p j(1), of 50] j f(4,6) show ?thesis by simp
qed

theorem late_success_overwrites_extraction_witness:
  "\<exists>(a :: extraction_run) b runs4. extraction_finish (Extracted sample_no_bolts) 70 (snd (extraction_finish (Extracted sample_bolts) 70
       (snd (extraction_begin EXTRACTOR (sample_worker_env 71) 1 (snd (extraction_begin EXTRACTOR (sample_worker_env 70) 1 []))))))
     = (Inr b, runs4) \<and> er_id b = er_id a \<and> er_output a = Some sample_bolts \<and> er_output b = Some sample_no_bolts"
proof -
  define r where "r = \<lparr>er_id = 70, er_document_id = 1, er_extractor_name = fst EXTRACTOR, er_extractor_version = snd EXTRACTOR,
      er_status = EXTRACTION_PROCESSING, er_output = None, er_created_at = sample_time 738001\<rparr>"
  have b1: "extraction_begin EXTRACTOR (sample_worker_env 70) 1 [] = (Inr r, [r])"
    and b2: "extraction_begin EXTRACTOR (sample_worker_env 71) 1 [r] = (Inr r, [r])"
    and ok: "runs_ok []" "fresh_run (sample_worker_env 70) []" "fresh_run (sample_worker_env 71) [r]"
    by (simp_all add: extraction_begin_def get_or_create_run_def find_extraction_def mark_processing_def
        sample_worker_env_def r_def runs_ok_def fresh_run_def EXTRACTOR_def Let_def)
  define a where "a = r\<lparr>er_status := EXTRACTION_SUCCEEDED, er_output := Some sample_bolts\<rparr>"
  have fin: "extraction_finish (Extracted sample_bolts) (er_id r) [r] = (Inr a, [a])"
    by (simp add: extraction_finish_def set_run_def a_def)
  have st: "er_status r \<noteq> EXTRACTION_SUCCEEDED" "er_id r = 70" by (simp_all add: r_def)
  from late_success_overwrites_extraction [OF ok b1 st(1) b2 fin, of sample_no_bolts] st(2)
  obtain b runs4 where b: "extraction_finish (Extracted sample_no_bolts) 70 [a] = (Inr b, runs4)" "er_id b = er_id a"
    "er_output a = Some sample_bolts" "er_output b = Some sample_no_bolts" by auto
  show ?thesis
    by (rule exI [of _ a], rule exI [of _ b], rule exI [of _ runs4]) (use b b1 b2 fin st(2) in simp)
qed

definition superseded_order :: case_document where
  "superseded_order = (sample_document 50 60 PURCHASE_ORDER 1)\<lparr>cdoc_active_slot := None\<rparr>"

theorem superseded_failure_fails_case_witness:
  "case_state (snd (support_process (sample_worker_env 70) (TerminalFailure UNREADABLE) superseded_order worker_created)) 50 = Some CASE_FAILED"
proof -
  have a: "cdoc_role superseded_order = PURCHASE_ORDER" "cdoc_case_id superseded_order = 50" "cdoc_active_slot superseded_order = None"
    by (simp_all add: superseded_order_def)
  have "map_option pc_id (find_payable_case worker_created 50) = Some 50" and "kdb_support_runs worker_created = []"
    using worker_facts by blast+
  then obtain row where "find_payable_case worker_created (cdoc_case_id superseded_order) = Some row" and "kdb_support_runs worker_created = []"
    using a(2) by auto
  then show ?thesis
    using superseded_failure_fails_case [of superseded_order worker_created row "sample_worker_env 70" UNREADABLE] a
    by (simp add: support_active_def find_support_run_def)
qed

end
