(* ===== verification/Normalize.thy ===== *)
theory Normalize
  imports Invoice_Data
begin

text \<open>
  Reading values out of text (\<^verbatim>\<open>invoiceops/extraction/normalization.py\<close>): white space, identifiers,
  dates, amounts and currencies. The currency symbols outside ASCII are not part of the model.
\<close>

subsection \<open>Text\<close>

definition normalize_whitespace :: "string \<Rightarrow> string" where
  "normalize_whitespace s = py_join '' '' (py_split s)"

definition normalize_identifier :: "string \<Rightarrow> string" where
  "normalize_identifier s = filter (\<lambda>c. is_upper c \<or> is_digit c) (py_upper s)"

text \<open>\<^verbatim>\<open>str.strip(chars)\<close>\<close>

definition strip_chars :: "string \<Rightarrow> string \<Rightarrow> string" where
  "strip_chars cs s = rev (dropWhile (\<lambda>c. c \<in> set cs) (rev (dropWhile (\<lambda>c. c \<in> set cs) s)))"

subsection \<open>Dates\<close>

definition is_leap :: "int \<Rightarrow> bool" where
  "is_leap y \<longleftrightarrow> y mod 4 = 0 \<and> (y mod 100 \<noteq> 0 \<or> y mod 400 = 0)"

definition days_in_month :: "int \<Rightarrow> int \<Rightarrow> int" where
  "days_in_month y m =
     (let bs = days_before_month (is_leap y) @ [if is_leap y then 366 else 365] in bs ! nat m - bs ! nat (m - 1))"

text \<open>\<^verbatim>\<open>datetime.date(y, m, d)\<close>, which raises \<^verbatim>\<open>ValueError\<close> for a day that does not exist.\<close>

definition make_date :: "int \<Rightarrow> int \<Rightarrow> int \<Rightarrow> date option" where
  "make_date y m d =
     (if 1 \<le> y \<and> y \<le> 9999 \<and> 1 \<le> m \<and> m \<le> 12 \<and> 1 \<le> d \<and> d \<le> days_in_month y m
      then Some (365 * (y - 1) + (y - 1) div 4 - (y - 1) div 100 + (y - 1) div 400
        + days_before_month (is_leap y) ! nat (m - 1) + d)
      else None)"

text \<open>
  What the directives of \<^verbatim>\<open>strptime\<close> accept: \<^verbatim>\<open>%d\<close> and \<^verbatim>\<open>%m\<close> one or two digits (a one-digit day may follow
  a space), \<^verbatim>\<open>%Y\<close> four digits, \<^verbatim>\<open>%b\<close> and \<^verbatim>\<open>%B\<close> the English month names in any case.
\<close>

definition small_number :: "int \<Rightarrow> string \<Rightarrow> int option" where
  "small_number most s =
     (if s \<noteq> [] \<and> length s \<le> 2 \<and> list_all is_digit s \<and> 1 \<le> digits_value s \<and> digits_value s \<le> most
      then Some (digits_value s) else None)"

definition directive_day :: "string \<Rightarrow> int option" where
  "directive_day s =
     (case s of [] \<Rightarrow> None
      | c # cs \<Rightarrow> if c = CHR '' '' then (if length cs = 1 then small_number 9 cs else None) else small_number 31 s)"

definition directive_month :: "string \<Rightarrow> int option" where
  "directive_month = small_number 12"

definition directive_year :: "string \<Rightarrow> int option" where
  "directive_year s = (if length s = 4 \<and> list_all is_digit s then Some (digits_value s) else None)"

definition MONTHS :: "string list" where
  "MONTHS = [''january'', ''february'', ''march'', ''april'', ''may'', ''june'', ''july'', ''august'', ''september'',
     ''october'', ''november'', ''december'']"

fun index_of :: "'a list \<Rightarrow> 'a \<Rightarrow> nat option" where
  "index_of [] x = None"
| "index_of (y # ys) x = (if x = y then Some 0 else map_option Suc (index_of ys x))"

definition directive_name :: "string list \<Rightarrow> string \<Rightarrow> int option" where
  "directive_name names s = map_option (\<lambda>k. int k + 1) (index_of names (py_casefold s))"

definition date_parts :: "int option \<Rightarrow> int option \<Rightarrow> int option \<Rightarrow> date option" where
  "date_parts y m d = (case (y, m, d) of (Some y, Some m, Some d) \<Rightarrow> make_date y m d | _ \<Rightarrow> None)"

definition parse_numeric_date :: "char \<Rightarrow> string \<Rightarrow> date option" where
  "parse_numeric_date sep s =
     (case split_on sep [] s of
        [d, m, y] \<Rightarrow> date_parts (directive_year y) (directive_month m) (directive_day d) | _ \<Rightarrow> None)"

definition parse_iso_date :: "string \<Rightarrow> date option" where
  "parse_iso_date s =
     (case split_on (CHR ''-'') [] s of
        [y, m, d] \<Rightarrow> date_parts (directive_year y) (directive_month m) (directive_day d) | _ \<Rightarrow> None)"

definition parse_short_date :: "string \<Rightarrow> date option" where
  "parse_short_date s =
     (case split_on (CHR '' '') [] s of
        [d, b, y] \<Rightarrow> date_parts (directive_year y) (directive_name (map (take 3) MONTHS) b) (directive_day d) | _ \<Rightarrow> None)"

definition parse_long_date :: "string \<Rightarrow> date option" where
  "parse_long_date s =
     (case split_on (CHR '' '') [] s of
        [b, d, y] \<Rightarrow>
          if d \<noteq> [] \<and> last d = CHR '','' then date_parts (directive_year y) (directive_name MONTHS b) (directive_day (butlast d))
          else None
      | _ \<Rightarrow> None)"

definition first_some :: "'a option list \<Rightarrow> 'a option" where
  "first_some xs = (case filter (\<lambda>x. x \<noteq> None) xs of [] \<Rightarrow> None | x # _ \<Rightarrow> x)"

definition parse_invoice_date :: "string \<Rightarrow> date option" where
  "parse_invoice_date v =
     (let s = normalize_whitespace (strip_chars '' :'' v) in
      first_some [parse_numeric_date (CHR ''/'') s, parse_numeric_date (CHR ''-'') s, parse_iso_date s,
        parse_short_date s, parse_long_date s])"

subsection \<open>Amounts\<close>

definition CURRENCY_CODES :: "string list" where
  "CURRENCY_CODES = [''AED'', ''AUD'', ''CAD'', ''CHF'', ''EUR'', ''GBP'', ''INR'', ''JPY'', ''SGD'', ''USD'']"

text \<open>The alternatives of the two patterns, a longer one before its prefix.\<close>

definition MONEY_WORDS :: "string list" where
  "MONEY_WORDS = CURRENCY_CODES @ [''RS.'', ''RS'', ''RUPEES'', ''RUPEE'']"

definition drop_money_prefix :: "string \<Rightarrow> string" where
  "drop_money_prefix s =
     (case find_row (\<lambda>w. py_upper (take (length w) s) = w) MONEY_WORDS of
        None \<Rightarrow> s | Some w \<Rightarrow> dropWhile is_space (drop (length w) s))"

definition drop_money_suffix :: "string \<Rightarrow> string" where
  "drop_money_suffix s =
     (case find_row (\<lambda>i. py_upper (dropWhile is_space (drop i s)) \<in> set MONEY_WORDS) [0..<length s] of
        None \<Rightarrow> s | Some i \<Rightarrow> take i s)"

definition amount_text :: "string \<Rightarrow> bool" where
  "amount_text s =
     (let u = (if s \<noteq> [] \<and> hd s \<in> set ''+-'' then tl s else s)
      in u \<noteq> [] \<and> is_digit (hd u) \<and> list_all (\<lambda>c. is_digit c \<or> c \<in> set '' ,.'') u)"

definition count_char :: "char \<Rightarrow> string \<Rightarrow> nat" where
  "count_char c s = length (filter (\<lambda>x. x = c) s)"

text \<open>\<^verbatim>\<open>rfind\<close>: the length up to the last occurrence.\<close>

definition last_index :: "char \<Rightarrow> string \<Rightarrow> nat" where
  "last_index c s = length (dropWhile (\<lambda>x. x \<noteq> c) (rev s))"

definition remove_char :: "char \<Rightarrow> string \<Rightarrow> string" where
  "remove_char c s = filter (\<lambda>x. x \<noteq> c) s"

definition normalize_separators :: "string \<Rightarrow> string option" where
  "normalize_separators s =
     (if CHR '','' \<in> set s \<and> CHR ''.'' \<in> set s
      then Some (if last_index (CHR ''.'') s < last_index (CHR '','') s
                 then map (\<lambda>c. if c = CHR '','' then CHR ''.'' else c) (remove_char (CHR ''.'') s)
                 else remove_char (CHR '','') s)
      else if CHR '','' \<in> set s
      then (let parts = split_on (CHR '','') [] s in
            if length parts = 2 \<and> length (parts ! 1) \<in> {1, 2} then Some (py_join ''.'' parts)
            else if list_all (\<lambda>p. length p = 3) (tl parts) then Some (concat parts) else None)
      else if 1 < count_char (CHR ''.'') s
      then (let parts = split_on (CHR ''.'') [] s in
            if list_all (\<lambda>p. length p = 3) (tl parts) then Some (concat parts) else None)
      else Some s)"

definition plain_amount :: "string \<Rightarrow> bool" where
  "plain_amount s =
     (case split_on (CHR ''.'') [] s of
        [ip] \<Rightarrow> ip \<noteq> [] \<and> list_all is_digit ip
      | [ip, fp] \<Rightarrow> ip \<noteq> [] \<and> list_all is_digit ip \<and> fp \<noteq> [] \<and> list_all is_digit fp
      | _ \<Rightarrow> False)"

text \<open>\<^verbatim>\<open>-amount\<close> rounds to the precision of the context.\<close>

definition dneg :: "decimal \<Rightarrow> decimal" where
  "dneg d = sfix 10 28 (Scaled (- coeff d) (expo d))"

definition parse_money :: "string \<Rightarrow> decimal option" where
  "parse_money v =
     (let s = py_strip (normalize_whitespace v);
          parens = (starts_with ''('' s \<and> s \<noteq> [] \<and> last s = CHR '')'');
          s = (if parens then py_strip (butlast (tl s)) else s);
          s = drop_money_suffix (drop_money_prefix s);
          s = py_strip (dropWhile (\<lambda>c. c = CHR ''$'') s)
      in if \<not> amount_text s then None
         else let negative = starts_with ''-'' s;
                  s = remove_char (CHR '' '') (dropWhile (\<lambda>c. c \<in> set ''+-'') s)
              in (case normalize_separators s of
                    None \<Rightarrow> None
                  | Some t \<Rightarrow>
                      if \<not> plain_amount t then None
                      else map_option (\<lambda>a. if parens \<or> negative then dneg a else a) (decimal_of_string t)))"

subsection \<open>Currencies\<close>

definition CURRENCY_NAMES :: "(string \<times> string) list" where
  "CURRENCY_NAMES = [(''DIRHAM'', ''AED''), (''DIRHAMS'', ''AED''), (''EURO'', ''EUR''), (''EUROS'', ''EUR''),
     (''INDIAN RUPEE'', ''INR''), (''INDIAN RUPEES'', ''INR''), (''POUND STERLING'', ''GBP''), (''RUPEE'', ''INR''),
     (''RUPEES'', ''INR'')]"

definition normalize_currency :: "string \<Rightarrow> string option" where
  "normalize_currency v =
     (let s = py_upper (strip_chars '' .:'' (normalize_whitespace v))
      in if s \<in> set CURRENCY_CODES then Some s else map_of CURRENCY_NAMES s)"

subsection \<open>Coordinates\<close>

definition clamp :: "pyfloat \<Rightarrow> pyfloat" where
  "clamp x =
     (let low = (if flt (Scaled 0 0) x then x else Scaled 0 0)
      in if flt low (Scaled 1 0) then low else Scaled 1 0)"

definition relative :: "pyfloat \<Rightarrow> pyfloat \<Rightarrow> pyfloat \<Rightarrow> pyfloat option" where
  "relative x origin extent = map_option clamp (fdiv (fsub x origin) extent)"

definition normalize_bbox ::
  "bounding_box \<Rightarrow> pyfloat \<Rightarrow> pyfloat \<Rightarrow> pyfloat \<Rightarrow> pyfloat \<Rightarrow> bounding_box option" where
  "normalize_bbox b page_x0 page_y0 page_width page_height =
     (if fle page_width (Scaled 0 0) \<or> fle page_height (Scaled 0 0) then None
      else case (relative (bb_x0 b) page_x0 page_width, relative (bb_y0 b) page_y0 page_height,
                 relative (bb_x1 b) page_x0 page_width, relative (bb_y1 b) page_y0 page_height) of
             (Some x0, Some y0, Some x1, Some y1) \<Rightarrow>
               let r = \<lparr>bb_x0 = x0, bb_y0 = y0, bb_x1 = x1, bb_y1 = y1\<rparr> in if validate_coordinate_order r then Some r else None
           | _ \<Rightarrow> None)"

subsection \<open>The calendar\<close>

text \<open>The month of a day of the year.\<close>

lemma takeWhile_le:
  fixes xs :: "int list"
  assumes "xs \<noteq> []" and "hd xs \<le> r" and "r < z"
  defines "bs \<equiv> takeWhile (\<lambda>k. k \<le> r) xs"
  shows "0 < length bs" and "length bs \<le> length xs" and "last bs = xs ! (length bs - 1)" and "last bs \<le> r"
    and "r < (xs @ [z]) ! length bs"
proof -
  obtain x rest where xs: "xs = x # rest" using assms(1) by (cases xs) auto
  then have "bs \<noteq> []" using assms(2) by (simp add: bs_def)
  then show "0 < length bs" by simp
  show len: "length bs \<le> length xs" by (simp add: bs_def length_takeWhile_le)
  show "last bs = xs ! (length bs - 1)"
    using \<open>bs \<noteq> []\<close> by (simp add: last_conv_nth) (simp add: bs_def takeWhile_nth)
  show "last bs \<le> r"
    using last_in_set [OF \<open>bs \<noteq> []\<close>] unfolding bs_def by (auto dest: set_takeWhileD)
  show "r < (xs @ [z]) ! length bs"
  proof (cases "length bs < length xs")
    case True
    then show ?thesis using nth_length_takeWhile [of "\<lambda>k. k \<le> r" xs] by (simp add: bs_def nth_append)
  next
    case False
    with len assms(3) show ?thesis by (simp add: nth_append)
  qed
qed

lemma length_days_before_month [simp]: "length (days_before_month leap) = 12"
  by (simp add: days_before_month_def)

lemma month_of_day:
  assumes "0 \<le> r" and "r < 365" and "bs = takeWhile (\<lambda>k. k \<le> r) (days_before_month leap)" and "is_leap y = leap"
  shows "1 \<le> int (length bs) \<and> int (length bs) \<le> 12 \<and> 1 \<le> r - last bs + 1 \<and> r - last bs + 1 \<le> days_in_month y (int (length bs))
    \<and> days_before_month leap ! nat (int (length bs) - 1) = last bs"
proof -
  let ?xs = "days_before_month leap" and ?z = "if leap then 366 else 365"
  have xs: "?xs \<noteq> []" "hd ?xs \<le> r" "r < ?z" "length ?xs = 12" using assms(1,2) by (simp_all add: days_before_month_def)
  note t = takeWhile_le [OF xs(1-3), folded assms(3)]
  have k: "nat (int (length bs) - 1) = length bs - 1" using t(1) by linarith
  have "length bs - 1 < 12" using t(1,2) xs(4) by simp
  with k have "days_in_month y (int (length bs)) = (?xs @ [?z]) ! length bs - last bs"
    using assms(4) t(1-3) by (simp add: days_in_month_def Let_def nth_append)
  with t xs(4) k show ?thesis by (simp add: Suc_le_eq)
qed

lemma wrapped_mod:
  fixes x q t k :: int
  assumes "x = k * q + t" and "1 \<le> t" and "t \<le> k"
  shows "x mod k = (if t = k then 0 else t)"
  using assms by (auto intro: int_mod_pos_eq [of _ _ q])

text \<open>The year after \<open>w\<close> complete years.\<close>

lemma year_counts:
  fixes a b c e w :: int
  assumes w: "w = 400 * a + 100 * b + 4 * c + e" and "0 \<le> b" "b \<le> 3" "0 \<le> c" "c \<le> 24" "0 \<le> e" "e \<le> 3"
  shows "w div 4 = 100 * a + 25 * b + c" and "w div 100 = 4 * a + b" and "w div 400 = a"
    and "is_leap (w + 1) \<longleftrightarrow> e = 3 \<and> (c \<noteq> 24 \<or> b = 3)"
proof -
  show "w div 4 = 100 * a + 25 * b + c"
    by (rule int_div_pos_eq [where r = e]) (use assms in auto)
  show "w div 100 = 4 * a + b"
    by (rule int_div_pos_eq [where r = "4 * c + e"]) (use assms in auto)
  show "w div 400 = a"
    by (rule int_div_pos_eq [where r = "100 * b + 4 * c + e"]) (use assms in auto)
  have "(w + 1) mod 4 = (if e + 1 = 4 then 0 else e + 1)"
    by (rule wrapped_mod [where q = "100 * a + 25 * b + c"]) (use assms in auto)
  moreover have "(w + 1) mod 100 = (if 4 * c + e + 1 = 100 then 0 else 4 * c + e + 1)"
    by (rule wrapped_mod [where q = "4 * a + b"]) (use assms in auto)
  moreover have "(w + 1) mod 400 = (if 100 * b + 4 * c + e + 1 = 400 then 0 else 100 * b + 4 * c + e + 1)"
    by (rule wrapped_mod [where q = a]) (use assms in auto)
  ultimately show "is_leap (w + 1) \<longleftrightarrow> e = 3 \<and> (c \<noteq> 24 \<or> b = 3)"
    using assms(2-) by (auto simp: is_leap_def)
qed

lemma make_date_after:
  assumes "0 \<le> w" and "w \<le> 9998" and "1 \<le> m" and "m \<le> 12" and "1 \<le> d" and "d \<le> days_in_month (w + 1) m"
  shows "make_date (w + 1) m d
    = Some (365 * w + w div 4 - w div 100 + w div 400 + days_before_month (is_leap (w + 1)) ! nat (m - 1) + d)"
  using assms by (simp add: make_date_def)

lemma make_date_last:
  "0 \<le> w \<Longrightarrow> w \<le> 9998 \<Longrightarrow> is_leap (w + 1) \<Longrightarrow> make_date (w + 1) 12 31 = Some (365 * w + w div 4 - w div 100 + w div 400 + 366)"
  by (subst make_date_after) (simp_all add: days_in_month_def days_before_month_def Let_def numeral_eq_Suc)

lemma ord2ymd_make_date:
  assumes "1 \<le> d" and "d \<le> 3652059" and "ord2ymd d = (y, m, dd)"
  shows "make_date y m dd = Some d"
proof -
  define n where "n = d - 1"
  define a where "a = n div 146097"
  define n1 where "n1 = n mod 146097"
  define b where "b = n1 div 36524"
  define n2 where "n2 = n1 mod 36524"
  define c where "c = n2 div 1461"
  define n3 where "n3 = n2 mod 1461"
  define e where "e = n3 div 365"
  define r where "r = n3 mod 365"
  have n: "n = 146097 * a + n1" "0 \<le> n1" "n1 < 146097" "0 \<le> a" "a \<le> 24" "n \<le> 3652058"
    using assms(1,2) by (auto simp: n_def a_def n1_def)
  have n1: "n1 = 36524 * b + n2" "0 \<le> n2" "n2 < 36524" "0 \<le> b" "b \<le> 4" using n by (auto simp: b_def n2_def)
  have n2: "n2 = 1461 * c + n3" "0 \<le> n3" "n3 < 1461" "0 \<le> c" "c \<le> 24" using n1 by (auto simp: c_def n3_def)
  have n3: "n3 = 365 * e + r" "0 \<le> r" "r < 365" "0 \<le> e" "e \<le> 4" using n2 by (auto simp: e_def r_def)
  define w where "w = 400 * a + 100 * b + 4 * c + e"
  have ord: "ord2ymd d = (if e = 4 \<or> b = 4 then (w, 12, 31)
      else let leap = (e = 3 \<and> (c \<noteq> 24 \<or> b = 3)); bs = takeWhile (\<lambda>k. k \<le> r) (days_before_month leap)
           in (w + 1, int (length bs), r - last bs + 1))"
    by (simp add: ord2ymd_def Let_def w_def n_def a_def n1_def b_def n2_def c_def n3_def e_def r_def)
  consider (century) "b = 4" | (leap_day) "b \<noteq> 4" "e = 4" | (other) "b \<noteq> 4" "e \<noteq> 4" by blast
  then show ?thesis
  proof cases
    case century
    then have z: "n2 = 0" "c = 0" "e = 0" "a \<le> 23" using n n1 n2 n3 by linarith+
    define v where "v = w - 1"
    have v: "v = 400 * a + 100 * 3 + 4 * 24 + 3" "y = v + 1" "m = 12" "dd = 31"
      using assms(3) ord century z by (simp_all add: v_def w_def)
    note cnt = year_counts [OF v(1)]
    show ?thesis
      using make_date_last [of v] cnt v n(1,4) n1(1) z century by (simp add: n_def)
  next
    case leap_day
    then have z: "r = 0" "c \<le> 23" "b \<le> 3" using n n1 n2 n3 by linarith+
    define v where "v = w - 1"
    have v: "v = 400 * a + 100 * b + 4 * c + 3" "y = v + 1" "m = 12" "dd = 31"
      using assms(3) ord leap_day by (simp_all add: v_def w_def)
    note cnt = year_counts [OF v(1)]
    show ?thesis
      using make_date_last [of v] cnt v n(1,4,5) n1(1,4) n2(1,4) n3(1) z leap_day by (simp add: n_def)
  next
    case other
    define bs where "bs = takeWhile (\<lambda>k. k \<le> r) (days_before_month (e = 3 \<and> (c \<noteq> 24 \<or> b = 3)))"
    have be: "b \<le> 3" "e \<le> 3" using other n1(5) n3(5) by linarith+
    note cnt = year_counts [OF w_def n1(4) be(1) n2(4,5) n3(4) be(2)]
    have v: "y = w + 1" "m = int (length bs)" "dd = r - last bs + 1"
      using assms(3) ord other by (simp_all add: bs_def Let_def)
    note mon = month_of_day [OF n3(2,3) bs_def cnt(4)]
    have "w \<le> 9998" "0 \<le> w" using w_def n n1 n2 n3 be by linarith+
    with mon cnt v make_date_after [of w m dd] have "make_date y m dd = Some (97 * a + 365 * w + 24 * b + c + (r + 1))" by simp
    moreover have "97 * a + 365 * w + 24 * b + c + (r + 1) = d"
      using w_def n_def n(1) n1(1) n2(1) n3(1) by (simp add: algebra_simps)
    ultimately show ?thesis by simp
  qed
qed

subsection \<open>Texts without separators\<close>

lemma split_on_none: "d \<notin> set s \<Longrightarrow> split_on d cur s = [cur @ s]"
  by (induction d cur s rule: split_on.induct) auto

lemma split_on_first: "d \<notin> set s \<Longrightarrow> split_on d cur (s @ d # t) = (cur @ s) # split_on d [] t"
  by (induction d cur s rule: split_on.induct) auto

lemma split_ws_word: "\<forall>c \<in> set s. \<not> is_space c \<Longrightarrow> cur @ s \<noteq> [] \<Longrightarrow> split_ws cur s = [cur @ s]"
  by (induction cur s rule: split_ws.induct) auto

lemma normalize_whitespace_word: "\<forall>c \<in> set s. \<not> is_space c \<Longrightarrow> normalize_whitespace s = s"
  by (cases "s = []") (simp_all add: normalize_whitespace_def py_split_def split_ws_word)

lemma strip_chars_id: "s \<noteq> [] \<Longrightarrow> hd s \<notin> set cs \<Longrightarrow> last s \<notin> set cs \<Longrightarrow> strip_chars cs s = s"
proof -
  assume a: "s \<noteq> []" "hd s \<notin> set cs" "last s \<notin> set cs"
  then have "dropWhile (\<lambda>c. c \<in> set cs) s = s" by (cases s) auto
  moreover have "dropWhile (\<lambda>c. c \<in> set cs) (rev s) = rev s" using a by (cases s rule: rev_cases) auto
  ultimately show ?thesis by (simp add: strip_chars_def)
qed

lemma digit_neq:
  assumes "is_digit c"
  shows "c \<noteq> CHR ''-''" and "c \<noteq> CHR ''/''" and "c \<noteq> CHR '' ''" and "c \<noteq> CHR '':''" and "c \<noteq> CHR '',''" and "c \<noteq> CHR ''.''"
    and "c \<noteq> CHR ''+''" and "c \<noteq> CHR ''$''" and "c \<noteq> CHR ''(''" and "c \<noteq> CHR '')''"
  using assms by (auto simp: is_digit_def char_code_def)

lemma digits_no: "list_all is_digit s \<Longrightarrow> \<not> is_digit c \<Longrightarrow> c \<notin> set s"
  by (auto simp: list_all_iff)

lemma separators_no_digits [simp]:
  "\<not> is_digit (CHR ''-'')" "\<not> is_digit (CHR ''/'')" "\<not> is_digit (CHR '' '')" "\<not> is_digit (CHR '':'')" "\<not> is_digit (CHR '','')"
  "\<not> is_digit (CHR ''.'')" "\<not> is_digit (CHR ''+'')" "\<not> is_digit (CHR ''$'')" "\<not> is_digit (CHR ''('')" "\<not> is_digit (CHR '')'')"
  by (simp_all add: is_digit_def char_code_def)

lemma separators_no_space [simp]:
  "\<not> is_space (CHR ''-'')" "\<not> is_space (CHR '','')" "\<not> is_space (CHR ''.'')" "\<not> is_space (CHR ''('')" "\<not> is_space (CHR '')'')"
  by (simp_all add: is_space_def char_code_def Let_def)

subsection \<open>Round trips\<close>

lemma length_nat_digits: "0 \<le> n \<Longrightarrow> n < 10 ^ k \<Longrightarrow> 0 < k \<Longrightarrow> length (nat_digits n) \<le> k"
proof (induction k arbitrary: n)
  case (Suc k)
  show ?case
  proof (cases "n < 10")
    case False
    then have "0 < k" using Suc.prems(2) by (cases k) auto
    moreover have "n div 10 < 10 ^ k" using Suc.prems(2) by (simp add: div_less_iff_less_mult mult.commute)
    ultimately show ?thesis using False Suc.prems(1) Suc.IH [of "n div 10"] by (simp add: nat_digits.simps [of n])
  qed (simp add: nat_digits.simps)
qed simp

lemma padded_number:
  assumes "0 \<le> n" and "n < 10 ^ k" and "0 < k"
  shows "length (pad_left k (nat_digits n)) = k" and "list_all is_digit (pad_left k (nat_digits n))"
    and "digits_value (pad_left k (nat_digits n)) = n"
  using assms length_nat_digits [of n k] by (auto intro!: pad_left_all_digits nat_digits_all_digits)

lemma directive_day_digits: "list_all is_digit s \<Longrightarrow> directive_day s = small_number 31 s"
  by (cases s) (auto simp: directive_day_def small_number_def)

lemma small_number_padded: "1 \<le> n \<Longrightarrow> n \<le> most \<Longrightarrow> n < 100 \<Longrightarrow> small_number most (pad_left 2 (nat_digits n)) = Some n"
  using padded_number [of n 2] by (auto simp: small_number_def simp flip: length_0_conv)

text \<open>
  A date that the system prints is read back. For every date of the calendar, 0001-01-01 to
  9999-12-31, reading its ISO text gives the date.
\<close>

theorem iso_date_roundtrip:
  assumes "1 \<le> d" and "d \<le> 3652059"
  shows "parse_invoice_date (date_isoformat d) = Some d"
proof -
  obtain y m dd where ymd: "ord2ymd d = (y, m, dd)" by (cases "ord2ymd d")
  have made: "make_date y m dd = Some d" by (rule ord2ymd_make_date [OF assms ymd])
  then have range: "1 \<le> y" "y \<le> 9999" "1 \<le> m" "m \<le> 12" "1 \<le> dd" "dd \<le> days_in_month y m"
    by (auto simp: make_date_def split: if_splits)
  have "m = 1 \<or> m = 2 \<or> m = 3 \<or> m = 4 \<or> m = 5 \<or> m = 6 \<or> m = 7 \<or> m = 8 \<or> m = 9 \<or> m = 10 \<or> m = 11 \<or> m = 12"
    using range(3,4) by presburger
  then have "days_in_month y m \<le> 31" by (auto simp: days_in_month_def days_before_month_def Let_def)
  with range have dd: "dd \<le> 31" by simp
  define Y M D where "Y = pad_left 4 (nat_digits y)" and "M = pad_left 2 (nat_digits m)" and "D = pad_left 2 (nat_digits dd)"
  have len: "length Y = 4" "length M = 2" "length D = 2" and dig: "list_all is_digit Y" "list_all is_digit M" "list_all is_digit D"
    and val: "digits_value Y = y"
    using padded_number [of y 4] padded_number [of m 2] padded_number [of dd 2] range dd by (auto simp: Y_def M_def D_def)
  have num: "directive_month M = Some m" "directive_day D = Some dd" "directive_year Y = Some y" "directive_year D = None"
    using small_number_padded range dd directive_day_digits [OF dig(3)] len dig val
    by (simp_all add: directive_month_def directive_year_def M_def D_def)
  let ?s = "Y @ CHR ''-'' # M @ CHR ''-'' # D"
  have iso: "date_isoformat d = ?s" by (simp add: date_isoformat_def ymd Y_def M_def D_def)
  have nonspace: "\<forall>c \<in> set ?s. \<not> is_space c"
    using dig digit_not_space by (auto simp: list_all_iff)
  have "Y \<noteq> []" "D \<noteq> []" using len by auto
  then have "is_digit (hd ?s)" "is_digit (last ?s)" using dig by (simp_all add: list_all_iff)
  then have "hd ?s \<notin> set '' :''" "last ?s \<notin> set '' :''" by (auto dest: digit_neq(3,4))
  then have norm: "normalize_whitespace (strip_chars '' :'' ?s) = ?s"
    by (subst strip_chars_id) (use nonspace normalize_whitespace_word in auto)
  have parts: "split_on (CHR ''-'') [] ?s = [Y, M, D]" "split_on (CHR ''/'') [] ?s = [?s]"
    using dig by (simp_all add: split_on_first split_on_none digits_no)
  show ?thesis
    by (simp add: iso parse_invoice_date_def norm parse_numeric_date_def parse_iso_date_def parts num date_parts_def made first_some_def)
qed

subsection \<open>Formats of amounts\<close>

text \<open>What is left of the reading of an amount when the text is digits and separators.\<close>

definition plain_money :: "string \<Rightarrow> decimal option" where
  "plain_money s =
     (case normalize_separators s of None \<Rightarrow> None | Some t \<Rightarrow> if plain_amount t then decimal_of_string t else None)"

definition number_text :: "string \<Rightarrow> bool" where
  "number_text t \<longleftrightarrow> t \<noteq> [] \<and> is_digit (hd t) \<and> is_digit (last t) \<and> list_all (\<lambda>c. is_digit c \<or> c = CHR '','' \<or> c = CHR ''.'') t"

lemma number_text_chars:
  assumes "number_text t" and "c \<in> set t"
  shows "\<not> is_space c" and "c \<noteq> CHR '' ''" and "c \<noteq> CHR ''-''" and "c \<noteq> CHR ''+''" and "c \<noteq> CHR ''$''"
proof -
  have "is_digit c \<or> c = CHR '','' \<or> c = CHR ''.''" using assms by (auto simp: number_text_def list_all_iff)
  then show "\<not> is_space c" "c \<noteq> CHR '' ''" "c \<noteq> CHR ''-''" "c \<noteq> CHR ''+''" "c \<noteq> CHR ''$''"
    by (elim disjE; simp add: digit_not_space digit_neq)+
qed

lemma upper_digit: "is_digit c \<Longrightarrow> upper_char c = c"
  by (auto simp: is_digit_def upper_char_def is_lower_def char_code_def Let_def)

lemma last_dropWhile: "dropWhile P xs \<noteq> [] \<Longrightarrow> last (dropWhile P xs) = last xs"
  by (metis last_appendR takeWhile_dropWhile_id)

lemma money_words_letters: "w \<in> set MONEY_WORDS \<Longrightarrow> w \<noteq> [] \<and> \<not> is_digit (hd w) \<and> \<not> is_digit (last w)"
  by (auto simp: MONEY_WORDS_def CURRENCY_CODES_def is_digit_def char_code_def)

lemma drop_money_prefix_digit: "s \<noteq> [] \<Longrightarrow> is_digit (hd s) \<Longrightarrow> drop_money_prefix s = s"
proof -
  assume s: "s \<noteq> []" "is_digit (hd s)"
  have "py_upper (take (length w) s) \<noteq> w" if "w \<in> set MONEY_WORDS" for w
  proof
    assume eq: "py_upper (take (length w) s) = w"
    have "hd w = upper_char (hd s)"
      using money_words_letters [OF that] s(1) by (subst eq [symmetric]) (cases s; cases w; simp add: py_upper_def)
    then show False using money_words_letters [OF that] s(2) upper_digit by simp
  qed
  then have "find_row (\<lambda>w. py_upper (take (length w) s) = w) MONEY_WORDS = None" by (auto simp: find_row_None_iff)
  then show ?thesis by (simp add: drop_money_prefix_def)
qed

lemma drop_money_suffix_digit: "s \<noteq> [] \<Longrightarrow> is_digit (last s) \<Longrightarrow> drop_money_suffix s = s"
proof -
  assume s: "s \<noteq> []" "is_digit (last s)"
  have "py_upper (dropWhile is_space (drop i s)) \<notin> set MONEY_WORDS" if "i < length s" for i
  proof
    assume w: "py_upper (dropWhile is_space (drop i s)) \<in> set MONEY_WORDS"
    have ne: "dropWhile is_space (drop i s) \<noteq> []"
      using money_words_letters [OF w] by (auto simp: py_upper_def)
    then have "last (dropWhile is_space (drop i s)) = last s" using that by (simp add: last_dropWhile)
    then have "last (py_upper (dropWhile is_space (drop i s))) = last s"
      using ne s(2) upper_digit by (simp add: py_upper_def last_map)
    then show False using money_words_letters [OF w] s(2) by simp
  qed
  then have "find_row (\<lambda>i. py_upper (dropWhile is_space (drop i s)) \<in> set MONEY_WORDS) [0..<length s] = None"
    by (auto simp: find_row_None_iff)
  then show ?thesis by (simp add: drop_money_suffix_def)
qed

lemma number_text_kept:
  assumes "number_text t"
  shows "normalize_whitespace t = t" and "py_strip t = t" and "drop_money_prefix t = t" and "drop_money_suffix t = t"
    and "dropWhile (\<lambda>c. c = CHR ''$'') t = t" and "amount_text t" and "dropWhile (\<lambda>c. c = CHR ''+'' \<or> c = CHR ''-'') t = t"
    and "remove_char (CHR '' '') t = t" and "\<not> starts_with ''-'' t" and "\<not> starts_with ''('' t"
proof -
  have t: "t \<noteq> []" "is_digit (hd t)" "is_digit (last t)" using assms by (auto simp: number_text_def)
  have chars: "\<forall>c \<in> set t. \<not> is_space c" using number_text_chars(1) [OF assms] by blast
  show "normalize_whitespace t = t" "py_strip t = t" using chars by (simp_all add: normalize_whitespace_word py_strip_no_space)
  show "drop_money_prefix t = t" "drop_money_suffix t = t" using t by (simp_all add: drop_money_prefix_digit drop_money_suffix_digit)
  have hd: "hd t \<noteq> CHR ''$''" "hd t \<notin> set ''+-''" "hd t \<noteq> CHR ''-''" "hd t \<noteq> CHR ''(''" using digit_neq [OF t(2)] by auto
  then show "dropWhile (\<lambda>c. c = CHR ''$'') t = t" "dropWhile (\<lambda>c. c = CHR ''+'' \<or> c = CHR ''-'') t = t"
    "\<not> starts_with ''-'' t" "\<not> starts_with ''('' t" using t(1) by (cases t; auto simp: starts_with_def)+
  show "amount_text t"
    using assms hd(2) t by (auto simp: amount_text_def number_text_def Let_def list_all_iff)
  show "remove_char (CHR '' '') t = t"
    using number_text_chars(2) [OF assms] by (auto simp: remove_char_def filter_id_conv)
qed

lemma parse_money_number: "number_text t \<Longrightarrow> parse_money t = plain_money t"
  by (simp add: parse_money_def number_text_kept plain_money_def Let_def option.map_ident split: option.split)

lemma parse_money_negative:
  assumes "number_text t"
  shows "parse_money (''-'' @ t) = map_option dneg (plain_money t)" and "parse_money (''('' @ t @ '')'') = map_option dneg (plain_money t)"
proof -
  note kept = number_text_kept [OF assms]
  have t: "t \<noteq> []" "is_digit (hd t)" "is_digit (last t)" using assms by (auto simp: number_text_def)
  have chars: "\<forall>c \<in> set t. \<not> is_space c" using number_text_chars(1) [OF assms] by blast
  have w: "normalize_whitespace (''-'' @ t) = ''-'' @ t" "normalize_whitespace (''('' @ t @ '')'') = ''('' @ t @ '')''"
    "py_strip (''-'' @ t) = ''-'' @ t" "py_strip (''('' @ t @ '')'') = ''('' @ t @ '')''"
    using chars by (auto intro!: normalize_whitespace_word py_strip_no_space)
  have m: "drop_money_prefix (''-'' @ t) = ''-'' @ t"
    by (simp add: drop_money_prefix_def MONEY_WORDS_def CURRENCY_CODES_def py_upper_def upper_char_def is_lower_def char_code_def)
  have a: "amount_text (''-'' @ t)"
    using assms t by (auto simp: amount_text_def number_text_def Let_def list_all_iff)
  show "parse_money (''-'' @ t) = map_option dneg (plain_money t)"
    using w(1,3) m a t kept
    by (auto simp: parse_money_def plain_money_def Let_def starts_with_def drop_money_suffix_digit option.map_comp split: option.split)
  show "parse_money (''('' @ t @ '')'') = map_option dneg (plain_money t)"
    using w(2,4) kept
    by (simp add: parse_money_def plain_money_def Let_def starts_with_def butlast_append split: option.split)
qed

lemma remove_char_join:
  "c \<notin> set (concat gs) \<Longrightarrow> remove_char c (py_join [c] gs) = concat gs"
  by (induction "[c]" gs rule: py_join.induct) (auto simp: remove_char_def filter_id_conv)

lemma set_py_join: "set (py_join sep gs) \<subseteq> set sep \<union> set (concat gs)"
  by (induction sep gs rule: py_join.induct) auto

lemma remove_char_append [simp]: "remove_char c (s @ t) = remove_char c s @ remove_char c t"
  by (simp add: remove_char_def)

lemma remove_char_other: "c \<notin> set s \<Longrightarrow> remove_char c s = s"
  by (auto simp: remove_char_def filter_id_conv)

lemma skip_other: "c \<notin> set t \<Longrightarrow> dropWhile (\<lambda>x. x \<noteq> c) (rev t @ u) = dropWhile (\<lambda>x. x \<noteq> c) u"
  by (rule dropWhile_append2) auto

lemma last_index_at: "c \<notin> set t \<Longrightarrow> last_index c (s @ c # t) = Suc (length s)"
  by (simp add: last_index_def skip_other)

lemma last_index_before: "c \<notin> set t \<Longrightarrow> last_index c (s @ t) \<le> length s"
  using length_dropWhile_le [of "\<lambda>x. x \<noteq> c" "rev s"] by (simp add: last_index_def skip_other)

text \<open>Groups of digits with one separator between them, a decimal mark and one or two decimals.\<close>

lemma separators_both:
  assumes dig: "list_all is_digit (concat gs)" "list_all is_digit fp" and sep: "sep \<noteq> mark" "{sep, mark} = {CHR '','', CHR ''.''}"
    and "sep \<in> set (py_join [sep] gs)"
  shows "normalize_separators (py_join [sep] gs @ mark # fp) = Some (concat gs @ CHR ''.'' # fp)"
proof -
  have nosep: "sep \<notin> set (concat gs)" "sep \<notin> set fp" "mark \<notin> set (concat gs)" "mark \<notin> set fp"
    using digits_no [OF dig(1)] digits_no [OF dig(2)] sep by (auto simp: doubleton_eq_iff)
  then have nomark: "mark \<notin> set (py_join [sep] gs)" using set_py_join [of "[sep]" gs] sep(1) by auto
  let ?s = "py_join [sep] gs @ mark # fp"
  have "last_index sep ?s \<le> length (py_join [sep] gs)" "last_index mark ?s = Suc (length (py_join [sep] gs))"
    using nosep sep(1) by (auto intro!: last_index_before last_index_at)
  then have before: "last_index sep ?s < last_index mark ?s" by simp
  have removed: "remove_char sep ?s = concat gs @ mark # fp"
    using nosep sep(1) by (simp add: remove_char_join remove_char_other)
  consider "sep = CHR '',''" "mark = CHR ''.''" | "sep = CHR ''.''" "mark = CHR '',''" using sep by (auto simp: doubleton_eq_iff)
  then show ?thesis
  proof cases
    case 1
    then show ?thesis using assms(5) before removed by (auto simp: normalize_separators_def)
  next
    case 2
    have "map (\<lambda>c. if c = CHR '','' then CHR ''.'' else c) (concat gs @ CHR '','' # fp) = concat gs @ CHR ''.'' # fp"
      using nosep 2 by (auto intro!: map_idI)
    with 2 show ?thesis using assms(5) before removed by (auto simp: normalize_separators_def)
  qed
qed

lemma separators_single:
  assumes dig: "list_all is_digit g" "list_all is_digit fp" and "g \<noteq> []" and "length fp \<in> {1, 2}" and "mark = CHR '','' \<or> mark = CHR ''.''"
  shows "normalize_separators (g @ mark # fp) = Some (g @ CHR ''.'' # fp)"
proof -
  have no: "CHR '','' \<notin> set g" "CHR '','' \<notin> set fp" "CHR ''.'' \<notin> set g" "CHR ''.'' \<notin> set fp"
    using digits_no [OF dig(1)] digits_no [OF dig(2)] by auto
  have "count_char (CHR ''.'') (g @ CHR ''.'' # fp) = 1"
    using no by (auto simp: count_char_def filter_False_iff intro!: filter_False)
  with assms(5) no assms(4) show ?thesis
    by (auto simp: normalize_separators_def split_on_first split_on_none)
qed

lemma plain_money_marked:
  assumes "list_all is_digit ip" and "list_all is_digit fp" and "ip \<noteq> []" and "fp \<noteq> []" and "normalize_separators s = Some (ip @ CHR ''.'' # fp)"
  shows "plain_money s = Some (Scaled (digits_value (ip @ fp)) (- int (length fp)))"
proof -
  have "CHR ''.'' \<notin> set ip" "CHR ''.'' \<notin> set fp" using digits_no [OF assms(1)] digits_no [OF assms(2)] by auto
  then have "plain_amount (ip @ CHR ''.'' # fp)" using assms(1-4) by (simp add: plain_amount_def split_on_first split_on_none)
  then show ?thesis using decimal_of_plain [OF assms(1-3), of False True] assms(5) by (simp add: plain_money_def)
qed

lemma number_text_groups:
  assumes "list_all is_digit (concat gs)" and "list_all is_digit fp" and "gs \<noteq> []" and "hd gs \<noteq> []" and "fp \<noteq> []"
    and "{sep, mark} = {CHR '','', CHR ''.''}"
  shows "number_text (py_join [sep] gs @ mark # fp)"
proof -
  obtain g rest where gs: "gs = g # rest" "g \<noteq> []" using assms(3,4) by (cases gs) auto
  have h: "py_join [sep] gs \<noteq> [] \<and> hd (py_join [sep] gs) = hd g" using gs by (cases rest) auto
  have "is_digit (hd g)" "is_digit (last fp)" using assms(1,2,5) gs by (auto simp: list_all_iff)
  moreover have "c = CHR '','' \<or> c = CHR ''.'' \<or> is_digit c" if "c \<in> set (py_join [sep] gs @ mark # fp)" for c
  proof -
    have "c \<in> {sep, mark} \<or> c \<in> set (concat gs) \<or> c \<in> set fp" using that set_py_join [of "[sep]" gs] by auto
    then show ?thesis using assms(1,2,6) by (auto simp: list_all_iff)
  qed
  ultimately show ?thesis using h assms(5) by (auto simp: number_text_def list_all_iff)
qed

text \<open>
  C39: amounts are read the same way in both conventions. Digits in groups with commas between them and a
  decimal point, and the same digits with points between the groups and a decimal comma, are the decimal
  with these digits; a minus sign or parentheses negate it.
\<close>

theorem money_formats:
  assumes "list_all is_digit (concat gs)" and "list_all is_digit fp" and "gs \<noteq> []" and "hd gs \<noteq> []" and "length fp \<in> {1, 2}"
  shows "let v = Scaled (digits_value (concat gs @ fp)) (- int (length fp));
      us = py_join '','' gs @ ''.'' @ fp; eu = py_join ''.'' gs @ '','' @ fp in
    parse_money us = Some v \<and> parse_money eu = Some v
    \<and> parse_money (''('' @ us @ '')'') = Some (dneg v) \<and> parse_money (''-'' @ eu) = Some (dneg v)"
proof -
  have fp: "fp \<noteq> []" using assms(5) by auto
  have one: "number_text (py_join [sep] gs @ mark # fp)
      \<and> plain_money (py_join [sep] gs @ mark # fp) = Some (Scaled (digits_value (concat gs @ fp)) (- int (length fp)))"
    if sep: "sep \<noteq> mark" "{sep, mark} = {CHR '','', CHR ''.''}" for sep mark
  proof -
    obtain g rest where gs: "gs = g # rest" "g \<noteq> []" using assms(3,4) by (cases gs) auto
    have "normalize_separators (py_join [sep] gs @ mark # fp) = Some (concat gs @ CHR ''.'' # fp)"
    proof (cases rest)
      case Nil
      with gs assms(1,2,5) sep show ?thesis by (auto simp: doubleton_eq_iff intro!: separators_single)
    next
      case (Cons g' rest')
      then have "sep \<in> set (py_join [sep] gs)" using gs by simp
      then show ?thesis by (rule separators_both [OF assms(1,2) sep])
    qed
    moreover have "concat gs \<noteq> []" using gs by simp
    ultimately show ?thesis
      using plain_money_marked [OF assms(1,2) _ fp] number_text_groups [OF assms(1-4) fp sep(2)] by simp
  qed
  have us: "number_text (py_join '','' gs @ ''.'' @ fp) \<and> plain_money (py_join '','' gs @ ''.'' @ fp)
      = Some (Scaled (digits_value (concat gs @ fp)) (- int (length fp)))"
    using one [of "CHR '',''" "CHR ''.''"] by simp
  have eu: "number_text (py_join ''.'' gs @ '','' @ fp) \<and> plain_money (py_join ''.'' gs @ '','' @ fp)
      = Some (Scaled (digits_value (concat gs @ fp)) (- int (length fp)))"
    using one [of "CHR ''.''" "CHR '',''"] by (simp add: insert_commute)
  show ?thesis
    using us eu parse_money_number parse_money_negative [of "py_join '','' gs @ ''.'' @ fp"] parse_money_negative [of "py_join ''.'' gs @ '','' @ fp"]
    by (simp add: Let_def)
qed

theorem money_formats_witness:
  "parse_money ''(1,234,567.89)'' = Some (Scaled (- 123456789) (- 2)) \<and> parse_money ''1.234.567,89'' = Some (Scaled 123456789 (- 2))"
proof -
  have "list_all is_digit (concat [''1'', ''234'', ''567''])" "list_all is_digit ''89''"
    "digits_value (concat [''1'', ''234'', ''567''] @ ''89'') = 123456789" "dneg (Scaled 123456789 (- 2)) = Scaled (- 123456789) (- 2)"
    by code_simp+
  with money_formats [of "[''1'', ''234'', ''567'']" "''89''"] show ?thesis by (simp add: Let_def)
qed

theorem iso_date_roundtrip_witness: "parse_invoice_date (date_isoformat 738945) = Some 738945 \<and> date_isoformat 738945 = ''2024-02-29''"
proof -
  have "date_isoformat 738945 = ''2024-02-29''" by code_simp
  with iso_date_roundtrip [of 738945] show ?thesis by simp
qed

end
