(* ===== verification/Grounding.thy ===== *)
theory Grounding
  imports Normalize
begin

text \<open>
  The text of a document and the evidence of a value: the document schema of
  \<^verbatim>\<open>schemas/extraction.py\<close>, \<^verbatim>\<open>extraction/evidence.py\<close>, \<^verbatim>\<open>union_bbox\<close> of \<^verbatim>\<open>extraction/layout.py\<close>, and the grounding
  of what a vision model claims (\<^verbatim>\<open>extraction/hybrid/grounding.py\<close>).
\<close>

subsection \<open>Documents\<close>

record word_token =
  wt_text :: string
  wt_page :: nat
  wt_bbox :: bounding_box
  wt_block_number :: nat
  wt_line_number :: nat
  wt_word_number :: nat
  wt_source :: text_source

record page_text =
  pt_page :: nat
  pt_width :: pyfloat
  pt_height :: pyfloat
  pt_source :: text_source
  pt_words :: "word_token list"

record document_text =
  dx_pages :: "page_text list"
  dx_used_ocr :: bool

subsection \<open>Evidence\<close>

definition fadd :: "pyfloat \<Rightarrow> pyfloat \<Rightarrow> pyfloat" where "fadd = sadd 2 53"

text \<open>Halving is exact.\<close>

definition fhalf :: "pyfloat \<Rightarrow> pyfloat" where
  "fhalf x = Scaled (coeff x) (expo x - 1)"

definition fmin :: "pyfloat list \<Rightarrow> pyfloat" where
  "fmin xs = foldl (\<lambda>a x. if flt x a then x else a) (hd xs) (tl xs)"

definition fmax :: "pyfloat list \<Rightarrow> pyfloat" where
  "fmax xs = foldl (\<lambda>a x. if flt a x then x else a) (hd xs) (tl xs)"

definition union_bbox :: "word_token list \<Rightarrow> bounding_box" where
  "union_bbox ws = \<lparr>bb_x0 = fmin (map (bb_x0 \<circ> wt_bbox) ws), bb_y0 = fmin (map (bb_y0 \<circ> wt_bbox) ws),
     bb_x1 = fmax (map (bb_x1 \<circ> wt_bbox) ws), bb_y1 = fmax (map (bb_y1 \<circ> wt_bbox) ws)\<rparr>"

fun source_rank :: "text_source \<Rightarrow> nat" where
  "source_rank EMBEDDED = 0"
| "source_rank OCR = 1"

definition evidence_from_words :: "word_token list \<Rightarrow> evidence_span list" where
  "evidence_from_words ws =
     map (\<lambda>(page, source).
        let ordered = sort_key (\<lambda>w. (fval (fhalf (fadd (bb_y0 (wt_bbox w)) (bb_y1 (wt_bbox w)))),
              fval (bb_x0 (wt_bbox w)), wt_word_number w))
              (filter (\<lambda>w. wt_page w = page \<and> wt_source w = source) ws)
        in \<lparr>ev_page = page, ev_bbox = union_bbox ordered, ev_text = py_join '' '' (map wt_text ordered), ev_source = source\<rparr>)
     (sort_key (\<lambda>(page, source). (page, source_rank source)) (dict_fromkeys (map (\<lambda>w. (wt_page w, wt_source w)) ws)))"

subsection \<open>Candidates\<close>

record candidate_field =
  kf_raw_value :: "string option"
  kf_page :: "nat option"
  kf_evidence_quote :: "string option"

datatype grounding_reason = GROUNDED_EXACT | GROUNDED_FUZZY | QUOTE_NOT_FOUND | QUOTE_NOT_UNIQUE | PAGE_OUT_OF_RANGE
  | VALUE_NORMALIZATION_FAILED | VALUE_NOT_FOUND_IN_QUOTE | VALUE_NOT_UNIQUE_IN_QUOTE | QUOTE_DIGITS_MISMATCH

datatype normalized_value = NText string | NDate date | NDecimal decimal

text \<open>\<^verbatim>\<open>==\<close> of two values of one field: decimals are compared by value.\<close>

fun value_eq :: "normalized_value \<Rightarrow> normalized_value \<Rightarrow> bool" where
  "value_eq (NDecimal a) (NDecimal b) = deq a b"
| "value_eq a b = (a = b)"

record grounding_result =
  gr_reason :: grounding_reason
  gr_normalized_value :: "normalized_value option"
  gr_evidence :: "evidence_span list"

definition grounded :: "grounding_result \<Rightarrow> bool" where
  "grounded r \<longleftrightarrow> gr_reason r \<in> {GROUNDED_EXACT, GROUNDED_FUZZY}"

definition NUMERIC_FIELDS :: "string list" where
  "NUMERIC_FIELDS = [''subtotal'', ''tax'', ''total'', ''quantity'', ''unit_price'', ''line_total'']"

definition normalize_value :: "string \<Rightarrow> string \<Rightarrow> normalized_value option" where
  "normalize_value name raw =
     (if name = ''invoice_date'' then map_option NDate (parse_invoice_date raw)
      else if name = ''currency'' then map_option NText (normalize_currency raw)
      else if name \<in> set NUMERIC_FIELDS then map_option NDecimal (parse_money raw)
      else let v = normalize_whitespace raw in if v = [] then None else Some (NText v))"

subsection \<open>The stream of a page\<close>

text \<open>\<^verbatim>\<open>re.findall\<close> of a class of characters: the maximal runs of characters in it.\<close>

fun char_runs :: "(char \<Rightarrow> bool) \<Rightarrow> string \<Rightarrow> string \<Rightarrow> string list" where
  "char_runs P cur [] = (if cur = [] then [] else [cur])"
| "char_runs P cur (c # cs) =
     (if P c then char_runs P (cur @ [c]) cs else if cur = [] then char_runs P [] cs else cur # char_runs P [] cs)"

definition parts :: "string \<Rightarrow> string list" where
  "parts s = char_runs is_alnum [] (py_casefold s)"

definition page_stream :: "word_token list \<Rightarrow> (string \<times> nat) list" where
  "page_stream ws = concat (map (\<lambda>(i, w). map (\<lambda>p. (p, i)) (parts (wt_text w))) (List.enumerate 0 ws))"

definition word_boundary_aligned :: "nat list \<Rightarrow> nat \<Rightarrow> nat \<Rightarrow> bool" where
  "word_boundary_aligned owners start len =
     ((start = 0 \<or> owners ! (start - 1) \<noteq> owners ! start)
      \<and> (start + len = length owners \<or> owners ! (start + len - 1) \<noteq> owners ! (start + len)))"

definition slice :: "nat \<Rightarrow> nat \<Rightarrow> 'a list \<Rightarrow> 'a list" where
  "slice i j xs = take (j - i) (drop i xs)"

definition ordered_words :: "page_text \<Rightarrow> word_token list" where
  "ordered_words page = sort_key (\<lambda>w. (fval (bb_y0 (wt_bbox w)), fval (bb_x0 (wt_bbox w)), wt_block_number w, wt_line_number w)) (pt_words page)"

subsection \<open>Grounding\<close>

definition reject :: "grounding_reason \<Rightarrow> normalized_value option \<Rightarrow> grounding_result" where
  "reject reason v = \<lparr>gr_reason = reason, gr_normalized_value = v, gr_evidence = []\<rparr>"

definition spans_of_value :: "string \<Rightarrow> word_token list \<Rightarrow> normalized_value \<Rightarrow> nat \<Rightarrow> nat \<Rightarrow> (nat \<times> nat) list" where
  "spans_of_value name ws v first last' =
     [(left, right) \<leftarrow> concat (map (\<lambda>left. map (\<lambda>right. (left, right)) [Suc left..<Suc last']) [first..<last']).
        case normalize_value name (py_join '' '' (map wt_text (slice left right ws))) of None \<Rightarrow> False | Some u \<Rightarrow> value_eq u v]"

definition bind_value :: "string \<Rightarrow> word_token list \<Rightarrow> nat list \<Rightarrow> nat \<Rightarrow> nat \<Rightarrow> normalized_value \<Rightarrow> bool \<Rightarrow> grounding_result" where
  "bind_value name ws owners start len v fuzzy =
     (case spans_of_value name ws v (owners ! start) (owners ! (start + len - 1) + 1) of
        [] \<Rightarrow> reject VALUE_NOT_FOUND_IN_QUOTE (Some v)
      | [(left, right)] \<Rightarrow>
          \<lparr>gr_reason = (if fuzzy then GROUNDED_FUZZY else GROUNDED_EXACT), gr_normalized_value = Some v,
           gr_evidence = evidence_from_words (slice left right ws)\<rparr>
      | _ \<Rightarrow> reject VALUE_NOT_UNIQUE_IN_QUOTE (Some v))"

text \<open>\<^verbatim>\<open>rapidfuzz.fuzz.ratio\<close> and the threshold.\<close>

record fuzzy =
  fz_ratio :: "string \<Rightarrow> string \<Rightarrow> pyfloat"
  fz_threshold :: pyfloat

definition scored_spans :: "fuzzy \<Rightarrow> string list \<Rightarrow> string list \<Rightarrow> nat list \<Rightarrow> (pyfloat \<times> nat \<times> nat) list" where
  "scored_spans fz quote stream owners =
     concat (map (\<lambda>len. List.map_filter (\<lambda>start.
         let score = fz_ratio fz (py_join '' '' quote) (py_join '' '' (slice start (start + len) stream)) in
         if word_boundary_aligned owners start len \<and> fle (fz_threshold fz) score then Some (score, start, len) else None)
       [0..<Suc (length stream) - len]) [max 1 (length quote - 1)..<length quote + 2])"

definition best_spans :: "(pyfloat \<times> nat \<times> nat) list \<Rightarrow> (nat \<times> nat) list" where
  "best_spans scored = remdups (map snd (filter (\<lambda>(s, _). \<forall>(t, _) \<in> set scored. fle t s) scored))"

definition digit_runs :: "string list \<Rightarrow> string list" where
  "digit_runs xs = char_runs is_digit [] (py_join '' '' xs)"

definition exact_starts :: "string list \<Rightarrow> string list \<Rightarrow> nat list \<Rightarrow> nat list" where
  "exact_starts quote stream owners =
     filter (\<lambda>start. slice start (start + length quote) stream = quote \<and> word_boundary_aligned owners start (length quote))
       [0..<Suc (length stream) - length quote]"

definition ground_fuzzy ::
  "fuzzy \<Rightarrow> string \<Rightarrow> word_token list \<Rightarrow> string list \<Rightarrow> string list \<Rightarrow> nat list \<Rightarrow> normalized_value \<Rightarrow> grounding_result" where
  "ground_fuzzy fz name ws quote stream owners v =
     (case best_spans (scored_spans fz quote stream owners) of
        [] \<Rightarrow> reject QUOTE_NOT_FOUND (Some v)
      | [(start, len)] \<Rightarrow>
          if (name \<in> set NUMERIC_FIELDS \<or> name = ''invoice_date'')
             \<and> digit_runs quote \<noteq> digit_runs (slice start (start + len) stream)
          then reject QUOTE_DIGITS_MISMATCH (Some v)
          else bind_value name ws owners start len v True
      | _ \<Rightarrow> reject QUOTE_NOT_UNIQUE (Some v))"

definition ground_candidate :: "fuzzy \<Rightarrow> string \<Rightarrow> candidate_field \<Rightarrow> document_text \<Rightarrow> grounding_result" where
  "ground_candidate fz name k doc =
     (case kf_raw_value k of
        None \<Rightarrow> reject QUOTE_NOT_FOUND None
      | Some raw \<Rightarrow>
          (case normalize_value name raw of
             None \<Rightarrow> reject VALUE_NORMALIZATION_FAILED None
           | Some v \<Rightarrow>
               (case kf_page k of
                  None \<Rightarrow> reject PAGE_OUT_OF_RANGE (Some v)
                | Some p \<Rightarrow>
                    if length (dx_pages doc) \<le> p then reject PAGE_OUT_OF_RANGE (Some v)
                    else let quote = (case kf_evidence_quote k of None \<Rightarrow> [] | Some q \<Rightarrow> parts q);
                             ws = ordered_words (dx_pages doc ! p);
                             stream = map fst (page_stream ws); owners = map snd (page_stream ws)
                         in if quote = [] then reject QUOTE_NOT_FOUND (Some v)
                            else (case exact_starts quote stream owners of
                                    [] \<Rightarrow> ground_fuzzy fz name ws quote stream owners v
                                  | [start] \<Rightarrow> bind_value name ws owners start (length quote) v False
                                  | _ \<Rightarrow> reject QUOTE_NOT_UNIQUE (Some v)))))"

subsection \<open>Grounded values occur in the document\<close>

lemma length_slice: "i \<le> j \<Longrightarrow> j \<le> length xs \<Longrightarrow> length (slice i j xs) = j - i"
  by (simp add: slice_def)

lemma set_slice: "set (slice i j xs) \<subseteq> set xs"
  by (auto simp: slice_def dest: in_set_takeD in_set_dropD)

lemma sort_key_Nil_iff: "sort_key f xs = [] \<longleftrightarrow> xs = []"
  by (metis length_0_conv length_sort)

lemma evidence_Nil_iff [simp]: "evidence_from_words ws = [] \<longleftrightarrow> ws = []"
  by (simp add: evidence_from_words_def sort_key_Nil_iff)

lemma evidence_pages: "e \<in> set (evidence_from_words ws) \<Longrightarrow> ev_page e \<in> wt_page ` set ws"
  by (auto simp: evidence_from_words_def Let_def image_iff)

lemma page_stream_owner: "(x, i) \<in> set (page_stream ws) \<Longrightarrow> i < length ws"
  by (auto simp: page_stream_def in_set_enumerate_eq)

lemma owners_bound: "k < length (page_stream ws) \<Longrightarrow> map snd (page_stream ws) ! k < length ws"
  using nth_mem [of k "page_stream ws"] page_stream_owner [of "fst (page_stream ws ! k)" "snd (page_stream ws ! k)" ws] by simp

text \<open>A value that \<^verbatim>\<open>_bind_value\<close> accepts is the reading of some words of the page.\<close>

definition value_at :: "string \<Rightarrow> word_token list \<Rightarrow> normalized_value \<Rightarrow> evidence_span list \<Rightarrow> bool" where
  "value_at name ws v ev \<longleftrightarrow> (\<exists>left right u. left < right \<and> right \<le> length ws
     \<and> normalize_value name (py_join '' '' (map wt_text (slice left right ws))) = Some u \<and> value_eq u v
     \<and> ev = evidence_from_words (slice left right ws))"

lemma value_at_evidence: "value_at name ws v ev \<Longrightarrow> ev \<noteq> [] \<and> ev_page ` set ev \<subseteq> wt_page ` set ws"
proof -
  assume "value_at name ws v ev"
  then obtain left right where "left < right" "right \<le> length ws" and ev: "ev = evidence_from_words (slice left right ws)"
    by (auto simp: value_at_def)
  then have "slice left right ws \<noteq> []" using length_slice [of left right ws] by force
  with ev set_slice [of left right ws] evidence_pages show ?thesis by fastforce
qed

lemma bind_value_sound:
  assumes "grounded (bind_value name ws (map snd (page_stream ws)) start len v fuzzy)" and "0 < len" and "start + len \<le> length (page_stream ws)"
  shows "gr_normalized_value (bind_value name ws (map snd (page_stream ws)) start len v fuzzy) = Some v
    \<and> value_at name ws v (gr_evidence (bind_value name ws (map snd (page_stream ws)) start len v fuzzy))"
proof -
  let ?o = "map snd (page_stream ws)"
  let ?spans = "spans_of_value name ws v (?o ! start) (?o ! (start + len - 1) + 1)"
  have "?o ! (start + len - 1) < length ws" using assms(2,3) by (intro owners_bound) simp
  moreover obtain left right where sp: "?spans = [(left, right)]"
    using assms(1) by (auto simp: bind_value_def reject_def grounded_def split: list.splits prod.splits)
  then have "(left, right) \<in> set ?spans" by simp
  ultimately have "left < right" "right \<le> length ws"
    "\<exists>u. normalize_value name (py_join '' '' (map wt_text (slice left right ws))) = Some u \<and> value_eq u v"
    by (auto simp: spans_of_value_def split: option.splits)
  with sp show ?thesis unfolding value_at_def bind_value_def by auto
qed

lemma best_spans_scored: "(start, len) \<in> set (best_spans scored) \<Longrightarrow> \<exists>s. (s, start, len) \<in> set scored"
  by (auto simp: best_spans_def)

lemma scored_spans_range:
  "(s, start, len) \<in> set (scored_spans fz quote stream owners) \<Longrightarrow> 0 < len \<and> start + len \<le> length stream"
  by (auto simp: scored_spans_def map_filter_def Let_def split: if_splits)

lemma exact_starts_range:
  "start \<in> set (exact_starts quote stream owners) \<Longrightarrow> start + length quote \<le> length stream"
  by (auto simp: exact_starts_def)

lemma grounded_reject [simp]: "reason \<notin> {GROUNDED_EXACT, GROUNDED_FUZZY} \<Longrightarrow> \<not> grounded (reject reason v)"
  by (simp add: grounded_def reject_def)

lemma ground_fuzzy_sound:
  assumes "r = ground_fuzzy fz name ws quote (map fst (page_stream ws)) (map snd (page_stream ws)) v" and "grounded r"
  shows "gr_normalized_value r = Some v \<and> value_at name ws v (gr_evidence r)"
proof -
  let ?st = "map fst (page_stream ws)" and ?ow = "map snd (page_stream ws)"
  have "\<exists>start len. best_spans (scored_spans fz quote ?st ?ow) = [(start, len)] \<and> r = bind_value name ws ?ow start len v True"
    using assms by (auto simp: ground_fuzzy_def split: list.splits prod.splits if_splits)
  then obtain start len where b: "best_spans (scored_spans fz quote ?st ?ow) = [(start, len)]" "r = bind_value name ws ?ow start len v True"
    by blast
  then obtain s where "(s, start, len) \<in> set (scored_spans fz quote ?st ?ow)" using best_spans_scored by (metis list.set_intros(1))
  then have "0 < len" "start + len \<le> length (page_stream ws)" using scored_spans_range by fastforce+
  with assms(2) b(2) show ?thesis using bind_value_sound by blast
qed

text \<open>
  A grounded value stands in the document. When a candidate of the vision model is grounded, its value
  is what its own text reads as, and some words of the page it names, next to each other in reading order,
  read as an equal value; the evidence is that of these words, so it is not empty and on their page.
\<close>

lemma grounded_value_in_source:
  assumes "grounded (ground_candidate fz name k doc)"
  shows "\<exists>p raw v. kf_page k = Some p \<and> p < length (dx_pages doc) \<and> kf_raw_value k = Some raw \<and> normalize_value name raw = Some v
    \<and> gr_normalized_value (ground_candidate fz name k doc) = Some v
    \<and> value_at name (ordered_words (dx_pages doc ! p)) v (gr_evidence (ground_candidate fz name k doc))
    \<and> gr_evidence (ground_candidate fz name k doc) \<noteq> []"
proof -
  let ?r = "ground_candidate fz name k doc"
  obtain raw v p where c: "kf_raw_value k = Some raw" "normalize_value name raw = Some v" "kf_page k = Some p" "p < length (dx_pages doc)"
    using assms by (auto simp: ground_candidate_def split: option.splits if_splits)
  define ws where "ws = ordered_words (dx_pages doc ! p)"
  define quote where "quote = (case kf_evidence_quote k of None \<Rightarrow> [] | Some q \<Rightarrow> parts q)"
  let ?st = "map fst (page_stream ws)" and ?ow = "map snd (page_stream ws)"
  have r: "?r = (if quote = [] then reject QUOTE_NOT_FOUND (Some v)
      else case exact_starts quote ?st ?ow of [] \<Rightarrow> ground_fuzzy fz name ws quote ?st ?ow v
        | [start] \<Rightarrow> bind_value name ws ?ow start (length quote) v False | _ \<Rightarrow> reject QUOTE_NOT_UNIQUE (Some v))"
    using c by (simp add: ground_candidate_def Let_def ws_def quote_def split: list.split)
  have "gr_normalized_value ?r = Some v \<and> value_at name ws v (gr_evidence ?r)"
  proof (cases "exact_starts quote ?st ?ow")
    case Nil
    with assms r have "?r = ground_fuzzy fz name ws quote ?st ?ow v" by (auto split: if_splits)
    then show ?thesis using assms by (rule ground_fuzzy_sound)
  next
    case (Cons start rest)
    with assms r have b: "?r = bind_value name ws ?ow start (length quote) v False" "quote \<noteq> []"
      by (auto split: if_splits list.splits)
    have "start + length quote \<le> length (page_stream ws)"
      using exact_starts_range [of start quote ?st ?ow] Cons by simp
    with b assms show ?thesis using bind_value_sound [of name ws start "length quote" v False] by auto
  qed
  with c value_at_evidence show ?thesis unfolding ws_def by blast
qed

end
