(* ===== verification/Patterns.thy ===== *)
theory Patterns
  imports Text Prelude
begin

text \<open>
  Python's \<^verbatim>\<open>re\<close> as far as the extraction rules use it: a backtracking matcher that lists every way a pattern can
  match, in the order in which \<^verbatim>\<open>re\<close> tries them, so that the first one is the match. One capture group is enough.
\<close>

subsection \<open>Patterns and their matches\<close>

datatype pattern =
    Eps
  | Sym "char \<Rightarrow> bool"
  | Seq pattern pattern
  | Alt pattern pattern
  | Star pattern
  | LazyStar pattern
  | WordBoundary
  | LineStart
  | LineEnd
  | Ahead pattern
  | Capture pattern

text \<open>A position and the span of the group.\<close>

type_synonym cursor = "nat \<times> (nat \<times> nat) option"

fun repeat_greedy :: "(cursor \<Rightarrow> cursor list) \<Rightarrow> nat \<Rightarrow> cursor \<Rightarrow> cursor list" where
  "repeat_greedy f 0 c = [c]"
| "repeat_greedy f (Suc n) c = concat (map (repeat_greedy f n) (filter (\<lambda>d. fst c < fst d) (f c))) @ [c]"

fun repeat_lazy :: "(cursor \<Rightarrow> cursor list) \<Rightarrow> nat \<Rightarrow> cursor \<Rightarrow> cursor list" where
  "repeat_lazy f 0 c = [c]"
| "repeat_lazy f (Suc n) c = c # concat (map (repeat_lazy f n) (filter (\<lambda>d. fst c < fst d) (f c)))"

definition word_at :: "string \<Rightarrow> nat \<Rightarrow> bool" where
  "word_at s i = (i < length s \<and> is_word_char (s ! i))"

definition at_boundary :: "string \<Rightarrow> nat \<Rightarrow> bool" where
  "at_boundary s i = (word_at s i \<noteq> (0 < i \<and> word_at s (i - 1)))"

definition at_end :: "string \<Rightarrow> nat \<Rightarrow> bool" where
  "at_end s i = (i = length s \<or> Suc i = length s \<and> s ! i = CHR 0x0A)"

fun matches :: "string \<Rightarrow> pattern \<Rightarrow> cursor \<Rightarrow> cursor list" where
  "matches s Eps c = [c]"
| "matches s (Sym p) c = (if fst c < length s \<and> p (s ! fst c) then [(Suc (fst c), snd c)] else [])"
| "matches s (Seq p q) c = concat (map (matches s q) (matches s p c))"
| "matches s (Alt p q) c = matches s p c @ matches s q c"
| "matches s (Star p) c = repeat_greedy (matches s p) (length s - fst c) c"
| "matches s (LazyStar p) c = repeat_lazy (matches s p) (length s - fst c) c"
| "matches s WordBoundary c = (if at_boundary s (fst c) then [c] else [])"
| "matches s LineStart c = (if fst c = 0 then [c] else [])"
| "matches s LineEnd c = (if at_end s (fst c) then [c] else [])"
| "matches s (Ahead p) c = (if matches s p c = [] then [] else [c])"
| "matches s (Capture p) c = map (\<lambda>d. (fst d, Some (fst c, fst d))) (matches s p c)"

text \<open>A match: where it starts, where it ends, and the span of its group.\<close>

type_synonym found = "nat \<times> nat \<times> (nat \<times> nat) option"

definition match_at :: "string \<Rightarrow> pattern \<Rightarrow> nat \<Rightarrow> found option" where
  "match_at s p i = (case matches s p (i, None) of [] \<Rightarrow> None | c # _ \<Rightarrow> Some (i, c))"

definition re_search_from :: "nat \<Rightarrow> pattern \<Rightarrow> string \<Rightarrow> found option" where
  "re_search_from i p s =
     (case List.map_filter (match_at s p) [i..<Suc (length s)] of [] \<Rightarrow> None | m # _ \<Rightarrow> Some m)"

definition re_search :: "pattern \<Rightarrow> string \<Rightarrow> found option" where
  "re_search = re_search_from 0"

definition re_match :: "pattern \<Rightarrow> string \<Rightarrow> bool" where
  "re_match p s = (match_at s p 0 \<noteq> None)"

definition re_fullmatch :: "pattern \<Rightarrow> string \<Rightarrow> bool" where
  "re_fullmatch p s = list_ex (\<lambda>c. fst c = length s) (matches s p (0, None))"

text \<open>\<^verbatim>\<open>finditer\<close>: after a match the search goes on at its end; an empty match moves one position on.\<close>

lemma set_repeat_lazy: "set (repeat_lazy f k c) = set (repeat_greedy f k c)"
  by (induction k arbitrary: c) auto

lemma repeat_bounds:
  assumes "\<And>c d. d \<in> set (f c) \<Longrightarrow> fst c \<le> n \<Longrightarrow> fst d \<le> n" and "d \<in> set (repeat_greedy f k c)" and "fst c \<le> n"
  shows "fst c \<le> fst d \<and> fst d \<le> n"
  using assms(2,3)
proof (induction k arbitrary: c)
  case (Suc k)
  show ?case
  proof (cases "d = c")
    case False
    with Suc.prems(1) obtain e where e: "e \<in> set (f c)" "fst c < fst e" "d \<in> set (repeat_greedy f k e)" by auto
    with assms(1) Suc.prems(2) have "fst e \<le> n" by blast
    with Suc.IH e show ?thesis by fastforce
  qed (use Suc.prems(2) in simp)
qed simp

lemma matches_bounds: "d \<in> set (matches s p c) \<Longrightarrow> fst c \<le> length s \<Longrightarrow> fst c \<le> fst d \<and> fst d \<le> length s"
proof (induction p arbitrary: c d)
  case (Seq p q)
  then obtain e where e: "e \<in> set (matches s p c)" "d \<in> set (matches s q e)" by auto
  from Seq.IH(1) [OF e(1) Seq.prems(2)] Seq.IH(2) [OF e(2)] show ?case by linarith
next
  case (Star p)
  have "fst d' \<le> length s" if "d' \<in> set (matches s p c')" "fst c' \<le> length s" for c' d' using Star.IH that by blast
  with repeat_bounds [of "matches s p" "length s" d _ c] Star.prems show ?case by simp
next
  case (LazyStar p)
  have "fst d' \<le> length s" if "d' \<in> set (matches s p c')" "fst c' \<le> length s" for c' d' using LazyStar.IH that by blast
  with repeat_bounds [of "matches s p" "length s" d _ c] LazyStar.prems show ?case by (simp add: set_repeat_lazy)
next
  case (Alt p q)
  from Alt.prems(1) consider "d \<in> set (matches s p c)" | "d \<in> set (matches s q c)" by auto
  then show ?case using Alt.IH Alt.prems(2) by cases blast+
next
  case (Capture p)
  from Capture.prems(1) obtain e where "e \<in> set (matches s p c)" "fst d = fst e" by auto
  with Capture show ?case by metis
qed (simp_all split: if_splits)

lemma match_at_bounds: "match_at s p i = Some (a, b, g) \<Longrightarrow> i \<le> length s \<Longrightarrow> a = i \<and> a \<le> b \<and> b \<le> length s"
  using matches_bounds [of "(b, g)" s p "(i, None)"] by (auto simp: match_at_def split: list.splits)

lemma re_search_from_bounds:
  assumes "re_search_from i p s = Some (a, b, g)"
  shows "i \<le> a" and "a \<le> b" and "b \<le> length s" and "match_at s p a = Some (a, b, g)"
proof -
  have "(a, b, g) \<in> set (List.map_filter (match_at s p) [i..<Suc (length s)])"
    using assms by (auto simp: re_search_from_def simp del: upt_Suc split: list.splits)
  then obtain k where k: "i \<le> k" "k \<le> length s" "match_at s p k = Some (a, b, g)"
    unfolding List.map_filter_def by (auto simp: less_Suc_eq_le simp del: upt_Suc)
  from match_at_bounds [OF k(3,2)] k show "i \<le> a" and "a \<le> b" and "b \<le> length s" and "match_at s p a = Some (a, b, g)" by auto
qed

function re_finditer_from :: "nat \<Rightarrow> pattern \<Rightarrow> string \<Rightarrow> (nat \<times> nat) list" where
  "re_finditer_from i p s =
     (case re_search_from i p s of
        None \<Rightarrow> []
      | Some (a, b, _) \<Rightarrow> (a, b) # re_finditer_from (if a < b then b else Suc b) p s)"
  by pat_completeness auto
termination
proof (relation "measure (\<lambda>(i, p, s). Suc (length s) - i)")
  fix i p s m a x b g
  assume "re_search_from i p s = Some m" and "(a, x) = m" and "(b, g) = x"
  then have "re_search_from i p s = Some (a, b, g)" by simp
  from re_search_from_bounds [OF this] show "((if a < b then b else Suc b, p, s), i, p, s) \<in> measure (\<lambda>(i, p, s). Suc (length s) - i)" by auto
qed simp

declare re_finditer_from.simps [simp del]

definition re_finditer :: "pattern \<Rightarrow> string \<Rightarrow> (nat \<times> nat) list" where
  "re_finditer = re_finditer_from 0"

definition span_text :: "string \<Rightarrow> nat \<times> nat \<Rightarrow> string" where
  "span_text s = (\<lambda>(a, b). take (b - a) (drop a s))"

text \<open>\<^verbatim>\<open>re.sub(pattern, "", text)\<close>: what the matches leave.\<close>

fun text_between :: "string \<Rightarrow> nat \<Rightarrow> (nat \<times> nat) list \<Rightarrow> string" where
  "text_between s i [] = drop i s"
| "text_between s i ((a, b) # spans) = span_text s (i, a) @ text_between s b spans"

definition re_remove :: "pattern \<Rightarrow> string \<Rightarrow> string" where
  "re_remove p s = text_between s 0 (re_finditer p s)"

subsection \<open>Building patterns\<close>

text \<open>Literal text without regard to case, as under \<^verbatim>\<open>re.IGNORECASE\<close>.\<close>

fun lit :: "string \<Rightarrow> pattern" where
  "lit [] = Eps"
| "lit (c # cs) = Seq (Sym (\<lambda>d. lower_char d = lower_char c)) (lit cs)"

fun alts :: "pattern list \<Rightarrow> pattern" where
  "alts [] = Sym (\<lambda>_. False)"
| "alts [p] = p"
| "alts (p # q # ps) = Alt p (alts (q # ps))"

fun seqs :: "pattern list \<Rightarrow> pattern" where
  "seqs [] = Eps"
| "seqs [p] = p"
| "seqs (p # q # ps) = Seq p (seqs (q # ps))"

definition opt :: "pattern \<Rightarrow> pattern" where
  "opt p = Alt p Eps"

definition plus :: "pattern \<Rightarrow> pattern" where
  "plus p = Seq p (Star p)"

definition blank :: pattern where
  "blank = Sym is_space"

definition digit :: pattern where
  "digit = Sym is_digit"

definition one_of :: "string \<Rightarrow> pattern" where
  "one_of cs = Sym (\<lambda>c. c \<in> set cs)"

definition any_char :: pattern where
  "any_char = Sym (\<lambda>c. c \<noteq> CHR 0x0A)"

definition words_of :: "string list \<Rightarrow> pattern" where
  "words_of ws = alts (map lit ws)"

subsection \<open>Facts about searching\<close>

lemma re_finditer_spans:
  assumes "(a, b) \<in> set (re_finditer_from i p s)"
  shows "i \<le> a \<and> a \<le> b \<and> b \<le> length s"
  using assms
proof (induction i p s rule: re_finditer_from.induct)
  case (1 i p s)
  show ?case
  proof (cases "re_search_from i p s")
    case None
    with 1(2) show ?thesis by (simp add: re_finditer_from.simps)
  next
    case (Some m)
    obtain a' b' g where m: "m = (a', b', g)" by (cases m) auto
    note bounds = re_search_from_bounds [OF Some [unfolded m]]
    show ?thesis
    proof (cases "(a, b) = (a', b')")
      case True
      with bounds show ?thesis by simp
    next
      case False
      with 1(2) Some m have "(a, b) \<in> set (re_finditer_from (if a' < b' then b' else Suc b') p s)"
        by (subst (asm) re_finditer_from.simps) auto
      from 1(1) [OF Some m [symmetric] refl this] bounds show ?thesis by (auto split: if_splits)
    qed
  qed
qed

text \<open>The number of rounds a repetition is given is enough: more change nothing.\<close>

lemma repeat_greedy_enough:
  assumes "\<And>c d. d \<in> set (f c) \<Longrightarrow> fst c \<le> n \<Longrightarrow> fst d \<le> n" and "fst c \<le> n" and "n - fst c \<le> k"
  shows "repeat_greedy f k c = repeat_greedy f (n - fst c) c"
  using assms(2,3)
proof (induction "n - fst c" arbitrary: c k rule: less_induct)
  case less
  show ?case
  proof (cases "n - fst c")
    case 0
    then have "filter (\<lambda>d. fst c < fst d) (f c) = []" using less.prems(1) assms(1) [of _ c] by (force simp: filter_empty_conv)
    with 0 show ?thesis by (cases k) auto
  next
    case (Suc m)
    then obtain k' where k: "k = Suc k'" using less.prems(2) by (cases k) auto
    have same: "repeat_greedy f k' d = repeat_greedy f m d" if "d \<in> set (f c)" "fst c < fst d" for d
    proof -
      have d: "fst d \<le> n" "n - fst d < n - fst c" "n - fst d \<le> k'" "n - fst d \<le> m"
        using that assms(1) less.prems Suc k by fastforce+
      show ?thesis using less.hyps [OF d(2,1,3)] less.hyps [OF d(2,1,4)] by simp
    qed
    then show ?thesis using k Suc by (auto intro!: arg_cong [of _ _ concat])
  qed
qed

end
