(* ===== verification/Layout.thy ===== *)
theory Layout
  imports Grounding Patterns
begin

text \<open>
  The geometry of a page: text lines (\<^verbatim>\<open>extraction/layout.py\<close>), visual rows, table headers and their columns
  (\<^verbatim>\<open>extraction/table_layout.py\<close>). Coordinates are binary floats, rounded where Python rounds them.
\<close>

subsection \<open>Text lines\<close>

record text_line =
  tl_page :: nat
  tl_block_number :: nat
  tl_line_number :: nat
  tl_text :: string
  tl_bbox :: bounding_box
  tl_words :: "word_token list"

definition all_words :: "document_text \<Rightarrow> word_token list" where
  "all_words doc = concat (map pt_words (dx_pages doc))"

definition line_key :: "word_token \<Rightarrow> nat \<times> nat \<times> nat" where
  "line_key w = (wt_page w, wt_block_number w, wt_line_number w)"

definition line_of :: "word_token list \<Rightarrow> nat \<times> nat \<times> nat \<Rightarrow> text_line" where
  "line_of ws key =
     (let ordered = sort_key (\<lambda>w. (wt_word_number w, fval (bb_x0 (wt_bbox w)))) (filter (\<lambda>w. line_key w = key) ws)
      in \<lparr>tl_page = fst key, tl_block_number = fst (snd key), tl_line_number = snd (snd key),
          tl_text = py_join '' '' (map wt_text ordered), tl_bbox = union_bbox ordered, tl_words = ordered\<rparr>)"

definition reconstruct_lines :: "document_text \<Rightarrow> text_line list" where
  "reconstruct_lines doc =
     (let ws = all_words doc in
      sort_key (\<lambda>l. (tl_page l, fval (bb_y0 (tl_bbox l)), fval (bb_x0 (tl_bbox l))))
        (map (line_of ws) (dict_fromkeys (map line_key ws))))"

subsection \<open>Visual rows\<close>

record visual_row =
  vr_page :: nat
  vr_y0 :: pyfloat
  vr_y1 :: pyfloat
  vr_words :: "word_token list"

definition fmul :: "pyfloat \<Rightarrow> pyfloat \<Rightarrow> pyfloat" where "fmul = smul 2 53"

definition fabs :: "pyfloat \<Rightarrow> pyfloat" where
  "fabs x = Scaled \<bar>coeff x\<bar> (expo x)"

definition median :: "pyfloat list \<Rightarrow> pyfloat" where
  "median xs =
     (let ys = sort_key fval xs; n = length ys in
      if odd n then ys ! (n div 2) else fhalf (fadd (ys ! (n div 2 - 1)) (ys ! (n div 2))))"

definition word_height :: "word_token \<Rightarrow> pyfloat" where
  "word_height w = fsub (bb_y1 (wt_bbox w)) (bb_y0 (wt_bbox w))"

definition vertical_center :: "word_token \<Rightarrow> pyfloat" where
  "vertical_center w = fhalf (fadd (bb_y0 (wt_bbox w)) (bb_y1 (wt_bbox w)))"

definition horizontal_center :: "bounding_box \<Rightarrow> pyfloat" where
  "horizontal_center b = fhalf (fadd (bb_x0 b) (bb_x1 b))"

definition substantial_vertical_overlap :: "word_token \<Rightarrow> word_token list \<Rightarrow> bool" where
  "substantial_vertical_overlap w row =
     (let y0 = fmin (map (bb_y0 \<circ> wt_bbox) row); y1 = fmax (map (bb_y1 \<circ> wt_bbox) row);
          overlap = fmax [Scaled 0 0, fsub (fmin [bb_y1 (wt_bbox w), y1]) (fmax [bb_y0 (wt_bbox w), y0])];
          smaller = fmin [word_height w, fsub y1 y0]
      in flt (Scaled 0 0) smaller \<and> (case fdiv overlap smaller of None \<Rightarrow> False | Some q \<Rightarrow> fle (Scaled 1 (- 1)) q))"

text \<open>The default factor \<^verbatim>\<open>0.6\<close> and the least tolerance \<^verbatim>\<open>0.004\<close> as doubles.\<close>

definition Y_TOLERANCE_FACTOR :: pyfloat where
  "Y_TOLERANCE_FACTOR = Scaled 5404319552844595 (- 53)"

definition row_tolerance :: "word_token list \<Rightarrow> pyfloat" where
  "row_tolerance ws = fmax [Scaled 1152921504606847 (- 58), fmul (median (map word_height ws)) Y_TOLERANCE_FACTOR]"

definition group_word :: "pyfloat \<Rightarrow> word_token list list \<Rightarrow> word_token \<Rightarrow> word_token list list" where
  "group_word tolerance groups w =
     (if groups = [] then [[w]]
      else let current = last groups; center = median (map vertical_center current) in
        if fle (fabs (fsub (vertical_center w) center)) tolerance \<or> substantial_vertical_overlap w current
        then butlast groups @ [current @ [w]] else groups @ [[w]])"

definition row_of :: "nat \<Rightarrow> word_token list \<Rightarrow> visual_row" where
  "row_of page ws =
     (let ordered = sort_key (\<lambda>w. (fval (bb_x0 (wt_bbox w)), wt_word_number w)) ws
      in \<lparr>vr_page = page, vr_y0 = fmin (map (bb_y0 \<circ> wt_bbox) ordered), vr_y1 = fmax (map (bb_y1 \<circ> wt_bbox) ordered), vr_words = ordered\<rparr>)"

definition page_rows :: "page_text \<Rightarrow> visual_row list" where
  "page_rows page =
     (if pt_words page = [] then []
      else let ordered = sort_key (\<lambda>w. (fval (vertical_center w), fval (bb_x0 (wt_bbox w)))) (pt_words page)
           in map (row_of (pt_page page)) (foldl (group_word (row_tolerance (pt_words page))) [] ordered))"

definition reconstruct_visual_rows :: "document_text \<Rightarrow> visual_row list" where
  "reconstruct_visual_rows doc =
     sort_key (\<lambda>r. (vr_page r, fval (vr_y0 r), fval (bb_x0 (wt_bbox (hd (vr_words r))))))
       (concat (map page_rows (sort_key pt_page (dx_pages doc))))"

subsection \<open>Table headers\<close>

datatype line_item_column = DESCRIPTION | QUANTITY | UNIT_PRICE | LINE_TOTAL

definition LINE_ITEM_COLUMNS :: "line_item_column list" where
  "LINE_ITEM_COLUMNS = [DESCRIPTION, QUANTITY, UNIT_PRICE, LINE_TOTAL]"

record column_anchor =
  ca_column :: line_item_column
  ca_bbox :: bounding_box
  ca_center_x :: pyfloat
  ca_matched_text :: string

record table_header =
  th_page :: nat
  th_row :: visual_row
  th_columns :: "column_anchor list"
  th_score :: nat

record column_range =
  cr_column :: line_item_column
  cr_x0 :: pyfloat
  cr_x1 :: pyfloat

fun HEADER_ALIASES :: "line_item_column \<Rightarrow> string list" where
  "HEADER_ALIASES DESCRIPTION = [''description'', ''item'', ''item description'', ''particulars'', ''product'', ''product description'',
     ''service'', ''details'']"
| "HEADER_ALIASES QUANTITY = [''qty'', ''quantity'', ''units'', ''unit qty'']"
| "HEADER_ALIASES UNIT_PRICE = [''unit price'', ''unit rate'', ''rate'', ''price/unit'', ''price each'', ''unit cost'']"
| "HEADER_ALIASES LINE_TOTAL = [''amount'', ''line total'', ''total amount'', ''net amount'', ''extended price'', ''value'']"

fun COLUMN_SCORES :: "line_item_column \<Rightarrow> nat" where
  "COLUMN_SCORES DESCRIPTION = 2"
| "COLUMN_SCORES QUANTITY = 1"
| "COLUMN_SCORES UNIT_PRICE = 1"
| "COLUMN_SCORES LINE_TOTAL = 2"

definition normalize_header_text :: "string \<Rightarrow> string" where
  "normalize_header_text s =
     py_join '' '' (py_split (map (\<lambda>c. if is_lower c \<or> is_digit c \<or> c = CHR ''/'' then c else CHR '' '') (map lower_char s)))"

text \<open>The spans of one to three words, in the order of the two loops.\<close>

definition word_spans :: "nat \<Rightarrow> 'a list \<Rightarrow> 'a list list" where
  "word_spans k ws = concat (map (\<lambda>start. map (\<lambda>n. slice start (start + n) ws) [1..<Suc (min k (length ws - start))]) [0..<length ws])"

definition anchor_of :: "line_item_column \<Rightarrow> word_token list \<Rightarrow> column_anchor" where
  "anchor_of column ws = \<lparr>ca_column = column, ca_bbox = union_bbox ws, ca_center_x = horizontal_center (union_bbox ws),
     ca_matched_text = py_join '' '' (map wt_text ws)\<rparr>"

definition span_label :: "word_token list \<Rightarrow> string" where
  "span_label ws = normalize_header_text (py_join '' '' (map wt_text ws))"

definition best_anchor :: "visual_row \<Rightarrow> line_item_column \<Rightarrow> column_anchor option" where
  "best_anchor row column =
     map_option snd (foldl (\<lambda>best ws.
         let rank = (length ws, length (span_label ws)) in
         if span_label ws \<notin> set (HEADER_ALIASES column) then best
         else case best of
             None \<Rightarrow> Some (rank, anchor_of column ws)
           | Some (previous, _) \<Rightarrow> if previous < rank then Some (rank, anchor_of column ws) else best)
       None (word_spans 3 (vr_words row)))"

definition header_anchors :: "visual_row \<Rightarrow> column_anchor list" where
  "header_anchors row = List.map_filter (best_anchor row) LINE_ITEM_COLUMNS"

definition find_column :: "line_item_column \<Rightarrow> column_anchor list \<Rightarrow> column_anchor option" where
  "find_column column = find_row (\<lambda>a. ca_column a = column)"

definition detect_table_header :: "visual_row \<Rightarrow> table_header option" where
  "detect_table_header row =
     (let anchors = header_anchors row; columns = map ca_column anchors; score = sum_list (map COLUMN_SCORES columns) in
      case (find_column DESCRIPTION anchors, find_column LINE_TOTAL anchors) of
        (Some description, Some line_total) \<Rightarrow>
          if QUANTITY \<notin> set columns \<and> UNIT_PRICE \<notin> set columns \<or> score < 5 then None
          else if fle (ca_center_x line_total) (ca_center_x description) then None
          else Some \<lparr>th_page = vr_page row, th_row = row, th_columns = sort_key (fval \<circ> ca_center_x) anchors, th_score = score\<rparr>
      | _ \<Rightarrow> None)"

subsection \<open>Columns\<close>

definition infer_column_ranges :: "table_header \<Rightarrow> column_range list" where
  "infer_column_ranges h =
     (let anchors = sort_key (fval \<circ> ca_center_x) (th_columns h);
          boundaries = map (\<lambda>(left, right). fhalf (fadd (ca_center_x left) (ca_center_x right))) (zip anchors (tl anchors))
      in map (\<lambda>(a, x0, x1). \<lparr>cr_column = ca_column a, cr_x0 = x0, cr_x1 = x1\<rparr>)
           (zip anchors (zip (Scaled 0 0 # boundaries) (boundaries @ [Scaled 1 0]))))"

fun column_at :: "pyfloat \<Rightarrow> column_range list \<Rightarrow> line_item_column option" where
  "column_at x [] = None"
| "column_at x (r # rs) =
     (if fle (cr_x0 r) x \<and> flt x (cr_x1 r) then Some (cr_column r)
      else if rs = [] \<and> fval x = fval (cr_x1 r) then Some (cr_column r)
      else column_at x rs)"

definition column_for_word :: "word_token \<Rightarrow> column_range list \<Rightarrow> line_item_column option" where
  "column_for_word w ranges = column_at (horizontal_center (wt_bbox w)) ranges"

subsection \<open>No word is lost\<close>

lemma mset_concat_map: "mset (concat (map f xs)) = \<Sum>\<^sub># (image_mset (mset \<circ> f) (mset xs))"
  by (induction xs) simp_all

lemma mset_concat_map_cong: "mset xs = mset ys \<Longrightarrow> mset (concat (map f xs)) = mset (concat (map f ys))"
  by (simp add: mset_concat_map)

lemma mset_concat_map_eq: "(\<And>x. mset (f x) = mset (g x)) \<Longrightarrow> mset (concat (map f xs)) = mset (concat (map g xs))"
  by (induction xs) simp_all

lemma foldl_invariant: "P b \<Longrightarrow> (\<And>b x. P b \<Longrightarrow> P (f b x)) \<Longrightarrow> P (foldl f b xs)"
  by (induction xs arbitrary: b) simp_all

lemma concat_group_word: "concat (group_word t groups w) = concat groups @ [w]"
proof (cases groups rule: rev_cases)
  case (snoc gs g)
  then show ?thesis by (simp add: group_word_def Let_def)
qed (simp add: group_word_def)

lemma concat_grouped: "concat (foldl (group_word t) groups ws) = concat groups @ ws"
  by (induction ws arbitrary: groups) (simp_all add: concat_group_word)

lemma group_word_nonempty: "\<forall>g \<in> set groups. g \<noteq> [] \<Longrightarrow> \<forall>g \<in> set (group_word t groups w). g \<noteq> []"
  by (auto simp: group_word_def Let_def dest: in_set_butlastD)

lemma grouped_nonempty: "\<forall>g \<in> set groups. g \<noteq> [] \<Longrightarrow> \<forall>g \<in> set (foldl (group_word t) groups ws). g \<noteq> []"
  by (rule foldl_invariant) (auto dest: group_word_nonempty)

lemma mset_row_words: "mset (concat (map (vr_words \<circ> row_of page) gs)) = mset (concat gs)"
  by (induction gs) (simp_all add: row_of_def Let_def)

lemma mset_page_rows: "mset (concat (map vr_words (page_rows page))) = mset (pt_words page)"
  by (simp add: page_rows_def Let_def mset_row_words concat_grouped)

lemma concat_map_concat: "concat (map f (concat (map g xs))) = concat (map (\<lambda>x. concat (map f (g x))) xs)"
  by (induction xs) simp_all

lemma mset_visual_rows: "mset (concat (map vr_words (reconstruct_visual_rows doc))) = mset (all_words doc)"
proof -
  have "mset (concat (map vr_words (reconstruct_visual_rows doc)))
      = mset (concat (map vr_words (concat (map page_rows (sort_key pt_page (dx_pages doc))))))"
    unfolding reconstruct_visual_rows_def by (rule mset_concat_map_cong) simp
  also have "\<dots> = mset (concat (map (\<lambda>page. concat (map vr_words (page_rows page))) (sort_key pt_page (dx_pages doc))))"
    by (simp add: concat_map_concat)
  also have "\<dots> = mset (concat (map (\<lambda>page. concat (map vr_words (page_rows page))) (dx_pages doc)))"
    by (rule mset_concat_map_cong) simp
  also have "\<dots> = mset (all_words doc)"
    unfolding all_words_def by (rule mset_concat_map_eq) (rule mset_page_rows)
  finally show ?thesis .
qed

lemma mset_partition: "distinct ks \<Longrightarrow> set (map key ws) \<subseteq> set ks \<Longrightarrow> mset (concat (map (\<lambda>k. filter (\<lambda>w. key w = k) ws) ks)) = mset ws"
proof (induction ks arbitrary: ws)
  case (Cons k ks)
  let ?rest = "filter (\<lambda>w. key w \<noteq> k) ws"
  have rest: "mset (concat (map (\<lambda>k. filter (\<lambda>w. key w = k) ?rest) ks)) = mset ?rest" using Cons by (intro Cons.IH) auto
  have "filter (\<lambda>w. key w = k') ?rest = filter (\<lambda>w. key w = k') ws" if "k' \<in> set ks" for k'
    using that Cons.prems(1) by (auto simp: filter_filter intro!: filter_cong)
  then have "map (\<lambda>k. filter (\<lambda>w. key w = k) ?rest) ks = map (\<lambda>k. filter (\<lambda>w. key w = k) ws) ks" by (intro map_cong) auto
  with rest have "mset (concat (map (\<lambda>k. filter (\<lambda>w. key w = k) ws) ks)) = mset ?rest" by metis
  then show ?case using multiset_partition [of "mset ws" "\<lambda>w. key w = k"] by (simp flip: mset_filter)
qed simp

lemma mset_text_lines: "mset (concat (map tl_words (reconstruct_lines doc))) = mset (all_words doc)"
proof -
  define ws where "ws = all_words doc"
  let ?keys = "dict_fromkeys (map line_key ws)"
  have "mset (concat (map tl_words (reconstruct_lines doc))) = mset (concat (map tl_words (map (line_of ws) ?keys)))"
    unfolding reconstruct_lines_def Let_def ws_def by (rule mset_concat_map_cong) simp
  also have "\<dots> = mset (concat (map (\<lambda>k. filter (\<lambda>w. line_key w = k) ws) ?keys))"
    by (simp add: mset_concat line_of_def Let_def comp_def)
  also have "\<dots> = mset ws" by (rule mset_partition) simp_all
  finally show ?thesis by (simp add: ws_def)
qed

text \<open>
  C30: Both readings of a page use every word exactly once: the words of the text lines, and the words of the visual
  rows, are the words of the document, in another order.
\<close>

theorem layout_keeps_words:
  "mset (concat (map tl_words (reconstruct_lines doc))) = mset (all_words doc)
   \<and> mset (concat (map vr_words (reconstruct_visual_rows doc))) = mset (all_words doc)"
  by (simp add: mset_text_lines mset_visual_rows)

subsection \<open>Columns cover the page\<close>

lemma best_anchor_column:
  assumes "best_anchor row column = Some a"
  shows "ca_column a = column"
proof -
  define f where "f = (\<lambda>best ws.
      let rank = (length ws, length (span_label ws)) in
      if span_label ws \<notin> set (HEADER_ALIASES column) then best
      else case best of
          None \<Rightarrow> Some (rank, anchor_of column ws)
        | Some (previous, _) \<Rightarrow> if previous < rank then Some (rank, anchor_of column ws) else best)"
  have "\<forall>r a. foldl f None (word_spans 3 (vr_words row)) = Some (r, a) \<longrightarrow> ca_column a = column"
    by (rule foldl_invariant) (auto simp: f_def Let_def anchor_of_def split: option.splits if_splits)
  with assms show ?thesis unfolding best_anchor_def f_def [symmetric] by auto
qed

lemma header_anchor_columns: "distinct (map ca_column (header_anchors row))"
proof -
  have "map ca_column (List.map_filter (best_anchor row) cs) = filter (\<lambda>c. best_anchor row c \<noteq> None) cs" for cs
    by (induction cs) (auto simp: List.map_filter_simps dest: best_anchor_column split: option.splits)
  then show ?thesis unfolding header_anchors_def by (simp add: LINE_ITEM_COLUMNS_def del: map_filter_simps)
qed

lemma detect_table_header_shape:
  assumes "detect_table_header row = Some h"
  shows "distinct (map ca_column (th_columns h))" and "{DESCRIPTION, LINE_TOTAL} \<subseteq> ca_column ` set (th_columns h)"
    and "QUANTITY \<in> ca_column ` set (th_columns h) \<or> UNIT_PRICE \<in> ca_column ` set (th_columns h)" and "5 \<le> th_score h"
proof -
  have h: "th_columns h = sort_key (fval \<circ> ca_center_x) (header_anchors row)" "5 \<le> th_score h"
    "QUANTITY \<in> set (map ca_column (header_anchors row)) \<or> UNIT_PRICE \<in> set (map ca_column (header_anchors row))"
    using assms by (auto simp: detect_table_header_def Let_def split: option.splits if_splits)
  then show "5 \<le> th_score h" and "QUANTITY \<in> ca_column ` set (th_columns h) \<or> UNIT_PRICE \<in> ca_column ` set (th_columns h)" by auto
  obtain d l where "find_column DESCRIPTION (header_anchors row) = Some d" "find_column LINE_TOTAL (header_anchors row) = Some l"
    using assms by (auto simp: detect_table_header_def Let_def split: option.splits)
  then show "{DESCRIPTION, LINE_TOTAL} \<subseteq> ca_column ` set (th_columns h)"
    by (auto simp: h(1) find_column_def image_iff dest!: find_row_Some intro: sym)
  show "distinct (map ca_column (th_columns h))"
    unfolding h(1) by (simp add: header_anchor_columns)
qed

text \<open>The ranges are a chain from 0 to 1, so a centre between them is in one of them, in whatever order the bounds are.\<close>

lemma column_at_chain:
  assumes "as \<noteq> []" and "Suc (length bs) = length as" and "fle l x" and "fle x u"
  shows "column_at x (map (\<lambda>(a, x0, x1). \<lparr>cr_column = ca_column a, cr_x0 = x0, cr_x1 = x1\<rparr>) (zip as (zip (l # bs) (bs @ [u])))) \<noteq> None"
  using assms
proof (induction as arbitrary: l bs)
  case (Cons a as)
  show ?case
  proof (cases bs)
    case Nil
    with Cons.prems have "as = []" by simp
    with Nil Cons.prems(3,4) show ?thesis by (simp add: fle_iff flt_iff)
  next
    case (Cons b bs')
    then have "as \<noteq> []" "Suc (length bs') = length as" using Cons.prems(2) by auto
    with Cons.IH [of bs' b] Cons Cons.prems(3,4) show ?thesis by (auto simp: fle_iff flt_iff)
  qed
qed simp

lemma header_columns: "detect_table_header row = Some h \<Longrightarrow> 3 \<le> length (th_columns h)"
proof -
  assume "detect_table_header row = Some h"
  note shape = detect_table_header_shape [OF this]
  have "card {DESCRIPTION, LINE_TOTAL, QUANTITY} = 3" "card {DESCRIPTION, LINE_TOTAL, UNIT_PRICE} = 3" by simp_all
  moreover have "{DESCRIPTION, LINE_TOTAL, QUANTITY} \<subseteq> ca_column ` set (th_columns h) \<or> {DESCRIPTION, LINE_TOTAL, UNIT_PRICE} \<subseteq> ca_column ` set (th_columns h)"
    using shape(2,3) by blast
  ultimately have "3 \<le> card (ca_column ` set (th_columns h))" by (metis card_mono finite_imageI finite_set)
  also have "\<dots> = length (th_columns h)" using distinct_card [OF shape(1)] by simp
  finally show ?thesis .
qed

lemma length_column_ranges: "th_columns h \<noteq> [] \<Longrightarrow> length (infer_column_ranges h) = length (th_columns h)"
  by (simp add: infer_column_ranges_def Let_def)

text \<open>
  A detected header has its mandatory columns and one of the numeric ones, each once, and every word whose centre
  lies on the page belongs to one of its columns.
\<close>

theorem columns_cover_page:
  assumes "detect_table_header row = Some h" and "unit_interval (horizontal_center (wt_bbox w))"
  shows "distinct (map ca_column (th_columns h)) \<and> 3 \<le> length (th_columns h) \<and> column_for_word w (infer_column_ranges h) \<noteq> None"
proof -
  note shape = detect_table_header_shape [OF assms(1)]
  have len: "3 \<le> length (th_columns h)" using assms(1) by (rule header_columns)
  then have "sort_key (fval \<circ> ca_center_x) (th_columns h) \<noteq> []" by (metis length_sort list.size(3) not_numeral_le_zero)
  then have "column_at (horizontal_center (wt_bbox w)) (infer_column_ranges h) \<noteq> None"
    unfolding infer_column_ranges_def Let_def
    by (rule column_at_chain) (use assms(2) len in \<open>auto simp: unit_interval_def\<close>)
  with shape(1) len show ?thesis by (simp add: column_for_word_def)
qed

subsection \<open>A header\<close>

definition cell_word :: "nat \<Rightarrow> int \<Rightarrow> int \<Rightarrow> string \<Rightarrow> word_token" where
  "cell_word n x y t = \<lparr>wt_text = t, wt_page = 0, wt_bbox = \<lparr>bb_x0 = Scaled x (- 4), bb_y0 = Scaled y (- 4), bb_x1 = Scaled (x + 1) (- 4),
     bb_y1 = Scaled (y + 1) (- 4)\<rparr>, wt_block_number = 0, wt_line_number = nat y, wt_word_number = n, wt_source = EMBEDDED\<rparr>"

definition sample_header_row :: visual_row where
  "sample_header_row = \<lparr>vr_page = 0, vr_y0 = Scaled 2 (- 4), vr_y1 = Scaled 3 (- 4),
     vr_words = [cell_word 0 1 2 ''Item'', cell_word 1 6 2 ''Qty'', cell_word 2 10 2 ''Amount'']\<rparr>"

lemma sample_anchors:
  "best_anchor sample_header_row DESCRIPTION = Some (anchor_of DESCRIPTION [cell_word 0 1 2 ''Item''])"
  "best_anchor sample_header_row QUANTITY = Some (anchor_of QUANTITY [cell_word 1 6 2 ''Qty''])"
  "best_anchor sample_header_row UNIT_PRICE = None"
  "best_anchor sample_header_row LINE_TOTAL = Some (anchor_of LINE_TOTAL [cell_word 2 10 2 ''Amount''])"
  by code_simp+

lemma sample_centers:
  "fle (ca_center_x (anchor_of LINE_TOTAL [cell_word 2 10 2 ''Amount''])) (ca_center_x (anchor_of DESCRIPTION [cell_word 0 1 2 ''Item''])) = False"
  "unit_interval (horizontal_center (wt_bbox (cell_word 1 6 4 ''4'')))"
  by code_simp+

lemma sample_header: "\<exists>h. detect_table_header sample_header_row = Some h"
  using sample_centers
  by (simp add: detect_table_header_def header_anchors_def LINE_ITEM_COLUMNS_def List.map_filter_simps sample_anchors find_column_def
      anchor_of_def Let_def)

theorem columns_cover_page_witness:
  "\<exists>h. detect_table_header sample_header_row = Some h \<and> column_for_word (cell_word 1 6 4 ''4'') (infer_column_ranges h) \<noteq> None"
  using sample_header columns_cover_page [OF _ sample_centers(2)] by blast

end
