(* ===== verification/Line_Items.thy ===== *)
theory Line_Items
  imports Layout
begin

text \<open>The line items of the deterministic extractor: \<^verbatim>\<open>extraction/line_item_rules.py\<close>.\<close>

subsection \<open>Patterns\<close>

definition CURRENCY_WORDS :: pattern where
  "CURRENCY_WORDS = alts (map lit [''AED'', ''AUD'', ''CAD'', ''CHF'', ''EUR'', ''GBP'', ''INR'', ''JPY'', ''SGD'', ''USD'']
     @ [Seq (lit ''RS'') (opt (lit ''.''))])"

definition FOOTER_PATTERN :: pattern where
  "FOOTER_PATTERN = seqs [LineStart, Star blank, Capture (alts ([seqs [lit ''sub'', Star blank, lit ''total'']] @ map lit [''tax'', ''gst'', ''cgst'',
     ''sgst'', ''igst'', ''discount'', ''shipping'', ''round off'', ''amount due'', ''grand total'', ''invoice total'', ''net payable''])), WordBoundary]"

definition IGNORED_ROW_PATTERN :: pattern where
  "IGNORED_ROW_PATTERN = seqs [LineStart, Star blank, alts [
     seqs [lit ''page'', plus blank, plus digit, opt (seqs [plus blank, lit ''of'', plus blank, plus digit])],
     Seq (lit ''terms'') (opt (seqs [plus blank, lit ''and'', plus blank, lit ''conditions''])),
     Seq (lit ''bank'') (opt (Seq (plus blank) (lit ''details''))),
     lit ''signature'', lit ''authorized signatory''], WordBoundary]"

definition CURRENCY_MARKER :: pattern where
  "CURRENCY_MARKER = Alt (one_of ''$'') (seqs [WordBoundary, CURRENCY_WORDS, WordBoundary])"

subsection \<open>Rows of a table\<close>

record table_row =
  pr_page :: nat
  pr_y0 :: pyfloat
  pr_y1 :: pyfloat
  pr_description_words :: "word_token list"
  pr_quantity_words :: "word_token list"
  pr_unit_price_words :: "word_token list"
  pr_line_total_words :: "word_token list"
  pr_description_continued :: bool

definition words_text :: "word_token list \<Rightarrow> string" where
  "words_text ws = normalize_whitespace (py_join '' '' (map wt_text ws))"

definition parse_quantity :: "word_token list \<Rightarrow> decimal option" where
  "parse_quantity ws =
     (let t = words_text ws in if t = [] \<or> re_search CURRENCY_MARKER t \<noteq> None then None else parse_money t)"

definition parse_money_cell :: "word_token list \<Rightarrow> decimal option" where
  "parse_money_cell ws = (if ws = [] then None else parse_money (words_text ws))"

definition only_words :: "visual_row \<Rightarrow> bool" where
  "only_words row = list_all (\<lambda>w. \<not> list_ex is_digit (wt_text w) \<and> re_search CURRENCY_MARKER (wt_text w) = None) (vr_words row)"

definition parse_table_row :: "visual_row \<Rightarrow> column_range list \<Rightarrow> table_row" where
  "parse_table_row row ranges =
     (let assigned = (\<lambda>c. filter (\<lambda>w. column_for_word w ranges = Some c) (vr_words row));
          spread = (assigned DESCRIPTION \<noteq> [] \<and> only_words row)
      in \<lparr>pr_page = vr_page row, pr_y0 = vr_y0 row, pr_y1 = vr_y1 row,
          pr_description_words = (if spread then vr_words row else assigned DESCRIPTION),
          pr_quantity_words = (if spread then [] else assigned QUANTITY),
          pr_unit_price_words = (if spread then [] else assigned UNIT_PRICE),
          pr_line_total_words = (if spread then [] else assigned LINE_TOTAL), pr_description_continued = False\<rparr>)"

definition is_probable_line_item :: "table_row \<Rightarrow> bool" where
  "is_probable_line_item row =
     (words_text (pr_description_words row) \<noteq> []
      \<and> (parse_money_cell (pr_line_total_words row) \<noteq> None
         \<or> parse_quantity (pr_quantity_words row) \<noteq> None \<and> parse_money_cell (pr_unit_price_words row) \<noteq> None))"

definition description_only :: "table_row \<Rightarrow> bool" where
  "description_only row = (pr_description_words row \<noteq> [] \<and> pr_quantity_words row = [] \<and> pr_unit_price_words row = [] \<and> pr_line_total_words row = [])"

definition missing_decimal :: "decimal extracted_field" where
  "missing_decimal = \<lparr>fvalue = None, fstatus = MISSING, fevidence = [], frule_id = None\<rparr>"

definition decimal_field :: "word_token list \<Rightarrow> decimal option \<Rightarrow> string \<Rightarrow> decimal extracted_field" where
  "decimal_field ws v rule =
     (case v of None \<Rightarrow> missing_decimal
      | Some d \<Rightarrow> \<lparr>fvalue = Some d, fstatus = EXTRACTED, fevidence = evidence_from_words ws, frule_id = Some rule\<rparr>)"

definition to_invoice_line :: "table_row \<Rightarrow> invoice_line" where
  "to_invoice_line row =
     \<lparr>il_description = \<lparr>fvalue = Some (words_text (pr_description_words row)), fstatus = EXTRACTED,
        fevidence = evidence_from_words (pr_description_words row),
        frule_id = Some (if pr_description_continued row then ''line_item.description.continuation.v1'' else ''line_item.description.column.v1'')\<rparr>,
      il_quantity = decimal_field (pr_quantity_words row) (parse_quantity (pr_quantity_words row)) ''line_item.quantity.column.v1'',
      il_unit_price = decimal_field (pr_unit_price_words row) (parse_money_cell (pr_unit_price_words row)) ''line_item.unit_price.column.v1'',
      il_line_total = decimal_field (pr_line_total_words row) (parse_money_cell (pr_line_total_words row)) ''line_item.line_total.column.v1''\<rparr>"

definition row_text :: "visual_row \<Rightarrow> string" where
  "row_text row = words_text (vr_words row)"

definition is_footer :: "visual_row \<Rightarrow> bool" where
  "is_footer row =
     (let t = row_text row in
      case re_search FOOTER_PATTERN t of
        None \<Rightarrow> False
      | Some (_, e, captured) \<Rightarrow>
          let label = map lower_char (normalize_whitespace (case captured of None \<Rightarrow> [] | Some g \<Rightarrow> span_text t g)) in
          if label \<in> set [''subtotal'', ''sub total'', ''amount due'', ''grand total'', ''invoice total'', ''net payable''] then True
          else re_search (Sym (\<lambda>c. is_upper c \<or> is_lower c))
                 (re_remove (seqs [WordBoundary, CURRENCY_WORDS, WordBoundary]) (drop e t)) = None)"

definition is_ignored :: "visual_row \<Rightarrow> bool" where
  "is_ignored row = (re_search IGNORED_ROW_PATTERN (row_text row) \<noteq> None)"

subsection \<open>Continued descriptions\<close>

definition valid_indices :: "table_row list \<Rightarrow> nat list" where
  "valid_indices rows = filter (\<lambda>i. is_probable_line_item (rows ! i)) [0..<length rows]"

text \<open>The row a description is appended to, and whether it comes before its text.\<close>

definition continuation_target :: "table_row list \<Rightarrow> nat \<Rightarrow> (nat \<times> bool) option" where
  "continuation_target rows i =
     (if \<not> description_only (rows ! i) then None
      else case (filter (\<lambda>k. k < i) (valid_indices rows), filter (\<lambda>k. i < k) (valid_indices rows)) of
          ([], []) \<Rightarrow> None
        | ([], next # _) \<Rightarrow> Some (next, True)
        | (before, []) \<Rightarrow> Some (last before, False)
        | (before, next # _) \<Rightarrow>
            let previous = last before;
                prepend = flt (fsub (pr_y0 (rows ! next)) (pr_y1 (rows ! i))) (fsub (pr_y0 (rows ! i)) (pr_y1 (rows ! previous)))
            in Some (if prepend then next else previous, prepend))"

definition continuation_words :: "table_row list \<Rightarrow> nat \<times> bool \<Rightarrow> word_token list" where
  "continuation_words rows target =
     concat (map (\<lambda>i. pr_description_words (rows ! i)) (filter (\<lambda>i. continuation_target rows i = Some target) [0..<length rows]))"

definition resolved_row :: "table_row list \<Rightarrow> nat \<Rightarrow> table_row" where
  "resolved_row rows i =
     (let prefixes = continuation_words rows (i, True); suffixes = continuation_words rows (i, False) in
      if prefixes = [] \<and> suffixes = [] then rows ! i
      else (rows ! i)\<lparr>pr_description_words := prefixes @ pr_description_words (rows ! i) @ suffixes, pr_description_continued := True\<rparr>)"

definition resolved_rows :: "table_row list \<Rightarrow> table_row list" where
  "resolved_rows rows = map (resolved_row rows) (valid_indices rows)"

definition resolve_continuations :: "table_row list \<Rightarrow> invoice_line list" where
  "resolve_continuations rows = map to_invoice_line (resolved_rows rows)"

subsection \<open>Tables of a document\<close>

text \<open>One row of a page: what was found, the open section and the columns of the open table.\<close>

definition scan_row :: "(table_row list \<Rightarrow> 'i list) \<Rightarrow> 'i list \<times> table_row list \<times> column_range list option \<Rightarrow> visual_row
    \<Rightarrow> 'i list \<times> table_row list \<times> column_range list option" where
  "scan_row resolve state row =
     (case state of (items, part, ranges) \<Rightarrow>
        (case detect_table_header row of
          Some h \<Rightarrow> (if ranges = None then items else items @ resolve part, [], Some (infer_column_ranges h))
        | None \<Rightarrow>
           (case ranges of
              None \<Rightarrow> (items, part, None)
            | Some rs \<Rightarrow>
                if is_footer row then (items @ resolve part, [], None)
                else if is_ignored row then (items, part, ranges)
                else (items, part @ [parse_table_row row rs], ranges))))"

definition close_page :: "(table_row list \<Rightarrow> 'i list) \<Rightarrow> 'i list \<times> table_row list \<times> column_range list option \<Rightarrow> 'i list" where
  "close_page resolve state = (case state of (items, part, ranges) \<Rightarrow> if ranges = None then items else items @ resolve part)"

definition scan_page :: "(table_row list \<Rightarrow> 'i list) \<Rightarrow> visual_row list \<Rightarrow> 'i list" where
  "scan_page resolve rows = close_page resolve (foldl (scan_row resolve) ([], [], None) rows)"

definition scan_document :: "(table_row list \<Rightarrow> 'i list) \<Rightarrow> document_text \<Rightarrow> 'i list" where
  "scan_document resolve doc =
     (let rows = reconstruct_visual_rows doc in
      concat (map (\<lambda>page. scan_page resolve (filter (\<lambda>r. vr_page r = page) rows)) (sort (remdups (map vr_page rows)))))"

definition extract_line_items :: "document_text \<Rightarrow> invoice_line list" where
  "extract_line_items = scan_document resolve_continuations"

subsection \<open>Every word is used at most once\<close>

definition row_words :: "table_row \<Rightarrow> word_token list" where
  "row_words r = pr_description_words r @ pr_quantity_words r @ pr_unit_price_words r @ pr_line_total_words r"

definition rows_count :: "word_token \<Rightarrow> table_row list \<Rightarrow> nat" where
  "rows_count w rows = sum_list (map (\<lambda>r. count_list (row_words r) w) rows)"

lemma rows_count_simps [simp]:
  "rows_count w [] = 0" "rows_count w (r # rs) = count_list (row_words r) w + rows_count w rs"
  "rows_count w (rs @ rs') = rows_count w rs + rows_count w rs'"
  by (simp_all add: rows_count_def)

lemma count_list_concat_map: "count_list (concat (map f xs)) w = (\<Sum>x\<leftarrow>xs. count_list (f x) w)"
  by (induction xs) simp_all

lemma count_list_filter: "count_list (filter P xs) w = (if P w then count_list xs w else 0)"
  by (induction xs) simp_all

lemma parse_table_row_words: "count_list (row_words (parse_table_row row ranges)) w \<le> count_list (vr_words row) w"
  by (auto simp: parse_table_row_def row_words_def Let_def count_list_filter)

lemma sum_upt_filter: "(\<Sum>i\<leftarrow>filter P [0..<n]. f i) = (\<Sum>i \<in> {i. i < n \<and> P i}. f i)"
  by (simp add: sum_list_distinct_conv_sum_set Collect_conj_eq lessThan_def atLeast0LessThan Int_commute)

lemma target_valid:
  assumes "continuation_target rows j = Some (i, b)"
  shows "i \<in> set (valid_indices rows)" and "description_only (rows ! j)"
proof -
  define before where "before = filter (\<lambda>k. k < j) (valid_indices rows)"
  define after where "after = filter (\<lambda>k. j < k) (valid_indices rows)"
  have "i \<in> set before \<union> set after"
    using assms unfolding continuation_target_def before_def [symmetric] after_def [symmetric]
    by (cases before; cases after) (auto simp: Let_def last_in_set split: if_splits)
  then show "i \<in> set (valid_indices rows)" by (auto simp: before_def after_def)
  show "description_only (rows ! j)" using assms by (auto simp: continuation_target_def split: if_splits)
qed

lemma description_only_not_item: "description_only r \<Longrightarrow> \<not> is_probable_line_item r"
  by (auto simp: description_only_def is_probable_line_item_def parse_money_cell_def parse_quantity_def words_text_def normalize_whitespace_def py_split_def)

lemma resolved_row_count:
  "count_list (row_words (resolved_row rows i)) w = count_list (row_words (rows ! i)) w
     + (\<Sum>j \<in> {j. j < length rows \<and> map_option fst (continuation_target rows j) = Some i}. count_list (pr_description_words (rows ! j)) w)"
proof -
  let ?J = "\<lambda>b. {j. j < length rows \<and> continuation_target rows j = Some (i, b)}"
  let ?d = "\<lambda>j. count_list (pr_description_words (rows ! j)) w"
  have words: "count_list (continuation_words rows (i, b)) w = (\<Sum>j \<in> ?J b. ?d j)" for b
    by (simp add: continuation_words_def count_list_concat_map sum_upt_filter)
  have "{j. j < length rows \<and> map_option fst (continuation_target rows j) = Some i} = ?J True \<union> ?J False" by auto
  moreover have "?J True \<inter> ?J False = {}" by auto
  ultimately have split: "(\<Sum>j \<in> {j. j < length rows \<and> map_option fst (continuation_target rows j) = Some i}. ?d j)
      = count_list (continuation_words rows (i, True)) w + count_list (continuation_words rows (i, False)) w"
    unfolding words by (simp add: sum.union_disjoint)
  show ?thesis unfolding split by (simp add: resolved_row_def Let_def row_words_def)
qed

lemma valid_indices_set: "distinct (valid_indices rows)" "set (valid_indices rows) = {i. i < length rows \<and> is_probable_line_item (rows ! i)}"
  by (auto simp: valid_indices_def)

lemma rows_count_sum: "rows_count w rows = (\<Sum>i < length rows. count_list (row_words (rows ! i)) w)"
  by (simp add: rows_count_def sum_list_sum_nth atLeast0LessThan)

text \<open>A continuation goes to one row and is not a row of its own.\<close>

lemma resolved_rows_count: "rows_count w (resolved_rows rows) \<le> rows_count w rows"
proof -
  let ?R = "\<lambda>i. count_list (row_words (rows ! i)) w" and ?d = "\<lambda>j. count_list (pr_description_words (rows ! j)) w"
  define V where "V = set (valid_indices rows)"
  define J where "J = {j. j < length rows \<and> continuation_target rows j \<noteq> None}"
  define target where "target = (\<lambda>j. fst (the (continuation_target rows j)))"
  have V: "V \<subseteq> {..<length rows}" "finite V" by (auto simp: V_def valid_indices_set)
  have J: "J \<subseteq> {..<length rows}" "finite J" "target ` J \<subseteq> V" by (auto simp: J_def target_def V_def dest: target_valid(1))
  have disjoint: "V \<inter> J = {}"
    by (auto simp: V_def J_def valid_indices_set dest!: target_valid(2) description_only_not_item)
  have group: "{j. j < length rows \<and> map_option fst (continuation_target rows j) = Some i} = {j \<in> J. target j = i}" for i
    by (auto simp: J_def target_def)
  have "rows_count w (resolved_rows rows) = (\<Sum>i \<in> V. count_list (row_words (resolved_row rows i)) w)"
    by (simp add: rows_count_def resolved_rows_def V_def sum_list_distinct_conv_sum_set valid_indices_set(1) comp_def)
  also have "\<dots> = (\<Sum>i \<in> V. ?R i) + (\<Sum>i \<in> V. \<Sum>j \<in> {j \<in> J. target j = i}. ?d j)"
    unfolding resolved_row_count group by (rule sum.distrib)
  also have "(\<Sum>i \<in> V. \<Sum>j \<in> {j \<in> J. target j = i}. ?d j) = (\<Sum>j \<in> J. ?d j)" by (rule sum.group [OF J(2) V(2) J(3)])
  also have "(\<Sum>j \<in> J. ?d j) \<le> (\<Sum>j \<in> J. ?R j)" by (rule sum_mono) (simp add: row_words_def)
  also have "(\<Sum>i \<in> V. ?R i) + (\<Sum>j \<in> J. ?R j) = (\<Sum>i \<in> V \<union> J. ?R i)" using V(2) J(2) disjoint by (simp add: sum.union_disjoint)
  also have "\<dots> \<le> (\<Sum>i < length rows. ?R i)" using V(1) J(1) by (intro sum_mono2) auto
  finally show ?thesis by (simp add: rows_count_sum)
qed

definition words_seen :: "word_token \<Rightarrow> visual_row list \<Rightarrow> nat" where
  "words_seen w rows = (\<Sum>r\<leftarrow>rows. count_list (vr_words r) w)"

text \<open>The rows a scan holds: those it found and those of the open section.\<close>

definition rows_held :: "word_token \<Rightarrow> table_row list \<times> table_row list \<times> column_range list option \<Rightarrow> nat" where
  "rows_held w state = (case state of (items, part, ranges) \<Rightarrow> rows_count w items + rows_count w part)"

text \<open>
  A scan of tables promises that a row adds no more than its own words and that closing a page adds none. Then the
  words of a document are used at most as often as they occur in it.
\<close>

locale table_scan =
  fixes step :: "table_row list \<times> table_row list \<times> column_range list option \<Rightarrow> visual_row \<Rightarrow> table_row list \<times> table_row list \<times> column_range list option"
    and finish :: "table_row list \<times> table_row list \<times> column_range list option \<Rightarrow> table_row list"
  assumes step_count: "rows_held w (step state row) \<le> rows_held w state + count_list (vr_words row) w"
    and finish_count: "rows_count w (finish state) \<le> rows_held w state"
begin

lemma rows_scan_count: "rows_held w (foldl step state rows) \<le> rows_held w state + words_seen w rows"
proof (induction rows arbitrary: state)
  case (Cons row rows)
  from Cons.IH [of "step state row"] step_count [of w state row] show ?case by (simp add: words_seen_def)
qed (simp add: words_seen_def)

lemma page_count: "rows_count w (finish (foldl step ([], [], None) rows)) \<le> words_seen w rows"
  using finish_count [of w "foldl step ([], [], None) rows"] rows_scan_count [of w "([], [], None)" rows]
  by (simp add: rows_held_def)

lemma document_count:
  assumes "pages = sort (remdups (map vr_page (reconstruct_visual_rows doc)))"
  shows "rows_count w (concat (map (\<lambda>page. finish (foldl step ([], [], None) (filter (\<lambda>r. vr_page r = page) (reconstruct_visual_rows doc)))) pages))
    \<le> count_list (all_words doc) w"
proof -
  define rows where "rows = reconstruct_visual_rows doc"
  have concat: "rows_count w (concat (map f ps)) = (\<Sum>p\<leftarrow>ps. rows_count w (f p))" for f ps
    by (induction ps) simp_all
  have "rows_count w (concat (map (\<lambda>page. finish (foldl step ([], [], None) (filter (\<lambda>r. vr_page r = page) rows))) pages))
      \<le> (\<Sum>page\<leftarrow>pages. words_seen w (filter (\<lambda>r. vr_page r = page) rows))"
    unfolding concat by (rule sum_list_mono) (rule page_count)
  also have "\<dots> = words_seen w (concat (map (\<lambda>page. filter (\<lambda>r. vr_page r = page) rows) pages))"
    by (induction pages) (simp_all add: words_seen_def)
  also have "\<dots> = count (mset (concat (map vr_words (concat (map (\<lambda>page. filter (\<lambda>r. vr_page r = page) rows) pages))))) w"
    unfolding words_seen_def count_list_concat_map [symmetric] by (simp add: count_mset)
  also have "\<dots> = count (mset (concat (map vr_words rows))) w"
    by (rule arg_cong [of _ _ "\<lambda>m. count m w"], rule mset_concat_map_cong, rule mset_partition) (simp_all add: assms rows_def)
  also have "\<dots> = count_list (all_words doc) w" unfolding rows_def mset_visual_rows by (simp add: count_mset)
  finally show ?thesis by (simp add: rows_def)
qed

end

interpretation item_scan: table_scan "scan_row resolved_rows" "close_page resolved_rows"
proof unfold_locales
  fix w row and state :: "table_row list \<times> table_row list \<times> column_range list option"
  obtain items part ranges where "state = (items, part, ranges)" by (metis prod_cases3)
  then show "rows_held w (scan_row resolved_rows state row) \<le> rows_held w state + count_list (vr_words row) w"
    and "rows_count w (close_page resolved_rows state) \<le> rows_held w state"
    using resolved_rows_count [of w part] parse_table_row_words [of row _ w]
    by (auto simp: rows_held_def close_page_def scan_row_def trans_le_add1 add_mono split: option.splits if_splits intro: order_trans)
qed

lemma scan_document_count: "rows_count w (scan_document resolved_rows doc) \<le> count_list (all_words doc) w"
  unfolding scan_document_def scan_page_def Let_def by (rule item_scan.document_count) (rule refl)

lemma foldl_fusion: "(\<And>s x. f (h s) x = h (g s x)) \<Longrightarrow> foldl f (h s) xs = h (foldl g s xs)"
  by (induction xs arbitrary: s) simp_all

text \<open>The scan does the same with rows and with the lines made of them.\<close>

lemma scan_map:
  assumes "\<And>part. resolve part = map f (resolve' part)"
  shows "scan_document resolve doc = map f (scan_document resolve' doc)"
proof -
  have step: "scan_row resolve (apfst (map f) state) row = apfst (map f) (scan_row resolve' state row)" for state row
    by (auto simp: scan_row_def assms split: option.splits prod.splits)
  have "scan_page resolve rows = map f (scan_page resolve' rows)" for rows
    using foldl_fusion [where h = "apfst (map f)" and f = "scan_row resolve" and g = "scan_row resolve'", OF step, of "([], [], None)" rows] by (simp add: scan_page_def close_page_def assms split: prod.splits)
  then show ?thesis by (simp add: scan_document_def Let_def map_concat comp_def)
qed

text \<open>
  C25: The extracted line items are made of rows that use the words of the document at most once: no word is part of two
  items or of two cells, however tables, footers and continued descriptions lie.
\<close>

theorem line_items_use_words_once:
  "\<exists>rows. extract_line_items doc = map to_invoice_line rows \<and> mset (concat (map row_words rows)) \<subseteq># mset (all_words doc)"
proof (intro exI conjI)
  show "extract_line_items doc = map to_invoice_line (scan_document resolved_rows doc)"
    unfolding extract_line_items_def by (rule scan_map) (rule resolve_continuations_def)
  show "mset (concat (map row_words (scan_document resolved_rows doc))) \<subseteq># mset (all_words doc)"
    using scan_document_count by (auto intro!: mset_subset_eqI simp: count_mset count_list_concat_map rows_count_def)
qed

subsection \<open>Extracted lines are valid\<close>

lemma scan_all:
  assumes "\<And>part x. x \<in> set (resolve part) \<Longrightarrow> P x" and "x \<in> set (scan_document resolve doc)"
  shows "P x"
proof -
  have "list_all P (fst (foldl (scan_row resolve) ([], [], None) rows))" for rows
    by (rule foldl_invariant) (auto simp: scan_row_def list_all_iff split: option.splits if_splits intro: assms(1))
  then have "list_all P (scan_page resolve rows)" for rows
    unfolding scan_page_def close_page_def by (auto simp: list_all_iff split: prod.split intro: assms(1)) (metis fst_conv)+
  with assms(2) show ?thesis by (auto simp: scan_document_def Let_def list_all_iff)
qed

lemma decimal_field_valid: "(v \<noteq> None \<Longrightarrow> ws \<noteq> []) \<Longrightarrow> validate_status_contract (decimal_field ws v rule)"
  by (auto simp: decimal_field_def missing_decimal_def validate_status_contract_def evidence_Nil_iff split: option.splits)

lemma parsed_nonempty: "parse_quantity ws \<noteq> None \<Longrightarrow> ws \<noteq> []" "parse_money_cell ws \<noteq> None \<Longrightarrow> ws \<noteq> []"
  by (auto simp: parse_quantity_def parse_money_cell_def words_text_def normalize_whitespace_def py_split_def)

lemma resolved_line_valid:
  assumes "l \<in> set (resolve_continuations rows)"
  shows "invoice_line_valid l"
proof -
  obtain i where i: "is_probable_line_item (rows ! i)" and l: "l = to_invoice_line (resolved_row rows i)"
    using assms by (auto simp: resolve_continuations_def resolved_rows_def valid_indices_set)
  have "pr_description_words (rows ! i) \<noteq> []"
    using i by (auto simp: is_probable_line_item_def words_text_def normalize_whitespace_def py_split_def)
  then have "pr_description_words (resolved_row rows i) \<noteq> []" by (auto simp: resolved_row_def Let_def)
  then have "validate_status_contract (il_description l)" by (simp add: l to_invoice_line_def validate_status_contract_def)
  then show ?thesis
    unfolding invoice_line_valid_def l to_invoice_line_def invoice_line.simps
    by (intro conjI decimal_field_valid) (simp_all add: parsed_nonempty)
qed

text \<open>A line item has a description, and a total or a quantity with a price.\<close>

definition line_item_complete :: "invoice_line \<Rightarrow> bool" where
  "line_item_complete l \<longleftrightarrow> fstatus (il_description l) = EXTRACTED
     \<and> (fstatus (il_line_total l) = EXTRACTED \<or> fstatus (il_quantity l) = EXTRACTED \<and> fstatus (il_unit_price l) = EXTRACTED)"

lemma decimal_field_extracted: "fstatus (decimal_field ws v rule) = EXTRACTED \<longleftrightarrow> v \<noteq> None"
  by (auto simp: decimal_field_def missing_decimal_def split: option.splits)

lemma resolved_line_complete:
  assumes "l \<in> set (resolve_continuations rows)"
  shows "line_item_complete l"
proof -
  obtain i where "is_probable_line_item (rows ! i)" and l: "l = to_invoice_line (resolved_row rows i)"
    using assms by (auto simp: resolve_continuations_def resolved_rows_def valid_indices_set)
  then show ?thesis
    by (auto simp: line_item_complete_def to_invoice_line_def is_probable_line_item_def decimal_field_extracted resolved_row_def Let_def)
qed

lemma extracted_line_complete: "l \<in> set (extract_line_items doc) \<Longrightarrow> line_item_complete l"
  unfolding extract_line_items_def using resolved_line_complete by (rule scan_all)

lemma extracted_line_valid: "l \<in> set (extract_line_items doc) \<Longrightarrow> invoice_line_valid l"
  unfolding extract_line_items_def using resolved_line_valid by (rule scan_all)

end
