(* ===== verification/Header_Rules.thy ===== *)
theory Header_Rules
  imports Line_Items
begin

text \<open>
  The header fields of the deterministic extractor: \<^verbatim>\<open>extraction/candidates.py\<close>, \<^verbatim>\<open>header_rules.py\<close> and
  \<^verbatim>\<open>pipeline.py\<close>. The currency symbols that are not ASCII are outside the model.
\<close>

subsection \<open>Candidates\<close>

record 'a field_candidate =
  fc_value :: 'a
  fc_evidence :: "evidence_span list"
  fc_rule_id :: string
  fc_priority :: int

definition evidence_key :: "evidence_span \<Rightarrow> nat \<times> rat \<times> rat \<times> rat \<times> rat \<times> string \<times> text_source" where
  "evidence_key e = (ev_page e, fval (bb_x0 (ev_bbox e)), fval (bb_y0 (ev_bbox e)), fval (bb_x1 (ev_bbox e)), fval (bb_y1 (ev_bbox e)),
     ev_text e, ev_source e)"

fun unique_evidence_from :: "(nat \<times> rat \<times> rat \<times> rat \<times> rat \<times> string \<times> text_source) list \<Rightarrow> evidence_span list \<Rightarrow> evidence_span list" where
  "unique_evidence_from known [] = []"
| "unique_evidence_from known (e # es) =
     (if evidence_key e \<in> set known then unique_evidence_from known es else e # unique_evidence_from (evidence_key e # known) es)"

definition unique_evidence :: "evidence_span list \<Rightarrow> evidence_span list" where
  "unique_evidence = unique_evidence_from []"

definition top_candidates :: "'a field_candidate list \<Rightarrow> 'a field_candidate list" where
  "top_candidates cs = filter (\<lambda>c. list_all (\<lambda>d. fc_priority d \<le> fc_priority c) cs) cs"

definition resolve_candidates :: "('a \<Rightarrow> 'k) \<Rightarrow> string \<Rightarrow> 'a field_candidate list \<Rightarrow> 'a extracted_field" where
  "resolve_candidates key ambiguous_rule cs =
     (case top_candidates cs of
        [] \<Rightarrow> \<lparr>fvalue = None, fstatus = MISSING, fevidence = [], frule_id = None\<rparr>
      | selected # rest \<Rightarrow>
          let evidence = unique_evidence (concat (map fc_evidence (selected # rest))) in
          if list_ex (\<lambda>c. key (fc_value c) \<noteq> key (fc_value selected)) rest
          then \<lparr>fvalue = None, fstatus = AMBIGUOUS, fevidence = evidence, frule_id = Some ambiguous_rule\<rparr>
          else \<lparr>fvalue = Some (fc_value selected), fstatus = EXTRACTED, fevidence = evidence, frule_id = Some (fc_rule_id selected)\<rparr>)"

subsection \<open>Patterns\<close>

definition number_label :: pattern where
  "number_label = alts [lit ''number'', Seq (lit ''no'') (opt (lit ''.'')), lit ''#'']"

definition INVOICE_NUMBER_LABEL :: pattern where
  "INVOICE_NUMBER_LABEL = seqs [WordBoundary, alts [
     seqs [lit ''invoice'', Star blank, number_label], seqs [lit ''inv'', opt (lit ''.''), Star blank, number_label],
     seqs [lit ''bill'', Star blank, number_label]], WordBoundary]"

definition INVOICE_DATE_LABEL :: pattern where
  "INVOICE_DATE_LABEL = seqs [WordBoundary, words_of [''invoice date'', ''bill date'', ''issue date'', ''date of issue''], WordBoundary]"

definition EXCLUDED_DATE_LABEL :: pattern where
  "EXCLUDED_DATE_LABEL = seqs [WordBoundary, words_of [''due'', ''delivery'', ''po''], plus blank, lit ''date'', WordBoundary]"

definition letter :: pattern where
  "letter = Sym (\<lambda>c. is_upper c \<or> is_lower c)"

definition letter_or_digit :: pattern where
  "letter_or_digit = Sym is_alnum"

definition GSTIN :: pattern where
  "GSTIN = seqs ([LineStart] @ replicate 2 digit @ replicate 5 letter @ replicate 4 digit @ [letter, letter_or_digit, lit ''Z'', letter_or_digit, LineEnd])"

definition PAGE_NUMBER :: pattern where
  "PAGE_NUMBER = seqs [LineStart, opt (Seq (lit ''page'') (Star blank)), plus digit, opt (seqs [plus blank, lit ''of'', plus blank, plus digit]), LineEnd]"

definition MONEY_FRAGMENT :: pattern where
  "MONEY_FRAGMENT = seqs [opt (Seq (lit ''('') (Star blank)), opt (Alt (Seq CURRENCY_WORDS (Star blank)) (Seq (one_of ''$'') (Star blank))),
     opt (one_of ''+-''), digit, LazyStar (Sym (\<lambda>c. is_digit c \<or> c \<in> set '' ,.'')), opt (Seq (Star blank) (lit '')'')),
     Ahead (Seq (Star blank) (Alt LineEnd (one_of ''|;'')))]"

definition ISO_CODE :: pattern where
  "ISO_CODE = seqs [WordBoundary, words_of [''AED'', ''AUD'', ''CAD'', ''CHF'', ''EUR'', ''GBP'', ''INR'', ''JPY'', ''SGD'', ''USD''], WordBoundary]"

definition CURRENCY_NAME :: pattern where
  "CURRENCY_NAME = seqs [WordBoundary, alts [Seq (lit ''Indian rupee'') (opt (lit ''s'')), Seq (lit ''rupee'') (opt (lit ''s'')),
     Seq (lit ''euro'') (opt (lit ''s'')), lit ''pound sterling'', Seq (lit ''dirham'') (opt (lit ''s''))], WordBoundary]"

definition CURRENCY_CONTEXT :: pattern where
  "CURRENCY_CONTEXT = seqs [WordBoundary, alts (map lit [''currency'', ''amount due'', ''grand total'', ''total payable'', ''invoice total'', ''net payable'']
     @ [seqs [lit ''sub'', Star blank, lit ''total'']] @ map lit [''tax'', ''GST'', ''IGST'', ''CGST'', ''SGST'', ''total'']), WordBoundary]"

definition CURRENCY_LABEL :: pattern where
  "CURRENCY_LABEL = seqs [WordBoundary, lit ''currency'', WordBoundary, Star blank, opt (one_of '':#.-''), Star blank, Capture (Star any_char), LineEnd]"

definition line_label :: "pattern \<Rightarrow> pattern" where
  "line_label p = seqs [LineStart, Star blank, p, WordBoundary]"

subsection \<open>Rules\<close>

definition text_line_evidence :: "text_line \<Rightarrow> evidence_span list" where
  "text_line_evidence l = evidence_from_words (tl_words l)"

definition remainder :: "text_line \<Rightarrow> nat \<Rightarrow> string" where
  "remainder l e = normalize_whitespace (dropWhile (\<lambda>c. c \<in> set '' :#.-'') (drop e (tl_text l)))"

definition next_line :: "text_line list \<Rightarrow> nat \<Rightarrow> text_line option" where
  "next_line lines i = (if Suc i < length lines \<and> tl_page (lines ! Suc i) = tl_page (lines ! i) then Some (lines ! Suc i) else None)"

definition valid_identifier :: "string \<Rightarrow> bool" where
  "valid_identifier v =
     (let n = normalize_identifier v in
      2 \<le> length n \<and> parse_invoice_date v = None \<and> parse_money v = None
      \<and> \<not> (re_fullmatch GSTIN n \<or> re_fullmatch PAGE_NUMBER (py_strip v))
      \<and> \<not> (starts_with ''PO'' n \<or> starts_with ''PURCHASEORDER'' n))"

text \<open>A value read from the rest of a labelled line, or else from the next line.\<close>

definition labelled_value ::
  "string \<Rightarrow> int \<Rightarrow> (string \<Rightarrow> 'a option) \<Rightarrow> (string \<Rightarrow> 'a option) \<Rightarrow> int \<Rightarrow> string \<Rightarrow> text_line list \<Rightarrow> nat \<Rightarrow> 'a field_candidate option" where
  "labelled_value rule priority same following next_priority rest lines i =
     (case same rest of
        Some v \<Rightarrow> Some \<lparr>fc_value = v, fc_evidence = text_line_evidence (lines ! i), fc_rule_id = rule @ ''.same_line.v1'', fc_priority = priority\<rparr>
      | None \<Rightarrow>
         (case next_line lines i of
            None \<Rightarrow> None
          | Some l \<Rightarrow>
              map_option (\<lambda>v. \<lparr>fc_value = v, fc_evidence = text_line_evidence (lines ! i) @ text_line_evidence l,
                fc_rule_id = rule @ ''.next_line.v1'', fc_priority = next_priority\<rparr>) (following (tl_text l))))"

definition identifier_of :: "string \<Rightarrow> string option" where
  "identifier_of v = (if v \<noteq> [] \<and> valid_identifier v then Some v else None)"

definition extract_invoice_number :: "text_line list \<Rightarrow> string extracted_field" where
  "extract_invoice_number lines =
     resolve_candidates normalize_identifier ''header.invoice_number.ambiguous.v1''
       (List.map_filter (\<lambda>i. case re_search INVOICE_NUMBER_LABEL (tl_text (lines ! i)) of
            None \<Rightarrow> None
          | Some (_, e, _) \<Rightarrow>
              labelled_value ''header.invoice_number'' 100 identifier_of (identifier_of \<circ> normalize_whitespace) 90 (remainder (lines ! i) e) lines i)
         [0..<length lines])"

definition extract_invoice_date :: "text_line list \<Rightarrow> date extracted_field" where
  "extract_invoice_date lines =
     resolve_candidates id ''header.invoice_date.ambiguous.v1''
       (List.map_filter (\<lambda>i. if re_search EXCLUDED_DATE_LABEL (tl_text (lines ! i)) \<noteq> None then None
          else case re_search INVOICE_DATE_LABEL (tl_text (lines ! i)) of
            None \<Rightarrow> None
          | Some (_, e, _) \<Rightarrow>
              labelled_value ''header.invoice_date'' 100 parse_invoice_date parse_invoice_date 90 (remainder (lines ! i) e) lines i)
         [0..<length lines])"

definition money_from_text :: "string \<Rightarrow> decimal option" where
  "money_from_text v =
     (let s = py_strip v in first_some (map (\<lambda>m. parse_money (span_text s m)) (rev (re_finditer MONEY_FRAGMENT s))))"

text \<open>The labels are tried in their order and the first one that matches decides.\<close>

definition labelled_money :: "string \<Rightarrow> (string \<times> pattern \<times> int) list \<Rightarrow> pattern option \<Rightarrow> text_line list \<Rightarrow> nat \<Rightarrow> decimal field_candidate option" where
  "labelled_money field labels exclusions lines i =
     (let t = tl_text (lines ! i) in
      if (case exclusions of None \<Rightarrow> False | Some p \<Rightarrow> re_search p t \<noteq> None) then None
      else case List.map_filter (\<lambda>(name, p, priority). map_option (\<lambda>(_, e, _). (name, priority, e)) (re_search p t)) labels of
          [] \<Rightarrow> None
        | (name, priority, e) # _ \<Rightarrow>
            labelled_value (''header.'' @ field @ ''.'' @ name) priority money_from_text money_from_text (priority - 1) (drop e t) lines i)"

definition extract_labeled_money :: "string \<Rightarrow> (string \<times> pattern \<times> int) list \<Rightarrow> pattern option \<Rightarrow> text_line list \<Rightarrow> decimal extracted_field" where
  "extract_labeled_money field labels exclusions lines =
     resolve_candidates dval (''header.'' @ field @ ''.ambiguous.v1'')
       (List.map_filter (labelled_money field labels exclusions lines) [0..<length lines])"

definition extract_subtotal :: "text_line list \<Rightarrow> decimal extracted_field" where
  "extract_subtotal = extract_labeled_money ''subtotal''
     [(''subtotal'', line_label (seqs [lit ''sub'', Star blank, lit ''total'']), 90), (''taxable_amount'', line_label (lit ''taxable amount''), 80)] None"

definition extract_tax :: "text_line list \<Rightarrow> decimal extracted_field" where
  "extract_tax = extract_labeled_money ''tax''
     [(''tax_total'', line_label (words_of [''tax total'', ''total tax'']), 95), (''gst'', line_label (words_of [''GST'', ''IGST'']), 90),
      (''split_gst'', line_label (words_of [''CGST'', ''SGST'']), 85)] None"

definition extract_total :: "text_line list \<Rightarrow> decimal extracted_field" where
  "extract_total = extract_labeled_money ''total''
     [(''amount_due'', line_label (lit ''amount due''), 100), (''grand_total'', line_label (lit ''grand total''), 95),
      (''total_payable'', line_label (lit ''total payable''), 90), (''invoice_total'', line_label (lit ''invoice total''), 85),
      (''net_payable'', line_label (lit ''net payable''), 80), (''total'', line_label (lit ''total''), 50)]
     (Some (line_label (alts (seqs [lit ''sub'', Star blank, lit ''total''] # map lit [''tax total'', ''total tax'', ''quantity total'', ''discount total'']))))"

definition currency_candidate :: "text_line \<Rightarrow> evidence_span list \<Rightarrow> string \<Rightarrow> int \<Rightarrow> string \<Rightarrow> string field_candidate list" where
  "currency_candidate l extra rule priority v =
     (case normalize_currency v of None \<Rightarrow> []
      | Some c \<Rightarrow> [\<lparr>fc_value = c, fc_evidence = text_line_evidence l @ extra, fc_rule_id = rule, fc_priority = priority\<rparr>])"

definition currency_label_candidates :: "text_line list \<Rightarrow> nat \<Rightarrow> string field_candidate list" where
  "currency_label_candidates lines i =
     (let l = lines ! i; t = tl_text l in
      case re_search CURRENCY_LABEL t of
        Some (_, _, Some g) \<Rightarrow>
          (case re_search ISO_CODE (span_text t g) of
             Some (a, e, _) \<Rightarrow> currency_candidate l [] ''header.currency.label_iso.v1'' 120 (span_text (span_text t g) (a, e))
           | None \<Rightarrow>
               if py_strip (span_text t g) \<noteq> [] then []
               else (case next_line lines i of None \<Rightarrow> []
                     | Some following \<Rightarrow>
                         currency_candidate l (text_line_evidence following) ''header.currency.label.next_line.v1'' 119 (tl_text following)))
      | _ \<Rightarrow> [])"

definition currency_candidates :: "text_line list \<Rightarrow> nat \<Rightarrow> string field_candidate list" where
  "currency_candidates lines i =
     (let l = lines ! i; t = tl_text l in
      currency_label_candidates lines i
      @ (if re_search CURRENCY_CONTEXT t = None then []
         else concat (map (\<lambda>m. currency_candidate l [] ''header.currency.iso_code.v1'' 100 (span_text t m)) (re_finditer ISO_CODE t))
           @ concat (map (\<lambda>m. currency_candidate l [] ''header.currency.name.v1'' 80 (span_text t m)) (re_finditer CURRENCY_NAME t))))"

definition extract_currency :: "text_line list \<Rightarrow> string extracted_field" where
  "extract_currency lines = resolve_candidates id ''header.currency.ambiguous.v1'' (concat (map (currency_candidates lines) [0..<length lines]))"

subsection \<open>The extractor\<close>

definition deterministic_extract :: "document_text \<Rightarrow> invoice" where
  "deterministic_extract doc =
     (let lines = reconstruct_lines doc in
      \<lparr>inv_extraction_issues = [], inv_invoice_number = extract_invoice_number lines, inv_invoice_date = extract_invoice_date lines,
       inv_currency = extract_currency lines, inv_subtotal = extract_subtotal lines, inv_tax = extract_tax lines,
       inv_total = extract_total lines, inv_line_items = extract_line_items doc\<rparr>)"

subsection \<open>Resolving candidates\<close>

lemma unique_evidence_Nil_iff [simp]: "unique_evidence es = [] \<longleftrightarrow> es = []"
  by (cases es) (simp_all add: unique_evidence_def)

lemma top_candidates_Nil_iff [simp]: "top_candidates cs = [] \<longleftrightarrow> cs = []"
proof (cases "cs = []")
  case False
  define m where "m = Max (fc_priority ` set cs)"
  have "m \<in> fc_priority ` set cs" and "\<forall>c \<in> set cs. fc_priority c \<le> m" using False by (simp_all add: m_def)
  then obtain c where "c \<in> set cs" "list_all (\<lambda>d. fc_priority d \<le> fc_priority c) cs" by (auto simp: list_all_iff)
  with False show ?thesis by (auto simp: top_candidates_def filter_empty_conv)
qed (simp add: top_candidates_def)

lemma top_candidates_Nil [simp]: "top_candidates [] = []"
  by (simp add: top_candidates_def)

text \<open>The values that compete: those of the highest priority.\<close>

definition competing :: "('a \<Rightarrow> 'k) \<Rightarrow> 'a field_candidate list \<Rightarrow> 'k set" where
  "competing key cs = {key (fc_value c) |c. c \<in> set cs \<and> (\<forall>d \<in> set cs. fc_priority d \<le> fc_priority c)}"

lemma competing_top: "competing key cs = (\<lambda>c. key (fc_value c)) ` set (top_candidates cs)"
  by (auto simp: competing_def top_candidates_def list_all_iff)

lemma resolve_candidates_cases:
  obtains (none) "cs = []" and "fstatus (resolve_candidates key rule cs) = MISSING" and "fvalue (resolve_candidates key rule cs) = None"
  | (one) c where "c \<in> set cs" and "competing key cs = {key (fc_value c)}" and "fstatus (resolve_candidates key rule cs) = EXTRACTED"
      and "fvalue (resolve_candidates key rule cs) = Some (fc_value c)"
  | (many) "\<not> is_singleton (competing key cs)" and "competing key cs \<noteq> {}" and "fstatus (resolve_candidates key rule cs) = AMBIGUOUS"
      and "fvalue (resolve_candidates key rule cs) = None"
proof (cases "top_candidates cs")
  case Nil
  then show ?thesis by (intro none) (simp_all add: resolve_candidates_def)
next
  case (Cons c rest)
  then have c: "c \<in> set cs" by (metis filter_is_subset list.set_intros(1) subsetD top_candidates_def)
  show ?thesis
  proof (cases "list_ex (\<lambda>d. key (fc_value d) \<noteq> key (fc_value c)) rest")
    case True
    then have "\<not> is_singleton (competing key cs)" "competing key cs \<noteq> {}"
      by (auto simp: competing_top Cons list_ex_iff is_singleton_def)
    with True Cons show ?thesis by (intro many) (simp_all add: resolve_candidates_def)
  next
    case False
    with Cons c show ?thesis by (intro one [of c]) (auto simp: resolve_candidates_def competing_top list_ex_iff)
  qed
qed

text \<open>
  C40: What a header field is does not depend on the order in which the candidates were found: it is extracted exactly if
  all candidates of the highest priority agree, with their value, and ambiguous without a value if they do not.
\<close>

theorem candidates_order_irrelevant:
  assumes "set cs = set cs'"
  shows "fstatus (resolve_candidates key rule cs) = fstatus (resolve_candidates key rule cs')
    \<and> map_option key (fvalue (resolve_candidates key rule cs)) = map_option key (fvalue (resolve_candidates key rule cs'))
    \<and> (fstatus (resolve_candidates key rule cs) = EXTRACTED \<longleftrightarrow> is_singleton (competing key cs))"
proof -
  have same: "competing key cs = competing key cs'" using assms by (auto simp: competing_def)
  have empty: "competing key [] = {}" by (simp add: competing_def)
  show ?thesis
    by (rule resolve_candidates_cases [of cs key rule]; rule resolve_candidates_cases [of cs' key rule])
      (use same empty assms in \<open>auto simp: is_singleton_def\<close>)
qed

subsection \<open>The extractor's result is a valid invoice\<close>

lemma resolve_candidates_valid:
  assumes "\<forall>c \<in> set cs. fc_evidence c \<noteq> []"
  shows "validate_status_contract (resolve_candidates key rule cs)"
proof (cases "top_candidates cs")
  case Nil
  then show ?thesis by (simp add: resolve_candidates_def validate_status_contract_def)
next
  case (Cons c rest)
  then have "c \<in> set cs" by (metis filter_is_subset list.set_intros(1) subsetD top_candidates_def)
  with assms Cons show ?thesis by (auto simp: resolve_candidates_def validate_status_contract_def Let_def)
qed

lemma line_words_nonempty: "l \<in> set (reconstruct_lines doc) \<Longrightarrow> tl_words l \<noteq> []"
  by (auto simp: reconstruct_lines_def line_of_def Let_def sort_key_Nil_iff filter_empty_conv)

lemma labelled_value_evidence:
  assumes "labelled_value rule p same following q rest lines i = Some c" and "i < length lines" and "\<forall>l \<in> set lines. tl_words l \<noteq> []"
  shows "fc_evidence c \<noteq> []"
  using assms by (auto simp: labelled_value_def text_line_evidence_def split: option.splits)

lemma labelled_money_evidence:
  assumes "labelled_money field labels excl lines i = Some c" and "i < length lines" and "\<forall>l \<in> set lines. tl_words l \<noteq> []"
  shows "fc_evidence c \<noteq> []"
proof -
  obtain rule p q rest where "labelled_value rule p money_from_text money_from_text q rest lines i = Some c"
    using assms(1) by (auto simp: labelled_money_def Let_def split: if_splits list.splits)
  from labelled_value_evidence [OF this assms(2,3)] show ?thesis .
qed

lemma currency_candidates_evidence:
  assumes "c \<in> set (currency_candidates lines i)" and "i < length lines" and "\<forall>l \<in> set lines. tl_words l \<noteq> []"
  shows "fc_evidence c \<noteq> []"
proof -
  have "fc_evidence c \<noteq> []" if "c \<in> set (currency_candidate (lines ! i) extra rule p v)" for c extra rule p v
    using that assms(2,3) by (auto simp: currency_candidate_def text_line_evidence_def split: option.splits)
  with assms(1) show ?thesis
    by (auto simp: currency_candidates_def currency_label_candidates_def Let_def split: option.splits if_splits)
qed

lemma map_filter_member: "x \<in> set (List.map_filter f xs) \<longleftrightarrow> (\<exists>y \<in> set xs. f y = Some x)"
  by (auto simp: List.map_filter_def image_iff)

lemma header_fields_valid:
  assumes words: "\<forall>l \<in> set lines. tl_words l \<noteq> []"
  shows "validate_status_contract (extract_invoice_number lines)" "validate_status_contract (extract_invoice_date lines)"
    and "validate_status_contract (extract_currency lines)" "validate_status_contract (extract_subtotal lines)"
    and "validate_status_contract (extract_tax lines)" "validate_status_contract (extract_total lines)"
proof -
  have money: "validate_status_contract (extract_labeled_money field labels excl lines)" for field labels excl
    unfolding extract_labeled_money_def
    by (rule resolve_candidates_valid) (auto simp: map_filter_member labelled_money_evidence [OF _ _ words])
  then show "validate_status_contract (extract_subtotal lines)" "validate_status_contract (extract_tax lines)" "validate_status_contract (extract_total lines)"
    by (simp_all add: extract_subtotal_def extract_tax_def extract_total_def)
  show "validate_status_contract (extract_invoice_number lines)" "validate_status_contract (extract_invoice_date lines)"
    "validate_status_contract (extract_currency lines)"
    unfolding extract_invoice_number_def extract_invoice_date_def extract_currency_def
    by (rule resolve_candidates_valid;
        auto simp: map_filter_member labelled_value_evidence [OF _ _ words] currency_candidates_evidence [OF _ _ words] split: if_splits option.splits)+
qed

lemma deterministic_invoice_valid: "invoice_valid (deterministic_extract doc)"
proof -
  have "\<forall>l \<in> set (reconstruct_lines doc). tl_words l \<noteq> []" by (simp add: line_words_nonempty)
  from header_fields_valid [OF this] show ?thesis
    by (simp add: invoice_valid_def deterministic_extract_def Let_def list_all_iff extracted_line_valid)
qed

text \<open>
  C24: Whatever words a document consists of, the deterministic extractor returns an invoice that satisfies the schema,
  where every extracted field has a value and evidence and a missing one has no value; and every line item has a
  description and a total, or else a quantity with a unit price.
\<close>

theorem deterministic_extract_valid:
  "invoice_valid (deterministic_extract doc) \<and> list_all line_item_complete (inv_line_items (deterministic_extract doc))"
  using deterministic_invoice_valid by (simp add: deterministic_extract_def Let_def list_all_iff extracted_line_complete)

subsection \<open>Amounts stand in the text\<close>

definition stands_in :: "string \<Rightarrow> string \<Rightarrow> bool" where
  "stands_in t s \<longleftrightarrow> (\<exists>a b. s = a @ t @ b)"

lemma stands_in_trans: "stands_in t s \<Longrightarrow> stands_in s r \<Longrightarrow> stands_in t r"
  unfolding stands_in_def by (metis append.assoc)

lemma stands_in_drop: "stands_in (drop n s) s"
  unfolding stands_in_def by (metis append_Nil2 append_take_drop_id)

lemma stands_in_take: "stands_in (take n s) s"
  unfolding stands_in_def by (metis append_Nil append_take_drop_id)

lemma stands_in_strip: "stands_in (py_strip s) s"
proof -
  have drop_front: "stands_in (dropWhile P r) r" for P r
    unfolding stands_in_def by (metis append_Nil2 takeWhile_dropWhile_id)
  have drop_back: "stands_in (rev (dropWhile P (rev r))) r" for P r
    unfolding stands_in_def by (metis append_Nil rev_append rev_rev_ident takeWhile_dropWhile_id)
  show ?thesis unfolding py_strip_def using stands_in_trans [OF drop_back drop_front] .
qed

lemma stands_in_span: "stands_in (span_text s m) s"
  by (cases m) (auto simp: span_text_def intro: stands_in_trans [OF stands_in_take stands_in_drop])

lemma first_some_member: "first_some xs = Some v \<Longrightarrow> Some v \<in> set xs"
  unfolding first_some_def by (auto split: list.splits dest: filter_eq_ConsD)

lemma money_from_text_stands: "money_from_text t = Some v \<Longrightarrow> \<exists>m. stands_in m t \<and> parse_money m = Some v"
  unfolding money_from_text_def Let_def
  by (drule first_some_member) (auto intro: stands_in_trans [OF stands_in_span stands_in_strip])

lemma labelled_money_stands:
  assumes "labelled_money field labels excl lines i = Some c" and "i < length lines"
  shows "\<exists>l \<in> set lines. \<exists>m. stands_in m (tl_text l) \<and> parse_money m = Some (fc_value c)"
proof -
  obtain rule p q e where "labelled_value rule p money_from_text money_from_text q (drop e (tl_text (lines ! i))) lines i = Some c"
    using assms(1) by (auto simp: labelled_money_def Let_def split: if_splits list.splits)
  then consider "money_from_text (drop e (tl_text (lines ! i))) = Some (fc_value c)"
    | l where "next_line lines i = Some l" "money_from_text (tl_text l) = Some (fc_value c)"
    by (auto simp: labelled_value_def split: option.splits)
  then show ?thesis
  proof cases
    case 1
    from money_from_text_stands [OF this] obtain m where "stands_in m (drop e (tl_text (lines ! i)))" "parse_money m = Some (fc_value c)" by blast
    with assms(2) stands_in_trans [OF _ stands_in_drop] show ?thesis by (meson nth_mem)
  next
    case 2
    then have "l \<in> set lines" by (auto simp: next_line_def split: if_splits)
    with money_from_text_stands [OF 2(2)] show ?thesis by blast
  qed
qed

text \<open>
  The extractor invents no amount: the subtotal, the tax and the total it extracts are read from a piece of text that
  stands in one line of the document.
\<close>

lemma amounts_stand_in_text:
  assumes "fvalue f = Some v" and "f \<in> {inv_subtotal (deterministic_extract doc), inv_tax (deterministic_extract doc), inv_total (deterministic_extract doc)}"
  shows "\<exists>l \<in> set (reconstruct_lines doc). \<exists>m. stands_in m (tl_text l) \<and> parse_money m = Some v"
proof -
  obtain field labels excl where f: "f = extract_labeled_money field labels excl (reconstruct_lines doc)"
    using assms(2) by (auto simp: deterministic_extract_def Let_def extract_subtotal_def extract_tax_def extract_total_def)
  define cs where "cs = List.map_filter (labelled_money field labels excl (reconstruct_lines doc)) [0..<length (reconstruct_lines doc)]"
  have "f = resolve_candidates dval (''header.'' @ field @ ''.ambiguous.v1'') cs" by (simp add: f cs_def extract_labeled_money_def)
  with assms(1) obtain c where "c \<in> set cs" "v = fc_value c"
    by (cases rule: resolve_candidates_cases [of cs dval "''header.'' @ field @ ''.ambiguous.v1''"]) auto
  then show ?thesis using labelled_money_stands by (auto simp: cs_def map_filter_member)
qed

subsection \<open>Examples\<close>

lemma hash_label_unmatched: "re_search INVOICE_NUMBER_LABEL ''Invoice # INV-1042'' = None" "re_search INVOICE_NUMBER_LABEL ''Invoice No. INV-1042'' = Some (0, 10, None)"
  by code_simp+

text \<open>
  The label pattern ends in a word boundary, which there is none after a number sign that is followed by a space or a
  colon: the number of an invoice that reads \<^verbatim>\<open>Invoice # INV-1042\<close> is not found, whatever else the line is.
\<close>

theorem hash_label_not_read: "fstatus (extract_invoice_number [l\<lparr>tl_text := ''Invoice # INV-1042''\<rparr>]) = MISSING"
  by (simp add: extract_invoice_number_def List.map_filter_simps hash_label_unmatched resolve_candidates_def)

definition total_document :: document_text where
  "total_document = \<lparr>dx_pages = [\<lparr>pt_page = 0, pt_width = Scaled 1 0, pt_height = Scaled 1 0, pt_source = EMBEDDED, pt_words = [cell_word 0 1 2 ''Total 5'']\<rparr>], dx_used_ocr = False\<rparr>"

lemma total_lines: "map tl_text (reconstruct_lines total_document) = [''Total 5'']"
  by (simp add: reconstruct_lines_def all_words_def total_document_def Let_def dict_fromkeys_def line_of_def cell_word_def line_key_def)

lemma total_found:
  "re_search (line_label (alts (seqs [lit ''sub'', Star blank, lit ''total''] # map lit [''tax total'', ''total tax'', ''quantity total'', ''discount total'']))) ''Total 5'' = None"
  "map (\<lambda>p. re_search (line_label (lit p)) ''Total 5'') [''amount due'', ''grand total'', ''total payable'', ''invoice total'', ''net payable'', ''total'']
     = [None, None, None, None, None, Some (0, 5, None)]"
  "money_from_text '' 5'' = Some (Scaled 5 0)"
  by code_simp+

lemma total_extracted: "fvalue (inv_total (deterministic_extract total_document)) = Some (Scaled 5 0)"
proof -
  obtain l where l: "reconstruct_lines total_document = [l]" "tl_text l = ''Total 5''" using total_lines by auto
  show ?thesis
    using total_found
    by (simp add: deterministic_extract_def Let_def l extract_total_def extract_labeled_money_def List.map_filter_simps labelled_money_def
        labelled_value_def resolve_candidates_def top_candidates_def)
qed

definition sample_candidates :: "string field_candidate list" where
  "sample_candidates = [\<lparr>fc_value = ''INV-7'', fc_evidence = [], fc_rule_id = ''a'', fc_priority = 100\<rparr>,
     \<lparr>fc_value = ''inv 7'', fc_evidence = [], fc_rule_id = ''b'', fc_priority = 100\<rparr>, \<lparr>fc_value = ''X-9'', fc_evidence = [], fc_rule_id = ''c'', fc_priority = 90\<rparr>]"

theorem candidates_order_irrelevant_witness:
  "fstatus (resolve_candidates normalize_identifier ''amb'' (rev sample_candidates)) = EXTRACTED
   \<and> map_option normalize_identifier (fvalue (resolve_candidates normalize_identifier ''amb'' (rev sample_candidates))) = Some ''INV7''"
proof -
  have "fstatus (resolve_candidates normalize_identifier ''amb'' sample_candidates) = EXTRACTED"
    "map_option normalize_identifier (fvalue (resolve_candidates normalize_identifier ''amb'' sample_candidates)) = Some ''INV7''"
    by code_simp+
  with candidates_order_irrelevant [of sample_candidates "rev sample_candidates" normalize_identifier "''amb''"] show ?thesis by simp
qed

end
