(* ===== verification/Supporting.thy ===== *)
theory Supporting
  imports Header_Rules Case_Data
begin

text \<open>
  \<^verbatim>\<open>invoiceops/extraction/supporting.py\<close>: how purchase orders and goods receipts are read. Numbers are looked for by
  their place on the page, other header fields behind their labels, and lines in the columns below a header row.
\<close>

subsection \<open>Patterns\<close>

text \<open>Words with blanks between them: at least one, or any number.\<close>

fun spaced :: "pattern \<Rightarrow> string list \<Rightarrow> pattern" where
  "spaced gap [] = Eps"
| "spaced gap [w] = lit w"
| "spaced gap (w # v # ws) = Seq (lit w) (Seq gap (spaced gap (v # ws)))"

definition whole_words :: "pattern \<Rightarrow> pattern" where
  "whole_words p = seqs [WordBoundary, p, WordBoundary]"

definition OTHER_LABEL :: pattern where
  "OTHER_LABEL = line_label (words_of [''order date'', ''po date'', ''issue date'', ''vendor'', ''supplier'', ''seller'', ''buyer'', ''customer'',
     ''bill to'', ''currency'', ''subtotal'', ''sub total'', ''tax'', ''total'', ''receipt date'', ''received date'', ''delivery date''])"

definition number_suffix :: pattern where
  "number_suffix = Seq (plus blank) (alts [Seq (lit ''no'') (opt (lit ''.'')), lit ''number'', lit ''#''])"

definition PO_LABEL :: pattern where
  "PO_LABEL = seqs [Alt (Seq (spaced (plus blank) [''purchase'', ''order'']) (opt number_suffix))
     (seqs [lit ''p'', opt (lit ''.''), lit ''o'', opt (lit ''.''), Alt number_suffix (lit '':'')]), Star blank, opt (lit '':'')]"

definition RECEIPT_LABEL :: pattern where
  "RECEIPT_LABEL = seqs [alts [spaced (plus blank) [''goods'', ''receipt''], lit ''receipt'', spaced (plus blank) [''delivery'', ''note'']],
     opt (Alt number_suffix (lit '':'')), Star blank, opt (lit '':'')]"

definition OTHER_HEADER :: pattern where
  "OTHER_HEADER = seqs [LineStart, alts (map (spaced (plus blank))
     [[''order'', ''date''], [''po'', ''date''], [''issue'', ''date''], [''received'', ''date''], [''delivery'', ''date''], [''receipt'', ''date''], [''vendor''],
      [''supplier''], [''seller''], [''buyer''], [''customer''], [''bill'', ''to''], [''currency''], [''subtotal''], [''sub'', ''total''], [''tax''],
      [''grand'', ''total''], [''total''], [''description''], [''item''], [''line'']]), WordBoundary]"

definition identifier_char :: "char \<Rightarrow> bool" where
  "identifier_char c \<longleftrightarrow> is_alnum c \<or> c \<in> set ''./_-''"

definition IDENTIFIER_VALUE :: pattern where
  "IDENTIFIER_VALUE = Seq letter_or_digit (Star (Sym identifier_char))"

definition PO_TABLE_FOOTER :: pattern where
  "PO_TABLE_FOOTER = line_label (alts [seqs [lit ''sub'', Star blank, lit ''total''], lit ''subtotal'', lit ''tax'', lit ''discount'',
     spaced (plus blank) [''amount'', ''due''], spaced (plus blank) [''grand'', ''total''], lit ''total''])"

definition RECEIPT_FOOTER :: pattern where
  "RECEIPT_FOOTER = line_label (words_of [''total'', ''remarks'', ''received by'', ''signature''])"

text \<open>The labels of the single fields.\<close>

definition PO_TEXT_LABEL :: pattern where
  "PO_TEXT_LABEL = whole_words (seqs [Alt (spaced (Star blank) [''purchase'', ''order'']) (lit ''po''), Star blank, opt number_label])"

definition RECEIPT_TEXT_LABEL :: pattern where
  "RECEIPT_TEXT_LABEL = whole_words (seqs [alts [spaced (Star blank) [''goods'', ''receipt''], lit ''receipt'', spaced (Star blank) [''delivery'', ''note'']],
     Star blank, opt number_label])"

definition ISSUE_DATE_LABEL :: pattern where
  "ISSUE_DATE_LABEL = whole_words (alts (map (spaced (Star blank)) [[''po'', ''date''], [''order'', ''date''], [''issue'', ''date''], [''date'', ''of'', ''issue'']]))"

definition VENDOR_LABEL :: pattern where
  "VENDOR_LABEL = whole_words (words_of [''vendor'', ''supplier'', ''seller''])"

definition BUYER_LABEL :: pattern where
  "BUYER_LABEL = whole_words (alts [lit ''buyer'', spaced (Star blank) [''bill'', ''to''], lit ''customer''])"

definition RECEIVED_DATE_LABEL :: pattern where
  "RECEIVED_DATE_LABEL = whole_words (alts (map (spaced (Star blank)) [[''received'', ''date''], [''delivery'', ''date''], [''receipt'', ''date'']]))"

definition SUPPLIER_LABEL :: pattern where
  "SUPPLIER_LABEL = whole_words (alts [lit ''supplier'', lit ''vendor'', spaced (Star blank) [''delivered'', ''by'']])"

subsection \<open>Labelled fields\<close>

definition missing :: "'a extracted_field" where
  "missing = \<lparr>fvalue = None, fstatus = MISSING, fevidence = [], frule_id = None\<rparr>"

definition labelled_candidate :: "string \<Rightarrow> 'a \<Rightarrow> word_token list \<Rightarrow> 'a field_candidate" where
  "labelled_candidate rule v ws = \<lparr>fc_value = v, fc_evidence = evidence_from_words ws, fc_rule_id = rule, fc_priority = 100\<rparr>"

definition text_candidate :: "string \<Rightarrow> pattern \<Rightarrow> text_line list \<Rightarrow> nat \<Rightarrow> string field_candidate option" where
  "text_candidate rule p lines i =
     (let l = lines ! i in
      case re_search p (tl_text l) of
        None \<Rightarrow> None
      | Some (_, e, _) \<Rightarrow>
          let raw = remainder l e;
              (raw', ws) = (case (if raw = [] then next_line lines i else None) of
                  None \<Rightarrow> (raw, tl_words l)
                | Some n \<Rightarrow> let following = normalize_whitespace (tl_text n) in
                    if re_search OTHER_LABEL following = None then (following, tl_words l @ tl_words n) else (raw, tl_words l));
              v = normalize_whitespace raw'
          in if v = [] then None else Some (labelled_candidate (rule @ ''.labeled.v1'') v ws))"

definition labeled_text :: "string \<Rightarrow> pattern \<Rightarrow> text_line list \<Rightarrow> string extracted_field" where
  "labeled_text rule p lines =
     resolve_candidates normalize_identifier (rule @ ''.ambiguous.v1'') (List.map_filter (text_candidate rule p lines) [0..<length lines])"

definition date_candidate :: "string \<Rightarrow> pattern \<Rightarrow> text_line list \<Rightarrow> nat \<Rightarrow> date field_candidate option" where
  "date_candidate rule p lines i =
     (let l = lines ! i in
      case re_search p (tl_text l) of
        None \<Rightarrow> None
      | Some (_, e, _) \<Rightarrow>
          (case parse_invoice_date (remainder l e) of
             Some d \<Rightarrow> Some (labelled_candidate (rule @ ''.labeled.v1'') d (tl_words l))
           | None \<Rightarrow>
              (case next_line lines i of
                 None \<Rightarrow> None
               | Some n \<Rightarrow> map_option (\<lambda>d. labelled_candidate (rule @ ''.labeled.v1'') d (tl_words l @ tl_words n)) (parse_invoice_date (tl_text n)))))"

definition labeled_date :: "string \<Rightarrow> pattern \<Rightarrow> text_line list \<Rightarrow> date extracted_field" where
  "labeled_date rule p lines =
     resolve_candidates id (rule @ ''.ambiguous.v1'') (List.map_filter (date_candidate rule p lines) [0..<length lines])"

subsection \<open>Numbers by their place\<close>

text \<open>Longest label first: four words, three, two, one; 0 if there is none.\<close>

definition identifier_label_length :: "word_token list \<Rightarrow> pattern \<Rightarrow> nat" where
  "identifier_label_length ws p =
     (case filter (\<lambda>n. re_fullmatch p (words_text (take n ws))) (rev [1..<Suc (min 4 (length ws))]) of [] \<Rightarrow> 0 | n # _ \<Rightarrow> n)"

text \<open>The words of a number: as long as they look like one and lie close to each other (\<^verbatim>\<open>0.08\<close>).\<close>

fun close_words :: "word_token option \<Rightarrow> word_token list \<Rightarrow> word_token list" where
  "close_words previous [] = []"
| "close_words previous (w # ws) =
     (if wt_text w = [] \<or> \<not> list_all identifier_char (wt_text w) then []
      else if (case previous of None \<Rightarrow> False
            | Some v \<Rightarrow> flt (Scaled 5764607523034235 (- 56)) (fsub (bb_x0 (wt_bbox w)) (bb_x1 (wt_bbox v)))) then []
      else w # close_words (Some w) ws)"

text \<open>\<^verbatim>\<open>re.sub\<close> with a function of the matched text.\<close>

fun text_replaced :: "(string \<Rightarrow> string) \<Rightarrow> string \<Rightarrow> nat \<Rightarrow> (nat \<times> nat) list \<Rightarrow> string" where
  "text_replaced f s i [] = drop i s"
| "text_replaced f s i ((a, b) # spans) = span_text s (i, a) @ f (span_text s (a, b)) @ text_replaced f s b spans"

definition tighten :: "string \<Rightarrow> string" where
  "tighten s = text_replaced py_strip s 0 (re_finditer (seqs [Star blank, one_of ''/-'', Star blank]) s)"

definition identifier_value :: "word_token list \<Rightarrow> (string \<times> word_token list) option" where
  "identifier_value ws =
     (if ws = [] \<or> re_match OTHER_HEADER (py_join '' '' (map wt_text ws)) then None
      else let chosen = close_words None (take 3 ws); raw = tighten (words_text chosen) in
        if chosen = [] \<or> \<not> re_fullmatch IDENTIFIER_VALUE raw \<or> normalize_identifier raw = [] then None
        else Some (raw, chosen))"

text \<open>The words right of the label, or else those of the row below, in reach (\<^verbatim>\<open>0.45\<close>, \<^verbatim>\<open>0.045\<close>, \<^verbatim>\<open>0.025\<close>).\<close>

definition words_beside :: "word_token list \<Rightarrow> word_token list \<Rightarrow> word_token list" where
  "words_beside label ws =
     (let after = filter (\<lambda>w. fle (bb_x0 (wt_bbox (last label))) (bb_x0 (wt_bbox w))) ws in
      if after \<noteq> [] \<and> flt (Scaled 8106479329266893 (- 54)) (fsub (bb_x0 (wt_bbox (hd after))) (bb_x1 (wt_bbox (last label)))) then [] else after)"

definition words_below :: "pattern \<Rightarrow> visual_row \<Rightarrow> word_token list \<Rightarrow> visual_row \<Rightarrow> word_token list" where
  "words_below p row label below =
     (let gap = fsub (vr_y0 below) (vr_y1 row); x0 = bb_x0 (wt_bbox (hd (vr_words below))) in
      if vr_page below = vr_page row \<and> fle (Scaled 0 0) gap \<and> fle gap (Scaled 3242591731706757 (- 56))
        \<and> fle (fsub (bb_x0 (wt_bbox (hd label))) (Scaled 3602879701896397 (- 57))) x0
        \<and> fle (fsub x0 (bb_x1 (wt_bbox (last label)))) (Scaled 8106479329266893 (- 54))
        \<and> identifier_label_length (vr_words below) p = 0
      then vr_words below else [])"

definition identifier_words :: "pattern \<Rightarrow> visual_row list \<Rightarrow> nat \<Rightarrow> word_token list" where
  "identifier_words p rows i =
     (let row = rows ! i; n = identifier_label_length (vr_words row) p; label = take n (vr_words row);
          beside = words_beside label (drop n (vr_words row))
      in if beside = [] \<and> Suc i < length rows then words_below p row label (rows ! Suc i) else beside)"

definition identifier_candidate :: "string \<Rightarrow> pattern \<Rightarrow> visual_row list \<Rightarrow> nat \<Rightarrow> string field_candidate option" where
  "identifier_candidate rule p rows i =
     (if identifier_label_length (vr_words (rows ! i)) p = 0 then None
      else map_option (\<lambda>(v, ws). labelled_candidate (rule @ ''.layout.v2'') v ws) (identifier_value (identifier_words p rows i)))"

definition layout_identifier :: "string \<Rightarrow> pattern \<Rightarrow> document_text \<Rightarrow> string extracted_field" where
  "layout_identifier rule p doc =
     (let rows = reconstruct_visual_rows doc in
      resolve_candidates normalize_identifier (rule @ ''.ambiguous.v2'') (List.map_filter (identifier_candidate rule p rows) [0..<length rows]))"

subsection \<open>Columns\<close>

type_synonym column_headers = "(string \<times> string list) list"
type_synonym table_columns = "(string \<times> pyfloat \<times> pyfloat) list"

definition PO_LINE_HEADERS :: column_headers where
  "PO_LINE_HEADERS =
     [(''line_number'', [''line'', ''line no'', ''line number'', ''item no'', ''sr no'', ''s no'', ''#'']),
      (''description'', [''description'', ''item'', ''product'', ''details'']),
      (''quantity'', [''quantity'', ''qty'', ''ordered'', ''ordered qty'']),
      (''unit_price'', [''unit price'', ''rate'', ''price'']),
      (''line_total'', [''amount'', ''line total'', ''total''])]"

definition RECEIPT_HEADERS :: column_headers where
  "RECEIPT_HEADERS =
     [(''description'', [''description'', ''item'', ''product'', ''details'']),
      (''received_quantity'', [''received'', ''received qty'', ''delivered'', ''delivered qty'']),
      (''accepted_quantity'', [''accepted'', ''accepted qty'', ''quantity'', ''qty'']),
      (''rejected_quantity'', [''rejected'', ''rejected qty'', ''damaged''])]"

definition segment_center :: "word_token list \<Rightarrow> pyfloat" where
  "segment_center ws =
     (let centers = map (horizontal_center \<circ> wt_bbox) ws; total = foldl fadd (hd centers) (tl centers) in
      if length ws = 2 then fhalf total else total)"

definition header_segments :: "'a list \<Rightarrow> 'a list list" where
  "header_segments ws = concat (map (\<lambda>i. [slice i (i + 2) ws, slice i (i + 1) ws]) [0..<length ws])"

definition note_anchor :: "(string \<Rightarrow> string) \<Rightarrow> word_token list \<Rightarrow> (string \<times> pyfloat) list \<Rightarrow> string \<times> string list \<Rightarrow> (string \<times> pyfloat) list" where
  "note_anchor clean segment anchors = (\<lambda>(name, aliases).
     if name \<notin> fst ` set anchors \<and> clean (map lower_char (words_text segment)) \<in> set aliases
     then anchors @ [(name, segment_center segment)] else anchors)"

definition find_anchors :: "(string \<Rightarrow> string) \<Rightarrow> column_headers \<Rightarrow> visual_row \<Rightarrow> (string \<times> pyfloat) list" where
  "find_anchors clean headers row =
     foldl (\<lambda>anchors segment. foldl (note_anchor clean segment) anchors headers) [] (header_segments (vr_words row))"

definition po_header_anchors :: "visual_row \<Rightarrow> (string \<times> pyfloat) list option" where
  "po_header_anchors row =
     (let anchors = find_anchors (filter (\<lambda>c. c \<noteq> CHR ''.'')) PO_LINE_HEADERS row; names = map fst anchors in
      if ''description'' \<notin> set names \<or> ''line_total'' \<notin> set names \<or> ''quantity'' \<notin> set names \<and> ''unit_price'' \<notin> set names
      then None else Some anchors)"

definition receipt_header_anchors :: "visual_row \<Rightarrow> (string \<times> pyfloat) list option" where
  "receipt_header_anchors row =
     (let anchors = find_anchors id RECEIPT_HEADERS row; names = map fst anchors in
      if ''description'' \<notin> set names \<or> ''received_quantity'' \<notin> set names \<and> ''accepted_quantity'' \<notin> set names then None else Some anchors)"

definition column_bounds :: "(string \<times> pyfloat) list \<Rightarrow> table_columns" where
  "column_bounds anchors =
     (let ordered = sort_key (fval \<circ> snd) anchors;
          cuts = map (\<lambda>(left, right). fhalf (fadd (snd left) (snd right))) (zip ordered (tl ordered))
      in zip (map fst ordered) (zip (Scaled 0 0 # cuts) (cuts @ [Scaled 1 0])))"

definition cell_of :: "table_columns \<Rightarrow> word_token \<Rightarrow> string option" where
  "cell_of bounds w =
     (let center = horizontal_center (wt_bbox w) in
      map_option fst (find_row (\<lambda>(name, x0, x1). fle x0 center \<and> fle center x1) bounds))"

definition cells_of_row :: "table_columns \<Rightarrow> visual_row \<Rightarrow> string \<Rightarrow> word_token list" where
  "cells_of_row bounds row name = filter (\<lambda>w. cell_of bounds w = Some name) (vr_words row)"

definition cell_amount :: "word_token list \<Rightarrow> decimal option" where
  "cell_amount ws = (if ws = [] then None else parse_money (py_join '' '' (map wt_text ws)))"

definition text_field :: "string \<Rightarrow> string \<Rightarrow> word_token list \<Rightarrow> string extracted_field" where
  "text_field rule v ws =
     (if v = [] then missing else \<lparr>fvalue = Some v, fstatus = EXTRACTED, fevidence = evidence_from_words ws, frule_id = Some rule\<rparr>)"

definition amount_field :: "string \<Rightarrow> word_token list \<Rightarrow> decimal extracted_field" where
  "amount_field rule ws =
     (case cell_amount ws of None \<Rightarrow> missing
      | Some d \<Rightarrow> \<lparr>fvalue = Some d, fstatus = EXTRACTED, fevidence = evidence_from_words ws, frule_id = Some rule\<rparr>)"

subsection \<open>Lines of a purchase order\<close>

definition AMOUNT_COLUMNS :: "string list" where
  "AMOUNT_COLUMNS = [''quantity'', ''unit_price'', ''line_total'']"

definition po_line_of :: "(string \<Rightarrow> word_token list) \<Rightarrow> extracted_po_line" where
  "po_line_of cells =
     \<lparr>xpl_line_number = text_field ''purchase_order.line.line_number.column.v2'' (normalize_identifier (words_text (cells ''line_number''))) (cells ''line_number''),
      xpl_description = text_field ''purchase_order.line.description.column.v2'' (words_text (cells ''description'')) (cells ''description''),
      xpl_ordered_quantity = amount_field ''purchase_order.line.quantity.column.v2'' (cells ''quantity''),
      xpl_unit_price = amount_field ''purchase_order.line.unit_price.column.v2'' (cells ''unit_price''),
      xpl_line_total = amount_field ''purchase_order.line.line_total.column.v2'' (cells ''line_total'')\<rparr>"

definition wrapped_description :: "string \<Rightarrow> word_token list \<Rightarrow> string extracted_field \<Rightarrow> string extracted_field" where
  "wrapped_description v ws old =
     \<lparr>fvalue = Some (the (fvalue old) @ '' '' @ v), fstatus = EXTRACTED, fevidence = fevidence old @ evidence_from_words ws,
      frule_id = Some ''purchase_order.line.description.wrapped.v2''\<rparr>"

text \<open>The lines found, the columns of the open table, and the page and lower edge of the row of the last line.\<close>

type_synonym po_scan = "extracted_po_line list \<times> table_columns \<times> int \<times> pyfloat"

definition wrap_row :: "string \<Rightarrow> word_token list \<Rightarrow> visual_row \<Rightarrow> po_scan \<Rightarrow> po_scan" where
  "wrap_row v ws row = (\<lambda>(lines, bounds, page, y1).
     let gap = fsub (vr_y0 row) y1 in
     if lines \<noteq> [] \<and> int (vr_page row) = page \<and> fle (Scaled 0 0) gap \<and> fle gap (Scaled 3242591731706757 (- 56))
       \<and> fvalue (xpl_description (last lines)) \<noteq> None
     then (butlast lines @ [(last lines)\<lparr>xpl_description := wrapped_description v ws (xpl_description (last lines))\<rparr>], bounds, page, vr_y1 row)
     else (lines, bounds, page, y1))"

definition po_row_step :: "po_scan \<Rightarrow> visual_row \<Rightarrow> po_scan" where
  "po_row_step state row =
     (case state of (lines, bounds, page, y1) \<Rightarrow>
        (case po_header_anchors row of
          Some anchors \<Rightarrow> (lines, column_bounds anchors, page, y1)
        | None \<Rightarrow>
            if bounds = [] then state
            else if re_search PO_TABLE_FOOTER (row_text row) \<noteq> None then (lines, [], page, y1)
            else let cells = cells_of_row bounds row; description = words_text (cells ''description'') in
              if description \<noteq> [] \<and> cells ''line_number'' = [] \<and> list_all (\<lambda>name. cells name = []) AMOUNT_COLUMNS
              then wrap_row description (cells ''description'') row state
              else if description = [] \<or> list_all (\<lambda>name. cell_amount (cells name) = None) AMOUNT_COLUMNS then state
              else if list_ex (\<lambda>name. cells name \<noteq> [] \<and> cell_amount (cells name) = None) AMOUNT_COLUMNS then state
              else (lines @ [po_line_of cells], bounds, int (vr_page row), vr_y1 row)))"

definition ambiguous_number :: "nat \<Rightarrow> extracted_po_line list \<Rightarrow> extracted_po_line list" where
  "ambiguous_number i lines = lines[i := (lines ! i)\<lparr>xpl_line_number :=
     \<lparr>fvalue = None, fstatus = AMBIGUOUS, fevidence = fevidence (xpl_line_number (lines ! i)), frule_id = Some ''purchase_order.line.number.duplicate.v2''\<rparr>\<rparr>]"

definition duplicate_step :: "extracted_po_line list \<times> (string \<times> nat) list \<Rightarrow> nat \<Rightarrow> extracted_po_line list \<times> (string \<times> nat) list" where
  "duplicate_step = (\<lambda>(lines, known) i.
     case fvalue (xpl_line_number (lines ! i)) of
       None \<Rightarrow> (lines, known)
     | Some n \<Rightarrow> (case map_of known n of
           None \<Rightarrow> (lines, (n, i) # known)
         | Some j \<Rightarrow> (ambiguous_number i (ambiguous_number j lines), known)))"

definition mark_duplicates :: "extracted_po_line list \<Rightarrow> extracted_po_line list" where
  "mark_duplicates lines = fst (foldl duplicate_step (lines, []) [0..<length lines])"

definition purchase_order_rows :: "document_text \<Rightarrow> extracted_po_line list" where
  "purchase_order_rows doc = mark_duplicates (fst (foldl po_row_step ([], [], - 1, Scaled 0 0) (reconstruct_visual_rows doc)))"

definition purchase_order_from_lines :: "text_line list \<Rightarrow> extracted_po_line list \<Rightarrow> string extracted_field option \<Rightarrow> extracted_po" where
  "purchase_order_from_lines lines items number =
     \<lparr>xpo_po_number = (case number of Some f \<Rightarrow> f | None \<Rightarrow> labeled_text ''purchase_order.number'' PO_TEXT_LABEL lines),
      xpo_issue_date = labeled_date ''purchase_order.issue_date'' ISSUE_DATE_LABEL lines,
      xpo_vendor = labeled_text ''purchase_order.vendor'' VENDOR_LABEL lines,
      xpo_buyer = labeled_text ''purchase_order.buyer'' BUYER_LABEL lines,
      xpo_currency = extract_currency lines, xpo_subtotal = extract_subtotal lines, xpo_tax = extract_tax lines,
      xpo_total = extract_total lines, xpo_line_items = items\<rparr>"

definition extract_purchase_order :: "document_text \<Rightarrow> extracted_po" where
  "extract_purchase_order doc =
     purchase_order_from_lines (reconstruct_lines doc) (purchase_order_rows doc) (Some (layout_identifier ''purchase_order.number'' PO_LABEL doc))"

subsection \<open>The earlier reading of purchase orders\<close>

definition legacy_number_step :: "string extracted_field list \<times> table_columns \<Rightarrow> visual_row \<Rightarrow> string extracted_field list \<times> table_columns" where
  "legacy_number_step state row =
     (case state of (numbers, bounds) \<Rightarrow>
        (case (case po_header_anchors row of Some anchors \<Rightarrow> (if ''line_number'' \<in> fst ` set anchors then Some anchors else None) | None \<Rightarrow> None) of
          Some anchors \<Rightarrow> (numbers, column_bounds anchors)
        | None \<Rightarrow>
            if bounds = [] then state
            else if re_search PO_TABLE_FOOTER (row_text row) \<noteq> None then (numbers, [])
            else let cells = cells_of_row bounds row; v = normalize_identifier (words_text (cells ''line_number'')) in
              if words_text (cells ''line_number'') = [] \<or> words_text (cells ''description'') = []
                \<or> list_all (\<lambda>name. cell_amount (cells name) = None) AMOUNT_COLUMNS \<or> v = [] then state
              else (numbers @ [text_field ''purchase_order.line.number.column.v1'' v (cells ''line_number'')], bounds)))"

definition legacy_purchase_order_line_numbers :: "document_text \<Rightarrow> string extracted_field list" where
  "legacy_purchase_order_line_numbers doc = fst (foldl legacy_number_step ([], []) (reconstruct_visual_rows doc))"

definition extract_purchase_order_v1 :: "document_text \<Rightarrow> extracted_po" where
  "extract_purchase_order_v1 doc =
     (let items = extract_line_items doc; numbers = legacy_purchase_order_line_numbers doc;
          aligned = (if length numbers = length items then numbers else map (\<lambda>_. missing) items)
      in purchase_order_from_lines (reconstruct_lines doc)
           (map (\<lambda>(item, number). \<lparr>xpl_line_number = number, xpl_description = il_description item, xpl_ordered_quantity = il_quantity item,
              xpl_unit_price = il_unit_price item, xpl_line_total = il_line_total item\<rparr>) (zip items aligned)) None)"

subsection \<open>Goods receipts\<close>

definition RECEIPT_COLUMNS :: "string list" where
  "RECEIPT_COLUMNS = [''received_quantity'', ''accepted_quantity'', ''rejected_quantity'']"

definition receipt_line_of :: "(string \<Rightarrow> word_token list) \<Rightarrow> extracted_receipt_line" where
  "receipt_line_of cells =
     \<lparr>xrl_description = text_field ''goods_receipt.line.description.column.v1'' (words_text (cells ''description'')) (cells ''description''),
      xrl_received_quantity = amount_field ''goods_receipt.line.received_quantity.column.v1'' (cells ''received_quantity''),
      xrl_accepted_quantity = amount_field ''goods_receipt.line.accepted_quantity.column.v1'' (cells ''accepted_quantity''),
      xrl_rejected_quantity = amount_field ''goods_receipt.line.rejected_quantity.column.v1'' (cells ''rejected_quantity'')\<rparr>"

definition receipt_row_step :: "extracted_receipt_line list \<times> table_columns option \<Rightarrow> visual_row \<Rightarrow> extracted_receipt_line list \<times> table_columns option" where
  "receipt_row_step state row =
     (case state of (lines, open_table) \<Rightarrow>
        (case receipt_header_anchors row of
          Some anchors \<Rightarrow> (lines, Some (column_bounds anchors))
        | None \<Rightarrow>
           (case open_table of
              None \<Rightarrow> state
            | Some bounds \<Rightarrow>
                if re_search RECEIPT_FOOTER (row_text row) \<noteq> None then (lines, None)
                else let cells = cells_of_row bounds row in
                  if words_text (cells ''description'') = [] \<or> list_all (\<lambda>name. cell_amount (cells name) = None) RECEIPT_COLUMNS then state
                  else (lines @ [receipt_line_of cells], open_table))))"

definition receipt_rows :: "document_text \<Rightarrow> extracted_receipt_line list" where
  "receipt_rows doc = fst (foldl receipt_row_step ([], None) (reconstruct_visual_rows doc))"

definition extract_receipt_with :: "bool \<Rightarrow> document_text \<Rightarrow> extracted_receipt" where
  "extract_receipt_with legacy_identifiers doc =
     (let lines = reconstruct_lines doc in
      \<lparr>xrc_receipt_number = (if legacy_identifiers then labeled_text ''goods_receipt.number'' RECEIPT_TEXT_LABEL lines
         else layout_identifier ''goods_receipt.number'' RECEIPT_LABEL doc),
       xrc_referenced_po_number = (if legacy_identifiers then labeled_text ''goods_receipt.purchase_order_number'' PO_TEXT_LABEL lines
         else layout_identifier ''goods_receipt.purchase_order_number'' PO_LABEL doc),
       xrc_received_date = labeled_date ''goods_receipt.received_date'' RECEIVED_DATE_LABEL lines,
       xrc_supplier = labeled_text ''goods_receipt.supplier'' SUPPLIER_LABEL lines, xrc_line_items = receipt_rows doc\<rparr>)"

definition extract_goods_receipt :: "document_text \<Rightarrow> extracted_receipt" where
  "extract_goods_receipt = extract_receipt_with False"

definition extract_goods_receipt_v1 :: "document_text \<Rightarrow> extracted_receipt" where
  "extract_goods_receipt_v1 = extract_receipt_with True"

subsection \<open>What is extracted satisfies the schema\<close>

definition po_line_valid :: "extracted_po_line \<Rightarrow> bool" where
  "po_line_valid l =
     (validate_status_contract (xpl_line_number l) \<and> validate_status_contract (xpl_description l) \<and> validate_status_contract (xpl_ordered_quantity l)
      \<and> validate_status_contract (xpl_unit_price l) \<and> validate_status_contract (xpl_line_total l))"

definition po_valid :: "extracted_po \<Rightarrow> bool" where
  "po_valid x =
     (validate_status_contract (xpo_po_number x) \<and> validate_status_contract (xpo_issue_date x) \<and> validate_status_contract (xpo_vendor x)
      \<and> validate_status_contract (xpo_buyer x) \<and> validate_status_contract (xpo_currency x) \<and> validate_status_contract (xpo_subtotal x)
      \<and> validate_status_contract (xpo_tax x) \<and> validate_status_contract (xpo_total x) \<and> list_all po_line_valid (xpo_line_items x))"

definition receipt_line_valid :: "extracted_receipt_line \<Rightarrow> bool" where
  "receipt_line_valid l =
     (validate_status_contract (xrl_description l) \<and> validate_status_contract (xrl_received_quantity l)
      \<and> validate_status_contract (xrl_accepted_quantity l) \<and> validate_status_contract (xrl_rejected_quantity l))"

definition receipt_valid :: "extracted_receipt \<Rightarrow> bool" where
  "receipt_valid x =
     (validate_status_contract (xrc_receipt_number x) \<and> validate_status_contract (xrc_referenced_po_number x)
      \<and> validate_status_contract (xrc_received_date x) \<and> validate_status_contract (xrc_supplier x) \<and> list_all receipt_line_valid (xrc_line_items x))"

lemma next_line_member: "next_line lines i = Some n \<Longrightarrow> n \<in> set lines"
  by (auto simp: next_line_def split: if_splits)

lemma text_candidate_evidence:
  assumes "text_candidate rule p lines i = Some c" and "i < length lines" and "\<forall>l \<in> set lines. tl_words l \<noteq> []"
  shows "fc_evidence c \<noteq> []"
  using assms by (auto simp: text_candidate_def labelled_candidate_def Let_def split: option.splits if_splits prod.splits)

lemma date_candidate_evidence:
  assumes "date_candidate rule p lines i = Some c" and "i < length lines" and "\<forall>l \<in> set lines. tl_words l \<noteq> []"
  shows "fc_evidence c \<noteq> []"
  using assms by (auto simp: date_candidate_def labelled_candidate_def Let_def split: option.splits)

lemma identifier_candidate_evidence: "identifier_candidate rule p rows i = Some c \<Longrightarrow> fc_evidence c \<noteq> []"
  by (auto simp: identifier_candidate_def identifier_value_def labelled_candidate_def Let_def split: if_splits)

lemma labelled_fields_valid:
  assumes "\<forall>l \<in> set lines. tl_words l \<noteq> []"
  shows "validate_status_contract (labeled_text rule p lines)" and "validate_status_contract (labeled_date rule p lines)"
  unfolding labeled_text_def labeled_date_def
  by (rule resolve_candidates_valid; auto simp: map_filter_member text_candidate_evidence [OF _ _ assms] date_candidate_evidence [OF _ _ assms])+

lemma layout_identifier_valid: "validate_status_contract (layout_identifier rule p doc)"
  unfolding layout_identifier_def Let_def
  by (rule resolve_candidates_valid) (auto simp: map_filter_member dest: identifier_candidate_evidence)

lemma words_text_Nil [simp]: "words_text [] = []"
  by (simp add: words_text_def normalize_whitespace_def py_split_def)

lemma normalize_identifier_Nil [simp]: "normalize_identifier [] = []"
  by (simp add: normalize_identifier_def py_upper_def)

lemma text_field_valid: "(v \<noteq> [] \<Longrightarrow> ws \<noteq> []) \<Longrightarrow> validate_status_contract (text_field rule v ws)"
  by (auto simp: text_field_def missing_def validate_status_contract_def)

lemma amount_field_valid: "validate_status_contract (amount_field rule ws)"
  by (auto simp: amount_field_def cell_amount_def missing_def validate_status_contract_def split: option.splits)

lemma missing_valid: "validate_status_contract missing"
  by (simp add: missing_def validate_status_contract_def)

lemma line_of_cells_valid: "po_line_valid (po_line_of cells)" "receipt_line_valid (receipt_line_of cells)"
  unfolding po_line_valid_def po_line_of_def receipt_line_valid_def receipt_line_of_def
  by (auto intro!: text_field_valid simp: amount_field_valid)

lemma wrap_row_valid:
  assumes "list_all po_line_valid (fst state)" and "ws \<noteq> []"
  shows "list_all po_line_valid (fst (wrap_row v ws row state))"
proof (cases state)
  case (fields lines bounds page y1)
  have "po_line_valid (last lines)" "list_all po_line_valid (butlast lines)" if "lines \<noteq> []"
    using assms(1) fields that by (auto simp: list_all_iff dest: in_set_butlastD)
  then show ?thesis using assms fields
    by (auto simp: wrap_row_def Let_def po_line_valid_def wrapped_description_def validate_status_contract_def)
qed

lemma po_row_step_valid:
  assumes "list_all po_line_valid (fst state)"
  shows "list_all po_line_valid (fst (po_row_step state row))"
proof -
  have "cells_of_row bounds row ''description'' \<noteq> []" if "words_text (cells_of_row bounds row ''description'') \<noteq> []" for bounds
    using that by auto
  with assms show ?thesis
    by (cases state) (auto simp: po_row_step_def Let_def line_of_cells_valid intro!: wrap_row_valid split: option.split)
qed

lemma ambiguous_number_valid: "list_all po_line_valid lines \<Longrightarrow> list_all po_line_valid (ambiguous_number i lines)"
  by (cases "i < length lines")
    (auto simp: ambiguous_number_def list_all_length nth_list_update po_line_valid_def validate_status_contract_def)

lemma duplicate_step_valid: "list_all po_line_valid (fst state) \<Longrightarrow> list_all po_line_valid (fst (duplicate_step state i))"
  by (auto simp: duplicate_step_def ambiguous_number_valid split: option.split prod.splits)

lemma purchase_order_rows_valid: "list_all po_line_valid (purchase_order_rows doc)"
  unfolding purchase_order_rows_def mark_duplicates_def
  by (rule foldl_invariant [where P = "\<lambda>s. list_all po_line_valid (fst s)"], unfold fst_conv,
      rule foldl_invariant [where P = "\<lambda>s. list_all po_line_valid (fst s)"])
    (simp_all add: po_row_step_valid duplicate_step_valid)

lemma receipt_rows_valid: "list_all receipt_line_valid (receipt_rows doc)"
  unfolding receipt_rows_def
  by (rule foldl_invariant [where P = "\<lambda>s. list_all receipt_line_valid (fst s)"])
    (auto simp: receipt_row_step_def Let_def line_of_cells_valid split: option.split)

text \<open>
  C26: Purchase orders and receipts are read into documents that satisfy their schema, whatever words they consist of:
  an extracted field has a value and evidence, a missing one has no value, in the header and in every line, also
  after lines were continued or their numbers were found to be ambiguous.
\<close>

theorem supporting_extract_valid:
  "po_valid (extract_purchase_order doc) \<and> receipt_valid (extract_goods_receipt doc)"
proof -
  have words: "\<forall>l \<in> set (reconstruct_lines doc). tl_words l \<noteq> []" by (simp add: line_words_nonempty)
  show ?thesis
    by (simp add: po_valid_def extract_purchase_order_def purchase_order_from_lines_def header_fields_valid [OF words] labelled_fields_valid [OF words]
        layout_identifier_valid purchase_order_rows_valid receipt_valid_def extract_goods_receipt_def extract_receipt_with_def Let_def receipt_rows_valid)
qed

subsection \<open>Line numbers\<close>

text \<open>Of the rows that were looked at, a number that is left belongs to the row that is remembered for it.\<close>

definition numbers_known :: "nat \<Rightarrow> extracted_po_line list \<times> (string \<times> nat) list \<Rightarrow> bool" where
  "numbers_known k = (\<lambda>(lines, known). k \<le> length lines
     \<and> (\<forall>i < k. \<forall>n. fvalue (xpl_line_number (lines ! i)) = Some n \<longrightarrow> map_of known n = Some i)
     \<and> (\<forall>n i. map_of known n = Some i \<longrightarrow> i < k))"

lemma length_ambiguous_number [simp]: "length (ambiguous_number i lines) = length lines"
  by (simp add: ambiguous_number_def)

lemma ambiguous_number_nth:
  "i < length lines \<Longrightarrow> fvalue (xpl_line_number (ambiguous_number j lines ! i)) = (if i = j then None else fvalue (xpl_line_number (lines ! i)))"
  by (simp add: ambiguous_number_def nth_list_update)

lemma length_duplicate_step: "length (fst (duplicate_step state i)) = length (fst state)"
  by (auto simp: duplicate_step_def split: option.split prod.splits)

lemma numbers_knownD:
  assumes "numbers_known k (lines, known)"
  shows "k \<le> length lines" and "i < k \<Longrightarrow> fvalue (xpl_line_number (lines ! i)) = Some n \<Longrightarrow> map_of known n = Some i"
    and "map_of known n = Some i \<Longrightarrow> i < k"
  using assms unfolding numbers_known_def by blast+

lemma duplicate_step_known:
  assumes "numbers_known k (lines, known)" and "k < length lines"
  shows "numbers_known (Suc k) (duplicate_step (lines, known) k)"
proof (cases "fvalue (xpl_line_number (lines ! k))")
  case None
  then have "duplicate_step (lines, known) k = (lines, known)" by (simp add: duplicate_step_def)
  moreover have "map_of known n = Some i" if "i < Suc k" "fvalue (xpl_line_number (lines ! i)) = Some n" for i n
    using that None numbers_knownD(2) [OF assms(1), of i n] by (cases "i = k") simp_all
  ultimately show ?thesis using numbers_knownD(3) [OF assms(1)] assms(2) by (auto simp: numbers_known_def intro: less_SucI)
next
  case (Some n)
  note number = Some
  show ?thesis
  proof (cases "map_of known n")
    case None
    with number have "duplicate_step (lines, known) k = (lines, (n, k) # known)" by (simp add: duplicate_step_def)
    moreover have "map_of ((n, k) # known) n' = Some i" if "i < Suc k" "fvalue (xpl_line_number (lines ! i)) = Some n'" for i n'
      using that None number numbers_knownD(2) [OF assms(1), of i n'] by (cases "i = k") auto
    ultimately show ?thesis using numbers_knownD(3) [OF assms(1)] assms(2) by (auto simp: numbers_known_def intro: less_SucI)
  next
    case (Some j)
    define marked where "marked = ambiguous_number k (ambiguous_number j lines)"
    from Some number have "duplicate_step (lines, known) k = (marked, known)" by (simp add: duplicate_step_def marked_def)
    moreover have "map_of known n' = Some i" if "i < Suc k" "fvalue (xpl_line_number (marked ! i)) = Some n'" for i n'
      using that assms(2) numbers_knownD(2) [OF assms(1), of i n']
      by (cases "i = k"; cases "i = j") (simp_all add: marked_def ambiguous_number_nth)
    ultimately show ?thesis using numbers_knownD(3) [OF assms(1)] assms(2) by (auto simp: numbers_known_def marked_def intro: less_SucI)
  qed
qed

lemma duplicates_known: "k \<le> length lines \<Longrightarrow> numbers_known k (foldl duplicate_step (lines, []) [0..<k])
    \<and> length (fst (foldl duplicate_step (lines, []) [0..<k])) = length lines"
proof (induction k)
  case (Suc k)
  obtain marked known where step: "foldl duplicate_step (lines, []) [0..<k] = (marked, known)" by (metis surj_pair)
  with Suc have "numbers_known k (marked, known)" "length marked = length lines" by simp_all
  with duplicate_step_known [of k marked known] length_duplicate_step [of "(marked, known)" k] Suc.prems step show ?case by simp
qed (simp add: numbers_known_def)

lemma distinct_map_filter_nth:
  assumes "\<And>i j v. i < length xs \<Longrightarrow> j < length xs \<Longrightarrow> f (xs ! i) = Some v \<Longrightarrow> f (xs ! j) = Some v \<Longrightarrow> i = j"
  shows "distinct (List.map_filter f xs)"
  using assms
proof (induction xs)
  case (Cons x xs)
  have "i = j" if "i < length xs" "j < length xs" "f (xs ! i) = Some v" "f (xs ! j) = Some v" for i j v
    using Cons.prems [of "Suc i" "Suc j" v] that by simp
  then have "distinct (List.map_filter f xs)" by (rule Cons.IH)
  moreover have "v \<notin> set (List.map_filter f xs)" if v: "f x = Some v" for v
  proof
    assume "v \<in> set (List.map_filter f xs)"
    then obtain y where "y \<in> set xs" "f y = Some v" unfolding map_filter_member by blast
    then obtain i where "i < length xs" "f (xs ! i) = Some v" by (auto simp: in_set_conv_nth)
    with Cons.prems [of 0 "Suc i" v] v show False by simp
  qed
  ultimately show ?case by (cases "f x") (simp_all add: List.map_filter_simps)
qed (simp add: List.map_filter_simps)

text \<open>
  C29: The line numbers of an extracted purchase order identify its lines: no two lines keep the same number, however often
  it was printed; a line that is read without one, or shares it, has no number value.
\<close>

theorem po_line_numbers_distinct:
  "distinct (List.map_filter (\<lambda>l. fvalue (xpl_line_number l)) (xpo_line_items (extract_purchase_order doc)))"
proof -
  define lines where "lines = fst (foldl po_row_step ([], [], - 1, Scaled 0 0) (reconstruct_visual_rows doc))"
  obtain marked known where step: "foldl duplicate_step (lines, []) [0..<length lines] = (marked, known)" by (metis surj_pair)
  with duplicates_known [of "length lines" lines] have known: "numbers_known (length lines) (marked, known)" "length marked = length lines" by simp_all
  have "distinct (List.map_filter (\<lambda>l. fvalue (xpl_line_number l)) marked)"
  proof (rule distinct_map_filter_nth)
    fix i j v
    assume "i < length marked" "j < length marked" "fvalue (xpl_line_number (marked ! i)) = Some v" "fvalue (xpl_line_number (marked ! j)) = Some v"
    with numbers_knownD(2) [OF known(1), of i v] numbers_knownD(2) [OF known(1), of j v] known(2) show "i = j" by simp
  qed
  moreover have "xpo_line_items (extract_purchase_order doc) = marked"
    by (simp add: extract_purchase_order_def purchase_order_from_lines_def purchase_order_rows_def mark_duplicates_def lines_def [symmetric] step)
  ultimately show ?thesis by simp
qed

subsection \<open>Header words that count twice\<close>

lemma header_segments_five:
  "header_segments [a, b, c, d, e] = [[a, b], [a], [b, c], [b], [c, d], [c], [d, e], [d], [e], [e]]"
  by (simp add: header_segments_def slice_def upt_rec)

text \<open>The columns a label names, and the anchors a segment adds.\<close>

definition columns_named :: "column_headers \<Rightarrow> string \<Rightarrow> string list" where
  "columns_named headers label = map fst (filter (\<lambda>(_, aliases). label \<in> set aliases) headers)"

definition add_anchor :: "pyfloat \<Rightarrow> (string \<times> pyfloat) list \<Rightarrow> string \<Rightarrow> (string \<times> pyfloat) list" where
  "add_anchor center anchors name = (if name \<in> fst ` set anchors then anchors else anchors @ [(name, center)])"

lemma note_headers:
  "foldl (note_anchor clean segment) anchors headers
     = foldl (add_anchor (segment_center segment)) anchors (columns_named headers (clean (map lower_char (words_text segment))))"
  by (induction headers arbitrary: anchors) (force simp: note_anchor_def add_anchor_def columns_named_def)+

lemma columns_of_five:
  "map (\<lambda>s. columns_named RECEIPT_HEADERS (map lower_char (normalize_whitespace s)))
       [''Item Received'', ''Item'', ''Received Qty'', ''Received'', ''Qty Accepted'', ''Qty'', ''Accepted Qty'', ''Accepted'']
     = [[], [''description''], [''received_quantity''], [''received_quantity''], [], [''accepted_quantity''], [''accepted_quantity''], [''accepted_quantity'']]"
  "map (\<lambda>s. columns_named PO_LINE_HEADERS (filter (\<lambda>c. c \<noteq> CHR ''.'') (map lower_char (normalize_whitespace s))))
       [''Item Qty'', ''Item'', ''Qty Rate'', ''Qty'', ''Rate Line'', ''Rate'', ''Line Total'', ''Line'', ''Total'']
     = [[], [''description''], [], [''quantity''], [], [''unit_price''], [''line_total''], [''line_number''], [''line_total'']]"
  by code_simp+

definition titled :: "(word_token \<times> string) list \<Rightarrow> visual_row \<Rightarrow> visual_row" where
  "titled ws row = row\<lparr>vr_words := map (\<lambda>(w, t). w\<lparr>wt_text := t\<rparr>) ws\<rparr>"

text \<open>
  A header of two words is counted once as a whole and once more by its second or first word. Below \<^verbatim>\<open>Received Qty\<close> the
  word \<^verbatim>\<open>Qty\<close> becomes the column of accepted quantities, and the column that is titled \<^verbatim>\<open>Accepted Qty\<close> is not one; in \<^verbatim>\<open>Line Total\<close>
  the word \<^verbatim>\<open>Line\<close> becomes a column of line numbers, wherever the words stand.
\<close>

theorem header_words_counted_twice:
  "receipt_header_anchors (titled [(a, ''Item''), (b, ''Received''), (c, ''Qty''), (d, ''Accepted''), (e, ''Qty'')] row)
     = Some [(''description'', horizontal_center (wt_bbox a)), (''received_quantity'', segment_center [b, c]),
         (''accepted_quantity'', horizontal_center (wt_bbox c))]
   \<and> po_header_anchors (titled [(a, ''Item''), (b, ''Qty''), (c, ''Rate''), (d, ''Line''), (e, ''Total'')] row)
     = Some [(''description'', horizontal_center (wt_bbox a)), (''quantity'', horizontal_center (wt_bbox b)),
         (''unit_price'', horizontal_center (wt_bbox c)), (''line_total'', segment_center [d, e]), (''line_number'', horizontal_center (wt_bbox d))]"
  using columns_of_five
  by (simp add: receipt_header_anchors_def po_header_anchors_def find_anchors_def titled_def header_segments_five note_headers
      words_text_def add_anchor_def segment_center_def Let_def)

end
