(* ===== verification/Hybrid.thy ===== *)
theory Hybrid
  imports Grounding
begin

text \<open>
  Fusion of the deterministic extraction with the candidates of a vision model: \<^verbatim>\<open>extraction/hybrid/\<close>
  \<^verbatim>\<open>router.py\<close>, \<^verbatim>\<open>row_association.py\<close> and \<^verbatim>\<open>fusion.py\<close>, with their part of \<^verbatim>\<open>schemas.py\<close>.
\<close>

subsection \<open>Candidates\<close>

record candidate_line_item =
  kl_description :: candidate_field
  kl_quantity :: candidate_field
  kl_unit_price :: candidate_field
  kl_line_total :: candidate_field

record vision_invoice_candidate =
  vc_invoice_number :: candidate_field
  vc_invoice_date :: candidate_field
  vc_currency :: candidate_field
  vc_subtotal :: candidate_field
  vc_tax :: candidate_field
  vc_total :: candidate_field
  vc_line_items :: "candidate_line_item list"

datatype fusion_outcome = DETERMINISTIC_ONLY | AGREEMENT | VLM_FILLED | DISAGREEMENT_ABSTAINED | UNGROUNDED_REJECTED

datatype routing_reason = CRITICAL_FIELD_MISSING | CRITICAL_FIELD_AMBIGUOUS | NO_LINE_ITEMS | INCOMPLETE_LINE_ITEMS
  | HEADER_ARITHMETIC_CONTRADICTION | LINE_ARITHMETIC_CONTRADICTION | OCR_HEAVY_DOCUMENT

record routing_decision =
  rd_invoke_vlm :: bool
  rd_reasons :: "routing_reason list"
  rd_deterministic_completeness :: pyfloat
  rd_critical_field_completeness :: pyfloat
  rd_complete_line_item_ratio :: pyfloat

subsection \<open>Routing\<close>

definition critical_statuses :: "invoice \<Rightarrow> extraction_status list" where
  "critical_statuses i = [fstatus (inv_invoice_number i), fstatus (inv_invoice_date i), fstatus (inv_currency i), fstatus (inv_total i)]"

definition line_statuses :: "invoice_line \<Rightarrow> extraction_status list" where
  "line_statuses l = [fstatus (il_description l), fstatus (il_quantity l), fstatus (il_unit_price l), fstatus (il_line_total l)]"

definition line_complete :: "invoice_line \<Rightarrow> bool" where
  "line_complete l = list_all (\<lambda>s. s = EXTRACTED) (line_statuses l)"

definition arithmetic_tolerance :: decimal where
  "arithmetic_tolerance = Scaled 2 (- 2)"

definition header_contradiction :: "invoice \<Rightarrow> bool" where
  "header_contradiction i =
     (case (extracted_value (inv_subtotal i), extracted_value (inv_tax i), extracted_value (inv_total i)) of
        (Some s, Some t, Some g) \<Rightarrow> dlt arithmetic_tolerance (dabs (dsub (dadd s t) g))
      | _ \<Rightarrow> False)"

definition line_contradiction :: "invoice_line \<Rightarrow> bool" where
  "line_contradiction l =
     (case (extracted_value (il_quantity l), extracted_value (il_unit_price l), extracted_value (il_line_total l)) of
        (Some q, Some u, Some g) \<Rightarrow> dlt arithmetic_tolerance (dabs (dsub (dmul q u) g))
      | _ \<Rightarrow> False)"

definition fratio :: "nat \<Rightarrow> nat \<Rightarrow> pyfloat" where
  "fratio n m = (case fdiv (Scaled (int n) 0) (Scaled (int m) 0) of None \<Rightarrow> Scaled 0 0 | Some x \<Rightarrow> x)"

definition count_if :: "('a \<Rightarrow> bool) \<Rightarrow> 'a list \<Rightarrow> nat" where
  "count_if P xs = length (filter P xs)"

definition ocr_heavy :: "document_text \<Rightarrow> bool" where
  "ocr_heavy doc =
     (dx_pages doc \<noteq> [] \<and> fle (Scaled 1 (- 1)) (fratio (count_if (\<lambda>p. pt_source p = OCR) (dx_pages doc)) (length (dx_pages doc))))"

definition route_extraction :: "invoice \<Rightarrow> document_text \<Rightarrow> routing_decision" where
  "route_extraction i doc =
     (let critical = critical_statuses i;
          reasons = (if MISSING \<in> set critical then [CRITICAL_FIELD_MISSING] else [])
            @ (if AMBIGUOUS \<in> set critical then [CRITICAL_FIELD_AMBIGUOUS] else [])
            @ (if inv_line_items i = [] then [NO_LINE_ITEMS]
               else if list_ex (\<lambda>l. \<not> line_complete l) (inv_line_items i) then [INCOMPLETE_LINE_ITEMS] else [])
            @ (if header_contradiction i then [HEADER_ARITHMETIC_CONTRADICTION] else [])
            @ (if list_ex line_contradiction (inv_line_items i) then [LINE_ARITHMETIC_CONTRADICTION] else [])
            @ (if ocr_heavy doc then [OCR_HEAVY_DOCUMENT] else []);
          slots = [fstatus (inv_invoice_number i), fstatus (inv_invoice_date i), fstatus (inv_currency i),
              fstatus (inv_subtotal i), fstatus (inv_tax i), fstatus (inv_total i)] @ concat (map line_statuses (inv_line_items i));
          extracted = (\<lambda>s. s = EXTRACTED);
          unique = dict_fromkeys reasons
      in \<lparr>rd_invoke_vlm = (unique \<noteq> []), rd_reasons = unique,
          rd_deterministic_completeness = fratio (count_if extracted slots) (length slots),
          rd_critical_field_completeness = fratio (count_if extracted critical) (length critical),
          rd_complete_line_item_ratio = (if inv_line_items i = [] then Scaled 0 0
            else fratio (count_if line_complete (inv_line_items i)) (length (inv_line_items i)))\<rparr>)"

subsection \<open>Association of rows\<close>

type_synonym row_cells = "(string \<times> grounding_result) list"

definition word_in_span :: "page_text \<Rightarrow> word_token \<Rightarrow> evidence_span \<Rightarrow> bool" where
  "word_in_span page w s =
     (let cx = fhalf (fadd (bb_x0 (wt_bbox w)) (bb_x1 (wt_bbox w))); cy = fhalf (fadd (bb_y0 (wt_bbox w)) (bb_y1 (wt_bbox w))) in
      ev_page s = pt_page page \<and> pt_page page = wt_page w \<and> wt_source w = ev_source s
      \<and> fle (bb_x0 (ev_bbox s)) cx \<and> fle cx (bb_x1 (ev_bbox s)) \<and> fle (bb_y0 (ev_bbox s)) cy \<and> fle cy (bb_y1 (ev_bbox s)))"

definition tokens :: "document_text \<Rightarrow> evidence_span list \<Rightarrow> (nat \<times> nat) set" where
  "tokens doc spans =
     set (concat (map (\<lambda>page. map (\<lambda>(i, w). (pt_page page, i))
       (filter (\<lambda>(i, w). list_ex (word_in_span page w) spans) (List.enumerate 0 (pt_words page)))) (dx_pages doc)))"

definition spans_overlap :: "evidence_span \<Rightarrow> evidence_span \<Rightarrow> bool" where
  "spans_overlap a b = (ev_page a = ev_page b
     \<and> flt (fmax [bb_y0 (ev_bbox a), bb_y0 (ev_bbox b)]) (fmin [bb_y1 (ev_bbox a), bb_y1 (ev_bbox b)]))"

definition row_spans :: "row_cells \<Rightarrow> evidence_span list" where
  "row_spans row = concat (map (\<lambda>(_, c). gr_evidence c) row)"

definition row_tokens :: "document_text \<Rightarrow> row_cells \<Rightarrow> (nat \<times> nat) set" where
  "row_tokens doc row = tokens doc (row_spans row)"

fun cells_share :: "'a set list \<Rightarrow> bool" where
  "cells_share [] = False"
| "cells_share (x # xs) = (list_ex (\<lambda>y. x \<inter> y \<noteq> {}) xs \<or> cells_share xs)"

text \<open>The float 0.06.\<close>

definition ROW_HEIGHT :: pyfloat where
  "ROW_HEIGHT = Scaled 8646911284551352 (- 57)"

definition row_anchor :: "invoice_line list \<Rightarrow> document_text \<Rightarrow> row_cells \<Rightarrow> evidence_span list \<Rightarrow> string \<times> nat option" where
  "row_anchor det doc row spans =
     (let evidence = (\<lambda>i. fevidence (il_description (det ! i)));
          matches = filter (\<lambda>i. tokens doc spans \<inter> tokens doc (evidence i) \<noteq> {}) [0..<length det];
          spatial = filter (\<lambda>i. list_ex (\<lambda>a. list_ex (spans_overlap a) (evidence i)) spans) [0..<length det];
          touched = list_ex (\<lambda>i. i \<notin> set matches \<and> list_ex (\<lambda>anchor. list_ex (\<lambda>cell. spans_overlap cell anchor) (row_spans row)) (evidence i))
            [0..<length det]
      in case matches of
           [] \<Rightarrow> (''candidate_only'', None)
         | [m] \<Rightarrow> if spatial = matches \<and> \<not> touched then (''associated'', Some m) else (''ambiguous_anchor'', None)
         | _ \<Rightarrow> (''ambiguous_anchor'', None))"

definition row_reason :: "invoice_line list \<Rightarrow> document_text \<Rightarrow> row_cells list \<Rightarrow> row_cells \<Rightarrow> string \<times> nat option" where
  "row_reason det doc rows row =
     (case map_of row ''description'' of
        None \<Rightarrow> (''anchor_missing'', None)
      | Some d \<Rightarrow>
          if \<not> grounded d then (''anchor_missing'', None)
          else let spans = gr_evidence d; all_spans = row_spans row in
            if list_ex (\<lambda>(_, c). \<not> grounded c) row then (''cell_ungrounded'', None)
            else if length (dict_fromkeys (map ev_page all_spans)) \<noteq> 1 \<or> spans = []
              \<or> flt ROW_HEIGHT (fsub (fmax (map (bb_y1 \<circ> ev_bbox) all_spans)) (fmin (map (bb_y0 \<circ> ev_bbox) all_spans)))
            then (''incoherent_geometry'', None)
            else if list_ex (\<lambda>s. \<not> list_ex (spans_overlap s) spans) all_spans then (''cross_row_cells'', None)
            else if \<exists>t \<in> row_tokens doc row. 1 < count_if (\<lambda>r. t \<in> row_tokens doc r) rows then (''reused_evidence'', None)
            else if cells_share (map (\<lambda>(_, c). tokens doc (gr_evidence c)) row) then (''reused_evidence'', None)
            else row_anchor det doc row spans)"

definition associate_rows ::
  "invoice_line list \<Rightarrow> row_cells list \<Rightarrow> document_text \<Rightarrow> (nat \<times> nat) list \<times> string list" where
  "associate_rows det rows doc =
     (let results = map (row_reason det doc rows) rows;
          proposals = List.map_filter (\<lambda>(i, _, p). map_option (\<lambda>m. (i, m)) p) (List.enumerate 0 results);
          unique = (\<lambda>m. count_if (\<lambda>(_, m'). m' = m) proposals = 1)
      in (map (\<lambda>(i, m). (m, i)) (filter (\<lambda>(_, m). unique m) proposals),
          map (\<lambda>(reason, p). case p of None \<Rightarrow> reason | Some m \<Rightarrow> if unique m then reason else ''ambiguous_anchor'') results))"

subsection \<open>Fusion\<close>

fun as_text :: "normalized_value \<Rightarrow> string option" where
  "as_text (NText s) = Some s"
| "as_text _ = None"

fun as_date :: "normalized_value \<Rightarrow> date option" where
  "as_date (NDate d) = Some d"
| "as_date _ = None"

fun as_decimal :: "normalized_value \<Rightarrow> decimal option" where
  "as_decimal (NDecimal d) = Some d"
| "as_decimal _ = None"

definition fuse_field ::
  "('a \<Rightarrow> 'a \<Rightarrow> bool) \<Rightarrow> (normalized_value \<Rightarrow> 'a option) \<Rightarrow> 'a extracted_field \<Rightarrow> grounding_result \<Rightarrow> fusion_outcome \<times> 'a extracted_field" where
  "fuse_field eq proj det g =
     (case (if grounded g then Option.bind (gr_normalized_value g) proj else None) of
        None \<Rightarrow> (UNGROUNDED_REJECTED, det)
      | Some v \<Rightarrow>
          if fstatus det = EXTRACTED
          then (if (case fvalue det of None \<Rightarrow> False | Some w \<Rightarrow> eq w v) then (AGREEMENT, det)
                else (DISAGREEMENT_ABSTAINED, \<lparr>fvalue = None, fstatus = AMBIGUOUS, fevidence = fevidence det @ gr_evidence g,
                   frule_id = Some ''fusion.invoice-vision-v1.disagreement''\<rparr>))
          else (VLM_FILLED, \<lparr>fvalue = Some v, fstatus = EXTRACTED, fevidence = gr_evidence g,
             frule_id = Some ''vlm.invoice-vision-v1.grounded''\<rparr>))"

text \<open>One header field: its field, its outcome and the reason of its grounding, if it was claimed.\<close>

definition fuse_header ::
  "('a \<Rightarrow> 'a \<Rightarrow> bool) \<Rightarrow> (normalized_value \<Rightarrow> 'a option) \<Rightarrow> fuzzy \<Rightarrow> document_text \<Rightarrow> string \<Rightarrow> 'a extracted_field \<Rightarrow> candidate_field
    \<Rightarrow> 'a extracted_field \<times> fusion_outcome \<times> grounding_reason option" where
  "fuse_header eq proj fz doc name det k =
     (if kf_raw_value k = None then (det, DETERMINISTIC_ONLY, None)
      else let g = ground_candidate fz name k doc; (outcome, f) = fuse_field eq proj det g in (f, outcome, Some (gr_reason g)))"

definition candidate_cells :: "fuzzy \<Rightarrow> document_text \<Rightarrow> candidate_line_item \<Rightarrow> row_cells" where
  "candidate_cells fz doc k =
     map (\<lambda>(name, f). (name, ground_candidate fz name f doc))
       (filter (\<lambda>(name, f). kf_raw_value f \<noteq> None)
         [(''description'', kl_description k), (''quantity'', kl_quantity k), (''unit_price'', kl_unit_price k), (''line_total'', kl_line_total k)])"

definition fuse_cell ::
  "('a \<Rightarrow> 'a \<Rightarrow> bool) \<Rightarrow> (normalized_value \<Rightarrow> 'a option) \<Rightarrow> string \<Rightarrow> 'a extracted_field \<Rightarrow> row_cells option
    \<Rightarrow> 'a extracted_field \<times> fusion_outcome \<times> grounding_reason option" where
  "fuse_cell eq proj name det row =
     (case Option.bind row (\<lambda>r. map_of r name) of
        None \<Rightarrow> (det, DETERMINISTIC_ONLY, None)
      | Some g \<Rightarrow> let (outcome, f) = fuse_field eq proj det g in (f, outcome, Some (gr_reason g)))"

definition fuse_line :: "invoice_line \<Rightarrow> row_cells option \<Rightarrow> invoice_line \<times> (string \<times> fusion_outcome \<times> grounding_reason option) list" where
  "fuse_line l row =
     (let (d, d') = fuse_cell (=) as_text ''description'' (il_description l) row;
          (q, q') = fuse_cell deq as_decimal ''quantity'' (il_quantity l) row;
          (u, u') = fuse_cell deq as_decimal ''unit_price'' (il_unit_price l) row;
          (t, t') = fuse_cell deq as_decimal ''line_total'' (il_line_total l) row
      in (\<lparr>il_description = d, il_quantity = q, il_unit_price = u, il_line_total = t\<rparr>,
          [(''description'', d'), (''quantity'', q'), (''unit_price'', u'), (''line_total'', t')]))"

record fusion_result =
  fu_invoice :: invoice
  fu_outcomes :: "(string \<times> fusion_outcome) list"
  fu_grounding :: "(string \<times> grounding_reason) list"
  fu_row_reasons :: "string list"
  fu_row_associations :: "(nat \<times> nat) list"

definition index_text :: "nat \<Rightarrow> string" where
  "index_text i = nat_digits (int i)"

definition fuse_invoice :: "fuzzy \<Rightarrow> invoice \<Rightarrow> vision_invoice_candidate \<Rightarrow> document_text \<Rightarrow> fusion_result" where
  "fuse_invoice fz det k doc =
     (let (n, n') = fuse_header (=) as_text fz doc ''invoice_number'' (inv_invoice_number det) (vc_invoice_number k);
          (d, d') = fuse_header (=) as_date fz doc ''invoice_date'' (inv_invoice_date det) (vc_invoice_date k);
          (c, c') = fuse_header (=) as_text fz doc ''currency'' (inv_currency det) (vc_currency k);
          (s, s') = fuse_header deq as_decimal fz doc ''subtotal'' (inv_subtotal det) (vc_subtotal k);
          (x, x') = fuse_header deq as_decimal fz doc ''tax'' (inv_tax det) (vc_tax k);
          (t, t') = fuse_header deq as_decimal fz doc ''total'' (inv_total det) (vc_total k);
          rows = map (candidate_cells fz doc) (vc_line_items k);
          (associations, reasons) = associate_rows (inv_line_items det) rows doc;
          unresolved = (list_ex (\<lambda>r. r \<noteq> ''associated'') reasons
            \<or> inv_line_items det \<noteq> [] \<and> length associations \<noteq> length (inv_line_items det));
          issues = inv_extraction_issues det;
          fused = map (\<lambda>(i, l). fuse_line l (map_option ((!) rows) (map_of associations i))) (List.enumerate 0 (inv_line_items det));
          notes = [(''invoice_number'', n'), (''invoice_date'', d'), (''currency'', c'), (''subtotal'', s'), (''tax'', x'), (''total'', t')]
            @ concat (map (\<lambda>(i, _, cells). map (\<lambda>(name, note). (''line_items.'' @ index_text i @ ''.'' @ name, note)) cells)
                (List.enumerate 0 fused))
      in \<lparr>fu_invoice = \<lparr>inv_extraction_issues = (if unresolved \<and> HYBRID_ROW_ASSOCIATION_UNRESOLVED \<notin> set issues
               then issues @ [HYBRID_ROW_ASSOCIATION_UNRESOLVED] else issues),
             inv_invoice_number = n, inv_invoice_date = d, inv_currency = c, inv_subtotal = s, inv_tax = x, inv_total = t,
             inv_line_items = map fst fused\<rparr>,
          fu_outcomes = map (\<lambda>(path, outcome, _). (path, outcome)) notes,
          fu_grounding = List.map_filter (\<lambda>(path, _, g). map_option (\<lambda>r. (path, r)) g) notes
            @ concat (map (\<lambda>(i, row). map (\<lambda>(name, g). (''candidate_rows.'' @ index_text i @ ''.'' @ name, gr_reason g)) row)
                (List.enumerate 0 rows)),
          fu_row_reasons = reasons, fu_row_associations = associations\<rparr>)"

subsection \<open>What fusion may put into an invoice\<close>

text \<open>
  A fused field is the deterministic one, or it has lost its value because a value that stands in the document
  disagreed with it, or it was not extracted and holds a value that stands in the document. Decimals agree
  when they have the same value, however they are written.
\<close>

fun values_agree :: "normalized_value \<Rightarrow> normalized_value \<Rightarrow> bool" where
  "values_agree (NDecimal a) (NDecimal b) = deq a b"
| "values_agree a b = (a = b)"

definition field_supported ::
  "('a \<Rightarrow> normalized_value) \<Rightarrow> document_text \<Rightarrow> string \<Rightarrow> 'a extracted_field \<Rightarrow> 'a extracted_field \<Rightarrow> bool" where
  "field_supported con doc name det f \<longleftrightarrow>
     f = det
     \<or> (fstatus det = EXTRACTED \<and> fstatus f = AMBIGUOUS \<and> fvalue f = None
        \<and> (\<exists>p v ev. p < length (dx_pages doc) \<and> value_at name (ordered_words (dx_pages doc ! p)) (con v) ev
            \<and> fevidence f = fevidence det @ ev \<and> (\<forall>w. fvalue det = Some w \<longrightarrow> \<not> values_agree (con w) (con v))))
     \<or> (fstatus det \<noteq> EXTRACTED \<and> fstatus f = EXTRACTED
        \<and> (\<exists>p v. p < length (dx_pages doc) \<and> fvalue f = Some v \<and> value_at name (ordered_words (dx_pages doc ! p)) (con v) (fevidence f)))"

definition line_supported :: "document_text \<Rightarrow> invoice_line \<Rightarrow> invoice_line \<Rightarrow> bool" where
  "line_supported doc det l \<longleftrightarrow>
     field_supported NText doc ''description'' (il_description det) (il_description l)
     \<and> field_supported NDecimal doc ''quantity'' (il_quantity det) (il_quantity l)
     \<and> field_supported NDecimal doc ''unit_price'' (il_unit_price det) (il_unit_price l)
     \<and> field_supported NDecimal doc ''line_total'' (il_line_total det) (il_line_total l)"

definition invoice_supported :: "document_text \<Rightarrow> invoice \<Rightarrow> invoice \<Rightarrow> bool" where
  "invoice_supported doc det i \<longleftrightarrow>
     field_supported NText doc ''invoice_number'' (inv_invoice_number det) (inv_invoice_number i)
     \<and> field_supported NDate doc ''invoice_date'' (inv_invoice_date det) (inv_invoice_date i)
     \<and> field_supported NText doc ''currency'' (inv_currency det) (inv_currency i)
     \<and> field_supported NDecimal doc ''subtotal'' (inv_subtotal det) (inv_subtotal i)
     \<and> field_supported NDecimal doc ''tax'' (inv_tax det) (inv_tax i)
     \<and> field_supported NDecimal doc ''total'' (inv_total det) (inv_total i)
     \<and> list_all2 (line_supported doc) (inv_line_items det) (inv_line_items i)"

text \<open>The comparison and the projection of a field are those of its kind of value.\<close>

definition compares :: "('a \<Rightarrow> 'a \<Rightarrow> bool) \<Rightarrow> (normalized_value \<Rightarrow> 'a option) \<Rightarrow> ('a \<Rightarrow> normalized_value) \<Rightarrow> bool" where
  "compares eq proj con \<longleftrightarrow> (\<forall>nv v. proj nv = Some v \<longrightarrow> nv = con v) \<and> (\<forall>v w. eq w v \<longleftrightarrow> values_agree (con w) (con v))"

lemma compares_as [simp]: "compares (=) as_text NText" "compares (=) as_date NDate" "compares deq as_decimal NDecimal"
  by (auto simp: compares_def elim: as_text.elims as_date.elims as_decimal.elims)

lemma field_supported_same [simp]: "field_supported con doc name f f"
  by (simp add: field_supported_def)

lemma fuse_field_supported:
  assumes "compares eq proj con"
  shows "field_supported con doc name det (snd (fuse_field eq proj det (ground_candidate fz name k doc)))"
proof -
  define g where "g = ground_candidate fz name k doc"
  show ?thesis
  proof (cases "if grounded g then Option.bind (gr_normalized_value g) proj else None")
    case None
    then show ?thesis by (simp add: fuse_field_def flip: g_def)
  next
    case (Some v)
    then have gr: "grounded g" by (simp split: if_splits)
    then obtain nv where nv: "gr_normalized_value g = Some nv" "proj nv = Some v"
      using Some by (cases "gr_normalized_value g") auto
    obtain p where p: "p < length (dx_pages doc)" "value_at name (ordered_words (dx_pages doc ! p)) nv (gr_evidence g)"
      using grounded_value_in_source [of fz name k doc] gr nv(1) unfolding g_def by auto
    have nv': "nv = con v" and eq: "eq w v \<longleftrightarrow> values_agree (con w) (con v)" for w
      using assms nv(2) by (simp_all add: compares_def)
    consider (agree) "fuse_field eq proj det g = (AGREEMENT, det)"
      | (abstain) "fstatus det = EXTRACTED" "\<forall>w. fvalue det = Some w \<longrightarrow> \<not> eq w v"
          "snd (fuse_field eq proj det g) = \<lparr>fvalue = None, fstatus = AMBIGUOUS, fevidence = fevidence det @ gr_evidence g,
             frule_id = Some ''fusion.invoice-vision-v1.disagreement''\<rparr>"
      | (filled) "fstatus det \<noteq> EXTRACTED" "snd (fuse_field eq proj det g) = \<lparr>fvalue = Some v, fstatus = EXTRACTED,
             fevidence = gr_evidence g, frule_id = Some ''vlm.invoice-vision-v1.grounded''\<rparr>"
      using Some by (cases "fstatus det = EXTRACTED"; cases "case fvalue det of None \<Rightarrow> False | Some w \<Rightarrow> eq w v")
        (auto simp: fuse_field_def split: option.splits)
    then show ?thesis
    proof cases
      case abstain
      with p eq show ?thesis unfolding g_def [symmetric] nv' field_supported_def by auto
    next
      case filled
      with p show ?thesis unfolding g_def [symmetric] nv' field_supported_def by auto
    qed (simp flip: g_def)
  qed
qed

lemma fuse_header_supported:
  "compares eq proj con \<Longrightarrow> field_supported con doc name det (fst (fuse_header eq proj fz doc name det k))"
  using fuse_field_supported [of eq proj con doc name det fz k] by (auto simp: fuse_header_def Let_def split: prod.split)

lemma fuse_cell_supported:
  assumes "compares eq proj con"
  shows "field_supported con doc name det (fst (fuse_cell eq proj name det (map_option (candidate_cells fz doc) k)))"
proof (cases "Option.bind (map_option (candidate_cells fz doc) k) (\<lambda>r. map_of r name)")
  case None
  then show ?thesis by (simp add: fuse_cell_def)
next
  case (Some g)
  then obtain c where "map_of (candidate_cells fz doc c) name = Some g" by (cases k) auto
  then obtain f where g: "g = ground_candidate fz name f doc" by (auto simp: candidate_cells_def dest!: map_of_SomeD)
  show ?thesis
    using fuse_field_supported [OF assms, of doc name det fz f] Some
    by (auto simp: fuse_cell_def Let_def g split: prod.split)
qed

lemma fuse_line_supported: "line_supported doc l (fst (fuse_line l (map_option (candidate_cells fz doc) k)))"
  by (simp add: fuse_line_def line_supported_def Let_def fuse_cell_supported split: prod.split)
    (metis fuse_cell_supported compares_as fst_conv)

lemma associations_bound:
  assumes "(m, i) \<in> set (fst (associate_rows det rows doc))"
  shows "i < length rows \<and> snd (row_reason det doc rows (rows ! i)) = Some m"
  using assms
  by (auto simp: associate_rows_def Let_def map_filter_def in_set_enumerate_eq split: option.splits)

lemma associated_row:
  "map_option ((!) (map f ks)) (map_of (fst (associate_rows det (map f ks) doc)) m)
    = map_option f (map_option ((!) ks) (map_of (fst (associate_rows det (map f ks) doc)) m))"
proof (cases "map_of (fst (associate_rows det (map f ks) doc)) m")
  case (Some i)
  then have "i < length ks" using associations_bound [of m i det "map f ks" doc] by (auto dest: map_of_SomeD)
  with Some show ?thesis by simp
qed simp

lemma fuse_invoice_supported: "invoice_supported doc det (fu_invoice (fuse_invoice fz det k doc))"
proof -
  let ?rows = "map (candidate_cells fz doc) (vc_line_items k)"
  have "list_all2 (line_supported doc) (inv_line_items det)
      (map fst (map (\<lambda>(i, l). fuse_line l (map_option ((!) ?rows) (map_of (fst (associate_rows (inv_line_items det) ?rows doc)) i)))
        (List.enumerate 0 (inv_line_items det))))"
    by (simp add: list_all2_conv_all_nth nth_enumerate_eq associated_row fuse_line_supported)
  then have lines: "list_all2 (line_supported doc) (inv_line_items det) (inv_line_items (fu_invoice (fuse_invoice fz det k doc)))"
    by (auto simp: fuse_invoice_def Let_def split: prod.split)
  show ?thesis
    unfolding invoice_supported_def
    by (intro conjI lines; simp add: fuse_invoice_def Let_def split: prod.split) (metis fst_conv fuse_header_supported compares_as)+
qed

lemma supported_contract: "field_supported con doc name det f \<Longrightarrow> validate_status_contract det \<Longrightarrow> validate_status_contract f"
  by (auto simp: field_supported_def validate_status_contract_def dest: value_at_evidence)

lemma supported_line_valid: "line_supported doc det l \<Longrightarrow> invoice_line_valid det \<Longrightarrow> invoice_line_valid l"
  by (auto simp: line_supported_def invoice_line_valid_def intro: supported_contract)

lemma supported_lines_valid: "list_all2 (line_supported doc) xs ys \<Longrightarrow> list_all invoice_line_valid xs \<Longrightarrow> list_all invoice_line_valid ys"
  by (induction rule: list_all2_induct) (auto intro: supported_line_valid)

lemma supported_valid: "invoice_supported doc det i \<Longrightarrow> invoice_valid det \<Longrightarrow> invoice_valid i"
  by (auto simp: invoice_supported_def invoice_valid_def intro: supported_contract supported_lines_valid)

text \<open>
  C15: a vision model cannot make up or overwrite a value. Whatever candidates it returns, every field of
  the fused invoice, line by line in the same order, is the deterministic one, or gave up its value because
  another value that stands in consecutive words of a page disagrees with it, or was not extracted before and now
  holds a value that stands in consecutive words of a page, with these words as its evidence; and the fused invoice satisfies the
  schema when the deterministic one does.
\<close>

theorem fusion_supported:
  "invoice_supported doc det (fu_invoice (fuse_invoice fz det k doc))
   \<and> (invoice_valid det \<longrightarrow> invoice_valid (fu_invoice (fuse_invoice fz det k doc)))"
  using fuse_invoice_supported supported_valid by blast

subsection \<open>Rows are associated one to one\<close>

lemma filter_upt_singleton: "filter P [0..<n] = [m] \<Longrightarrow> m < n \<and> (\<forall>j < n. P j \<longleftrightarrow> j = m)"
proof -
  assume "filter P [0..<n] = [m]"
  then have "set (filter P [0..<n]) = {m}" by simp
  then have "{i. i < n \<and> P i} = {m}" by auto
  then show ?thesis by blast
qed

text \<open>
  A candidate row and its line: every cell is grounded, the cells are on one page, within the height of a row, at the
  height of the description, and share no word; the description shares a word with the description of this line and
  of no other, stands at the height of the description of this line and of no other, and no cell stands at the
  height of the description of another line; and no other candidate row uses a word of this one.
\<close>

definition well_associated :: "invoice_line list \<Rightarrow> row_cells list \<Rightarrow> document_text \<Rightarrow> nat \<times> nat \<Rightarrow> bool" where
  "well_associated det rows doc = (\<lambda>(m, i). m < length det \<and> i < length rows
     \<and> list_all (\<lambda>(_, c). grounded c) (rows ! i)
     \<and> (case map_of (rows ! i) ''description'' of
          None \<Rightarrow> False
        | Some d \<Rightarrow>
            let spans = gr_evidence d; cells = row_spans (rows ! i); evidence = (\<lambda>j. fevidence (il_description (det ! j))) in
            length (dict_fromkeys (map ev_page cells)) = 1
            \<and> \<not> flt ROW_HEIGHT (fsub (fmax (map (bb_y1 \<circ> ev_bbox) cells)) (fmin (map (bb_y0 \<circ> ev_bbox) cells)))
            \<and> list_all (\<lambda>s. list_ex (spans_overlap s) spans) cells
            \<and> \<not> cells_share (map (\<lambda>(_, c). tokens doc (gr_evidence c)) (rows ! i))
            \<and> list_all (\<lambda>j. (tokens doc spans \<inter> tokens doc (evidence j) \<noteq> {}) = (j = m)
                \<and> list_ex (\<lambda>a. list_ex (spans_overlap a) (evidence j)) spans = (j = m)
                \<and> (j = m \<or> \<not> list_ex (\<lambda>anchor. list_ex (\<lambda>cell. spans_overlap cell anchor) cells) (evidence j))) [0..<length det])
     \<and> list_all (\<lambda>j. j = i \<or> row_tokens doc (rows ! i) \<inter> row_tokens doc (rows ! j) = {}) [0..<length rows])"

lemma row_anchor_associated:
  assumes "snd (row_anchor det doc row spans) = Some m"
  defines "evidence \<equiv> (\<lambda>j. fevidence (il_description (det ! j)))"
  shows "m < length det
    \<and> list_all (\<lambda>j. (tokens doc spans \<inter> tokens doc (evidence j) \<noteq> {}) = (j = m)
        \<and> list_ex (\<lambda>a. list_ex (spans_overlap a) (evidence j)) spans = (j = m)
        \<and> (j = m \<or> \<not> list_ex (\<lambda>anchor. list_ex (\<lambda>cell. spans_overlap cell anchor) (row_spans row)) (evidence j))) [0..<length det]"
proof -
  define P where "P = (\<lambda>i. tokens doc spans \<inter> tokens doc (evidence i) \<noteq> {})"
  define Q where "Q = (\<lambda>i. list_ex (\<lambda>a. list_ex (spans_overlap a) (evidence i)) spans)"
  define T where "T = (\<lambda>i. list_ex (\<lambda>anchor. list_ex (\<lambda>cell. spans_overlap cell anchor) (row_spans row)) (evidence i))"
  have anchor: "row_anchor det doc row spans = (case filter P [0..<length det] of
         [] \<Rightarrow> (''candidate_only'', None)
       | [m] \<Rightarrow> if filter Q [0..<length det] = filter P [0..<length det]
             \<and> \<not> list_ex (\<lambda>i. i \<notin> set (filter P [0..<length det]) \<and> T i) [0..<length det]
           then (''associated'', Some m) else (''ambiguous_anchor'', None)
       | _ \<Rightarrow> (''ambiguous_anchor'', None))"
    unfolding row_anchor_def Let_def P_def Q_def T_def evidence_def by (rule refl)
  have "filter P [0..<length det] = [m]"
    using assms(1) unfolding anchor by (cases "filter P [0..<length det]" rule: remdups_adj.cases) (auto split: if_splits)
  moreover from this have "filter Q [0..<length det] = [m] \<and> \<not> list_ex (\<lambda>i. i \<noteq> m \<and> T i) [0..<length det]"
    using assms(1) unfolding anchor by (simp split: if_splits)
  ultimately have "filter P [0..<length det] = [m] \<and> filter Q [0..<length det] = [m]
      \<and> \<not> list_ex (\<lambda>i. i \<noteq> m \<and> T i) [0..<length det]" by blast
  then have m: "m < length det" "\<forall>j < length det. P j \<longleftrightarrow> j = m" "\<forall>j < length det. Q j \<longleftrightarrow> j = m"
    "\<forall>j < length det. j = m \<or> \<not> T j"
    using filter_upt_singleton [of P "length det" m] filter_upt_singleton [of Q "length det" m] by (auto simp: list_ex_iff)
  then show ?thesis unfolding P_def Q_def T_def by (simp add: list_all_iff)
qed

lemma count_two:
  assumes "i < length xs" and "j < length xs" and "i \<noteq> j" and "P (xs ! i)" and "P (xs ! j)"
  shows "1 < count_if P xs"
proof -
  have "card {i, j} \<le> card {k. k < length xs \<and> P (xs ! k)}" using assms by (intro card_mono) auto
  then show ?thesis using assms(3) by (simp add: count_if_def length_filter_conv_card)
qed

lemma row_reason_associated:
  assumes "snd (row_reason det doc rows (rows ! i)) = Some m" and "i < length rows"
  shows "well_associated det rows doc (m, i)"
proof -
  let ?row = "rows ! i"
  obtain d where d: "map_of ?row ''description'' = Some d" using assms(1) by (auto simp: row_reason_def split: option.splits)
  have row: "list_all (\<lambda>(_, c). grounded c) ?row" "\<forall>t \<in> row_tokens doc ?row. \<not> 1 < count_if (\<lambda>r. t \<in> row_tokens doc r) rows"
      "snd (row_anchor det doc ?row (gr_evidence d)) = Some m"
    and geometry: "length (dict_fromkeys (map ev_page (row_spans ?row))) = 1"
      "\<not> flt ROW_HEIGHT (fsub (fmax (map (bb_y1 \<circ> ev_bbox) (row_spans ?row))) (fmin (map (bb_y0 \<circ> ev_bbox) (row_spans ?row))))"
      "list_all (\<lambda>s. list_ex (spans_overlap s) (gr_evidence d)) (row_spans ?row)"
      "\<not> cells_share (map (\<lambda>(_, c). tokens doc (gr_evidence c)) ?row)"
    using assms(1) d by (auto simp: row_reason_def Let_def list_all_iff list_ex_iff split: if_splits)
  have "row_tokens doc ?row \<inter> row_tokens doc (rows ! j) = {}" if "j < length rows" "j \<noteq> i" for j
    using row(2) count_two [OF assms(2) that(1), of "\<lambda>r. _ \<in> row_tokens doc r"] that(2) by blast
  then have disjoint: "list_all (\<lambda>j. j = i \<or> row_tokens doc ?row \<inter> row_tokens doc (rows ! j) = {}) [0..<length rows]"
    unfolding list_all_iff by (metis atLeastLessThan_iff set_upt)
  show ?thesis
    unfolding well_associated_def Let_def
    using d assms(2) row(1) geometry disjoint row_anchor_associated [OF row(3)] by simp
qed

lemma proposals_sorted:
  "distinct (map fst (List.map_filter (\<lambda>(i, _, p). map_option (\<lambda>m. (i, m)) p) (List.enumerate k xs)))"
proof -
  have "map fst (List.map_filter (\<lambda>(i, _, p). map_option (\<lambda>m. (i, m)) p) (List.enumerate k xs))
      = map fst (filter (\<lambda>(i, _, p). p \<noteq> None) (List.enumerate k xs))"
    by (induction xs arbitrary: k) (auto simp: map_filter_simps)
  then show ?thesis by (simp add: distinct_map_filter)
qed

lemma distinct_unique_values:
  assumes "distinct (map fst ps)"
  shows "distinct (map snd (filter (\<lambda>(_, m). count_if (\<lambda>(_, m'). m' = m) ps = 1) ps))"
proof -
  have "snd x \<noteq> snd y" if xy: "x \<in> set ps" "y \<in> set ps" "x \<noteq> y" "count_if (\<lambda>(_, m'). m' = snd x) ps = 1" for x y
  proof
    assume eq: "snd x = snd y"
    obtain a b where "a < length ps" "ps ! a = x" "b < length ps" "ps ! b = y" using xy(1,2) by (metis in_set_conv_nth)
    then show False using count_two [of a ps b "\<lambda>(_, m'). m' = snd x"] xy(3,4) eq by (auto simp: case_prod_beta)
  qed
  then have "inj_on snd (set (filter (\<lambda>(_, m). count_if (\<lambda>(_, m'). m' = m) ps = 1) ps))"
    by (fastforce simp: inj_on_def)
  moreover have "distinct ps" using assms by (simp add: distinct_map)
  ultimately show ?thesis by (simp add: distinct_map)
qed

text \<open>
  C38: rows are associated one to one and by evidence. Every association pairs one candidate row with one
  deterministic line; all cells of the row are grounded, on one page and at the height of its description, its
  description shares words of the page with, and stands at the height of, the description of this line and of no
  other line, no cell stands at the height of another line's description, and no word is evidence of two cells of
  the row or of two candidate rows.
\<close>

theorem rows_associated_by_evidence:
  "let associations = fst (associate_rows det rows doc) in
   distinct (map fst associations) \<and> distinct (map snd associations) \<and> list_all (well_associated det rows doc) associations"
proof -
  let ?as = "fst (associate_rows det rows doc)"
  define ps where "ps = List.map_filter (\<lambda>(i, _, p). map_option (\<lambda>m. (i, m)) p) (List.enumerate 0 (map (row_reason det doc rows) rows))"
  have as: "?as = map (\<lambda>(i, m). (m, i)) (filter (\<lambda>(_, m). count_if (\<lambda>(_, m'). m' = m) ps = 1) ps)"
    by (simp add: associate_rows_def Let_def ps_def)
  have dist: "distinct (map fst ps)" unfolding ps_def by (rule proposals_sorted)
  have "map fst ?as = map snd (filter (\<lambda>(_, m). count_if (\<lambda>(_, m'). m' = m) ps = 1) ps)"
    "map snd ?as = map fst (filter (\<lambda>(_, m). count_if (\<lambda>(_, m'). m' = m) ps = 1) ps)"
    by (auto simp: as)
  then have "distinct (map fst ?as)" "distinct (map snd ?as)"
    using distinct_unique_values [OF dist] dist by (simp_all add: distinct_map_filter)
  moreover have "list_all (well_associated det rows doc) ?as"
    using associations_bound row_reason_associated by (fastforce simp: list_all_iff)
  ultimately show ?thesis by (simp add: Let_def)
qed

subsection \<open>A document\<close>

definition sample_word :: "nat \<Rightarrow> string \<Rightarrow> word_token" where
  "sample_word n t = \<lparr>wt_text = t, wt_page = 0, wt_bbox = \<lparr>bb_x0 = Scaled (int n) (- 4), bb_y0 = Scaled 1 (- 3), bb_x1 = Scaled (int n + 1) (- 4), bb_y1 = Scaled 1 (- 2)\<rparr>,
     wt_block_number = 0, wt_line_number = 0, wt_word_number = n, wt_source = EMBEDDED\<rparr>"

definition sample_document_text :: document_text where
  "sample_document_text = \<lparr>dx_pages = [\<lparr>pt_page = 0, pt_width = Scaled 1 0, pt_height = Scaled 1 0, pt_source = EMBEDDED,
     pt_words = [sample_word 0 ''Invoice'', sample_word 1 ''INV-7'', sample_word 2 ''total'', sample_word 3 ''1,250.00'']\<rparr>], dx_used_ocr = False\<rparr>"

definition missing_field :: "'a extracted_field" where
  "missing_field = \<lparr>fvalue = None, fstatus = MISSING, fevidence = [], frule_id = None\<rparr>"

definition sample_baseline :: invoice where
  "sample_baseline = \<lparr>inv_extraction_issues = [], inv_invoice_number = missing_field, inv_invoice_date = missing_field,
     inv_currency = missing_field, inv_subtotal = missing_field, inv_tax = missing_field, inv_total = missing_field, inv_line_items = []\<rparr>"

definition no_candidate :: candidate_field where
  "no_candidate = \<lparr>kf_raw_value = None, kf_page = None, kf_evidence_quote = None\<rparr>"

definition sample_candidate :: vision_invoice_candidate where
  "sample_candidate = \<lparr>
     vc_invoice_number = \<lparr>kf_raw_value = Some ''INV-7'', kf_page = Some 0, kf_evidence_quote = Some ''invoice inv-7''\<rparr>,
     vc_invoice_date = no_candidate, vc_currency = no_candidate, vc_subtotal = no_candidate, vc_tax = no_candidate,
     vc_total = \<lparr>kf_raw_value = Some ''1250.0'', kf_page = Some 0, kf_evidence_quote = Some ''Total 1,250.00''\<rparr>, vc_line_items = []\<rparr>"

definition no_fuzzy :: fuzzy where
  "no_fuzzy = \<lparr>fz_ratio = (\<lambda>_ _. Scaled 0 0), fz_threshold = Scaled 92 0\<rparr>"

theorem fusion_supported_witness:
  "invoice_valid (fu_invoice (fuse_invoice no_fuzzy sample_baseline sample_candidate sample_document_text))"
proof -
  have "invoice_valid sample_baseline"
    by (simp add: invoice_valid_def sample_baseline_def missing_field_def validate_status_contract_def)
  then show ?thesis using fusion_supported [of sample_document_text sample_baseline no_fuzzy sample_candidate] by blast
qed

end
