(* ===== verification/Supporting_Fusion.thy ===== *)
theory Supporting_Fusion
  imports Supporting Hybrid
begin

text \<open>
  \<^verbatim>\<open>extraction/supporting_quote_grounding.py\<close> and \<^verbatim>\<open>supporting_hybrid.py\<close>: when a vision model is asked for a purchase order or
  a receipt, and what of its answer is taken. A quote is located on a page, the value has to stand in the quote,
  and the cells of a line have to stand in one row below their column titles.
\<close>

subsection \<open>Candidates and routes\<close>

datatype supporting_route_reason = ROUTE_FIELD_MISSING | ROUTE_FIELD_AMBIGUOUS | ROUTE_INCOMPLETE_LINE_ITEMS | ROUTE_NO_LINE_ITEMS
  | ROUTE_TOTAL_CONFLICT | ROUTE_QUANTITY_ASSOCIATION_INCOMPLETE | ROUTE_OCR_REQUIRED_FIELD

record po_line_candidate =
  plk_line_number :: candidate_field
  plk_description :: candidate_field
  plk_ordered_quantity :: candidate_field
  plk_unit_price :: candidate_field
  plk_line_total :: candidate_field

record po_candidate =
  pok_po_number :: candidate_field
  pok_issue_date :: candidate_field
  pok_vendor :: candidate_field
  pok_buyer :: candidate_field
  pok_currency :: candidate_field
  pok_subtotal :: candidate_field
  pok_tax :: candidate_field
  pok_total :: candidate_field
  pok_line_items :: "po_line_candidate list"

record receipt_line_candidate =
  rlk_description :: candidate_field
  rlk_received_quantity :: candidate_field
  rlk_accepted_quantity :: candidate_field
  rlk_rejected_quantity :: candidate_field

record receipt_candidate =
  rck_receipt_number :: candidate_field
  rck_referenced_po_number :: candidate_field
  rck_received_date :: candidate_field
  rck_supplier :: candidate_field
  rck_line_items :: "receipt_line_candidate list"

text \<open>A candidate for a delivery note has the fields of one for a receipt.\<close>

datatype supporting_candidate = PoCandidate po_candidate | ReceiptCandidate receipt_candidate

definition required_statuses :: "supporting_output \<Rightarrow> extraction_status list" where
  "required_statuses out =
     (case out of
        OutputPO x \<Rightarrow> [fstatus (xpo_po_number x), fstatus (xpo_issue_date x), fstatus (xpo_currency x)]
      | OutputReceipt x \<Rightarrow> [fstatus (xrc_receipt_number x), fstatus (xrc_received_date x), fstatus (xrc_referenced_po_number x)])"

definition line_route :: "supporting_output \<Rightarrow> supporting_route_reason list" where
  "line_route out =
     (case out of
        OutputPO x \<Rightarrow>
          if xpo_line_items x = [] then [ROUTE_NO_LINE_ITEMS]
          else if list_ex (\<lambda>l. fstatus (xpl_description l) \<noteq> EXTRACTED \<or> fstatus (xpl_ordered_quantity l) \<noteq> EXTRACTED
            \<or> fstatus (xpl_unit_price l) \<noteq> EXTRACTED \<or> fstatus (xpl_line_total l) \<noteq> EXTRACTED) (xpo_line_items x)
          then [ROUTE_INCOMPLETE_LINE_ITEMS] else []
      | OutputReceipt x \<Rightarrow>
          if xrc_line_items x = [] then [ROUTE_NO_LINE_ITEMS]
          else if list_ex (\<lambda>l. fstatus (xrl_description l) \<noteq> EXTRACTED \<or> fstatus (xrl_received_quantity l) \<noteq> EXTRACTED) (xrc_line_items x)
          then [ROUTE_QUANTITY_ASSOCIATION_INCOMPLETE] else [])"

definition total_conflict :: "supporting_output \<Rightarrow> bool" where
  "total_conflict out =
     (case out of
        OutputPO x \<Rightarrow>
          (case (fvalue (xpo_subtotal x), fvalue (xpo_tax x), fvalue (xpo_total x)) of
             (Some s, Some t, Some g) \<Rightarrow> dlt arithmetic_tolerance (dabs (dsub (dadd s t) g))
           | _ \<Rightarrow> False)
      | OutputReceipt _ \<Rightarrow> False)"

definition is_po :: "supporting_output \<Rightarrow> bool" where
  "is_po out = (case out of OutputPO _ \<Rightarrow> True | OutputReceipt _ \<Rightarrow> False)"

text \<open>\<open>None\<close> is the \<^verbatim>\<open>ValueError\<close> of an output that is not of the role; the model is asked if there are reasons.\<close>

definition route_supporting :: "supporting_output \<Rightarrow> document_text \<Rightarrow> document_role \<Rightarrow> supporting_route_reason list option" where
  "route_supporting out doc role =
     (if is_po out \<noteq> (role = PURCHASE_ORDER) then None
      else let required = required_statuses out in
        Some (dict_fromkeys ((if MISSING \<in> set required then [ROUTE_FIELD_MISSING] else [])
          @ (if AMBIGUOUS \<in> set required then [ROUTE_FIELD_AMBIGUOUS] else []) @ line_route out
          @ (if total_conflict out then [ROUTE_TOTAL_CONFLICT] else [])
          @ (if dx_used_ocr doc \<and> list_ex (\<lambda>s. s \<noteq> EXTRACTED) required then [ROUTE_OCR_REQUIRED_FIELD] else []))))"

subsection \<open>Quotes\<close>

definition located :: "word_token list \<Rightarrow> nat list \<Rightarrow> nat \<Rightarrow> nat \<Rightarrow> normalized_value \<Rightarrow> bool \<Rightarrow> grounding_result" where
  "located ws owners start len v fuzzy =
     \<lparr>gr_reason = (if fuzzy then GROUNDED_FUZZY else GROUNDED_EXACT), gr_normalized_value = Some v,
      gr_evidence = evidence_from_words (map ((!) ws) (dict_fromkeys (slice start (start + len) owners)))\<rparr>"

definition locate_supporting_quote :: "fuzzy \<Rightarrow> string \<Rightarrow> candidate_field \<Rightarrow> document_text \<Rightarrow> grounding_result" where
  "locate_supporting_quote fz name k doc =
     (case kf_raw_value k of
        None \<Rightarrow> reject QUOTE_NOT_FOUND None
      | Some raw \<Rightarrow>
          (case normalize_value name raw of
             None \<Rightarrow> reject VALUE_NORMALIZATION_FAILED None
           | Some v \<Rightarrow>
               (case kf_page k of
                  None \<Rightarrow> reject PAGE_OUT_OF_RANGE (Some v)
                | Some p \<Rightarrow>
                    if length (dx_pages doc) \<le> p then reject PAGE_OUT_OF_RANGE (Some v)
                    else let quote = (case kf_evidence_quote k of None \<Rightarrow> [] | Some q \<Rightarrow> parts q);
                             ws = ordered_words (dx_pages doc ! p);
                             stream = map fst (page_stream ws); owners = map snd (page_stream ws)
                         in if quote = [] then reject QUOTE_NOT_FOUND (Some v)
                            else (case exact_starts quote stream owners of
                                    [] \<Rightarrow> (case best_spans (scored_spans fz quote stream owners) of
                                        [] \<Rightarrow> reject QUOTE_NOT_FOUND (Some v)
                                      | [(start, len)] \<Rightarrow> located ws owners start len v True
                                      | _ \<Rightarrow> reject QUOTE_NOT_UNIQUE (Some v))
                                  | [start] \<Rightarrow> located ws owners start (length quote) v False
                                  | _ \<Rightarrow> reject QUOTE_NOT_UNIQUE (Some v)))))"

subsection \<open>Grounding a field\<close>

text \<open>Windows of up to five pieces of a quote.\<close>

definition quote_windows :: "string \<Rightarrow> string list" where
  "quote_windows quote = map (py_join '' '') (word_spans 5 (char_runs (\<lambda>c. is_word_char c \<or> c \<in> set ''./+-'') [] quote))"

definition value_supported :: "string \<Rightarrow> normalized_value \<Rightarrow> string \<Rightarrow> bool" where
  "value_supported name v quote =
     (case v of
        NDecimal d \<Rightarrow> list_ex (\<lambda>piece. case parse_money piece of None \<Rightarrow> False | Some e \<Rightarrow> deq e d) (quote_windows quote)
      | NDate d \<Rightarrow> list_ex (\<lambda>piece. parse_invoice_date piece = Some d) (quote_windows quote)
      | NText s \<Rightarrow>
          if name = ''currency'' then list_ex (\<lambda>piece. normalize_currency piece = Some s) (quote_windows quote)
          else normalize_identifier s \<noteq> [] \<and> list_ex (\<lambda>piece. normalize_identifier piece = normalize_identifier s) (quote_windows quote))"

definition normalization_name :: "string \<Rightarrow> string" where
  "normalization_name name =
     (if name \<in> set [''issue_date'', ''received_date''] then ''invoice_date''
      else if name \<in> set [''subtotal'', ''tax'', ''total'', ''ordered_quantity'', ''received_quantity'', ''accepted_quantity'', ''rejected_quantity'',
        ''unit_price'', ''line_total''] then ''line_total''
      else name)"

definition COLUMN_ALIASES :: column_headers where
  "COLUMN_ALIASES =
     [(''description'', [''description'', ''item'', ''product'', ''details'']), (''ordered_quantity'', [''qty'', ''quantity'', ''ordered'']),
      (''unit_price'', [''price'', ''rate'']), (''line_total'', [''amount'', ''total'']), (''received_quantity'', [''received'', ''delivered'']),
      (''accepted_quantity'', [''accepted'']), (''rejected_quantity'', [''rejected'', ''damaged''])]"

definition rstrip_chars :: "string \<Rightarrow> string \<Rightarrow> string" where
  "rstrip_chars cs s = rev (dropWhile (\<lambda>c. c \<in> set cs) (rev s))"

definition title_anchors :: "visual_row \<Rightarrow> (string \<times> pyfloat) list" where
  "title_anchors row =
     dict_of (concat (map (\<lambda>w. map (\<lambda>(column, _). (column, horizontal_center (wt_bbox w)))
       (filter (\<lambda>(_, aliases). rstrip_chars ''.:'' (py_casefold (wt_text w)) \<in> set aliases) COLUMN_ALIASES)) (vr_words row)))"

text \<open>Rows above a span that could be the header of its column; the lowest one counts.\<close>

definition title_rows :: "string \<Rightarrow> evidence_span \<Rightarrow> document_text \<Rightarrow> (pyfloat \<times> (string \<times> pyfloat) list) list" where
  "title_rows name site doc =
     List.map_filter (\<lambda>row. let anchors = title_anchors row; names = map fst anchors in
       if vr_page row = ev_page site \<and> flt (vr_y1 row) (bb_y0 (ev_bbox site))
         \<and> ''description'' \<in> set names \<and> name \<in> set names \<and> 3 \<le> length anchors
       then Some (vr_y1 row, anchors) else None) (reconstruct_visual_rows doc)"

definition column_supported :: "string \<Rightarrow> evidence_span list \<Rightarrow> document_text \<Rightarrow> bool" where
  "column_supported name evidence doc =
     (case evidence of
        [] \<Rightarrow> False
      | site # _ \<Rightarrow>
          (case title_rows name site doc of
             [] \<Rightarrow> False
           | row # rows \<Rightarrow>
               let anchors = snd (foldl (\<lambda>best r. if flt (fst best) (fst r) then r else best) row rows); center = horizontal_center (ev_bbox site) in
               (case map_of (column_bounds anchors) name of None \<Rightarrow> False | Some (left, right) \<Rightarrow> fle left center \<and> fle center right)))"

definition amount_label :: "string \<Rightarrow> pattern" where
  "amount_label name = whole_words
     (if name = ''subtotal'' then spaced (Star blank) [''sub'', ''total'']
      else if name = ''tax'' then words_of [''tax'', ''gst'', ''vat'']
      else alts [spaced (plus blank) [''grand'', ''total''], spaced (plus blank) [''amount'', ''due''], lit ''total''])"

definition QUOTED_NUMBER :: pattern where
  "QUOTED_NUMBER = seqs [opt (one_of ''+-''), digit, Star (Sym (\<lambda>c. is_digit c \<or> c \<in> set '',.''))]"

text \<open>The first number behind the label of an amount is the value.\<close>

definition amount_labelled :: "string \<Rightarrow> normalized_value \<Rightarrow> string \<Rightarrow> bool" where
  "amount_labelled name v quote =
     (case re_search (amount_label name) quote of
        None \<Rightarrow> False
      | Some (_, e, _) \<Rightarrow>
          (case re_search QUOTED_NUMBER (drop e quote) of
             None \<Rightarrow> False
           | Some (a, b, _) \<Rightarrow>
               (case parse_money (span_text (drop e quote) (a, b)) of None \<Rightarrow> False | Some d \<Rightarrow> value_eq (NDecimal d) v)))"

definition LINE_AMOUNTS :: "string list" where
  "LINE_AMOUNTS = [''ordered_quantity'', ''unit_price'', ''line_total'', ''received_quantity'', ''accepted_quantity'', ''rejected_quantity'']"

definition ground_field :: "fuzzy \<Rightarrow> string \<Rightarrow> candidate_field \<Rightarrow> document_text \<Rightarrow> normalized_value extracted_field option \<times> grounding_reason" where
  "ground_field fz name k doc =
     (let result = locate_supporting_quote (fz\<lparr>fz_threshold := Scaled 100 0\<rparr>) (normalization_name name) k doc in
      case (if grounded result then gr_normalized_value result else None) of
        None \<Rightarrow> (None, gr_reason result)
      | Some v \<Rightarrow>
          let quote = (case kf_evidence_quote k of None \<Rightarrow> [] | Some q \<Rightarrow> q) in
          if quote = [] \<or> \<not> value_supported name v quote then (None, VALUE_NORMALIZATION_FAILED)
          else if name \<in> set [''subtotal'', ''tax'', ''total''] \<and> \<not> amount_labelled name v quote then (None, VALUE_NORMALIZATION_FAILED)
          else if name \<in> set LINE_AMOUNTS \<and> \<not> column_supported name (gr_evidence result) doc then (None, VALUE_NORMALIZATION_FAILED)
          else (Some \<lparr>fvalue = Some v, fstatus = EXTRACTED, fevidence = gr_evidence result, frule_id = Some ''supporting.vlm.grounded.v1''\<rparr>,
            gr_reason result))"

subsection \<open>Fusion\<close>

datatype supporting_fusion_state = FUSED_DETERMINISTIC | FUSED_AGREEMENT | FUSED_FILLED | FUSED_CONFLICT_ABSTAINED | FUSED_UNGROUNDED
  | FUSED_ROW_ASSOCIATION_REJECTED

type_synonym fusion_note = "supporting_fusion_state \<times> grounding_reason option"

definition fuse_supporting_field ::
  "('a \<Rightarrow> 'a \<Rightarrow> bool) \<Rightarrow> (normalized_value \<Rightarrow> 'a option) \<Rightarrow> fuzzy \<Rightarrow> document_text \<Rightarrow> string \<Rightarrow> 'a extracted_field \<Rightarrow> candidate_field
    \<Rightarrow> 'a extracted_field \<times> fusion_note" where
  "fuse_supporting_field eq proj fz doc name det k =
     (if kf_raw_value k = None then (det, FUSED_DETERMINISTIC, None)
      else let (proposed, reason) = ground_field fz name k doc in
        case Option.bind proposed (\<lambda>f. Option.bind (fvalue f) (\<lambda>nv. map_option (\<lambda>v. (v, fevidence f, frule_id f)) (proj nv))) of
          None \<Rightarrow> (det, FUSED_UNGROUNDED, Some reason)
        | Some (v, ev, rule) \<Rightarrow>
            if fstatus det = EXTRACTED
            then (if (case fvalue det of None \<Rightarrow> False | Some w \<Rightarrow> eq w v) then (det, FUSED_AGREEMENT, Some reason)
                  else (\<lparr>fvalue = None, fstatus = AMBIGUOUS, fevidence = fevidence det @ ev, frule_id = Some ''supporting.vlm.conflict.v1''\<rparr>,
                    FUSED_CONFLICT_ABSTAINED, Some reason))
            else (\<lparr>fvalue = Some v, fstatus = EXTRACTED, fevidence = ev, frule_id = rule\<rparr>, FUSED_FILLED, Some reason))"

text \<open>The first spans of the fields lie on one page and have a height in common.\<close>

definition same_row :: "evidence_span list list \<Rightarrow> bool" where
  "same_row evidences =
     (let spans = map hd (filter (\<lambda>e. e \<noteq> []) evidences) in
      length spans = length evidences \<and> length (remdups (map ev_page spans)) = 1
      \<and> fle (fmax (map (bb_y0 \<circ> ev_bbox) spans)) (fmin (map (bb_y1 \<circ> ev_bbox) spans)))"

definition candidate_row :: "fuzzy \<Rightarrow> document_text \<Rightarrow> (string \<times> candidate_field) list \<Rightarrow> evidence_span list list" where
  "candidate_row fz doc cells =
     List.map_filter (\<lambda>(name, k). if kf_raw_value k = None then None else map_option fevidence (fst (ground_field fz name k doc))) cells"

definition row_associated :: "fuzzy \<Rightarrow> document_text \<Rightarrow> string extracted_field option \<Rightarrow> candidate_field \<Rightarrow> (string \<times> candidate_field) list \<Rightarrow> bool" where
  "row_associated fz doc original description cells =
     (case fst (ground_field fz ''description'' description doc) of
        None \<Rightarrow> False
      | Some d \<Rightarrow>
          2 \<le> length (candidate_row fz doc cells) \<and> same_row (candidate_row fz doc cells)
          \<and> (case original of None \<Rightarrow> True | Some f \<Rightarrow> fevidence f = [] \<or> same_row [fevidence f, fevidence d]))"

definition po_cells :: "po_line_candidate \<Rightarrow> (string \<times> candidate_field) list" where
  "po_cells k = [(''line_number'', plk_line_number k), (''description'', plk_description k), (''ordered_quantity'', plk_ordered_quantity k),
     (''unit_price'', plk_unit_price k), (''line_total'', plk_line_total k)]"

definition receipt_cells :: "receipt_line_candidate \<Rightarrow> (string \<times> candidate_field) list" where
  "receipt_cells k = [(''description'', rlk_description k), (''received_quantity'', rlk_received_quantity k),
     (''accepted_quantity'', rlk_accepted_quantity k), (''rejected_quantity'', rlk_rejected_quantity k)]"

definition no_po_line :: extracted_po_line where
  "no_po_line = \<lparr>xpl_line_number = missing, xpl_description = missing, xpl_ordered_quantity = missing, xpl_unit_price = missing, xpl_line_total = missing\<rparr>"

definition no_receipt_line :: extracted_receipt_line where
  "no_receipt_line = \<lparr>xrl_description = missing, xrl_received_quantity = missing, xrl_accepted_quantity = missing, xrl_rejected_quantity = missing\<rparr>"

definition fuse_po_line :: "fuzzy \<Rightarrow> document_text \<Rightarrow> extracted_po_line \<Rightarrow> po_line_candidate \<Rightarrow> extracted_po_line \<times> fusion_note list" where
  "fuse_po_line fz doc det k =
     (let (n, n') = fuse_supporting_field (=) as_text fz doc ''line_number'' (xpl_line_number det) (plk_line_number k);
          (d, d') = fuse_supporting_field (=) as_text fz doc ''description'' (xpl_description det) (plk_description k);
          (q, q') = fuse_supporting_field deq as_decimal fz doc ''ordered_quantity'' (xpl_ordered_quantity det) (plk_ordered_quantity k);
          (u, u') = fuse_supporting_field deq as_decimal fz doc ''unit_price'' (xpl_unit_price det) (plk_unit_price k);
          (t, t') = fuse_supporting_field deq as_decimal fz doc ''line_total'' (xpl_line_total det) (plk_line_total k)
      in (\<lparr>xpl_line_number = n, xpl_description = d, xpl_ordered_quantity = q, xpl_unit_price = u, xpl_line_total = t\<rparr>, [n', d', q', u', t']))"

definition fuse_receipt_line :: "fuzzy \<Rightarrow> document_text \<Rightarrow> extracted_receipt_line \<Rightarrow> receipt_line_candidate \<Rightarrow> extracted_receipt_line \<times> fusion_note list" where
  "fuse_receipt_line fz doc det k =
     (let (d, d') = fuse_supporting_field (=) as_text fz doc ''description'' (xrl_description det) (rlk_description k);
          (r, r') = fuse_supporting_field deq as_decimal fz doc ''received_quantity'' (xrl_received_quantity det) (rlk_received_quantity k);
          (a, a') = fuse_supporting_field deq as_decimal fz doc ''accepted_quantity'' (xrl_accepted_quantity det) (rlk_accepted_quantity k);
          (j, j') = fuse_supporting_field deq as_decimal fz doc ''rejected_quantity'' (xrl_rejected_quantity det) (rlk_rejected_quantity k)
      in (\<lparr>xrl_description = d, xrl_received_quantity = r, xrl_accepted_quantity = a, xrl_rejected_quantity = j\<rparr>, [d', r', a', j']))"

text \<open>
  One line of the answer, with the line at its position: the line it becomes, if any, and the notes on its
  fields; a row that is not associated leaves the extracted line.
\<close>

definition fuse_row :: "bool \<Rightarrow> 'l option \<Rightarrow> 'l \<times> fusion_note list \<Rightarrow> 'l option \<times> fusion_note list" where
  "fuse_row associated original fused =
     (if associated then (Some (fst fused), snd fused)
      else (original, map (\<lambda>(_, reason). (FUSED_ROW_ASSOCIATION_REJECTED, reason)) (snd fused)))"

definition at_index :: "'a list \<Rightarrow> nat \<Rightarrow> 'a option" where
  "at_index xs i = (if i < length xs then Some (xs ! i) else None)"

definition fuse_po_rows :: "fuzzy \<Rightarrow> document_text \<Rightarrow> extracted_po_line list \<Rightarrow> po_line_candidate list \<Rightarrow> (extracted_po_line option \<times> fusion_note list) list" where
  "fuse_po_rows fz doc det ks =
     map (\<lambda>(i, k). let original = at_index det i in
         fuse_row (row_associated fz doc (map_option xpl_description original) (plk_description k) (po_cells k)) original
           (fuse_po_line fz doc (case original of None \<Rightarrow> no_po_line | Some l \<Rightarrow> l) k)) (List.enumerate 0 ks)"

definition fuse_receipt_rows ::
  "fuzzy \<Rightarrow> document_text \<Rightarrow> extracted_receipt_line list \<Rightarrow> receipt_line_candidate list \<Rightarrow> (extracted_receipt_line option \<times> fusion_note list) list" where
  "fuse_receipt_rows fz doc det ks =
     map (\<lambda>(i, k). let original = at_index det i in
         fuse_row (row_associated fz doc (map_option xrl_description original) (rlk_description k) (receipt_cells k)) original
           (fuse_receipt_line fz doc (case original of None \<Rightarrow> no_receipt_line | Some l \<Rightarrow> l) k)) (List.enumerate 0 ks)"

definition fused_lines :: "'l list \<Rightarrow> ('l option \<times> 'n) list \<Rightarrow> 'l list" where
  "fused_lines det rows = List.map_filter fst rows @ drop (length rows) det"

record supporting_fusion =
  sf_output :: supporting_output
  sf_outcomes :: "(string \<times> supporting_fusion_state) list"
  sf_grounding :: "(string \<times> grounding_reason) list"

definition line_notes :: "string list \<Rightarrow> ('l option \<times> fusion_note list) list \<Rightarrow> (string \<times> fusion_note) list" where
  "line_notes names rows =
     concat (map (\<lambda>(i, _, notes). zip (map (\<lambda>name. ''line_items.'' @ index_text i @ ''.'' @ name) names) notes) (List.enumerate 0 rows))"

definition fusion_of :: "supporting_output \<Rightarrow> (string \<times> fusion_note) list \<Rightarrow> supporting_fusion" where
  "fusion_of out notes =
     \<lparr>sf_output = out, sf_outcomes = map (\<lambda>(path, state, _). (path, state)) notes,
      sf_grounding = List.map_filter (\<lambda>(path, _, reason). map_option (Pair path) reason) notes\<rparr>"

definition fuse_po :: "fuzzy \<Rightarrow> extracted_po \<Rightarrow> po_candidate \<Rightarrow> document_text \<Rightarrow> supporting_fusion" where
  "fuse_po fz det k doc =
     (let (n, n') = fuse_supporting_field (=) as_text fz doc ''po_number'' (xpo_po_number det) (pok_po_number k);
          (d, d') = fuse_supporting_field (=) as_date fz doc ''issue_date'' (xpo_issue_date det) (pok_issue_date k);
          (v, v') = fuse_supporting_field (=) as_text fz doc ''vendor'' (xpo_vendor det) (pok_vendor k);
          (b, b') = fuse_supporting_field (=) as_text fz doc ''buyer'' (xpo_buyer det) (pok_buyer k);
          (c, c') = fuse_supporting_field (=) as_text fz doc ''currency'' (xpo_currency det) (pok_currency k);
          (s, s') = fuse_supporting_field deq as_decimal fz doc ''subtotal'' (xpo_subtotal det) (pok_subtotal k);
          (x, x') = fuse_supporting_field deq as_decimal fz doc ''tax'' (xpo_tax det) (pok_tax k);
          (t, t') = fuse_supporting_field deq as_decimal fz doc ''total'' (xpo_total det) (pok_total k);
          rows = fuse_po_rows fz doc (xpo_line_items det) (pok_line_items k)
      in fusion_of
           (OutputPO \<lparr>xpo_po_number = n, xpo_issue_date = d, xpo_vendor = v, xpo_buyer = b, xpo_currency = c, xpo_subtotal = s, xpo_tax = x,
              xpo_total = t, xpo_line_items = fused_lines (xpo_line_items det) rows\<rparr>)
           ([(''po_number'', n'), (''issue_date'', d'), (''vendor'', v'), (''buyer'', b'), (''currency'', c'), (''subtotal'', s'), (''tax'', x'), (''total'', t')]
            @ line_notes [''line_number'', ''description'', ''ordered_quantity'', ''unit_price'', ''line_total''] rows))"

definition fuse_receipt :: "fuzzy \<Rightarrow> extracted_receipt \<Rightarrow> receipt_candidate \<Rightarrow> document_text \<Rightarrow> supporting_fusion" where
  "fuse_receipt fz det k doc =
     (let (n, n') = fuse_supporting_field (=) as_text fz doc ''receipt_number'' (xrc_receipt_number det) (rck_receipt_number k);
          (p, p') = fuse_supporting_field (=) as_text fz doc ''referenced_po_number'' (xrc_referenced_po_number det) (rck_referenced_po_number k);
          (d, d') = fuse_supporting_field (=) as_date fz doc ''received_date'' (xrc_received_date det) (rck_received_date k);
          (s, s') = fuse_supporting_field (=) as_text fz doc ''supplier'' (xrc_supplier det) (rck_supplier k);
          rows = fuse_receipt_rows fz doc (xrc_line_items det) (rck_line_items k)
      in fusion_of
           (OutputReceipt \<lparr>xrc_receipt_number = n, xrc_referenced_po_number = p, xrc_received_date = d, xrc_supplier = s,
              xrc_line_items = fused_lines (xrc_line_items det) rows\<rparr>)
           ([(''receipt_number'', n'), (''referenced_po_number'', p'), (''received_date'', d'), (''supplier'', s')]
            @ line_notes [''description'', ''received_quantity'', ''accepted_quantity'', ''rejected_quantity''] rows))"

text \<open>\<open>None\<close> is the \<^verbatim>\<open>ValueError\<close> of a candidate that is not of the role of the output.\<close>

fun fuse_supporting :: "fuzzy \<Rightarrow> supporting_output \<Rightarrow> supporting_candidate \<Rightarrow> document_text \<Rightarrow> supporting_fusion option" where
  "fuse_supporting fz (OutputPO det) (PoCandidate k) doc = Some (fuse_po fz det k doc)"
| "fuse_supporting fz (OutputReceipt det) (ReceiptCandidate k) doc = Some (fuse_receipt fz det k doc)"
| "fuse_supporting fz _ _ doc = None"

subsection \<open>What the model adds stands in the document\<close>

text \<open>A ratio of 100 is reached by equal texts only.\<close>

definition fuzzy_exact :: "fuzzy \<Rightarrow> bool" where
  "fuzzy_exact fz \<longleftrightarrow> (\<forall>s t. fle (Scaled 100 0) (fz_ratio fz s t) \<longrightarrow> s = t)"

text \<open>The quote stands in whole words of a page, next to each other in reading order, and these words are the evidence.\<close>

definition quoted_on :: "word_token list \<Rightarrow> string \<Rightarrow> evidence_span list \<Rightarrow> bool" where
  "quoted_on ws quote ev \<longleftrightarrow> (\<exists>start len. 0 < len \<and> start + len \<le> length (page_stream ws)
     \<and> word_boundary_aligned (map snd (page_stream ws)) start len
     \<and> py_join '' '' (slice start (start + len) (map fst (page_stream ws))) = py_join '' '' (parts quote)
     \<and> ev = evidence_from_words (map ((!) ws) (dict_fromkeys (slice start (start + len) (map snd (page_stream ws))))))"

lemma quoted_on_evidence: "quoted_on ws quote ev \<Longrightarrow> ev \<noteq> []"
proof -
  assume "quoted_on ws quote ev"
  then obtain start len where "0 < len" "start + len \<le> length (page_stream ws)"
    and ev: "ev = evidence_from_words (map ((!) ws) (dict_fromkeys (slice start (start + len) (map snd (page_stream ws)))))"
    by (auto simp: quoted_on_def)
  then have "slice start (start + len) (map snd (page_stream ws)) \<noteq> []"
    using length_slice [of start "start + len" "map snd (page_stream ws)"] by force
  with ev show ?thesis by simp
qed

lemma scored_spans_sound:
  assumes "(s, start, len) \<in> set (scored_spans fz quote stream owners)"
  shows "word_boundary_aligned owners start len"
    and "fle (fz_threshold fz) (fz_ratio fz (py_join '' '' quote) (py_join '' '' (slice start (start + len) stream)))"
  using assms by (auto simp: scored_spans_def List.map_filter_def Let_def split: if_splits)

lemma locate_sound:
  assumes "fuzzy_exact fz" and "fz_threshold fz = Scaled 100 0" and "grounded (locate_supporting_quote fz name k doc)"
  shows "\<exists>p v quote. p < length (dx_pages doc) \<and> kf_evidence_quote k = Some quote
    \<and> gr_normalized_value (locate_supporting_quote fz name k doc) = Some v
    \<and> quoted_on (ordered_words (dx_pages doc ! p)) quote (gr_evidence (locate_supporting_quote fz name k doc))"
proof -
  let ?r = "locate_supporting_quote fz name k doc"
  obtain raw v p where c: "kf_raw_value k = Some raw" "normalize_value name raw = Some v" "kf_page k = Some p" "p < length (dx_pages doc)"
    using assms(3) by (auto simp: locate_supporting_quote_def split: option.splits if_splits)
  define ws where "ws = ordered_words (dx_pages doc ! p)"
  let ?st = "map fst (page_stream ws)" and ?ow = "map snd (page_stream ws)"
  define quote where "quote = (case kf_evidence_quote k of None \<Rightarrow> [] | Some q \<Rightarrow> parts q)"
  have r: "?r = (if quote = [] then reject QUOTE_NOT_FOUND (Some v)
      else case exact_starts quote ?st ?ow of
          [] \<Rightarrow> (case best_spans (scored_spans fz quote ?st ?ow) of [] \<Rightarrow> reject QUOTE_NOT_FOUND (Some v)
            | [(start, len)] \<Rightarrow> located ws ?ow start len v True | _ \<Rightarrow> reject QUOTE_NOT_UNIQUE (Some v))
        | [start] \<Rightarrow> located ws ?ow start (length quote) v False | _ \<Rightarrow> reject QUOTE_NOT_UNIQUE (Some v))"
    using c by (simp add: locate_supporting_quote_def Let_def ws_def quote_def split: list.split)
  with assms(3) have "quote \<noteq> []" by auto
  then obtain said where t: "kf_evidence_quote k = Some said" "quote = parts said" by (auto simp: quote_def split: option.splits)
  have "\<exists>start len b. ?r = located ws ?ow start len v b \<and> 0 < len \<and> start + len \<le> length (page_stream ws)
      \<and> word_boundary_aligned ?ow start len \<and> py_join '' '' (slice start (start + len) ?st) = py_join '' '' quote"
  proof (cases "exact_starts quote ?st ?ow")
    case Nil
    with assms(3) r obtain start len where b: "best_spans (scored_spans fz quote ?st ?ow) = [(start, len)]" "?r = located ws ?ow start len v True"
      by (auto split: if_splits list.splits prod.splits)
    then obtain s where s: "(s, start, len) \<in> set (scored_spans fz quote ?st ?ow)" using best_spans_scored by (metis list.set_intros(1))
    have "py_join '' '' (slice start (start + len) ?st) = py_join '' '' quote"
      using scored_spans_sound(2) [OF s] assms(1,2) by (metis fuzzy_exact_def)
    with b(2) scored_spans_range [OF s] scored_spans_sound(1) [OF s] show ?thesis by auto
  next
    case (Cons start rest)
    with assms(3) r have "?r = located ws ?ow start (length quote) v False" by (auto split: if_splits list.splits)
    moreover have start: "start \<in> set (exact_starts quote ?st ?ow)" using Cons by simp
    then have "slice start (start + length quote) ?st = quote" "word_boundary_aligned ?ow start (length quote)" by (simp_all add: exact_starts_def)
    moreover have "start + length quote \<le> length (page_stream ws)" using exact_starts_range [OF start] by simp
    ultimately show ?thesis using \<open>quote \<noteq> []\<close> by (metis length_greater_0_conv)
  qed
  then obtain start len b where "?r = located ws ?ow start len v b" and found: "0 < len" "start + len \<le> length (page_stream ws)"
    "word_boundary_aligned ?ow start len" "py_join '' '' (slice start (start + len) ?st) = py_join '' '' quote" by blast
  then have "gr_normalized_value ?r = Some v" "gr_evidence ?r = evidence_from_words (map ((!) ws) (dict_fromkeys (slice start (start + len) ?ow)))"
    by (simp_all add: located_def)
  moreover from this(2) found have "quoted_on ws said (gr_evidence ?r)" unfolding quoted_on_def t(2) by blast
  ultimately show ?thesis using c(4) t(1) unfolding ws_def by blast
qed

definition value_backed :: "('a \<Rightarrow> normalized_value) \<Rightarrow> document_text \<Rightarrow> string \<Rightarrow> 'a \<Rightarrow> evidence_span list \<Rightarrow> bool" where
  "value_backed con doc name v ev \<longleftrightarrow>
     (\<exists>p quote. p < length (dx_pages doc) \<and> quoted_on (ordered_words (dx_pages doc ! p)) quote ev \<and> value_supported name (con v) quote)"

lemma ground_field_sound:
  assumes "fuzzy_exact fz" and "fst (ground_field fz name k doc) = Some f"
  shows "\<exists>v. fvalue f = Some v \<and> fstatus f = EXTRACTED \<and> value_backed id doc name v (fevidence f)"
proof -
  let ?r = "locate_supporting_quote (fz\<lparr>fz_threshold := Scaled 100 0\<rparr>) (normalization_name name) k doc"
  obtain v where v: "grounded ?r" "gr_normalized_value ?r = Some v"
    and f: "fvalue f = Some v" "fstatus f = EXTRACTED" "fevidence f = gr_evidence ?r"
      "value_supported name v (case kf_evidence_quote k of None \<Rightarrow> [] | Some q \<Rightarrow> q)"
    using assms(2) by (auto simp: ground_field_def Let_def split: option.splits if_splits)
  have "fuzzy_exact (fz\<lparr>fz_threshold := Scaled 100 0\<rparr>)" using assms(1) by (simp add: fuzzy_exact_def)
  from locate_sound [OF this _ v(1)] obtain p quote where "p < length (dx_pages doc)" "kf_evidence_quote k = Some quote"
    "quoted_on (ordered_words (dx_pages doc ! p)) quote (gr_evidence ?r)" by auto
  with f show ?thesis by (auto simp: value_backed_def)
qed

text \<open>
  A field keeps what was extracted, gives up a value to another one that stands in the document, or takes one that
  stands in the document, in a cell of the row.
\<close>

definition field_backed :: "('a \<Rightarrow> normalized_value) \<Rightarrow> document_text \<Rightarrow> evidence_span list set \<Rightarrow> string \<Rightarrow> 'a extracted_field \<Rightarrow> 'a extracted_field \<Rightarrow> bool" where
  "field_backed con doc row name det f \<longleftrightarrow>
     f = det
     \<or> (fstatus det = EXTRACTED \<and> fstatus f = AMBIGUOUS \<and> fvalue f = None
        \<and> (\<exists>v. \<exists>ev \<in> row. value_backed con doc name v ev \<and> fevidence f = fevidence det @ ev
            \<and> (\<forall>w. fvalue det = Some w \<longrightarrow> \<not> values_agree (con w) (con v))))
     \<or> (fstatus det \<noteq> EXTRACTED \<and> fstatus f = EXTRACTED \<and> fevidence f \<in> row \<and> (\<exists>v. fvalue f = Some v \<and> value_backed con doc name v (fevidence f)))"

lemma value_backed_evidence: "value_backed con doc name v ev \<Longrightarrow> ev \<noteq> []"
  by (auto simp: value_backed_def dest: quoted_on_evidence)

lemma field_backed_valid: "field_backed con doc row name det f \<Longrightarrow> validate_status_contract det \<Longrightarrow> validate_status_contract f"
  by (auto simp: field_backed_def validate_status_contract_def dest: value_backed_evidence)

lemma fuse_supporting_field_backed:
  assumes "fuzzy_exact fz" and "compares eq proj con" and "\<And>f. kf_raw_value k \<noteq> None \<Longrightarrow> fst (ground_field fz name k doc) = Some f \<Longrightarrow> fevidence f \<in> row"
  shows "field_backed con doc row name det (fst (fuse_supporting_field eq proj fz doc name det k))"
proof (cases "kf_raw_value k")
  case None
  then show ?thesis by (simp add: fuse_supporting_field_def field_backed_def)
next
  case (Some raw)
  obtain proposed reason where g: "ground_field fz name k doc = (proposed, reason)" by (metis surj_pair)
  show ?thesis
  proof (cases proposed)
    case None
    with g Some show ?thesis by (simp add: fuse_supporting_field_def field_backed_def)
  next
    case (Some f)
    with g ground_field_sound [OF assms(1), of name k doc f] assms(3) [of f] \<open>kf_raw_value k = Some raw\<close>
    obtain nv where nv: "fvalue f = Some nv" "value_backed id doc name nv (fevidence f)" "fevidence f \<in> row" by auto
    have backed: "value_backed con doc name v (fevidence f)" if "proj nv = Some v" for v
      using nv(2) that assms(2) by (auto simp: compares_def value_backed_def)
    have eq: "eq w v \<longleftrightarrow> values_agree (con w) (con v)" for w v using assms(2) by (simp add: compares_def)
    show ?thesis
    proof (cases "proj nv")
      case None
      with nv(1) Some g \<open>kf_raw_value k = Some raw\<close> show ?thesis by (simp add: fuse_supporting_field_def field_backed_def)
    next
      case (Some v)
      with nv(1) \<open>proposed = Some f\<close> g \<open>kf_raw_value k = Some raw\<close>
      have "fst (fuse_supporting_field eq proj fz doc name det k) = (if fstatus det = EXTRACTED
          then (if (case fvalue det of None \<Rightarrow> False | Some w \<Rightarrow> eq w v) then det
            else \<lparr>fvalue = None, fstatus = AMBIGUOUS, fevidence = fevidence det @ fevidence f, frule_id = Some ''supporting.vlm.conflict.v1''\<rparr>)
          else \<lparr>fvalue = Some v, fstatus = EXTRACTED, fevidence = fevidence f, frule_id = frule_id f\<rparr>)"
        by (simp add: fuse_supporting_field_def)
      with backed [OF Some] nv(3) eq show ?thesis by (cases "fvalue det") (auto simp: field_backed_def)
    qed
  qed
qed

lemma candidate_row_member:
  "(name, k) \<in> set cells \<Longrightarrow> kf_raw_value k \<noteq> None \<Longrightarrow> fst (ground_field fz name k doc) = Some f \<Longrightarrow> fevidence f \<in> set (candidate_row fz doc cells)"
  by (force simp: candidate_row_def map_filter_member)

definition po_line_backed :: "document_text \<Rightarrow> evidence_span list set \<Rightarrow> extracted_po_line \<Rightarrow> extracted_po_line \<Rightarrow> bool" where
  "po_line_backed doc row det l \<longleftrightarrow>
     field_backed NText doc row ''line_number'' (xpl_line_number det) (xpl_line_number l)
     \<and> field_backed NText doc row ''description'' (xpl_description det) (xpl_description l)
     \<and> field_backed NDecimal doc row ''ordered_quantity'' (xpl_ordered_quantity det) (xpl_ordered_quantity l)
     \<and> field_backed NDecimal doc row ''unit_price'' (xpl_unit_price det) (xpl_unit_price l)
     \<and> field_backed NDecimal doc row ''line_total'' (xpl_line_total det) (xpl_line_total l)"

definition receipt_line_backed :: "document_text \<Rightarrow> evidence_span list set \<Rightarrow> extracted_receipt_line \<Rightarrow> extracted_receipt_line \<Rightarrow> bool" where
  "receipt_line_backed doc row det l \<longleftrightarrow>
     field_backed NText doc row ''description'' (xrl_description det) (xrl_description l)
     \<and> field_backed NDecimal doc row ''received_quantity'' (xrl_received_quantity det) (xrl_received_quantity l)
     \<and> field_backed NDecimal doc row ''accepted_quantity'' (xrl_accepted_quantity det) (xrl_accepted_quantity l)
     \<and> field_backed NDecimal doc row ''rejected_quantity'' (xrl_rejected_quantity det) (xrl_rejected_quantity l)"

text \<open>
  The lines of the fused output, position by position: where a line was extracted, it is the extracted line, or that line with
  cells of one row that stands at the height of its description; behind the extracted lines, each line has its cells
  from one row.
\<close>

definition row_beside :: "evidence_span list list \<Rightarrow> string extracted_field \<Rightarrow> bool" where
  "row_beside row description \<longleftrightarrow> fevidence description = [] \<or> list_ex (\<lambda>ev. same_row [fevidence description, ev]) row"

definition lines_backed ::
  "(evidence_span list set \<Rightarrow> 'l \<Rightarrow> 'l \<Rightarrow> bool) \<Rightarrow> ('l \<Rightarrow> string extracted_field) \<Rightarrow> 'l \<Rightarrow> 'l list \<Rightarrow> 'l list \<Rightarrow> bool" where
  "lines_backed backed description none det lines \<longleftrightarrow> length det \<le> length lines
     \<and> (\<forall>i < length det. lines ! i = det ! i
          \<or> (\<exists>row. 2 \<le> length row \<and> same_row row \<and> row_beside row (description (det ! i)) \<and> backed (set row) (det ! i) (lines ! i)))
     \<and> (\<forall>i. length det \<le> i \<longrightarrow> i < length lines \<longrightarrow> (\<exists>row. 2 \<le> length row \<and> same_row row \<and> backed (set row) none (lines ! i)))"

fun output_backed :: "document_text \<Rightarrow> supporting_output \<Rightarrow> supporting_output \<Rightarrow> bool" where
  "output_backed doc (OutputPO det) (OutputPO x) \<longleftrightarrow>
     field_backed NText doc UNIV ''po_number'' (xpo_po_number det) (xpo_po_number x)
     \<and> field_backed NDate doc UNIV ''issue_date'' (xpo_issue_date det) (xpo_issue_date x)
     \<and> field_backed NText doc UNIV ''vendor'' (xpo_vendor det) (xpo_vendor x)
     \<and> field_backed NText doc UNIV ''buyer'' (xpo_buyer det) (xpo_buyer x)
     \<and> field_backed NText doc UNIV ''currency'' (xpo_currency det) (xpo_currency x)
     \<and> field_backed NDecimal doc UNIV ''subtotal'' (xpo_subtotal det) (xpo_subtotal x)
     \<and> field_backed NDecimal doc UNIV ''tax'' (xpo_tax det) (xpo_tax x)
     \<and> field_backed NDecimal doc UNIV ''total'' (xpo_total det) (xpo_total x)
     \<and> lines_backed (po_line_backed doc) xpl_description no_po_line (xpo_line_items det) (xpo_line_items x)"
| "output_backed doc (OutputReceipt det) (OutputReceipt x) \<longleftrightarrow>
     field_backed NText doc UNIV ''receipt_number'' (xrc_receipt_number det) (xrc_receipt_number x)
     \<and> field_backed NText doc UNIV ''referenced_po_number'' (xrc_referenced_po_number det) (xrc_referenced_po_number x)
     \<and> field_backed NDate doc UNIV ''received_date'' (xrc_received_date det) (xrc_received_date x)
     \<and> field_backed NText doc UNIV ''supplier'' (xrc_supplier det) (xrc_supplier x)
     \<and> lines_backed (receipt_line_backed doc) xrl_description no_receipt_line (xrc_line_items det) (xrc_line_items x)"
| "output_backed doc _ _ \<longleftrightarrow> False"

fun output_valid :: "supporting_output \<Rightarrow> bool" where
  "output_valid (OutputPO x) = po_valid x"
| "output_valid (OutputReceipt x) = receipt_valid x"

lemma fuse_po_line_backed:
  assumes "fuzzy_exact fz"
  shows "po_line_backed doc (set (candidate_row fz doc (po_cells k))) det (fst (fuse_po_line fz doc det k))"
  unfolding po_line_backed_def fuse_po_line_def
  by (simp add: split_beta, intro conjI fuse_supporting_field_backed assms compares_as candidate_row_member) (simp_all add: po_cells_def)

lemma fuse_receipt_line_backed:
  assumes "fuzzy_exact fz"
  shows "receipt_line_backed doc (set (candidate_row fz doc (receipt_cells k))) det (fst (fuse_receipt_line fz doc det k))"
  unfolding receipt_line_backed_def fuse_receipt_line_def
  by (simp add: split_beta, intro conjI fuse_supporting_field_backed assms compares_as candidate_row_member) (simp_all add: receipt_cells_def)

lemma ground_field_raw: "fst (ground_field fz name k doc) = Some f \<Longrightarrow> kf_raw_value k \<noteq> None"
  by (auto simp: ground_field_def locate_supporting_quote_def reject_def grounded_def Let_def split: option.splits)

lemma row_associated_beside:
  assumes "row_associated fz doc original d cells" and "(''description'', d) \<in> set cells"
  shows "2 \<le> length (candidate_row fz doc cells)" and "same_row (candidate_row fz doc cells)"
    and "original = Some f \<Longrightarrow> row_beside (candidate_row fz doc cells) f"
proof -
  obtain g where g: "fst (ground_field fz ''description'' d doc) = Some g" "2 \<le> length (candidate_row fz doc cells)"
      "same_row (candidate_row fz doc cells)"
    and beside: "original = Some f \<Longrightarrow> fevidence f = [] \<or> same_row [fevidence f, fevidence g]" for f
    using assms(1) by (auto simp: row_associated_def split: option.splits)
  have "fevidence g \<in> set (candidate_row fz doc cells)"
    using candidate_row_member [OF assms(2) _ g(1)] ground_field_raw [OF g(1)] by simp
  then show "original = Some f \<Longrightarrow> row_beside (candidate_row fz doc cells) f"
    using beside by (auto simp: row_beside_def list_ex_iff)
qed (use assms(1) in \<open>auto simp: row_associated_def split: option.splits\<close>)

lemma map_filter_somes: "\<forall>r \<in> set xs. f r \<noteq> None \<Longrightarrow> List.map_filter f xs = map (\<lambda>r. the (f r)) xs"
  by (induction xs) (auto simp: map_filter_simps)

lemma map_filter_append: "List.map_filter f (xs @ ys) = List.map_filter f xs @ List.map_filter f ys"
  by (induction xs) (auto simp: map_filter_simps split: option.splits)

text \<open>Where a line was extracted, the row at its position gives a line, so the lines keep their positions.\<close>

lemma fused_lines_positions:
  assumes "\<forall>i < min (length rows) (length det). fst (rows ! i) \<noteq> None"
  defines "behind \<equiv> List.map_filter fst (drop (length det) rows)"
  shows "length (fused_lines det rows) = length det + length behind"
    and "i < length det \<Longrightarrow> fused_lines det rows ! i = (if i < length rows then the (fst (rows ! i)) else det ! i)"
    and "length det \<le> i \<Longrightarrow> i < length (fused_lines det rows) \<Longrightarrow> fused_lines det rows ! i = behind ! (i - length det)"
proof -
  have "List.map_filter fst (take (length det) rows) = map (\<lambda>r. the (fst r)) (take (length det) rows)"
    by (rule map_filter_somes) (use assms(1) in \<open>force simp: in_set_conv_nth\<close>)
  then have lines: "fused_lines det rows = map (\<lambda>r. the (fst r)) (take (length det) rows) @ behind @ drop (length rows) det"
    unfolding fused_lines_def behind_def by (metis append_assoc append_take_drop_id map_filter_append)
  have empty: "behind = [] \<or> drop (length rows) det = []"
    by (cases "length rows \<le> length det") (simp_all add: behind_def map_filter_simps)
  then show "length (fused_lines det rows) = length det + length behind"
    unfolding lines by (cases "length rows \<le> length det") (auto simp: behind_def map_filter_simps)
  show "fused_lines det rows ! i = (if i < length rows then the (fst (rows ! i)) else det ! i)" if "i < length det"
    using that unfolding lines by (cases "length rows \<le> length det") (auto simp: nth_append behind_def map_filter_simps)
  show "fused_lines det rows ! i = behind ! (i - length det)" if "length det \<le> i" "i < length (fused_lines det rows)"
    using that unfolding lines by (cases "length rows \<le> length det") (auto simp: nth_append behind_def map_filter_simps)
qed

lemma fused_lines_backed:
  assumes "rows = map (\<lambda>(i, k). fuse_row (A i k) (at_index det i) (F i k)) (List.enumerate 0 ks)"
    and at: "\<And>i k. A i k \<Longrightarrow> i < length det
      \<Longrightarrow> \<exists>row. 2 \<le> length row \<and> same_row row \<and> row_beside row (description (det ! i)) \<and> backed (set row) (det ! i) (fst (F i k))"
    and behind: "\<And>i k. A i k \<Longrightarrow> length det \<le> i \<Longrightarrow> \<exists>row. 2 \<le> length row \<and> same_row row \<and> backed (set row) none (fst (F i k))"
  shows "lines_backed backed description none det (fused_lines det rows)"
proof -
  have len: "length rows = length ks" by (simp add: assms(1))
  have nth: "rows ! i = fuse_row (A i (ks ! i)) (at_index det i) (F i (ks ! i))" if "i < length ks" for i
    using that by (simp add: assms(1) nth_enumerate_eq)
  have "\<forall>i < min (length rows) (length det). fst (rows ! i) \<noteq> None"
    using nth len by (auto simp: fuse_row_def at_index_def)
  note pos = fused_lines_positions [OF this]
  have kept: "fused_lines det rows ! i = det ! i \<or> (\<exists>row. 2 \<le> length row \<and> same_row row \<and> row_beside row (description (det ! i))
      \<and> backed (set row) (det ! i) (fused_lines det rows ! i))" if i: "i < length det" for i
    using pos(2) [OF i] at [of i "ks ! i"] nth [of i] i len by (auto simp: fuse_row_def at_index_def)
  have added: "\<exists>row. 2 \<le> length row \<and> same_row row \<and> backed (set row) none (fused_lines det rows ! i)"
    if i: "length det \<le> i" "i < length (fused_lines det rows)" for i
  proof -
    have "fused_lines det rows ! i \<in> set (List.map_filter fst (drop (length det) rows))"
      using pos(1,3) i by (metis add_diff_inverse_nat nat_add_left_cancel_less not_le nth_mem)
    then obtain r where r: "r \<in> set (drop (length det) rows)" "fst r = Some (fused_lines det rows ! i)"
      unfolding map_filter_member by blast
    then obtain j where "j < length rows - length det" and r': "r = rows ! (length det + j)" by (auto simp: in_set_conv_nth)
    then have "length det + j < length rows" by simp
    with r(2) r' nth [of "length det + j"] len behind [of "length det + j" "ks ! (length det + j)"] show ?thesis
      by (auto simp: fuse_row_def at_index_def split: if_splits)
  qed
  show ?thesis unfolding lines_backed_def using pos(1) kept added by simp
qed

lemma fuse_po_rows_backed:
  assumes "fuzzy_exact fz"
  shows "lines_backed (po_line_backed doc) xpl_description no_po_line det (fused_lines det (fuse_po_rows fz doc det ks))"
proof (rule fused_lines_backed)
  let ?base = "\<lambda>i. case at_index det i of None \<Rightarrow> no_po_line | Some l \<Rightarrow> l"
  let ?A = "\<lambda>i k. row_associated fz doc (map_option xpl_description (at_index det i)) (plk_description k) (po_cells k)"
  show "fuse_po_rows fz doc det ks = map (\<lambda>(i, k). fuse_row (?A i k) (at_index det i) (fuse_po_line fz doc (?base i) k)) (List.enumerate 0 ks)"
    by (simp add: fuse_po_rows_def Let_def)
  fix i k
  assume a: "?A i k"
  have "(''description'', plk_description k) \<in> set (po_cells k)" by (simp add: po_cells_def)
  note row = row_associated_beside [OF a this] and line = fuse_po_line_backed [OF assms, of doc k]
  show "\<exists>row. 2 \<le> length row \<and> same_row row \<and> row_beside row (xpl_description (det ! i))
      \<and> po_line_backed doc (set row) (det ! i) (fst (fuse_po_line fz doc (?base i) k))" if "i < length det"
    using that row line by (intro exI [of _ "candidate_row fz doc (po_cells k)"]) (simp add: at_index_def)
  show "\<exists>row. 2 \<le> length row \<and> same_row row \<and> po_line_backed doc (set row) no_po_line (fst (fuse_po_line fz doc (?base i) k))"
    if "length det \<le> i"
    using that row(1,2) line by (intro exI [of _ "candidate_row fz doc (po_cells k)"]) (simp add: at_index_def)
qed

lemma fuse_receipt_rows_backed:
  assumes "fuzzy_exact fz"
  shows "lines_backed (receipt_line_backed doc) xrl_description no_receipt_line det (fused_lines det (fuse_receipt_rows fz doc det ks))"
proof (rule fused_lines_backed)
  let ?base = "\<lambda>i. case at_index det i of None \<Rightarrow> no_receipt_line | Some l \<Rightarrow> l"
  let ?A = "\<lambda>i k. row_associated fz doc (map_option xrl_description (at_index det i)) (rlk_description k) (receipt_cells k)"
  show "fuse_receipt_rows fz doc det ks = map (\<lambda>(i, k). fuse_row (?A i k) (at_index det i) (fuse_receipt_line fz doc (?base i) k)) (List.enumerate 0 ks)"
    by (simp add: fuse_receipt_rows_def Let_def)
  fix i k
  assume a: "?A i k"
  have "(''description'', rlk_description k) \<in> set (receipt_cells k)" by (simp add: receipt_cells_def)
  note row = row_associated_beside [OF a this] and line = fuse_receipt_line_backed [OF assms, of doc k]
  show "\<exists>row. 2 \<le> length row \<and> same_row row \<and> row_beside row (xrl_description (det ! i))
      \<and> receipt_line_backed doc (set row) (det ! i) (fst (fuse_receipt_line fz doc (?base i) k))" if "i < length det"
    using that row line by (intro exI [of _ "candidate_row fz doc (receipt_cells k)"]) (simp add: at_index_def)
  show "\<exists>row. 2 \<le> length row \<and> same_row row \<and> receipt_line_backed doc (set row) no_receipt_line (fst (fuse_receipt_line fz doc (?base i) k))"
    if "length det \<le> i"
    using that row(1,2) line by (intro exI [of _ "candidate_row fz doc (receipt_cells k)"]) (simp add: at_index_def)
qed

lemma fuse_supporting_backed:
  assumes "fuzzy_exact fz" and "fuse_supporting fz det k doc = Some f"
  shows "output_backed doc det (sf_output f)"
proof -
  note backed = fuse_supporting_field_backed [OF assms(1), where row = UNIV] fuse_po_rows_backed [OF assms(1)] fuse_receipt_rows_backed [OF assms(1)]
  show ?thesis
  proof (cases det; cases k)
    fix x c
    assume "det = OutputPO x" "k = PoCandidate c"
    with assms(2) show ?thesis by (auto simp: fuse_po_def fusion_of_def split_beta Let_def intro!: backed)
  next
    fix x c
    assume "det = OutputReceipt x" "k = ReceiptCandidate c"
    with assms(2) show ?thesis by (auto simp: fuse_receipt_def fusion_of_def split_beta Let_def intro!: backed)
  qed (use assms(2) in simp_all)
qed

lemma no_lines_valid: "po_line_valid no_po_line" "receipt_line_valid no_receipt_line"
  by (simp_all add: po_line_valid_def receipt_line_valid_def no_po_line_def no_receipt_line_def missing_valid)

lemma lines_backed_all:
  assumes "lines_backed backed description none det lines" and "list_all P det" and "P none"
    and "\<And>row d l. backed row d l \<Longrightarrow> P d \<Longrightarrow> P l"
  shows "list_all P lines"
proof -
  have "P (lines ! i)" if i: "i < length lines" for i
  proof (cases "i < length det")
    case True
    then have "P (det ! i)" using assms(2) by (simp add: list_all_length)
    with True assms(1,4) show ?thesis unfolding lines_backed_def by metis
  next
    case False
    with i assms(1,3,4) show ?thesis unfolding lines_backed_def by (metis not_le)
  qed
  then show ?thesis by (simp add: list_all_length)
qed

lemma output_backed_valid:
  assumes "output_backed doc det x" and "output_valid det"
  shows "output_valid x"
proof (cases det; cases x)
  fix a b
  assume "det = OutputPO a" "x = OutputPO b"
  moreover have "po_line_valid l" if "po_line_backed doc row d l" "po_line_valid d" for row d l
    using that by (auto simp: po_line_backed_def po_line_valid_def intro: field_backed_valid)
  ultimately show ?thesis using assms lines_backed_all [of "po_line_backed doc" xpl_description no_po_line "xpo_line_items a" "xpo_line_items b" po_line_valid] no_lines_valid(1)
    by (auto simp: po_valid_def intro: field_backed_valid)
next
  fix a b
  assume "det = OutputReceipt a" "x = OutputReceipt b"
  moreover have "receipt_line_valid l" if "receipt_line_backed doc row d l" "receipt_line_valid d" for row d l
    using that by (auto simp: receipt_line_backed_def receipt_line_valid_def intro: field_backed_valid)
  ultimately show ?thesis
    using assms lines_backed_all [of "receipt_line_backed doc" xrl_description no_receipt_line "xrc_line_items a" "xrc_line_items b" receipt_line_valid] no_lines_valid(2)
    by (auto simp: receipt_valid_def intro: field_backed_valid)
qed (use assms in simp_all)

text \<open>
  C16: A vision model adds to a purchase order or a receipt only what stands in the document. Every header field of the
  fused output is the extracted one, or gave up its value to another one that stands in the document, or was not
  extracted and takes a value that is read from a quote in whole words of a page, with these words as its evidence. No
  extracted line is lost or moved: at its position stands the line itself, or the line with each of its fields kept,
  given up or filled in this way from the cells of one row of the page, at the height of the line's description. Every
  further line has all its cells from one row. A valid output stays valid.
\<close>

theorem supporting_fusion_backed:
  assumes "fuzzy_exact fz" and "output_valid det" and "fuse_supporting fz det k doc = Some f"
  shows "output_backed doc det (sf_output f) \<and> output_valid (sf_output f)"
  using fuse_supporting_backed [OF assms(1,3)] output_backed_valid [OF _ assms(2)] by blast

definition equal_ratio :: fuzzy where
  "equal_ratio = \<lparr>fz_ratio = (\<lambda>s t. if s = t then Scaled 100 0 else Scaled 0 0), fz_threshold = Scaled 92 0\<rparr>"

definition unclaimed :: candidate_field where
  "unclaimed = \<lparr>kf_raw_value = None, kf_page = None, kf_evidence_quote = None\<rparr>"

definition stated :: "string \<Rightarrow> candidate_field" where
  "stated t = \<lparr>kf_raw_value = Some t, kf_page = Some 0, kf_evidence_quote = Some t\<rparr>"

text \<open>An order with one line of which only the quantity was read, and an answer that reads the row beside it.\<close>

definition sample_quantity_line :: extracted_po_line where
  "sample_quantity_line = no_po_line\<lparr>xpl_ordered_quantity := \<lparr>fvalue = Some (Scaled 7 0), fstatus = EXTRACTED,
     fevidence = evidence_from_words [cell_word 2 8 2 ''7''], frule_id = Some ''r''\<rparr>\<rparr>"

definition sample_order :: extracted_po where
  "sample_order = \<lparr>xpo_po_number = missing, xpo_issue_date = missing, xpo_vendor = missing, xpo_buyer = missing, xpo_currency = missing,
     xpo_subtotal = missing, xpo_tax = missing, xpo_total = missing, xpo_line_items = [sample_quantity_line]\<rparr>"

definition sample_row_candidate :: po_line_candidate where
  "sample_row_candidate = \<lparr>plk_line_number = stated ''L1'', plk_description = stated ''bolt'', plk_ordered_quantity = unclaimed,
     plk_unit_price = unclaimed, plk_line_total = unclaimed\<rparr>"

definition sample_order_candidate :: po_candidate where
  "sample_order_candidate = \<lparr>pok_po_number = unclaimed, pok_issue_date = unclaimed, pok_vendor = unclaimed, pok_buyer = unclaimed,
     pok_currency = unclaimed, pok_subtotal = unclaimed, pok_tax = unclaimed, pok_total = unclaimed, pok_line_items = [sample_row_candidate]\<rparr>"

definition row_document :: document_text where
  "row_document = \<lparr>dx_pages = [\<lparr>pt_page = 0, pt_width = Scaled 1 0, pt_height = Scaled 1 0, pt_source = EMBEDDED,
     pt_words = [cell_word 0 1 2 ''L1'', cell_word 1 4 2 ''bolt'']\<rparr>], dx_used_ocr = False\<rparr>"

lemma sample_row_associated:
  "row_associated equal_ratio row_document (Some missing) (plk_description sample_row_candidate) (po_cells sample_row_candidate)"
  by code_simp

lemma sample_description_filled:
  "fvalue (fst (fuse_supporting_field (=) as_text equal_ratio row_document ''description'' missing (stated ''bolt''))) = Some ''bolt''"
  by code_simp

definition sample_fused_order :: supporting_fusion where
  "sample_fused_order = fuse_po equal_ratio sample_order sample_order_candidate row_document"

lemma sample_fused_line:
  "\<exists>x l. sf_output sample_fused_order = OutputPO x \<and> xpo_line_items x = [l]
    \<and> fvalue (xpl_description l) = Some ''bolt'' \<and> fvalue (xpl_ordered_quantity l) = Some (Scaled 7 0)"
  using sample_row_associated sample_description_filled
  by (simp add: sample_fused_order_def fuse_po_def fusion_of_def split_beta Let_def sample_order_def sample_order_candidate_def
      fused_lines_def fuse_po_rows_def fuse_row_def at_index_def map_filter_simps fuse_po_line_def sample_row_candidate_def
      sample_quantity_line_def no_po_line_def fuse_supporting_field_def [of deq] unclaimed_def)

theorem supporting_fusion_backed_witness:
  "output_backed row_document (OutputPO sample_order) (sf_output sample_fused_order)
   \<and> (\<exists>x l. sf_output sample_fused_order = OutputPO x \<and> xpo_line_items x = [l]
       \<and> fvalue (xpl_description l) = Some ''bolt'' \<and> fvalue (xpl_ordered_quantity l) = Some (Scaled 7 0))"
proof -
  have "fuzzy_exact equal_ratio" by (auto simp: fuzzy_exact_def equal_ratio_def fle_iff fval_def sval_def)
  moreover have "output_valid (OutputPO sample_order)"
    by (simp add: sample_order_def po_valid_def missing_valid po_line_valid_def sample_quantity_line_def no_po_line_def
        validate_status_contract_def missing_def)
  ultimately have "output_backed row_document (OutputPO sample_order) (sf_output sample_fused_order)"
    using supporting_fusion_backed [of equal_ratio "OutputPO sample_order" "PoCandidate sample_order_candidate" row_document]
    by (simp add: sample_fused_order_def)
  with sample_fused_line show ?thesis by blast
qed

end
