(* ===== verification/Hybrid_Service.thy ===== *)
theory Hybrid_Service
  imports Worker Hybrid
begin

text \<open>
  \<^verbatim>\<open>extraction/hybrid/service.py\<close>: the extraction that asks a vision model when the deterministic result is
  incomplete. The result of the deterministic service is persisted first; the call of the model is a row of
  its own, so that a delivery that is repeated finds the answer of the first one. The text of the document
  and what the renderer and the provider give are inputs. The service takes no lock: \<^verbatim>\<open>process\<close> is a sequence of
  stages, one for each transaction, and the workers of the model interleave between them.
\<close>

subsection \<open>Model calls\<close>

definition HYBRID_EXTRACTOR :: "string \<times> string" where
  "HYBRID_EXTRACTOR = (''hybrid-routed'', ''0.5.0'')"

datatype model_call_status = CALL_SKIPPED | CALL_PROCESSING | CALL_SUCCEEDED | CALL_FAILED

record model_call =
  mc_id :: uuid
  mc_extraction_run_id :: uuid
  mc_provider :: string
  mc_requested_model :: string
  mc_prompt_version :: string
  mc_status :: model_call_status
  mc_request_fingerprint :: string
  mc_routing_json :: json
  mc_candidate :: "vision_invoice_candidate option"
  mc_grounding_fusion_json :: "json option"
  mc_error_code :: "string option"

record hybrid_settings =
  hs_provider_name :: string
  hs_requested_model :: string
  hs_prompt_version :: string
  hs_fuzzy :: fuzzy

text \<open>Fresh identifiers, with the times and the racing rows of the two extraction runs.\<close>

record hybrid_env =
  he_baseline :: worker_env
  he_run :: worker_env
  he_call_id :: uuid

text \<open>
  What rendering the pages and asking the provider give: \<open>ProviderUnavailable\<close> is the \<^verbatim>\<open>ValueError\<close> of the
  factory without credentials, which the service does not catch.
\<close>

datatype vision_outcome = Answered vision_invoice_candidate | ProviderFailed string | RenderingFailed string | ProviderUnavailable

text \<open>The tables, and the requests that were sent to the provider.\<close>

record hybrid_db =
  hdb_runs :: "extraction_run list"
  hdb_calls :: "model_call list"
  hdb_requests :: "(uuid \<times> string \<times> string) list"

definition call_key :: "model_call \<Rightarrow> uuid \<times> string \<times> string" where
  "call_key c = (mc_extraction_run_id c, mc_prompt_version c, mc_request_fingerprint c)"

fun routing_reason_text :: "routing_reason \<Rightarrow> string" where
  "routing_reason_text CRITICAL_FIELD_MISSING = ''CRITICAL_FIELD_MISSING''"
| "routing_reason_text CRITICAL_FIELD_AMBIGUOUS = ''CRITICAL_FIELD_AMBIGUOUS''"
| "routing_reason_text NO_LINE_ITEMS = ''NO_LINE_ITEMS''"
| "routing_reason_text INCOMPLETE_LINE_ITEMS = ''INCOMPLETE_LINE_ITEMS''"
| "routing_reason_text HEADER_ARITHMETIC_CONTRADICTION = ''HEADER_ARITHMETIC_CONTRADICTION''"
| "routing_reason_text LINE_ARITHMETIC_CONTRADICTION = ''LINE_ARITHMETIC_CONTRADICTION''"
| "routing_reason_text OCR_HEAVY_DOCUMENT = ''OCR_HEAVY_DOCUMENT''"

fun grounding_reason_text :: "grounding_reason \<Rightarrow> string" where
  "grounding_reason_text GROUNDED_EXACT = ''GROUNDED_EXACT''"
| "grounding_reason_text GROUNDED_FUZZY = ''GROUNDED_FUZZY''"
| "grounding_reason_text QUOTE_NOT_FOUND = ''QUOTE_NOT_FOUND''"
| "grounding_reason_text QUOTE_NOT_UNIQUE = ''QUOTE_NOT_UNIQUE''"
| "grounding_reason_text PAGE_OUT_OF_RANGE = ''PAGE_OUT_OF_RANGE''"
| "grounding_reason_text VALUE_NORMALIZATION_FAILED = ''VALUE_NORMALIZATION_FAILED''"
| "grounding_reason_text VALUE_NOT_FOUND_IN_QUOTE = ''VALUE_NOT_FOUND_IN_QUOTE''"
| "grounding_reason_text VALUE_NOT_UNIQUE_IN_QUOTE = ''VALUE_NOT_UNIQUE_IN_QUOTE''"
| "grounding_reason_text QUOTE_DIGITS_MISMATCH = ''QUOTE_DIGITS_MISMATCH''"

fun fusion_outcome_text :: "fusion_outcome \<Rightarrow> string" where
  "fusion_outcome_text DETERMINISTIC_ONLY = ''DETERMINISTIC_ONLY''"
| "fusion_outcome_text AGREEMENT = ''AGREEMENT''"
| "fusion_outcome_text VLM_FILLED = ''VLM_FILLED''"
| "fusion_outcome_text DISAGREEMENT_ABSTAINED = ''DISAGREEMENT_ABSTAINED''"
| "fusion_outcome_text UNGROUNDED_REJECTED = ''UNGROUNDED_REJECTED''"

definition routing_json :: "routing_decision \<Rightarrow> json" where
  "routing_json r = JObj [(''invoke_vlm'', JBool (rd_invoke_vlm r)),
     (''reasons'', JArr (map (JStr \<circ> routing_reason_text) (rd_reasons r))),
     (''deterministic_completeness'', JFloat (rd_deterministic_completeness r)),
     (''critical_field_completeness'', JFloat (rd_critical_field_completeness r)),
     (''complete_line_item_ratio'', JFloat (rd_complete_line_item_ratio r))]"

definition hybrid_fingerprint :: "lib \<Rightarrow> hybrid_settings \<Rightarrow> string \<Rightarrow> routing_decision \<Rightarrow> string" where
  "hybrid_fingerprint lib st sha routing = fingerprint lib (JObj [(''document_sha256'', JStr sha),
     (''extractor'', JStr (fst HYBRID_EXTRACTOR @ ''@'' @ snd HYBRID_EXTRACTOR)), (''provider'', JStr (hs_provider_name st)),
     (''model'', JStr (hs_requested_model st)), (''prompt_version'', JStr (hs_prompt_version st)), (''routing'', routing_json routing)])"

definition empty_summary :: json where
  "empty_summary = JObj [(''grounding'', JObj []), (''fusion'', JObj [])]"

definition fusion_summary :: "fusion_result \<Rightarrow> json" where
  "fusion_summary f = JObj [
     (''grounding'', JObj (map (map_prod id (JStr \<circ> grounding_reason_text)) (fu_grounding f)
        @ map (\<lambda>(i, r). (''candidate_rows.'' @ index_text i, JStr r)) (List.enumerate 0 (fu_row_reasons f)))),
     (''row_associations'', JObj (map (\<lambda>(k, v). (index_text k, JInt (int v))) (fu_row_associations f))),
     (''fusion'', JObj (map (map_prod id (JStr \<circ> fusion_outcome_text)) (fu_outcomes f)))]"

definition find_call :: "uuid \<times> string \<times> string \<Rightarrow> model_call list \<Rightarrow> model_call option" where
  "find_call key = find_row (\<lambda>c. call_key c = key)"

text \<open>
  The second half of \<^verbatim>\<open>_get_or_create_call\<close>, after the query has found nothing: the insert, or the row that another worker has
  committed since, which the unique key of the table and the second query bring up.
\<close>

definition create_call ::
  "hybrid_env \<Rightarrow> hybrid_settings \<Rightarrow> uuid \<Rightarrow> string \<Rightarrow> routing_decision \<Rightarrow> model_call list \<Rightarrow> model_call \<times> model_call list" where
  "create_call env st rid fp routing calls =
     (let call = \<lparr>mc_id = he_call_id env, mc_extraction_run_id = rid, mc_provider = hs_provider_name st,
            mc_requested_model = hs_requested_model st, mc_prompt_version = hs_prompt_version st, mc_status = CALL_PROCESSING,
            mc_request_fingerprint = fp, mc_routing_json = routing_json routing, mc_candidate = None,
            mc_grounding_fusion_json = None, mc_error_code = None\<rparr>
      in case find_call (call_key call) calls of
           None \<Rightarrow> (call, calls @ [call])
         | Some concurrent \<Rightarrow> (concurrent, calls))"

definition finish_call ::
  "uuid \<Rightarrow> model_call_status \<Rightarrow> vision_invoice_candidate option \<Rightarrow> json \<Rightarrow> string option \<Rightarrow> hybrid_db \<Rightarrow> hybrid_db" where
  "finish_call cid status candidate summary code db =
     db\<lparr>hdb_calls := update_rows (\<lambda>c. mc_id c = cid \<and> mc_status c \<noteq> CALL_SUCCEEDED)
       (\<lambda>c. c\<lparr>mc_status := status, mc_candidate := candidate, mc_grounding_fusion_json := Some summary, mc_error_code := code\<rparr>)
       (hdb_calls db)\<rparr>"

definition send_request :: "model_call \<Rightarrow> hybrid_db \<Rightarrow> hybrid_db" where
  "send_request call db = db\<lparr>hdb_requests := hdb_requests db @ [call_key call]\<rparr>"

subsection \<open>Processing a document\<close>

text \<open>A call that has no outcome yet, as the worker has read it; the provider is reached unless rendering or its factory fails.\<close>

definition needs_request :: "routing_decision \<Rightarrow> model_call \<Rightarrow> bool" where
  "needs_request routing call \<longleftrightarrow> rd_invoke_vlm routing
     \<and> \<not> (mc_status call = CALL_SUCCEEDED \<and> mc_candidate call \<noteq> None) \<and> mc_status call \<noteq> CALL_FAILED"

fun reaches_provider :: "vision_outcome \<Rightarrow> bool" where
  "reaches_provider (Answered _) = True"
| "reaches_provider (ProviderFailed _) = True"
| "reaches_provider (RenderingFailed _) = False"
| "reaches_provider ProviderUnavailable = False"

text \<open>The invoice to be persisted, after the call was made, replayed or skipped, with the record of the call.\<close>

definition hybrid_record ::
  "hybrid_settings \<Rightarrow> vision_outcome \<Rightarrow> invoice \<Rightarrow> document_text \<Rightarrow> routing_decision \<Rightarrow> model_call \<Rightarrow> hybrid_db
    \<Rightarrow> (raised, invoice) result \<times> hybrid_db" where
  "hybrid_record st outcome baseline dt routing call db =
     (if \<not> rd_invoke_vlm routing
      then (Inr baseline, finish_call (mc_id call) CALL_SKIPPED None empty_summary None db)
      else case (mc_status call, mc_candidate call) of
        (CALL_SUCCEEDED, Some k) \<Rightarrow> (Inr (fu_invoice (fuse_invoice (hs_fuzzy st) baseline k dt)), db)
      | (status, _) \<Rightarrow>
          if status = CALL_FAILED then (Inr baseline, db)
          else (case outcome of
            ProviderUnavailable \<Rightarrow> (Inl None, db)
          | RenderingFailed code \<Rightarrow> (Inr baseline, finish_call (mc_id call) CALL_FAILED None empty_summary (Some code) db)
          | ProviderFailed code \<Rightarrow> (Inr baseline, finish_call (mc_id call) CALL_FAILED None empty_summary (Some code) db)
          | Answered k \<Rightarrow>
              let fused = fuse_invoice (hs_fuzzy st) baseline k dt
              in (Inr (fu_invoice fused), finish_call (mc_id call) CALL_SUCCEEDED (Some k) (fusion_summary fused) None db)))"

definition hybrid_failed :: "uuid \<Rightarrow> extraction_run list \<Rightarrow> extraction_run list" where
  "hybrid_failed rid = update_rows (\<lambda>r. er_id r = rid) (\<lambda>r. r\<lparr>er_status := EXTRACTION_FAILED\<rparr>)"

text \<open>
  \<^verbatim>\<open>process\<close> between its commits: the worker has begun the deterministic run and is to read the document; has its invoice; has
  begun its own run; has read the text and found no call; has a call in hand; has the provider's reply; has the
  invoice to be written. A call in hand is the row as it was read.
\<close>

datatype hybrid_stage =
    Arrived
  | Reading uuid
  | Based invoice
  | Opened invoice uuid
  | Creating invoice uuid document_text
  | Called invoice uuid document_text model_call
  | Replied invoice uuid document_text model_call vision_outcome
  | Settled uuid invoice

definition based_on :: "extraction_run \<Rightarrow> (raised, extraction_run + hybrid_stage) result" where
  "based_on run = (case er_output run of None \<Rightarrow> Inl (Some SCHEMA_INVALID) | Some i \<Rightarrow> Inr (Inr (Based i)))"

definition call_fingerprint :: "lib \<Rightarrow> hybrid_settings \<Rightarrow> uuid \<times> string \<Rightarrow> invoice \<Rightarrow> document_text \<Rightarrow> string" where
  "call_fingerprint lib st document i dt = hybrid_fingerprint lib st (snd document) (route_extraction i dt)"

fun hybrid_advance ::
  "lib \<Rightarrow> hybrid_settings \<Rightarrow> hybrid_env \<Rightarrow> invoice reading \<Rightarrow> document_text reading \<Rightarrow> vision_outcome \<Rightarrow> uuid \<times> string \<Rightarrow> hybrid_stage
    \<Rightarrow> hybrid_db \<Rightarrow> (raised, extraction_run + hybrid_stage) result \<times> hybrid_db" where
  "hybrid_advance lib st env reading text outcome document Arrived db =
     (let (begun, runs) = extraction_begin EXTRACTOR (he_baseline env) (fst document) (hdb_runs db) in
      (case begun of
         Inl e \<Rightarrow> Inl e
       | Inr run \<Rightarrow> if er_status run = EXTRACTION_SUCCEEDED then based_on run else Inr (Inr (Reading (er_id run))),
       db\<lparr>hdb_runs := runs\<rparr>))"
| "hybrid_advance lib st env reading text outcome document (Reading rid) db =
     (let (read, runs) = extraction_finish reading rid (hdb_runs db) in
      (case read of Inl e \<Rightarrow> Inl e | Inr run \<Rightarrow> based_on run, db\<lparr>hdb_runs := runs\<rparr>))"
| "hybrid_advance lib st env reading text outcome document (Based i) db =
     (let (begun, runs) = extraction_begin HYBRID_EXTRACTOR (he_run env) (fst document) (hdb_runs db) in
      (case begun of
         Inl e \<Rightarrow> Inl e
       | Inr run \<Rightarrow> if er_status run = EXTRACTION_SUCCEEDED then Inr (Inl run) else Inr (Inr (Opened i (er_id run))),
       db\<lparr>hdb_runs := runs\<rparr>))"
| "hybrid_advance lib st env reading text outcome document (Opened i rid) db =
     (case text of
        OperationalFailure \<Rightarrow> (Inl None, db)
      | TerminalFailure e \<Rightarrow> (Inl (Some e), db\<lparr>hdb_runs := hybrid_failed rid (hdb_runs db)\<rparr>)
      | Extracted dt \<Rightarrow>
          (case find_call (rid, hs_prompt_version st, call_fingerprint lib st document i dt) (hdb_calls db) of
             None \<Rightarrow> (Inr (Inr (Creating i rid dt)), db)
           | Some call \<Rightarrow> (Inr (Inr (Called i rid dt call)), db)))"
| "hybrid_advance lib st env reading text outcome document (Creating i rid dt) db =
     (let (call, calls) = create_call env st rid (call_fingerprint lib st document i dt) (route_extraction i dt) (hdb_calls db)
      in (Inr (Inr (Called i rid dt call)), db\<lparr>hdb_calls := calls\<rparr>))"
| "hybrid_advance lib st env reading text outcome document (Called i rid dt call) db =
     (Inr (Inr (Replied i rid dt call outcome)),
      if needs_request (route_extraction i dt) call \<and> reaches_provider outcome then send_request call db else db)"
| "hybrid_advance lib st env reading text outcome document (Replied i rid dt call reply) db =
     (case hybrid_record st reply i dt (route_extraction i dt) call db of
        (Inl e, db1) \<Rightarrow> (Inl e, db1)
      | (Inr invoice, db1) \<Rightarrow> (Inr (Inr (Settled rid invoice)), db1))"
| "hybrid_advance lib st env reading text outcome document (Settled rid invoice) db =
     (let (written, runs) = extraction_finish (Extracted invoice) rid (hdb_runs db) in
      (case written of Inl e \<Rightarrow> Inl e | Inr run \<Rightarrow> Inr (Inl run), db\<lparr>hdb_runs := runs\<rparr>))"

text \<open>A delivery that no other worker disturbs, up to a stage at which it stops.\<close>

fun stages_left :: "hybrid_stage \<Rightarrow> nat" where
  "stages_left Arrived = 7"
| "stages_left (Reading _) = 6"
| "stages_left (Based _) = 5"
| "stages_left (Opened _ _) = 4"
| "stages_left (Creating _ _ _) = 3"
| "stages_left (Called _ _ _ _) = 2"
| "stages_left (Replied _ _ _ _ _) = 1"
| "stages_left (Settled _ _) = 0"

lemma based_on_left: "based_on run = Inr (Inr stage) \<Longrightarrow> stages_left stage = 5"
  by (auto simp: based_on_def split: option.splits)

lemma hybrid_advance_left:
  assumes "hybrid_advance lib st env reading text outcome document stage db = (Inr (Inr stage'), db')"
  shows "stages_left stage' < stages_left stage"
  using assms
  by (cases stage) (auto simp: based_on_left split: sum.splits prod.splits if_splits reading.splits option.splits)

function hybrid_run ::
  "(hybrid_stage \<Rightarrow> bool) \<Rightarrow> lib \<Rightarrow> hybrid_settings \<Rightarrow> hybrid_env \<Rightarrow> invoice reading \<Rightarrow> document_text reading \<Rightarrow> vision_outcome
    \<Rightarrow> uuid \<times> string \<Rightarrow> hybrid_stage \<Rightarrow> hybrid_db \<Rightarrow> (raised, extraction_run + hybrid_stage) result \<times> hybrid_db" where
  "hybrid_run stop lib st env reading text outcome document stage db =
     (if stop stage then (Inr (Inr stage), db)
      else case hybrid_advance lib st env reading text outcome document stage db of
        (Inl e, db') \<Rightarrow> (Inl e, db')
      | (Inr (Inl run), db') \<Rightarrow> (Inr (Inl run), db')
      | (Inr (Inr stage'), db') \<Rightarrow> hybrid_run stop lib st env reading text outcome document stage' db')"
  by pat_completeness auto
termination
  by (relation "measure (\<lambda>(_, _, _, _, _, _, _, _, stage, _). stages_left stage)")
    (auto dest: hybrid_advance_left [OF sym])

declare hybrid_run.simps [simp del]

text \<open>A worker that dies before it writes its result leaves the tables of \<open>hybrid_attempt\<close>.\<close>

fun is_settled :: "hybrid_stage \<Rightarrow> bool" where
  "is_settled (Settled _ _) = True"
| "is_settled _ = False"

definition hybrid_attempt ::
  "lib \<Rightarrow> hybrid_settings \<Rightarrow> hybrid_env \<Rightarrow> invoice reading \<Rightarrow> document_text reading \<Rightarrow> vision_outcome \<Rightarrow> uuid \<times> string \<Rightarrow> hybrid_db
    \<Rightarrow> (raised, extraction_run + hybrid_stage) result \<times> hybrid_db" where
  "hybrid_attempt lib st env reading text outcome document db =
     hybrid_run is_settled lib st env reading text outcome document Arrived db"


subsection \<open>What an extraction leaves of the other runs\<close>

definition succeeded_runs :: "extraction_run list \<Rightarrow> extraction_run set" where
  "succeeded_runs runs = {r \<in> set runs. er_status r = EXTRACTION_SUCCEEDED}"

definition run_ident :: "extraction_run \<Rightarrow> uuid \<times> uuid \<times> string \<times> string" where
  "run_ident r = (er_id r, er_document_id r, er_extractor_name r, er_extractor_version r)"

lemma run_ident_writes [simp]:
  "map run_ident (set_run rid st out runs) = map run_ident runs"
  "map run_ident (set_unless_succeeded rid st runs) = map run_ident runs"
  "map run_ident (mark_processing run runs) = map run_ident runs"
  "map run_ident (hybrid_failed rid runs) = map run_ident runs"
  by (simp_all add: set_run_def set_unless_succeeded_def mark_processing_def hybrid_failed_def map_update_rows run_ident_def)

lemma succeeded_runs_writes [simp]:
  "st \<noteq> EXTRACTION_SUCCEEDED \<Longrightarrow> succeeded_runs (set_unless_succeeded rid st runs) = succeeded_runs runs"
  "succeeded_runs (mark_processing run runs) = succeeded_runs runs"
  by (auto simp: succeeded_runs_def set_unless_succeeded_def mark_processing_def set_update_rows image_iff split: if_splits)

text \<open>The part before the document is read: every run keeps its identity and no result appears or goes.\<close>

lemma extraction_begin_frame:
  assumes "extraction_begin ex env doc runs = (x, runs')" and "runs_ok runs" and "fresh_run env runs"
  shows "succeeded_runs runs' = succeeded_runs runs" and "set (map run_ident runs) \<subseteq> set (map run_ident runs')"
proof -
  obtain g runs1 where g: "get_or_create_run ex env doc runs = (g, runs1)" by fastforce
  from get_or_create_run_ok [OF g assms(2,3)] obtain run new where
    r: "g = Inr run" "runs1 = runs @ new" "\<forall>r \<in> set new. er_status r = EXTRACTION_PROCESSING" by metis
  then have 1: "succeeded_runs runs1 = succeeded_runs runs" by (auto simp: succeeded_runs_def)
  have either: "runs' = runs1 \<or> runs' = mark_processing run runs1"
    using assms(1) g r(1) by (auto simp: extraction_begin_def Let_def split: if_splits option.splits)
  with 1 show "succeeded_runs runs' = succeeded_runs runs" using succeeded_runs_writes(2) by metis
  have "map run_ident runs' = map run_ident runs @ map run_ident new" using either r(2) by (elim disjE) simp_all
  then show "set (map run_ident runs) \<subseteq> set (map run_ident runs')" by (metis Un_upper1 set_append)
qed

lemma succeeded_set_run:
  "succeeded_runs (set_run rid EXTRACTION_SUCCEEDED (Some i) runs)
    = {r \<in> succeeded_runs runs. er_id r \<noteq> rid} \<union> (\<lambda>r. r\<lparr>er_status := EXTRACTION_SUCCEEDED, er_output := Some i\<rparr>) ` {r \<in> set runs. er_id r = rid}"
  by (auto simp: succeeded_runs_def set_run_def set_update_rows image_iff split: if_splits)

lemma succeeded_hybrid_failed: "succeeded_runs (hybrid_failed rid runs) = {r \<in> succeeded_runs runs. er_id r \<noteq> rid}"
  by (auto simp: succeeded_runs_def hybrid_failed_def set_update_rows image_iff split: if_splits)

text \<open>The write of a result, also over one that another worker has written since.\<close>

lemma extraction_finish_writes:
  assumes "extraction_finish (Extracted i) (er_id run) runs = (x, runs')" and "runs_ok runs" and "run \<in> set runs"
  shows "x = Inr (run\<lparr>er_status := EXTRACTION_SUCCEEDED, er_output := Some i\<rparr>)"
    and "runs' = set_run (er_id run) EXTRACTION_SUCCEEDED (Some i) runs"
proof -
  have "find_row (\<lambda>r. er_id r = er_id run) (set_run (er_id run) EXTRACTION_SUCCEEDED (Some i) runs)
      = Some (run\<lparr>er_status := EXTRACTION_SUCCEEDED, er_output := Some i\<rparr>)"
    using find_run_id [OF assms(2,3)] by (simp add: set_run_def find_row_update_rows)
  with assms(1) show "x = Inr (run\<lparr>er_status := EXTRACTION_SUCCEEDED, er_output := Some i\<rparr>)"
    and "runs' = set_run (er_id run) EXTRACTION_SUCCEEDED (Some i) runs"
    by (simp_all add: extraction_finish_def Let_def)
qed

subsection \<open>What the runs say\<close>

text \<open>
  Documents do not change, their text is read the same way each time and the deterministic extractor is a function of the text:
  \<open>content\<close> is the text of a document and \<open>base\<close> the invoice the extractor reads in it.
\<close>

definition known_run :: "extraction_run list \<Rightarrow> uuid \<Rightarrow> uuid \<Rightarrow> string \<times> string \<Rightarrow> bool" where
  "known_run runs rid doc ex \<longleftrightarrow> (rid, doc, ex) \<in> set (map run_ident runs)"

definition based :: "extraction_run list \<Rightarrow> uuid \<Rightarrow> bool" where
  "based runs doc \<longleftrightarrow> (\<exists>b \<in> succeeded_runs runs. own_run EXTRACTOR doc b)"

text \<open>A result of the hybrid extractor rests on the result of the deterministic one.\<close>

definition rests_on :: "(uuid \<Rightarrow> document_text) \<Rightarrow> (uuid \<Rightarrow> invoice) \<Rightarrow> extraction_run list \<Rightarrow> uuid \<Rightarrow> invoice \<Rightarrow> bool" where
  "rests_on content base runs doc i \<longleftrightarrow> based runs doc \<and> invoice_supported (content doc) (base doc) i"

definition runs_good :: "(uuid \<Rightarrow> document_text) \<Rightarrow> (uuid \<Rightarrow> invoice) \<Rightarrow> extraction_run list \<Rightarrow> bool" where
  "runs_good content base runs \<longleftrightarrow> runs_ok runs
     \<and> (\<forall>r \<in> succeeded_runs runs. own_run EXTRACTOR (er_document_id r) r \<longrightarrow> er_output r = Some (base (er_document_id r)))
     \<and> (\<forall>r \<in> succeeded_runs runs. own_run HYBRID_EXTRACTOR (er_document_id r) r \<longrightarrow>
          (\<exists>i. er_output r = Some i \<and> rests_on content base runs (er_document_id r) i))"

definition runs_grow :: "extraction_run list \<Rightarrow> extraction_run list \<Rightarrow> bool" where
  "runs_grow runs runs' \<longleftrightarrow> set (map run_ident runs) \<subseteq> set (map run_ident runs') \<and> (\<forall>doc. based runs doc \<longrightarrow> based runs' doc)"

lemma extractors_differ: "own_run EXTRACTOR doc r \<Longrightarrow> \<not> own_run HYBRID_EXTRACTOR doc' r"
  by (auto simp: own_run_def EXTRACTOR_def HYBRID_EXTRACTOR_def)

lemma runs_grow_refl [simp]: "runs_grow runs runs"
  by (simp add: runs_grow_def)

lemma runs_grow_facts:
  assumes "runs_grow runs runs'"
  shows "known_run runs rid doc ex \<Longrightarrow> known_run runs' rid doc ex" and "based runs doc \<Longrightarrow> based runs' doc"
    and "rests_on content base runs doc i \<Longrightarrow> rests_on content base runs' doc i"
  using assms by (auto simp: runs_grow_def known_run_def rests_on_def)

lemma known_run_row:
  assumes "known_run runs rid doc ex"
  obtains run where "run \<in> set runs" and "er_id run = rid" and "own_run ex doc run"
  using assms by (auto simp: known_run_def run_ident_def own_run_def)

lemma known_run_of: "run \<in> set runs \<Longrightarrow> own_run ex doc run \<Longrightarrow> known_run runs (er_id run) doc ex"
  by (auto simp: known_run_def run_ident_def own_run_def intro!: image_eqI [of _ _ run])

lemma run_unique: "runs_ok runs \<Longrightarrow> r \<in> set runs \<Longrightarrow> s \<in> set runs \<Longrightarrow> er_id r = er_id s \<Longrightarrow> r = s"
  by (auto simp: runs_ok_def distinct_map inj_on_def)

lemma known_run_doc: "runs_ok runs \<Longrightarrow> known_run runs rid doc ex \<Longrightarrow> known_run runs rid doc' ex' \<Longrightarrow> doc' = doc \<and> ex' = ex"
  by (elim known_run_row) (auto simp: own_run_def dest: run_unique)

lemma runs_good_same:
  assumes "runs_good content base runs" and "runs_ok runs'" and "succeeded_runs runs' = succeeded_runs runs"
    and "set (map run_ident runs) \<subseteq> set (map run_ident runs')"
  shows "runs_good content base runs'" and "runs_grow runs runs'"
  using assms by (simp_all add: runs_good_def runs_grow_def based_def rests_on_def)

lemma hybrid_failed_good:
  assumes "runs_good content base runs" and "known_run runs rid doc HYBRID_EXTRACTOR"
  shows "runs_good content base (hybrid_failed rid runs)" and "runs_grow runs (hybrid_failed rid runs)"
proof -
  have ok: "runs_ok runs" using assms(1) by (simp add: runs_good_def)
  have "er_id b \<noteq> rid" if "b \<in> succeeded_runs runs" "own_run EXTRACTOR d b" for b d
    using that known_run_of [of b runs EXTRACTOR d] known_run_doc [OF ok assms(2)]
    by (auto simp: succeeded_runs_def EXTRACTOR_def HYBRID_EXTRACTOR_def)
  then have based: "based (hybrid_failed rid runs) d = based runs d" for d
    by (auto simp: based_def succeeded_hybrid_failed)
  then show "runs_grow runs (hybrid_failed rid runs)" by (simp add: runs_grow_def del: set_map)
  have "runs_ok (hybrid_failed rid runs)"
    using ok by (auto simp: runs_ok_def hybrid_failed_def map_update_rows list_all_iff set_update_rows)
  with assms(1) based show "runs_good content base (hybrid_failed rid runs)"
    by (auto simp: runs_good_def succeeded_hybrid_failed rests_on_def)
qed

text \<open>A result of either extractor that is written for a document.\<close>

lemma set_run_good:
  assumes "runs_good content base runs" and "known_run runs rid doc ex"
    and "ex = EXTRACTOR \<and> i = base doc \<or> ex = HYBRID_EXTRACTOR \<and> rests_on content base runs doc i"
  defines "runs' \<equiv> set_run rid EXTRACTION_SUCCEEDED (Some i) runs"
  shows "runs_good content base runs'" and "runs_grow runs runs'" and "ex = EXTRACTOR \<Longrightarrow> based runs' doc"
proof -
  have ok: "runs_ok runs" using assms(1) by (simp add: runs_good_def)
  from assms(2) obtain run where run: "run \<in> set runs" "er_id run = rid" "own_run ex doc run" by (rule known_run_row)
  let ?done = "run\<lparr>er_status := EXTRACTION_SUCCEEDED, er_output := Some i\<rparr>"
  have one: "{r \<in> set runs. er_id r = rid} = {run}" using run run_unique [OF ok] by blast
  have results: "succeeded_runs runs' = insert ?done {r \<in> succeeded_runs runs. er_id r \<noteq> rid}"
    unfolding runs'_def succeeded_set_run one by auto
  have based: "based runs d \<Longrightarrow> based runs' d" for d
  proof -
    assume "based runs d"
    then obtain b where b: "b \<in> succeeded_runs runs" "own_run EXTRACTOR d b" by (auto simp: based_def)
    show "based runs' d"
    proof (cases "er_id b = rid")
      case True
      then have "b = run" using b(1) run run_unique [OF ok] by (auto simp: succeeded_runs_def)
      then have "own_run EXTRACTOR d ?done" using b(2) by (simp add: own_run_def)
      then show ?thesis by (auto simp: based_def results)
    next
      case False
      with b show ?thesis by (auto simp: based_def results)
    qed
  qed
  then show grow: "runs_grow runs runs'" by (simp add: runs_grow_def runs'_def del: set_map)
  show "based runs' doc" if "ex = EXTRACTOR"
    using run(3) that by (auto simp: based_def results own_run_def)
  have own: "own_run e d ?done \<longleftrightarrow> own_run e d run" for e d by (simp add: own_run_def)
  have doc: "er_document_id run = doc" using run(3) by (simp add: own_run_def)
  have "runs_ok runs'" using ok unfolding runs'_def by (rule set_runs_ok)
  with assms(1,3) run(3) runs_grow_facts(3) [OF grow, of content base] doc show "runs_good content base runs'"
    unfolding runs_good_def results by (auto simp: own dest: extractors_differ)
qed

lemma begin_good:
  assumes "runs_good content base runs" and "fresh_run env runs" and "extraction_begin ex env doc runs = (x, runs')"
  obtains run where "x = Inr run" and "run \<in> set runs'" and "own_run ex doc run" and "runs_good content base runs'" and "runs_grow runs runs'"
    and "succeeded_runs runs' = succeeded_runs runs"
proof -
  have ok: "runs_ok runs" using assms(1) by (simp add: runs_good_def)
  from extraction_begin_ok [OF assms(3) ok assms(2)] obtain run where
    "x = Inr run" "run \<in> set runs'" "runs_ok runs'" "own_run ex doc run" by metis
  moreover note frame = extraction_begin_frame [OF assms(3) ok assms(2)]
  ultimately show ?thesis using that runs_good_same [OF assms(1) _ frame] frame(1) by blast
qed

lemma finish_good:
  assumes "runs_good content base runs" and "known_run runs rid doc ex" and "extraction_finish reading rid runs = (x, runs')"
    and "\<And>i. reading = Extracted i \<Longrightarrow> ex = EXTRACTOR \<and> i = base doc \<or> ex = HYBRID_EXTRACTOR \<and> rests_on content base runs doc i"
  shows "runs_good content base runs'" and "runs_grow runs runs'"
    and "x = Inr r \<Longrightarrow> \<exists>i. reading = Extracted i \<and> er_output r = Some i \<and> (ex = EXTRACTOR \<longrightarrow> based runs' doc)"
proof -
  have ok: "runs_ok runs" using assms(1) by (simp add: runs_good_def)
  have "runs_good content base runs' \<and> runs_grow runs runs'
      \<and> (x = Inr r \<longrightarrow> (\<exists>i. reading = Extracted i \<and> er_output r = Some i \<and> (ex = EXTRACTOR \<longrightarrow> based runs' doc)))"
  proof (cases reading)
    case (Extracted i)
    from assms(2) obtain run where run: "run \<in> set runs" "er_id run = rid" by (rule known_run_row)
    note wr = extraction_finish_writes [OF assms(3) [unfolded Extracted, folded run(2)] ok run(1)]
    have "runs' = set_run rid EXTRACTION_SUCCEEDED (Some i) runs" using wr(2) run(2) by simp
    with wr(1) set_run_good [OF assms(1,2) assms(4) [OF Extracted]] Extracted show ?thesis by auto
  next
    case (TerminalFailure e)
    with assms(3) have "x = Inl (Some e)" "runs' = set_unless_succeeded rid EXTRACTION_FAILED runs" by (simp_all add: extraction_finish_def)
    moreover have "runs_ok (set_unless_succeeded rid EXTRACTION_FAILED runs)" using ok by (intro set_runs_ok) simp_all
    ultimately show ?thesis using runs_good_same [OF assms(1), of runs'] by (simp del: set_map)
  next
    case OperationalFailure
    with assms(1,3) show ?thesis by (auto simp: extraction_finish_def)
  qed
  then show "runs_good content base runs'" and "runs_grow runs runs'"
    and "x = Inr r \<Longrightarrow> \<exists>i. reading = Extracted i \<and> er_output r = Some i \<and> (ex = EXTRACTOR \<longrightarrow> based runs' doc)" by blast+
qed

subsection \<open>The calls\<close>

definition calls_ok :: "model_call list \<Rightarrow> bool" where
  "calls_ok calls \<longleftrightarrow> distinct (map mc_id calls) \<and> distinct (map call_key calls)
     \<and> list_all (\<lambda>c. mc_status c = CALL_SUCCEEDED \<longrightarrow> mc_candidate c \<noteq> None) calls"

definition fresh_call :: "hybrid_env \<Rightarrow> model_call list \<Rightarrow> bool" where
  "fresh_call env calls \<longleftrightarrow> he_call_id env \<notin> set (map mc_id calls)"

definition call_ident :: "model_call \<Rightarrow> uuid \<times> uuid \<times> string \<times> string" where
  "call_ident c = (mc_id c, call_key c)"

text \<open>A call whose outcome is recorded.\<close>

definition answered :: "model_call list \<Rightarrow> uuid \<times> string \<times> string \<Rightarrow> bool" where
  "answered calls key \<longleftrightarrow> (\<exists>c \<in> set calls. call_key c = key \<and> mc_status c \<in> {CALL_SUCCEEDED, CALL_FAILED})"

lemma call_unique: "calls_ok calls \<Longrightarrow> c \<in> set calls \<Longrightarrow> d \<in> set calls \<Longrightarrow> mc_id c = mc_id d \<or> call_key c = call_key d \<Longrightarrow> c = d"
  by (auto simp: calls_ok_def distinct_map inj_on_def)

lemma create_call_ok:
  assumes "create_call env st rid fp routing calls = (call, calls')" and "calls_ok calls" and "fresh_call env calls"
  shows "calls_ok calls'" and "call \<in> set calls'" and "set calls \<subseteq> set calls'" and "call_key call = (rid, hs_prompt_version st, fp)"
    and "\<And>c. c \<in> set calls' \<Longrightarrow> c \<in> set calls \<or> mc_status c = CALL_PROCESSING"
proof -
  let ?key = "(rid, hs_prompt_version st, fp)"
  have "calls_ok calls' \<and> call \<in> set calls' \<and> set calls \<subseteq> set calls' \<and> call_key call = ?key
      \<and> (\<forall>c \<in> set calls'. c \<in> set calls \<or> mc_status c = CALL_PROCESSING)"
  proof (cases "find_call ?key calls")
    case (Some c)
    with assms(1,2) show ?thesis by (auto simp: create_call_def find_call_def call_key_def Let_def dest: find_row_Some)
  next
    case None
    with assms(1) have new: "calls' = calls @ [call]" "mc_id call = he_call_id env" "call_key call = ?key" "mc_status call = CALL_PROCESSING"
      by (auto simp: create_call_def call_key_def Let_def)
    have "?key \<notin> set (map call_key calls)" using None by (auto simp: find_call_def find_row_None_iff)
    with new assms(2,3) show ?thesis by (auto simp: calls_ok_def fresh_call_def)
  qed
  then show "calls_ok calls'" and "call \<in> set calls'" and "set calls \<subseteq> set calls'" and "call_key call = ?key"
    and "\<And>c. c \<in> set calls' \<Longrightarrow> c \<in> set calls \<or> mc_status c = CALL_PROCESSING" by blast+
qed

lemma finish_call_sel [simp]:
  "hdb_runs (finish_call cid st k j e db) = hdb_runs db" "hdb_requests (finish_call cid st k j e db) = hdb_requests db"
  "hdb_runs (send_request c db) = hdb_runs db" "hdb_requests (send_request c db) = hdb_requests db @ [call_key c]"
  "hdb_calls (send_request c db) = hdb_calls db"
  by (simp_all add: finish_call_def send_request_def)

lemma finish_call_idents [simp]: "map call_ident (hdb_calls (finish_call cid st k j e db)) = map call_ident (hdb_calls db)"
  by (simp add: finish_call_def map_update_rows call_ident_def call_key_def)

lemma finish_call_ok:
  assumes "calls_ok (hdb_calls db)" and "st = CALL_SUCCEEDED \<longrightarrow> k \<noteq> None"
  shows "calls_ok (hdb_calls (finish_call cid st k j e db))"
  using assms by (auto simp: calls_ok_def finish_call_def map_update_rows call_key_def list_all_iff set_update_rows)

lemma finish_call_keeps:
  "c \<in> set (hdb_calls db) \<Longrightarrow> mc_status c = CALL_SUCCEEDED \<Longrightarrow> c \<in> set (hdb_calls (finish_call cid st k j e db))"
  by (force simp: finish_call_def set_update_rows)

lemma finish_call_new:
  "c \<in> set (hdb_calls (finish_call cid st k j e db)) \<Longrightarrow> c \<in> set (hdb_calls db) \<or> mc_id c = cid \<and> mc_status c = st \<and> mc_candidate c = k"
  by (auto simp: finish_call_def set_update_rows split: if_splits)

text \<open>The recorded outcome of a call goes only if the call is marked as skipped.\<close>

lemma finish_call_answered:
  assumes "answered (hdb_calls db) key" and "st \<in> {CALL_SUCCEEDED, CALL_FAILED} \<or> (\<forall>c \<in> set (hdb_calls db). call_key c = key \<longrightarrow> mc_id c \<noteq> cid)"
  shows "answered (hdb_calls (finish_call cid st k j e db)) key"
proof -
  obtain c where c: "c \<in> set (hdb_calls db)" "call_key c = key" "mc_status c \<in> {CALL_SUCCEEDED, CALL_FAILED}"
    using assms(1) by (auto simp: answered_def)
  let ?f = "\<lambda>c. if mc_id c = cid \<and> mc_status c \<noteq> CALL_SUCCEEDED
    then c\<lparr>mc_status := st, mc_candidate := k, mc_grounding_fusion_json := Some j, mc_error_code := e\<rparr> else c"
  have "?f c \<in> set (hdb_calls (finish_call cid st k j e db))" using c(1) by (simp add: finish_call_def set_update_rows)
  moreover have "call_key (?f c) = key" "mc_status (?f c) \<in> {CALL_SUCCEEDED, CALL_FAILED}" using c assms(2) by (auto simp: call_key_def)
  ultimately show ?thesis unfolding answered_def by blast
qed

text \<open>The outcome of a call that is recorded in its row.\<close>

definition recorded :: "hybrid_settings \<Rightarrow> invoice \<Rightarrow> document_text \<Rightarrow> routing_decision \<Rightarrow> model_call \<Rightarrow> invoice \<Rightarrow> bool" where
  "recorded st baseline dt routing c i \<longleftrightarrow>
     (if rd_invoke_vlm routing
      then mc_status c = CALL_FAILED \<and> i = baseline
        \<or> mc_status c = CALL_SUCCEEDED \<and> (\<exists>k. mc_candidate c = Some k \<and> i = fu_invoice (fuse_invoice (hs_fuzzy st) baseline k dt))
      else i = baseline)"

lemma invoice_supported_refl [simp]: "invoice_supported dt i i"
  by (simp add: invoice_supported_def line_supported_def list_all2_refl)

lemma recorded_supported: "recorded st baseline dt routing c i \<Longrightarrow> invoice_supported dt baseline i"
  by (auto simp: recorded_def fuse_invoice_supported split: if_splits)

text \<open>The branches: the call is skipped, replayed, not possible, or made and recorded.\<close>

lemma record_cases:
  assumes "hybrid_record st outcome baseline dt routing call db = (x, db')" and "mc_status call = CALL_SUCCEEDED \<longrightarrow> mc_candidate call \<noteq> None"
  obtains (skip) "\<not> rd_invoke_vlm routing" and "x = Inr baseline" and "db' = finish_call (mc_id call) CALL_SKIPPED None empty_summary None db"
  | (replay) i where "rd_invoke_vlm routing" and "x = Inr i" and "db' = db" and "recorded st baseline dt routing call i"
  | (unavailable) e where "x = Inl e" and "db' = db"
  | (made) status k j e i where "rd_invoke_vlm routing" and "mc_status call \<notin> {CALL_SUCCEEDED, CALL_FAILED}" and "x = Inr i"
      and "status \<in> {CALL_SUCCEEDED, CALL_FAILED}" and "status = CALL_SUCCEEDED \<longrightarrow> k \<noteq> None"
      and "db' = finish_call (mc_id call) status k j e db"
      and "\<forall>c. mc_status c = status \<and> mc_candidate c = k \<longrightarrow> recorded st baseline dt routing c i"
proof (cases "rd_invoke_vlm routing")
  case False
  with assms(1) show ?thesis by (intro skip) (auto simp: hybrid_record_def)
next
  case invoke: True
  show ?thesis
  proof (cases "mc_status call \<in> {CALL_SUCCEEDED, CALL_FAILED}")
    case True
    with assms invoke show ?thesis
      by (cases "mc_candidate call") (auto simp: hybrid_record_def recorded_def intro!: replay)
  next
    case False
    then have settle: "(x, db') = (case outcome of
            ProviderUnavailable \<Rightarrow> (Inl None, db)
          | RenderingFailed code \<Rightarrow> (Inr baseline, finish_call (mc_id call) CALL_FAILED None empty_summary (Some code) db)
          | ProviderFailed code \<Rightarrow> (Inr baseline, finish_call (mc_id call) CALL_FAILED None empty_summary (Some code) db)
          | Answered k \<Rightarrow>
              let fused = fuse_invoice (hs_fuzzy st) baseline k dt
              in (Inr (fu_invoice fused), finish_call (mc_id call) CALL_SUCCEEDED (Some k) (fusion_summary fused) None db))"
      using assms(1) invoke by (cases "mc_status call") (auto simp: hybrid_record_def)
    note call_made = made [OF invoke False]
    show ?thesis
    proof (cases outcome)
      case (Answered k)
      with settle invoke show ?thesis
        by (intro call_made [where k = "Some k" and status = CALL_SUCCEEDED]) (auto simp: Let_def recorded_def)
    next
      case (ProviderFailed code)
      with settle invoke show ?thesis
        by (intro call_made [where k = None and status = CALL_FAILED]) (auto simp: recorded_def)
    next
      case (RenderingFailed code)
      with settle invoke show ?thesis
        by (intro call_made [where k = None and status = CALL_FAILED]) (auto simp: recorded_def)
    next
      case ProviderUnavailable
      with settle show ?thesis by (intro unavailable) auto
    qed
  qed
qed

subsection \<open>Workers\<close>

type_synonym hybrid_worker = "hybrid_settings \<times> (uuid \<times> string) \<times> hybrid_stage"

record hybrid_system =
  hy_db :: hybrid_db
  hy_workers :: "hybrid_worker list"

text \<open>
  Any number of workers have any documents in hand, each with its settings. Each moves from one stage to the next on its own, with
  whatever the document, the renderer and the provider give, and may die at any stage. A worker that loses a race for
  the insert of a run finds the row of the other worker, as a later one does.
\<close>

fun stage_fresh :: "hybrid_env \<Rightarrow> hybrid_stage \<Rightarrow> hybrid_db \<Rightarrow> bool" where
  "stage_fresh env Arrived db = fresh_run (he_baseline env) (hdb_runs db)"
| "stage_fresh env (Based _) db = fresh_run (he_run env) (hdb_runs db)"
| "stage_fresh env (Creating _ _ _) db = fresh_call env (hdb_calls db)"
| "stage_fresh env _ db = True"

definition reads :: "'a \<Rightarrow> 'a reading \<Rightarrow> bool" where
  "reads x reading \<longleftrightarrow> (case reading of Extracted y \<Rightarrow> y = x | _ \<Rightarrow> True)"

inductive hybrid_step :: "lib \<Rightarrow> (uuid \<Rightarrow> document_text) \<Rightarrow> (uuid \<Rightarrow> invoice) \<Rightarrow> hybrid_system \<Rightarrow> hybrid_system \<Rightarrow> bool"
  for lib content base where
  arrives: "hybrid_step lib content base s (s\<lparr>hy_workers := hy_workers s @ [(st, document, Arrived)]\<rparr>)"
| advances: "hybrid_step lib content base s
      \<lparr>hy_db = db', hy_workers = us @ (case r of Inr (Inr stage') \<Rightarrow> [(st, document, stage')] | _ \<Rightarrow> []) @ vs\<rparr>"
    if "hy_workers s = us @ (st, document, stage) # vs" and "stage_fresh env stage (hy_db s)" and "reads (base (fst document)) reading"
      and "reads (content (fst document)) text" and "hybrid_advance lib st env reading text outcome document stage (hy_db s) = (r, db')"
| dies: "hybrid_step lib content base s (s\<lparr>hy_workers := us @ vs\<rparr>)" if "hy_workers s = us @ w # vs"

definition hybrid_start :: "hybrid_system \<Rightarrow> bool" where
  "hybrid_start s \<longleftrightarrow> s = \<lparr>hy_db = \<lparr>hdb_runs = [], hdb_calls = [], hdb_requests = []\<rparr>, hy_workers = []\<rparr>"

subsection \<open>What holds at each stage\<close>

text \<open>An outcome is only recorded for a document whose deterministic result asks for it.\<close>

definition asked :: "(uuid \<Rightarrow> document_text) \<Rightarrow> (uuid \<Rightarrow> invoice) \<Rightarrow> extraction_run list \<Rightarrow> uuid \<Rightarrow> bool" where
  "asked content base runs rid \<longleftrightarrow>
     (\<exists>doc. known_run runs rid doc HYBRID_EXTRACTOR \<and> rd_invoke_vlm (route_extraction (base doc) (content doc)))"

definition db_good :: "(uuid \<Rightarrow> document_text) \<Rightarrow> (uuid \<Rightarrow> invoice) \<Rightarrow> hybrid_db \<Rightarrow> bool" where
  "db_good content base db \<longleftrightarrow> runs_good content base (hdb_runs db) \<and> calls_ok (hdb_calls db)
     \<and> (\<forall>c \<in> set (hdb_calls db). mc_status c \<in> {CALL_SUCCEEDED, CALL_FAILED} \<longrightarrow> asked content base (hdb_runs db) (mc_extraction_run_id c))"

definition db_grows :: "hybrid_db \<Rightarrow> hybrid_db \<Rightarrow> bool" where
  "db_grows db db' \<longleftrightarrow> runs_grow (hdb_runs db) (hdb_runs db') \<and> set (map call_ident (hdb_calls db)) \<subseteq> set (map call_ident (hdb_calls db'))"

text \<open>A call in hand: its row is in the table, with the key of this document and these settings, in whatever state by now.\<close>

definition in_hand :: "lib \<Rightarrow> hybrid_settings \<Rightarrow> uuid \<times> string \<Rightarrow> uuid \<Rightarrow> invoice \<Rightarrow> document_text \<Rightarrow> model_call \<Rightarrow> hybrid_db \<Rightarrow> bool" where
  "in_hand lib st document rid i dt c db \<longleftrightarrow> call_ident c \<in> set (map call_ident (hdb_calls db))
     \<and> call_key c = (rid, hs_prompt_version st, call_fingerprint lib st document i dt)
     \<and> (mc_status c = CALL_SUCCEEDED \<longrightarrow> mc_candidate c \<noteq> None)"

definition opened :: "(uuid \<Rightarrow> invoice) \<Rightarrow> uuid \<Rightarrow> invoice \<Rightarrow> uuid \<Rightarrow> hybrid_db \<Rightarrow> bool" where
  "opened base doc i rid db \<longleftrightarrow> i = base doc \<and> based (hdb_runs db) doc \<and> known_run (hdb_runs db) rid doc HYBRID_EXTRACTOR"

fun stage_ok :: "lib \<Rightarrow> (uuid \<Rightarrow> document_text) \<Rightarrow> (uuid \<Rightarrow> invoice) \<Rightarrow> hybrid_db \<Rightarrow> hybrid_worker \<Rightarrow> bool" where
  "stage_ok lib content base db (st, document, Arrived) = True"
| "stage_ok lib content base db (st, document, Reading rid) = known_run (hdb_runs db) rid (fst document) EXTRACTOR"
| "stage_ok lib content base db (st, document, Based i) = (i = base (fst document) \<and> based (hdb_runs db) (fst document))"
| "stage_ok lib content base db (st, document, Opened i rid) = opened base (fst document) i rid db"
| "stage_ok lib content base db (st, document, Creating i rid dt) = (opened base (fst document) i rid db \<and> dt = content (fst document))"
| "stage_ok lib content base db (st, document, Called i rid dt c) =
     (opened base (fst document) i rid db \<and> dt = content (fst document) \<and> in_hand lib st document rid i dt c db)"
| "stage_ok lib content base db (st, document, Replied i rid dt c _) =
     (opened base (fst document) i rid db \<and> dt = content (fst document) \<and> in_hand lib st document rid i dt c db)"
| "stage_ok lib content base db (st, document, Settled rid i) =
     (known_run (hdb_runs db) rid (fst document) HYBRID_EXTRACTOR \<and> rests_on content base (hdb_runs db) (fst document) i)"

definition hybrid_ok :: "lib \<Rightarrow> (uuid \<Rightarrow> document_text) \<Rightarrow> (uuid \<Rightarrow> invoice) \<Rightarrow> hybrid_system \<Rightarrow> bool" where
  "hybrid_ok lib content base s \<longleftrightarrow> db_good content base (hy_db s) \<and> (\<forall>w \<in> set (hy_workers s). stage_ok lib content base (hy_db s) w)"

text \<open>The other workers do not disturb a stage.\<close>

lemma stage_ok_mono: "stage_ok lib content base db w \<Longrightarrow> db_grows db db' \<Longrightarrow> stage_ok lib content base db' w"
  by (cases w; cases "snd (snd w)") (auto simp: db_grows_def opened_def in_hand_def dest: runs_grow_facts simp del: set_map)

lemma asked_mono: "asked content base runs rid \<Longrightarrow> runs_grow runs runs' \<Longrightarrow> asked content base runs' rid"
  by (auto simp: asked_def dest: runs_grow_facts)

lemma db_good_runs:
  assumes "db_good content base db" and "runs_good content base runs'" and "runs_grow (hdb_runs db) runs'"
  shows "db_good content base (db\<lparr>hdb_runs := runs'\<rparr>)" and "db_grows db (db\<lparr>hdb_runs := runs'\<rparr>)"
  using assms asked_mono [OF _ assms(3)] by (auto simp: db_good_def db_grows_def)

lemma opened_asked: "opened base doc i rid db \<Longrightarrow> rd_invoke_vlm (route_extraction i (content doc)) \<Longrightarrow> asked content base (hdb_runs db) rid"
  by (auto simp: asked_def opened_def)

lemma asked_opened:
  "asked content base (hdb_runs db) rid \<Longrightarrow> opened base doc i rid db \<Longrightarrow> runs_ok (hdb_runs db) \<Longrightarrow> rd_invoke_vlm (route_extraction i (content doc))"
  by (auto simp: asked_def opened_def dest: known_run_doc)

lemma find_call_in_hand:
  assumes "calls_ok (hdb_calls db)" and "find_call (rid, hs_prompt_version st, call_fingerprint lib st document i dt) (hdb_calls db) = Some c"
  shows "c \<in> set (hdb_calls db)" and "in_hand lib st document rid i dt c db"
  using assms by (auto simp: find_call_def in_hand_def calls_ok_def list_all_iff dest!: find_row_Some)

text \<open>The write of an outcome.\<close>

lemma record_good:
  assumes "hybrid_record st outcome i dt routing c db = (x, db')" and "db_good content base db" and "opened base (fst document) i rid db"
    and "dt = content (fst document)" and "routing = route_extraction i dt" and "in_hand lib st document rid i dt c db"
  shows "db_good content base db'" and "db_grows db db'" and "x = Inr j \<Longrightarrow> rests_on content base (hdb_runs db) (fst document) j"
    and "hdb_runs db' = hdb_runs db" and "hdb_requests db' = hdb_requests db"
    and "answered (hdb_calls db) key \<Longrightarrow> answered (hdb_calls db') key"
    and "{c \<in> set (hdb_calls db). mc_status c = CALL_SUCCEEDED} \<subseteq> set (hdb_calls db')"
proof -
  have ok: "calls_ok (hdb_calls db)" "runs_ok (hdb_runs db)" using assms(2) by (simp_all add: db_good_def runs_good_def)
  have hand: "call_ident c \<in> set (map call_ident (hdb_calls db))" "mc_extraction_run_id c = rid"
    and cand: "mc_status c = CALL_SUCCEEDED \<longrightarrow> mc_candidate c \<noteq> None"
    using assms(6) by (auto simp: in_hand_def call_key_def)
  have rests: "rests_on content base (hdb_runs db) (fst document) j" if "recorded st i dt routing c' j" for c' j
    using recorded_supported [OF that] assms(3,4) by (simp add: rests_on_def opened_def)
  have same_run: "mc_extraction_run_id c' = rid" if "c' \<in> set (hdb_calls db)" "mc_id c' = mc_id c" for c'
    using hand that call_unique [OF ok(1)] by (force simp: call_ident_def call_key_def)
  have written: "db_good content base (finish_call (mc_id c) status k j e db) \<and> db_grows db (finish_call (mc_id c) status k j e db)
      \<and> (answered (hdb_calls db) key \<longrightarrow> answered (hdb_calls (finish_call (mc_id c) status k j e db)) key)"
    if st: "status = CALL_SUCCEEDED \<longrightarrow> k \<noteq> None" "status \<in> {CALL_SUCCEEDED, CALL_FAILED} \<longleftrightarrow> rd_invoke_vlm routing" for status k j e
  proof -
    let ?db = "finish_call (mc_id c) status k j e db"
    have "asked content base (hdb_runs ?db) (mc_extraction_run_id c')"
      if c': "c' \<in> set (hdb_calls ?db)" "mc_status c' \<in> {CALL_SUCCEEDED, CALL_FAILED}" for c'
    proof (cases "c' \<in> set (hdb_calls db)")
      case True
      with assms(2) c'(2) show ?thesis by (auto simp: db_good_def)
    next
      case False
      with finish_call_new [OF c'(1)] have new: "mc_id c' = mc_id c" "mc_status c' = status" by auto
      have "call_ident c' \<in> set (map call_ident (hdb_calls db))"
        using c'(1) by (metis finish_call_idents image_eqI list.set_map)
      then obtain c'' where "c'' \<in> set (hdb_calls db)" "call_ident c'' = call_ident c'" by auto
      then have "mc_extraction_run_id c' = rid" using new(1) same_run by (auto simp: call_ident_def call_key_def)
      moreover have "rd_invoke_vlm (route_extraction i (content (fst document)))" using new(2) c'(2) st(2) assms(4,5) by simp
      ultimately show ?thesis using opened_asked [OF assms(3)] by simp
    qed
    then have good: "db_good content base ?db" using assms(2) finish_call_ok [OF ok(1) st(1)] by (simp add: db_good_def)
    moreover have "db_grows db ?db" by (simp add: db_grows_def del: set_map)
    moreover have "answered (hdb_calls ?db) key" if old: "answered (hdb_calls db) key"
    proof (rule finish_call_answered [OF old])
      have "rd_invoke_vlm routing" if "c' \<in> set (hdb_calls db)" "call_key c' = key" "mc_id c' = mc_id c" for c'
      proof -
        obtain d where d: "d \<in> set (hdb_calls db)" "call_key d = key" "mc_status d \<in> {CALL_SUCCEEDED, CALL_FAILED}"
          using old by (auto simp: answered_def)
        then have "d = c'" using that call_unique [OF ok(1)] by metis
        with d(1,3) that(3) assms(2) same_run have "asked content base (hdb_runs db) rid" by (auto simp: db_good_def)
        with asked_opened [OF _ assms(3) ok(2)] assms(4,5) show ?thesis by simp
      qed
      then show "status \<in> {CALL_SUCCEEDED, CALL_FAILED} \<or> (\<forall>c' \<in> set (hdb_calls db). call_key c' = key \<longrightarrow> mc_id c' \<noteq> mc_id c)"
        using st(2) by blast
    qed
    ultimately show ?thesis by blast
  qed
  have "db_good content base db' \<and> db_grows db db' \<and> (x = Inr j \<longrightarrow> rests_on content base (hdb_runs db) (fst document) j)
      \<and> hdb_runs db' = hdb_runs db \<and> hdb_requests db' = hdb_requests db \<and> (answered (hdb_calls db) key \<longrightarrow> answered (hdb_calls db') key)
      \<and> {c \<in> set (hdb_calls db). mc_status c = CALL_SUCCEEDED} \<subseteq> set (hdb_calls db')"
    using assms(1) cand
  proof (cases rule: record_cases)
    case skip
    then show ?thesis using written [of CALL_SKIPPED] rests [of _ i] by (auto simp: recorded_def intro: finish_call_keeps)
  next
    case (made status k jj e j')
    have "recorded st i dt routing (c\<lparr>mc_status := status, mc_candidate := k\<rparr>) j'" using made(7) by simp
    from rests [OF this] made(3) have "x = Inr j \<longrightarrow> rests_on content base (hdb_runs db) (fst document) j" by auto
    moreover have "status \<in> {CALL_SUCCEEDED, CALL_FAILED} \<longleftrightarrow> rd_invoke_vlm routing" using made(1,4) by simp
    ultimately show ?thesis using written [OF made(5), of jj e] made(6) by (auto intro: finish_call_keeps)
  qed (use assms(2) rests in \<open>auto simp: db_grows_def\<close>)
  then show "db_good content base db'" and "db_grows db db'" and "x = Inr j \<Longrightarrow> rests_on content base (hdb_runs db) (fst document) j"
    and "hdb_runs db' = hdb_runs db" and "hdb_requests db' = hdb_requests db"
    and "answered (hdb_calls db) key \<Longrightarrow> answered (hdb_calls db') key"
    and "{c \<in> set (hdb_calls db). mc_status c = CALL_SUCCEEDED} \<subseteq> set (hdb_calls db')" by blast+
qed

text \<open>A worker that moves keeps the tables sound, leaves what the other workers rely on, and has what its next stage needs.\<close>

lemma advance_good:
  assumes adv: "hybrid_advance lib st env reading text outcome document stage db = (r, db')" and good: "db_good content base db"
    and stage: "stage_ok lib content base db (st, document, stage)" and fresh: "stage_fresh env stage db"
    and reads: "reads (base (fst document)) reading" "reads (content (fst document)) text"
  shows "db_good content base db' \<and> db_grows db db' \<and> (\<forall>stage'. r = Inr (Inr stage') \<longrightarrow> stage_ok lib content base db' (st, document, stage'))"
proof -
  have runs: "runs_good content base (hdb_runs db)" and calls: "calls_ok (hdb_calls db)" using good by (simp_all add: db_good_def)
  show ?thesis
  proof (cases stage)
    case Arrived
    obtain begun runs' where b: "extraction_begin EXTRACTOR (he_baseline env) (fst document) (hdb_runs db) = (begun, runs')" by fastforce
    have "fresh_run (he_baseline env) (hdb_runs db)" using fresh Arrived by simp
    from begin_good [OF runs this b] obtain run where
      run: "begun = Inr run" "run \<in> set runs'" "own_run EXTRACTOR (fst document) run" and r: "runs_good content base runs'" "runs_grow (hdb_runs db) runs'"
      by metis
    have "er_output run = Some (base (fst document)) \<and> based runs' (fst document)" if "er_status run = EXTRACTION_SUCCEEDED"
      using that run(2,3) r(1) by (auto simp: runs_good_def succeeded_runs_def own_run_def based_def)
    then show ?thesis
      using adv Arrived b run(1) db_good_runs [OF good r] known_run_of [OF run(2,3)] by (auto simp: based_on_def split: if_splits option.splits)
  next
    case (Reading rid)
    obtain x runs' where f: "extraction_finish reading rid (hdb_runs db) = (x, runs')" by fastforce
    have known: "known_run (hdb_runs db) rid (fst document) EXTRACTOR" using stage Reading by simp
    have "i = base (fst document)" if "reading = Extracted i" for i using reads(1) that by (simp add: reads_def)
    note fin = finish_good [OF runs known f disjI1 [OF conjI [OF refl this]]]
    show ?thesis
      using adv Reading f db_good_runs [OF good fin(1,2)] fin(3) reads(1) by (auto simp: based_on_def reads_def split: sum.splits option.splits)
  next
    case (Based i)
    obtain begun runs' where b: "extraction_begin HYBRID_EXTRACTOR (he_run env) (fst document) (hdb_runs db) = (begun, runs')" by fastforce
    have "fresh_run (he_run env) (hdb_runs db)" using fresh Based by simp
    from begin_good [OF runs this b] obtain run where
      run: "begun = Inr run" "run \<in> set runs'" "own_run HYBRID_EXTRACTOR (fst document) run"
      and r: "runs_good content base runs'" "runs_grow (hdb_runs db) runs'" by metis
    show ?thesis
      using adv Based b run(1) stage db_good_runs [OF good r] known_run_of [OF run(2,3)] runs_grow_facts(2) [OF r(2)]
      by (auto simp: opened_def split: if_splits)
  next
    case (Opened i rid)
    have open': "opened base (fst document) i rid db" using stage Opened by simp
    then have "known_run (hdb_runs db) rid (fst document) HYBRID_EXTRACTOR" by (simp add: opened_def)
    note failed = db_good_runs [OF good hybrid_failed_good [OF runs this]]
    have "in_hand lib st document rid i dt c db"
      if "find_call (rid, hs_prompt_version st, call_fingerprint lib st document i dt) (hdb_calls db) = Some c" for dt c
      by (rule find_call_in_hand(2) [OF calls that])
    then show ?thesis
      using adv Opened good open' reads(2) failed
      by (auto simp: reads_def db_grows_def split: reading.splits option.splits)
  next
    case (Creating i rid dt)
    obtain call calls' where c: "create_call env st rid (call_fingerprint lib st document i dt) (route_extraction i dt) (hdb_calls db) = (call, calls')"
      by fastforce
    have "fresh_call env (hdb_calls db)" using fresh Creating by simp
    note new = create_call_ok [OF c calls this]
    have "db_good content base (db\<lparr>hdb_calls := calls'\<rparr>)" using good new(1,5) by (fastforce simp: db_good_def)
    moreover have "db_grows db (db\<lparr>hdb_calls := calls'\<rparr>)" using new(3) by (auto simp: db_grows_def)
    moreover have "in_hand lib st document rid i dt call (db\<lparr>hdb_calls := calls'\<rparr>)"
      using new(1,2,4) by (auto simp: in_hand_def calls_ok_def list_all_iff)
    ultimately show ?thesis using adv Creating c stage by (auto simp: opened_def)
  next
    case (Called i rid dt call)
    then show ?thesis using adv good stage by (auto simp: db_good_def db_grows_def opened_def in_hand_def)
  next
    case (Replied i rid dt call reply)
    obtain x db1 where rec: "hybrid_record st reply i dt (route_extraction i dt) call db = (x, db1)" by fastforce
    have facts: "opened base (fst document) i rid db" "dt = content (fst document)" "in_hand lib st document rid i dt call db"
      using stage Replied by auto
    note done_ok = record_good [OF rec good facts(1,2) refl facts(3)]
    have "db' = db1" "r = (case x of Inl e \<Rightarrow> Inl e | Inr j \<Rightarrow> Inr (Inr (Settled rid j)))"
      using adv Replied rec by (auto split: sum.splits)
    then show ?thesis using done_ok(1-4) facts(1) by (auto simp: opened_def split: sum.splits)
  next
    case (Settled rid i)
    obtain x runs' where f: "extraction_finish (Extracted i) rid (hdb_runs db) = (x, runs')" by fastforce
    have known: "known_run (hdb_runs db) rid (fst document) HYBRID_EXTRACTOR" "rests_on content base (hdb_runs db) (fst document) i"
      using stage Settled by simp_all
    have "j = i" if "Extracted i = Extracted j" for j using that by simp
    then have "HYBRID_EXTRACTOR = EXTRACTOR \<and> j = base (fst document) \<or> HYBRID_EXTRACTOR = HYBRID_EXTRACTOR \<and> rests_on content base (hdb_runs db) (fst document) j"
      if "Extracted i = Extracted j" for j using that known(2) by simp
    note fin = finish_good [OF runs known(1) f this]
    show ?thesis using adv Settled f db_good_runs [OF good fin(1,2)] by (auto split: sum.splits)
  qed
qed

lemma hybrid_step_ok: "hybrid_step lib content base s t \<Longrightarrow> hybrid_ok lib content base s \<Longrightarrow> hybrid_ok lib content base t"
proof (induction rule: hybrid_step.induct)
  case (advances s us st document stage vs env reading "text" outcome r db')
  have "stage_ok lib content base (hy_db s) (st, document, stage)" "db_good content base (hy_db s)"
    using advances.prems advances.hyps(1) by (auto simp: hybrid_ok_def)
  note step = advance_good [OF advances.hyps(5) this(2,1) advances.hyps(2-4)]
  then have grows: "db_grows (hy_db s) db'" by blast
  have "stage_ok lib content base (hy_db s) w" if "w \<in> set us \<union> set vs" for w
    using that advances.prems advances.hyps(1) by (auto simp: hybrid_ok_def)
  then have "stage_ok lib content base db' w" if "w \<in> set us \<union> set vs" for w
    using that stage_ok_mono [OF _ grows] by blast
  with step show ?case by (auto simp: hybrid_ok_def split: sum.splits)
qed (auto simp: hybrid_ok_def)

lemma hybrid_start_ok: "hybrid_start s \<Longrightarrow> hybrid_ok lib content base s"
  by (simp add: hybrid_start_def hybrid_ok_def db_good_def runs_good_def runs_ok_def calls_ok_def succeeded_runs_def)

interpretation hybrid: inductive_system hybrid_start "hybrid_step lib content base" "hybrid_ok lib content base" for lib content base
  by unfold_locales (auto intro: hybrid_start_ok hybrid_step_ok)

subsection \<open>Requests after an answer\<close>

text \<open>A worker that has read its call before the outcome was recorded may still send a request.\<close>

definition stage_asks :: "uuid \<times> string \<times> string \<Rightarrow> hybrid_stage \<Rightarrow> nat" where
  "stage_asks key stage =
     (case stage of Called i rid dt c \<Rightarrow> if call_key c = key \<and> needs_request (route_extraction i dt) c then 1 else 0 | _ \<Rightarrow> 0)"

definition askers :: "uuid \<times> string \<times> string \<Rightarrow> hybrid_system \<Rightarrow> nat" where
  "askers key s = sum_list (map (\<lambda>(_, _, stage). stage_asks key stage) (hy_workers s))"

lemma answered_reads:
  assumes "calls_ok calls" and "answered calls key" and "c \<in> set calls" and "call_key c = key"
  shows "\<not> needs_request routing c"
proof -
  obtain d where d: "d \<in> set calls" "call_key d = key" "mc_status d \<in> {CALL_SUCCEEDED, CALL_FAILED}" using assms(2) by (auto simp: answered_def)
  with call_unique [OF assms(1,3) d(1)] assms(4) have "c = d" by simp
  with d assms(1) show ?thesis by (auto simp: needs_request_def calls_ok_def list_all_iff)
qed

lemma advance_asks:
  assumes adv: "hybrid_advance lib st env reading text outcome document stage db = (r, db')" and good: "db_good content base db"
    and stage: "stage_ok lib content base db (st, document, stage)" and fresh: "stage_fresh env stage db" and ans: "answered (hdb_calls db) key"
  shows "answered (hdb_calls db') key \<and> {c \<in> set (hdb_calls db). mc_status c = CALL_SUCCEEDED} \<subseteq> set (hdb_calls db')
    \<and> count_list (hdb_requests db') key + (case r of Inr (Inr stage') \<Rightarrow> stage_asks key stage' | _ \<Rightarrow> 0)
      \<le> count_list (hdb_requests db) key + stage_asks key stage"
proof -
  have calls: "calls_ok (hdb_calls db)" using good by (simp add: db_good_def)
  show ?thesis
  proof (cases stage)
    case (Opened i rid)
    have "stage_asks key (Called i rid dt c) = 0"
      if "find_call (rid, hs_prompt_version st, call_fingerprint lib st document i dt) (hdb_calls db) = Some c" for dt c
      using find_call_in_hand(1) [OF calls that] answered_reads [OF calls ans] by (auto simp: stage_asks_def)
    with adv Opened ans show ?thesis by (auto simp: stage_asks_def [of _ "Creating _ _ _"] split: reading.splits option.splits)
  next
    case (Creating i rid dt)
    obtain call calls' where c: "create_call env st rid (call_fingerprint lib st document i dt) (route_extraction i dt) (hdb_calls db) = (call, calls')"
      by fastforce
    have "fresh_call env (hdb_calls db)" using fresh Creating by simp
    note new = create_call_ok [OF c calls this]
    have ans': "answered calls' key" using ans new(3) by (auto simp: answered_def)
    have "stage_asks key (Called i rid dt call) = 0"
      using answered_reads [OF new(1) ans' new(2)] by (auto simp: stage_asks_def)
    with adv Creating c ans' new(3) show ?thesis by auto
  next
    case (Called i rid dt call)
    with adv ans show ?thesis by (auto simp: stage_asks_def)
  next
    case (Replied i rid dt call reply)
    obtain x db1 where rec: "hybrid_record st reply i dt (route_extraction i dt) call db = (x, db1)" by fastforce
    have facts: "opened base (fst document) i rid db" "dt = content (fst document)" "in_hand lib st document rid i dt call db"
      using stage Replied by auto
    note kept = record_good(5-7) [OF rec good facts(1,2) refl facts(3)]
    have "db' = db1" "r = (case x of Inl e \<Rightarrow> Inl e | Inr j \<Rightarrow> Inr (Inr (Settled rid j)))"
      using adv Replied rec by (auto split: sum.splits)
    with kept ans show ?thesis by (auto simp: stage_asks_def split: sum.splits)
  qed (use adv ans in \<open>auto simp: stage_asks_def based_on_def split: prod.splits sum.splits if_splits option.splits\<close>)
qed

lemma hybrid_step_asks:
  assumes "hybrid_step lib content base s t" and "hybrid_ok lib content base s" and "answered (hdb_calls (hy_db s)) key"
  shows "answered (hdb_calls (hy_db t)) key
    \<and> {c \<in> set (hdb_calls (hy_db s)). mc_status c = CALL_SUCCEEDED} \<subseteq> set (hdb_calls (hy_db t))
    \<and> count_list (hdb_requests (hy_db t)) key + askers key t \<le> count_list (hdb_requests (hy_db s)) key + askers key s"
  using assms
proof (induction rule: hybrid_step.induct)
  case (advances s us st document stage vs env reading "text" outcome r db')
  have "stage_ok lib content base (hy_db s) (st, document, stage)" "db_good content base (hy_db s)"
    using advances.prems(1) advances.hyps(1) by (auto simp: hybrid_ok_def)
  from advance_asks [OF advances.hyps(5) this(2,1) advances.hyps(2) advances.prems(2)] advances.hyps(1) show ?case
    by (auto simp: askers_def split: sum.splits)
qed (auto simp: askers_def stage_asks_def)

text \<open>
  C13: The answer of the provider is asked for again only by workers that were already about to ask. Any number of
  workers may process a document at the same time, in any interleaving, with whatever settings, readings and
  answers, and may die at any point. Once the outcome of a call (for a run, a prompt and a fingerprint) is
  recorded, it stays recorded, a successful answer unchanged; and however the workers go on, the requests that
  are then sent for it are at most as many as there were workers that had read the call before and had not asked yet. A
  worker that reads the call later sends none.
\<close>

theorem hybrid_reuses_answers:
  assumes "reachable_from hybrid_start (hybrid_step lib content base) s" and "answered (hdb_calls (hy_db s)) key"
    and "(hybrid_step lib content base)\<^sup>*\<^sup>* s t"
  shows "answered (hdb_calls (hy_db t)) key
    \<and> {c \<in> set (hdb_calls (hy_db s)). mc_status c = CALL_SUCCEEDED} \<subseteq> set (hdb_calls (hy_db t))
    \<and> count_list (hdb_requests (hy_db t)) key + askers key t \<le> count_list (hdb_requests (hy_db s)) key + askers key s"
  using assms(3)
proof (induction rule: rtranclp_induct)
  case base
  with assms(2) show ?case by auto
next
  case (step u v)
  have "hybrid_ok lib content base u"
    using hybrid.reachable_many [OF assms(1) step.hyps(1)] by (rule hybrid.inv_reachable)
  from hybrid_step_asks [OF step.hyps(2) this] step.IH show ?case by fastforce
qed

text \<open>
  C14: In every reachable state of interleaved workers, a successful hybrid extraction of a document rests on a successful
  deterministic one of the same document: each of its fields is the deterministic one, or lost its value to a
  disagreement, or was filled with a value that stands in the document's text.
\<close>

theorem hybrid_results_supported:
  assumes "reachable_from hybrid_start (hybrid_step lib content base) s" and "r \<in> succeeded_runs (hdb_runs (hy_db s))"
    and "own_run HYBRID_EXTRACTOR doc r"
  shows "\<exists>b i0 i. b \<in> succeeded_runs (hdb_runs (hy_db s)) \<and> own_run EXTRACTOR doc b \<and> er_output b = Some i0
    \<and> er_output r = Some i \<and> invoice_supported (content doc) i0 i"
proof -
  have doc: "er_document_id r = doc" using assms(3) by (simp add: own_run_def)
  have good: "runs_good content base (hdb_runs (hy_db s))"
    using hybrid.inv_reachable [OF assms(1)] by (simp add: hybrid_ok_def db_good_def)
  with assms(2,3) doc obtain i where i: "er_output r = Some i" "rests_on content base (hdb_runs (hy_db s)) doc i"
    by (auto simp: runs_good_def)
  then obtain b where b: "b \<in> succeeded_runs (hdb_runs (hy_db s))" "own_run EXTRACTOR doc b" by (auto simp: rests_on_def based_def)
  moreover have "er_output b = Some (base doc)" using good b by (auto simp: runs_good_def own_run_def)
  ultimately show ?thesis using i by (auto simp: rests_on_def)
qed

subsection \<open>Taking up an interrupted delivery\<close>



definition sent :: "routing_decision \<Rightarrow> model_call \<Rightarrow> vision_outcome \<Rightarrow> hybrid_db \<Rightarrow> hybrid_db" where
  "sent routing c outcome db = (if needs_request routing c \<and> reaches_provider outcome then send_request c db else db)"

lemma sent_sel [simp]: "hdb_runs (sent routing c outcome db) = hdb_runs db" "hdb_calls (sent routing c outcome db) = hdb_calls db"
  by (simp_all add: sent_def)














subsection \<open>A delivery that is interrupted, and two that overlap\<close>

definition sample_hybrid_settings :: hybrid_settings where
  "sample_hybrid_settings = \<lparr>hs_provider_name = ''fake'', hs_requested_model = ''fake-vision'', hs_prompt_version = ''invoice-vision-v1'', hs_fuzzy = no_fuzzy\<rparr>"

definition sample_hybrid_env :: "uuid \<Rightarrow> hybrid_env" where
  "sample_hybrid_env n = \<lparr>he_baseline = sample_worker_env n, he_run = sample_worker_env (n + 1), he_call_id = n + 2\<rparr>"

definition empty_hybrid :: hybrid_system where
  "empty_hybrid = \<lparr>hy_db = \<lparr>hdb_runs = [], hdb_calls = [], hdb_requests = []\<rparr>, hy_workers = []\<rparr>"


definition sample_fused :: invoice where
  "sample_fused = fu_invoice (fuse_invoice no_fuzzy sample_baseline sample_candidate sample_document_text)"

lemma sample_routed: "rd_invoke_vlm (route_extraction sample_baseline sample_document_text)"
  by (simp add: route_extraction_def Let_def sample_baseline_def missing_field_def critical_statuses_def)

lemmas hybrid_eval = hybrid_attempt_def empty_hybrid_def sample_hybrid_env_def extraction_process_def extraction_begin_def
  get_or_create_run_def find_extraction_def mark_processing_def sample_worker_env_def extraction_finish_def set_run_def Let_def
  EXTRACTOR_def HYBRID_EXTRACTOR_def create_call_def find_call_def hybrid_record_def sample_routed finish_call_def send_request_def
  sample_fused_def sample_hybrid_settings_def based_on_def needs_request_def call_key_def


lemma empty_hybrid_reachable: "reachable_from hybrid_start step empty_hybrid"
  by (rule reach_start) (simp add: hybrid_start_def empty_hybrid_def)


text \<open>
  A schedule of workers on one document, executed: each entry lets the worker at a position move with the given identifiers and the
  given reply of the provider. The schedule is refused when an identifier is not fresh.
\<close>

fun schedule :: "lib \<Rightarrow> document_text \<Rightarrow> invoice \<Rightarrow> (nat \<times> hybrid_env \<times> vision_outcome) list \<Rightarrow> hybrid_system \<Rightarrow> hybrid_system option" where
  "schedule lib dt i [] s = Some s"
| "schedule lib dt i ((k, env, outcome) # moves) s =
     (if \<not> k < length (hy_workers s) then None
      else let (st, document, stage) = hy_workers s ! k in
        if \<not> stage_fresh env stage (hy_db s) then None
        else let (r, db') = hybrid_advance lib st env (Extracted i) (Extracted dt) outcome document stage (hy_db s)
          in schedule lib dt i moves \<lparr>hy_db = db', hy_workers = take k (hy_workers s)
              @ (case r of Inr (Inr stage') \<Rightarrow> [(st, document, stage')] | _ \<Rightarrow> []) @ drop (Suc k) (hy_workers s)\<rparr>)"

lemma schedule_steps: "schedule lib dt i moves s = Some t \<Longrightarrow> (hybrid_step lib (\<lambda>_. dt) (\<lambda>_. i))\<^sup>*\<^sup>* s t"
proof (induction lib dt i moves s rule: schedule.induct)
  case (2 lib dt i k env outcome moves s)
  from "2.prems" have k: "k < length (hy_workers s)" by (simp split: if_splits)
  obtain st document stage where w: "hy_workers s ! k = (st, document, stage)" by (cases "hy_workers s ! k")
  obtain r db' where adv: "hybrid_advance lib st env (Extracted i) (Extracted dt) outcome document stage (hy_db s) = (r, db')" by fastforce
  have fresh: "stage_fresh env stage (hy_db s)" using "2.prems" k w by (simp split: if_splits)
  let ?u = "\<lparr>hy_db = db', hy_workers = take k (hy_workers s) @ (case r of Inr (Inr stage') \<Rightarrow> [(st, document, stage')] | _ \<Rightarrow> []) @ drop (Suc k) (hy_workers s)\<rparr>"
  have "hy_workers s = take k (hy_workers s) @ (st, document, stage) # drop (Suc k) (hy_workers s)" using k w by (metis id_take_nth_drop)
  then have "hybrid_step lib (\<lambda>_. dt) (\<lambda>_. i) s ?u" by (rule advances [OF _ fresh _ _ adv]) (simp_all add: reads_def)
  moreover have "(hybrid_step lib (\<lambda>_. dt) (\<lambda>_. i))\<^sup>*\<^sup>* ?u t" using "2.prems" k w adv fresh by (intro "2.IH" [OF _ _ refl _ _ refl]) auto
  ultimately show ?case by (rule converse_rtranclp_into_rtranclp)
qed simp

definition two_arrived :: hybrid_system where
  "two_arrived = empty_hybrid\<lparr>hy_workers := [(sample_hybrid_settings, (5, ''digest''), Arrived), (sample_hybrid_settings, (5, ''digest''), Arrived)]\<rparr>"

text \<open>Both workers have the same call in hand; the first one asks and records the answer; the second one asks as well.\<close>

definition overlap :: "(nat \<times> hybrid_env \<times> vision_outcome) list" where
  "overlap = map (\<lambda>k. (k, sample_hybrid_env (70 + 10 * k), Answered sample_candidate)) [0, 0, 0, 0, 0, 1, 1, 1, 0, 0]"

definition one_answered :: hybrid_system where
  "one_answered = the (schedule sample_lib sample_document_text sample_baseline overlap two_arrived)"

definition first_written :: hybrid_system where
  "first_written = the (schedule sample_lib sample_document_text sample_baseline [(0, sample_hybrid_env 70, Answered sample_candidate)] one_answered)"

definition both_written :: hybrid_system where
  "both_written = the (schedule sample_lib sample_document_text sample_baseline
     (replicate 3 (0, sample_hybrid_env 80, ProviderFailed ''provider_failed'')) first_written)"

definition sample_key :: "uuid \<times> string \<times> string" where
  "sample_key = (71, ''invoice-vision-v1'', call_fingerprint sample_lib sample_hybrid_settings (5, ''digest'') sample_baseline sample_document_text)"

lemmas overlap_eval = one_answered_def first_written_def both_written_def overlap_def two_arrived_def sample_key_def hybrid_eval fresh_run_def fresh_call_def

lemma overlap_runs:
  "schedule sample_lib sample_document_text sample_baseline overlap two_arrived = Some one_answered"
  "schedule sample_lib sample_document_text sample_baseline [(0, sample_hybrid_env 70, Answered sample_candidate)] one_answered = Some first_written"
  "schedule sample_lib sample_document_text sample_baseline (replicate 3 (0, sample_hybrid_env 80, ProviderFailed ''provider_failed'')) first_written = Some both_written"
  by (simp_all add: overlap_eval numeral_3_eq_3)

lemma overlap_requests:
  "answered (hdb_calls (hy_db one_answered)) sample_key" "askers sample_key one_answered = 1"
  "count_list (hdb_requests (hy_db one_answered)) sample_key = 1" "count_list (hdb_requests (hy_db both_written)) sample_key = 2"
  by (simp_all add: overlap_eval numeral_3_eq_3 answered_def askers_def stage_asks_def)

lemma overlap_results:
  "list_ex (\<lambda>r. er_status r = EXTRACTION_SUCCEEDED \<and> own_run HYBRID_EXTRACTOR 5 r \<and> er_output r = Some sample_fused) (hdb_runs (hy_db first_written))"
  "list_ex (\<lambda>r. er_status r = EXTRACTION_SUCCEEDED \<and> own_run HYBRID_EXTRACTOR 5 r \<and> er_output r = Some sample_baseline) (hdb_runs (hy_db both_written))"
  "list_ex (\<lambda>c. call_key c = sample_key \<and> mc_status c = CALL_SUCCEEDED \<and> mc_candidate c = Some sample_candidate) (hdb_calls (hy_db both_written))"
  by (simp_all add: overlap_eval numeral_3_eq_3 own_run_def)

abbreviation sample_steps :: "hybrid_system \<Rightarrow> hybrid_system \<Rightarrow> bool" where
  "sample_steps \<equiv> hybrid_step sample_lib (\<lambda>_. sample_document_text) (\<lambda>_. sample_baseline)"

lemma two_arrive: "sample_steps\<^sup>*\<^sup>* empty_hybrid two_arrived"
proof -
  let ?w = "(sample_hybrid_settings, (5, ''digest''), Arrived)"
  have "sample_steps empty_hybrid (empty_hybrid\<lparr>hy_workers := [] @ [?w]\<rparr>)"
    using arrives [of sample_lib "\<lambda>_. sample_document_text" "\<lambda>_. sample_baseline" empty_hybrid sample_hybrid_settings "(5, ''digest'')"]
    by (simp only: empty_hybrid_def hybrid_system.simps)
  moreover have "sample_steps (empty_hybrid\<lparr>hy_workers := [] @ [?w]\<rparr>) two_arrived"
    using arrives [of sample_lib "\<lambda>_. sample_document_text" "\<lambda>_. sample_baseline" "empty_hybrid\<lparr>hy_workers := [] @ [?w]\<rparr>" sample_hybrid_settings "(5, ''digest'')"]
    by (simp only: empty_hybrid_def two_arrived_def hybrid_system.simps append.simps)
  ultimately show ?thesis by (rule converse_rtranclp_into_rtranclp [OF _ r_into_rtranclp])
qed

lemma overlap_steps:
  "sample_steps\<^sup>*\<^sup>* two_arrived one_answered" "sample_steps\<^sup>*\<^sup>* one_answered first_written" "sample_steps\<^sup>*\<^sup>* first_written both_written"
  by (rule schedule_steps, rule overlap_runs)+

lemma overlap_reachable:
  "reachable_from hybrid_start sample_steps one_answered" "reachable_from hybrid_start sample_steps first_written"
  "reachable_from hybrid_start sample_steps both_written"
proof -
  show one: "reachable_from hybrid_start sample_steps one_answered"
    by (rule hybrid.reachable_many [OF hybrid.reachable_many [OF empty_hybrid_reachable two_arrive] overlap_steps(1)])
  show first: "reachable_from hybrid_start sample_steps first_written"
    by (rule hybrid.reachable_many [OF one overlap_steps(2)])
  show "reachable_from hybrid_start sample_steps both_written"
    by (rule hybrid.reachable_many [OF first overlap_steps(3)])
qed

text \<open>
  Two deliveries that overlap do send the same request twice, since neither locks the call. And when the second request fails after
  the first was answered, the worker of the second overwrites the result: the call stays recorded as succeeded, with its
  candidate, and the run holds the deterministic invoice.
\<close>

lemma overlapping_deliveries:
  "\<exists>s. reachable_from hybrid_start (hybrid_step sample_lib (\<lambda>_. sample_document_text) (\<lambda>_. sample_baseline)) s
    \<and> count_list (hdb_requests (hy_db s)) sample_key = 2
    \<and> (\<exists>c \<in> set (hdb_calls (hy_db s)). call_key c = sample_key \<and> mc_status c = CALL_SUCCEEDED \<and> mc_candidate c = Some sample_candidate)
    \<and> (\<exists>r \<in> set (hdb_runs (hy_db s)). er_status r = EXTRACTION_SUCCEEDED \<and> own_run HYBRID_EXTRACTOR 5 r \<and> er_output r = Some sample_baseline)"
  using overlap_reachable(3) overlap_requests(4) overlap_results(2,3) by (auto simp: list_ex_iff)

theorem hybrid_reuses_answers_witness:
  "answered (hdb_calls (hy_db both_written)) sample_key
   \<and> askers sample_key one_answered = 1 \<and> count_list (hdb_requests (hy_db both_written)) sample_key = 2
   \<and> count_list (hdb_requests (hy_db both_written)) sample_key + askers sample_key both_written
     \<le> count_list (hdb_requests (hy_db one_answered)) sample_key + askers sample_key one_answered"
  using hybrid_reuses_answers [OF overlap_reachable(1) overlap_requests(1) rtranclp_trans [OF overlap_steps(2,3)]] overlap_requests(2,4) by blast

theorem hybrid_results_supported_witness:
  "\<exists>b i0. b \<in> succeeded_runs (hdb_runs (hy_db first_written)) \<and> own_run EXTRACTOR 5 b \<and> er_output b = Some i0
    \<and> invoice_supported sample_document_text i0 sample_fused"
proof -
  obtain r where r: "r \<in> succeeded_runs (hdb_runs (hy_db first_written))" "own_run HYBRID_EXTRACTOR 5 r" "er_output r = Some sample_fused"
    using overlap_results(1) by (auto simp: list_ex_iff succeeded_runs_def)
  from hybrid_results_supported [OF overlap_reachable(2) r(1,2)] r(3) show ?thesis by auto
qed

end
