(* ===== verification/Supporting_Service.thy ===== *)
theory Supporting_Service
  imports Supporting_Fusion Hybrid_Service
begin

text \<open>
  \<^verbatim>\<open>extraction/supporting_hybrid_service.py\<close>: the extraction of supporting documents that asks a vision model. The run of the
  deterministic service comes first and is kept; the call of the model is a row of its own, locked while the
  provider is asked, so that its outcome is found by every later delivery.
\<close>

subsection \<open>Calls\<close>

record support_call =
  suc_id :: uuid
  suc_run_id :: uuid
  suc_role :: document_role
  suc_provider :: string
  suc_requested_model :: string
  suc_prompt_version :: string
  suc_status :: model_call_status
  suc_input_document_hash :: string
  suc_request_fingerprint :: string
  suc_reasons :: "supporting_route_reason list"
  suc_candidate :: "supporting_candidate option"
  suc_error_code :: "string option"

record support_settings =
  sus_provider_name :: string
  sus_requested_model :: string
  sus_fuzzy :: fuzzy

text \<open>Fresh identifiers, and the rows another worker commits first.\<close>

record support_env =
  sue_worker :: worker_env
  sue_run_id :: uuid
  sue_racing_run :: "supporting_run option"
  sue_call_id :: uuid
  sue_racing_call :: "support_call option"

text \<open>
  What rendering and asking give. \<open>SupportUnavailable\<close> is the \<^verbatim>\<open>ValueError\<close> of a provider that cannot be built, as
  without credentials: nothing is sent.
\<close>

datatype support_outcome = SupportAnswered supporting_candidate | SupportFailed string | SupportUnrendered string | SupportUnavailable

record support_db =
  sudb_cases :: case_db
  sudb_calls :: "support_call list"
  sudb_requests :: "(uuid \<times> string \<times> string) list"

definition support_call_key :: "support_call \<Rightarrow> uuid \<times> string \<times> string" where
  "support_call_key c = (suc_run_id c, suc_prompt_version c, suc_request_fingerprint c)"

fun route_reason_text :: "supporting_route_reason \<Rightarrow> string" where
  "route_reason_text ROUTE_FIELD_MISSING = ''REQUIRED_FIELD_MISSING''"
| "route_reason_text ROUTE_FIELD_AMBIGUOUS = ''REQUIRED_FIELD_AMBIGUOUS''"
| "route_reason_text ROUTE_INCOMPLETE_LINE_ITEMS = ''INCOMPLETE_LINE_ITEMS''"
| "route_reason_text ROUTE_NO_LINE_ITEMS = ''NO_LINE_ITEMS''"
| "route_reason_text ROUTE_TOTAL_CONFLICT = ''TOTAL_CONFLICT''"
| "route_reason_text ROUTE_QUANTITY_ASSOCIATION_INCOMPLETE = ''QUANTITY_ASSOCIATION_INCOMPLETE''"
| "route_reason_text ROUTE_OCR_REQUIRED_FIELD = ''OCR_REQUIRED_FIELD''"

text \<open>The prompt of a role; the role of an invoice is refused before.\<close>

fun prompt_of_role :: "document_role \<Rightarrow> string" where
  "prompt_of_role PURCHASE_ORDER = ''supporting-po-vision-v1''"
| "prompt_of_role GOODS_RECEIPT = ''supporting-receipt-vision-v1''"
| "prompt_of_role DELIVERY_NOTE = ''supporting-delivery-vision-v1''"
| "prompt_of_role INVOICE = ''''"

definition support_fingerprint :: "lib \<Rightarrow> support_settings \<Rightarrow> string \<Rightarrow> document_role \<Rightarrow> supporting_route_reason list \<Rightarrow> string" where
  "support_fingerprint lib st sha role reasons = fingerprint lib (JObj [(''document_hash'', JStr sha), (''role'', JStr (role_text role)),
     (''version'', JStr (snd SUPPORTING_HYBRID)), (''prompt'', JStr (prompt_of_role role)), (''provider'', JStr (sus_provider_name st)),
     (''model'', JStr (sus_requested_model st)), (''reasons'', JArr (map (JStr \<circ> route_reason_text) reasons))])"

definition find_support_call :: "uuid \<times> string \<times> string \<Rightarrow> support_call list \<Rightarrow> support_call option" where
  "find_support_call key = find_row (\<lambda>c. support_call_key c = key)"

definition get_or_create_support_call ::
  "support_env \<Rightarrow> support_settings \<Rightarrow> uuid \<Rightarrow> document_role \<Rightarrow> string \<Rightarrow> string \<Rightarrow> supporting_route_reason list \<Rightarrow> support_call list
    \<Rightarrow> support_call \<times> support_call list" where
  "get_or_create_support_call env st rid role sha fp reasons calls =
     (let key = (rid, prompt_of_role role, fp) in
      case find_support_call key calls of
        Some existing \<Rightarrow> (existing, calls)
      | None \<Rightarrow>
          let call = \<lparr>suc_id = sue_call_id env, suc_run_id = rid, suc_role = role, suc_provider = sus_provider_name st,
                suc_requested_model = sus_requested_model st, suc_prompt_version = prompt_of_role role, suc_status = CALL_PROCESSING,
                suc_input_document_hash = sha, suc_request_fingerprint = fp, suc_reasons = reasons, suc_candidate = None, suc_error_code = None\<rparr>;
              calls1 = (case sue_racing_call env of None \<Rightarrow> calls | Some c \<Rightarrow> calls @ [c])
          in (case find_support_call key calls1 of
               None \<Rightarrow> (call, calls1 @ [call])
             | Some concurrent \<Rightarrow> (concurrent, calls1)))"

definition finish_support_call :: "uuid \<Rightarrow> model_call_status \<Rightarrow> supporting_candidate option \<Rightarrow> string option \<Rightarrow> support_db \<Rightarrow> support_db" where
  "finish_support_call cid status candidate code db =
     db\<lparr>sudb_calls := update_rows (\<lambda>c. suc_id c = cid)
       (\<lambda>c. c\<lparr>suc_status := status, suc_candidate := candidate, suc_error_code := code\<rparr>) (sudb_calls db)\<rparr>"

definition send_support_request :: "support_call \<Rightarrow> support_db \<Rightarrow> support_db" where
  "send_support_request call db = db\<lparr>sudb_requests := sudb_requests db @ [support_call_key call]\<rparr>"

definition SCHEMA_INVALID :: string where
  "SCHEMA_INVALID = ''provider_schema_invalid''"

subsection \<open>Processing an attachment\<close>

text \<open>The output to be written: the recorded answer is fused again, a failed call is not repeated.\<close>

definition settle_support ::
  "support_settings \<Rightarrow> support_outcome \<Rightarrow> supporting_output \<Rightarrow> document_text \<Rightarrow> support_call \<Rightarrow> support_db \<Rightarrow> supporting_output \<times> support_db" where
  "settle_support st outcome baseline dt call db =
     (case (suc_status call, suc_candidate call) of
        (CALL_SUCCEEDED, Some k) \<Rightarrow>
          (case fuse_supporting (sus_fuzzy st) baseline k dt of None \<Rightarrow> (baseline, db) | Some f \<Rightarrow> (sf_output f, db))
      | (status, _) \<Rightarrow>
          if status = CALL_FAILED then (baseline, db)
          else (case outcome of
            SupportUnrendered code \<Rightarrow> (baseline, finish_support_call (suc_id call) CALL_FAILED None (Some code) db)
          | SupportUnavailable \<Rightarrow> (baseline, finish_support_call (suc_id call) CALL_FAILED None (Some SCHEMA_INVALID) db)
          | SupportFailed code \<Rightarrow>
              (baseline, finish_support_call (suc_id call) CALL_FAILED None (Some code) (send_support_request call db))
          | SupportAnswered k \<Rightarrow>
              (case fuse_supporting (sus_fuzzy st) baseline k dt of
                 None \<Rightarrow> (baseline, finish_support_call (suc_id call) CALL_FAILED None (Some SCHEMA_INVALID) (send_support_request call db))
               | Some f \<Rightarrow> (sf_output f, finish_support_call (suc_id call) CALL_SUCCEEDED (Some k) None (send_support_request call db)))))"

definition find_hybrid_support :: "supporting_run list \<Rightarrow> uuid \<Rightarrow> document_role \<Rightarrow> supporting_run option" where
  "find_hybrid_support runs doc role = find_row (\<lambda>r. spr_document_id r = doc \<and> spr_role r = role
     \<and> (spr_extractor_name r, spr_extractor_version r) = SUPPORTING_HYBRID) runs"

definition get_or_create_hybrid_support :: "support_env \<Rightarrow> case_document \<Rightarrow> case_db \<Rightarrow> supporting_run \<times> case_db" where
  "get_or_create_hybrid_support env a db =
     (case find_hybrid_support (kdb_support_runs db) (cdoc_document_id a) (cdoc_role a) of
        Some existing \<Rightarrow> (existing, db)
      | None \<Rightarrow>
          let run = \<lparr>spr_id = sue_run_id env, spr_document_id = cdoc_document_id a, spr_role = cdoc_role a,
                spr_extractor_name = fst SUPPORTING_HYBRID, spr_extractor_version = snd SUPPORTING_HYBRID,
                spr_status = SUPPORTING_PROCESSING, spr_output = None, spr_created_at = we_now (sue_worker env)\<rparr>;
              runs1 = (case sue_racing_run env of None \<Rightarrow> kdb_support_runs db | Some r \<Rightarrow> kdb_support_runs db @ [r])
          in (case find_hybrid_support runs1 (cdoc_document_id a) (cdoc_role a) of
               None \<Rightarrow> (run, db\<lparr>kdb_support_runs := runs1 @ [run]\<rparr>)
             | Some concurrent \<Rightarrow> (concurrent, db\<lparr>kdb_support_runs := runs1\<rparr>)))"

text \<open>
  \<^verbatim>\<open>process\<close> up to the write of the run: a run that is the result, or the run with the output to be written. A worker
  that dies here leaves these tables.
\<close>

definition support_hybrid_attempt ::
  "lib \<Rightarrow> support_settings \<Rightarrow> support_env \<Rightarrow> supporting_output reading \<Rightarrow> document_text reading \<Rightarrow> support_outcome \<Rightarrow> case_document \<Rightarrow> string
    \<Rightarrow> support_db \<Rightarrow> (raised, uuid + uuid \<times> supporting_output) result \<times> support_db" where
  "support_hybrid_attempt lib st env reading dtext outcome a sha db =
     (let (base, cases1) = support_process (sue_worker env) reading a (sudb_cases db); db1 = db\<lparr>sudb_cases := cases1\<rparr> in
      case base of
        Inl e \<Rightarrow> (Inl e, db1)
      | Inr rid \<Rightarrow>
         (case Option.bind (find_row (\<lambda>r. spr_id r = rid) (kdb_support_runs cases1)) spr_output of
            None \<Rightarrow> (Inl None, db1)
          | Some baseline \<Rightarrow>
             (case find_row (\<lambda>r. spr_status r = SUPPORTING_SUCCEEDED)
                 (case find_hybrid_support (kdb_support_runs cases1) (cdoc_document_id a) (cdoc_role a) of None \<Rightarrow> [] | Some r \<Rightarrow> [r]) of
                Some existing \<Rightarrow> (Inr (Inl (spr_id existing)), db1)
              | None \<Rightarrow>
                 (case dtext of
                    OperationalFailure \<Rightarrow> (Inl None, db1)
                  | TerminalFailure e \<Rightarrow> (Inl (Some e), db1)
                  | Extracted dt \<Rightarrow>
                     (case route_supporting baseline dt (cdoc_role a) of
                        None \<Rightarrow> (Inl None, db1)
                      | Some [] \<Rightarrow> (Inr (Inl rid), db1)
                      | Some reasons \<Rightarrow>
                          let (run, cases2) = get_or_create_hybrid_support env a cases1; db2 = db1\<lparr>sudb_cases := cases2\<rparr> in
                          if spr_status run = SUPPORTING_SUCCEEDED then (Inr (Inl (spr_id run)), db2)
                          else let (call, calls1) = get_or_create_support_call env st (spr_id run) (cdoc_role a) sha
                                     (support_fingerprint lib st sha (cdoc_role a) reasons) reasons (sudb_calls db2);
                                   (out, db3) = settle_support st outcome baseline dt call (db2\<lparr>sudb_calls := calls1\<rparr>)
                               in (Inr (Inr (spr_id run, out)), db3))))))"

definition write_support_result :: "support_env \<Rightarrow> case_document \<Rightarrow> uuid \<Rightarrow> supporting_output \<Rightarrow> case_db \<Rightarrow> case_db" where
  "write_support_result env a rid out db =
     log_case (sue_worker env) a (''support-hybrid-completed:'' @ uuid_text rid) ''EXTRACTION_COMPLETED'' ''extraction'' ''completed''
       ''Supporting candidate processing completed; confirmation required''
       [(''extraction_run_id'', JStr (uuid_text rid)), (''confirmation_required'', JBool True)]
       (set_support_run rid (\<lambda>r. r\<lparr>spr_status := SUPPORTING_SUCCEEDED, spr_output := Some out\<rparr>) db)"

definition support_hybrid_process ::
  "lib \<Rightarrow> support_settings \<Rightarrow> support_env \<Rightarrow> supporting_output reading \<Rightarrow> document_text reading \<Rightarrow> support_outcome \<Rightarrow> case_document \<Rightarrow> string
    \<Rightarrow> support_db \<Rightarrow> (raised, uuid) result \<times> support_db" where
  "support_hybrid_process lib st env reading dtext outcome a sha db =
     (case support_hybrid_attempt lib st env reading dtext outcome a sha db of
        (Inl e, db1) \<Rightarrow> (Inl e, db1)
      | (Inr (Inl rid), db1) \<Rightarrow> (Inr rid, db1)
      | (Inr (Inr (rid, out)), db1) \<Rightarrow> (Inr rid, db1\<lparr>sudb_cases := write_support_result env a rid out (sudb_cases db1)\<rparr>))"

subsection \<open>Requests are sent once\<close>

definition settled :: "support_call \<Rightarrow> bool" where
  "settled c \<longleftrightarrow> suc_status c = CALL_FAILED \<or> (suc_status c = CALL_SUCCEEDED \<and> suc_candidate c \<noteq> None)"

text \<open>A call of another worker that has just been inserted.\<close>

definition fresh_support_call :: "support_env \<Rightarrow> support_call list \<Rightarrow> bool" where
  "fresh_support_call env calls \<longleftrightarrow> sue_call_id env \<notin> suc_id ` set calls
     \<and> (case sue_racing_call env of None \<Rightarrow> True
        | Some c \<Rightarrow> suc_id c \<notin> insert (sue_call_id env) (suc_id ` set calls) \<and> \<not> settled c \<and> support_call_key c \<notin> support_call_key ` set calls)"

inductive support_step :: "lib \<Rightarrow> support_db \<Rightarrow> support_db \<Rightarrow> bool" for lib where
  delivered: "fresh_support_call env (sudb_calls db)
    \<Longrightarrow> support_step lib db (snd (support_hybrid_process lib st env reading dtext outcome a sha db))"
| stopped: "fresh_support_call env (sudb_calls db)
    \<Longrightarrow> support_step lib db (snd (support_hybrid_attempt lib st env reading dtext outcome a sha db))"

definition support_start :: "support_db \<Rightarrow> bool" where
  "support_start db \<longleftrightarrow> sudb_calls db = [] \<and> sudb_requests db = []"

definition calls_sound :: "support_call list \<Rightarrow> (uuid \<times> string \<times> string) list \<Rightarrow> bool" where
  "calls_sound calls requests \<longleftrightarrow> distinct (map suc_id calls) \<and> distinct (map support_call_key calls) \<and> distinct requests
     \<and> set requests \<subseteq> support_call_key ` {c \<in> set calls. settled c}"

lemma calls_sound_insert:
  assumes "calls_sound calls requests" and "suc_id c \<notin> suc_id ` set calls" and "support_call_key c \<notin> support_call_key ` set calls"
  shows "calls_sound (calls @ [c]) requests"
  using assms by (auto simp: calls_sound_def)

lemma get_or_create_support_call_sound:
  assumes "calls_sound calls requests" and "fresh_support_call env calls"
    and "get_or_create_support_call env st rid role sha fp reasons calls = (call, calls')"
  shows "calls_sound calls' requests" and "call \<in> set calls'"
proof -
  let ?key = "(rid, prompt_of_role role, fp)"
  define calls1 where "calls1 = (case sue_racing_call env of None \<Rightarrow> calls | Some c \<Rightarrow> calls @ [c])"
  have raced: "calls_sound calls1 requests" "sue_call_id env \<notin> suc_id ` set calls1"
    using assms(1,2) calls_sound_insert by (auto simp: calls1_def fresh_support_call_def split: option.splits)
  have "calls_sound calls' requests \<and> call \<in> set calls'"
  proof (cases "find_support_call ?key calls")
    case (Some existing)
    with assms(1,3) show ?thesis by (auto simp: get_or_create_support_call_def Let_def find_support_call_def dest: find_row_Some)
  next
    case None
    show ?thesis
    proof (cases "find_support_call ?key calls1")
      case (Some concurrent)
      with None assms(3) raced show ?thesis
        by (auto simp: get_or_create_support_call_def Let_def calls1_def find_support_call_def dest: find_row_Some)
    next
      case none: None
      with None assms(3) have new: "calls' = calls1 @ [call]" "suc_id call = sue_call_id env" "support_call_key call = ?key"
        by (auto simp: get_or_create_support_call_def Let_def calls1_def [symmetric] support_call_key_def)
      moreover have "?key \<notin> support_call_key ` set calls1" using none by (auto simp: find_support_call_def find_row_None_iff)
      ultimately show ?thesis using raced calls_sound_insert [of calls1 requests call] by simp
    qed
  qed
  then show "calls_sound calls' requests" and "call \<in> set calls'" by auto
qed

lemma finish_support_call_sound:
  assumes "calls_sound calls requests" and "call \<in> set calls" and "\<not> settled call" and "rs = [] \<or> rs = [support_call_key call]"
    and "\<And>c. settled (c\<lparr>suc_status := status, suc_candidate := k, suc_error_code := code\<rparr>)"
  shows "calls_sound (update_rows (\<lambda>c. suc_id c = suc_id call) (\<lambda>c. c\<lparr>suc_status := status, suc_candidate := k, suc_error_code := code\<rparr>) calls) (requests @ rs)"
proof -
  define f :: "support_call \<Rightarrow> support_call" where "f = (\<lambda>c. if suc_id c = suc_id call then c\<lparr>suc_status := status, suc_candidate := k, suc_error_code := code\<rparr> else c)"
  have update: "update_rows (\<lambda>c. suc_id c = suc_id call) (\<lambda>c. c\<lparr>suc_status := status, suc_candidate := k, suc_error_code := code\<rparr>) calls = map f calls"
    by (induction calls) (simp_all add: f_def)
  have keys: "suc_id (f c) = suc_id c" "support_call_key (f c) = support_call_key c" for c by (simp_all add: f_def support_call_key_def)
  have fresh: "support_call_key call \<notin> set requests"
  proof
    assume "support_call_key call \<in> set requests"
    with assms(1) obtain c where "c \<in> set calls" "settled c" "support_call_key c = support_call_key call" by (auto simp: calls_sound_def)
    with assms(1-3) have "c = call" by (auto simp: calls_sound_def distinct_map inj_on_def)
    with \<open>settled c\<close> assms(3) show False by simp
  qed
  have kept: "support_call_key c \<in> support_call_key ` {c \<in> f ` set calls. settled c}" if "c \<in> set calls" "settled c \<or> c = call" for c
  proof (rule image_eqI)
    show "support_call_key c = support_call_key (f c)" by (simp add: keys)
    show "f c \<in> {c \<in> f ` set calls. settled c}" using that assms(5) by (auto simp: f_def)
  qed
  have "set requests \<union> {support_call_key call} \<subseteq> support_call_key ` {c \<in> f ` set calls. settled c}"
    using assms(1,2) kept unfolding calls_sound_def by blast
  then have "set (requests @ rs) \<subseteq> support_call_key ` {c \<in> set (map f calls). settled c}" using assms(4) by auto
  moreover have "map suc_id (map f calls) = map suc_id calls" "map support_call_key (map f calls) = map support_call_key calls"
    by (simp_all add: keys)
  moreover have "distinct (requests @ rs)" using assms(1,4) fresh by (auto simp: calls_sound_def)
  ultimately show ?thesis using assms(1) unfolding update calls_sound_def by metis
qed

lemma settle_support_settled: "settled call \<Longrightarrow> snd (settle_support st outcome baseline dt call db) = db"
  by (auto simp: settle_support_def settled_def split: option.splits)

lemma settle_support_open:
  assumes "\<not> settled call"
  shows "settle_support st outcome baseline dt call db = (case outcome of
      SupportUnrendered code \<Rightarrow> (baseline, finish_support_call (suc_id call) CALL_FAILED None (Some code) db)
    | SupportUnavailable \<Rightarrow> (baseline, finish_support_call (suc_id call) CALL_FAILED None (Some SCHEMA_INVALID) db)
    | SupportFailed code \<Rightarrow> (baseline, finish_support_call (suc_id call) CALL_FAILED None (Some code) (send_support_request call db))
    | SupportAnswered k \<Rightarrow>
        (case fuse_supporting (sus_fuzzy st) baseline k dt of
           None \<Rightarrow> (baseline, finish_support_call (suc_id call) CALL_FAILED None (Some SCHEMA_INVALID) (send_support_request call db))
         | Some f \<Rightarrow> (sf_output f, finish_support_call (suc_id call) CALL_SUCCEEDED (Some k) None (send_support_request call db))))"
  using assms by (cases "suc_status call"; cases "suc_candidate call") (simp_all add: settle_support_def settled_def)

lemma settle_support_sound:
  assumes "calls_sound (sudb_calls db) (sudb_requests db)" and "call \<in> set (sudb_calls db)"
    and "db' = snd (settle_support st outcome baseline dt call db)"
  shows "calls_sound (sudb_calls db') (sudb_requests db')"
proof (cases "settled call")
  case True
  with assms show ?thesis by (simp add: settle_support_settled)
next
  case False
  note sound = finish_support_call_sound [OF assms(1,2) False]
  from sound [where rs = "[]"] sound [where rs = "[support_call_key call]"] show ?thesis
    unfolding assms(3) settle_support_open [OF False]
    by (cases outcome) (auto simp: finish_support_call_def send_support_request_def settled_def split: option.split)
qed

lemma support_hybrid_attempt_sound:
  assumes "calls_sound (sudb_calls db) (sudb_requests db)" and "fresh_support_call env (sudb_calls db)"
    and "support_hybrid_attempt lib st env reading dtext outcome a sha db = (x, db')"
  shows "calls_sound (sudb_calls db') (sudb_requests db')"
proof -
  obtain base cases1 where base: "support_process (sue_worker env) reading a (sudb_cases db) = (base, cases1)" by fastforce
  obtain run cases2 where run: "get_or_create_hybrid_support env a cases1 = (run, cases2)" by fastforce
  have asked: "calls_sound (sudb_calls db3) (sudb_requests db3)"
    if "get_or_create_support_call env st rid role sha fp reasons (sudb_calls db) = (call, calls1)"
      and "settle_support st outcome baseline dt call (db\<lparr>sudb_cases := cases2, sudb_calls := calls1\<rparr>) = (out, db3)"
    for rid role fp reasons call calls1 baseline dt out db3
    using get_or_create_support_call_sound [OF assms(1,2) that(1)] that(2)
      settle_support_sound [of "db\<lparr>sudb_cases := cases2, sudb_calls := calls1\<rparr>" call db3 st outcome baseline dt] by simp
  note attempt = assms(3) [unfolded support_hybrid_attempt_def Let_def base prod.case]
  show ?thesis
  proof (cases base)
    case (Inl e)
    with attempt assms(1) show ?thesis by auto
  next
    case base: (Inr rid)
    show ?thesis
    proof (cases "Option.bind (find_row (\<lambda>r. spr_id r = rid) (kdb_support_runs cases1)) spr_output")
      case None
      with attempt base assms(1) show ?thesis by auto
    next
      case baseline: (Some baseline)
      define existing where "existing = find_row (\<lambda>r. spr_status r = SUPPORTING_SUCCEEDED)
        (case find_hybrid_support (kdb_support_runs cases1) (cdoc_document_id a) (cdoc_role a) of None \<Rightarrow> [] | Some r \<Rightarrow> [r])"
      note attempt = attempt [unfolded base baseline sum.case option.case existing_def [symmetric]]
      show ?thesis
      proof (cases "existing = None \<and> (\<exists>dt reason reasons. dtext = Extracted dt \<and> route_supporting baseline dt (cdoc_role a) = Some (reason # reasons))")
        case False
        with attempt assms(1) show ?thesis by (auto split: option.splits reading.splits list.splits)
      next
        case True
        then obtain dt reason reasons where ask: "existing = None" "dtext = Extracted dt" "route_supporting baseline dt (cdoc_role a) = Some (reason # reasons)" by blast
        note attempt = attempt [unfolded ask option.case reading.case list.case run prod.case]
        show ?thesis using attempt assms(1) by (cases "spr_status run = SUPPORTING_SUCCEEDED") (auto split: prod.splits dest: asked)
      qed
    qed
  qed
qed

lemma support_step_sound: "support_step lib db db' \<Longrightarrow> calls_sound (sudb_calls db) (sudb_requests db) \<Longrightarrow> calls_sound (sudb_calls db') (sudb_requests db')"
proof (induction rule: support_step.induct)
  case (stopped env db st reading dtext outcome a sha)
  then show ?case using support_hybrid_attempt_sound [OF _ _ prod.collapse [symmetric]] by blast
next
  case (delivered env db st reading dtext outcome a sha)
  obtain x db1 where att: "support_hybrid_attempt lib st env reading dtext outcome a sha db = (x, db1)" by fastforce
  from support_hybrid_attempt_sound [OF delivered(2,1) att] att show ?case
    by (auto simp: support_hybrid_process_def split: sum.splits)
qed

interpretation support: inductive_system support_start "support_step lib" "\<lambda>db. calls_sound (sudb_calls db) (sudb_requests db)" for lib
proof unfold_locales
  show "calls_sound (sudb_calls db) (sudb_requests db)" if "support_start db" for db
    using that by (simp add: support_start_def calls_sound_def)
qed (rule support_step_sound)

text \<open>
  C17: For a supporting document, too, no request is sent to the provider twice, whatever is delivered and read, whoever
  inserts the same call at the same time, and wherever a worker stops once the outcome of a call is recorded.
\<close>

theorem support_requests_once:
  assumes "reachable_from support_start (support_step lib) db"
  shows "distinct (sudb_requests db)"
  using support.inv_reachable [OF assms] by (simp add: calls_sound_def)

subsection \<open>A provider that cannot be built\<close>

text \<open>
  Missing credentials end a call for good. When the provider cannot be built, the call is recorded as failed with the code
  of an invalid answer, although nothing was sent; a later delivery, with a provider that would answer, finds the
  failed call, sends nothing and writes the deterministic output.
\<close>

theorem missing_credentials_final:
  assumes "call \<in> set (sudb_calls db)" and "suc_status call = CALL_PROCESSING" and "distinct (map suc_id (sudb_calls db))"
    and "settle_support st SupportUnavailable baseline dt call db = (out, db1)"
  shows "\<exists>call'. find_row (\<lambda>c. suc_id c = suc_id call) (sudb_calls db1) = Some call' \<and> suc_error_code call' = Some ''provider_schema_invalid''
    \<and> sudb_requests db1 = sudb_requests db \<and> settle_support st (SupportAnswered k) baseline dt call' db1 = (baseline, db1)"
proof -
  have "\<not> settled call" using assms(2) by (simp add: settled_def)
  then have db1: "db1 = finish_support_call (suc_id call) CALL_FAILED None (Some SCHEMA_INVALID) db"
    using assms(4) by (simp add: settle_support_open)
  define call' where "call' = call\<lparr>suc_status := CALL_FAILED, suc_candidate := None, suc_error_code := Some SCHEMA_INVALID\<rparr>"
  have "find_row (\<lambda>c. suc_id c = suc_id call) (sudb_calls db) = Some call" by (rule find_row_key [OF assms(3,1)])
  then have "find_row (\<lambda>c. suc_id c = suc_id call) (sudb_calls db1) = Some call'"
    unfolding db1 finish_support_call_def call'_def by (simp add: find_row_update_rows)
  moreover have "settle_support st (SupportAnswered k) baseline dt call' db1 = (baseline, db1)" by (simp add: settle_support_def call'_def)
  ultimately show ?thesis by (simp add: db1 finish_support_call_def call'_def SCHEMA_INVALID_def)
qed

subsection \<open>Examples\<close>

definition sample_support_settings :: support_settings where
  "sample_support_settings = \<lparr>sus_provider_name = ''openai'', sus_requested_model = ''m'', sus_fuzzy = equal_ratio\<rparr>"

definition sample_support_env :: support_env where
  "sample_support_env = \<lparr>sue_worker = sample_worker_env 40, sue_run_id = 41, sue_racing_run = None, sue_call_id = 42, sue_racing_call = None\<rparr>"

definition empty_support :: support_db where
  "empty_support = \<lparr>sudb_cases = sample_start, sudb_calls = [], sudb_requests = []\<rparr>"

definition sample_support_attempt :: "(raised, uuid + uuid \<times> supporting_output) result \<times> support_db" where
  "sample_support_attempt = support_hybrid_attempt sample_lib sample_support_settings sample_support_env (Extracted (OutputPO sample_order))
     (Extracted row_document) (SupportFailed ''provider_failed'') (sample_document 1 2 PURCHASE_ORDER 1) ''digest'' empty_support"

lemma support_succeeded_runs [simp]: "kdb_support_runs (support_succeeded env a rid db) = kdb_support_runs db"
  by (simp add: support_succeeded_def Let_def log_case_def move_case_def split: option.split)

lemma sample_order_routed: "route_supporting (OutputPO sample_order) row_document PURCHASE_ORDER = Some [ROUTE_FIELD_MISSING, ROUTE_INCOMPLETE_LINE_ITEMS]"
  by code_simp

lemma sample_support_requests: "length (sudb_requests (snd sample_support_attempt)) = 1"
  by (simp add: sample_support_attempt_def support_hybrid_attempt_def empty_support_def support_process_def get_or_create_support_def find_support_run_def
      set_support_run_def sample_start_def sample_document_def find_hybrid_support_def SUPPORTING_EXTRACTOR_def SUPPORTING_HYBRID_def sample_order_routed
      get_or_create_hybrid_support_def get_or_create_support_call_def find_support_call_def sample_support_env_def settle_support_def
      finish_support_call_def send_support_request_def sample_worker_env_def Let_def)

theorem support_requests_once_witness:
  "length (sudb_requests (snd sample_support_attempt)) = 1 \<and> distinct (sudb_requests (snd sample_support_attempt))"
proof -
  have "reachable_from support_start (support_step sample_lib) empty_support"
    by (rule reach_start) (simp add: support_start_def empty_support_def)
  moreover have "support_step sample_lib empty_support (snd sample_support_attempt)"
    unfolding sample_support_attempt_def by (rule stopped) (simp add: fresh_support_call_def sample_support_env_def empty_support_def)
  ultimately have "reachable_from support_start (support_step sample_lib) (snd sample_support_attempt)" by (rule reach_step)
  from support_requests_once [OF this] sample_support_requests show ?thesis by simp
qed

definition sample_support_call :: support_call where
  "sample_support_call = \<lparr>suc_id = 42, suc_run_id = 41, suc_role = PURCHASE_ORDER, suc_provider = ''openai'', suc_requested_model = ''m'',
     suc_prompt_version = ''supporting-po-vision-v1'', suc_status = CALL_PROCESSING, suc_input_document_hash = ''digest'',
     suc_request_fingerprint = ''fp'', suc_reasons = [ROUTE_FIELD_MISSING], suc_candidate = None, suc_error_code = None\<rparr>"

theorem missing_credentials_final_witness:
  "\<exists>call'. find_row (\<lambda>c. suc_id c = 42) (sudb_calls (snd (settle_support sample_support_settings SupportUnavailable (OutputPO sample_order) row_document
        sample_support_call (empty_support\<lparr>sudb_calls := [sample_support_call]\<rparr>)))) = Some call'
    \<and> suc_error_code call' = Some ''provider_schema_invalid''"
  using missing_credentials_final [of sample_support_call "empty_support\<lparr>sudb_calls := [sample_support_call]\<rparr>", OF _ _ _ prod.collapse [symmetric]]
  by (fastforce simp: sample_support_call_def)

end
