(* ===== verification/Line_Coverage.thy ===== *)
theory Line_Coverage
  imports Header_Rules
begin

text \<open>
  Variants of the deterministic extractor that are offered beside it: line items from tables of two columns
  (\<^verbatim>\<open>extraction/line_coverage_candidate.py\<close>) and the narrowing of evidence to the words that spell a value
  (\<^verbatim>\<open>extraction/value_grounding.py\<close>).
\<close>

subsection \<open>Headers of two columns\<close>

text \<open>The constants \<^verbatim>\<open>1e-6\<close>, \<^verbatim>\<open>0.02\<close> and \<^verbatim>\<open>0.03\<close> as doubles.\<close>

definition EPSILON :: pyfloat where
  "EPSILON = Scaled 4722366482869645 (- 72)"

definition LEAST_GUTTER :: pyfloat where
  "LEAST_GUTTER = Scaled 5764607523034235 (- 58)"

definition MAX_WRAP_GAP :: pyfloat where
  "MAX_WRAP_GAP = Scaled 1080863910568919 (- 55)"

definition PROSE_ENDINGS :: "string list" where
  "PROSE_ENDINGS = [''thank you'', ''please remit'', ''remit to'', ''payment terms'']"

record two_column_header =
  tc_page :: nat
  tc_row :: visual_row
  tc_columns :: "column_anchor \<times> column_anchor"

datatype coverage_header = Detected table_header | Two_Column two_column_header

definition unique_anchor :: "visual_row \<Rightarrow> line_item_column \<Rightarrow> column_anchor option" where
  "unique_anchor row column =
     (case best_anchor row column of
        None \<Rightarrow> None
      | Some selected \<Rightarrow>
          if list_ex (\<lambda>ws. span_label ws \<in> set (HEADER_ALIASES column)
               \<and> list_ex (\<lambda>w. flt (bb_x0 (wt_bbox w)) (fsub (bb_x0 (ca_bbox selected)) EPSILON)
                    \<or> flt (fadd (bb_x1 (ca_bbox selected)) EPSILON) (bb_x1 (wt_bbox w))) ws)
             (word_spans 3 (vr_words row))
          then None else Some selected)"

definition inside_anchor :: "column_anchor \<Rightarrow> word_token \<Rightarrow> bool" where
  "inside_anchor a w = (fle (bb_x0 (ca_bbox a)) (fadd (bb_x0 (wt_bbox w)) EPSILON) \<and> fle (fsub (bb_x1 (wt_bbox w)) EPSILON) (bb_x1 (ca_bbox a)))"

definition detect_candidate_header :: "visual_row \<Rightarrow> coverage_header option" where
  "detect_candidate_header row =
     (case detect_table_header row of
        Some frozen \<Rightarrow> Some (Detected frozen)
      | None \<Rightarrow>
          if list_ex (\<lambda>w. list_ex is_digit (wt_text w)) (vr_words row) then None
          else if list_ex (\<lambda>column. best_anchor row column \<noteq> None) [QUANTITY, UNIT_PRICE] then None
          else (case (unique_anchor row DESCRIPTION, unique_anchor row LINE_TOTAL) of
              (Some description, Some line_total) \<Rightarrow>
                if flt (fsub (bb_x0 (ca_bbox line_total)) (bb_x1 (ca_bbox description))) LEAST_GUTTER then None
                else if list_ex (\<lambda>w. normalize_header_text (wt_text w) \<noteq> [] \<and> \<not> list_ex (\<lambda>a. inside_anchor a w) [description, line_total]) (vr_words row)
                then None
                else Some (Two_Column \<lparr>tc_page = vr_page row, tc_row = row, tc_columns = (description, line_total)\<rparr>)
            | _ \<Rightarrow> None))"

fun candidate_column_ranges :: "coverage_header \<Rightarrow> column_range list" where
  "candidate_column_ranges (Detected h) = infer_column_ranges h"
| "candidate_column_ranges (Two_Column h) =
     (let boundary = fhalf (fadd (ca_center_x (fst (tc_columns h))) (ca_center_x (snd (tc_columns h)))) in
      [\<lparr>cr_column = DESCRIPTION, cr_x0 = Scaled 0 0, cr_x1 = boundary\<rparr>, \<lparr>cr_column = LINE_TOTAL, cr_x0 = boundary, cr_x1 = Scaled 1 0\<rparr>])"

subsection \<open>Rows and footers\<close>

definition numeric_words :: "table_row \<Rightarrow> nat" where
  "numeric_words row = length (filter (\<lambda>w. parse_money (wt_text w) \<noteq> None) (pr_line_total_words row))"

definition candidate_row_is_probable :: "table_row \<Rightarrow> column_range list \<Rightarrow> bool" where
  "candidate_row_is_probable row ranges =
     (if length ranges = 2 \<and> numeric_words row \<noteq> 1 then False else is_probable_line_item row)"

definition candidate_is_footer :: "visual_row \<Rightarrow> column_range list \<Rightarrow> bool" where
  "candidate_is_footer row ranges =
     (if is_footer row then True
      else if length ranges \<noteq> 2 then False
      else let t = py_strip (map lower_char (row_text row)) in
        if is_ignored row \<or> list_ex (\<lambda>p. starts_with p t) PROSE_ENDINGS then True
        else if t = ''total'' \<or> starts_with ''total:'' t \<or> starts_with ''total '' t
        then let rest = dropWhile (\<lambda>c. c \<in> set '' :'') (drop 5 t) in rest = [] \<or> parse_money rest \<noteq> None
        else False)"

subsection \<open>Sections\<close>

definition probable_indices :: "table_row list \<Rightarrow> column_range list \<Rightarrow> nat list" where
  "probable_indices rows ranges = filter (\<lambda>i. candidate_row_is_probable (rows ! i) ranges) [0..<length rows]"

text \<open>A description on its own is kept when exactly one item lies next to it.\<close>

definition wraps_to_one :: "table_row list \<Rightarrow> nat list \<Rightarrow> nat \<Rightarrow> bool" where
  "wraps_to_one rows valid i =
     (let row = rows ! i;
          gaps = map (\<lambda>k. if k < i then fsub (pr_y0 row) (pr_y1 (rows ! k)) else fsub (pr_y0 (rows ! k)) (pr_y1 row)) valid;
          closest = fmin gaps
      in gaps \<noteq> [] \<and> fle (Scaled 0 0) closest \<and> fle closest MAX_WRAP_GAP
         \<and> length (filter (\<lambda>g. flt (fabs (fsub g closest)) EPSILON) gaps) = 1)"

definition two_column_rows :: "table_row list \<Rightarrow> column_range list \<Rightarrow> table_row list" where
  "two_column_rows rows ranges =
     (let valid = probable_indices rows ranges in
      map (\<lambda>i. rows ! i) (filter (\<lambda>i. i \<in> set valid \<or> description_only (rows ! i) \<and> wraps_to_one rows valid i) [0..<length rows]))"

definition resolve_two_column_section :: "table_row list \<Rightarrow> column_range list \<Rightarrow> invoice_line list" where
  "resolve_two_column_section rows ranges = resolve_continuations (two_column_rows rows ranges)"

definition flush_section :: "table_row list \<Rightarrow> column_range list option \<Rightarrow> invoice_line list" where
  "flush_section part ranges =
     (case ranges of
        None \<Rightarrow> []
      | Some rs \<Rightarrow> if length rs = 2 then resolve_two_column_section part rs else resolve_continuations part)"

subsection \<open>Tables of a document\<close>

text \<open>A header of two columns inside an open table of three or more is an ordinary row of it.\<close>

definition open_header :: "column_range list option \<Rightarrow> visual_row \<Rightarrow> coverage_header option" where
  "open_header ranges row =
     (case (detect_candidate_header row, ranges) of
        (Some (Two_Column h), Some rs) \<Rightarrow> if 3 \<le> length rs then None else Some (Two_Column h)
      | (header, _) \<Rightarrow> header)"

definition candidate_scan_row :: "(table_row list \<Rightarrow> column_range list option \<Rightarrow> 'i list) \<Rightarrow> 'i list \<times> table_row list \<times> column_range list option
    \<Rightarrow> visual_row \<Rightarrow> 'i list \<times> table_row list \<times> column_range list option" where
  "candidate_scan_row flush state row =
     (case state of (items, part, ranges) \<Rightarrow>
        (case open_header ranges row of
          Some h \<Rightarrow> (items @ flush part ranges, [], Some (candidate_column_ranges h))
        | None \<Rightarrow>
           (case ranges of
              None \<Rightarrow> (items, part, None)
            | Some rs \<Rightarrow>
                if candidate_is_footer row rs then (items @ flush part ranges, [], None)
                else if is_ignored row then (items, part, ranges)
                else (items, part @ [parse_table_row row rs], ranges))))"

definition candidate_close :: "(table_row list \<Rightarrow> column_range list option \<Rightarrow> 'i list) \<Rightarrow> 'i list \<times> table_row list \<times> column_range list option \<Rightarrow> 'i list" where
  "candidate_close flush state = (case state of (items, part, ranges) \<Rightarrow> items @ flush part ranges)"

definition candidate_scan_page :: "(table_row list \<Rightarrow> column_range list option \<Rightarrow> 'i list) \<Rightarrow> visual_row list \<Rightarrow> 'i list" where
  "candidate_scan_page flush rows = candidate_close flush (foldl (candidate_scan_row flush) ([], [], None) rows)"

definition candidate_scan_document :: "(table_row list \<Rightarrow> column_range list option \<Rightarrow> 'i list) \<Rightarrow> document_text \<Rightarrow> 'i list" where
  "candidate_scan_document flush doc =
     (let rows = reconstruct_visual_rows doc in
      concat (map (\<lambda>page. candidate_scan_page flush (filter (\<lambda>r. vr_page r = page) rows)) (sort (remdups (map vr_page rows)))))"

definition extract_candidate_line_items :: "document_text \<Rightarrow> invoice_line list" where
  "extract_candidate_line_items = candidate_scan_document flush_section"

definition line_coverage_extract :: "document_text \<Rightarrow> invoice" where
  "line_coverage_extract doc = (deterministic_extract doc)\<lparr>inv_line_items := extract_candidate_line_items doc\<rparr>"

subsection \<open>Documents without tables of two columns\<close>

fun two_columns :: "coverage_header option \<Rightarrow> bool" where
  "two_columns (Some (Two_Column h)) = True"
| "two_columns _ = False"

definition wide :: "column_range list option \<Rightarrow> bool" where
  "wide ranges = (case ranges of None \<Rightarrow> True | Some rs \<Rightarrow> 3 \<le> length rs)"

lemma detect_candidate_cases:
  assumes "\<not> two_columns (detect_candidate_header row)"
  shows "detect_candidate_header row = map_option Detected (detect_table_header row)"
  using assms by (auto simp: detect_candidate_header_def split: option.splits if_splits)

lemma wide_header: "detect_table_header row = Some h \<Longrightarrow> 3 \<le> length (infer_column_ranges h)"
  using header_columns [of row h] length_column_ranges [of h] by fastforce

lemma scan_row_same:
  assumes "\<not> two_columns (detect_candidate_header row)" and "wide ranges"
  shows "candidate_scan_row flush_section (items, part, ranges) row = scan_row resolve_continuations (items, part, ranges) row"
    and "wide (snd (snd (scan_row resolve_continuations (items, part, ranges) row)))"
  using assms(2) wide_header [of row]
  by (auto simp: candidate_scan_row_def scan_row_def open_header_def detect_candidate_cases [OF assms(1)] flush_section_def
      candidate_is_footer_def wide_def split: option.splits)

lemma scan_rows_same:
  assumes "\<forall>row \<in> set rows. \<not> two_columns (detect_candidate_header row)" and "wide (snd (snd state))"
  shows "foldl (candidate_scan_row flush_section) state rows = foldl (scan_row resolve_continuations) state rows
    \<and> wide (snd (snd (foldl (scan_row resolve_continuations) state rows)))"
  using assms
proof (induction rows arbitrary: state)
  case (Cons row rows)
  obtain items part ranges where "state = (items, part, ranges)" by (metis prod_cases3)
  with Cons scan_row_same [of row ranges items part] show ?case by simp
qed simp

lemma candidate_page_same:
  assumes "\<forall>row \<in> set rows. \<not> two_columns (detect_candidate_header row)"
  shows "candidate_scan_page flush_section rows = scan_page resolve_continuations rows"
  using scan_rows_same [OF assms, of "([], [], None)"]
  by (auto simp: candidate_scan_page_def scan_page_def candidate_close_def close_page_def flush_section_def wide_def split: prod.splits option.splits)

text \<open>
  C28: The coverage variant leaves the established reading alone: on a document in which no row is a header of two
  columns it returns the same invoice as the deterministic extractor, line by line.
\<close>

theorem coverage_extends_frozen:
  assumes "\<forall>row \<in> set (reconstruct_visual_rows doc). \<not> two_columns (detect_candidate_header row)"
  shows "line_coverage_extract doc = deterministic_extract doc"
proof -
  have "candidate_scan_page flush_section (filter (\<lambda>r. vr_page r = page) (reconstruct_visual_rows doc))
      = scan_page resolve_continuations (filter (\<lambda>r. vr_page r = page) (reconstruct_visual_rows doc))" for page
    by (rule candidate_page_same) (use assms in auto)
  then have "extract_candidate_line_items doc = extract_line_items doc"
    by (simp add: extract_candidate_line_items_def candidate_scan_document_def extract_line_items_def scan_document_def Let_def)
  then show ?thesis by (simp add: line_coverage_extract_def deterministic_extract_def Let_def)
qed

subsection \<open>Lines of the coverage variant\<close>

definition flushed_rows :: "table_row list \<Rightarrow> column_range list option \<Rightarrow> table_row list" where
  "flushed_rows part ranges =
     (case ranges of None \<Rightarrow> [] | Some rs \<Rightarrow> resolved_rows (if length rs = 2 then two_column_rows part rs else part))"

lemma flush_section_rows: "flush_section part ranges = map to_invoice_line (flushed_rows part ranges)"
  by (simp add: flush_section_def flushed_rows_def resolve_two_column_section_def resolve_continuations_def split: option.split)

lemma two_column_rows_count: "rows_count w (two_column_rows rows ranges) \<le> rows_count w rows"
proof -
  have "rows_count w (map (\<lambda>i. rows ! i) (filter P [0..<length rows])) \<le> rows_count w (map (\<lambda>i. rows ! i) [0..<length rows])" for P
    unfolding rows_count_def map_map comp_def by (simp only: sum_upt_filter sum_list_distinct_conv_sum_set distinct_upt) (auto intro!: sum_mono2)
  then show ?thesis unfolding two_column_rows_def Let_def map_nth by blast
qed

lemma flushed_rows_count: "rows_count w (flushed_rows part ranges) \<le> rows_count w part"
  using resolved_rows_count two_column_rows_count order_trans
  by (auto simp: flushed_rows_def split: option.split) blast+

interpretation coverage_scan: table_scan "candidate_scan_row flushed_rows" "candidate_close flushed_rows"
proof unfold_locales
  fix w row and state :: "table_row list \<times> table_row list \<times> column_range list option"
  obtain items part ranges where "state = (items, part, ranges)" by (metis prod_cases3)
  then show "rows_held w (candidate_scan_row flushed_rows state row) \<le> rows_held w state + count_list (vr_words row) w"
    and "rows_count w (candidate_close flushed_rows state) \<le> rows_held w state"
    using flushed_rows_count [of w part] parse_table_row_words [of row _ w]
    by (auto simp: rows_held_def candidate_close_def candidate_scan_row_def trans_le_add1 add_mono split: option.splits if_splits intro: order_trans)
qed

lemma candidate_scan_map: "candidate_scan_document flush_section doc = map to_invoice_line (candidate_scan_document flushed_rows doc)"
proof -
  let ?h = "apfst (map to_invoice_line)"
  have step: "candidate_scan_row flush_section (?h state) row = ?h (candidate_scan_row flushed_rows state row)" for state row
    by (auto simp: candidate_scan_row_def flush_section_rows split: option.splits prod.splits)
  have "candidate_scan_page flush_section rows = map to_invoice_line (candidate_scan_page flushed_rows rows)" for rows
    using foldl_fusion [where h = ?h and f = "candidate_scan_row flush_section" and g = "candidate_scan_row flushed_rows", OF step, of "([], [], None)" rows]
    by (simp add: candidate_scan_page_def candidate_close_def flush_section_rows split: prod.splits)
  then show ?thesis by (simp add: candidate_scan_document_def Let_def map_concat comp_def)
qed

lemma candidate_scan_all:
  assumes "\<And>part ranges x. x \<in> set (flush part ranges) \<Longrightarrow> P x" and "x \<in> set (candidate_scan_document flush doc)"
  shows "P x"
proof -
  have "list_all P (fst (foldl (candidate_scan_row flush) ([], [], None) rows))" for rows
    by (rule foldl_invariant) (auto simp: candidate_scan_row_def list_all_iff split: option.splits if_splits intro: assms(1))
  then have "list_all P (candidate_scan_page flush rows)" for rows
    unfolding candidate_scan_page_def candidate_close_def by (auto simp: list_all_iff split: prod.split intro: assms(1)) (metis fst_conv)+
  with assms(2) show ?thesis by (auto simp: candidate_scan_document_def Let_def list_all_iff)
qed

lemma flushed_line:
  assumes "l \<in> set (flush_section part ranges)"
  shows "invoice_line_valid l \<and> line_item_complete l"
  using assms by (auto simp: flush_section_def resolve_two_column_section_def split: option.splits if_splits
      intro: resolved_line_valid resolved_line_complete)

text \<open>
  On every document the coverage variant returns an invoice that satisfies the schema, with complete lines, and like
  the deterministic extractor uses no word for two lines or two cells.
\<close>

theorem coverage_lines_sound:
  "invoice_valid (line_coverage_extract doc) \<and> list_all line_item_complete (inv_line_items (line_coverage_extract doc))
   \<and> (\<exists>rows. inv_line_items (line_coverage_extract doc) = map to_invoice_line rows \<and> mset (concat (map row_words rows)) \<subseteq># mset (all_words doc))"
proof (intro conjI exI)
  have line: "invoice_line_valid l \<and> line_item_complete l" if "l \<in> set (extract_candidate_line_items doc)" for l
    using that flushed_line unfolding extract_candidate_line_items_def by (rule candidate_scan_all [rotated])
  then show "invoice_valid (line_coverage_extract doc)"
    using deterministic_invoice_valid [of doc] by (simp add: invoice_valid_def line_coverage_extract_def list_all_iff)
  show "list_all line_item_complete (inv_line_items (line_coverage_extract doc))"
    using line by (simp add: line_coverage_extract_def list_all_iff)
  show "inv_line_items (line_coverage_extract doc) = map to_invoice_line (candidate_scan_document flushed_rows doc)"
    by (simp add: line_coverage_extract_def extract_candidate_line_items_def candidate_scan_map)
  have "rows_count w (candidate_scan_document flushed_rows doc) \<le> count_list (all_words doc) w" for w
    unfolding candidate_scan_document_def candidate_scan_page_def Let_def by (rule coverage_scan.document_count) (rule refl)
  then show "mset (concat (map row_words (candidate_scan_document flushed_rows doc))) \<subseteq># mset (all_words doc)"
    by (auto intro!: mset_subset_eqI simp: count_mset count_list_concat_map rows_count_def)
qed

text \<open>In a table of two columns the total of an item is one number, never two cells read as one.\<close>

lemma two_column_single_amount:
  assumes "r \<in> set (flushed_rows part (Some rs))" and "length rs = 2"
  shows "numeric_words r = 1"
proof -
  obtain i where i: "i < length (two_column_rows part rs)" "is_probable_line_item (two_column_rows part rs ! i)"
    and r: "r = resolved_row (two_column_rows part rs) i"
    using assms by (auto simp: flushed_rows_def resolved_rows_def valid_indices_set)
  have "candidate_row_is_probable row rs" if "row \<in> set (two_column_rows part rs)" "is_probable_line_item row" for row
    using that by (auto simp: two_column_rows_def probable_indices_def Let_def dest: description_only_not_item)
  with i have "candidate_row_is_probable (two_column_rows part rs ! i) rs" by (meson nth_mem)
  then show ?thesis
    using assms(2) by (auto simp: candidate_row_is_probable_def r resolved_row_def Let_def numeric_words_def split: if_splits)
qed

subsection \<open>Evidence of a value\<close>

fun date_matches :: "string \<Rightarrow> date \<Rightarrow> bool" where
  "date_matches t v = (parse_invoice_date t = Some v)"

fun decimal_matches :: "string \<Rightarrow> decimal \<Rightarrow> bool" where
  "decimal_matches t v = (case parse_money t of None \<Rightarrow> False | Some d \<Rightarrow> deq d v)"

fun text_matches :: "string \<Rightarrow> string \<Rightarrow> bool" where
  "text_matches t v = (normalize_identifier t = normalize_identifier v)"

definition within_evidence :: "evidence_span list \<Rightarrow> word_token \<Rightarrow> bool" where
  "within_evidence spans w =
     list_ex (\<lambda>span. ev_page span = wt_page w \<and> ev_source span = wt_source w
       \<and> fle (bb_x0 (ev_bbox span)) (fadd (bb_x0 (wt_bbox w)) EPSILON) \<and> fle (bb_y0 (ev_bbox span)) (fadd (bb_y0 (wt_bbox w)) EPSILON)
       \<and> fle (fsub (bb_x1 (wt_bbox w)) EPSILON) (bb_x1 (ev_bbox span)) \<and> fle (fsub (bb_y1 (wt_bbox w)) EPSILON) (bb_y1 (ev_bbox span))) spans"

definition location_key :: "evidence_span list \<Rightarrow> (nat \<times> rat \<times> rat \<times> rat \<times> rat) list" where
  "location_key = map (\<lambda>e. (ev_page e, fval (bb_x0 (ev_bbox e)), fval (bb_y0 (ev_bbox e)), fval (bb_x1 (ev_bbox e)), fval (bb_y1 (ev_bbox e))))"

definition value_spans :: "(string \<Rightarrow> 'a \<Rightarrow> bool) \<Rightarrow> 'a \<Rightarrow> evidence_span list \<Rightarrow> text_line \<Rightarrow> word_token list list" where
  "value_spans spells v spans line =
     (let ws = filter (within_evidence spans) (tl_words line) in
      filter (\<lambda>selected. spells (py_join '' '' (map wt_text selected)) v) (word_spans (length ws) ws))"

definition localize_candidates :: "(string \<Rightarrow> 'a \<Rightarrow> bool) \<Rightarrow> 'a \<Rightarrow> evidence_span list \<Rightarrow> document_text
    \<Rightarrow> ((nat \<times> rat \<times> rat \<times> rat \<times> rat) list \<times> nat \<times> evidence_span list) list" where
  "localize_candidates spells v spans doc =
     dict_of (map (\<lambda>ws. (location_key (evidence_from_words ws), length ws, evidence_from_words ws))
       (concat (map (value_spans spells v spans) (reconstruct_lines doc))))"

definition localize_header_value :: "(string \<Rightarrow> 'a \<Rightarrow> bool) \<Rightarrow> 'a extracted_field \<Rightarrow> document_text \<Rightarrow> 'a extracted_field" where
  "localize_header_value spells field doc =
     (case (fstatus field, fvalue field) of
        (EXTRACTED, Some v) \<Rightarrow>
          let found = map snd (localize_candidates spells v (fevidence field) doc) in
          if found = [] then field
          else (case filter (\<lambda>(n, ev). n = Min (fst ` set found)) found of
              [(_, best)] \<Rightarrow> field\<lparr>fevidence := best\<rparr>
            | _ \<Rightarrow> field)
      | _ \<Rightarrow> field)"

definition value_grounded_extract :: "document_text \<Rightarrow> invoice" where
  "value_grounded_extract doc =
     (let inv = deterministic_extract doc in
      inv\<lparr>inv_invoice_number := localize_header_value text_matches (inv_invoice_number inv) doc,
          inv_invoice_date := localize_header_value date_matches (inv_invoice_date inv) doc,
          inv_subtotal := localize_header_value decimal_matches (inv_subtotal inv) doc,
          inv_tax := localize_header_value decimal_matches (inv_tax inv) doc,
          inv_total := localize_header_value decimal_matches (inv_total inv) doc\<rparr>)"

text \<open>The words that a narrowed evidence is made of: neighbours in one line, inside the old evidence, that spell the value.\<close>

definition spelled_by :: "(string \<Rightarrow> 'a \<Rightarrow> bool) \<Rightarrow> 'a \<Rightarrow> evidence_span list \<Rightarrow> document_text \<Rightarrow> word_token list \<Rightarrow> bool" where
  "spelled_by spells v spans doc ws \<longleftrightarrow> ws \<noteq> [] \<and> spells (py_join '' '' (map wt_text ws)) v
     \<and> (\<exists>line \<in> set (reconstruct_lines doc). \<exists>i j. ws = slice i j (filter (within_evidence spans) (tl_words line)))"

lemma word_spans_nonempty: "ws \<in> set (word_spans k xs) \<Longrightarrow> ws \<noteq> [] \<and> (\<exists>i j. ws = slice i j xs)"
proof -
  assume "ws \<in> set (word_spans k xs)"
  then obtain i n where "i < length xs" "1 \<le> n" and ws: "ws = slice i (i + n) xs" by (auto simp: word_spans_def simp del: upt_Suc)
  then have "ws \<noteq> []" by (simp add: slice_def)
  with ws show ?thesis by blast
qed

lemma localize_candidates_spelled:
  assumes "(key, n, ev) \<in> set (localize_candidates spells v spans doc)"
  shows "\<exists>ws. spelled_by spells v spans doc ws \<and> n = length ws \<and> ev = evidence_from_words ws"
  using assms subsetD [OF set_dict_of]
  by (fastforce simp: localize_candidates_def value_spans_def spelled_by_def Let_def dest!: word_spans_nonempty)

lemma localize_cases:
  obtains "localize_header_value spells field doc = field"
  | v ws where "fvalue field = Some v" and "spelled_by spells v (fevidence field) doc ws"
      and "localize_header_value spells field doc = field\<lparr>fevidence := evidence_from_words ws\<rparr>"
proof (cases "localize_header_value spells field doc = field")
  case False
  then obtain v n best where v: "fvalue field = Some v"
    and mem: "filter (\<lambda>(n, ev). n = Min (fst ` set (map snd (localize_candidates spells v (fevidence field) doc))))
        (map snd (localize_candidates spells v (fevidence field) doc)) = [(n, best)]"
    and new: "localize_header_value spells field doc = field\<lparr>fevidence := best\<rparr>"
    by (auto simp: localize_header_value_def Let_def split: extraction_status.splits option.splits if_splits list.splits)
  from mem have "(n, best) \<in> set (map snd (localize_candidates spells v (fevidence field) doc))" by (metis filter_is_subset list.set_intros(1) subsetD)
  then obtain ws where "spelled_by spells v (fevidence field) doc ws" "best = evidence_from_words ws"
    by (auto dest!: localize_candidates_spelled)
  with that(2) v new show thesis by simp
qed (use that(1) in simp)

text \<open>
  Narrowing changes nothing but the evidence of a field, and the evidence it takes instead is that of neighbouring
  words of one line, inside the old evidence, that spell the value.
\<close>

theorem localize_keeps_value:
  "fvalue (localize_header_value spells field doc) = fvalue field \<and> fstatus (localize_header_value spells field doc) = fstatus field
   \<and> (fevidence (localize_header_value spells field doc) = fevidence field
      \<or> (\<exists>v ws. fvalue field = Some v \<and> spelled_by spells v (fevidence field) doc ws
            \<and> fevidence (localize_header_value spells field doc) = evidence_from_words ws))"
  by (cases rule: localize_cases [of spells field doc]) auto

lemma localize_valid: "validate_status_contract field \<Longrightarrow> validate_status_contract (localize_header_value spells field doc)"
  by (cases rule: localize_cases [of spells field doc]) (auto simp: validate_status_contract_def spelled_by_def)

theorem value_grounded_valid: "invoice_valid (value_grounded_extract doc)"
  using deterministic_invoice_valid [of doc] by (simp add: value_grounded_extract_def invoice_valid_def Let_def localize_valid)

subsection \<open>Tables of three and of two columns\<close>

definition bolts_row :: visual_row where
  "bolts_row = \<lparr>vr_page = 0, vr_y0 = Scaled 4 (- 4), vr_y1 = Scaled 5 (- 4), vr_words = [cell_word 3 1 4 ''Bolts'', cell_word 4 10 4 ''7'']\<rparr>"

definition table_document :: document_text where
  "table_document = \<lparr>dx_pages = [\<lparr>pt_page = 0, pt_width = Scaled 1 0, pt_height = Scaled 1 0, pt_source = EMBEDDED,
     pt_words = vr_words sample_header_row @ vr_words bolts_row\<rparr>], dx_used_ocr = False\<rparr>"

lemma table_rows: "reconstruct_visual_rows table_document = [sample_header_row, bolts_row]"
  by code_simp

lemma bolts_no_header: "best_anchor bolts_row DESCRIPTION = None" "list_ex (\<lambda>w. list_ex is_digit (wt_text w)) (vr_words bolts_row)"
  by code_simp+

lemma header_anchors_None: "best_anchor row column = None \<Longrightarrow> column \<notin> ca_column ` set (header_anchors row)"
  by (auto simp: header_anchors_def map_filter_member simp del: List.map_filter_simps) (metis best_anchor_column option.distinct(1))

lemma bolts_no_table: "detect_candidate_header bolts_row = None"
proof -
  have "find_column DESCRIPTION (header_anchors bolts_row) = None"
    using header_anchors_None [OF bolts_no_header(1)] by (auto simp: find_column_def find_row_None_iff image_iff eq_commute [of DESCRIPTION])
  then have "detect_table_header bolts_row = None" by (simp add: detect_table_header_def Let_def)
  with bolts_no_header(2) show ?thesis by (simp add: detect_candidate_header_def)
qed

theorem coverage_extends_frozen_witness: "line_coverage_extract table_document = deterministic_extract table_document"
proof (rule coverage_extends_frozen)
  obtain h where "detect_candidate_header sample_header_row = Some (Detected h)"
    using sample_header by (auto simp: detect_candidate_header_def)
  then show "\<forall>row \<in> set (reconstruct_visual_rows table_document). \<not> two_columns (detect_candidate_header row)"
    by (simp add: table_rows bolts_no_table)
qed

text \<open>Titles of a description and an amount alone are a header of the variant.\<close>

definition title_row :: visual_row where
  "title_row = \<lparr>vr_page = 0, vr_y0 = Scaled 2 (- 4), vr_y1 = Scaled 3 (- 4), vr_words = [cell_word 0 1 2 ''Item'', cell_word 1 10 2 ''Amount'']\<rparr>"

lemma title_anchors: "best_anchor title_row QUANTITY = None" "best_anchor title_row UNIT_PRICE = None"
  "unique_anchor title_row DESCRIPTION = Some (anchor_of DESCRIPTION [cell_word 0 1 2 ''Item''])"
  "unique_anchor title_row LINE_TOTAL = Some (anchor_of LINE_TOTAL [cell_word 1 10 2 ''Amount''])"
  by code_simp+

lemma title_row_separate:
  "\<not> flt (fsub (bb_x0 (ca_bbox (anchor_of LINE_TOTAL [cell_word 1 10 2 ''Amount'']))) (bb_x1 (ca_bbox (anchor_of DESCRIPTION [cell_word 0 1 2 ''Item''])))) LEAST_GUTTER"
  "list_all (\<lambda>w. list_ex (\<lambda>a. inside_anchor a w) [anchor_of DESCRIPTION [cell_word 0 1 2 ''Item''], anchor_of LINE_TOTAL [cell_word 1 10 2 ''Amount'']]) (vr_words title_row)"
  "\<not> list_ex (\<lambda>w. list_ex is_digit (wt_text w)) (vr_words title_row)"
  by code_simp+

lemma title_row_two_columns: "two_columns (detect_candidate_header title_row)"
proof -
  have "detect_table_header title_row = None"
    using header_anchors_None [OF title_anchors(1)] header_anchors_None [OF title_anchors(2)] by (auto simp: detect_table_header_def Let_def split: option.split)
  then show ?thesis
    using title_anchors title_row_separate by (auto simp: detect_candidate_header_def list_ex_iff list_all_iff)
qed

end
