(* ===== verification/Total_Guards.thy ===== *)
theory Total_Guards
  imports Line_Coverage
begin

text \<open>
  The guards that question an extracted total: whether the amount is printed once inside its evidence and stands for
  the invoice total rather than a net, tax or payable amount (\<^verbatim>\<open>extraction/financial_summary_guard.py\<close> and
  \<^verbatim>\<open>extraction/financial_role_guard.py\<close>).
\<close>

subsection \<open>Words and amounts of a row\<close>

definition GENERIC_RULES :: "string list" where
  "GENERIC_RULES = [''header.total.total.same_line.v1'', ''header.total.total.next_line.v1'']"

definition whole :: "pattern \<Rightarrow> pattern" where
  "whole p = seqs [LineStart, p, LineEnd]"

definition ROLE :: pattern where
  "ROLE = whole (alts (map lit [''net'', ''tax'', ''gross'', ''vat'', ''gst'', ''subtotal'', ''taxable'', ''payable'']))"

definition GROSS :: pattern where
  "GROSS = whole (alts (map lit [''gross'', ''payable'']))"

definition word_label :: "word_token \<Rightarrow> string" where
  "word_label w = strip_chars '' .:;()'' (wt_text w)"

definition inside_total :: "decimal extracted_field \<Rightarrow> word_token \<Rightarrow> bool" where
  "inside_total field w =
     (let cx = horizontal_center (wt_bbox w); cy = vertical_center w in
      list_ex (\<lambda>span. ev_page span = wt_page w \<and> ev_source span = wt_source w
        \<and> fle (bb_x0 (ev_bbox span)) cx \<and> fle cx (bb_x1 (ev_bbox span))
        \<and> fle (bb_y0 (ev_bbox span)) cy \<and> fle cy (bb_y1 (ev_bbox span))) (fevidence field))"

definition ftimes :: "int \<Rightarrow> pyfloat \<Rightarrow> pyfloat" where
  "ftimes k = fmul (Scaled k 0)"

text \<open>Words are compared as the schema's objects are, coordinates by value.\<close>

definition bbox_values :: "bounding_box \<Rightarrow> rat \<times> rat \<times> rat \<times> rat" where
  "bbox_values b = (fval (bb_x0 b), fval (bb_y0 b), fval (bb_x1 b), fval (bb_y1 b))"

definition word_eq :: "word_token \<Rightarrow> word_token \<Rightarrow> bool" where
  "word_eq v w = (wt_text v = wt_text w \<and> wt_page v = wt_page w \<and> bbox_values (wt_bbox v) = bbox_values (wt_bbox w)
     \<and> wt_block_number v = wt_block_number w \<and> wt_line_number v = wt_line_number w \<and> wt_word_number v = wt_word_number w
     \<and> wt_source v = wt_source w)"

definition word_in :: "word_token \<Rightarrow> word_token list \<Rightarrow> bool" where
  "word_in w ws = list_ex (word_eq w) ws"

definition amount_of :: "word_token list \<Rightarrow> decimal option" where
  "amount_of ws = parse_money (concat (map wt_text ws))"

definition adjacent :: "word_token list \<Rightarrow> bool" where
  "adjacent ws =
     (list_all (\<lambda>w. wt_page w = wt_page (hd ws)) ws
      \<and> list_all (\<lambda>(left, right). \<not> flt (ftimes 2 (fmax [word_height left, word_height right])) (fsub (bb_x0 (wt_bbox right)) (bb_x1 (wt_bbox left))))
          (zip ws (tl ws)))"

definition punctuated :: "word_token \<Rightarrow> bool" where
  "punctuated w = (let t = wt_text w in t \<noteq> [] \<and> (last t \<in> set '',.'' \<or> hd t \<in> set '',.''))"

definition one_number :: "word_token list \<Rightarrow> bool" where
  "one_number ws = (length (filter (\<lambda>w. list_ex is_digit (wt_text w)) ws) \<le> 1 \<or> list_ex punctuated ws)"

definition money_matches :: "word_token list \<Rightarrow> word_token list list" where
  "money_matches ws =
     concat (map (\<lambda>start. filter (\<lambda>sel. one_number sel \<and> amount_of sel \<noteq> None)
        (takeWhile adjacent (map (\<lambda>e. slice start e ws) [Suc start..<Suc (min (length ws) (start + 4))]))) [0..<length ws])"

definition money_spans :: "word_token list \<Rightarrow> word_token list list" where
  "money_spans ws =
     (let found = money_matches ws in
      filter (\<lambda>m. \<not> list_ex (\<lambda>n. length m < length n \<and> list_all (\<lambda>w. word_in w n) m) found) found)"

definition ambiguous_total :: "word_token list \<Rightarrow> string \<Rightarrow> decimal extracted_field" where
  "ambiguous_total ws reason = \<lparr>fvalue = None, fstatus = AMBIGUOUS, fevidence = (if ws = [] then [] else evidence_from_words ws),
     frule_id = Some (''financial_summary.'' @ reason @ ''.v1'')\<rparr>"

text \<open>Where the amount is printed inside the evidence.\<close>

definition total_matches :: "decimal extracted_field \<Rightarrow> decimal \<Rightarrow> document_text \<Rightarrow> (visual_row \<times> word_token list) list" where
  "total_matches field v doc =
     concat (map (\<lambda>row. map (\<lambda>span. (row, span))
       (filter (\<lambda>span. case amount_of span of None \<Rightarrow> False | Some d \<Rightarrow> deq d v) (money_spans (filter (inside_total field) (vr_words row)))))
       (reconstruct_visual_rows doc))"

subsection \<open>The summary guard\<close>

definition row_height :: "visual_row \<Rightarrow> pyfloat" where
  "row_height row = median (map word_height (vr_words row))"

definition row_middle :: "visual_row \<Rightarrow> pyfloat" where
  "row_middle row = fhalf (fadd (vr_y0 row) (vr_y1 row))"

definition has_role :: "word_token \<Rightarrow> bool" where
  "has_role w = re_fullmatch ROLE (word_label w)"

definition nearby_roles :: "visual_row list \<Rightarrow> visual_row \<Rightarrow> word_token list list \<Rightarrow> visual_row list" where
  "nearby_roles rows row amounts =
     (let height = row_height row;
          left = fmin (map (bb_x0 \<circ> wt_bbox) (concat amounts)); right = fmax (map (bb_x1 \<circ> wt_bbox) (concat amounts))
      in filter (\<lambda>other. vr_page other = vr_page row
           \<and> fle (fabs (fsub (row_middle other) (row_middle row))) (ftimes 8 height)
           \<and> list_ex (\<lambda>w. has_role w \<and> fle (fsub left (ftimes 2 height)) (horizontal_center (wt_bbox w))
                \<and> fle (horizontal_center (wt_bbox w)) (fadd right (ftimes 2 height))) (vr_words other)) rows)"

text \<open>A gross label directly before the selected amount, with nothing but filler words between them.\<close>

definition gross_before :: "visual_row \<Rightarrow> word_token list \<Rightarrow> word_token \<Rightarrow> bool" where
  "gross_before row selected label =
     (let x = bb_x0 (wt_bbox (hd selected)); edge = bb_x1 (wt_bbox label);
          between = filter (\<lambda>w. fle edge (bb_x0 (wt_bbox w)) \<and> flt (bb_x0 (wt_bbox w)) x) (vr_words row)
      in fle (Scaled 0 0) (fsub x edge) \<and> fle (fsub x edge) (ftimes 4 (row_height row))
         \<and> list_all (\<lambda>w. py_casefold (word_label w) \<in> set [''amount'', ''total'', '':'']) between
         \<and> \<not> list_ex (\<lambda>w. fle (bb_x1 (wt_bbox w)) (bb_x0 (wt_bbox label))) selected)"

definition extend_words :: "word_token list \<Rightarrow> word_token list \<Rightarrow> word_token list" where
  "extend_words = foldl (\<lambda>bounded w. if word_in w bounded then bounded else bounded @ [w])"

definition guard_row :: "decimal extracted_field \<Rightarrow> visual_row list \<Rightarrow> visual_row \<Rightarrow> word_token list \<Rightarrow> decimal extracted_field" where
  "guard_row field rows row selected =
     (let amounts = money_spans (vr_words row) in
      if length amounts \<le> 1 then field
      else let nearby = nearby_roles rows row amounts; inline_roles = filter has_role (vr_words row);
               abstain = ambiguous_total (foldl extend_words (vr_words row) (map vr_words nearby))
                 (if nearby \<noteq> [] \<or> inline_roles \<noteq> [] then ''competing_amount_roles'' else ''unresolved_multi_amount_total'')
        in case filter (\<lambda>w. re_fullmatch GROSS (word_label w)) inline_roles of
             [label] \<Rightarrow> if gross_before row selected label
                        then field\<lparr>fevidence := evidence_from_words selected, frule_id := Some ''financial_summary.inline_gross_unique.v1''\<rparr>
                        else abstain
           | _ \<Rightarrow> abstain)"

definition guard_total :: "decimal extracted_field \<Rightarrow> document_text \<Rightarrow> decimal extracted_field" where
  "guard_total field doc =
     (case (fstatus field, fvalue field) of
        (EXTRACTED, Some v) \<Rightarrow>
          let rows = reconstruct_visual_rows doc in
          (case total_matches field v doc of
             [(row, selected)] \<Rightarrow>
               if (case frule_id field of None \<Rightarrow> True | Some rule \<Rightarrow> rule \<notin> set GENERIC_RULES) then field
               else guard_row field rows row selected
           | _ \<Rightarrow> ambiguous_total (concat (map (\<lambda>row. filter (inside_total field) (vr_words row)) rows)) ''unbound_or_repeated_value'')
      | _ \<Rightarrow> field)"

definition summary_guard_extract :: "document_text \<Rightarrow> invoice" where
  "summary_guard_extract doc = (let inv = deterministic_extract doc in inv\<lparr>inv_total := guard_total (inv_total inv) doc\<rparr>)"

subsection \<open>The role guard\<close>

definition PAYABLE_LABELS :: "string list" where
  "PAYABLE_LABELS = [''amount_due'', ''total_payable'', ''net_payable'']"

definition GROSS_LABEL :: pattern where
  "GROSS_LABEL = whole (alts [lit ''grand total'', lit ''invoice total'',
     seqs [lit ''gross '', opt (lit ''invoice ''), alts [lit ''total'', lit ''amount'']]])"

definition GROSS_WORDS :: pattern where
  "GROSS_WORDS = seqs [WordBoundary, alts (map lit [''gross'', ''grand total'', ''invoice total'']), WordBoundary]"

definition FINANCIAL :: pattern where
  "FINANCIAL = whole (alts (map lit [''net'', ''tax'', ''gross'', ''vat'', ''gst'', ''subtotal'', ''taxable'', ''payable'', ''credit'', ''prepayment'']))"

text \<open>A row stands on a page of the document, whose width is positive: \<open>x_height_defined\<close> shows that the branches of \<open>0\<close> are not taken.\<close>

definition x_height :: "visual_row \<Rightarrow> document_text \<Rightarrow> pyfloat \<Rightarrow> pyfloat" where
  "x_height row doc height =
     (case find_row (\<lambda>p. pt_page p = vr_page row) (dx_pages doc) of
        None \<Rightarrow> Scaled 0 0
      | Some p \<Rightarrow> (case fdiv (fmul height (pt_height p)) (pt_width p) of None \<Rightarrow> Scaled 0 0 | Some q \<Rightarrow> q))"

definition positive_geometry :: "visual_row \<Rightarrow> bool" where
  "positive_geometry row = list_all (\<lambda>w. flt (bb_x0 (wt_bbox w)) (bb_x1 (wt_bbox w)) \<and> flt (bb_y0 (wt_bbox w)) (bb_y1 (wt_bbox w))) (vr_words row)"

text \<open>One text source and centres within a quarter of the height.\<close>

definition one_baseline :: "visual_row \<Rightarrow> bool" where
  "one_baseline row =
     (length (remdups (map wt_source (vr_words row))) = 1
      \<and> fle (fsub (fmax (map vertical_center (vr_words row))) (fmin (map vertical_center (vr_words row)))) (fhalf (fhalf (row_height row))))"

definition row_distance :: "visual_row \<Rightarrow> visual_row \<Rightarrow> pyfloat" where
  "row_distance row other = fabs (fhalf (fsub (fsub (fadd (vr_y0 row) (vr_y1 row)) (vr_y0 other)) (vr_y1 other)))"

definition labels_text :: "word_token list \<Rightarrow> string" where
  "labels_text ws = py_join '' '' (map word_label ws)"

definition gross_candidate :: "visual_row \<Rightarrow> visual_row \<Rightarrow> bool" where
  "gross_candidate payable row =
     (vr_page row = vr_page payable \<and> fle (row_distance row payable) (ftimes 12 (row_height payable))
      \<and> re_search GROSS_WORDS (labels_text (vr_words row)) \<noteq> None)"

definition words_left_of :: "word_token list \<Rightarrow> word_token \<Rightarrow> word_token list" where
  "words_left_of ws v = filter (\<lambda>w. fle (bb_x1 (wt_bbox w)) (bb_x0 (wt_bbox v))) ws"

definition gross_proof :: "document_text \<Rightarrow> visual_row \<Rightarrow> decimal extracted_field option" where
  "gross_proof doc row =
     (if \<not> positive_geometry row then None
      else case money_spans (vr_words row) of
          [amount] \<Rightarrow>
            let before = words_left_of (vr_words row) (hd amount);
                after = filter (\<lambda>w. fle (bb_x1 (wt_bbox (last amount))) (bb_x0 (wt_bbox w))) (vr_words row);
                gap = fsub (bb_x0 (wt_bbox (hd amount))) (bb_x1 (wt_bbox (last before)))
            in if before = [] \<or> after \<noteq> [] \<or> \<not> re_fullmatch GROSS_LABEL (labels_text before)
                 \<or> \<not> (fle (Scaled 0 0) gap \<and> fle gap (ftimes 8 (x_height row doc (row_height row)))) \<or> \<not> one_baseline row
               then None
               else Some \<lparr>fvalue = amount_of amount, fstatus = EXTRACTED, fevidence = evidence_from_words (vr_words row),
                      frule_id = Some ''financial_role.explicit_gross_unique.v1''\<rparr>
        | _ \<Rightarrow> None)"

definition gross_proofs :: "visual_row list \<Rightarrow> visual_row \<Rightarrow> document_text \<Rightarrow> decimal extracted_field list option" where
  "gross_proofs rows payable doc = those (map (gross_proof doc) (filter (gross_candidate payable) rows))"

text \<open>The words of a row without a panel to their right that holds a printed reference and its number.\<close>

definition line_keys :: "word_token list \<Rightarrow> (nat \<times> nat) set" where
  "line_keys ws = set (map (\<lambda>w. (wt_block_number w, wt_line_number w)) ws)"

definition without_reference :: "visual_row \<Rightarrow> word_token list \<Rightarrow> visual_row list \<Rightarrow> document_text \<Rightarrow> visual_row option" where
  "without_reference row selected rows doc =
     (case filter (\<lambda>w. py_casefold (word_label w) = ''reference'') (vr_words row) of
        [label] \<Rightarrow>
          if \<not> positive_geometry row then None
          else let height = row_height row; xh = x_height row doc height; start = bb_x0 (wt_bbox label);
                   right = filter (\<lambda>w. fle start (bb_x0 (wt_bbox w))) (vr_words row);
                   rest = drop 1 right;
                   tail = (if rest \<noteq> [] \<and> py_casefold (word_label (hd rest)) \<in> set [''id'', ''number'', ''no''] then drop 1 rest else rest);
                   financial = filter (\<lambda>w. flt (bb_x1 (wt_bbox w)) start) (vr_words row);
                   edge = fmax (map (bb_x1 \<circ> wt_bbox) financial);
                   gap = fsub (bb_x0 (wt_bbox (hd tail))) (bb_x1 (wt_bbox (last (butlast right))));
                   nearby = concat (map vr_words (filter (\<lambda>r. vr_page r = vr_page row \<and> fle (row_distance r row) (ftimes 4 height)) rows))
            in if length tail \<noteq> 1 \<or> wt_text (hd tail) = [] \<or> \<not> list_all is_digit (wt_text (hd tail)) then None
               else if financial = [] \<or> list_ex (\<lambda>w. \<not> word_in w financial) selected then None
               else if flt (fsub start edge) (ftimes 6 xh) \<or> \<not> (fle (Scaled 0 0) gap \<and> fle gap (ftimes 4 xh))
                  \<or> line_keys financial \<inter> line_keys right \<noteq> {} \<or> \<not> one_baseline row then None
               else if list_ex (\<lambda>w. flt (bb_x0 (wt_bbox w)) start \<and> flt edge (bb_x1 (wt_bbox w))
                        \<or> fle start (bb_x0 (wt_bbox w)) \<and> re_fullmatch FINANCIAL (word_label w)) nearby then None
               else Some (row\<lparr>vr_words := financial\<rparr>)
      | _ \<Rightarrow> None)"

definition text_contains :: "string \<Rightarrow> string \<Rightarrow> bool" where
  "text_contains p s = list_ex (\<lambda>i. starts_with p (drop i s)) [0..<Suc (length s)]"

definition payable_total :: "decimal extracted_field \<Rightarrow> visual_row \<Rightarrow> bool" where
  "payable_total field row =
     (list_ex (\<lambda>name. text_contains (''header.total.'' @ name @ ''.'') (case frule_id field of None \<Rightarrow> [] | Some rule \<Rightarrow> rule)) PAYABLE_LABELS
      \<or> list_ex (\<lambda>w. py_casefold (word_label w) = ''payable'') (vr_words row))"

definition role_guard_total :: "decimal extracted_field \<Rightarrow> document_text \<Rightarrow> decimal extracted_field" where
  "role_guard_total field doc =
     (case (fstatus field, fvalue field) of
        (EXTRACTED, Some v) \<Rightarrow>
          let rows = reconstruct_visual_rows doc; guarded = guard_total field doc in
          (case total_matches field v doc of
             [(row, selected)] \<Rightarrow>
               if payable_total field row
               then (case gross_proofs rows row doc of
                   Some [printed] \<Rightarrow> printed
                 | _ \<Rightarrow> ambiguous_total (vr_words row) ''payable_without_unique_gross'')
               else if fstatus guarded \<noteq> AMBIGUOUS \<or> (case frule_id field of None \<Rightarrow> True | Some rule \<Rightarrow> rule \<notin> set GENERIC_RULES) then guarded
               else (case without_reference row selected rows doc of
                   Some separated \<Rightarrow>
                     if length (money_spans (vr_words separated)) = 1
                     then field\<lparr>fevidence := evidence_from_words (vr_words separated), frule_id := Some ''financial_role.separated_reference.v1''\<rparr>
                     else guarded
                 | None \<Rightarrow> guarded)
           | _ \<Rightarrow> guarded)
      | _ \<Rightarrow> field)"

definition role_guard_extract :: "document_text \<Rightarrow> invoice" where
  "role_guard_extract doc = (let inv = deterministic_extract doc in inv\<lparr>inv_total := role_guard_total (inv_total inv) doc\<rparr>)"

subsection \<open>Guarded totals\<close>

lemma visual_row_words: "row \<in> set (reconstruct_visual_rows doc) \<Longrightarrow> vr_words row \<noteq> []"
  using grouped_nonempty [of "[]"]
  by (auto simp: reconstruct_visual_rows_def page_rows_def row_of_def Let_def sort_key_Nil_iff split: if_splits)

lemma visual_row_page: "row \<in> set (reconstruct_visual_rows doc) \<Longrightarrow> vr_page row \<in> pt_page ` set (dx_pages doc)"
  by (auto simp: reconstruct_visual_rows_def page_rows_def row_of_def Let_def split: if_splits)

lemma money_match:
  assumes "m \<in> set (money_spans ws)"
  shows "m \<noteq> []" and "amount_of m \<noteq> None" and "set m \<subseteq> set ws"
proof -
  have "m \<in> set (money_matches ws)" using assms by (auto simp: money_spans_def Let_def)
  then obtain i e where ie: "i < length ws" "i < e" and m: "m = slice i e ws" and amount: "amount_of m \<noteq> None"
    by (auto simp: money_matches_def Suc_le_eq simp del: upt_Suc dest!: set_takeWhileD)
  from ie show "m \<noteq> []" by (simp add: m slice_def)
  show "amount_of m \<noteq> None" and "set m \<subseteq> set ws" using amount set_slice by (simp_all add: m)
qed

lemma total_match:
  assumes "total_matches field v doc = [(row, selected)]"
  shows "row \<in> set (reconstruct_visual_rows doc)" and "selected \<noteq> []"
proof -
  have "(row, selected) \<in> set (total_matches field v doc)" using assms by simp
  then show "row \<in> set (reconstruct_visual_rows doc)" and "selected \<noteq> []"
    by (auto simp: total_matches_def dest: money_match(1))
qed

lemma ambiguous_total_fields [simp]:
  "fstatus (ambiguous_total ws reason) = AMBIGUOUS" "validate_status_contract (ambiguous_total ws reason)"
  by (simp_all add: ambiguous_total_def validate_status_contract_def)

text \<open>The summary guard returns the field, the field with other evidence, or no value at all.\<close>

lemma guard_row_cases:
  "guard_row field rows row selected \<in> {field, field\<lparr>fevidence := evidence_from_words selected, frule_id := Some ''financial_summary.inline_gross_unique.v1''\<rparr>}
   \<or> (\<exists>ws reason. guard_row field rows row selected = ambiguous_total ws reason)"
  unfolding guard_row_def Let_def by (auto split: list.split)

lemma guard_total_cases:
  assumes "fstatus field = EXTRACTED" and "fvalue field = Some v"
  obtains row selected where "total_matches field v doc = [(row, selected)]"
      and "guard_total field doc \<in> {field, field\<lparr>fevidence := evidence_from_words selected, frule_id := Some ''financial_summary.inline_gross_unique.v1''\<rparr>}"
  | ws reason where "guard_total field doc = ambiguous_total ws reason"
proof (cases "\<exists>row selected. total_matches field v doc = [(row, selected)]")
  case True
  then obtain row selected where one: "total_matches field v doc = [(row, selected)]" by blast
  then have "guard_total field doc \<in> {field, guard_row field (reconstruct_visual_rows doc) row selected}"
    using assms by (simp add: guard_total_def Let_def)
  with one that guard_row_cases [of field "reconstruct_visual_rows doc" row selected] show thesis by auto
next
  case False
  then have "\<exists>ws reason. guard_total field doc = ambiguous_total ws reason"
    using assms by (auto simp: guard_total_def Let_def split: list.split)
  with that(2) show thesis by blast
qed

lemma guard_total_other: "fstatus field \<noteq> EXTRACTED \<or> fvalue field = None \<Longrightarrow> guard_total field doc = field \<and> role_guard_total field doc = field"
  by (auto simp: guard_total_def role_guard_total_def split: extraction_status.split option.split)

lemma guard_total_valid:
  assumes "validate_status_contract field"
  shows "validate_status_contract (guard_total field doc)"
proof (cases "fstatus field = EXTRACTED \<and> fvalue field \<noteq> None")
  case True
  then obtain v where "fstatus field = EXTRACTED" "fvalue field = Some v" by blast
  then show ?thesis
    using assms total_match by (cases rule: guard_total_cases [of field v doc]) (fastforce simp: validate_status_contract_def)+
next
  case False
  with guard_total_other assms show ?thesis by metis
qed

subsection \<open>Guarded totals are printed totals\<close>

text \<open>
  The only row near the payable one that speaks of a gross total: on one baseline it prints one amount, to its left, within
  the permitted gap, nothing but a label for the gross total, and nothing to its right.
\<close>

definition printed_gross :: "document_text \<Rightarrow> visual_row \<Rightarrow> visual_row \<Rightarrow> decimal \<Rightarrow> bool" where
  "printed_gross doc payable gross v \<longleftrightarrow> filter (gross_candidate payable) (reconstruct_visual_rows doc) = [gross]
     \<and> positive_geometry gross \<and> one_baseline gross
     \<and> (case money_spans (vr_words gross) of
          [amount] \<Rightarrow>
            let before = words_left_of (vr_words gross) (hd amount); gap = fsub (bb_x0 (wt_bbox (hd amount))) (bb_x1 (wt_bbox (last before))) in
            amount_of amount = Some v
            \<and> before \<noteq> [] \<and> re_fullmatch GROSS_LABEL (labels_text before)
            \<and> fle (Scaled 0 0) gap \<and> fle gap (ftimes 8 (x_height gross doc (row_height gross)))
            \<and> filter (\<lambda>w. fle (bb_x1 (wt_bbox (last amount))) (bb_x0 (wt_bbox w))) (vr_words gross) = []
        | _ \<Rightarrow> False)"

lemma gross_proof_printed:
  assumes "gross_proof doc row = Some printed" and "filter (gross_candidate payable) (reconstruct_visual_rows doc) = [row]"
  shows "validate_status_contract printed" and "fvalue printed = Some v \<Longrightarrow> printed_gross doc payable row v"
proof -
  have "row \<in> set (reconstruct_visual_rows doc)" using assms(2) by (metis filter_is_subset list.set_intros(1) subsetD)
  note words = visual_row_words [OF this]
  obtain amount where amount: "money_spans (vr_words row) = [amount]" using assms(1) by (auto simp: gross_proof_def split: if_splits list.splits)
  have "amount_of amount \<noteq> None" by (rule money_match(2) [of amount "vr_words row"]) (simp add: amount)
  then show "validate_status_contract printed"
    using assms(1) words by (auto simp: gross_proof_def amount Let_def validate_status_contract_def split: if_splits)
  show "fvalue printed = Some v \<Longrightarrow> printed_gross doc payable row v"
    using assms by (auto simp: gross_proof_def amount Let_def printed_gross_def split: if_splits)
qed

lemma gross_proofs_printed:
  assumes "gross_proofs (reconstruct_visual_rows doc) payable doc = Some [printed]"
  obtains row where "filter (gross_candidate payable) (reconstruct_visual_rows doc) = [row]" and "gross_proof doc row = Some printed"
proof -
  have those_one: "\<exists>x. xs = [x] \<and> f x = Some y" if "those (map f xs) = Some [y]" for f :: "visual_row \<Rightarrow> decimal extracted_field option" and xs y
    using that by (cases xs) (auto split: option.splits, case_tac list, auto split: option.splits)
  then show thesis using that assms by (force simp: gross_proofs_def)
qed

lemma without_reference_words: "without_reference row selected rows doc = Some separated \<Longrightarrow> vr_words separated \<noteq> []"
  by (auto simp: without_reference_def Let_def split: if_splits list.splits)

text \<open>What the role guard returns for an amount that was printed once.\<close>

lemma role_guard_cases:
  assumes "fstatus field = EXTRACTED" and "fvalue field = Some u"
  obtains row selected printed where "total_matches field u doc = [(row, selected)]" and "payable_total field row"
      and "gross_proofs (reconstruct_visual_rows doc) row doc = Some [printed]" and "role_guard_total field doc = printed"
  | row selected ws rule where "total_matches field u doc = [(row, selected)]" and "\<not> payable_total field row" and "ws \<noteq> []"
      and "role_guard_total field doc \<in> {field, field\<lparr>fevidence := evidence_from_words ws, frule_id := Some rule\<rparr>}"
  | ws reason where "role_guard_total field doc = ambiguous_total ws reason"
proof (cases "\<exists>row selected. total_matches field u doc = [(row, selected)]")
  case False
  then have "role_guard_total field doc = guard_total field doc"
    using assms by (auto simp: role_guard_total_def Let_def split: list.split)
  with False that(3) show thesis by (cases rule: guard_total_cases [OF assms, of doc]) auto
next
  case True
  then obtain row selected where one: "total_matches field u doc = [(row, selected)]" by blast
  show thesis
  proof (cases "payable_total field row")
    case True
    then have "role_guard_total field doc = (case gross_proofs (reconstruct_visual_rows doc) row doc of
        Some [printed] \<Rightarrow> printed | _ \<Rightarrow> ambiguous_total (vr_words row) ''payable_without_unique_gross'')"
      using assms one by (simp add: role_guard_total_def Let_def)
    with one True that(1,3) show thesis by (auto split: option.splits list.splits)
  next
    case False
    then have "role_guard_total field doc = guard_total field doc
        \<or> (\<exists>separated. without_reference row selected (reconstruct_visual_rows doc) doc = Some separated
             \<and> role_guard_total field doc = field\<lparr>fevidence := evidence_from_words (vr_words separated), frule_id := Some ''financial_role.separated_reference.v1''\<rparr>)"
      using assms one by (simp add: role_guard_total_def Let_def split: option.split)
    then consider "role_guard_total field doc = guard_total field doc"
      | separated where "without_reference row selected (reconstruct_visual_rows doc) doc = Some separated"
          "role_guard_total field doc = field\<lparr>fevidence := evidence_from_words (vr_words separated), frule_id := Some ''financial_role.separated_reference.v1''\<rparr>"
      by blast
    then show thesis
    proof cases
      case 1
      show thesis
      proof (cases rule: guard_total_cases [OF assms, of doc])
        case (1 row' selected')
        with one have "selected' = selected" by simp
        with 1 \<open>role_guard_total field doc = guard_total field doc\<close> that(2) [OF one False total_match(2) [OF one]] show thesis by auto
      qed (use 1 that(3) in auto)
    next
      case 2
      with that(2) [OF one False without_reference_words [OF 2(1)]] show thesis by auto
    qed
  qed
qed

text \<open>
  C27: A total that passes the role guard is printed exactly once inside its evidence. Either the guard keeps its value, and
  then neither the rule that found it nor its row speaks of a payable amount; or it was a payable amount, and the
  guard returns the amount of the only row of the same page, at most twelve line heights away, that speaks of a gross
  total: on one baseline this row prints one amount, to its left only a label of the gross total, to its right nothing.
\<close>

theorem role_guard_backed:
  assumes "extracted_value (role_guard_total field doc) = Some v"
  shows "\<exists>u row selected. fvalue field = Some u \<and> total_matches field u doc = [(row, selected)]
    \<and> (if payable_total field row then \<exists>gross. printed_gross doc row gross v else v = u)"
proof -
  have "fstatus field = EXTRACTED \<and> fvalue field \<noteq> None"
    using assms guard_total_other [of field doc] by (cases "fstatus field = EXTRACTED \<and> fvalue field \<noteq> None") (auto simp: extracted_value_Some)
  then obtain u where u: "fstatus field = EXTRACTED" "fvalue field = Some u" by blast
  show ?thesis
  proof (cases rule: role_guard_cases [OF u, of doc])
    case (1 row selected printed)
    obtain gross where "filter (gross_candidate row) (reconstruct_visual_rows doc) = [gross]" "gross_proof doc gross = Some printed"
      using gross_proofs_printed [OF 1(3)] .
    with 1 u assms gross_proof_printed(2) show ?thesis by (fastforce simp: extracted_value_Some)
  next
    case (2 row selected ws rule)
    with u assms show ?thesis by (auto simp: extracted_value_Some)
  next
    case (3 ws reason)
    with assms show ?thesis by (simp add: extracted_value_Some)
  qed
qed

lemma role_guard_valid:
  assumes "validate_status_contract field"
  shows "validate_status_contract (role_guard_total field doc)"
proof (cases "fstatus field = EXTRACTED \<and> fvalue field \<noteq> None")
  case True
  then obtain u where u: "fstatus field = EXTRACTED" "fvalue field = Some u" by blast
  show ?thesis
  proof (cases rule: role_guard_cases [OF u, of doc])
    case (1 row selected printed)
    obtain gross where "filter (gross_candidate row) (reconstruct_visual_rows doc) = [gross]" "gross_proof doc gross = Some printed"
      using gross_proofs_printed [OF 1(3)] .
    with 1 gross_proof_printed(1) show ?thesis by blast
  next
    case (2 row selected ws rule)
    with u assms show ?thesis by (auto simp: validate_status_contract_def)
  qed simp
next
  case False
  with guard_total_other assms show ?thesis by metis
qed

theorem guarded_invoices_valid: "invoice_valid (summary_guard_extract doc) \<and> invoice_valid (role_guard_extract doc)"
  using deterministic_invoice_valid [of doc]
  by (simp add: summary_guard_extract_def role_guard_extract_def invoice_valid_def Let_def guard_total_valid role_guard_valid)

lemma x_height_defined:
  assumes "row \<in> set (reconstruct_visual_rows doc)" and "\<forall>p \<in> set (dx_pages doc). flt (Scaled 0 0) (pt_width p)"
  shows "\<exists>p \<in> set (dx_pages doc). pt_page p = vr_page row \<and> fdiv (fmul height (pt_height p)) (pt_width p) = Some (x_height row doc height)"
proof -
  obtain p where p: "find_row (\<lambda>p. pt_page p = vr_page row) (dx_pages doc) = Some p"
    using visual_row_page [OF assms(1)] find_row_None_iff [of "\<lambda>p. pt_page p = vr_page row" "dx_pages doc"] by (metis imageE option.exhaust)
  then have mem: "p \<in> set (dx_pages doc)" "pt_page p = vr_page row" by (auto dest: find_row_Some)
  with assms(2) have "coeff (pt_width p) \<noteq> 0" by (auto simp: flt_iff fval_def sval_def)
  then have "fdiv (fmul height (pt_height p)) (pt_width p) \<noteq> None" by (simp add: fdiv_def sdiv_def Let_def split: prod.split)
  then obtain q where "fdiv (fmul height (pt_height p)) (pt_width p) = Some q" by blast
  with p mem show ?thesis by (auto simp: x_height_def)
qed

subsection \<open>A payable amount beside a gross total\<close>

definition payable_document :: document_text where
  "payable_document = \<lparr>dx_pages = [\<lparr>pt_page = 0, pt_width = Scaled 1 0, pt_height = Scaled 1 0, pt_source = EMBEDDED,
     pt_words = [cell_word 0 1 2 ''Grand Total'', cell_word 1 3 2 ''9'', cell_word 3 1 4 ''Payable'', cell_word 4 3 4 ''5'']\<rparr>],
     dx_used_ocr = False\<rparr>"

definition payable_field :: "decimal extracted_field" where
  "payable_field = \<lparr>fvalue = Some (Scaled 5 0), fstatus = EXTRACTED, fevidence = evidence_from_words [cell_word 4 3 4 ''5''],
     frule_id = Some ''header.total.total_payable.same_line.v1''\<rparr>"

definition gross_row :: visual_row where
  "gross_row = \<lparr>vr_page = 0, vr_y0 = Scaled 2 (- 4), vr_y1 = Scaled 3 (- 4),
     vr_words = [cell_word 0 1 2 ''Grand Total'', cell_word 1 3 2 ''9'']\<rparr>"

definition due_row :: visual_row where
  "due_row = \<lparr>vr_page = 0, vr_y0 = Scaled 4 (- 4), vr_y1 = Scaled 5 (- 4), vr_words = [cell_word 3 1 4 ''Payable'', cell_word 4 3 4 ''5'']\<rparr>"

lemma payable_rows: "reconstruct_visual_rows payable_document = [gross_row, due_row]"
  by code_simp

lemma payable_spans:
  "filter (inside_total payable_field) (vr_words gross_row) = []" "filter (inside_total payable_field) (vr_words due_row) = [cell_word 4 3 4 ''5'']"
  "money_spans [cell_word 4 3 4 ''5''] = [[cell_word 4 3 4 ''5'']]" "amount_of [cell_word 4 3 4 ''5''] = Some (Scaled 5 0)"
  by code_simp+

lemma gross_span: "money_spans (vr_words gross_row) = [[cell_word 1 3 2 ''9'']]" "amount_of [cell_word 1 3 2 ''9''] = Some (Scaled 9 0)"
  by code_simp+

lemma payable_labels:
  "payable_total payable_field due_row" "gross_candidate due_row gross_row" "\<not> gross_candidate due_row due_row"
  "re_fullmatch GROSS_LABEL ''Grand Total''" "labels_text [cell_word 0 1 2 ''Grand Total''] = ''Grand Total''"
  by code_simp+

lemma gross_geometry:
  "positive_geometry gross_row" "one_baseline gross_row"
  "words_left_of (vr_words gross_row) (cell_word 1 3 2 ''9'') = [cell_word 0 1 2 ''Grand Total'']"
  "filter (\<lambda>w. fle (bb_x1 (wt_bbox (cell_word 1 3 2 ''9''))) (bb_x0 (wt_bbox w))) (vr_words gross_row) = []"
  "fle (Scaled 0 0) (fsub (bb_x0 (wt_bbox (cell_word 1 3 2 ''9''))) (bb_x1 (wt_bbox (cell_word 0 1 2 ''Grand Total''))))"
  "fle (fsub (bb_x0 (wt_bbox (cell_word 1 3 2 ''9''))) (bb_x1 (wt_bbox (cell_word 0 1 2 ''Grand Total''))))
     (ftimes 8 (x_height gross_row payable_document (row_height gross_row)))"
  by code_simp+

lemma payable_match: "total_matches payable_field (Scaled 5 0) payable_document = [(due_row, [cell_word 4 3 4 ''5''])]"
proof -
  have "money_spans [] = []" "deq (Scaled 5 0) (Scaled 5 0)" by code_simp+
  then show ?thesis by (simp add: total_matches_def payable_rows payable_spans)
qed

lemma payable_guarded: "extracted_value (role_guard_total payable_field payable_document) = Some (Scaled 9 0)"
proof -
  have "gross_proofs [gross_row, due_row] due_row payable_document = Some [\<lparr>fvalue = Some (Scaled 9 0), fstatus = EXTRACTED,
      fevidence = evidence_from_words (vr_words gross_row), frule_id = Some ''financial_role.explicit_gross_unique.v1''\<rparr>]"
    by (simp add: gross_proofs_def gross_proof_def Let_def gross_span payable_labels gross_geometry del: One_nat_def)
  moreover have "fstatus payable_field = EXTRACTED" "fvalue payable_field = Some (Scaled 5 0)" by (simp_all add: payable_field_def)
  ultimately show ?thesis
    by (simp add: role_guard_total_def Let_def payable_match payable_rows payable_labels extracted_value_def)
qed

theorem role_guard_backed_witness:
  "printed_gross payable_document due_row gross_row (Scaled 9 0)"
proof -
  from role_guard_backed [OF payable_guarded] obtain gross where gross: "printed_gross payable_document due_row gross (Scaled 9 0)"
    using payable_match payable_labels(1) by (auto simp: payable_field_def split: if_splits)
  then have "gross = gross_row" by (simp add: printed_gross_def payable_rows payable_labels)
  with gross show ?thesis by simp
qed

end
