(* ===== verification/Spec2Isabelle.thy ===== *)
theory Spec2Isabelle
  imports Validation Engine Receipts Three_Way_Context Three_Way Risk Risk_Service Review_State Review_Service Matching_Service Ingestion Case_Machine Access Worker Supporting_Service Total_Guards
begin

text \<open>
  InvoiceOps takes supplier invoices, extracts their fields, matches them against purchase orders and
  goods receipts, assesses them for duplicates and routes what is not clear to human review. This
  development models its services and decision engines and proves what they promise.

  \<^bold>\<open>The program and its parts.\<close> An upload (\<^verbatim>\<open>ingestion/service.py\<close>) is stored once per content and gets a job. A worker
  (\<^verbatim>\<open>workers/extraction/tasks.py\<close>, \<^verbatim>\<open>extraction/service.py\<close>, \<^verbatim>\<open>extraction/supporting_service.py\<close>) extracts the
  document and settles the job. The extraction lays the words of the pages out as lines and rows, reads header
  fields by rules and line items from tables (\<^verbatim>\<open>extraction/pipeline.py\<close> and the modules it calls); when that is not
  enough a vision model is asked and what it answers is taken only where the document supports it
  (\<^verbatim>\<open>extraction/hybrid/\<close>). A payable case (\<^verbatim>\<open>cases/service.py\<close>) collects an invoice, a purchase order and
  receipts; reviewers confirm what was extracted into canonical records (\<^verbatim>\<open>receipts/service.py\<close>,
  \<^verbatim>\<open>matching/service.py\<close>). Matching (\<^verbatim>\<open>matching/engine.py\<close>, \<^verbatim>\<open>matching/three_way.py\<close>) decides on an invoice, records
  allocations of received quantities and calls the duplicate assessment (\<^verbatim>\<open>risk/\<close>) and the review routing
  (\<^verbatim>\<open>review/\<close>) in the same transaction. The API lets requests through by role (\<^verbatim>\<open>auth.py\<close>,
  \<^verbatim>\<open>apps/api/security.py\<close>).

  \<^bold>\<open>The theories.\<close>
  \<^item> \<open>Prelude\<close>, \<open>Text\<close>, \<open>Decimals\<close>, \<open>Canonical\<close>: results, rows of tables (\<open>find_row\<close>, \<open>update_rows\<close>), insertion-ordered
    dictionaries, the locales \<open>inductive_system\<close> (a step relation with an invariant) and \<open>keyed_replay\<close> (an
    idempotent operation), Python's strings on ASCII text, \<^verbatim>\<open>Decimal\<close> with its context of 28 digits and
    half-even rounding, and canonical JSON. Hashing and the text of decimals are fields of the parameter \<open>lib\<close>.
  \<^item> \<open>Invoice_Data\<close>, \<open>Matching_Data\<close>, \<open>Samples\<close>: the schemas of \<^verbatim>\<open>schemas/extraction.py\<close> and \<^verbatim>\<open>schemas/matching.py\<close>, and
    concrete invoices and orders for the witnesses.
  \<^item> \<open>Validation\<close>, \<open>Engine\<close>: \<^verbatim>\<open>matching/validation.py\<close>, \<^verbatim>\<open>normalization.py\<close> and \<^verbatim>\<open>engine.py\<close>. A matched invoice is
    consistent, one-to-one with the order's lines and within the tolerances; the decision contract of the
    schema always holds; an order line can still be billed twice without the decision showing it.
  \<^item> \<open>Receipts\<close>, \<open>Three_Way_Context\<close>, \<open>Three_Way\<close>: \<^verbatim>\<open>receipts/service.py\<close>, \<^verbatim>\<open>matching/context.py\<close> and
    \<^verbatim>\<open>matching/three_way.py\<close>. Receipts are replayed and reversed once; the engine never fails on a context that was
    built for the order; what it allocates is backed by receipts.
  \<^item> \<open>Risk\<close>, \<open>Risk_Service\<close>: \<^verbatim>\<open>risk/engine.py\<close>, \<^verbatim>\<open>risk/normalization.py\<close> and \<^verbatim>\<open>risk/service.py\<close>. Exact duplicates are
    flagged and the query for candidates loses none.
  \<^item> \<open>Review_State\<close>, \<open>Review_Service\<close>: \<^verbatim>\<open>review/state.py\<close>, \<^verbatim>\<open>review/audit.py\<close> and \<^verbatim>\<open>review/service.py\<close>. The hash-chained
    events of a case replay to its row in every reachable state (a refinement), the first of two
    concurrent reviewers wins, open cases can be resolved, and the queue is paged.
  \<^item> \<open>Matching_Service\<close>: \<^verbatim>\<open>matching/service.py\<close> and \<^verbatim>\<open>extraction/selection.py\<close>. Matching is idempotent, allocations stay within
    what was received, and every run is assessed and routed.
  \<^item> \<open>Event_Log\<close>, \<open>Ingestion\<close>: \<^verbatim>\<open>jobs/events.py\<close>, \<^verbatim>\<open>cases/events.py\<close> and \<^verbatim>\<open>ingestion/service.py\<close>. One locale for both logs; every
    stored document has its object, whatever fails and whoever races, and an object without a document is left only
    by a call of the store that raised.
  \<^item> \<open>Case_Data\<close>, \<open>Cases\<close>, \<open>Case_Machine\<close>: \<^verbatim>\<open>schemas/cases.py\<close> and \<^verbatim>\<open>cases/service.py\<close>. An operation that commits in the middle
    is two steps, so that requests interleave; the invariant of documents, confirmations and events, the
    versions, and what a confirmation without a reason may contain (an omitted line total is stored as null).
  \<^item> \<open>Access\<close>: \<^verbatim>\<open>auth.py\<close> and \<^verbatim>\<open>apps/api/security.py\<close>. Only keys that the provider published sign in, the requests to it are
    bounded, and the route table keeps the roles apart.
  \<^item> \<open>Worker\<close>: the tasks, their retries and the bookkeeping of extractions. The system of services and worker
    keeps its invariant, so a succeeded job can be matched; deliveries settle a job and its cases.
  \<^item> \<open>Normalize\<close>, \<open>Grounding\<close>, \<open>Hybrid\<close>, \<open>Hybrid_Service\<close>: \<^verbatim>\<open>extraction/normalization.py\<close>, \<^verbatim>\<open>evidence.py\<close> and the modules \<^verbatim>\<open>grounding\<close>,
    \<^verbatim>\<open>router\<close>, \<^verbatim>\<open>row_association\<close>, \<^verbatim>\<open>fusion\<close> and \<^verbatim>\<open>service\<close> of \<^verbatim>\<open>extraction/hybrid/\<close>. Dates and amounts are read back from their usual
    notations; a model's answer is taken only where its value stands in the words of a page, its rows only
    where they name one extracted line. The service locks nothing, so its workers interleave between their
    transactions: overlapping deliveries do send a request twice (\<open>overlapping_deliveries\<close>), a recorded outcome is reused
    by every worker that reads it, every result is supported by the document, and a worker that stops after the
    outcome was committed loses nothing.
  \<^item> \<open>Patterns\<close>, \<open>Layout\<close>, \<open>Line_Items\<close>, \<open>Header_Rules\<close>: the part of \<^verbatim>\<open>re\<close> the rules use as a backtracking matcher,
    \<^verbatim>\<open>extraction/layout.py\<close>, \<^verbatim>\<open>table_layout.py\<close>, \<^verbatim>\<open>line_item_rules.py\<close>, \<^verbatim>\<open>candidates.py\<close>, \<^verbatim>\<open>header_rules.py\<close> and \<^verbatim>\<open>pipeline.py\<close>. The
    layout keeps every word, columns cover the page, no word is used by two line items, the extracted
    invoice satisfies the schema, its amounts stand in the text, and the order of candidates is irrelevant.
  \<^item> \<open>Supporting\<close>: \<^verbatim>\<open>extraction/supporting.py\<close>, on the same layout and patterns. Purchase orders and receipts satisfy their
    schema and line numbers are unique; a word of a two-word column title can open a second column.
  \<^item> \<open>Supporting_Fusion\<close>, \<open>Supporting_Service\<close>: \<^verbatim>\<open>extraction/supporting_quote_grounding.py\<close>, \<^verbatim>\<open>supporting_hybrid.py\<close> and
    \<^verbatim>\<open>supporting_hybrid_service.py\<close>. What a model adds to a purchase order or receipt is read from a quote that stands on
    a page, the new cells of a line from one row at the height of the line's description, and every extracted line
    keeps its place; the service locks its call, so no request is sent twice; a provider that cannot be built ends the call for good.
  \<^item> \<open>Line_Coverage\<close>, \<open>Total_Guards\<close>: the variants of the extractor, \<^verbatim>\<open>extraction/line_coverage_candidate.py\<close>, \<^verbatim>\<open>value_grounding.py\<close>,
    \<^verbatim>\<open>financial_summary_guard.py\<close> and \<^verbatim>\<open>financial_role_guard.py\<close>. Tables of two columns change nothing on documents without them
    and keep the words apart; narrowed evidence spells the value; a total that passes the guards is printed once
    and is no payable amount, or is the one amount of the one row that prints nothing but a gross label and this amount. The locale \<open>table_scan\<close> of \<open>Line_Items\<close> is interpreted on both scans of tables.
  \<^item> This theory: extraction and fusion together, from the words of a document to the published amounts.

  \<^bold>\<open>How code becomes definitions.\<close> A table is a list of records in the order of insertion, a service operation a
  function from an environment (fresh identifiers, time, failures and the requests that race) and the
  tables to a result and new tables; a unique constraint is a check whose failure is the branch of
  \<^verbatim>\<open>IntegrityError\<close>. Exceptions are values of error types. Values that SQLAlchemy keeps in the identity map of a
  session are kept where the code uses them after a commit. Decimals are exact pairs of coefficient and
  exponent, rounded where Python rounds; floats are binary pairs rounded to 53 bits. Recursion is over lists, except for
  the repetitions of a pattern, whose fuel is the length of the text that is left: \<open>repeat_greedy_enough\<close> shows
  that more changes nothing, as every round consumes a character. The retries of a task are bounded by
  \<open>MAX_RETRIES\<close>, and \<open>worker_settles\<close> shows that four deliveries are enough.

  \<^bold>\<open>Parameters.\<close> The hash function, the text of decimals and of JSON numbers (\<open>lib\<close>), the identity provider with the
  token library (\<open>idp\<close>), the similarity of texts (\<open>fuzzy\<close>), what a document is read as by the worker's reader (\<open>reading\<close>,
  \<open>content\<close>), and what the renderer and the provider of a vision model return. \<open>jwt_decode\<close> of the token library stands for the
  whole call of \<^verbatim>\<open>auth.py\<close>, with the algorithms, required claims and leeway it passes. The worker of \<open>Worker\<close> runs the
  deterministic service, which is what \<^verbatim>\<open>workers/extraction/factory.py\<close> builds when the vision model is off, the default; the service
  it builds otherwise is \<open>Hybrid_Service\<close>. A theorem that needs a law of one of them
  states it as a hypothesis, and its witness instantiates the parameter.

  \<^bold>\<open>Not modelled.\<close> OCR and page rendering, and the clients of the object store, the broker and the vision models:
  their results are inputs. The HTTP routes, read models of responses,
  metrics, logging, configuration, migrations, scripts and the offline evaluation tools carry no decision of
  their own. Text is ASCII: the Unicode cases of Python's string functions and the currency symbols outside
  ASCII are outside the model.
\<close>

definition unclaimed_invoice :: vision_invoice_candidate where
  "unclaimed_invoice = \<lparr>vc_invoice_number = unclaimed, vc_invoice_date = unclaimed, vc_currency = unclaimed, vc_subtotal = unclaimed,
     vc_tax = unclaimed, vc_total = unclaimed, vc_line_items = []\<rparr>"

lemma supported_amount:
  assumes "field_supported NDecimal doc name det f" and "fvalue f = Some v"
  shows "fvalue det = Some v \<or> (\<exists>p < length (dx_pages doc). value_at name (ordered_words (dx_pages doc ! p)) (NDecimal v) (fevidence f))"
  using assms by (auto simp: field_supported_def)

text \<open>
  C12: From the words of a document to the invoice that is published, no amount is made up. Whatever a vision model answers, the
  fused invoice satisfies the schema, and a subtotal, tax or total it holds is read from a piece of text in one
  line of the document, or from consecutive words of one of its pages, which are then its evidence.
\<close>

theorem published_amounts_read:
  assumes "i = fu_invoice (fuse_invoice fz (deterministic_extract doc) k doc)" and "fvalue f = Some v"
    and "(name, f) \<in> {(''subtotal'', inv_subtotal i), (''tax'', inv_tax i), (''total'', inv_total i)}"
  shows "invoice_valid i
    \<and> ((\<exists>l \<in> set (reconstruct_lines doc). \<exists>m. stands_in m (tl_text l) \<and> parse_money m = Some v)
       \<or> (\<exists>p < length (dx_pages doc). value_at name (ordered_words (dx_pages doc ! p)) (NDecimal v) (fevidence f)))"
proof -
  let ?det = "deterministic_extract doc"
  have supported: "invoice_supported doc ?det i" unfolding assms(1) by (rule fuse_invoice_supported)
  obtain d where d: "d \<in> {inv_subtotal ?det, inv_tax ?det, inv_total ?det}" "field_supported NDecimal doc name d f"
    using assms(3) supported by (auto simp: invoice_supported_def)
  from supported_amount [OF d(2) assms(2)] amounts_stand_in_text [OF _ d(1), of v]
  have "(\<exists>l \<in> set (reconstruct_lines doc). \<exists>m. stands_in m (tl_text l) \<and> parse_money m = Some v)
      \<or> (\<exists>p < length (dx_pages doc). value_at name (ordered_words (dx_pages doc ! p)) (NDecimal v) (fevidence f))" by blast
  with supported_valid [OF supported deterministic_invoice_valid] show ?thesis by blast
qed

lemma unclaimed_kept: "inv_total (fu_invoice (fuse_invoice fz det unclaimed_invoice doc)) = inv_total det"
  by (simp add: fuse_invoice_def unclaimed_invoice_def unclaimed_def fuse_header_def Let_def split_beta)

theorem published_amounts_read_witness:
  "invoice_valid (fu_invoice (fuse_invoice equal_ratio (deterministic_extract total_document) unclaimed_invoice total_document))
   \<and> fvalue (inv_total (fu_invoice (fuse_invoice equal_ratio (deterministic_extract total_document) unclaimed_invoice total_document))) = Some (Scaled 5 0)"
  using published_amounts_read [OF refl, of "inv_total (deterministic_extract total_document)" "Scaled 5 0" "''total''" equal_ratio total_document unclaimed_invoice]
    total_extracted by (simp add: unclaimed_kept)

end
